(* ===== verification/Go_Prelude.thy ===== *)
theory Go_Prelude
  imports Complex_Main "HOL-Library.AList" "HOL-Library.Char_ord" "HOL-Library.List_Lexorder"
begin

text \<open>
  The prelude of the development: what the Go sources use of the language and of its standard
  library, and the generic facts the components share.

  \<^item> Go strings are byte strings, here \<^typ>\<open>string\<close>. Identifiers, patterns and template paths of the
    program are ASCII, and on ASCII bytes \<open>TrimSpace\<close>, \<open>ToLower\<close> and \<open>EqualFold\<close> below compute
    what the functions of the same names in package \<open>strings\<close> compute; the Unicode part of these
    functions (white space and case pairs outside ASCII) is not modelled.
  \<^item> A Go \<open>error\<close> result is an \<open>option\<close>: \<^term>\<open>None\<close> is \<open>nil\<close>, \<^term>\<open>Some e\<close> is the error \<open>e\<close>, and a
    validator that returns at its first error is a chain of \<open>e_then\<close> and \<open>first_err\<close>.
  \<^item> A value of type \<open>any\<close> is a \<open>gval\<close>; a Go map is an association list with one entry per key,
    whose order is the order in which a \<open>range\<close> loop visits it.
\<close>

named_theorems validate_simps \<open>equations that turn a chain of checks into the facts it establishes\<close>
named_theorems str_simps \<open>equations on trimmed and lower-cased strings\<close>

section \<open>Errors as values\<close>

definition e_then :: "'e option \<Rightarrow> 'e option \<Rightarrow> 'e option" where
  "e_then a b = (case a of None \<Rightarrow> b | Some e \<Rightarrow> Some e)"

definition guard_err :: "bool \<Rightarrow> 'e \<Rightarrow> 'e option" where
  "guard_err b e = (if b then Some e else None)"

fun first_err :: "('a \<Rightarrow> 'e option) \<Rightarrow> 'a list \<Rightarrow> 'e option" where
  "first_err f [] = None"
| "first_err f (x # xs) = (case f x of None \<Rightarrow> first_err f xs | Some e \<Rightarrow> Some e)"

lemma e_then_simps [simp]:
  "e_then None b = b"
  "e_then (Some e) b = Some e"
  by (simp_all add: e_then_def)

lemma e_then_None [validate_simps]: "e_then a b = None \<longleftrightarrow> a = None \<and> b = None"
  by (auto simp: e_then_def split: option.splits)

lemma guard_err_None [validate_simps]: "guard_err b e = None \<longleftrightarrow> \<not> b"
  by (simp add: guard_err_def)

lemma first_err_None [validate_simps]: "first_err f xs = None \<longleftrightarrow> (\<forall>x\<in>set xs. f x = None)"
  by (induction xs) (auto split: option.splits)

lemma first_err_Some: "first_err f xs = Some e \<Longrightarrow> \<exists>x\<in>set xs. f x = Some e"
  by (induction xs) (auto split: option.splits)

lemma map_sum_Inr: "map_sum f g s = Inr y \<longleftrightarrow> (\<exists>x. s = Inr x \<and> y = g x)"
  by (cases s) auto

lemma map_option_None [validate_simps]: "map_option f x = None \<longleftrightarrow> x = None"
  by simp

text \<open>
  Validators report the first error; a loop that keeps a set of the names it has seen rejects a
  list exactly when the names are not distinct.
\<close>

fun check_distinct :: "('a \<Rightarrow> string) \<Rightarrow> ('a \<Rightarrow> 'e option) \<Rightarrow> (string \<Rightarrow> 'e) \<Rightarrow> ('a \<Rightarrow> 'e option)
    \<Rightarrow> string list \<Rightarrow> 'a list \<Rightarrow> 'e option" where
  "check_distinct name pre dup post seen [] = None"
| "check_distinct name pre dup post seen (x # xs) =
     e_then (pre x)
       (if name x \<in> set seen then Some (dup (name x))
        else e_then (post x) (check_distinct name pre dup post (name x # seen) xs))"

lemma check_distinct_None [validate_simps]:
  "check_distinct name pre dup post seen xs = None \<longleftrightarrow>
     (\<forall>x\<in>set xs. pre x = None \<and> post x = None \<and> name x \<notin> set seen) \<and> distinct (map name xs)"
  by (induction xs arbitrary: seen) (auto simp: e_then_None image_iff)

text \<open>
  A loop that sets a flag: when each iteration sets it exactly if \<open>P\<close> holds of the element, the
  flag at the end says whether it was set before or \<open>P\<close> holds of some element.
\<close>

lemma fold_flag:
  assumes "\<And>x a. x \<in> set xs \<Longrightarrow> g (f x a) \<longleftrightarrow> g a \<or> P x"
  shows "g (fold f xs a) \<longleftrightarrow> g a \<or> (\<exists>x\<in>set xs. P x)"
  using assms by (induction xs arbitrary: a) auto

lemma fold_invariant_on:
  assumes "I a" and "\<And>x a. x \<in> set xs \<Longrightarrow> I a \<Longrightarrow> I (f x a)"
  shows "I (fold f xs a)"
  using assms by (induction xs arbitrary: a) auto

section \<open>Package strings\<close>

definition is_space :: "char \<Rightarrow> bool" where
  "is_space c \<longleftrightarrow> c \<in> {CHR '' '', CHR 0x09, CHR 0x0A, CHR 0x0B, CHR 0x0C, CHR 0x0D}"

definition TrimLeft :: "string \<Rightarrow> string" where
  "TrimLeft s = dropWhile is_space s"

definition TrimSpace :: "string \<Rightarrow> string" where
  "TrimSpace s = rev (dropWhile is_space (rev (dropWhile is_space s)))"

definition lower_char :: "char \<Rightarrow> char" where
  "lower_char c = (let n = (of_char c :: nat) in if 65 \<le> n \<and> n \<le> 90 then char_of (n + 32) else c)"

definition ToLower :: "string \<Rightarrow> string" where
  "ToLower s = map lower_char s"

definition EqualFold :: "string \<Rightarrow> string \<Rightarrow> bool" where
  "EqualFold s t \<longleftrightarrow> ToLower s = ToLower t"

definition HasPrefix :: "string \<Rightarrow> string \<Rightarrow> bool" where
  "HasPrefix s p \<longleftrightarrow> take (length p) s = p"

definition HasSuffix :: "string \<Rightarrow> string \<Rightarrow> bool" where
  "HasSuffix s p \<longleftrightarrow> length p \<le> length s \<and> drop (length s - length p) s = p"

fun Index :: "string \<Rightarrow> string \<Rightarrow> nat option" where
  "Index [] sub = (if sub = [] then Some 0 else None)"
| "Index (c # s) sub =
     (if HasPrefix (c # s) sub then Some 0 else map_option Suc (Index s sub))"

definition Contains :: "string \<Rightarrow> string \<Rightarrow> bool" where
  "Contains s sub \<longleftrightarrow> Index s sub \<noteq> None"

definition ContainsAny :: "string \<Rightarrow> string \<Rightarrow> bool" where
  "ContainsAny s chars \<longleftrightarrow> (\<exists>c\<in>set s. c \<in> set chars)"

fun Split :: "char \<Rightarrow> string \<Rightarrow> string list" where
  "Split sep [] = [[]]"
| "Split sep (c # s) =
     (if c = sep then [] # Split sep s
      else (case Split sep s of [] \<Rightarrow> [[c]] | w # ws \<Rightarrow> (c # w) # ws))"

fun Join :: "string list \<Rightarrow> string \<Rightarrow> string" where
  "Join [] sep = []"
| "Join [w] sep = w"
| "Join (w # ws) sep = w @ sep @ Join ws sep"

lemma lower_char_idem [simp]: "lower_char (lower_char c) = lower_char c"
  by (simp add: lower_char_def Let_def)

lemma is_space_lower [simp]: "is_space (lower_char c) = is_space c"
proof (cases "65 \<le> (of_char c :: nat) \<and> (of_char c :: nat) \<le> 90")
  case True
  then have l: "(of_char (lower_char c) :: nat) = of_char c + 32"
    by (simp add: lower_char_def)
  have "\<not> is_space c" using True by (auto simp: is_space_def)
  moreover have "\<not> is_space (lower_char c)"
  proof
    assume "is_space (lower_char c)"
    then have "(of_char (lower_char c) :: nat) \<le> 32" by (auto simp: is_space_def)
    with l True show False by simp
  qed
  ultimately show ?thesis by simp
next
  case False
  then have "lower_char c = c" by (auto simp: lower_char_def Let_def)
  then show ?thesis by simp
qed

lemma ToLower_idem [simp]: "ToLower (ToLower s) = ToLower s"
  by (simp add: ToLower_def o_def)

lemma ToLower_Nil_iff [simp]: "ToLower s = [] \<longleftrightarrow> s = []"
  by (simp add: ToLower_def)

lemma ToLower_Nil [simp]: "ToLower [] = []"
  by (simp add: ToLower_def)

lemma length_ToLower [simp]: "length (ToLower s) = length s"
  by (simp add: ToLower_def)

lemma TrimSpace_ToLower [str_simps]: "TrimSpace (ToLower s) = ToLower (TrimSpace s)"
  by (simp add: TrimSpace_def ToLower_def dropWhile_map o_def rev_map)

definition trimmed :: "string \<Rightarrow> bool" where
  "trimmed s \<longleftrightarrow> (s \<noteq> [] \<longrightarrow> \<not> is_space (hd s) \<and> \<not> is_space (last s))"

lemma dropWhile_keep_last:
  assumes "xs \<noteq> []" and "\<not> P (last xs)"
  shows "dropWhile P xs \<noteq> [] \<and> last (dropWhile P xs) = last xs"
  using assms by (induction xs) (auto split: if_splits)

lemma TrimSpace_trimmed [simp]: "trimmed (TrimSpace s)"
proof (cases "TrimSpace s = []")
  case True
  then show ?thesis by (simp add: trimmed_def)
next
  case False
  define l where "l = dropWhile is_space s"
  define r where "r = dropWhile is_space (rev l)"
  have t: "TrimSpace s = rev r" by (simp add: TrimSpace_def l_def r_def)
  with False have r: "r \<noteq> []" by simp
  then have l: "l \<noteq> []" by (auto simp: r_def)
  have "\<not> is_space (hd l)" using l unfolding l_def by (rule hd_dropWhile)
  then have "\<not> is_space (last (rev l))" using l by (simp add: last_rev)
  then have "last r = last (rev l)" "\<not> is_space (last r)"
    using dropWhile_keep_last [of "rev l" is_space] l by (auto simp: r_def)
  moreover have "\<not> is_space (hd r)" using r unfolding r_def by (rule hd_dropWhile)
  ultimately show ?thesis using r by (simp add: trimmed_def t hd_rev last_rev)
qed

lemma TrimSpace_id: "trimmed s \<Longrightarrow> TrimSpace s = s"
proof (cases "s = []")
  case True
  then show ?thesis by (simp add: TrimSpace_def)
next
  case False
  assume "trimmed s"
  with False have h: "\<not> is_space (hd s)" and l: "\<not> is_space (last s)"
    by (auto simp: trimmed_def)
  have "dropWhile is_space s = s" using False h by (cases s) auto
  moreover have "dropWhile is_space (rev s) = rev s"
  proof (cases "rev s")
    case (Cons c cs)
    then have "hd (rev s) = c" by simp
    then have "\<not> is_space c" using l by (simp add: hd_rev)
    then show ?thesis unfolding Cons by simp
  qed simp
  ultimately show ?thesis by (simp add: TrimSpace_def)
qed

lemma TrimSpace_idem [simp]: "TrimSpace (TrimSpace s) = TrimSpace s"
  by (rule TrimSpace_id) simp

lemma TrimSpace_Nil [simp]: "TrimSpace [] = []"
  by (simp add: TrimSpace_def)

lemma TrimSpace_eq_Nil: "TrimSpace s = [] \<longleftrightarrow> (\<forall>c\<in>set s. is_space c)"
proof -
  have "TrimSpace s = [] \<longleftrightarrow> (\<forall>c\<in>set (dropWhile is_space s). is_space c)"
    by (simp add: TrimSpace_def dropWhile_eq_Nil_conv)
  also have "\<dots> \<longleftrightarrow> dropWhile is_space s = []"
  proof (cases "dropWhile is_space s")
    case (Cons c cs)
    then have "\<not> is_space c" using hd_dropWhile [of is_space s] by (simp del: dropWhile_eq_Nil_conv)
    with Cons show ?thesis by (simp del: dropWhile_eq_Nil_conv)
  qed (simp del: dropWhile_eq_Nil_conv)
  also have "\<dots> \<longleftrightarrow> (\<forall>c\<in>set s. is_space c)"
    by (rule dropWhile_eq_Nil_conv)
  finally show ?thesis .
qed

lemma TrimSpace_left: "\<forall>c\<in>set a. is_space c \<Longrightarrow> TrimSpace (a @ s) = TrimSpace s"
  by (simp add: TrimSpace_def dropWhile_append)

lemma TrimSpace_right:
  assumes sp: "\<forall>c\<in>set sp. is_space c"
  shows "TrimSpace (a @ sp) = TrimSpace a"
proof (cases "\<forall>c\<in>set a. is_space c")
  case True
  with sp have "\<forall>c\<in>set (a @ sp). is_space c" by auto
  with True have "TrimSpace (a @ sp) = []" "TrimSpace a = []" unfolding TrimSpace_eq_Nil by blast+
  then show ?thesis by simp
next
  case False
  then have "dropWhile is_space (a @ sp) = dropWhile is_space a @ sp"
    by (metis dropWhile_append1)
  moreover have "dropWhile is_space (rev sp @ x) = dropWhile is_space x" for x
    using sp by (simp add: dropWhile_append)
  ultimately show ?thesis by (simp add: TrimSpace_def)
qed

lemma EqualFold_refl [simp]: "EqualFold s s"
  by (simp add: EqualFold_def)

lemma EqualFold_sym: "EqualFold s t \<Longrightarrow> EqualFold t s"
  by (simp add: EqualFold_def)

lemma HasPrefix_append [simp]: "HasPrefix (p @ s) p"
  by (simp add: HasPrefix_def)

lemma HasPrefix_iff: "HasPrefix s p \<longleftrightarrow> (\<exists>t. s = p @ t)"
  by (auto simp: HasPrefix_def) (metis append_take_drop_id)

lemma Split_not_Nil [simp]: "Split sep s \<noteq> []"
  by (induction s) (auto split: list.splits)

lemma Join_Split: "Join (Split sep s) [sep] = s"
proof (induction s)
  case Nil
  then show ?case by simp
next
  case (Cons c s)
  obtain w ws where sp: "Split sep s = w # ws" by (cases "Split sep s") auto
  with Cons.IH show ?case by (cases ws) auto
qed

lemma Split_no_sep: "w \<in> set (Split sep s) \<Longrightarrow> sep \<notin> set w"
  by (induction s arbitrary: w) (auto split: list.splits if_splits)

lemma Index_Some:
  "Index s sub = Some i \<Longrightarrow> i + length sub \<le> length s \<and> take (length sub) (drop i s) = sub"
proof (induction s sub arbitrary: i rule: Index.induct)
  case (2 c s sub)
  then show ?case
  proof (cases "HasPrefix (c # s) sub")
    case True
    with 2 have "i = 0" and "take (length sub) (c # s) = sub" by (auto simp: HasPrefix_def)
    then show ?thesis by (metis add_0 drop0 length_take min.cobounded1)
  qed auto
qed (auto split: if_splits)

end
