(* ===== verification/Go_Path.thy ===== *)
theory Go_Path
  imports Go_Prelude
begin

text \<open>
  \<open>path.Match\<close> of the Go standard library, which the RBAC, policy and event-trigger matchers call:
  the chunked matcher with its \<open>ErrBadPattern\<close> results, on single-byte characters. The result
  \<^term>\<open>None\<close> is \<open>ErrBadPattern\<close>. The lemmas at the end characterise it on the pattern shapes the
  manifests use: a literal, a lone star, and a literal prefix before a star.
\<close>

definition getEsc :: "string \<Rightarrow> (char \<times> string) option" where
  "getEsc chunk =
     (case chunk of
        [] \<Rightarrow> None
      | c # cs \<Rightarrow>
          if c = CHR ''-'' \<or> c = CHR '']'' then None
          else (let ds = (if c = CHR 0x5C then cs else chunk)
                in (case ds of
                      [] \<Rightarrow> None
                    | d # rest \<Rightarrow> if rest = [] then None else Some (d, rest))))"

lemma getEsc_shorter: "getEsc chunk = Some (c, rest) \<Longrightarrow> rest \<noteq> [] \<and> length rest < length chunk"
  by (auto simp: getEsc_def Let_def split: list.splits if_splits)

function matchClass :: "nat \<Rightarrow> char \<Rightarrow> bool \<Rightarrow> string \<Rightarrow> (bool \<times> string) option" where
  "matchClass nrange r m chunk =
     (if chunk \<noteq> [] \<and> hd chunk = CHR '']'' \<and> 0 < nrange then Some (m, tl chunk)
      else (case getEsc chunk of
              None \<Rightarrow> None
            | Some (lo, ch) \<Rightarrow>
                (case (if hd ch = CHR ''-'' then getEsc (tl ch) else Some (lo, ch)) of
                   None \<Rightarrow> None
                 | Some (hi, ch') \<Rightarrow> matchClass (Suc nrange) r (m \<or> (lo \<le> r \<and> r \<le> hi)) ch')))"
  by pat_completeness auto
termination
  by (relation "measure (\<lambda>(n, r, m, chunk). length chunk)")
    (auto dest!: getEsc_shorter split: if_splits)

declare matchClass.simps [simp del]

lemma matchClass_shorter:
  "matchClass n r m chunk = Some (b, rest) \<Longrightarrow> length rest < length chunk"
proof (induction n r m chunk rule: matchClass.induct)
  case (1 n r m chunk)
  show ?case
  proof (cases "chunk \<noteq> [] \<and> hd chunk = CHR '']'' \<and> 0 < n")
    case True
    with "1.prems" show ?thesis by (subst (asm) matchClass.simps) (cases chunk; auto)
  next
    case False
    with "1.prems" obtain lo ch hi ch' where e: "getEsc chunk = Some (lo, ch)"
      and h: "(if hd ch = CHR ''-'' then getEsc (tl ch) else Some (lo, ch)) = Some (hi, ch')"
      and m: "matchClass (Suc n) r (m \<or> (lo \<le> r \<and> r \<le> hi)) ch' = Some (b, rest)"
      by (subst (asm) matchClass.simps) (auto split: option.splits if_splits)
    have "length rest < length ch'" using "1.IH" [OF False e refl h refl m] .
    moreover have "length ch' \<le> length ch"
      using h by (auto dest!: getEsc_shorter split: if_splits)
    ultimately show ?thesis using getEsc_shorter [OF e] by simp
  qed
qed

text \<open>
  \<open>matchChunk failed chunk s\<close>: \<^term>\<open>None\<close> is a malformed pattern, \<^term>\<open>Some None\<close> a mismatch and
  \<^term>\<open>Some (Some t)\<close> a match that leaves \<open>t\<close>. After a mismatch the loop goes on through the chunk
  to check its syntax, with \<open>failed\<close> set.
\<close>

definition negation :: "string \<Rightarrow> bool \<times> string" where
  "negation cs = (case cs of [] \<Rightarrow> (False, cs)
     | d # ds \<Rightarrow> if d = CHR ''^'' then (True, ds) else (False, cs))"

lemma negation_le: "length (snd (negation cs)) \<le> length cs"
  by (auto simp: negation_def split: list.splits)

function matchChunk :: "bool \<Rightarrow> string \<Rightarrow> string \<Rightarrow> string option option" where
  "matchChunk failed0 [] s = Some (if failed0 then None else Some s)"
| "matchChunk failed0 (c # cs) s =
     (let failed = (failed0 \<or> s = []); s' = (if failed then s else tl s) in
      if c = CHR ''['' then
        (case matchClass 0 (if failed then CHR 0x00 else hd s) False (snd (negation cs)) of
           None \<Rightarrow> None
         | Some (m, ch') \<Rightarrow> matchChunk (failed \<or> m = fst (negation cs)) ch' s')
      else if c = CHR ''?'' then matchChunk (failed \<or> hd s = CHR ''/'') cs s'
      else if c = CHR 0x5C then
        (case cs of [] \<Rightarrow> None | d # ds \<Rightarrow> matchChunk (failed \<or> d \<noteq> hd s) ds s')
      else matchChunk (failed \<or> c \<noteq> hd s) cs s')"
  by pat_completeness auto
termination
proof (relation "measure (\<lambda>(f, chunk, s). length chunk)", goal_cases)
  case (2 failed0 c cs s x xa y xb x2)
  have "length x2 < length (snd (negation cs))"
    using 2 by (auto dest!: matchClass_shorter split: if_splits)
  then show ?case using negation_le [of cs] by simp
qed auto

fun scan :: "bool \<Rightarrow> string \<Rightarrow> string \<times> string" where
  "scan inrange [] = ([], [])"
| "scan inrange (c # cs) =
     (if c = CHR 0x5C then
        (case cs of [] \<Rightarrow> ([c], [])
         | d # ds \<Rightarrow> (c # d # fst (scan inrange ds), snd (scan inrange ds)))
      else if c = CHR ''*'' \<and> \<not> inrange then ([], c # cs)
      else (let inr = (if c = CHR ''['' then True else if c = CHR '']'' then False else inrange)
            in (c # fst (scan inr cs), snd (scan inr cs))))"

lemma scan_append: "fst (scan inr p) @ snd (scan inr p) = p"
  by (induction inr p rule: scan.induct) (auto simp: Let_def split: list.splits)

definition scanChunk :: "string \<Rightarrow> bool \<times> string \<times> string" where
  "scanChunk pattern = (let p = dropWhile (\<lambda>c. c = CHR ''*'') pattern
     in (p \<noteq> pattern, scan False p))"

lemma scan_shorter:
  assumes "p \<noteq> []"
  shows "length (snd (scan False (dropWhile (\<lambda>c. c = CHR ''*'') p))) < length p"
proof -
  let ?q = "dropWhile (\<lambda>c. c = CHR ''*'') p"
  have le: "length (snd (scan False ?q)) \<le> length ?q"
    by (metis scan_append le_add2 length_append)
  show ?thesis
  proof (cases "hd p = CHR ''*''")
    case True
    with assms have "length ?q < length p"
      by (cases p) (auto intro: le_imp_less_Suc length_dropWhile_le)
    with le show ?thesis by simp
  next
    case False
    with assms obtain c cs where p: "p = c # cs" and c: "c \<noteq> CHR ''*''" by (cases p) auto
    have "fst (scan False p) \<noteq> []" using p c by (auto simp: Let_def split: list.splits)
    then have "length (snd (scan False p)) < length p"
      using scan_append [of False p] by (metis length_append length_greater_0_conv less_add_same_cancel2)
    then show ?thesis using p c by simp
  qed
qed

lemma scanChunk_shorter: "p \<noteq> [] \<Longrightarrow> scanChunk p = (st, ch, rest) \<Longrightarrow> length rest < length p"
  using scan_shorter [of p] by (auto simp: scanChunk_def Let_def)

fun skipMatch :: "string \<Rightarrow> bool \<Rightarrow> string \<Rightarrow> string option option" where
  "skipMatch chunk lastp [] = Some None"
| "skipMatch chunk lastp (c # cs) =
     (if c = CHR ''/'' then Some None
      else (case matchChunk False chunk cs of
              None \<Rightarrow> None
            | Some None \<Rightarrow> skipMatch chunk lastp cs
            | Some (Some t) \<Rightarrow>
                if lastp \<and> t \<noteq> [] then skipMatch chunk lastp cs else Some (Some t)))"

function restValid :: "string \<Rightarrow> bool option" where
  "restValid pattern =
     (if pattern = [] then Some False
      else (case scanChunk pattern of
              (_, chunk, rest) \<Rightarrow>
                (case matchChunk False chunk [] of None \<Rightarrow> None | Some _ \<Rightarrow> restValid rest)))"
  by pat_completeness auto
termination
  by (relation "measure length") (auto dest: scanChunk_shorter [OF _ sym])

declare restValid.simps [simp del]

function Match :: "string \<Rightarrow> string \<Rightarrow> bool option" where
  "Match pattern name =
     (if pattern = [] then Some (name = [])
      else (case scanChunk pattern of
        (star, chunk, rest) \<Rightarrow>
          if star \<and> chunk = [] then Some (CHR ''/'' \<notin> set name)
          else (case matchChunk False chunk name of
                  None \<Rightarrow> None
                | Some r \<Rightarrow>
                    if (\<exists>t\<in>set_option r. t = [] \<or> rest \<noteq> []) then Match rest (the r)
                    else if star then
                      (case skipMatch chunk (rest = []) name of
                         None \<Rightarrow> None
                       | Some (Some t) \<Rightarrow> Match rest t
                       | Some None \<Rightarrow> restValid rest)
                    else restValid rest)))"
  by pat_completeness auto
termination
  by (relation "measure (\<lambda>(p, n). length p)") (auto dest: scanChunk_shorter [OF _ sym])

declare Match.simps [simp del]

section \<open>The pattern shapes the manifests use\<close>

definition literal_char :: "char \<Rightarrow> bool" where
  "literal_char c \<longleftrightarrow> c \<notin> {CHR ''*'', CHR ''?'', CHR ''['', CHR 0x5C}"

definition literal :: "string \<Rightarrow> bool" where
  "literal s \<longleftrightarrow> (\<forall>c\<in>set s. literal_char c)"

lemma literal_Cons [simp]: "literal (c # s) \<longleftrightarrow> literal_char c \<and> literal s"
  by (simp add: literal_def)

lemma literal_Nil [simp]: "literal []"
  by (simp add: literal_def)

lemma matchChunk_failed: "literal p \<Longrightarrow> matchChunk True p s = Some None"
  by (induction p arbitrary: s) (auto simp: literal_char_def)

lemma matchChunk_literal:
  "literal p \<Longrightarrow> matchChunk False p s = Some (if HasPrefix s p then Some (drop (length p) s) else None)"
proof (induction p arbitrary: s)
  case Nil
  then show ?case by (simp add: HasPrefix_def)
next
  case (Cons c p)
  then show ?case
  proof (cases s)
    case (Cons a t)
    with \<open>literal (c # p)\<close> Cons.IH [of t] show ?thesis
      by (cases "c = a") (auto simp: literal_char_def HasPrefix_def matchChunk_failed)
  qed (auto simp: literal_char_def HasPrefix_def matchChunk_failed)
qed

lemma scan_literal: "literal p \<Longrightarrow> scan inr (p @ q) = (p @ fst (scan (inr \<and> CHR '']'' \<notin> set p) q), snd (scan (inr \<and> CHR '']'' \<notin> set p) q))"
  by (induction p arbitrary: inr) (auto simp: literal_char_def Let_def split: if_splits)

lemma literal_dropWhile: "literal p \<Longrightarrow> dropWhile (\<lambda>c. c = CHR ''*'') p = p"
  by (cases p) (auto simp: literal_char_def)

lemma Match_literal: "literal p \<Longrightarrow> Match p n = Some (p = n)"
proof (cases "p = []")
  case True
  then show ?thesis by (auto simp: Match.simps)
next
  case False
  assume l: "literal p"
  then have "scanChunk p = (False, p, [])"
    using scan_literal [of p False "[]"] by (simp add: scanChunk_def Let_def literal_dropWhile)
  with False l show ?thesis
    by (auto simp: Match.simps [of p n] matchChunk_literal HasPrefix_iff Match.simps [of "[]"] restValid.simps)
qed

lemma Match_star: "Match ''*'' n = Some (CHR ''/'' \<notin> set n)"
  by (simp add: Match.simps [of "''*''"] scanChunk_def Let_def)

lemma Match_prefix_star:
  assumes "literal p"
  shows "Match (p @ ''*'') n = Some (HasPrefix n p \<and> CHR ''/'' \<notin> set (drop (length p) n))"
proof (cases "p = []")
  case True
  then show ?thesis by (simp add: Match_star HasPrefix_def)
next
  case False
  then have "dropWhile (\<lambda>c. c = CHR ''*'') (p @ ''*'') = p @ ''*''"
    using assms by (cases p) (auto simp: literal_char_def)
  then have sc: "scanChunk (p @ ''*'') = (False, p, ''*'')"
    using scan_literal [OF assms, of False "''*''"] by (simp add: scanChunk_def Let_def)
  have rv: "restValid ''*'' = Some False"
    by (simp add: restValid.simps [of "''*''"] scanChunk_def Let_def restValid.simps [of "[]"])
  show ?thesis
    using False sc rv assms
    by (auto simp: Match.simps [of "p @ ''*''"] matchChunk_literal Match_star)
qed

end
