(* ===== verification/Decision.thy ===== *)
theory Decision
  imports Main
begin

text \<open>
  The contract of an authorization decision procedure, shared by the RBAC evaluator and the policy
  evaluator: a request is allowed exactly when a rule of effect \<open>allow\<close> applies to it and no rule of
  effect \<open>deny\<close> does. The client's facts (deny wins, nothing allowed by default, stability when the
  applicable rules change) are proved once here, and both evaluators interpret the locale.
\<close>

locale deny_overrides =
  fixes decide :: "'q \<Rightarrow> bool"
    and applies :: "'q \<Rightarrow> string \<Rightarrow> bool"
  assumes decide_iff: "decide q \<longleftrightarrow> applies q ''allow'' \<and> \<not> applies q ''deny''"
begin

lemma deny_wins: "applies q ''deny'' \<Longrightarrow> \<not> decide q"
  by (simp add: decide_iff)

lemma default_deny: "\<not> applies q ''allow'' \<Longrightarrow> \<not> decide q"
  by (simp add: decide_iff)

lemma decide_cong:
  "(applies q ''allow'' \<longleftrightarrow> applies r ''allow'') \<Longrightarrow> (applies q ''deny'' \<longleftrightarrow> applies r ''deny'') \<Longrightarrow>
   decide q \<longleftrightarrow> decide r"
  by (simp add: decide_iff)

lemma decide_mono:
  assumes "decide q" and "applies q ''allow'' \<Longrightarrow> applies r ''allow''"
    and "applies r ''deny'' \<Longrightarrow> applies q ''deny''"
  shows "decide r"
  using assms by (auto simp: decide_iff)

end

end
