(* ===== verification/Rbac.thy ===== *)
theory Rbac
  imports Go_Path Decision
begin

text \<open>
  The RBAC evaluator: \<open>manifest/rbac.go\<close> over the structs of \<open>model/manifest.go\<close>. The roles, bindings
  and rules are records; \<open>ValidateRBACSpec\<close> is a chain of checks; \<open>EvaluateRBACSubjects\<close> folds its
  four nested loops over the record \<open>rbac_acc\<close> of the loop variables. The lemmas characterise the
  decision by the set of applicable rules.
\<close>

record RBACSubject =
  subj_type :: string
  subj_id :: string

record RBACRule =
  rule_desc :: string
  rule_effect :: string
  rule_resources :: "string list"
  rule_actions :: "string list"

record RBACRole =
  role_name :: string
  role_desc :: string
  role_rules :: "RBACRule list"

record RBACBinding =
  bind_name :: string
  bind_subjects :: "RBACSubject list"
  bind_roles :: "string list"

record RBACManifestSpec =
  spec_roles :: "RBACRole list"
  spec_bindings :: "RBACBinding list"

record RBACRuleMatch =
  rmatch_role :: string
  rmatch_effect :: string
  rmatch_desc :: string
  rmatch_resources :: "string list"
  rmatch_actions :: "string list"

datatype rule_error =
    InvalidEffect string
  | NoResourcePattern
  | NoActionPattern
  | EmptyResourcePattern
  | EmptyActionPattern

datatype rbac_error =
    RbacNoRoles
  | RbacRoleNameRequired
  | RbacRoleDuplicated string
  | RbacRoleNoRules string
  | RbacRoleRule string rule_error
  | RbacBindingNameRequired
  | RbacBindingNoSubjects string
  | RbacBindingNoRoles string
  | RbacBindingInvalidSubject string
  | RbacBindingUnknownRole string string
  | RbacResourceActionRequired
  | RbacSubjectRequired

section \<open>Normalisation and matching\<close>

definition normalizeEffect :: "string \<Rightarrow> string" where
  "normalizeEffect effect =
     (let e = ToLower (TrimSpace effect) in if e = [] then ''allow'' else e)"

definition normalizeSubject :: "RBACSubject \<Rightarrow> RBACSubject" where
  "normalizeSubject s = s\<lparr>subj_type := ToLower (TrimSpace (subj_type s)), subj_id := TrimSpace (subj_id s)\<rparr>"

fun anyPatternMatch :: "string list \<Rightarrow> string \<Rightarrow> bool" where
  "anyPatternMatch [] v = False"
| "anyPatternMatch (p # ps) v =
     (let pattern = TrimSpace p in
      if pattern = [] then anyPatternMatch ps v
      else if Match pattern v = Some True then True
      else if EqualFold pattern v then True
      else anyPatternMatch ps v)"

definition subjectPatternMatches :: "string \<Rightarrow> string \<Rightarrow> bool" where
  "subjectPatternMatches pattern v = (if pattern = ''*'' then True else anyPatternMatch [pattern] v)"

fun bindingSubjectsMatch :: "RBACSubject list \<Rightarrow> RBACSubject \<Rightarrow> bool" where
  "bindingSubjectsMatch [] s = False"
| "bindingSubjectsMatch (c # cs) s =
     (let candidate = normalizeSubject c in
      if subjectPatternMatches (subj_type candidate) (subj_type s)
         \<and> subjectPatternMatches (subj_id candidate) (subj_id s) then True
      else bindingSubjectsMatch cs s)"

definition bindingMatchesSubject :: "RBACBinding \<Rightarrow> RBACSubject \<Rightarrow> bool" where
  "bindingMatchesSubject b s = bindingSubjectsMatch (bind_subjects b) s"

definition ruleMatches :: "RBACRule \<Rightarrow> string \<Rightarrow> string \<Rightarrow> bool" where
  "ruleMatches r resource action \<longleftrightarrow>
     anyPatternMatch (rule_resources r) resource \<and> anyPatternMatch (rule_actions r) action"

definition rbacRuleMatchKey :: "RBACRuleMatch \<Rightarrow> string" where
  "rbacRuleMatchKey m =
     Join [rmatch_role m, rmatch_effect m, rmatch_desc m,
           Join (rmatch_resources m) '','', Join (rmatch_actions m) '',''] ''|''"

section \<open>Validation\<close>

definition validateRBACRule :: "RBACRule \<Rightarrow> rule_error option" where
  "validateRBACRule r =
     (let effect = normalizeEffect (rule_effect r) in
      if effect \<noteq> ''allow'' \<and> effect \<noteq> ''deny'' then Some (InvalidEffect (rule_effect r))
      else if rule_resources r = [] then Some NoResourcePattern
      else if rule_actions r = [] then Some NoActionPattern
      else e_then (first_err (\<lambda>p. guard_err (TrimSpace p = []) EmptyResourcePattern) (rule_resources r))
                  (first_err (\<lambda>p. guard_err (TrimSpace p = []) EmptyActionPattern) (rule_actions r)))"

definition validateRole :: "RBACRole \<Rightarrow> rbac_error option" where
  "validateRole r =
     (let name = TrimSpace (role_name r) in
      if role_rules r = [] then Some (RbacRoleNoRules name)
      else first_err (\<lambda>rule. map_option (RbacRoleRule name) (validateRBACRule rule)) (role_rules r))"

definition validateBinding :: "string list \<Rightarrow> RBACBinding \<Rightarrow> rbac_error option" where
  "validateBinding roleNames b =
     (if TrimSpace (bind_name b) = [] then Some RbacBindingNameRequired
      else if bind_subjects b = [] then Some (RbacBindingNoSubjects (bind_name b))
      else if bind_roles b = [] then Some (RbacBindingNoRoles (bind_name b))
      else e_then
        (first_err (\<lambda>s. guard_err (TrimSpace (subj_type s) = [] \<or> TrimSpace (subj_id s) = [])
           (RbacBindingInvalidSubject (bind_name b))) (bind_subjects b))
        (first_err (\<lambda>r. guard_err (TrimSpace r \<notin> set roleNames)
           (RbacBindingUnknownRole (bind_name b) r)) (bind_roles b)))"

definition ValidateRBACSpec :: "RBACManifestSpec \<Rightarrow> rbac_error option" where
  "ValidateRBACSpec spec =
     (if spec_roles spec = [] then Some RbacNoRoles
      else e_then
        (check_distinct (\<lambda>r. TrimSpace (role_name r))
           (\<lambda>r. guard_err (TrimSpace (role_name r) = []) RbacRoleNameRequired)
           RbacRoleDuplicated validateRole [] (spec_roles spec))
        (first_err (validateBinding (map (\<lambda>r. TrimSpace (role_name r)) (spec_roles spec)))
           (spec_bindings spec)))"

section \<open>Evaluation\<close>

text \<open>The loop variables of \<open>EvaluateRBACSubjects\<close>; \<open>acc_keys\<close> is \<open>ruleMatchSet\<close>.\<close>

record rbac_acc =
  acc_roles :: "string list"
  acc_rules :: "RBACRuleMatch list"
  acc_allow :: bool
  acc_deny :: bool
  acc_keys :: "string list"

definition acc_init :: rbac_acc where
  "acc_init = \<lparr>acc_roles = [], acc_rules = [], acc_allow = False, acc_deny = False, acc_keys = []\<rparr>"

definition normalizeSubjects :: "RBACSubject list \<Rightarrow> RBACSubject list" where
  "normalizeSubjects subjects =
     fold (\<lambda>s acc. let n = normalizeSubject s in
             if subj_type n = [] \<or> subj_id n = [] then acc
             else if n \<in> set acc then acc else acc @ [n]) subjects []"

definition rule_step :: "string \<Rightarrow> string \<Rightarrow> string \<Rightarrow> RBACRule \<Rightarrow> rbac_acc \<Rightarrow> rbac_acc" where
  "rule_step resource action roleName rule a =
     (if \<not> ruleMatches rule resource action then a
      else let effect = normalizeEffect (rule_effect rule);
               m = \<lparr>rmatch_role = roleName, rmatch_effect = effect,
                    rmatch_desc = TrimSpace (rule_desc rule),
                    rmatch_resources = rule_resources rule, rmatch_actions = rule_actions rule\<rparr>;
               key = rbacRuleMatchKey m;
               a1 = (if key \<in> set (acc_keys a) then a
                     else a\<lparr>acc_rules := acc_rules a @ [m], acc_keys := key # acc_keys a\<rparr>);
               a2 = (if effect = ''deny'' then a1\<lparr>acc_deny := True\<rparr> else a1)
           in (if effect = ''allow'' then a2\<lparr>acc_allow := True\<rparr> else a2))"

definition roleIndex :: "RBACManifestSpec \<Rightarrow> string \<Rightarrow> RBACRule list" where
  "roleIndex spec name =
     (case map_of (rev (map (\<lambda>r. (TrimSpace (role_name r), r)) (spec_roles spec))) name of
        None \<Rightarrow> [] | Some r \<Rightarrow> role_rules r)"

definition role_step :: "RBACManifestSpec \<Rightarrow> string \<Rightarrow> string \<Rightarrow> string \<Rightarrow> rbac_acc \<Rightarrow> rbac_acc" where
  "role_step spec resource action rn a =
     (let roleName = TrimSpace rn;
          a1 = (if roleName \<in> set (acc_roles a) then a
                else a\<lparr>acc_roles := acc_roles a @ [roleName]\<rparr>)
      in fold (rule_step resource action roleName) (roleIndex spec roleName) a1)"

definition binding_step ::
  "RBACManifestSpec \<Rightarrow> string \<Rightarrow> string \<Rightarrow> RBACSubject \<Rightarrow> RBACBinding \<Rightarrow> rbac_acc \<Rightarrow> rbac_acc" where
  "binding_step spec resource action s b a =
     (if \<not> bindingMatchesSubject b s then a
      else fold (role_step spec resource action) (bind_roles b) a)"

definition subject_step ::
  "RBACManifestSpec \<Rightarrow> string \<Rightarrow> string \<Rightarrow> RBACSubject \<Rightarrow> rbac_acc \<Rightarrow> rbac_acc" where
  "subject_step spec resource action s a =
     fold (binding_step spec resource action s) (spec_bindings spec) a"

type_synonym rbac_result = "bool \<times> string list \<times> RBACRuleMatch list"

definition EvaluateRBACSubjects ::
  "RBACManifestSpec \<Rightarrow> RBACSubject list \<Rightarrow> string \<Rightarrow> string \<Rightarrow> rbac_error + rbac_result" where
  "EvaluateRBACSubjects spec subjects resource0 action0 =
     (case ValidateRBACSpec spec of
        Some e \<Rightarrow> Inl e
      | None \<Rightarrow>
          let resource = TrimSpace resource0; action = TrimSpace action0 in
          if resource = [] \<or> action = [] then Inl RbacResourceActionRequired
          else let normalized = normalizeSubjects subjects in
          if normalized = [] then Inl RbacSubjectRequired
          else let a = fold (subject_step spec resource action) normalized acc_init in
          if acc_deny a then Inr (False, acc_roles a, acc_rules a)
          else if acc_allow a then Inr (True, acc_roles a, acc_rules a)
          else Inr (False, acc_roles a, acc_rules a))"

definition EvaluateRBAC ::
  "RBACManifestSpec \<Rightarrow> RBACSubject \<Rightarrow> string \<Rightarrow> string \<Rightarrow> rbac_error + rbac_result" where
  "EvaluateRBAC spec subject resource action = EvaluateRBACSubjects spec [subject] resource action"

section \<open>Facts\<close>

lemma anyPatternMatch_iff:
  "anyPatternMatch ps v \<longleftrightarrow>
     (\<exists>p\<in>set ps. TrimSpace p \<noteq> [] \<and> (Match (TrimSpace p) v = Some True \<or> EqualFold (TrimSpace p) v))"
  by (induction ps) (auto simp: Let_def)

lemma bindingMatchesSubject_iff:
  "bindingMatchesSubject b s \<longleftrightarrow>
     (\<exists>c\<in>set (bind_subjects b).
        subjectPatternMatches (subj_type (normalizeSubject c)) (subj_type s) \<and>
        subjectPatternMatches (subj_id (normalizeSubject c)) (subj_id s))"
proof -
  have "bindingSubjectsMatch cs s \<longleftrightarrow>
     (\<exists>c\<in>set cs. subjectPatternMatches (subj_type (normalizeSubject c)) (subj_type s) \<and>
        subjectPatternMatches (subj_id (normalizeSubject c)) (subj_id s))" for cs
    by (induction cs) (auto simp: Let_def)
  then show ?thesis by (simp add: bindingMatchesSubject_def)
qed

lemma normalizeSubject_idem [simp]: "normalizeSubject (normalizeSubject s) = normalizeSubject s"
  by (simp add: normalizeSubject_def str_simps)

lemma normalizeSubjects_props:
  "set (normalizeSubjects subs) =
     {n. \<exists>s\<in>set subs. n = normalizeSubject s \<and> subj_type n \<noteq> [] \<and> subj_id n \<noteq> []} \<and>
   distinct (normalizeSubjects subs)"
proof -
  let ?f = "\<lambda>s acc. let n = normalizeSubject s in
             if subj_type n = [] \<or> subj_id n = [] then acc
             else if n \<in> set acc then acc else acc @ [n]"
  have "set (fold ?f subs a) =
     set a \<union> {n. \<exists>s\<in>set subs. n = normalizeSubject s \<and> subj_type n \<noteq> [] \<and> subj_id n \<noteq> []} \<and>
     (distinct a \<longrightarrow> distinct (fold ?f subs a))" for a
    by (induction subs arbitrary: a) (auto simp: Let_def)
  then show ?thesis by (simp add: normalizeSubjects_def)
qed

lemmas set_normalizeSubjects = normalizeSubjects_props [THEN conjunct1]
lemmas distinct_normalizeSubjects = normalizeSubjects_props [THEN conjunct2]

subsection \<open>What a valid specification is\<close>

definition wf_rule :: "RBACRule \<Rightarrow> bool" where
  "wf_rule r \<longleftrightarrow> normalizeEffect (rule_effect r) \<in> {''allow'', ''deny''} \<and>
     rule_resources r \<noteq> [] \<and> rule_actions r \<noteq> [] \<and>
     (\<forall>p\<in>set (rule_resources r) \<union> set (rule_actions r). TrimSpace p \<noteq> [])"

definition wf_rbac :: "RBACManifestSpec \<Rightarrow> bool" where
  "wf_rbac spec \<longleftrightarrow>
     spec_roles spec \<noteq> [] \<and>
     distinct (map (\<lambda>r. TrimSpace (role_name r)) (spec_roles spec)) \<and>
     (\<forall>r\<in>set (spec_roles spec). TrimSpace (role_name r) \<noteq> [] \<and> role_rules r \<noteq> [] \<and>
        (\<forall>rule\<in>set (role_rules r). wf_rule rule)) \<and>
     (\<forall>b\<in>set (spec_bindings spec). TrimSpace (bind_name b) \<noteq> [] \<and>
        bind_subjects b \<noteq> [] \<and> bind_roles b \<noteq> [] \<and>
        (\<forall>s\<in>set (bind_subjects b). TrimSpace (subj_type s) \<noteq> [] \<and> TrimSpace (subj_id s) \<noteq> []) \<and>
        TrimSpace ` set (bind_roles b) \<subseteq> (\<lambda>r. TrimSpace (role_name r)) ` set (spec_roles spec))"

lemma validateRBACRule_None [validate_simps]: "validateRBACRule r = None \<longleftrightarrow> wf_rule r"
  by (auto simp: validateRBACRule_def wf_rule_def Let_def validate_simps)

lemma validateRole_None [validate_simps]:
  "validateRole r = None \<longleftrightarrow> role_rules r \<noteq> [] \<and> (\<forall>rule\<in>set (role_rules r). wf_rule rule)"
  by (auto simp: validateRole_def Let_def validate_simps)

lemma validateBinding_None [validate_simps]:
  "validateBinding names b = None \<longleftrightarrow> TrimSpace (bind_name b) \<noteq> [] \<and>
     bind_subjects b \<noteq> [] \<and> bind_roles b \<noteq> [] \<and>
     (\<forall>s\<in>set (bind_subjects b). TrimSpace (subj_type s) \<noteq> [] \<and> TrimSpace (subj_id s) \<noteq> []) \<and>
     (\<forall>r\<in>set (bind_roles b). TrimSpace r \<in> set names)"
  by (auto simp: validateBinding_def validate_simps)

lemma ValidateRBACSpec_None: "ValidateRBACSpec spec = None \<longleftrightarrow> wf_rbac spec"
  by (auto simp: ValidateRBACSpec_def wf_rbac_def validate_simps image_subset_iff)

subsection \<open>The decision\<close>

text \<open>A rule of effect \<open>eff\<close> applies: through a binding of one of the subjects and a role of that binding.\<close>

definition rbac_applies ::
  "RBACManifestSpec \<Rightarrow> RBACSubject list \<Rightarrow> string \<Rightarrow> string \<Rightarrow> string \<Rightarrow> bool" where
  "rbac_applies spec subjects resource action eff \<longleftrightarrow>
     (\<exists>s\<in>set (normalizeSubjects subjects). \<exists>b\<in>set (spec_bindings spec). bindingMatchesSubject b s \<and>
       (\<exists>rn\<in>set (bind_roles b). \<exists>role\<in>set (spec_roles spec). TrimSpace (role_name role) = TrimSpace rn \<and>
         (\<exists>rule\<in>set (role_rules role). ruleMatches rule (TrimSpace resource) (TrimSpace action) \<and>
            normalizeEffect (rule_effect rule) = eff)))"

definition acc_flag :: "string \<Rightarrow> rbac_acc \<Rightarrow> bool" where
  "acc_flag eff a = (if eff = ''deny'' then acc_deny a else acc_allow a)"

lemma rule_step_flag:
  "eff \<in> {''allow'', ''deny''} \<Longrightarrow>
   acc_flag eff (rule_step resource action rn rule a) \<longleftrightarrow>
     acc_flag eff a \<or> (ruleMatches rule resource action \<and> normalizeEffect (rule_effect rule) = eff)"
  by (auto simp: rule_step_def acc_flag_def Let_def)

lemma role_step_flag:
  assumes "eff \<in> {''allow'', ''deny''}"
  shows "acc_flag eff (role_step spec resource action rn a) \<longleftrightarrow>
     acc_flag eff a \<or> (\<exists>rule\<in>set (roleIndex spec (TrimSpace rn)).
        ruleMatches rule resource action \<and> normalizeEffect (rule_effect rule) = eff)"
proof -
  have "acc_flag eff (a\<lparr>acc_roles := xs\<rparr>) = acc_flag eff a" for xs
    by (simp add: acc_flag_def)
  then show ?thesis
    unfolding role_step_def Let_def
    by (subst fold_flag [where P = "\<lambda>rule. ruleMatches rule resource action \<and>
          normalizeEffect (rule_effect rule) = eff"])
       (auto simp: rule_step_flag [OF assms])
qed

lemma roleIndex_set:
  assumes "distinct (map (\<lambda>r. TrimSpace (role_name r)) (spec_roles spec))"
  shows "set (roleIndex spec n) =
     {rule. \<exists>role\<in>set (spec_roles spec). TrimSpace (role_name role) = n \<and> rule \<in> set (role_rules role)}"
proof -
  let ?al = "rev (map (\<lambda>r. (TrimSpace (role_name r), r)) (spec_roles spec))"
  have d: "distinct (map fst ?al)" using assms by (simp add: rev_map [symmetric] o_def)
  have some: "map_of ?al n = Some r \<longleftrightarrow> r \<in> set (spec_roles spec) \<and> TrimSpace (role_name r) = n" for r
    using d by (auto simp: map_of_eq_Some_iff)
  show ?thesis
  proof (cases "map_of ?al n")
    case None
    with some have "\<And>r. \<not> (r \<in> set (spec_roles spec) \<and> TrimSpace (role_name r) = n)" by simp
    moreover from None have "roleIndex spec n = []" by (simp add: roleIndex_def)
    ultimately show ?thesis by auto
  next
    case (Some r)
    then have "r' \<in> set (spec_roles spec) \<and> TrimSpace (role_name r') = n \<longleftrightarrow> r' = r" for r'
      using some [of r'] by auto
    moreover from Some have "roleIndex spec n = role_rules r" by (simp add: roleIndex_def)
    ultimately show ?thesis by (simp add: Bex_def conj_assoc [symmetric])
  qed
qed

lemma subjects_flag:
  assumes "eff \<in> {''allow'', ''deny''}"
  shows "acc_flag eff (fold (subject_step spec resource action) ss acc_init) \<longleftrightarrow>
     (\<exists>s\<in>set ss. \<exists>b\<in>set (spec_bindings spec). bindingMatchesSubject b s \<and>
       (\<exists>rn\<in>set (bind_roles b). \<exists>rule\<in>set (roleIndex spec (TrimSpace rn)).
          ruleMatches rule resource action \<and> normalizeEffect (rule_effect rule) = eff))"
proof -
  let ?Q = "\<lambda>rn. \<exists>rule\<in>set (roleIndex spec (TrimSpace rn)).
          ruleMatches rule resource action \<and> normalizeEffect (rule_effect rule) = eff"
  have b: "acc_flag eff (binding_step spec resource action s b a) \<longleftrightarrow>
      acc_flag eff a \<or> (bindingMatchesSubject b s \<and> (\<exists>rn\<in>set (bind_roles b). ?Q rn))" for s b a
    using fold_flag [of "bind_roles b" "acc_flag eff" "role_step spec resource action" ?Q a]
    by (simp add: binding_step_def role_step_flag [OF assms])
  have s: "acc_flag eff (subject_step spec resource action s a) \<longleftrightarrow> acc_flag eff a \<or>
      (\<exists>b\<in>set (spec_bindings spec). bindingMatchesSubject b s \<and> (\<exists>rn\<in>set (bind_roles b). ?Q rn))" for s a
    unfolding subject_step_def by (rule fold_flag) (rule b)
  have "\<not> acc_flag eff acc_init" by (simp add: acc_flag_def acc_init_def)
  then show ?thesis using fold_flag [of ss "acc_flag eff", OF s] by simp
qed

lemma subjects_flag_applies:
  assumes "ValidateRBACSpec spec = None" and "eff \<in> {''allow'', ''deny''}"
  shows "acc_flag eff (fold (subject_step spec (TrimSpace resource) (TrimSpace action))
           (normalizeSubjects subjects) acc_init) \<longleftrightarrow> rbac_applies spec subjects resource action eff"
proof -
  have "distinct (map (\<lambda>r. TrimSpace (role_name r)) (spec_roles spec))"
    using assms(1) by (simp add: ValidateRBACSpec_None wf_rbac_def)
  from roleIndex_set [OF this]
  have "(\<exists>rule\<in>set (roleIndex spec n). P rule) \<longleftrightarrow>
      (\<exists>role\<in>set (spec_roles spec). TrimSpace (role_name role) = n \<and> (\<exists>rule\<in>set (role_rules role). P rule))"
    for n P by auto
  then show ?thesis
    unfolding subjects_flag [OF assms(2)] rbac_applies_def by presburger
qed

lemma EvaluateRBACSubjects_decision:
  assumes "EvaluateRBACSubjects spec subjects resource action = Inr (allowed, roles, rules)"
  shows "allowed \<longleftrightarrow> rbac_applies spec subjects resource action ''allow'' \<and>
                     \<not> rbac_applies spec subjects resource action ''deny''"
proof -
  from assms have v: "ValidateRBACSpec spec = None"
    by (auto simp: EvaluateRBACSubjects_def split: option.splits)
  let ?a = "fold (subject_step spec (TrimSpace resource) (TrimSpace action))
           (normalizeSubjects subjects) acc_init"
  have "allowed \<longleftrightarrow> acc_flag ''allow'' ?a \<and> \<not> acc_flag ''deny'' ?a"
    using assms v by (auto simp: EvaluateRBACSubjects_def acc_flag_def Let_def split: if_splits)
  then show ?thesis by (simp add: subjects_flag_applies [OF v])
qed

text \<open>When the evaluator answers at all: a valid specification and a well-formed question.\<close>

lemma EvaluateRBACSubjects_total:
  "(\<exists>r. EvaluateRBACSubjects spec subjects resource action = Inr r) \<longleftrightarrow>
     wf_rbac spec \<and> TrimSpace resource \<noteq> [] \<and> TrimSpace action \<noteq> [] \<and> normalizeSubjects subjects \<noteq> []"
  by (auto simp: EvaluateRBACSubjects_def ValidateRBACSpec_None [symmetric] Let_def split: option.splits)

type_synonym rbac_query = "RBACManifestSpec \<times> RBACSubject list \<times> string \<times> string"

definition rbac_decide :: "rbac_query \<Rightarrow> bool" where
  "rbac_decide q = (case q of (spec, subjects, resource, action) \<Rightarrow>
     (case EvaluateRBACSubjects spec subjects resource action of Inr (b, _, _) \<Rightarrow> b | Inl _ \<Rightarrow> False))"

definition rbac_query_applies :: "rbac_query \<Rightarrow> string \<Rightarrow> bool" where
  "rbac_query_applies q eff = (case q of (spec, subjects, resource, action) \<Rightarrow>
     wf_rbac spec \<and> TrimSpace resource \<noteq> [] \<and> TrimSpace action \<noteq> [] \<and>
     rbac_applies spec subjects resource action eff)"

interpretation rbac: deny_overrides rbac_decide rbac_query_applies
proof
  fix q :: rbac_query
  obtain spec subs res act where q: "q = (spec, subs, res, act)" by (cases q)
  show "rbac_decide q \<longleftrightarrow> rbac_query_applies q ''allow'' \<and> \<not> rbac_query_applies q ''deny''"
  proof (cases "EvaluateRBACSubjects spec subs res act")
    case (Inl e)
    then have "\<not> (wf_rbac spec \<and> TrimSpace res \<noteq> [] \<and> TrimSpace act \<noteq> [] \<and> normalizeSubjects subs \<noteq> [])"
      using EvaluateRBACSubjects_total [of spec subs res act] by auto
    with Inl show ?thesis
      by (auto simp: q rbac_decide_def rbac_query_applies_def rbac_applies_def)
  next
    case (Inr r)
    obtain b rs ms where r: "r = (b, rs, ms)" by (cases r)
    with Inr have "wf_rbac spec \<and> TrimSpace res \<noteq> [] \<and> TrimSpace act \<noteq> []"
      using EvaluateRBACSubjects_total [of spec subs res act] by auto
    with Inr r EvaluateRBACSubjects_decision [of spec subs res act b rs ms] show ?thesis
      by (simp add: q rbac_decide_def rbac_query_applies_def)
  qed
qed

subsection \<open>The trace\<close>

text \<open>The trace of matched roles and rules: no role and no rule key twice, every rule explained.\<close>

definition trace_ok :: "string \<Rightarrow> string \<Rightarrow> rbac_acc \<Rightarrow> bool" where
  "trace_ok resource action a \<longleftrightarrow>
     distinct (acc_roles a) \<and> distinct (map rbacRuleMatchKey (acc_rules a)) \<and>
     set (acc_keys a) = rbacRuleMatchKey ` set (acc_rules a) \<and>
     (\<forall>m\<in>set (acc_rules a). rmatch_role m \<in> set (acc_roles a) \<and>
        anyPatternMatch (rmatch_resources m) resource \<and> anyPatternMatch (rmatch_actions m) action)"

lemma trace_ok_rule_step:
  assumes "trace_ok resource action a \<and> rn \<in> set (acc_roles a)"
  shows "trace_ok resource action (rule_step resource action rn rule a) \<and>
         rn \<in> set (acc_roles (rule_step resource action rn rule a))"
  using assms by (auto simp: trace_ok_def rule_step_def ruleMatches_def Let_def)

lemma trace_ok_role_step:
  assumes "trace_ok resource action a"
  shows "trace_ok resource action (role_step spec resource action rn a)"
proof -
  let ?a = "if TrimSpace rn \<in> set (acc_roles a) then a
            else a\<lparr>acc_roles := acc_roles a @ [TrimSpace rn]\<rparr>"
  have "trace_ok resource action ?a \<and> TrimSpace rn \<in> set (acc_roles ?a)"
    using assms by (auto simp: trace_ok_def)
  then have "trace_ok resource action
      (fold (rule_step resource action (TrimSpace rn)) (roleIndex spec (TrimSpace rn)) ?a) \<and>
      TrimSpace rn \<in> set (acc_roles
        (fold (rule_step resource action (TrimSpace rn)) (roleIndex spec (TrimSpace rn)) ?a))"
    by (rule fold_invariant_on) (rule trace_ok_rule_step)
  then show ?thesis by (simp add: role_step_def Let_def)
qed

lemma trace_ok_eval: "trace_ok resource action (fold (subject_step spec resource action) ss acc_init)"
proof (rule fold_invariant_on)
  show "trace_ok resource action acc_init" by (simp add: trace_ok_def acc_init_def)
  have b: "trace_ok resource action a \<Longrightarrow> trace_ok resource action (binding_step spec resource action s b a)"
    for s b a unfolding binding_step_def
    by (auto intro: fold_invariant_on [where I = "trace_ok resource action"] trace_ok_role_step)
  show "trace_ok resource action a \<Longrightarrow> trace_ok resource action (subject_step spec resource action s a)"
    for s a unfolding subject_step_def
    by (rule fold_invariant_on [where I = "trace_ok resource action"]) (auto intro: b)
qed

lemma EvaluateRBACSubjects_trace:
  assumes "EvaluateRBACSubjects spec subjects resource action = Inr (allowed, roles, rules)"
  shows "\<exists>a. trace_ok (TrimSpace resource) (TrimSpace action) a \<and> roles = acc_roles a \<and> rules = acc_rules a"
proof (intro exI conjI)
  let ?a = "fold (subject_step spec (TrimSpace resource) (TrimSpace action))
           (normalizeSubjects subjects) acc_init"
  show "trace_ok (TrimSpace resource) (TrimSpace action) ?a" by (rule trace_ok_eval)
  show "roles = acc_roles ?a" and "rules = acc_rules ?a"
    using assms by (auto simp: EvaluateRBACSubjects_def Let_def split: option.splits if_splits)
qed

section \<open>Properties\<close>

text \<open>C1: \<open>EvaluateRBACSubjects\<close> is deny-overrides over the effective subjects: when it answers, the answer
  is allow exactly if some rule of effect allow reaches one of the normalised subjects through a
  matching binding and a role of that binding, and no such rule of effect deny does.\<close>
theorem rbac_decision_correct:
  assumes "EvaluateRBACSubjects spec subjects resource action = Inr (allowed, roles, rules)"
  shows "allowed \<longleftrightarrow> rbac_applies spec subjects resource action ''allow'' \<and>
                     \<not> rbac_applies spec subjects resource action ''deny''"
  using assms by (rule EvaluateRBACSubjects_decision)

definition ex_rule :: "string \<Rightarrow> RBACRule" where
  "ex_rule eff = \<lparr>rule_desc = [], rule_effect = eff, rule_resources = [''deploy''], rule_actions = [''run'']\<rparr>"

definition ex_rbac :: RBACManifestSpec where
  "ex_rbac = \<lparr>spec_roles = [\<lparr>role_name = ''ops'', role_desc = [], role_rules = [ex_rule []]\<rparr>],
     spec_bindings = [\<lparr>bind_name = ''b'', bind_subjects = [\<lparr>subj_type = ''User'', subj_id = ''*''\<rparr>],
        bind_roles = ['' ops'']\<rparr>]\<rparr>"

definition ex_subject :: RBACSubject where
  "ex_subject = \<lparr>subj_type = ''user'', subj_id = ''ana''\<rparr>"

lemma ex_rbac_eval:
  "EvaluateRBACSubjects ex_rbac [ex_subject] ''deploy'' ''run'' =
     Inr (True, [''ops''], [\<lparr>rmatch_role = ''ops'', rmatch_effect = ''allow'', rmatch_desc = [],
       rmatch_resources = [''deploy''], rmatch_actions = [''run'']\<rparr>])"
  by code_simp

theorem rbac_decision_correct_witness:
  "rbac_applies ex_rbac [ex_subject] ''deploy'' ''run'' ''allow'' \<and>
   \<not> rbac_applies ex_rbac [ex_subject] ''deploy'' ''run'' ''deny''"
  using rbac_decision_correct [OF ex_rbac_eval] by simp

text \<open>\<open>ValidateRBACSpec\<close> accepts exactly the specifications with at least one role, distinct non-empty
  trimmed role names, non-empty well-formed rules, and bindings that name valid subjects and only
  declared roles: its loop over the names seen so far rejects precisely the duplicates.\<close>
theorem rbac_validation_correct: "ValidateRBACSpec spec = None \<longleftrightarrow> wf_rbac spec"
  by (rule ValidateRBACSpec_None)

text \<open>A deny cannot be escaped by acquiring more subjects: when a deny rule applies to a list of
  subjects, no larger list of subjects is allowed the same action on the same resource.\<close>
theorem rbac_deny_not_escalated:
  assumes "rbac_applies spec subjects resource action ''deny''" and "set subjects \<subseteq> set larger"
  shows "\<not> rbac_decide (spec, larger, resource, action)"
proof
  assume d: "rbac_decide (spec, larger, resource, action)"
  have "set (normalizeSubjects subjects) \<subseteq> set (normalizeSubjects larger)"
    using assms(2) by (auto simp: set_normalizeSubjects)
  then have "rbac_applies spec larger resource action ''deny''"
    using assms(1) unfolding rbac_applies_def by blast
  moreover have "rbac_query_applies (spec, larger, resource, action) ''allow''"
    using d rbac.default_deny by blast
  ultimately have "rbac_query_applies (spec, larger, resource, action) ''deny''"
    by (simp add: rbac_query_applies_def)
  with d show False using rbac.deny_wins by blast
qed

definition ex_rbac_deny :: RBACManifestSpec where
  "ex_rbac_deny = ex_rbac\<lparr>spec_roles := [\<lparr>role_name = ''ops'', role_desc = [],
      role_rules = [ex_rule ''allow'', ex_rule '' DENY '']\<rparr>]\<rparr>"

lemma ex_rbac_deny_applies: "rbac_applies ex_rbac_deny [ex_subject] ''deploy'' ''run'' ''deny''"
  by code_simp

theorem rbac_deny_not_escalated_witness:
  "\<not> rbac_decide (ex_rbac_deny, [ex_subject\<lparr>subj_type := ''team''\<rparr>, ex_subject], ''deploy'', ''run'')"
  by (rule rbac_deny_not_escalated [OF ex_rbac_deny_applies]) simp

text \<open>The decision depends on the set of normalised subjects only: their order, repetitions,
  surrounding white space and the case of their types do not matter.\<close>
theorem rbac_subject_presentation_irrelevant:
  assumes "normalizeSubject ` set subjects = normalizeSubject ` set others"
  shows "rbac_decide (spec, subjects, resource, action) \<longleftrightarrow> rbac_decide (spec, others, resource, action)"
proof (rule rbac.decide_cong)
  have "set (normalizeSubjects xs) = {n \<in> normalizeSubject ` set xs. subj_type n \<noteq> [] \<and> subj_id n \<noteq> []}" for xs
    by (auto simp: set_normalizeSubjects)
  with assms have "set (normalizeSubjects subjects) = set (normalizeSubjects others)" by simp
  then have "rbac_query_applies (spec, subjects, resource, action) eff \<longleftrightarrow>
        rbac_query_applies (spec, others, resource, action) eff" for eff
    by (simp add: rbac_query_applies_def rbac_applies_def)
  then show "rbac_query_applies (spec, subjects, resource, action) ''allow'' \<longleftrightarrow>
        rbac_query_applies (spec, others, resource, action) ''allow''"
    and "rbac_query_applies (spec, subjects, resource, action) ''deny'' \<longleftrightarrow>
        rbac_query_applies (spec, others, resource, action) ''deny''" by blast+
qed

theorem rbac_subject_presentation_irrelevant_witness:
  "rbac_decide (ex_rbac, [ex_subject], ''deploy'', ''run'') \<longleftrightarrow>
   rbac_decide (ex_rbac, [\<lparr>subj_type = '' USER'', subj_id = ''ana ''\<rparr>, ex_subject], ''deploy'', ''run'')"
  by (rule rbac_subject_presentation_irrelevant) code_simp

text \<open>The explanation returned with a decision is sound: no role and no rule key is listed twice, and
  every listed rule belongs to a listed role and has a resource and an action pattern that match
  the request.\<close>
theorem rbac_trace_sound:
  assumes "EvaluateRBACSubjects spec subjects resource action = Inr (allowed, roles, rules)"
  shows "distinct roles \<and> distinct (map rbacRuleMatchKey rules) \<and>
    (\<forall>m\<in>set rules. rmatch_role m \<in> set roles \<and> anyPatternMatch (rmatch_resources m) (TrimSpace resource) \<and>
       anyPatternMatch (rmatch_actions m) (TrimSpace action))"
  using EvaluateRBACSubjects_trace [OF assms] by (auto simp: trace_ok_def)

theorem rbac_trace_sound_witness:
  "distinct [''ops''] \<and> anyPatternMatch [''deploy''] (TrimSpace ''deploy'') \<and>
   anyPatternMatch [''run''] (TrimSpace ''run'')"
  using rbac_trace_sound [OF ex_rbac_eval] by simp

text \<open>A wildcard pattern of an RBAC rule does not cross a path separator: a rule whose only resource
  pattern is a star matches a resource exactly when it has no slash or is the star itself.\<close>
theorem rbac_star_stays_in_segment:
  "anyPatternMatch [''*''] resource \<longleftrightarrow> CHR ''/'' \<notin> set resource"
proof -
  have t: "TrimSpace ''*'' = ''*''" by code_simp
  have "EqualFold ''*'' resource \<Longrightarrow> CHR ''/'' \<notin> set resource"
  proof -
    assume "EqualFold ''*'' resource"
    then have "ToLower resource = ''*''" by (simp add: EqualFold_def ToLower_def lower_char_def)
    then obtain c where "resource = [c]" "lower_char c = CHR ''*''" by (auto simp: ToLower_def)
    then show ?thesis by (auto simp: lower_char_def)
  qed
  then show ?thesis by (auto simp: t Match_star)
qed

end
