(* ===== verification/Go_Value.thy ===== *)
theory Go_Value
  imports Go_Prelude
begin

text \<open>
  Values of Go type \<open>any\<close> as the manifests and the workflow engine hold them: what
  \<open>encoding/json\<close> decodes into \<open>any\<close>, the \<open>int\<close>s the program puts into such values itself, and the
  typed slices and structs, which a type switch on \<open>[]any\<close> or \<open>map[string]any\<close> does not match.

  A finite \<open>float64\<close> is the rational number it denotes; \<open>f64_of_int\<close> is the conversion of an
  integer to \<open>float64\<close>, rounding to 53 significant bits with ties to even. The printing of a
  \<open>float64\<close> by \<open>fmt\<close> and the regular expression engine are fields of the record \<open>golib\<close>, which the
  definitions that use them take as an argument.
\<close>

datatype gval =
    GNil
  | GBool bool
  | GInt int
  | GFloat rat
  | GNumber string "rat option" \<comment> \<open>a \<open>json.Number\<close>: its text, and what \<open>Float64()\<close> returns\<close>
  | GStr string
  | GList "gval list"                  \<comment> \<open>\<open>[]any\<close>\<close>
  | GMap "(string \<times> gval) list"        \<comment> \<open>\<open>map[string]any\<close>\<close>
  | GMaps "(string \<times> gval) list list"  \<comment> \<open>\<open>[]map[string]any\<close>\<close>
  | GStrs "string list"                \<comment> \<open>\<open>[]string\<close>\<close>
  | GStruct "(string \<times> gval) list"     \<comment> \<open>a struct of the program: its exported fields in order\<close>

type_synonym gmap = "(string \<times> gval) list"

record golib =
  FormatFloat :: "rat \<Rightarrow> string"
  RegexpMatch :: "string \<Rightarrow> string \<Rightarrow> bool option" \<comment> \<open>pattern, text; None: the pattern does not compile\<close>

section \<open>Numbers\<close>

fun bit_len :: "nat \<Rightarrow> nat" where
  "bit_len n = (if n = 0 then 0 else Suc (bit_len (n div 2)))"

declare bit_len.simps [simp del]

definition round53 :: "nat \<Rightarrow> nat" where
  "round53 n =
     (let b = bit_len n in
      if b \<le> 53 then n
      else (let s = b - 53; q = n div 2 ^ s; r = n mod 2 ^ s; h = 2 ^ (s - 1)
            in (if h < r \<or> (r = h \<and> odd q) then Suc q else q) * 2 ^ s))"

definition f64_of_int :: "int \<Rightarrow> rat" where
  "f64_of_int i = (if i < 0 then - of_nat (round53 (nat (- i))) else of_nat (round53 (nat i)))"

lemma bit_len_bound: "n < 2 ^ k \<Longrightarrow> bit_len n \<le> k"
proof (induction k arbitrary: n)
  case 0
  then show ?case by (simp add: bit_len.simps)
next
  case (Suc k)
  show ?case
  proof (cases "n = 0")
    case False
    from Suc.prems have "n div 2 < 2 ^ k" by (simp add: less_mult_imp_div_less mult.commute)
    then have "bit_len (n div 2) \<le> k" by (rule Suc.IH)
    then show ?thesis using False by (subst bit_len.simps) simp
  qed (simp add: bit_len.simps)
qed

lemma f64_of_int_exact: "\<bar>i\<bar> < 2 ^ 53 \<Longrightarrow> f64_of_int i = of_int i"
proof -
  assume a: "\<bar>i\<bar> < 2 ^ 53"
  then have "nat \<bar>i\<bar> < 2 ^ 53" by simp
  then have "round53 (nat \<bar>i\<bar>) = nat \<bar>i\<bar>"
    using bit_len_bound [of "nat \<bar>i\<bar>" 53] by (simp add: round53_def)
  then show ?thesis by (auto simp: f64_of_int_def abs_if split: if_splits)
qed

section \<open>reflect.DeepEqual\<close>

text \<open>
  Structural equality; two maps are equal when they have as many entries and every entry of the
  one is deeply equal to the other's entry of the same key, whatever their orders.
\<close>

fun deepEqual :: "gval \<Rightarrow> gval \<Rightarrow> bool"
and deepEqualList :: "gval list \<Rightarrow> gval list \<Rightarrow> bool"
and deepEqualEntries :: "gmap \<Rightarrow> gmap \<Rightarrow> bool"
and deepEqualMaps :: "gmap list \<Rightarrow> gmap list \<Rightarrow> bool" where
  "deepEqual GNil w = (w = GNil)"
| "deepEqual (GBool b) w = (w = GBool b)"
| "deepEqual (GInt i) w = (w = GInt i)"
| "deepEqual (GFloat x) w = (w = GFloat x)"
| "deepEqual (GNumber s f) w = (case w of GNumber t g \<Rightarrow> s = t | _ \<Rightarrow> False)"
| "deepEqual (GStr s) w = (w = GStr s)"
| "deepEqual (GList xs) w = (case w of GList ys \<Rightarrow> deepEqualList xs ys | _ \<Rightarrow> False)"
| "deepEqual (GMap m) w =
     (case w of GMap n \<Rightarrow> length m = length n \<and> deepEqualEntries m n | _ \<Rightarrow> False)"
| "deepEqual (GMaps ms) w = (case w of GMaps ns \<Rightarrow> deepEqualMaps ms ns | _ \<Rightarrow> False)"
| "deepEqual (GStrs ss) w = (w = GStrs ss)"
| "deepEqual (GStruct m) w =
     (case w of GStruct n \<Rightarrow> length m = length n \<and> deepEqualEntries m n | _ \<Rightarrow> False)"
| "deepEqualList [] ys = (ys = [])"
| "deepEqualList (x # xs) ys =
     (case ys of [] \<Rightarrow> False | y # ys' \<Rightarrow> deepEqual x y \<and> deepEqualList xs ys')"
| "deepEqualEntries [] n = True"
| "deepEqualEntries ((k, v) # m) n =
     ((case map_of n k of None \<Rightarrow> False | Some w \<Rightarrow> deepEqual v w) \<and> deepEqualEntries m n)"
| "deepEqualMaps [] ns = (ns = [])"
| "deepEqualMaps (m # ms) ns =
     (case ns of [] \<Rightarrow> False
      | n # ns' \<Rightarrow> length m = length n \<and> deepEqualEntries m n \<and> deepEqualMaps ms ns')"

text \<open>A well-formed value has one entry per key in each of its maps, as a Go map has.\<close>

fun wf_gval :: "gval \<Rightarrow> bool" and wf_gmap :: "gmap \<Rightarrow> bool" where
  "wf_gval (GList xs) = (\<forall>x\<in>set xs. wf_gval x)"
| "wf_gval (GMap m) = (distinct (map fst m) \<and> wf_gmap m)"
| "wf_gval (GStruct m) = (distinct (map fst m) \<and> wf_gmap m)"
| "wf_gval (GMaps ms) = (\<forall>m\<in>set ms. distinct (map fst m) \<and> wf_gmap m)"
| "wf_gval _ = True"
| "wf_gmap [] = True"
| "wf_gmap ((k, v) # m) = (wf_gval v \<and> wf_gmap m)"

lemma wf_gmap_iff: "wf_gmap m \<longleftrightarrow> (\<forall>(k, v)\<in>set m. wf_gval v)"
  by (induction m) auto

lemma deepEqualEntries_refl:
  assumes "\<And>k v. (k, v) \<in> set m \<Longrightarrow> deepEqual v v"
    and "\<And>k v. (k, v) \<in> set m \<Longrightarrow> map_of n k = Some v"
  shows "deepEqualEntries m n"
  using assms by (induction m) force+

lemma deepEqualList_refl: "(\<And>x. x \<in> set xs \<Longrightarrow> deepEqual x x) \<Longrightarrow> deepEqualList xs xs"
  by (induction xs) auto

lemma deepEqualMaps_refl:
  "(\<And>m. m \<in> set ms \<Longrightarrow> deepEqualEntries m m) \<Longrightarrow> deepEqualMaps ms ms"
  by (induction ms) auto

lemma deepEqual_refl: "wf_gval v \<Longrightarrow> deepEqual v v"
proof (induction v)
  case (GList xs)
  then show ?case by (auto intro: deepEqualList_refl)
next
  case (GMap m)
  have "deepEqualEntries m m"
  proof (rule deepEqualEntries_refl)
    fix k v assume kv: "(k, v) \<in> set m"
    with GMap.prems have "wf_gval v" by (auto simp: wf_gmap_iff)
    with kv show "deepEqual v v" using GMap.IH by fastforce
    from kv GMap.prems show "map_of m k = Some v" by simp
  qed
  then show ?case by simp
next
  case (GStruct m)
  have "deepEqualEntries m m"
  proof (rule deepEqualEntries_refl)
    fix k v assume kv: "(k, v) \<in> set m"
    with GStruct.prems have "wf_gval v" by (auto simp: wf_gmap_iff)
    with kv show "deepEqual v v" using GStruct.IH by fastforce
    from kv GStruct.prems show "map_of m k = Some v" by simp
  qed
  then show ?case by simp
next
  case (GMaps ms)
  have "deepEqualEntries m m" if m: "m \<in> set ms" for m
  proof (rule deepEqualEntries_refl)
    fix k v assume kv: "(k, v) \<in> set m"
    with GMaps.prems m have "wf_gval v" by (auto simp: wf_gmap_iff)
    with kv m show "deepEqual v v" using GMaps.IH by fastforce
    from kv m GMaps.prems show "map_of m k = Some v" by simp
  qed
  then show ?case by (auto intro: deepEqualMaps_refl)
qed auto

section \<open>strconv and fmt\<close>

definition is_digit :: "char \<Rightarrow> bool" where
  "is_digit c \<longleftrightarrow> CHR ''0'' \<le> c \<and> c \<le> CHR ''9''"

definition digit_val :: "char \<Rightarrow> nat" where
  "digit_val c = of_char c - 48"

fun digits_val :: "nat \<Rightarrow> string \<Rightarrow> nat" where
  "digits_val acc [] = acc"
| "digits_val acc (c # cs) = digits_val (10 * acc + digit_val c) cs"

definition Atoi :: "string \<Rightarrow> int option" where
  "Atoi s =
     (let neg = (s \<noteq> [] \<and> hd s = CHR ''-'');
          ds = (if s \<noteq> [] \<and> (hd s = CHR ''-'' \<or> hd s = CHR ''+'') then tl s else s);
          n = (if neg then - int (digits_val 0 ds) else int (digits_val 0 ds))
      in if ds \<noteq> [] \<and> list_all is_digit ds \<and> - (2 ^ 63) \<le> n \<and> n < 2 ^ 63 then Some n else None)"

fun nat_digits :: "nat \<Rightarrow> string" where
  "nat_digits n = (if n < 10 then [char_of (48 + n)] else nat_digits (n div 10) @ [char_of (48 + n mod 10)])"

declare nat_digits.simps [simp del]

definition Itoa :: "int \<Rightarrow> string" where
  "Itoa i = (if i < 0 then CHR ''-'' # nat_digits (nat (- i)) else nat_digits (nat i))"

text \<open>\<open>fmt.Sprint\<close>, which also is the verb \<open>%v\<close>: maps are printed in the order of their keys.\<close>

fun Sprint :: "golib \<Rightarrow> gval \<Rightarrow> string" and SprintEntries :: "golib \<Rightarrow> gmap \<Rightarrow> (string \<times> string) list" where
  "Sprint L GNil = ''<nil>''"
| "Sprint L (GBool b) = (if b then ''true'' else ''false'')"
| "Sprint L (GInt i) = Itoa i"
| "Sprint L (GFloat x) = FormatFloat L x"
| "Sprint L (GNumber s f) = s"
| "Sprint L (GStr s) = s"
| "Sprint L (GList xs) = ''['' @ Join (map (Sprint L) xs) '' '' @ '']''"
| "Sprint L (GMap m) = ''map['' @ Join (map (\<lambda>(k, s). k @ '':'' @ s) (sort_key fst (SprintEntries L m))) '' '' @ '']''"
| "Sprint L (GMaps ms) = ''['' @ Join (map (\<lambda>m. ''map['' @
     Join (map (\<lambda>(k, s). k @ '':'' @ s) (sort_key fst (SprintEntries L m))) '' '' @ '']'') ms) '' '' @ '']''"
| "Sprint L (GStrs ss) = ''['' @ Join ss '' '' @ '']''"
| "Sprint L (GStruct m) = ''{'' @ Join (map snd (SprintEntries L m)) '' '' @ ''}''"
| "SprintEntries L [] = []"
| "SprintEntries L ((k, v) # m) = (k, Sprint L v) # SprintEntries L m"

lemma digits_val_append: "digits_val a (xs @ [c]) = 10 * digits_val a xs + digit_val c"
  by (induction xs arbitrary: a) auto

lemma digit_of_nat: "d < 10 \<Longrightarrow> is_digit (char_of (48 + d)) \<and> digit_val (char_of (48 + d :: nat)) = d"
  by (simp add: is_digit_def digit_val_def less_eq_char_def)

lemma nat_digits_val: "digits_val 0 (nat_digits n) = n \<and> list_all is_digit (nat_digits n) \<and> nat_digits n \<noteq> []"
proof (induction n rule: nat_digits.induct)
  case (1 n)
  show ?case
  proof (cases "n < 10")
    case True
    then show ?thesis using digit_of_nat [of n] by (simp add: nat_digits.simps)
  next
    case False
    with 1 digit_of_nat [of "n mod 10"] show ?thesis
      by (subst (1 2 3) nat_digits.simps) (simp add: digits_val_append)
  qed
qed

lemma hd_nat_digits: "is_digit (hd (nat_digits n))"
  using nat_digits_val [of n] by (cases "nat_digits n") auto

lemma Atoi_Itoa: "- (2 ^ 63) \<le> i \<Longrightarrow> i < 2 ^ 63 \<Longrightarrow> Atoi (Itoa i) = Some i"
  using nat_digits_val [of "nat i"] nat_digits_val [of "nat (- i)"] hd_nat_digits [of "nat i"]
  by (auto simp: Atoi_def Itoa_def Let_def is_digit_def less_eq_char_def)

text \<open>A library instance for the examples.\<close>

definition ex_golib :: golib where
  "ex_golib = \<lparr>FormatFloat = (\<lambda>x. if x = 0 then ''0'' else ''1''), RegexpMatch = (\<lambda>p s. None)\<rparr>"

end
