(* ===== verification/Policy.thy ===== *)
theory Policy
  imports Rbac Go_Value
begin

text \<open>
  The policy evaluator: \<open>manifest/policy.go\<close> over the structs of \<open>model/manifest.go\<close>. A policy is a list
  of rules with conditions on a runtime input, a \<open>map[string]any\<close>. Conditions are evaluated in the
  order of the source: the path of the key and the reference in the value are resolved first, then
  the operator is applied; an operator applied to a value of the wrong type is an error of the whole
  evaluation. The regular expression engine is the field \<open>RegexpMatch\<close> of the library argument.
\<close>

record PolicyCondition =
  cond_key :: string
  cond_operator :: string
  cond_value :: gval

record PolicyRule =
  prule_name :: string
  prule_desc :: string
  prule_effect :: string
  prule_resources :: "string list"
  prule_actions :: "string list"
  prule_conditions :: "PolicyCondition list"

record PolicyManifestSpec =
  policy_rules :: "PolicyRule list"

record PolicyConditionMatch =
  cmatch_key :: string
  cmatch_operator :: string
  cmatch_expected :: gval
  cmatch_actual :: gval

record PolicyRuleMatch =
  pmatch_name :: string
  pmatch_effect :: string
  pmatch_desc :: string
  pmatch_resources :: "string list"
  pmatch_actions :: "string list"
  pmatch_conditions :: "PolicyConditionMatch list"

datatype condition_error =
    ConditionKeyRequired
  | UnsupportedOperator string
  | ConditionValueRequired string
  | ExistsExpectsBool
  | ExpectsNumeric string
  | ExpectsArray string
  | MatchesExpectsString
  | InvalidRegexp string

datatype policy_error =
    PolicyNoRules
  | PolicyRuleNameRequired
  | PolicyRuleDuplicated string
  | PolicyInvalidEffect string string
  | PolicyNoResourcePattern string
  | PolicyNoActionPattern string
  | PolicyEmptyResourcePattern string
  | PolicyEmptyActionPattern string
  | PolicyRuleCondition string condition_error
  | PolicyResourceActionRequired

definition supportedPolicyOperators :: "string list" where
  "supportedPolicyOperators =
     [''eq'', ''neq'', ''gt'', ''gte'', ''lt'', ''lte'', ''in'', ''not_in'', ''contains'', ''exists'', ''matches'']"

section \<open>Validation\<close>

definition validatePolicyCondition :: "PolicyCondition \<Rightarrow> condition_error option" where
  "validatePolicyCondition c =
     (if TrimSpace (cond_key c) = [] then Some ConditionKeyRequired
      else let operator = ToLower (TrimSpace (cond_operator c)) in
      if operator \<notin> set supportedPolicyOperators then Some (UnsupportedOperator (cond_operator c))
      else if operator \<noteq> ''exists'' \<and> cond_value c = GNil then Some (ConditionValueRequired (cond_key c))
      else None)"

definition validatePolicyRule :: "PolicyRule \<Rightarrow> policy_error option" where
  "validatePolicyRule r =
     (let name = TrimSpace (prule_name r); effect = normalizeEffect (prule_effect r) in
      if effect \<noteq> ''allow'' \<and> effect \<noteq> ''deny'' then Some (PolicyInvalidEffect name (prule_effect r))
      else if prule_resources r = [] then Some (PolicyNoResourcePattern name)
      else if prule_actions r = [] then Some (PolicyNoActionPattern name)
      else e_then (first_err (\<lambda>p. guard_err (TrimSpace p = []) (PolicyEmptyResourcePattern name)) (prule_resources r))
          (e_then (first_err (\<lambda>p. guard_err (TrimSpace p = []) (PolicyEmptyActionPattern name)) (prule_actions r))
             (first_err (\<lambda>c. map_option (PolicyRuleCondition name) (validatePolicyCondition c))
                (prule_conditions r))))"

definition ValidatePolicySpec :: "PolicyManifestSpec \<Rightarrow> policy_error option" where
  "ValidatePolicySpec spec =
     (if policy_rules spec = [] then Some PolicyNoRules
      else check_distinct (\<lambda>r. TrimSpace (prule_name r))
             (\<lambda>r. guard_err (TrimSpace (prule_name r) = []) PolicyRuleNameRequired)
             PolicyRuleDuplicated validatePolicyRule [] (policy_rules spec))"

section \<open>Values and operators\<close>

fun toFloat :: "gval \<Rightarrow> rat option" where
  "toFloat (GFloat x) = Some x"
| "toFloat (GInt i) = Some (f64_of_int i)"
| "toFloat (GNumber s f) = f"
| "toFloat _ = None"

definition compareEqual :: "gval \<Rightarrow> gval \<Rightarrow> bool" where
  "compareEqual left right =
     (case (toFloat left, toFloat right) of
        (Some x, Some y) \<Rightarrow> x = y
      | _ \<Rightarrow> deepEqual left right)"

fun containsValue :: "gval \<Rightarrow> gval \<Rightarrow> bool" where
  "containsValue (GStr s) e = (case e of GStr t \<Rightarrow> Contains s t | _ \<Rightarrow> False)"
| "containsValue (GList xs) e = list_ex (\<lambda>item. compareEqual item e) xs"
| "containsValue _ e = False"

fun lookupSegments :: "gval \<Rightarrow> string list \<Rightarrow> gval option" where
  "lookupSegments current [] = Some current"
| "lookupSegments current (segment # segments) =
     (if segment = [] then None
      else (case current of
          GMap m \<Rightarrow> (case map_of m segment of None \<Rightarrow> None | Some v \<Rightarrow> lookupSegments v segments)
        | GList xs \<Rightarrow>
            (case Atoi segment of
               None \<Rightarrow> None
             | Some index \<Rightarrow> if index < 0 \<or> int (length xs) \<le> index then None
                            else lookupSegments (xs ! nat index) segments)
        | _ \<Rightarrow> None))"

definition lookupPath :: "gmap \<Rightarrow> string \<Rightarrow> gval option" where
  "lookupPath input dotted = lookupSegments (GMap input) (Split CHR ''.'' (TrimSpace dotted))"

definition resolvePolicyValue :: "gmap \<Rightarrow> gval \<Rightarrow> gval" where
  "resolvePolicyValue input v =
     (case v of
        GMap ref \<Rightarrow>
          (case map_of ref ''$ref'' of
             Some (GStr refPath) \<Rightarrow>
               (case lookupPath input refPath of None \<Rightarrow> GNil | Some resolved \<Rightarrow> resolved)
           | _ \<Rightarrow> v)
      | _ \<Rightarrow> v)"

definition policyConditionMatches ::
  "golib \<Rightarrow> string \<Rightarrow> gval \<Rightarrow> bool \<Rightarrow> gval \<Rightarrow> condition_error + bool" where
  "policyConditionMatches L operator actual present expected =
     (if operator = ''exists'' then
        (case expected of
           GNil \<Rightarrow> Inr (present = True)
         | GBool want \<Rightarrow> Inr (present = want)
         | _ \<Rightarrow> Inl ExistsExpectsBool)
      else if operator = ''eq'' then Inr (compareEqual actual expected)
      else if operator = ''neq'' then Inr (\<not> compareEqual actual expected)
      else if operator \<in> {''gt'', ''gte'', ''lt'', ''lte''} then
        (case toFloat actual of
           None \<Rightarrow> Inr False
         | Some a \<Rightarrow>
             (case toFloat expected of
                None \<Rightarrow> Inl (ExpectsNumeric operator)
              | Some e \<Rightarrow>
                  Inr (if operator = ''gt'' then a > e
                       else if operator = ''gte'' then a \<ge> e
                       else if operator = ''lt'' then a < e
                       else a \<le> e)))
      else if operator \<in> {''in'', ''not_in''} then
        (case expected of
           GList items \<Rightarrow>
             (let found = list_ex (\<lambda>item. compareEqual actual item) items
              in Inr (if operator = ''in'' then found else \<not> found))
         | _ \<Rightarrow> Inl (ExpectsArray operator))
      else if operator = ''contains'' then Inr (containsValue actual expected)
      else if operator = ''matches'' then
        (case actual of
           GStr s \<Rightarrow>
             (case expected of
                GStr p \<Rightarrow>
                  (case Match p s of
                     Some matched \<Rightarrow> Inr matched
                   | None \<Rightarrow> (case RegexpMatch L p s of
                                 None \<Rightarrow> Inl (InvalidRegexp p) | Some b \<Rightarrow> Inr b))
              | _ \<Rightarrow> Inl MatchesExpectsString)
         | _ \<Rightarrow> Inr False)
      else Inl (UnsupportedOperator operator))"

section \<open>Evaluation\<close>

text \<open>The outcome of the conditions of a rule: an error, no match, or the matches.\<close>

fun evaluatePolicyConditions ::
  "golib \<Rightarrow> PolicyCondition list \<Rightarrow> gmap \<Rightarrow> condition_error + PolicyConditionMatch list option" where
  "evaluatePolicyConditions L [] input = Inr (Some [])"
| "evaluatePolicyConditions L (c # cs) input =
     (let found = lookupPath input (cond_key c);
          actual = (case found of None \<Rightarrow> GNil | Some v \<Rightarrow> v);
          expected = resolvePolicyValue input (cond_value c);
          operator = ToLower (TrimSpace (cond_operator c))
      in case policyConditionMatches L operator actual (found \<noteq> None) expected of
           Inl e \<Rightarrow> Inl e
         | Inr ok \<Rightarrow>
             if \<not> ok then Inr None
             else (case evaluatePolicyConditions L cs input of
                 Inl e \<Rightarrow> Inl e
               | Inr None \<Rightarrow> Inr None
               | Inr (Some ms) \<Rightarrow> Inr (Some (\<lparr>cmatch_key = TrimSpace (cond_key c), cmatch_operator = operator,
                    cmatch_expected = expected, cmatch_actual = actual\<rparr> # ms))))"

record policy_acc =
  pacc_rules :: "PolicyRuleMatch list"
  pacc_allow :: bool
  pacc_deny :: bool

fun policy_loop ::
  "golib \<Rightarrow> string \<Rightarrow> string \<Rightarrow> gmap \<Rightarrow> PolicyRule list \<Rightarrow> policy_acc \<Rightarrow> policy_error + policy_acc" where
  "policy_loop L resource action input [] a = Inr a"
| "policy_loop L resource action input (r # rs) a =
     (if \<not> anyPatternMatch (prule_resources r) resource \<or> \<not> anyPatternMatch (prule_actions r) action
      then policy_loop L resource action input rs a
      else case evaluatePolicyConditions L (prule_conditions r) input of
        Inl e \<Rightarrow> Inl (PolicyRuleCondition (prule_name r) e)
      | Inr None \<Rightarrow> policy_loop L resource action input rs a
      | Inr (Some conditions) \<Rightarrow>
          let effect = normalizeEffect (prule_effect r);
              a1 = a\<lparr>pacc_rules := pacc_rules a @ [\<lparr>pmatch_name = TrimSpace (prule_name r),
                      pmatch_effect = effect, pmatch_desc = TrimSpace (prule_desc r),
                      pmatch_resources = prule_resources r, pmatch_actions = prule_actions r,
                      pmatch_conditions = conditions\<rparr>]\<rparr>;
              a2 = (if effect = ''deny'' then a1\<lparr>pacc_deny := True\<rparr> else a1);
              a3 = (if effect = ''allow'' then a2\<lparr>pacc_allow := True\<rparr> else a2)
          in policy_loop L resource action input rs a3)"

type_synonym policy_result = "bool \<times> string \<times> PolicyRuleMatch list"

definition EvaluatePolicy ::
  "golib \<Rightarrow> PolicyManifestSpec \<Rightarrow> string \<Rightarrow> string \<Rightarrow> gmap \<Rightarrow> policy_error + policy_result" where
  "EvaluatePolicy L spec resource0 action0 input =
     (case ValidatePolicySpec spec of
        Some e \<Rightarrow> Inl e
      | None \<Rightarrow>
          let resource = TrimSpace resource0; action = TrimSpace action0 in
          if resource = [] \<or> action = [] then Inl PolicyResourceActionRequired
          else (case policy_loop L resource action input (policy_rules spec)
                       \<lparr>pacc_rules = [], pacc_allow = False, pacc_deny = False\<rparr> of
              Inl e \<Rightarrow> Inl e
            | Inr a \<Rightarrow>
                if pacc_deny a then Inr (False, ''deny'', pacc_rules a)
                else if pacc_allow a then Inr (True, ''allow'', pacc_rules a)
                else Inr (False, ''not_applicable'', pacc_rules a)))"

section \<open>Facts\<close>

definition wf_condition :: "PolicyCondition \<Rightarrow> bool" where
  "wf_condition c \<longleftrightarrow> TrimSpace (cond_key c) \<noteq> [] \<and>
     ToLower (TrimSpace (cond_operator c)) \<in> set supportedPolicyOperators \<and>
     (cond_value c = GNil \<longrightarrow> ToLower (TrimSpace (cond_operator c)) = ''exists'')"

definition wf_policy_rule :: "PolicyRule \<Rightarrow> bool" where
  "wf_policy_rule r \<longleftrightarrow> TrimSpace (prule_name r) \<noteq> [] \<and>
     normalizeEffect (prule_effect r) \<in> {''allow'', ''deny''} \<and>
     prule_resources r \<noteq> [] \<and> prule_actions r \<noteq> [] \<and>
     (\<forall>p\<in>set (prule_resources r) \<union> set (prule_actions r). TrimSpace p \<noteq> []) \<and>
     (\<forall>c\<in>set (prule_conditions r). wf_condition c)"

definition wf_policy :: "PolicyManifestSpec \<Rightarrow> bool" where
  "wf_policy spec \<longleftrightarrow> policy_rules spec \<noteq> [] \<and>
     distinct (map (\<lambda>r. TrimSpace (prule_name r)) (policy_rules spec)) \<and>
     (\<forall>r\<in>set (policy_rules spec). wf_policy_rule r)"

lemma validatePolicyCondition_None [validate_simps]:
  "validatePolicyCondition c = None \<longleftrightarrow> wf_condition c"
  by (auto simp: validatePolicyCondition_def wf_condition_def Let_def)

lemma ValidatePolicySpec_None: "ValidatePolicySpec spec = None \<longleftrightarrow> wf_policy spec"
  unfolding ValidatePolicySpec_def wf_policy_def wf_policy_rule_def validatePolicyRule_def Let_def
  by (auto simp: validate_simps)

text \<open>
  The rules that apply to a request, and the rules whose conditions cannot be evaluated on it.
\<close>

definition rule_in_scope :: "PolicyRule \<Rightarrow> string \<Rightarrow> string \<Rightarrow> bool" where
  "rule_in_scope r resource action \<longleftrightarrow>
     anyPatternMatch (prule_resources r) resource \<and> anyPatternMatch (prule_actions r) action"

definition policy_applies ::
  "golib \<Rightarrow> PolicyManifestSpec \<Rightarrow> string \<Rightarrow> string \<Rightarrow> gmap \<Rightarrow> string \<Rightarrow> bool" where
  "policy_applies L spec resource action input eff \<longleftrightarrow>
     (\<exists>r\<in>set (policy_rules spec). rule_in_scope r (TrimSpace resource) (TrimSpace action) \<and>
        (\<exists>ms. evaluatePolicyConditions L (prule_conditions r) input = Inr (Some ms)) \<and>
        normalizeEffect (prule_effect r) = eff)"

definition policy_fails ::
  "golib \<Rightarrow> PolicyManifestSpec \<Rightarrow> string \<Rightarrow> string \<Rightarrow> gmap \<Rightarrow> bool" where
  "policy_fails L spec resource action input \<longleftrightarrow>
     (\<exists>r\<in>set (policy_rules spec). rule_in_scope r (TrimSpace resource) (TrimSpace action) \<and>
        (\<exists>e. evaluatePolicyConditions L (prule_conditions r) input = Inl e))"

lemma policy_loop_flags:
  "policy_loop L resource action input rs a = Inr b \<Longrightarrow>
   (pacc_allow b \<longleftrightarrow> pacc_allow a \<or> (\<exists>r\<in>set rs. rule_in_scope r resource action \<and>
      (\<exists>ms. evaluatePolicyConditions L (prule_conditions r) input = Inr (Some ms)) \<and>
      normalizeEffect (prule_effect r) = ''allow'')) \<and>
   (pacc_deny b \<longleftrightarrow> pacc_deny a \<or> (\<exists>r\<in>set rs. rule_in_scope r resource action \<and>
      (\<exists>ms. evaluatePolicyConditions L (prule_conditions r) input = Inr (Some ms)) \<and>
      normalizeEffect (prule_effect r) = ''deny''))"
  by (induction rs arbitrary: a) (auto simp: rule_in_scope_def Let_def split: if_splits sum.splits option.splits)

lemma policy_loop_ok:
  "(\<exists>b. policy_loop L resource action input rs a = Inr b) \<longleftrightarrow>
     \<not> (\<exists>r\<in>set rs. rule_in_scope r resource action \<and>
          (\<exists>e. evaluatePolicyConditions L (prule_conditions r) input = Inl e))"
  by (induction rs arbitrary: a) (auto simp: rule_in_scope_def Let_def split: sum.splits option.splits)

lemma EvaluatePolicy_answers:
  "(\<exists>r. EvaluatePolicy L spec resource action input = Inr r) \<longleftrightarrow>
     wf_policy spec \<and> TrimSpace resource \<noteq> [] \<and> TrimSpace action \<noteq> [] \<and>
     \<not> policy_fails L spec resource action input"
proof -
  have ok: "\<not> policy_fails L spec resource action input \<longleftrightarrow>
      (\<exists>b. policy_loop L (TrimSpace resource) (TrimSpace action) input (policy_rules spec)
        \<lparr>pacc_rules = [], pacc_allow = False, pacc_deny = False\<rparr> = Inr b)"
    by (simp add: policy_loop_ok policy_fails_def)
  show ?thesis unfolding ok EvaluatePolicy_def ValidatePolicySpec_None [symmetric] Let_def
    by (auto split: option.splits sum.splits)
qed

lemma EvaluatePolicy_decision:
  assumes "EvaluatePolicy L spec resource action input = Inr (allowed, decision, rules)"
  shows "decision = (if policy_applies L spec resource action input ''deny'' then ''deny''
                     else if policy_applies L spec resource action input ''allow'' then ''allow''
                     else ''not_applicable'') \<and> (allowed \<longleftrightarrow> decision = ''allow'')"
proof -
  let ?i = "\<lparr>pacc_rules = [], pacc_allow = False, pacc_deny = False\<rparr>"
  let ?l = "policy_loop L (TrimSpace resource) (TrimSpace action) input (policy_rules spec) ?i"
  obtain a where a: "?l = Inr a"
    using assms by (auto simp: EvaluatePolicy_def Let_def split: option.splits if_splits sum.splits)
  have "pacc_allow a \<longleftrightarrow> policy_applies L spec resource action input ''allow''"
    and "pacc_deny a \<longleftrightarrow> policy_applies L spec resource action input ''deny''"
    using policy_loop_flags [OF a] by (auto simp: policy_applies_def)
  with assms a show ?thesis
    by (auto simp: EvaluatePolicy_def Let_def split: option.splits if_splits)
qed

type_synonym policy_query = "golib \<times> PolicyManifestSpec \<times> string \<times> string \<times> gmap"

definition policy_decide :: "policy_query \<Rightarrow> bool" where
  "policy_decide q = (case q of (L, spec, resource, action, input) \<Rightarrow>
     (case EvaluatePolicy L spec resource action input of Inr (b, _, _) \<Rightarrow> b | Inl _ \<Rightarrow> False))"

definition policy_query_applies :: "policy_query \<Rightarrow> string \<Rightarrow> bool" where
  "policy_query_applies q eff = (case q of (L, spec, resource, action, input) \<Rightarrow>
     wf_policy spec \<and> TrimSpace resource \<noteq> [] \<and> TrimSpace action \<noteq> [] \<and>
     \<not> policy_fails L spec resource action input \<and> policy_applies L spec resource action input eff)"

interpretation policy: deny_overrides policy_decide policy_query_applies
proof
  fix q :: policy_query
  obtain L spec res act inp where q: "q = (L, spec, res, act, inp)" by (cases q)
  show "policy_decide q \<longleftrightarrow> policy_query_applies q ''allow'' \<and> \<not> policy_query_applies q ''deny''"
  proof (cases "EvaluatePolicy L spec res act inp")
    case (Inl e)
    then have "\<not> (\<exists>r. EvaluatePolicy L spec res act inp = Inr r)" by simp
    with Inl show ?thesis
      unfolding EvaluatePolicy_answers by (auto simp: q policy_decide_def policy_query_applies_def)
  next
    case (Inr r)
    obtain b d ms where r: "r = (b, d, ms)" by (cases r)
    from Inr have "\<exists>r. EvaluatePolicy L spec res act inp = Inr r" by (rule exI)
    with Inr r EvaluatePolicy_decision [of L spec res act inp b d ms] show ?thesis
      unfolding EvaluatePolicy_answers by (auto simp: q policy_decide_def policy_query_applies_def split: if_splits)
  qed
qed

lemma lookupSegments_append:
  "lookupSegments v (xs @ ys) = Option.bind (lookupSegments v xs) (\<lambda>w. lookupSegments w ys)"
  by (induction v xs rule: lookupSegments.induct) (auto split: gval.splits option.splits)

lemma lookupSegments_GMaps: "segments \<noteq> [] \<Longrightarrow> lookupSegments (GMaps ms) segments = None"
  by (cases segments) auto

section \<open>Properties\<close>

text \<open>C34: \<open>EvaluatePolicy\<close> is deny-overrides with an explicit third outcome: the decision is deny when a rule
  of effect deny applies (its patterns match the request and all its conditions hold of the input),
  else allow when a rule of effect allow applies, else not_applicable; and only allow is allowed.\<close>
theorem policy_decision_correct:
  assumes "EvaluatePolicy L spec resource action input = Inr (allowed, decision, rules)"
  shows "decision = (if policy_applies L spec resource action input ''deny'' then ''deny''
                     else if policy_applies L spec resource action input ''allow'' then ''allow''
                     else ''not_applicable'') \<and> (allowed \<longleftrightarrow> decision = ''allow'')"
  using assms by (rule EvaluatePolicy_decision)

definition ex_policy :: PolicyManifestSpec where
  "ex_policy = \<lparr>policy_rules =
    [\<lparr>prule_name = ''grant'', prule_desc = [], prule_effect = [], prule_resources = [''deploy''],
      prule_actions = [''run''], prule_conditions = []\<rparr>,
     \<lparr>prule_name = ''frozen'', prule_desc = [], prule_effect = ''deny'', prule_resources = [''deploy''],
      prule_actions = [''run''], prule_conditions =
        [\<lparr>cond_key = ''input.env'', cond_operator = ''eq'', cond_value = GStr ''prod''\<rparr>]\<rparr>]\<rparr>"

lemma ex_policy_eval:
  "EvaluatePolicy ex_golib ex_policy ''deploy'' ''run'' [(''input'', GMap [(''env'', GStr ''prod'')])] =
   Inr (False, ''deny'',
    [\<lparr>pmatch_name = ''grant'', pmatch_effect = ''allow'', pmatch_desc = [], pmatch_resources = [''deploy''],
      pmatch_actions = [''run''], pmatch_conditions = []\<rparr>,
     \<lparr>pmatch_name = ''frozen'', pmatch_effect = ''deny'', pmatch_desc = [], pmatch_resources = [''deploy''],
      pmatch_actions = [''run''], pmatch_conditions = [\<lparr>cmatch_key = ''input.env'', cmatch_operator = ''eq'',
        cmatch_expected = GStr ''prod'', cmatch_actual = GStr ''prod''\<rparr>]\<rparr>])"
  by code_simp

theorem policy_decision_correct_witness:
  "policy_applies ex_golib ex_policy ''deploy'' ''run'' [(''input'', GMap [(''env'', GStr ''prod'')])] ''deny''"
  using policy_decision_correct [OF ex_policy_eval] by (simp split: if_splits)

text \<open>\<open>EvaluatePolicy\<close> returns a decision exactly when the policy is valid, the request names a resource
  and an action, and no rule in scope has a condition whose operator meets a value of the wrong type;
  it never falls through to an answer after such an error.\<close>
theorem policy_answers_iff:
  "(\<exists>r. EvaluatePolicy L spec resource action input = Inr r) \<longleftrightarrow>
     wf_policy spec \<and> TrimSpace resource \<noteq> [] \<and> TrimSpace action \<noteq> [] \<and>
     \<not> policy_fails L spec resource action input"
  by (rule EvaluatePolicy_answers)

end
