(* ===== verification/Authorization.thy ===== *)
theory Authorization
  imports Policy
begin

text \<open>
  The authorization decision, \<open>manifest/authorization.go\<close>: RBAC over all effective subjects first, then
  an optional policy that can only take the RBAC grant back. The function that builds the policy's
  input writes into the caller's own \<open>subject\<close> map, which the map of raw input shares; the model
  returns the caller's map as it is afterwards beside the policy's input. The fields of the responses
  that the callers fill in later (manifest references, collaborator, teams) are left out.
\<close>

record EvaluateRBACResponse =
  rbr_allowed :: bool
  rbr_decision :: string
  rbr_roles :: "string list"
  rbr_rules :: "RBACRuleMatch list"

record EvaluatePolicyResponse =
  plr_allowed :: bool
  plr_decision :: string
  plr_rules :: "PolicyRuleMatch list"

record EvaluateAuthorizationResponse =
  auth_allowed :: bool
  auth_decision :: string
  auth_subjects :: "RBACSubject list"
  auth_rbac :: EvaluateRBACResponse
  auth_policy :: "EvaluatePolicyResponse option"

datatype authorization_error =
    AuthRbac rbac_error
  | AuthPolicy policy_error
  | UnsupportedPolicyDecision string

definition authorizationRBACDecision :: "bool \<Rightarrow> string" where
  "authorizationRBACDecision allowed = (if allowed then ''allow'' else ''deny'')"

fun containsAuthorizationSubject :: "RBACSubject list \<Rightarrow> RBACSubject \<Rightarrow> bool" where
  "containsAuthorizationSubject [] candidate = False"
| "containsAuthorizationSubject (s # ss) candidate =
     (if subj_type s = subj_type candidate \<and> subj_id s = subj_id candidate then True
      else containsAuthorizationSubject ss candidate)"

definition normalizeAuthorizationSubjects :: "RBACSubject list \<Rightarrow> RBACSubject list" where
  "normalizeAuthorizationSubjects subjects =
     fold (\<lambda>s normalized.
             let subject = s\<lparr>subj_type := ToLower (TrimSpace (subj_type s)), subj_id := TrimSpace (subj_id s)\<rparr> in
             if subj_type subject = [] \<or> subj_id subject = [] then normalized
             else if containsAuthorizationSubject normalized subject then normalized
             else normalized @ [subject]) subjects []"

definition authorizationSubjectsToInput :: "RBACSubject list \<Rightarrow> gmap list" where
  "authorizationSubjectsToInput subjects =
     map (\<lambda>s. [(''type'', GStr (subj_type s)), (''id'', GStr (subj_id s))]) subjects"

definition setIfAbsent :: "string \<Rightarrow> string \<Rightarrow> gmap \<Rightarrow> gmap" where
  "setIfAbsent k s m = (if map_of m k = None \<and> s \<noteq> [] then AList.update k (GStr s) m else m)"

definition authorizationPolicyInput :: "RBACSubject list \<Rightarrow> gmap \<Rightarrow> gmap \<times> gmap" where
  "authorizationPolicyInput subjects input =
     (let n1 = (if map_of input ''input'' = None then AList.update ''input'' (GMap input) input else input);
          n2 = (if map_of n1 ''subjects'' = None
                then AList.update ''subjects'' (GMaps (authorizationSubjectsToInput subjects)) n1 else n1)
      in case subjects of
           [] \<Rightarrow> (n2, input)
         | s # _ \<Rightarrow>
             let type = TrimSpace (subj_type s); ident = TrimSpace (subj_id s);
                 subjectData = GMap [(''type'', GStr type), (''id'', GStr ident)]
             in (case map_of n2 ''subject'' of
                   None \<Rightarrow> (AList.update ''subject'' subjectData n2, input)
                 | Some GNil \<Rightarrow> (AList.update ''subject'' subjectData n2, input)
                 | Some (GMap m) \<Rightarrow>
                     let m' = setIfAbsent ''id'' ident (setIfAbsent ''type'' type m);
                         input' = AList.update ''subject'' (GMap m') input;
                         n3 = AList.update ''subject'' (GMap m') n2
                     in (if map_of input ''input'' = None
                         then AList.update ''input'' (GMap input') n3 else n3, input')
                 | Some _ \<Rightarrow> (n2, input)))"

definition EvaluateAuthorizationSubjects ::
  "golib \<Rightarrow> RBACManifestSpec \<Rightarrow> PolicyManifestSpec option \<Rightarrow> RBACSubject list \<Rightarrow> string \<Rightarrow> string \<Rightarrow> gmap
     \<Rightarrow> authorization_error + EvaluateAuthorizationResponse" where
  "EvaluateAuthorizationSubjects L rbacSpec policySpec subjects resource action input =
     (case EvaluateRBACSubjects rbacSpec subjects resource action of
        Inl e \<Rightarrow> Inl (AuthRbac e)
      | Inr (rbacAllowed, roles, rbacMatches) \<Rightarrow>
          let response = \<lparr>auth_allowed = False, auth_decision = ''deny'',
                auth_subjects = normalizeAuthorizationSubjects subjects,
                auth_rbac = \<lparr>rbr_allowed = rbacAllowed,
                  rbr_decision = authorizationRBACDecision rbacAllowed,
                  rbr_roles = roles, rbr_rules = rbacMatches\<rparr>,
                auth_policy = None\<rparr>
          in if \<not> rbacAllowed then Inr response
             else let granted = response\<lparr>auth_allowed := True, auth_decision := ''allow''\<rparr> in
             case policySpec of
               None \<Rightarrow> Inr granted
             | Some policy \<Rightarrow>
                 (case EvaluatePolicy L policy resource action
                         (fst (authorizationPolicyInput (auth_subjects granted) input)) of
                    Inl e \<Rightarrow> Inl (AuthPolicy e)
                  | Inr (policyAllowed, policyDecision, policyMatches) \<Rightarrow>
                      let r = granted\<lparr>auth_policy := Some \<lparr>plr_allowed = policyAllowed,
                                plr_decision = policyDecision, plr_rules = policyMatches\<rparr>\<rparr>
                      in if policyDecision \<in> {''allow'', ''not_applicable''} then Inr r
                         else if policyDecision = ''deny''
                         then Inr (r\<lparr>auth_allowed := False, auth_decision := ''deny''\<rparr>)
                         else Inl (UnsupportedPolicyDecision policyDecision)))"

definition EvaluateAuthorization ::
  "golib \<Rightarrow> RBACManifestSpec \<Rightarrow> PolicyManifestSpec option \<Rightarrow> RBACSubject \<Rightarrow> string \<Rightarrow> string \<Rightarrow> gmap
     \<Rightarrow> authorization_error + EvaluateAuthorizationResponse" where
  "EvaluateAuthorization L rbacSpec policySpec subject resource action input =
     EvaluateAuthorizationSubjects L rbacSpec policySpec [subject] resource action input"

section \<open>Facts\<close>

lemma containsAuthorizationSubject_iff: "containsAuthorizationSubject ss c \<longleftrightarrow> c \<in> set ss"
  by (induction ss) auto

lemma normalizeAuthorizationSubjects_eq:
  "normalizeAuthorizationSubjects subjects = normalizeSubjects subjects"
  unfolding normalizeAuthorizationSubjects_def normalizeSubjects_def containsAuthorizationSubject_iff
    normalizeSubject_def ..

lemma map_of_update_iff: "map_of (AList.update k v m) k' = (if k = k' then Some v else map_of m k')"
  by (simp add: update_conv')

text \<open>Which keys of the caller's input reach the policy under their own name.\<close>

lemma policy_input_keeps:
  assumes "map_of input k = Some v" and "k \<noteq> ''subject''"
  shows "map_of (fst (authorizationPolicyInput subjects input)) k = Some v"
  using assms
  by (auto simp: authorizationPolicyInput_def map_of_update_iff Let_def split: list.splits option.splits gval.splits)

lemma policy_input_subject:
  assumes "subjects = s # ss" and "map_of input ''subject'' \<in> {None, Some GNil}"
  shows "map_of (fst (authorizationPolicyInput subjects input)) ''subject'' =
     Some (GMap [(''type'', GStr (TrimSpace (subj_type s))), (''id'', GStr (TrimSpace (subj_id s)))])"
  using assms
  by (auto simp: authorizationPolicyInput_def map_of_update_iff Let_def split: option.splits gval.splits)

lemma setIfAbsent_keeps: "map_of m k = Some v \<Longrightarrow> map_of (setIfAbsent k' s m) k = Some v"
  by (auto simp: setIfAbsent_def map_of_update_iff)

lemma policy_input_subject_kept:
  assumes "map_of input ''subject'' = Some (GMap m)" and "map_of m k = Some v"
  shows "\<exists>m'. map_of (fst (authorizationPolicyInput subjects input)) ''subject'' = Some (GMap m') \<and>
     map_of m' k = Some v"
  using assms
  by (auto simp: authorizationPolicyInput_def map_of_update_iff setIfAbsent_keeps Let_def split: list.splits)

lemma EvaluateAuthorizationSubjects_allowed:
  assumes "EvaluateAuthorizationSubjects L rbacSpec policySpec subjects resource action input = Inr r"
  shows "auth_allowed r \<longleftrightarrow> rbac_decide (rbacSpec, subjects, resource, action) \<and>
    (\<forall>policy. policySpec = Some policy \<longrightarrow> \<not> policy_applies L policy resource action
        (fst (authorizationPolicyInput (normalizeSubjects subjects) input)) ''deny'')"
proof -
  obtain b roles rules where e: "EvaluateRBACSubjects rbacSpec subjects resource action = Inr (b, roles, rules)"
    using assms by (auto simp: EvaluateAuthorizationSubjects_def split: sum.splits)
  let ?in = "fst (authorizationPolicyInput (normalizeSubjects subjects) input)"
  show ?thesis
  proof (cases policySpec)
    case None
    with assms e show ?thesis
      by (auto simp: EvaluateAuthorizationSubjects_def rbac_decide_def Let_def split: if_splits)
  next
    case (Some policy)
    show ?thesis
    proof (cases b)
      case False
      with assms e Some show ?thesis
        by (auto simp: EvaluateAuthorizationSubjects_def rbac_decide_def Let_def split: if_splits)
    next
      case True
      with assms e Some obtain pa pd pm where p: "EvaluatePolicy L policy resource action ?in = Inr (pa, pd, pm)"
        by (auto simp: EvaluateAuthorizationSubjects_def normalizeAuthorizationSubjects_eq Let_def
            split: sum.splits)
      from EvaluatePolicy_decision [OF p] assms e Some True p show ?thesis
        by (auto simp: EvaluateAuthorizationSubjects_def normalizeAuthorizationSubjects_eq rbac_decide_def
            Let_def split: if_splits)
    qed
  qed
qed

section \<open>Properties\<close>

text \<open>C2: The final authorization decision: access is granted exactly when RBAC grants it to the effective
  subjects and no deny rule of the attached policy applies to the policy input built from those
  subjects. A policy can take a grant back and can never give one.\<close>
theorem authorization_decision_correct:
  assumes "EvaluateAuthorizationSubjects L rbacSpec policySpec subjects resource action input = Inr r"
  shows "auth_allowed r \<longleftrightarrow> rbac_decide (rbacSpec, subjects, resource, action) \<and>
    (\<forall>policy. policySpec = Some policy \<longrightarrow> \<not> policy_applies L policy resource action
        (fst (authorizationPolicyInput (normalizeSubjects subjects) input)) ''deny'')"
  using assms by (rule EvaluateAuthorizationSubjects_allowed)

lemma ex_authorization:
  "case EvaluateAuthorizationSubjects ex_golib ex_rbac (Some ex_policy) [ex_subject] ''deploy'' ''run''
     [(''env'', GStr ''prod'')] of Inl _ \<Rightarrow> False | Inr r \<Rightarrow> \<not> auth_allowed r \<and> rbr_allowed (auth_rbac r)"
  by code_simp

theorem authorization_decision_correct_witness:
  "\<exists>r. EvaluateAuthorizationSubjects ex_golib ex_rbac (Some ex_policy) [ex_subject] ''deploy'' ''run''
         [(''env'', GStr ''prod'')] = Inr r \<and> rbr_allowed (auth_rbac r) \<and>
     \<not> (rbac_decide (ex_rbac, [ex_subject], ''deploy'', ''run'') \<and>
        (\<forall>policy. Some ex_policy = Some policy \<longrightarrow> \<not> policy_applies ex_golib policy ''deploy'' ''run''
          (fst (authorizationPolicyInput (normalizeSubjects [ex_subject]) [(''env'', GStr ''prod'')])) ''deny''))"
proof -
  obtain r where r: "EvaluateAuthorizationSubjects ex_golib ex_rbac (Some ex_policy) [ex_subject]
      ''deploy'' ''run'' [(''env'', GStr ''prod'')] = Inr r" and "\<not> auth_allowed r" "rbr_allowed (auth_rbac r)"
    using ex_authorization by (auto split: sum.splits)
  with authorization_decision_correct [OF r] show ?thesis by blast
qed

text \<open>What the policy sees: every attribute of the caller's input other than the subject keeps its own
  name and value, a caller that gives no subject gets the first effective subject, and a caller's
  subject map keeps the attributes it has.\<close>
theorem policy_input_faithful:
  assumes "subjects = s # ss"
  shows "(\<forall>k v. map_of input k = Some v \<longrightarrow> k \<noteq> ''subject'' \<longrightarrow>
            map_of (fst (authorizationPolicyInput subjects input)) k = Some v) \<and>
    (map_of input ''subject'' \<in> {None, Some GNil} \<longrightarrow>
       map_of (fst (authorizationPolicyInput subjects input)) ''subject'' =
         Some (GMap [(''type'', GStr (TrimSpace (subj_type s))), (''id'', GStr (TrimSpace (subj_id s)))])) \<and>
    (\<forall>m k v. map_of input ''subject'' = Some (GMap m) \<longrightarrow> map_of m k = Some v \<longrightarrow>
       (\<exists>m'. map_of (fst (authorizationPolicyInput subjects input)) ''subject'' = Some (GMap m') \<and>
          map_of m' k = Some v))"
  using policy_input_keeps policy_input_subject [OF assms] policy_input_subject_kept by simp

theorem policy_input_faithful_witness:
  "map_of (fst (authorizationPolicyInput [ex_subject] [(''env'', GStr ''prod'')])) ''env'' = Some (GStr ''prod'') \<and>
   map_of (fst (authorizationPolicyInput [ex_subject] [(''env'', GStr ''prod'')])) ''subject'' =
     Some (GMap [(''type'', GStr (TrimSpace (subj_type ex_subject))), (''id'', GStr (TrimSpace (subj_id ex_subject)))])"
  using policy_input_faithful [OF refl [of "[ex_subject]"], of "[(''env'', GStr ''prod'')]"] by simp

text \<open>The list of subjects that the evaluation exposes to a policy under the key subjects is out of the
  reach of every condition path that descends into it: the path walker descends into maps and into
  slices of type []any only, and the list is a slice of maps.\<close>
theorem policy_subjects_unreachable:
  assumes "map_of input ''subjects'' = None" and "segments \<noteq> []"
  shows "lookupSegments (GMap (fst (authorizationPolicyInput subjects input))) (''subjects'' # segments) = None"
proof -
  have "map_of (fst (authorizationPolicyInput subjects input)) ''subjects'' =
      Some (GMaps (authorizationSubjectsToInput subjects))"
    using assms(1) by (auto simp: authorizationPolicyInput_def map_of_update_iff Let_def
        split: list.splits option.splits gval.splits)
  then show ?thesis using assms(2) by (simp add: lookupSegments_GMaps)
qed

theorem policy_subjects_unreachable_witness:
  "lookupSegments (GMap (fst (authorizationPolicyInput [ex_subject] []))) [''subjects'', ''0'', ''type''] = None"
  by (rule policy_subjects_unreachable) simp_all

end
