(* ===== verification/Manifest_Names.thy ===== *)
theory Manifest_Names
  imports Go_Value
begin

text \<open>
  What the manifest validators share: names and their pattern, selectors and references, lists of
  names, loose objects, and the typed properties of input schemas. The sources are
  \<open>manifest/integration_type.go\<close>, \<open>manifest/integration_instance.go\<close> and the structs of \<open>model\<close>. Of a
  schema property the fields that only drive form rendering are left out; no validator reads them.
\<close>

record ManifestSelector =
  sel_manifest_id :: string
  sel_namespace :: string
  sel_name :: string
  sel_version :: "int option"

record ManifestReference =
  ref_id :: string
  ref_kind :: string
  ref_namespace :: string
  ref_name :: string
  ref_version :: int

record IntegrationSchemaProperty =
  prop_type :: string
  prop_description :: string
  prop_secret :: bool
  prop_enum :: "gval list"
  prop_default :: gval
  prop_min_length :: "int option"
  prop_sensitive :: bool
  prop_pattern :: string
  prop_max_length :: "int option"

datatype name_error =
    SelectorRequired string
  | SelectorVersion string
  | ListEmptyValue string
  | ListInvalidValue string string
  | ListDuplicatedValue string string
  | ObjectEmptyKey string

definition normalizeIntegrationName :: "string \<Rightarrow> string" where
  "normalizeIntegrationName v = ToLower (TrimSpace v)"

definition is_lower_alnum :: "char \<Rightarrow> bool" where
  "is_lower_alnum c \<longleftrightarrow> (CHR ''a'' \<le> c \<and> c \<le> CHR ''z'') \<or> is_digit c"

definition integrationNamePattern :: "string \<Rightarrow> bool" where
  "integrationNamePattern s \<longleftrightarrow>
     (case s of [] \<Rightarrow> False
      | c # cs \<Rightarrow> is_lower_alnum c \<and> list_all (\<lambda>c. is_lower_alnum c \<or> c \<in> set ''._:-'') cs)"

definition supportedIntegrationSchemaTypes :: "string list" where
  "supportedIntegrationSchemaTypes = [''string'', ''number'', ''integer'', ''boolean'', ''object'', ''array'']"

definition validateManifestSelector :: "string \<Rightarrow> ManifestSelector \<Rightarrow> name_error option" where
  "validateManifestSelector label s =
     (if TrimSpace (sel_manifest_id s) = [] \<and> TrimSpace (sel_name s) = [] then Some (SelectorRequired label)
      else if (case sel_version s of None \<Rightarrow> False | Some v \<Rightarrow> v \<le> 0) then Some (SelectorVersion label)
      else None)"

definition validateNamedStringList :: "string \<Rightarrow> string list \<Rightarrow> name_error option" where
  "validateNamedStringList label vs =
     check_distinct normalizeIntegrationName
       (\<lambda>v. if normalizeIntegrationName v = [] then Some (ListEmptyValue label)
            else if \<not> integrationNamePattern (normalizeIntegrationName v) then Some (ListInvalidValue label v)
            else None)
       (ListDuplicatedValue label) (\<lambda>v. None) [] vs"

definition validateLooseObject :: "string \<Rightarrow> gmap \<Rightarrow> name_error option" where
  "validateLooseObject label input =
     first_err (\<lambda>(key, v). guard_err (normalizeIntegrationName key = []) (ObjectEmptyKey label)) input"

definition toIntegrationNameSet :: "string list \<Rightarrow> string list" where
  "toIntegrationNameSet vs =
     fold (\<lambda>v acc. let n = normalizeIntegrationName v in
             if n = [] then acc else if n \<in> set acc then acc else acc @ [n]) vs []"

section \<open>Facts\<close>

lemma normalizeIntegrationName_idem [simp]:
  "normalizeIntegrationName (normalizeIntegrationName v) = normalizeIntegrationName v"
  by (simp add: normalizeIntegrationName_def str_simps)

lemma normalizeIntegrationName_Nil [simp]: "normalizeIntegrationName [] = []"
  by (simp add: normalizeIntegrationName_def)

lemma integrationNamePattern_not_Nil [simp]: "\<not> integrationNamePattern []"
  by (simp add: integrationNamePattern_def)

definition valid_name :: "string \<Rightarrow> bool" where
  "valid_name v \<longleftrightarrow> integrationNamePattern (normalizeIntegrationName v)"

lemma validateManifestSelector_None [validate_simps]:
  "validateManifestSelector label s = None \<longleftrightarrow>
     (TrimSpace (sel_manifest_id s) \<noteq> [] \<or> TrimSpace (sel_name s) \<noteq> []) \<and>
     (\<forall>v. sel_version s = Some v \<longrightarrow> 0 < v)"
  by (auto simp: validateManifestSelector_def split: option.splits)

lemma validateNamedStringList_None [validate_simps]:
  "validateNamedStringList label vs = None \<longleftrightarrow>
     distinct (map normalizeIntegrationName vs) \<and> (\<forall>v\<in>set vs. valid_name v)"
  by (auto simp: validateNamedStringList_def valid_name_def validate_simps)

lemma validateLooseObject_None [validate_simps]:
  "validateLooseObject label input = None \<longleftrightarrow>
     (\<forall>key\<in>fst ` set input. normalizeIntegrationName key \<noteq> [])"
  by (force simp: validateLooseObject_def validate_simps)

lemma toIntegrationNameSet_props:
  "set (toIntegrationNameSet vs) = normalizeIntegrationName ` set vs - {[]} \<and>
   distinct (toIntegrationNameSet vs)"
proof -
  let ?f = "\<lambda>v acc. let n = normalizeIntegrationName v in
             if n = [] then acc else if n \<in> set acc then acc else acc @ [n]"
  have "set (fold ?f vs a) = set a \<union> (normalizeIntegrationName ` set vs - {[]}) \<and>
     (distinct a \<longrightarrow> distinct (fold ?f vs a))" for a
    by (induction vs arbitrary: a) (auto simp: Let_def)
  then show ?thesis by (simp add: toIntegrationNameSet_def)
qed

end
