(* ===== verification/Workflow_Template.thy ===== *)
theory Workflow_Template
  imports Manifest_Names
begin

text \<open>
  The template renderer of \<open>manifest/workflow.go\<close>: \<open>RenderWorkflowInput\<close>, \<open>renderWorkflowString\<close>,
  \<open>workflowTemplateValue\<close> and \<open>lookupWorkflowPath\<close>. The regular expression of the templates is fixed in
  the source, so the model finds its leftmost non-overlapping matches directly: two opening braces, a
  non-empty run of characters other than braces, two closing braces.
\<close>

record WorkflowRunStepResult =
  res_id :: string
  res_kind :: string
  res_operation :: string
  res_capability :: string
  res_status :: string
  res_attempts :: int
  res_error :: string
  res_metadata :: gmap
  res_instance :: "ManifestReference option"
  res_type :: "ManifestReference option"

record WorkflowExecutionContext =
  ctx_inputs :: gmap
  ctx_metadata :: gmap
  ctx_token :: string
  ctx_workflow :: ManifestReference
  ctx_steps :: "(string \<times> WorkflowRunStepResult) list"
  ctx_each :: "gmap option"

datatype render_error =
    TemplateUnresolved string
  | RenderMapKey string render_error

section \<open>Paths\<close>

fun lookupWorkflowParts :: "gval \<Rightarrow> string list \<Rightarrow> gval option" where
  "lookupWorkflowParts current [] = Some current"
| "lookupWorkflowParts current (p # ps) =
     (let part = TrimSpace p in
      if part = [] then None
      else (case current of
          GMap m \<Rightarrow> (case map_of m part of None \<Rightarrow> None | Some next \<Rightarrow> lookupWorkflowParts next ps)
        | GList xs \<Rightarrow>
            (case Atoi part of
               None \<Rightarrow> None
             | Some idx \<Rightarrow> if idx < 0 \<or> int (length xs) \<le> idx then None
                          else lookupWorkflowParts (xs ! nat idx) ps)
        | _ \<Rightarrow> None))"

definition lookupWorkflowPath :: "gmap \<Rightarrow> string \<Rightarrow> gval option" where
  "lookupWorkflowPath base path =
     (if path = [] then None else lookupWorkflowParts (GMap base) (Split CHR ''.'' path))"

definition workflowStepResultsContext :: "(string \<times> WorkflowRunStepResult) list \<Rightarrow> gmap" where
  "workflowStepResultsContext results =
     map (\<lambda>(name, r). (name, GMap [(''id'', GStr (res_id r)), (''kind'', GStr (res_kind r)),
            (''status'', GStr (res_status r)), (''operation'', GStr (res_operation r)),
            (''capability'', GStr (res_capability r)), (''attempts'', GInt (res_attempts r)),
            (''error'', GStr (res_error r)), (''metadata'', GMap (res_metadata r))])) results"

definition workflowTemplateRoots :: "string list" where
  "workflowTemplateRoots = [''inputs'', ''metadata'', ''auth'', ''workflow'', ''steps'', ''each'']"

definition workflowTemplateLeadingSegment :: "string \<Rightarrow> string" where
  "workflowTemplateLeadingSegment t = takeWhile (\<lambda>r. r \<notin> {CHR ''.'', CHR ''['', CHR ''|'', CHR '' '', CHR 0x09}) t"

definition template_root :: "WorkflowExecutionContext \<Rightarrow> gmap" where
  "template_root ctx =
     [(''inputs'', GMap (ctx_inputs ctx)),
      (''metadata'', GMap (ctx_metadata ctx)),
      (''auth'', GMap [(''token'', GStr (ctx_token ctx))]),
      (''workflow'', GMap [(''name'', GStr (ref_name (ctx_workflow ctx))),
         (''namespace'', GStr (ref_namespace (ctx_workflow ctx))), (''version'', GInt (ref_version (ctx_workflow ctx)))]),
      (''steps'', GMap (workflowStepResultsContext (ctx_steps ctx)))]
     @ (case ctx_each ctx of None \<Rightarrow> [] | Some each \<Rightarrow> [(''each'', GMap each)])"

definition workflowTemplateValue :: "string \<Rightarrow> WorkflowExecutionContext \<Rightarrow> gval option" where
  "workflowTemplateValue path ctx =
     (let t = TrimSpace path in
      if workflowTemplateLeadingSegment t \<notin> set workflowTemplateRoots then Some (GStr (''{{ '' @ t @ '' }}''))
      else lookupWorkflowPath (template_root ctx) t)"

section \<open>The template pattern\<close>

text \<open>White space of a regular expression does not contain the vertical tab.\<close>

definition re_space :: "char \<Rightarrow> bool" where
  "re_space c \<longleftrightarrow> c \<in> {CHR '' '', CHR 0x09, CHR 0x0A, CHR 0x0C, CHR 0x0D}"

definition capture :: "string \<Rightarrow> string" where
  "capture body =
     (let l = dropWhile re_space body
      in if l = [] then [last body] else rev (dropWhile re_space (rev l)))"

definition not_brace :: "char \<Rightarrow> bool" where
  "not_brace c \<longleftrightarrow> c \<noteq> CHR ''{'' \<and> c \<noteq> CHR ''}''"

definition match_at :: "string \<Rightarrow> (string \<times> string) option" where
  "match_at s =
     (if HasPrefix s ''{{'' then
        (let r = drop 2 s; body = takeWhile not_brace r; after = dropWhile not_brace r
         in if body \<noteq> [] \<and> HasPrefix after ''}}'' then Some (body, drop 2 after) else None)
      else None)"

lemma match_at_shorter: "match_at s = Some (body, rest) \<Longrightarrow> length rest < length s"
proof -
  assume a: "match_at s = Some (body, rest)"
  then have p: "HasPrefix s ''{{''" and r: "rest = drop 2 (dropWhile not_brace (drop 2 s))"
    by (auto simp: match_at_def Let_def split: if_splits)
  have "length (dropWhile not_brace (drop 2 s)) \<le> length (drop 2 s)" by (rule length_dropWhile_le)
  moreover have "2 \<le> length s" using p by (auto simp: HasPrefix_iff)
  ultimately show ?thesis using r by simp
qed

datatype piece = Lit char | Tmpl string

function pieces :: "string \<Rightarrow> piece list" where
  "pieces [] = []"
| "pieces (c # s) =
     (case match_at (c # s) of
        Some (body, rest) \<Rightarrow> Tmpl body # pieces rest
      | None \<Rightarrow> Lit c # pieces s)"
  by pat_completeness auto
termination
  by (relation "measure length") (auto dest: match_at_shorter)

fun is_tmpl :: "piece \<Rightarrow> bool" where
  "is_tmpl (Tmpl b) = True"
| "is_tmpl (Lit c) = False"

section \<open>Rendering\<close>

fun render_pieces :: "golib \<Rightarrow> WorkflowExecutionContext \<Rightarrow> piece list \<Rightarrow> render_error + string" where
  "render_pieces L ctx [] = Inr []"
| "render_pieces L ctx (Lit c # ps) =
     (case render_pieces L ctx ps of Inl e \<Rightarrow> Inl e | Inr s \<Rightarrow> Inr (c # s))"
| "render_pieces L ctx (Tmpl body # ps) =
     (case workflowTemplateValue (capture body) ctx of
        None \<Rightarrow> Inl (TemplateUnresolved (''{{'' @ body @ ''}}''))
      | Some v \<Rightarrow> (case render_pieces L ctx ps of Inl e \<Rightarrow> Inl e | Inr s \<Rightarrow> Inr (Sprint L v @ s)))"

definition renderWorkflowString :: "golib \<Rightarrow> WorkflowExecutionContext \<Rightarrow> string \<Rightarrow> render_error + gval" where
  "renderWorkflowString L ctx v =
     (let ps = pieces v in
      if \<not> list_ex is_tmpl ps then Inr (GStr v)
      else (case ps of
          [Tmpl body] \<Rightarrow>
            (case workflowTemplateValue (capture body) ctx of
               None \<Rightarrow> Inl (TemplateUnresolved v)
             | Some resolved \<Rightarrow> Inr resolved)
        | _ \<Rightarrow> map_sum id GStr (render_pieces L ctx ps)))"

fun key_string :: "golib \<Rightarrow> gval \<Rightarrow> string" where
  "key_string L (GStr s) = s"
| "key_string L v = Sprint L v"

fun RenderWorkflowInput :: "golib \<Rightarrow> WorkflowExecutionContext \<Rightarrow> gval \<Rightarrow> render_error + gval"
and render_list :: "golib \<Rightarrow> WorkflowExecutionContext \<Rightarrow> gval list \<Rightarrow> render_error + gval list"
and render_map :: "golib \<Rightarrow> WorkflowExecutionContext \<Rightarrow> gmap \<Rightarrow> gmap \<Rightarrow> render_error + gmap" where
  "RenderWorkflowInput L ctx (GMap m) = map_sum id GMap (render_map L ctx m [])"
| "RenderWorkflowInput L ctx (GList xs) = map_sum id GList (render_list L ctx xs)"
| "RenderWorkflowInput L ctx (GStr s) = renderWorkflowString L ctx s"
| "RenderWorkflowInput L ctx GNil = Inr GNil"
| "RenderWorkflowInput L ctx (GBool b) = Inr (GBool b)"
| "RenderWorkflowInput L ctx (GInt i) = Inr (GInt i)"
| "RenderWorkflowInput L ctx (GFloat x) = Inr (GFloat x)"
| "RenderWorkflowInput L ctx (GNumber s f) = Inr (GNumber s f)"
| "RenderWorkflowInput L ctx (GMaps ms) = Inr (GMaps ms)"
| "RenderWorkflowInput L ctx (GStrs ss) = Inr (GStrs ss)"
| "RenderWorkflowInput L ctx (GStruct m) = Inr (GStruct m)"
| "render_list L ctx [] = Inr []"
| "render_list L ctx (x # xs) =
     (case RenderWorkflowInput L ctx x of
        Inl e \<Rightarrow> Inl e
      | Inr y \<Rightarrow> (case render_list L ctx xs of Inl e \<Rightarrow> Inl e | Inr ys \<Rightarrow> Inr (y # ys)))"
| "render_map L ctx [] rendered = Inr rendered"
| "render_map L ctx ((key, item) # m) rendered =
     (case renderWorkflowString L ctx key of
        Inl e \<Rightarrow> Inl (RenderMapKey key e)
      | Inr renderedKey \<Rightarrow>
          (case RenderWorkflowInput L ctx item of
             Inl e \<Rightarrow> Inl e
           | Inr next \<Rightarrow> render_map L ctx m (AList.update (key_string L renderedKey) next rendered)))"

section \<open>Facts\<close>

lemma lookupWorkflowParts_append:
  "lookupWorkflowParts v (xs @ ys) = Option.bind (lookupWorkflowParts v xs) (\<lambda>w. lookupWorkflowParts w ys)"
  by (induction v xs rule: lookupWorkflowParts.induct) (auto simp: Let_def split: gval.splits option.splits)

lemma re_space_is_space: "re_space c \<Longrightarrow> is_space c"
  by (auto simp: re_space_def is_space_def)

lemma dropWhile_stronger:
  assumes "\<And>c. P c \<Longrightarrow> Q c"
  shows "dropWhile Q (dropWhile P xs) = dropWhile Q xs"
  using assms by (induction xs) auto

lemma TrimSpace_rev_drop: "TrimSpace (rev (dropWhile re_space (rev l))) = TrimSpace l"
proof -
  obtain sp where l: "l = rev (dropWhile re_space (rev l)) @ sp" and sp: "\<forall>c\<in>set sp. is_space c"
  proof
    show "l = rev (dropWhile re_space (rev l)) @ rev (takeWhile re_space (rev l))"
      by (metis rev_append rev_rev_ident takeWhile_dropWhile_id)
    show "\<forall>c\<in>set (rev (takeWhile re_space (rev l))). is_space c"
      by (auto dest: set_takeWhileD simp: re_space_is_space)
  qed
  with TrimSpace_right show ?thesis by metis
qed

lemma TrimSpace_capture: "body \<noteq> [] \<Longrightarrow> TrimSpace (capture body) = TrimSpace body"
proof -
  assume ne: "body \<noteq> []"
  have d: "TrimSpace (dropWhile re_space body) = TrimSpace body"
    by (simp add: TrimSpace_def dropWhile_stronger re_space_is_space)
  show ?thesis
  proof (cases "dropWhile re_space body = []")
    case True
    then have all: "\<forall>c\<in>set body. is_space c" by (auto simp: re_space_is_space)
    then have "TrimSpace body = []" by (simp add: TrimSpace_eq_Nil)
    moreover have "TrimSpace [last body] = []" using all ne by (simp add: TrimSpace_eq_Nil)
    ultimately show ?thesis using True by (simp add: capture_def)
  next
    case False
    then show ?thesis using d TrimSpace_rev_drop [of "dropWhile re_space body"]
      by (simp add: capture_def Let_def del: dropWhile_eq_Nil_conv)
  qed
qed

lemma match_at_template:
  assumes "body \<noteq> []" and "\<forall>c\<in>set body. not_brace c"
  shows "match_at (''{{'' @ body @ ''}}'' @ rest) = Some (body, rest)"
proof -
  have t: "takeWhile not_brace (body @ ''}}'' @ rest) = body"
    and d: "dropWhile not_brace (body @ ''}}'' @ rest) = ''}}'' @ rest"
    using assms(2) by (simp_all add: not_brace_def takeWhile_append2 dropWhile_append2)
  then show ?thesis using assms(1) by (simp add: match_at_def HasPrefix_def)
qed

lemma pieces_template:
  assumes "body \<noteq> []" and "\<forall>c\<in>set body. not_brace c"
  shows "pieces (''{{'' @ body @ ''}}'' @ rest) = Tmpl body # pieces rest"
  using match_at_template [OF assms, of rest] by simp

lemma pieces_plain: "Index s ''{{'' = None \<Longrightarrow> pieces s = map Lit s"
proof (induction s)
  case (Cons c s)
  then have "\<not> HasPrefix (c # s) ''{{''" and "Index s ''{{'' = None" by (auto split: if_splits)
  with Cons.IH show ?case by (simp add: match_at_def)
qed simp

lemma render_plain: "Index s ''{{'' = None \<Longrightarrow> renderWorkflowString L ctx s = Inr (GStr s)"
  by (simp add: renderWorkflowString_def pieces_plain list_ex_iff)

lemma render_whole:
  assumes "body \<noteq> []" and "\<forall>c\<in>set body. not_brace c"
  shows "renderWorkflowString L ctx (''{{'' @ body @ ''}}'') =
     (case workflowTemplateValue body ctx of
        None \<Rightarrow> Inl (TemplateUnresolved (''{{'' @ body @ ''}}'')) | Some v \<Rightarrow> Inr v)"
proof -
  have "pieces (''{{'' @ body @ ''}}'') = [Tmpl body]"
    using pieces_template [OF assms, of "[]"] by simp
  moreover have "workflowTemplateValue (capture body) ctx = workflowTemplateValue body ctx"
    by (simp add: workflowTemplateValue_def TrimSpace_capture [OF assms(1)])
  ultimately show ?thesis by (simp add: renderWorkflowString_def split: option.split)
qed

text \<open>The templates of a value, in its strings and in the keys of its maps.\<close>

definition templates :: "string \<Rightarrow> string list" where
  "templates s = concat (map (\<lambda>p. case p of Tmpl b \<Rightarrow> [b] | Lit c \<Rightarrow> []) (pieces s))"

fun templates_of :: "gval \<Rightarrow> string list" and templates_of_map :: "gmap \<Rightarrow> string list" where
  "templates_of (GStr s) = templates s"
| "templates_of (GList xs) = concat (map templates_of xs)"
| "templates_of (GMap m) = templates_of_map m"
| "templates_of _ = []"
| "templates_of_map [] = []"
| "templates_of_map ((k, v) # m) = templates k @ templates_of v @ templates_of_map m"

definition resolvable :: "WorkflowExecutionContext \<Rightarrow> string \<Rightarrow> bool" where
  "resolvable ctx body \<longleftrightarrow> workflowTemplateValue (capture body) ctx \<noteq> None"

definition succeeds :: "'e + 'a \<Rightarrow> bool" where
  "succeeds r \<longleftrightarrow> (case r of Inl _ \<Rightarrow> False | Inr _ \<Rightarrow> True)"

lemma succeeds_map_sum [simp]: "succeeds (map_sum id f r) = succeeds r"
  by (simp add: succeeds_def split: sum.splits)

lemma render_pieces_ok:
  "succeeds (render_pieces L ctx ps) \<longleftrightarrow> (\<forall>b. Tmpl b \<in> set ps \<longrightarrow> resolvable ctx b)"
  by (induction L ctx ps rule: render_pieces.induct)
     (auto simp: succeeds_def resolvable_def split: sum.splits option.splits)

lemma set_templates: "set (templates s) = {b. Tmpl b \<in> set (pieces s)}"
  by (auto simp: templates_def split: piece.splits)

lemma renderWorkflowString_ok:
  "succeeds (renderWorkflowString L ctx s) \<longleftrightarrow> (\<forall>b\<in>set (templates s). resolvable ctx b)"
proof (cases "list_ex is_tmpl (pieces s)")
  case False
  then have "\<And>b. Tmpl b \<notin> set (pieces s)" by (auto simp: list_ex_iff)
  with False show ?thesis by (simp add: renderWorkflowString_def succeeds_def set_templates)
next
  case True
  show ?thesis
  proof (cases "\<exists>b. pieces s = [Tmpl b]")
    case True
    then show ?thesis
      by (auto simp: renderWorkflowString_def succeeds_def set_templates resolvable_def split: option.splits)
  next
    case False
    with True have "renderWorkflowString L ctx s = map_sum id GStr (render_pieces L ctx (pieces s))"
      by (auto simp: renderWorkflowString_def Let_def split: list.splits piece.splits)
    then show ?thesis by (simp add: render_pieces_ok set_templates)
  qed
qed

lemma render_ok:
  "succeeds (RenderWorkflowInput L ctx v) \<longleftrightarrow> (\<forall>b\<in>set (templates_of v). resolvable ctx b)"
  "succeeds (render_list L ctx vs) \<longleftrightarrow> (\<forall>b\<in>set (concat (map templates_of vs)). resolvable ctx b)"
  "succeeds (render_map L ctx m acc) \<longleftrightarrow> (\<forall>b\<in>set (templates_of_map m). resolvable ctx b)"
proof (induction L ctx v and L ctx vs and L ctx m acc rule: RenderWorkflowInput_render_list_render_map.induct)
  case (13 L ctx x xs)
  then show ?case by (auto simp: succeeds_def split: sum.splits)
next
  case (15 L ctx key item m acc)
  show ?case
  proof (cases "renderWorkflowString L ctx key")
    case (Inl e)
    then have "\<not> succeeds (renderWorkflowString L ctx key)" by (simp add: succeeds_def)
    with Inl show ?thesis unfolding renderWorkflowString_ok by (auto simp: succeeds_def)
  next
    case (Inr k)
    then have k: "\<forall>b\<in>set (templates key). resolvable ctx b"
      using renderWorkflowString_ok [of L ctx key] by (simp add: succeeds_def)
    show ?thesis
    proof (cases "RenderWorkflowInput L ctx item")
      case (Inl e)
      with Inr 15 show ?thesis by (auto simp: succeeds_def)
    next
      case (Inr y)
      with \<open>renderWorkflowString L ctx key = Inr k\<close> 15 k show ?thesis by (auto simp: succeeds_def)
    qed
  qed
qed (simp_all add: renderWorkflowString_ok, simp_all add: succeeds_def)

text \<open>Values without templates.\<close>

fun plain :: "gval \<Rightarrow> bool" and plain_map :: "gmap \<Rightarrow> bool" where
  "plain (GStr s) = (Index s ''{{'' = None)"
| "plain (GList xs) = (\<forall>x\<in>set xs. plain x)"
| "plain (GMap m) = (distinct (map fst m) \<and> plain_map m)"
| "plain _ = True"
| "plain_map [] = True"
| "plain_map ((k, v) # m) = (Index k ''{{'' = None \<and> plain v \<and> plain_map m)"

lemma update_new: "k \<notin> fst ` set m \<Longrightarrow> AList.update k v m = m @ [(k, v)]"
  by (induction m) auto

lemma render_identity:
  "plain v \<Longrightarrow> RenderWorkflowInput L ctx v = Inr v"
  "(\<forall>x\<in>set vs. plain x) \<Longrightarrow> render_list L ctx vs = Inr vs"
  "plain_map m \<Longrightarrow> distinct (map fst (acc @ m)) \<Longrightarrow> render_map L ctx m acc = Inr (acc @ m)"
proof (induction L ctx v and L ctx vs and L ctx m acc rule: RenderWorkflowInput_render_list_render_map.induct)
  case (15 L ctx key item m acc)
  then have k: "renderWorkflowString L ctx key = Inr (GStr key)" by (simp add: render_plain)
  have "key \<notin> fst ` set acc" using "15.prems" by auto
  then have "AList.update key item acc = acc @ [(key, item)]" by (rule update_new)
  moreover have i: "RenderWorkflowInput L ctx item = Inr item"
    using "15.IH"(1) [OF k] "15.prems" by simp
  moreover have "render_map L ctx m (AList.update (key_string L (GStr key)) item acc) =
      Inr (AList.update (key_string L (GStr key)) item acc @ m)"
    using "15.IH"(2) [OF k i] "15.prems" calculation(1) by simp
  ultimately show ?case using k by simp
qed (simp_all add: render_plain)

section \<open>Properties\<close>

text \<open>Rendering is fail-loud and only fails for a reason: rendering a value succeeds exactly when every
  template in its strings and in the keys of its maps resolves in the context.\<close>
theorem render_succeeds_iff_resolvable:
  "(\<exists>w. RenderWorkflowInput L ctx v = Inr w) \<longleftrightarrow> (\<forall>b\<in>set (templates_of v). resolvable ctx b)"
  using render_ok(1) [of L ctx v] by (auto simp: succeeds_def split: sum.splits)

definition ex_reference :: ManifestReference where
  "ex_reference = \<lparr>ref_id = ''1'', ref_kind = ''workflow'', ref_namespace = ''global'', ref_name = ''deploy'', ref_version = 3\<rparr>"

definition ex_ctx :: WorkflowExecutionContext where
  "ex_ctx = \<lparr>ctx_inputs = [(''image'', GStr ''app''), (''replicas'', GInt 2), (''raw'', GStr ''{{ inputs.image }}'')],
     ctx_metadata = [], ctx_token = ''t'', ctx_workflow = ex_reference, ctx_steps = [], ctx_each = None\<rparr>"

theorem render_succeeds_iff_resolvable_witness:
  "\<not> (\<exists>w. RenderWorkflowInput ex_golib ex_ctx (GList [GStr ''{{ inputs.image }}'', GStr ''v-{{ inputs.tag }}'']) = Inr w)"
proof -
  have "templates_of (GList [GStr ''{{ inputs.image }}'', GStr ''v-{{ inputs.tag }}'']) =
      ['' inputs.image '', '' inputs.tag '']" by code_simp
  moreover have "\<not> resolvable ex_ctx '' inputs.tag ''" by code_simp
  ultimately show ?thesis
    using render_succeeds_iff_resolvable
      [of ex_golib ex_ctx "GList [GStr ''{{ inputs.image }}'', GStr ''v-{{ inputs.tag }}'']"] by simp
qed

text \<open>A string that is one template is replaced by the value itself: it keeps its JSON type, and the value
  is not rendered again, so an input cannot smuggle a template into a step.\<close>
theorem render_whole_template:
  assumes "body \<noteq> []" and "\<forall>c\<in>set body. not_brace c"
    and "workflowTemplateLeadingSegment (TrimSpace body) \<in> set workflowTemplateRoots"
    and "lookupWorkflowPath (template_root ctx) (TrimSpace body) = Some v"
  shows "RenderWorkflowInput L ctx (GStr (''{{'' @ body @ ''}}'')) = Inr v"
  using render_whole [OF assms(1,2), of L ctx] assms(3,4)
  by (simp add: workflowTemplateValue_def)

theorem render_whole_template_witness:
  "RenderWorkflowInput ex_golib ex_ctx (GStr (''{{'' @ '' inputs.raw '' @ ''}}'')) = Inr (GStr ''{{ inputs.image }}'')"
  by (rule render_whole_template) code_simp+

text \<open>Tokens of downstream renderers survive: a template whose path does not begin with a root of the
  execution context is kept, normalised to single spaces, and rendering the result again changes
  nothing.\<close>
theorem render_foreign_template:
  assumes "body \<noteq> []" and "\<forall>c\<in>set body. not_brace c"
    and "workflowTemplateLeadingSegment (TrimSpace body) \<notin> set workflowTemplateRoots"
  shows "RenderWorkflowInput L ctx (GStr (''{{'' @ body @ ''}}'')) = Inr (GStr (''{{ '' @ TrimSpace body @ '' }}'')) \<and>
    RenderWorkflowInput L ctx (GStr (''{{ '' @ TrimSpace body @ '' }}'')) = Inr (GStr (''{{ '' @ TrimSpace body @ '' }}''))"
proof
  show "RenderWorkflowInput L ctx (GStr (''{{'' @ body @ ''}}'')) = Inr (GStr (''{{ '' @ TrimSpace body @ '' }}''))"
    using render_whole [OF assms(1,2), of L ctx] assms(3) by (simp add: workflowTemplateValue_def)
  let ?b = "'' '' @ TrimSpace body @ '' ''"
  have sub: "set (TrimSpace body) \<subseteq> set body"
    by (auto simp: TrimSpace_def dest!: set_dropWhileD)
  have nb: "\<forall>c\<in>set ?b. not_brace c" using assms(2) sub by (auto simp: not_brace_def)
  have t: "TrimSpace ?b = TrimSpace body"
    using TrimSpace_left [of "'' ''" "TrimSpace body @ '' ''"] TrimSpace_right [of "'' ''" "TrimSpace body"]
    by (simp add: is_space_def)
  with assms(3) have "workflowTemplateLeadingSegment (TrimSpace ?b) \<notin> set workflowTemplateRoots" by simp
  with render_whole [OF _ nb, of L ctx] t
  show "RenderWorkflowInput L ctx (GStr (''{{ '' @ TrimSpace body @ '' }}'')) = Inr (GStr (''{{ '' @ TrimSpace body @ '' }}''))"
    by (simp add: workflowTemplateValue_def)
qed

theorem render_foreign_template_witness:
  "RenderWorkflowInput ex_golib ex_ctx (GStr (''{{'' @ ''$value'' @ ''}}'')) = Inr (GStr (''{{ '' @ TrimSpace ''$value'' @ '' }}''))"
proof -
  have "\<forall>c\<in>set ''$value''. not_brace c"
    "workflowTemplateLeadingSegment (TrimSpace ''$value'') \<notin> set workflowTemplateRoots" by code_simp+
  from render_foreign_template [OF _ this, of ex_golib ex_ctx] show ?thesis by simp
qed

text \<open>A value that contains no opening double brace, in its strings and in the keys of its maps, is
  rendered to itself.\<close>
theorem render_plain_value:
  assumes "plain v"
  shows "RenderWorkflowInput L ctx v = Inr v"
  using assms by (rule render_identity(1))

theorem render_plain_value_witness:
  "RenderWorkflowInput ex_golib ex_ctx (GMap [(''a'', GList [GInt 1, GStr ''x}}''])]) = Inr (GMap [(''a'', GList [GInt 1, GStr ''x}}''])])"
  by (rule render_plain_value) code_simp

end
