(* ===== verification/Workflow_Condition.thy ===== *)
theory Workflow_Condition
  imports Workflow_Template
begin

text \<open>
  Step conditions, \<open>EvaluateWorkflowStepCondition\<close> and its helpers in \<open>manifest/workflow.go\<close>: a small
  expression language with \<open>||\<close>, \<open>&&\<close>, \<open>==\<close>, \<open>!=\<close> and truthiness over rendered templates. The evaluator
  recurses on the two sides of the first operator outside every template, which are shorter.
\<close>

datatype condition_render_error =
    ConditionLeft render_error
  | ConditionRight render_error
  | ConditionValue render_error

function scanTop :: "string \<Rightarrow> nat \<Rightarrow> string \<Rightarrow> string \<Rightarrow> (string \<times> string) option" where
  "scanTop sep depth pre s =
     (if length s < length sep \<or> s = [] then None
      else if HasPrefix s ''{{'' then scanTop sep (Suc depth) (pre @ ''{{'') (drop 2 s)
      else if HasPrefix s ''}}'' then scanTop sep (depth - 1) (pre @ ''}}'') (drop 2 s)
      else if depth = 0 \<and> HasPrefix s sep then Some (TrimSpace pre, TrimSpace (drop (length sep) s))
      else scanTop sep depth (pre @ [hd s]) (tl s))"
  by pat_completeness auto
termination
  by (relation "measure (\<lambda>(sep, depth, pre, s). length s)") auto

declare scanTop.simps [simp del]

definition splitOnTopLevelOperator :: "string \<Rightarrow> string \<Rightarrow> (string \<times> string) option" where
  "splitOnTopLevelOperator expr sep = scanTop sep 0 [] expr"

definition splitWorkflowStepConditionBinary :: "string \<Rightarrow> (string \<times> string \<times> string) option" where
  "splitWorkflowStepConditionBinary expr =
     (case Index expr '' == '' of
        Some idx \<Rightarrow> Some (''=='', TrimSpace (take idx expr), TrimSpace (drop (idx + 4) expr))
      | None \<Rightarrow>
          (case Index expr '' != '' of
             Some idx \<Rightarrow> Some (''!='', TrimSpace (take idx expr), TrimSpace (drop (idx + 4) expr))
           | None \<Rightarrow> None))"

definition stripSurroundingQuotes :: "string \<Rightarrow> string" where
  "stripSurroundingQuotes v =
     (if 2 \<le> length v \<and> ((hd v = CHR 0x22 \<and> last v = CHR 0x22) \<or> (hd v = CHR 0x27 \<and> last v = CHR 0x27))
      then butlast (tl v) else v)"

fun isConditionTruthy :: "gval \<Rightarrow> bool" where
  "isConditionTruthy GNil = False"
| "isConditionTruthy (GBool b) = b"
| "isConditionTruthy (GStr s) =
     (ToLower (TrimSpace s) \<notin> {[], ''false'', ''0'', ''null'', ''nil''})"
| "isConditionTruthy (GInt i) = (i \<noteq> 0)"
| "isConditionTruthy (GFloat x) = (x \<noteq> 0)"
| "isConditionTruthy (GList xs) = (xs \<noteq> [])"
| "isConditionTruthy (GMap m) = (m \<noteq> [])"
| "isConditionTruthy (GNumber s f) = True"
| "isConditionTruthy (GMaps ms) = True"
| "isConditionTruthy (GStrs ss) = True"
| "isConditionTruthy (GStruct m) = True"

lemma length_TrimSpace: "length (TrimSpace s) \<le> length s"
proof -
  have "length (dropWhile is_space (rev (dropWhile is_space s))) \<le> length (rev (dropWhile is_space s))"
    by (rule length_dropWhile_le)
  also have "\<dots> \<le> length s" by (simp add: length_dropWhile_le)
  finally show ?thesis by (simp add: TrimSpace_def)
qed

lemma HasPrefix_cases: "HasPrefix s p \<Longrightarrow> s = p @ drop (length p) s"
  by (auto simp: HasPrefix_iff)

lemma scanTop_split:
  "scanTop sep depth pre s = Some (l, r) \<Longrightarrow> \<exists>a b. pre @ s = a @ sep @ b \<and> l = TrimSpace a \<and> r = TrimSpace b"
proof (induction sep depth pre s rule: scanTop.induct)
  case (1 sep depth pre s)
  have eq: "scanTop sep depth pre s =
     (if length s < length sep \<or> s = [] then None
      else if HasPrefix s ''{{'' then scanTop sep (Suc depth) (pre @ ''{{'') (drop 2 s)
      else if HasPrefix s ''}}'' then scanTop sep (depth - 1) (pre @ ''}}'') (drop 2 s)
      else if depth = 0 \<and> HasPrefix s sep then Some (TrimSpace pre, TrimSpace (drop (length sep) s))
      else scanTop sep depth (pre @ [hd s]) (tl s))"
    by (rule scanTop.simps)
  have p2: "HasPrefix s p \<Longrightarrow> length p = 2 \<Longrightarrow> (pre @ p) @ drop 2 s = pre @ s" for p
    using HasPrefix_cases [of s p] by simp
  show ?case
  proof (cases "length s < length sep \<or> s = []")
    case True
    with "1.prems" show ?thesis by (simp add: eq)
  next
    case F: False
    consider "HasPrefix s ''{{''" | "\<not> HasPrefix s ''{{''" "HasPrefix s ''}}''"
      | "\<not> HasPrefix s ''{{''" "\<not> HasPrefix s ''}}''" "depth = 0 \<and> HasPrefix s sep"
      | "\<not> HasPrefix s ''{{''" "\<not> HasPrefix s ''}}''" "\<not> (depth = 0 \<and> HasPrefix s sep)" by blast
    then show ?thesis
    proof cases
      case 1
      with F "1.prems" have "scanTop sep (Suc depth) (pre @ ''{{'') (drop 2 s) = Some (l, r)" by (simp add: eq)
      from "1.IH"(1) [OF F 1 this] p2 [of "''{{''"] 1 show ?thesis by simp
    next
      case 2
      with F "1.prems" have "scanTop sep (depth - 1) (pre @ ''}}'') (drop 2 s) = Some (l, r)" by (simp add: eq)
      from "1.IH"(2) [OF F 2 this] p2 [of "''}}''"] 2 show ?thesis by simp
    next
      case 3
      then have "l = TrimSpace pre" "r = TrimSpace (drop (length sep) s)"
        using F "1.prems" unfolding eq by simp_all
      with 3 HasPrefix_cases [of s sep] show ?thesis by metis
    next
      case 4
      then have "scanTop sep depth (pre @ [hd s]) (tl s) = Some (l, r)"
        using F "1.prems" unfolding eq by (simp split: if_splits)
      from "1.IH"(3) [OF F 4 this] F show ?thesis by simp
    qed
  qed
qed

lemma splitOnTopLevelOperator_shorter:
  assumes "splitOnTopLevelOperator expr sep = Some (l, r)" and "sep \<noteq> []"
  shows "length l < length expr \<and> length r < length expr"
proof -
  obtain a b where e: "expr = a @ sep @ b" "l = TrimSpace a" "r = TrimSpace b"
    using scanTop_split [of sep 0 "[]" expr l r] assms(1) by (auto simp: splitOnTopLevelOperator_def)
  have "0 < length sep" using assms(2) by simp
  with length_TrimSpace [of a] length_TrimSpace [of b] show ?thesis unfolding e length_append by linarith
qed

lemma condition_side_shorter:
  assumes "splitOnTopLevelOperator (TrimSpace condition) sep = Some x" and "(l, r) = x" and "sep \<noteq> []"
  shows "length l < length condition" and "length r < length condition"
  using splitOnTopLevelOperator_shorter [of "TrimSpace condition" sep l r] assms length_TrimSpace [of condition]
  by auto

section \<open>Evaluation\<close>

text \<open>The tail of the evaluator, for a clause without a top-level operator.\<close>

definition evaluate_clause ::
  "golib \<Rightarrow> WorkflowExecutionContext \<Rightarrow> string \<Rightarrow> condition_render_error + bool" where
  "evaluate_clause L ctx t =
      (case splitWorkflowStepConditionBinary t of
        Some (op, left, right) \<Rightarrow>
          (case RenderWorkflowInput L ctx (GStr left) of
             Inl e \<Rightarrow> Inl (ConditionLeft e)
           | Inr leftVal \<Rightarrow>
               (case RenderWorkflowInput L ctx (GStr right) of
                  Inl e \<Rightarrow> Inl (ConditionRight e)
                | Inr rightVal \<Rightarrow>
                    let leftStr = stripSurroundingQuotes (Sprint L leftVal);
                        rightStr = stripSurroundingQuotes (Sprint L rightVal)
                    in Inr (if op = ''=='' then leftStr = rightStr else leftStr \<noteq> rightStr)))
      | None \<Rightarrow>
          (case RenderWorkflowInput L ctx (GStr t) of
             Inl e \<Rightarrow> Inl (ConditionValue e)
           | Inr v \<Rightarrow> Inr (isConditionTruthy v)))"

function EvaluateWorkflowStepCondition ::
  "golib \<Rightarrow> WorkflowExecutionContext \<Rightarrow> string \<Rightarrow> condition_render_error + bool" where
  "EvaluateWorkflowStepCondition L ctx condition =
     (let t = TrimSpace condition in
      if t = [] then Inr True
      else case splitOnTopLevelOperator t '' || '' of
        Some (left, right) \<Rightarrow>
          (case EvaluateWorkflowStepCondition L ctx left of
             Inl e \<Rightarrow> Inl e
           | Inr leftBool \<Rightarrow> if leftBool then Inr True else EvaluateWorkflowStepCondition L ctx right)
      | None \<Rightarrow>
      (case splitOnTopLevelOperator t '' && '' of
        Some (left, right) \<Rightarrow>
          (case EvaluateWorkflowStepCondition L ctx left of
             Inl e \<Rightarrow> Inl e
           | Inr leftBool \<Rightarrow> if \<not> leftBool then Inr False else EvaluateWorkflowStepCondition L ctx right)
      | None \<Rightarrow>
      evaluate_clause L ctx t))"
  by pat_completeness auto
termination
  by (relation "measure (\<lambda>(L, ctx, c). length c)") (auto intro: condition_side_shorter)

declare EvaluateWorkflowStepCondition.simps [simp del]

section \<open>The language of conditions\<close>

text \<open>
  A condition in the abstract: a disjunction of conjunctions of clauses. A clause is a sequence of
  characters and templates, and is printed as such; the characters are no braces and no operator
  characters, which may occur in the templates.
\<close>

fun unparse :: "piece list \<Rightarrow> string" where
  "unparse [] = []"
| "unparse (Lit c # ps) = c # unparse ps"
| "unparse (Tmpl b # ps) = ''{{'' @ b @ ''}}'' @ unparse ps"

definition piece_ok :: "piece \<Rightarrow> bool" where
  "piece_ok p = (case p of Lit c \<Rightarrow> c \<notin> set ''{}|&'' | Tmpl b \<Rightarrow> list_all not_brace b)"

lemma piece_ok_simps [simp]:
  "piece_ok (Lit c) \<longleftrightarrow> c \<notin> set ''{}|&''"
  "piece_ok (Tmpl b) \<longleftrightarrow> list_all not_brace b"
  by (simp_all add: piece_ok_def)

definition clause_ok :: "piece list \<Rightarrow> bool" where
  "clause_ok ps \<longleftrightarrow> unparse ps \<noteq> [] \<and> trimmed (unparse ps) \<and> list_all piece_ok ps"

lemma clause_okD:
  assumes "clause_ok c"
  shows "unparse c \<noteq> []" and "trimmed (unparse c)" and "list_all piece_ok c" and "TrimSpace (unparse c) = unparse c"
  using assms by (auto simp: clause_ok_def TrimSpace_id)

fun print_conj :: "piece list list \<Rightarrow> string" where
  "print_conj [] = []"
| "print_conj [c] = unparse c"
| "print_conj (c # cs) = unparse c @ '' && '' @ print_conj cs"

fun print_disj :: "piece list list list \<Rightarrow> string" where
  "print_disj [] = []"
| "print_disj [d] = print_conj d"
| "print_disj (d # ds) = print_conj d @ '' || '' @ print_disj ds"

fun eval_conj :: "golib \<Rightarrow> WorkflowExecutionContext \<Rightarrow> piece list list \<Rightarrow> condition_render_error + bool" where
  "eval_conj L ctx [] = Inr True"
| "eval_conj L ctx [c] = evaluate_clause L ctx (unparse c)"
| "eval_conj L ctx (c # cs) =
     (case evaluate_clause L ctx (unparse c) of
        Inl e \<Rightarrow> Inl e | Inr b \<Rightarrow> if b then eval_conj L ctx cs else Inr False)"

fun eval_disj :: "golib \<Rightarrow> WorkflowExecutionContext \<Rightarrow> piece list list list \<Rightarrow> condition_render_error + bool" where
  "eval_disj L ctx [] = Inr True"
| "eval_disj L ctx [d] = eval_conj L ctx d"
| "eval_disj L ctx (d # ds) =
     (case eval_conj L ctx d of
        Inl e \<Rightarrow> Inl e | Inr b \<Rightarrow> if b then Inr True else eval_disj L ctx ds)"

definition is_sep :: "string \<Rightarrow> bool" where
  "is_sep sep \<longleftrightarrow> sep = '' || '' \<or> sep = '' && ''"

lemma scan_short: "length s < length sep \<Longrightarrow> scanTop sep d pre s = None"
  by (subst scanTop.simps) simp

lemma scan_char:
  assumes "is_sep sep" and "c \<notin> {CHR ''{'', CHR ''}''}" and "s \<noteq> [] \<Longrightarrow> hd s \<noteq> sep ! 1"
  shows "scanTop sep 0 pre (c # s) = scanTop sep 0 (pre @ [c]) s"
proof (cases "length (c # s) < length sep")
  case True
  then have "length s < length sep" by simp
  with True show ?thesis by (simp only: scan_short)
next
  case False
  then obtain e s' where s: "s = e # s'" using assms(1) by (cases s) (auto simp: is_sep_def)
  with assms have "\<not> HasPrefix (c # s) sep" by (auto simp: is_sep_def HasPrefix_def)
  with False assms(2) show ?thesis by (subst scanTop.simps) (simp add: HasPrefix_def)
qed

lemma scan_inside:
  assumes "is_sep sep" and "list_all not_brace b"
  shows "scanTop sep 1 pre (b @ ''}}'' @ w) = scanTop sep 0 (pre @ b @ ''}}'') w"
  using assms(2)
proof (induction b arbitrary: pre)
  case Nil
  show ?case
  proof (cases "length (''}}'' @ w) < length sep")
    case True
    then have "length w < length sep" by simp
    with True show ?thesis by (simp only: scan_short append_Nil)
  next
    case False
    then show ?thesis by (subst scanTop.simps) (simp add: HasPrefix_def)
  qed
next
  case (Cons c b)
  then have b: "list_all not_brace b" and "not_brace c" by simp_all
  then have c: "c \<notin> {CHR ''{'', CHR ''}''}" by (simp add: not_brace_def)
  show ?case
  proof (cases "length ((c # b) @ ''}}'' @ w) < length sep")
    case True
    then have "length w < length sep" by simp
    with True show ?thesis by (simp only: scan_short)
  next
    case False
    then have "scanTop sep 1 pre ((c # b) @ ''}}'' @ w) = scanTop sep 1 (pre @ [c]) (b @ ''}}'' @ w)"
      using c by (subst scanTop.simps) (auto simp: HasPrefix_def)
    with Cons.IH [OF b] show ?thesis by simp
  qed
qed

lemma scan_template:
  assumes "is_sep sep" and "list_all not_brace b"
  shows "scanTop sep 0 pre (''{{'' @ b @ ''}}'' @ w) = scanTop sep 0 (pre @ ''{{'' @ b @ ''}}'') w"
proof -
  have "\<not> length (''{{'' @ b @ ''}}'' @ w) < length sep" using assms(1) by (auto simp: is_sep_def)
  then have "scanTop sep 0 pre (''{{'' @ b @ ''}}'' @ w) = scanTop sep 1 (pre @ ''{{'') (b @ ''}}'' @ w)"
    by (subst scanTop.simps) (simp add: HasPrefix_def)
  with scan_inside [OF assms] show ?thesis by simp
qed

definition starts_clear :: "string \<Rightarrow> bool" where
  "starts_clear w \<longleftrightarrow> (w \<noteq> [] \<longrightarrow> hd w \<noteq> CHR ''|'' \<and> hd w \<noteq> CHR ''&'')"

lemma starts_clear_unparse: "list_all piece_ok ps \<Longrightarrow> starts_clear w \<Longrightarrow> starts_clear (unparse ps @ w)"
  by (cases ps rule: unparse.cases) (auto simp: starts_clear_def)

lemma scan_pieces:
  assumes "is_sep sep" and "starts_clear w"
  shows "list_all piece_ok ps \<Longrightarrow> scanTop sep 0 pre (unparse ps @ w) = scanTop sep 0 (pre @ unparse ps) w"
proof (induction ps arbitrary: pre rule: unparse.induct)
  case (2 c ps)
  have c: "c \<notin> {CHR ''{'', CHR ''}''}" and ps: "list_all piece_ok ps" using "2.prems" by simp_all
  have "starts_clear (unparse ps @ w)" using ps assms(2) by (rule starts_clear_unparse)
  then have h: "unparse ps @ w \<noteq> [] \<Longrightarrow> hd (unparse ps @ w) \<noteq> sep ! 1"
    using assms(1) by (auto simp: starts_clear_def is_sep_def)
  have "scanTop sep 0 pre (c # (unparse ps @ w)) = scanTop sep 0 (pre @ [c]) (unparse ps @ w)"
    using scan_char [OF assms(1) c h] .
  with "2.IH" [OF ps] show ?case by simp
next
  case (3 b ps)
  then have b: "list_all not_brace b" and ps: "list_all piece_ok ps" by simp_all
  from scan_template [OF assms(1) b, of pre "unparse ps @ w"] "3.IH" [OF ps] show ?case by simp
qed simp

lemma scan_sep:
  assumes "is_sep sep"
  shows "scanTop sep 0 pre (sep @ w) = Some (TrimSpace pre, TrimSpace w)"
  using assms by (subst scanTop.simps) (auto simp: is_sep_def HasPrefix_def)

lemma scan_and_for_or:
  assumes "starts_clear w"
  shows "scanTop '' || '' 0 pre ('' && '' @ w) = scanTop '' || '' 0 (pre @ '' && '') w"
proof -
  have s: "is_sep '' || ''" by (simp add: is_sep_def)
  have "w \<noteq> [] \<Longrightarrow> hd w \<noteq> CHR ''|''" using assms by (simp add: starts_clear_def)
  then show ?thesis by (simp add: scan_char [OF s])
qed

lemma starts_clear_sep: "starts_clear ('' && '' @ w)" "starts_clear ('' || '' @ w)" "starts_clear []"
  by (simp_all add: starts_clear_def)

lemma clause_starts_clear: "clause_ok c \<Longrightarrow> starts_clear (unparse c @ w)"
  by (cases c rule: unparse.cases) (auto simp: clause_ok_def starts_clear_def)

lemma print_conj_Cons: "cs \<noteq> [] \<Longrightarrow> print_conj (c # cs) = unparse c @ '' && '' @ print_conj cs"
  by (cases cs) auto

lemma print_disj_Cons: "ds \<noteq> [] \<Longrightarrow> print_disj (d # ds) = print_conj d @ '' || '' @ print_disj ds"
  by (cases ds) auto

lemma conj_starts_clear: "list_all clause_ok cs \<Longrightarrow> cs \<noteq> [] \<Longrightarrow> starts_clear (print_conj cs @ w)"
  by (cases cs rule: print_conj.cases) (auto simp: clause_starts_clear)

lemma trimmed_append:
  "a \<noteq> [] \<Longrightarrow> b \<noteq> [] \<Longrightarrow> trimmed a \<Longrightarrow> trimmed b \<Longrightarrow> trimmed (a @ m @ b) \<and> a @ m @ b \<noteq> []"
  by (auto simp: trimmed_def)

lemma conj_trimmed: "list_all clause_ok cs \<Longrightarrow> cs \<noteq> [] \<Longrightarrow> trimmed (print_conj cs) \<and> print_conj cs \<noteq> []"
proof (induction cs rule: print_conj.induct)
  case (3 c c' cs)
  then show ?case using trimmed_append [of "unparse c" "print_conj (c' # cs)" "'' && ''"]
    by (simp add: clause_okD)
qed (auto simp: clause_okD)

lemma disj_trimmed:
  "list_all (\<lambda>d. d \<noteq> [] \<and> list_all clause_ok d) ds \<Longrightarrow> ds \<noteq> [] \<Longrightarrow> trimmed (print_disj ds) \<and> print_disj ds \<noteq> []"
proof (induction ds rule: print_disj.induct)
  case (3 d d' ds)
  then show ?case
    using trimmed_append [of "print_conj d" "print_disj (d' # ds)" "'' || ''"] conj_trimmed [of d] by simp
qed (auto simp: conj_trimmed)

lemma scan_conj_for_or:
  assumes "starts_clear w"
  shows "list_all clause_ok cs \<Longrightarrow> scanTop '' || '' 0 pre (print_conj cs @ w) = scanTop '' || '' 0 (pre @ print_conj cs) w"
proof (induction cs arbitrary: pre rule: print_conj.induct)
  case (2 c)
  then show ?case using scan_pieces [of "'' || ''" w c pre] assms by (simp add: is_sep_def clause_okD)
next
  case (3 c c' cs)
  let ?r = "print_conj (c' # cs) @ w"
  have "scanTop '' || '' 0 pre (unparse c @ '' && '' @ ?r) = scanTop '' || '' 0 (pre @ unparse c) ('' && '' @ ?r)"
    using "3.prems" by (intro scan_pieces) (simp_all add: is_sep_def clause_okD starts_clear_def)
  also have "\<dots> = scanTop '' || '' 0 ((pre @ unparse c) @ '' && '') ?r"
    using "3.prems" by (intro scan_and_for_or conj_starts_clear) simp_all
  also have "\<dots> = scanTop '' || '' 0 (((pre @ unparse c) @ '' && '') @ print_conj (c' # cs)) w"
    using "3.prems" by (intro "3.IH") simp
  finally show ?case by simp
qed simp

lemma scan_Nil [simp]: "scanTop sep d pre [] = None"
  by (subst scanTop.simps) simp

lemma eval_clause:
  assumes "clause_ok c"
  shows "EvaluateWorkflowStepCondition L ctx (unparse c) = evaluate_clause L ctx (unparse c)"
proof -
  have "TrimSpace (unparse c) = unparse c" "unparse c \<noteq> []" using assms by (simp_all add: clause_okD)
  moreover have "splitOnTopLevelOperator (unparse c) sep = None" if "is_sep sep" for sep
    using scan_pieces [OF that starts_clear_sep(3), of c "[]"] assms
    by (simp add: splitOnTopLevelOperator_def clause_okD)
  ultimately show ?thesis
    by (subst EvaluateWorkflowStepCondition.simps) (simp add: is_sep_def)
qed

lemma eval_print_conj:
  "list_all clause_ok cs \<Longrightarrow> cs \<noteq> [] \<Longrightarrow>
   EvaluateWorkflowStepCondition L ctx (print_conj cs) = eval_conj L ctx cs"
proof (induction cs rule: print_conj.induct)
  case (3 c c' cs)
  let ?r = "print_conj (c' # cs)" and ?t = "print_conj (c # c' # cs)"
  have tr: "TrimSpace ?t = ?t" "?t \<noteq> []" "TrimSpace ?r = ?r" "TrimSpace (unparse c) = unparse c"
    using conj_trimmed [of "c # c' # cs"] conj_trimmed [of "c' # cs"] "3.prems"
    by (auto simp: TrimSpace_id clause_okD)
  have "splitOnTopLevelOperator ?t '' || '' = None"
    using scan_conj_for_or [OF starts_clear_sep(3) "3.prems"(1), of "[]"]
    by (simp add: splitOnTopLevelOperator_def)
  moreover have "splitOnTopLevelOperator ?t '' && '' = Some (unparse c, ?r)"
    using scan_pieces [of "'' && ''" "'' && '' @ ?r" c "[]"] "3.prems" tr scan_sep [of "'' && ''"]
    by (simp add: splitOnTopLevelOperator_def is_sep_def clause_okD starts_clear_def)
  ultimately have "EvaluateWorkflowStepCondition L ctx ?t =
     (case EvaluateWorkflowStepCondition L ctx (unparse c) of
             Inl e \<Rightarrow> Inl e
           | Inr b \<Rightarrow> if \<not> b then Inr False else EvaluateWorkflowStepCondition L ctx ?r)"
    using tr by (subst EvaluateWorkflowStepCondition.simps) (simp add: Let_def del: print_conj.simps)
  with 3 eval_clause [of c L ctx] show ?case by (auto split: sum.splits simp del: print_conj.simps)
qed (simp_all add: eval_clause)

lemma eval_print_disj:
  "list_all (\<lambda>d. d \<noteq> [] \<and> list_all clause_ok d) ds \<Longrightarrow> ds \<noteq> [] \<Longrightarrow>
   EvaluateWorkflowStepCondition L ctx (print_disj ds) = eval_disj L ctx ds"
proof (induction ds rule: print_disj.induct)
  case (3 d d' ds)
  let ?r = "print_disj (d' # ds)" and ?t = "print_disj (d # d' # ds)"
  have tr: "TrimSpace ?t = ?t" "?t \<noteq> []" "TrimSpace ?r = ?r" "TrimSpace (print_conj d) = print_conj d"
    using disj_trimmed [of "d # d' # ds"] disj_trimmed [of "d' # ds"] conj_trimmed [of d] "3.prems"
    by (auto simp: TrimSpace_id)
  have "splitOnTopLevelOperator ?t '' || '' = Some (print_conj d, ?r)"
    using scan_conj_for_or [OF starts_clear_sep(2) [of ?r], of d "[]"] "3.prems" tr scan_sep [of "'' || ''"]
    by (simp add: splitOnTopLevelOperator_def is_sep_def)
  then have "EvaluateWorkflowStepCondition L ctx ?t =
     (case EvaluateWorkflowStepCondition L ctx (print_conj d) of
             Inl e \<Rightarrow> Inl e
           | Inr b \<Rightarrow> if b then Inr True else EvaluateWorkflowStepCondition L ctx ?r)"
    using tr by (subst EvaluateWorkflowStepCondition.simps) (simp add: Let_def del: print_disj.simps)
  with 3 eval_print_conj [of d L ctx] show ?case by (auto split: sum.splits simp del: print_disj.simps)
qed (simp_all add: eval_print_conj)

section \<open>Properties\<close>

text \<open>C38: Step conditions mean what their grammar says: for a printed disjunction of conjunctions of clauses
  the evaluator gives the short-circuit value with && binding tighter than ||, errors of clauses
  that are reached included, whatever operators occur inside the templates of the clauses.\<close>
theorem condition_evaluates_grammar:
  assumes "list_all (\<lambda>d. d \<noteq> [] \<and> list_all clause_ok d) ds" and "ds \<noteq> []"
  shows "EvaluateWorkflowStepCondition L ctx (print_disj ds) = eval_disj L ctx ds"
  using assms by (rule eval_print_disj)

definition ex_condition :: "piece list list list" where
  "ex_condition = [[map Lit ''false''], [[Tmpl '' inputs.image ''] @ map Lit '' == \"app\"'', [Tmpl ''$a || b'']]]"

lemma ex_condition_print: "print_disj ex_condition = ''false || {{ inputs.image }} == \"app\" && {{$a || b}}''"
  by code_simp

theorem condition_evaluates_grammar_witness:
  "EvaluateWorkflowStepCondition ex_golib ex_ctx ''false || {{ inputs.image }} == \"app\" && {{$a || b}}'' = Inr True"
proof -
  have "list_all (\<lambda>d. d \<noteq> [] \<and> list_all clause_ok d) ex_condition" "ex_condition \<noteq> []"
    "eval_disj ex_golib ex_ctx ex_condition = Inr True" by code_simp+
  with condition_evaluates_grammar [of ex_condition ex_golib ex_ctx] show ?thesis
    by (simp add: ex_condition_print)
qed

text \<open>Splitting a comparison prefers == over !=: when both operators occur, the text is split at the first
  == even if a != stands before it, so the left side keeps the != as literal text.\<close>
theorem condition_binary_prefers_equality:
  assumes "Index expr '' == '' = Some i"
  shows "splitWorkflowStepConditionBinary expr = Some (''=='', TrimSpace (take i expr), TrimSpace (drop (i + 4) expr)) \<and>
    take 4 (drop i expr) = '' == ''"
  using Index_Some [OF assms] assms by (simp add: splitWorkflowStepConditionBinary_def numeral_eq_Suc)

theorem condition_binary_prefers_equality_witness:
  "splitWorkflowStepConditionBinary ''a != b == c'' = Some (''=='', ''a != b'', ''c'')"
proof -
  have "Index ''a != b == c'' '' == '' = Some 6" by code_simp
  from condition_binary_prefers_equality [OF this] show ?thesis by (simp add: TrimSpace_def is_space_def)
qed

end
