(* ===== verification/Workflow_Model.thy ===== *)
theory Workflow_Model
  imports Manifest_Names
begin

text \<open>
  The workflow manifest, \<open>model/workflow.go\<close>, one record per struct. A nil map is an empty map; where the
  source distinguishes them (\<open>step.With == nil\<close>) the two lead to the same error.
\<close>

record WorkflowScheduleTriggerSpec =
  sched_cron :: string
  sched_timezone :: string
  sched_start_at :: string
  sched_end_at :: string
  sched_catchup :: string
  sched_inputs :: gmap

record WorkflowEventAggregateFilter =
  agg_type :: string
  agg_pattern :: string

record WorkflowEventPayloadFilter =
  pf_path :: string
  pf_operator :: string
  pf_value :: gval

record WorkflowEventTriggerSpec =
  ev_types :: "string list"
  ev_aggregate :: "WorkflowEventAggregateFilter option"
  ev_filters :: "WorkflowEventPayloadFilter list"
  ev_debounce :: int
  ev_inputs :: gmap

record WorkflowTriggerSpec =
  trig_mode :: string
  trig_enabled :: "bool option"
  trig_schedule :: "WorkflowScheduleTriggerSpec option"
  trig_event :: "WorkflowEventTriggerSpec option"

record WorkflowInputSchemaSpec =
  in_required :: "string list"
  in_properties :: "(string \<times> IntegrationSchemaProperty) list"
  in_additional :: "bool option"

record WorkflowAuthorizationSpec =
  wauth_rbac :: ManifestSelector
  wauth_policy :: "ManifestSelector option"

record WorkflowStepUseSpec =
  use_kind :: string
  use_instance_ref :: "ManifestSelector option"
  use_family :: string
  use_provider_ref :: "ManifestSelector option"
  use_capability :: string
  use_operation :: string

record WorkflowRetrySpec =
  retry_max_attempts :: int
  retry_backoff :: int

record WorkflowForEachSpec =
  fe_items :: string
  fe_as :: string

record WorkflowStepSpec =
  step_id :: string
  step_description :: string
  step_condition :: string
  step_use :: WorkflowStepUseSpec
  step_with :: gmap
  step_depends :: "string list"
  step_retry :: WorkflowRetrySpec
  step_timeout :: int
  step_for_each :: "WorkflowForEachSpec option"

record WorkflowManifestSpec =
  wf_trigger :: WorkflowTriggerSpec
  wf_input_schema :: WorkflowInputSchemaSpec
  wf_defaults :: gmap
  wf_dispatch_mode :: string
  wf_authorization :: "WorkflowAuthorizationSpec option"
  wf_steps :: "WorkflowStepSpec list"

text \<open>The zero value of a step, which a read of a missing map entry gives.\<close>

definition zero_step :: WorkflowStepSpec where
  "zero_step = \<lparr>step_id = [], step_description = [], step_condition = [],
     step_use = \<lparr>use_kind = [], use_instance_ref = None, use_family = [], use_provider_ref = None,
                 use_capability = [], use_operation = []\<rparr>,
     step_with = [], step_depends = [], step_retry = \<lparr>retry_max_attempts = 0, retry_backoff = 0\<rparr>,
     step_timeout = 0, step_for_each = None\<rparr>"

definition NormalizeWorkflowDispatchMode :: "WorkflowManifestSpec \<Rightarrow> string" where
  "NormalizeWorkflowDispatchMode spec =
     (let mode = ToLower (TrimSpace (wf_dispatch_mode spec)) in if mode = [] then ''sync'' else mode)"

definition NormalizeWorkflowStepOperation :: "WorkflowStepSpec \<Rightarrow> string" where
  "NormalizeWorkflowStepOperation step =
     (let operation = normalizeIntegrationName (use_operation (step_use step))
      in if operation \<noteq> [] then operation else normalizeIntegrationName (use_capability (step_use step)))"

definition NormalizeWorkflowStepCapability :: "WorkflowStepSpec \<Rightarrow> string" where
  "NormalizeWorkflowStepCapability step =
     (let capability = normalizeIntegrationName (use_capability (step_use step))
      in if capability \<noteq> [] then capability else NormalizeWorkflowStepOperation step)"

definition sid :: "WorkflowStepSpec \<Rightarrow> string" where
  "sid step = normalizeIntegrationName (step_id step)"

definition sdeps :: "WorkflowStepSpec \<Rightarrow> string list" where
  "sdeps step = map normalizeIntegrationName (step_depends step)"

end
