(* ===== verification/Workflow_Order.thy ===== *)
theory Workflow_Order
  imports Workflow_Model
begin

text \<open>
  \<open>WorkflowExecutionOrder\<close> of \<open>manifest/workflow.go\<close>: Kahn's algorithm with the maps \<open>stepByID\<close>,
  \<open>remaining\<close> and \<open>dependents\<close> and a queue. A read of a missing key gives the zero value, as in Go. The
  loop ends because every iteration takes one element from the queue and an element enters the queue
  only when its counter falls from one to zero.
\<close>

definition count_of :: "(string \<times> int) list \<Rightarrow> string \<Rightarrow> int" where
  "count_of m k = (case map_of m k of None \<Rightarrow> 0 | Some n \<Rightarrow> n)"

definition names_of :: "(string \<times> string list) list \<Rightarrow> string \<Rightarrow> string list" where
  "names_of m k = (case map_of m k of None \<Rightarrow> [] | Some ns \<Rightarrow> ns)"

definition build_steps :: "WorkflowStepSpec list \<Rightarrow> (string \<times> WorkflowStepSpec) list" where
  "build_steps steps = fold (\<lambda>s m. AList.update (sid s) s m) steps []"

definition build_remaining :: "WorkflowStepSpec list \<Rightarrow> (string \<times> int) list" where
  "build_remaining steps = fold (\<lambda>s m. AList.update (sid s) (int (length (step_depends s))) m) steps []"

definition build_dependents :: "WorkflowStepSpec list \<Rightarrow> (string \<times> string list) list" where
  "build_dependents steps =
     fold (\<lambda>s m. fold (\<lambda>d m. AList.update d (names_of m d @ [sid s]) m) (sdeps s) m) steps []"

definition step_of :: "(string \<times> WorkflowStepSpec) list \<Rightarrow> string \<Rightarrow> WorkflowStepSpec" where
  "step_of m k = (case map_of m k of None \<Rightarrow> zero_step | Some s \<Rightarrow> s)"

definition release :: "string \<Rightarrow> (string \<times> int) list \<times> string list \<Rightarrow> (string \<times> int) list \<times> string list" where
  "release x st =
     (case st of (remaining, queue) \<Rightarrow>
        let n = count_of remaining x - 1;
            remaining' = AList.update x n remaining
        in if n = 0 then (remaining', queue @ [x]) else (remaining', queue))"

definition positives :: "(string \<times> int) list \<Rightarrow> nat" where
  "positives m = length (filter (\<lambda>(k, n). 0 < n) m)"

lemma positives_update:
  "positives (AList.update k (count_of m k - 1) m) + (if count_of m k - 1 = 0 then 1 else 0) \<le> positives m"
  by (induction m) (auto simp: positives_def count_of_def split: option.splits if_splits)

lemma release_measure:
  "positives (fst (release d st)) + length (snd (release d st)) \<le> positives (fst st) + length (snd st)"
  using positives_update [of d "fst st"] by (auto simp: release_def Let_def split: prod.splits if_splits)

lemma release_fold_measure:
  "positives (fst (fold release ds st)) + length (snd (fold release ds st)) \<le> positives (fst st) + length (snd st)"
proof (induction ds arbitrary: st)
  case (Cons d ds)
  from Cons.IH [of "release d st"] release_measure [of d st] show ?case by simp
qed simp

function order_loop :: "(string \<times> string list) list \<Rightarrow> (string \<times> int) list \<times> string list \<Rightarrow> string list" where
  "order_loop dependents (remaining, queue) =
     (case queue of
        [] \<Rightarrow> []
      | current # rest \<Rightarrow>
          current # order_loop dependents (fold release (names_of dependents current) (remaining, rest)))"
  by pat_completeness auto
termination
proof (relation "measure (\<lambda>(deps, rem, q). positives rem + length q)", goal_cases)
  case (2 dependents remaining queue current rest)
  then show ?case
    using release_fold_measure [of "names_of dependents current" "(remaining, rest)"]
    by (cases "fold release (names_of dependents current) (remaining, rest)") simp
qed simp

declare order_loop.simps [simp del]

definition initial_queue :: "WorkflowStepSpec list \<Rightarrow> string list" where
  "initial_queue steps = filter (\<lambda>i. count_of (build_remaining steps) i = 0) (map sid steps)"

definition WorkflowExecutionOrder :: "WorkflowStepSpec list \<Rightarrow> WorkflowStepSpec list option" where
  "WorkflowExecutionOrder steps =
     (let ordered = order_loop (build_dependents steps) (build_remaining steps, initial_queue steps)
      in if length ordered \<noteq> length steps then None
         else Some (map (step_of (build_steps steps)) ordered))"

section \<open>The maps\<close>

lemma fold_update_map_of:
  "map_of (fold (\<lambda>s m. AList.update (f s) (g s) m) xs m0) =
     map_of m0 ++ map_of (rev (map (\<lambda>s. (f s, g s)) xs))"
  by (induction xs arbitrary: m0) (auto simp: update_conv' map_add_upd_left fun_eq_iff map_add_def split: option.splits)

lemma map_of_rev_distinct:
  assumes "distinct (map f xs)" and "s \<in> set xs"
  shows "map_of (rev (map (\<lambda>s. (f s, g s)) xs)) (f s) = Some (g s)"
proof -
  have "distinct (map fst (rev (map (\<lambda>s. (f s, g s)) xs)))"
    using assms(1) by (simp add: rev_map [symmetric] o_def)
  moreover have "(f s, g s) \<in> set (rev (map (\<lambda>s. (f s, g s)) xs))" using assms(2) by auto
  ultimately show ?thesis by (simp only: map_of_is_SomeI)
qed

lemma build_steps_get:
  assumes "distinct (map sid steps)" and "s \<in> set steps"
  shows "map_of (build_steps steps) (sid s) = Some s"
  using map_of_rev_distinct [OF assms, of "\<lambda>s. s"] by (simp add: build_steps_def fold_update_map_of)

lemma build_remaining_get:
  assumes "distinct (map sid steps)" and "s \<in> set steps"
  shows "count_of (build_remaining steps) (sid s) = int (length (step_depends s))"
  using map_of_rev_distinct [OF assms, of "\<lambda>s. int (length (step_depends s))"]
  by (simp add: build_remaining_def fold_update_map_of count_of_def)

lemma build_dependents_inner:
  "names_of (fold (\<lambda>d m. AList.update d (names_of m d @ [i]) m) ds m) c =
     names_of m c @ replicate (length (filter (\<lambda>d. d = c) ds)) i"
proof (induction ds arbitrary: m)
  case (Cons d ds)
  then show ?case by (simp add: names_of_def update_conv' replicate_append_same [symmetric])
qed simp

lemma build_dependents_get:
  assumes "\<forall>s\<in>set steps. distinct (sdeps s)"
  shows "names_of (build_dependents steps) c = map sid (filter (\<lambda>s. c \<in> set (sdeps s)) steps)"
proof -
  have one: "length (filter (\<lambda>d. d = c) ds) = (if c \<in> set ds then 1 else 0)" if "distinct ds" for ds
    using that by (induction ds) auto
  have "names_of (fold (\<lambda>s m. fold (\<lambda>d m. AList.update d (names_of m d @ [sid s]) m) (sdeps s) m) steps m) c =
      names_of m c @ map sid (filter (\<lambda>s. c \<in> set (sdeps s)) steps)" for m
    using assms by (induction steps arbitrary: m) (auto simp: build_dependents_inner one)
  then show ?thesis by (simp add: build_dependents_def names_of_def)
qed

lemma release_fold:
  assumes "distinct ds"
  shows "count_of (fst (fold release ds (rem, q))) x = count_of rem x - (if x \<in> set ds then 1 else 0) \<and>
         snd (fold release ds (rem, q)) = q @ filter (\<lambda>d. count_of rem d = 1) ds"
  using assms
proof (induction ds arbitrary: rem q)
  case (Cons d ds)
  let ?rem = "AList.update d (count_of rem d - 1) rem"
  have c: "count_of ?rem y = (if y = d then count_of rem d - 1 else count_of rem y)" for y
    by (simp add: count_of_def update_conv')
  have r: "release d (rem, q) = (?rem, if count_of rem d = 1 then q @ [d] else q)"
    by (simp add: release_def Let_def)
  have "filter (\<lambda>y. count_of ?rem y = 1) ds = filter (\<lambda>y. count_of rem y = 1) ds"
    using Cons.prems by (auto simp: c intro!: filter_cong)
  with Cons r c show ?case by simp
qed simp

section \<open>The loop invariant\<close>

text \<open>What validation has established of the steps when the order is computed.\<close>

definition wf_graph :: "WorkflowStepSpec list \<Rightarrow> bool" where
  "wf_graph steps \<longleftrightarrow> distinct (map sid steps) \<and>
     (\<forall>s\<in>set steps. distinct (sdeps s) \<and> set (sdeps s) \<subseteq> set (map sid steps))"

definition dep_rel :: "WorkflowStepSpec list \<Rightarrow> (string \<times> string) set" where
  "dep_rel steps = {(d, sid s) | d s. s \<in> set steps \<and> d \<in> set (sdeps s)}"

definition kahn_inv :: "WorkflowStepSpec list \<Rightarrow> string list \<Rightarrow> (string \<times> int) list \<Rightarrow> string list \<Rightarrow> bool" where
  "kahn_inv steps done rem q \<longleftrightarrow>
     distinct (done @ q) \<and> set (done @ q) \<subseteq> set (map sid steps) \<and>
     (\<forall>s\<in>set steps. count_of rem (sid s) = int (card (set (sdeps s) - set done))) \<and>
     (\<forall>s\<in>set steps. sid s \<in> set (done @ q) \<longleftrightarrow> set (sdeps s) \<subseteq> set done)"

lemma kahn_init:
  assumes "wf_graph steps"
  shows "kahn_inv steps [] (build_remaining steps) (initial_queue steps)"
proof -
  have d: "distinct (map sid steps)" and ds: "\<And>s. s \<in> set steps \<Longrightarrow> distinct (sdeps s)"
    using assms by (auto simp: wf_graph_def)
  have c: "count_of (build_remaining steps) (sid s) = int (card (set (sdeps s)))" if "s \<in> set steps" for s
    using build_remaining_get [OF d that] distinct_card [OF ds [OF that]] by (simp add: sdeps_def)
  then show ?thesis using d by (auto simp: kahn_inv_def initial_queue_def)
qed

lemma card_one_cover:
  assumes "c \<notin> D"
  shows "A \<subseteq> D \<or> (c \<in> A \<and> card (A - D) = 1) \<longleftrightarrow> A \<subseteq> insert c D"
proof
  assume "A \<subseteq> D \<or> (c \<in> A \<and> card (A - D) = 1)"
  then show "A \<subseteq> insert c D"
  proof
    assume a: "c \<in> A \<and> card (A - D) = 1"
    then obtain y where y: "A - D = {y}" by (meson card_1_singletonE)
    have "c \<in> A - D" using a assms by simp
    with y have "A - D = {c}" by simp
    then show ?thesis by auto
  qed auto
next
  assume a: "A \<subseteq> insert c D"
  show "A \<subseteq> D \<or> (c \<in> A \<and> card (A - D) = 1)"
  proof (cases "c \<in> A")
    case True
    with a assms have "A - D = {c}" by auto
    with True show ?thesis by simp
  qed (use a in auto)
qed

lemma kahn_step:
  assumes g: "wf_graph steps" and inv: "kahn_inv steps done rem (c # rest)"
    and f: "fold release (names_of (build_dependents steps) c) (rem, rest) = (rem', q')"
  shows "kahn_inv steps (done @ [c]) rem' q'"
proof -
  let ?ds = "map sid (filter (\<lambda>s. c \<in> set (sdeps s)) steps)"
  have dist: "distinct (map sid steps)" using g by (simp add: wf_graph_def)
  have ds: "names_of (build_dependents steps) c = ?ds"
    using g by (intro build_dependents_get) (simp add: wf_graph_def)
  have dds: "distinct ?ds" using dist by (rule distinct_map_filter)
  have rem': "count_of rem' x = count_of rem x - (if x \<in> set ?ds then 1 else 0)" for x
    using release_fold [OF dds, of rem rest x] f ds by simp
  have q': "q' = rest @ filter (\<lambda>d. count_of rem d = 1) ?ds"
    using release_fold [OF dds, of rem rest] f ds by simp
  have cnt: "count_of rem (sid s) = int (card (set (sdeps s) - set done))"
    and mem: "sid s \<in> set (done @ c # rest) \<longleftrightarrow> set (sdeps s) \<subseteq> set done" if "s \<in> set steps" for s
    using inv that by (auto simp: kahn_inv_def)
  have cd: "c \<notin> set done" and old: "distinct (done @ c # rest)" "set (done @ c # rest) \<subseteq> set (map sid steps)"
    using inv by (auto simp: kahn_inv_def)
  have inds: "sid s \<in> set ?ds \<longleftrightarrow> c \<in> set (sdeps s)" if "s \<in> set steps" for s
    using dist that by (auto simp: distinct_map inj_on_def)
  have fresh: "x \<notin> set (done @ c # rest)" if "x \<in> set ?ds" "count_of rem x = 1" for x
  proof -
    from that obtain s where s: "s \<in> set steps" "x = sid s" by auto
    with that cnt have "set (sdeps s) - set done \<noteq> {}" by (metis card.empty of_nat_0 zero_neq_one)
    with s mem show ?thesis by blast
  qed
  have card': "int (card (set (sdeps s) - set (done @ [c]))) =
      int (card (set (sdeps s) - set done)) - (if c \<in> set (sdeps s) then 1 else 0)" for s
  proof -
    let ?A = "set (sdeps s) - set done"
    have e: "set (sdeps s) - set (done @ [c]) = ?A - {c}" by auto
    show ?thesis
    proof (cases "c \<in> set (sdeps s)")
      case True
      with cd have "c \<in> ?A" by simp
      then have "Suc (card (?A - {c})) = card ?A" by (intro card_Suc_Diff1) simp_all
      with True e show ?thesis by simp
    next
      case False
      then have "?A - {c} = ?A" by auto
      with False e show ?thesis by simp
    qed
  qed
  have "sid s \<in> set ((done @ [c]) @ q') \<longleftrightarrow> set (sdeps s) \<subseteq> set (done @ [c])" if s: "s \<in> set steps" for s
  proof -
    have "sid s \<in> set ((done @ [c]) @ q') \<longleftrightarrow>
        set (sdeps s) \<subseteq> set done \<or> (c \<in> set (sdeps s) \<and> card (set (sdeps s) - set done) = 1)"
    proof -
      have "sid s \<in> set ((done @ [c]) @ q') \<longleftrightarrow>
          sid s \<in> set (done @ c # rest) \<or> (sid s \<in> set ?ds \<and> count_of rem (sid s) = 1)"
        unfolding q' set_append set_filter by auto
      then show ?thesis unfolding mem [OF s] inds [OF s] cnt [OF s] by simp
    qed
    also have "\<dots> \<longleftrightarrow> set (sdeps s) \<subseteq> set (done @ [c])"
      using card_one_cover [OF cd, of "set (sdeps s)"] by simp
    finally show ?thesis .
  qed
  moreover have "distinct ((done @ [c]) @ q')" and "set ((done @ [c]) @ q') \<subseteq> set (map sid steps)"
    using old dds fresh by (auto simp: q')
  ultimately show ?thesis
    unfolding kahn_inv_def using rem' inds cnt card' by (auto simp del: set_map)
qed

text \<open>What the loop appends to the steps done before it.\<close>

fun topo :: "WorkflowStepSpec list \<Rightarrow> string list \<Rightarrow> string list \<Rightarrow> bool" where
  "topo steps done [] = True"
| "topo steps done (i # out) =
     ((\<forall>s\<in>set steps. sid s = i \<longrightarrow> set (sdeps s) \<subseteq> set done) \<and> topo steps (done @ [i]) out)"

definition kahn_post :: "WorkflowStepSpec list \<Rightarrow> string list \<Rightarrow> string list \<Rightarrow> bool" where
  "kahn_post steps done out \<longleftrightarrow>
     distinct (done @ out) \<and> set (done @ out) \<subseteq> set (map sid steps) \<and>
     (\<forall>s\<in>set steps. set (sdeps s) \<subseteq> set (done @ out) \<longrightarrow> sid s \<in> set (done @ out)) \<and>
     topo steps done out"

lemma order_loop_post:
  assumes "wf_graph steps"
  shows "kahn_inv steps done rem q \<Longrightarrow> kahn_post steps done (order_loop (build_dependents steps) (rem, q))"
proof (induction "build_dependents steps" "(rem, q)" arbitrary: rem q "done" rule: order_loop.induct)
  case (1 rem q)
  show ?case
  proof (cases q)
    case Nil
    with "1.prems" show ?thesis by (auto simp: order_loop.simps kahn_inv_def kahn_post_def)
  next
    case (Cons c rest)
    obtain rem' q' where f: "fold release (names_of (build_dependents steps) c) (rem, rest) = (rem', q')"
      by (cases "fold release (names_of (build_dependents steps) c) (rem, rest)")
    let ?out = "order_loop (build_dependents steps) (rem', q')"
    have o: "order_loop (build_dependents steps) (rem, q) = c # ?out"
      using f unfolding Cons by (subst order_loop.simps) simp
    have "kahn_inv steps (done @ [c]) rem' q'"
      using kahn_step [OF assms _ f] "1.prems" Cons by simp
    then have p: "kahn_post steps (done @ [c]) ?out"
      using "1.hyps" [OF Cons f] by simp
    have "set (sdeps s) \<subseteq> set done" if "s \<in> set steps" "sid s = c" for s
      using "1.prems" that Cons by (auto simp: kahn_inv_def)
    with p show ?thesis unfolding o kahn_post_def
      by simp
  qed
qed

section \<open>Correctness\<close>

definition order_ids :: "WorkflowStepSpec list \<Rightarrow> string list" where
  "order_ids steps = order_loop (build_dependents steps) (build_remaining steps, initial_queue steps)"

lemma order_ids_post: "wf_graph steps \<Longrightarrow> kahn_post steps [] (order_ids steps)"
  unfolding order_ids_def by (intro order_loop_post kahn_init)

lemma topo_nth:
  "topo steps done out \<Longrightarrow> i < length out \<Longrightarrow> s \<in> set steps \<Longrightarrow> sid s = out ! i \<Longrightarrow>
   set (sdeps s) \<subseteq> set done \<union> set (take i out)"
proof (induction out arbitrary: "done" i)
  case (Cons x out)
  then show ?case
  proof (cases i)
    case (Suc j)
    with Cons.IH [of "done @ [x]" j] Cons.prems show ?thesis by auto
  qed auto
qed simp

lemma wf_graph_length:
  assumes "wf_graph steps"
  shows "length (order_ids steps) = length steps \<longleftrightarrow> set (order_ids steps) = set (map sid steps)"
proof -
  have d: "distinct (order_ids steps)" and sub: "set (order_ids steps) \<subseteq> set (map sid steps)"
    using order_ids_post [OF assms] by (auto simp: kahn_post_def)
  have l: "card (set (order_ids steps)) = length (order_ids steps)"
    using d by (rule distinct_card)
  have c: "card (set (map sid steps)) = length steps"
    using assms distinct_card [of "map sid steps"] by (simp add: wf_graph_def)
  show ?thesis
  proof
    assume "length (order_ids steps) = length steps"
    with l c sub show "set (order_ids steps) = set (map sid steps)"
      by (intro card_subset_eq) simp_all
  next
    assume "set (order_ids steps) = set (map sid steps)"
    with l c show "length (order_ids steps) = length steps" by simp
  qed
qed

lemma finite_dep_rel: "finite (dep_rel steps)"
proof -
  have "dep_rel steps = (\<Union>s\<in>set steps. (\<lambda>d. (d, sid s)) ` set (sdeps s))"
    by (auto simp: dep_rel_def)
  then show ?thesis by simp
qed

lemma order_complete:
  assumes g: "wf_graph steps" and a: "acyclic (dep_rel steps)"
  shows "set (order_ids steps) = set (map sid steps)"
proof (rule ccontr)
  assume "set (order_ids steps) \<noteq> set (map sid steps)"
  then obtain u where u: "u \<in> set (map sid steps) - set (order_ids steps)"
    using order_ids_post [OF g] by (auto simp: kahn_post_def)
  have "wf (dep_rel steps)" using finite_dep_rel a by (rule finite_acyclic_wf)
  from wfE_min [OF this u] obtain z where z: "z \<in> set (map sid steps) - set (order_ids steps)"
    and m: "\<And>y. (y, z) \<in> dep_rel steps \<Longrightarrow> y \<notin> set (map sid steps) - set (order_ids steps)" by blast
  from z obtain s where s: "s \<in> set steps" "z = sid s" by auto
  have "y \<in> set (order_ids steps)" if "y \<in> set (sdeps s)" for y
  proof -
    have "(y, z) \<in> dep_rel steps" using that s by (auto simp: dep_rel_def)
    moreover have "y \<in> set (map sid steps)" using g s that by (auto simp: wf_graph_def)
    ultimately show ?thesis using m by blast
  qed
  with s order_ids_post [OF g] have "z \<in> set (order_ids steps)" by (auto simp: kahn_post_def)
  with z show False by simp
qed

definition position :: "'a list \<Rightarrow> 'a \<Rightarrow> nat" where
  "position xs x = length (takeWhile (\<lambda>y. y \<noteq> x) xs)"

lemma position_nth: "x \<in> set xs \<Longrightarrow> position xs x < length xs \<and> xs ! position xs x = x"
  by (induction xs) (auto simp: position_def)

lemma position_less: "x \<in> set (take i xs) \<Longrightarrow> position xs x < i"
proof (induction xs arbitrary: i)
  case (Cons y xs)
  then show ?case by (cases i) (auto simp: position_def)
qed simp

lemma order_acyclic:
  assumes g: "wf_graph steps" and c: "set (order_ids steps) = set (map sid steps)"
  shows "acyclic (dep_rel steps)"
proof -
  let ?pos = "position (order_ids steps)"
  have "(x, y) \<in> inv_image less_than ?pos" if "(x, y) \<in> dep_rel steps" for x y
  proof -
    from that obtain s where s: "s \<in> set steps" "y = sid s" "x \<in> set (sdeps s)" by (auto simp: dep_rel_def)
    then have y: "y \<in> set (order_ids steps)" using c by auto
    have "set (sdeps s) \<subseteq> set [] \<union> set (take (?pos y) (order_ids steps))"
      using order_ids_post [OF g] position_nth [OF y] s by (intro topo_nth) (auto simp: kahn_post_def)
    with s have "x \<in> set (take (?pos y) (order_ids steps))" by auto
    then have "?pos x < ?pos y" by (rule position_less)
    then show ?thesis by simp
  qed
  then have "dep_rel steps \<subseteq> inv_image less_than ?pos" by (rule subrelI)
  then have "wf (dep_rel steps)" by (rule wf_subset [OF wf_inv_image [OF wf_less_than]])
  then show ?thesis by (rule wf_acyclic)
qed

lemma WorkflowExecutionOrder_ids:
  "WorkflowExecutionOrder steps = (if length (order_ids steps) \<noteq> length steps then None
     else Some (map (step_of (build_steps steps)) (order_ids steps)))"
  by (simp add: WorkflowExecutionOrder_def order_ids_def Let_def)

lemma step_of_sid: "wf_graph steps \<Longrightarrow> s \<in> set steps \<Longrightarrow> step_of (build_steps steps) (sid s) = s"
  by (simp add: step_of_def build_steps_get wf_graph_def)

lemma WorkflowExecutionOrder_Some:
  assumes g: "wf_graph steps" and o: "WorkflowExecutionOrder steps = Some out"
  shows "map sid out = order_ids steps \<and> distinct out \<and> set out = set steps"
proof -
  have l: "length (order_ids steps) = length steps"
    and out: "out = map (step_of (build_steps steps)) (order_ids steps)"
    using o by (auto simp: WorkflowExecutionOrder_ids split: if_splits)
  then have ids: "set (order_ids steps) = set (map sid steps)" using wf_graph_length [OF g] by simp
  have "sid (step_of (build_steps steps) i) = i \<and> step_of (build_steps steps) i \<in> set steps"
    if "i \<in> set (order_ids steps)" for i
    using that ids step_of_sid [OF g] by auto
  then have m: "map sid out = order_ids steps" and sub: "set out \<subseteq> set steps"
    using out by (auto simp: map_idI)
  have "distinct (map sid out)" using m order_ids_post [OF g] by (simp add: kahn_post_def)
  then have "distinct out" by (simp add: distinct_map)
  moreover have "set steps \<subseteq> set out"
  proof
    fix s assume s: "s \<in> set steps"
    then have "sid s \<in> set (order_ids steps)" using ids by simp
    then show "s \<in> set out" using out step_of_sid [OF g s] by force
  qed
  ultimately show ?thesis using m sub by auto
qed

lemma WorkflowExecutionOrder_exists:
  assumes "wf_graph steps"
  shows "(\<exists>out. WorkflowExecutionOrder steps = Some out) \<longleftrightarrow> acyclic (dep_rel steps)"
proof -
  have "(\<exists>out. WorkflowExecutionOrder steps = Some out) \<longleftrightarrow> length (order_ids steps) = length steps"
    by (simp add: WorkflowExecutionOrder_ids)
  also have "\<dots> \<longleftrightarrow> acyclic (dep_rel steps)"
    unfolding wf_graph_length [OF assms] using order_complete [OF assms] order_acyclic [OF assms] by blast
  finally show ?thesis .
qed

lemma WorkflowExecutionOrder_deps:
  assumes "wf_graph steps" and "WorkflowExecutionOrder steps = Some out"
    and i: "i < length out" and d: "d \<in> set (sdeps (out ! i))"
  shows "\<exists>j<i. sid (out ! j) = d"
proof -
  have o: "map sid out = order_ids steps" "distinct out" "set out = set steps"
    using WorkflowExecutionOrder_Some [OF assms(1,2)] by blast+
  have l: "length (order_ids steps) = length out" and nth: "order_ids steps ! i = sid (out ! i)"
    using i by (simp_all flip: o(1))
  have "set (sdeps (out ! i)) \<subseteq> set [] \<union> set (take i (order_ids steps))"
  proof (rule topo_nth)
    show "topo steps [] (order_ids steps)" using order_ids_post [OF assms(1)] by (simp add: kahn_post_def)
    show "out ! i \<in> set steps" using i o(3) by (metis nth_mem)
  qed (use i l nth in simp_all)
  then have "d \<in> set (take i (map sid out))" using d o(1) by auto
  then show ?thesis using i by (auto simp: in_set_conv_nth)
qed

section \<open>Properties\<close>

text \<open>C29: The execution order of a workflow is a dependency-safe schedule: it lists every step exactly once, and
  when a step comes up each of its dependencies has come before it.\<close>
theorem order_is_topological:
  assumes "wf_graph steps" and "WorkflowExecutionOrder steps = Some out"
  shows "distinct out \<and> set out = set steps \<and>
    (\<forall>i<length out. \<forall>d\<in>set (sdeps (out ! i)). \<exists>j<i. sid (out ! j) = d)"
  using WorkflowExecutionOrder_Some [OF assms] WorkflowExecutionOrder_deps [OF assms] by blast

definition ex_step :: "string \<Rightarrow> string list \<Rightarrow> WorkflowStepSpec" where
  "ex_step i ds = zero_step\<lparr>step_id := i, step_depends := ds\<rparr>"

lemma ex_order: "WorkflowExecutionOrder [ex_step ''b'' ['' A''], ex_step ''a'' [], ex_step ''c'' [''a'', ''b'']] =
    Some [ex_step ''a'' [], ex_step ''b'' ['' A''], ex_step ''c'' [''a'', ''b'']]"
  by code_simp

lemma ex_graph: "wf_graph [ex_step ''b'' ['' A''], ex_step ''a'' [], ex_step ''c'' [''a'', ''b'']]"
  by code_simp

theorem order_is_topological_witness:
  "\<exists>j<1. sid ([ex_step ''a'' [], ex_step ''b'' ['' A''], ex_step ''c'' [''a'', ''b'']] ! j) = ''a''"
proof -
  let ?out = "[ex_step ''a'' [], ex_step ''b'' ['' A''], ex_step ''c'' [''a'', ''b'']]"
  have "1 < length ?out" "''a'' \<in> set (sdeps (?out ! 1))" by code_simp+
  with order_is_topological [OF ex_graph ex_order] show ?thesis by blast
qed

text \<open>C32: The order exists exactly when it can: the computation, which always terminates, reports a dependency
  cycle if and only if the dependency relation of the steps has one.\<close>
theorem order_exists_iff_acyclic:
  assumes "wf_graph steps"
  shows "(\<exists>out. WorkflowExecutionOrder steps = Some out) \<longleftrightarrow> acyclic (dep_rel steps)"
  using assms by (rule WorkflowExecutionOrder_exists)

theorem order_exists_iff_acyclic_witness:
  "\<not> acyclic (dep_rel [ex_step ''a'' [''b''], ex_step ''b'' [''a'']])"
proof -
  have "wf_graph [ex_step ''a'' [''b''], ex_step ''b'' [''a'']]"
    "WorkflowExecutionOrder [ex_step ''a'' [''b''], ex_step ''b'' [''a'']] = None" by code_simp+
  then show ?thesis using order_exists_iff_acyclic by fastforce
qed

end
