(* ===== verification/Workflow_Assert.thy ===== *)
theory Workflow_Assert
  imports Go_Value
begin

text \<open>
  The closed input of the in-process \<open>assert\<close> operation, \<open>manifest/workflow_assert.go\<close>. The errors carry
  a field, a position or a check name, as the messages of the source do, and never a value.
\<close>

record WorkflowAssertEqualCheck =
  eq_name :: string
  eq_actual :: gval
  eq_expected :: gval

record WorkflowAssertNonemptyCheck =
  ne_name :: string
  ne_value :: gval

record WorkflowAssertInput =
  assert_equal :: "WorkflowAssertEqualCheck list"
  assert_nonempty :: "WorkflowAssertNonemptyCheck list"

datatype assert_error =
    AssertUnsupportedFields
  | AssertNotArray string
  | AssertFields string nat     \<comment> \<open>section, position from 1\<close>
  | AssertName string nat
  | AssertDuplicated string
  | AssertNoChecks

definition hasExactWorkflowAssertFields :: "gmap \<Rightarrow> string list \<Rightarrow> bool" where
  "hasExactWorkflowAssertFields input flds \<longleftrightarrow>
     length input = length flds \<and> list_all (\<lambda>f. map_of input f \<noteq> None) flds"

definition assert_get :: "gmap \<Rightarrow> string \<Rightarrow> gval" where
  "assert_get m k = (case map_of m k of None \<Rightarrow> GNil | Some v \<Rightarrow> v)"

text \<open>The loop over one section: its position, the names seen so far, and the checks built.\<close>

fun assert_checks ::
  "string \<Rightarrow> string list \<Rightarrow> (gmap \<Rightarrow> string \<Rightarrow> 'c) \<Rightarrow> nat \<Rightarrow> string list \<Rightarrow> gval list
     \<Rightarrow> assert_error + ('c list \<times> string list)" where
  "assert_checks section flds mk index seen [] = Inr ([], seen)"
| "assert_checks section flds mk index seen (raw # raws) =
     (case raw of
        GMap check \<Rightarrow>
          if \<not> hasExactWorkflowAssertFields check flds then Inl (AssertFields section (index + 1))
          else (case map_of check ''name'' of
              Some (GStr name) \<Rightarrow>
                if name = [] then Inl (AssertName section (index + 1))
                else if name \<in> set seen then Inl (AssertDuplicated name)
                else (case assert_checks section flds mk (index + 1) (name # seen) raws of
                    Inl e \<Rightarrow> Inl e
                  | Inr (checks, seen') \<Rightarrow> Inr (mk check name # checks, seen'))
            | _ \<Rightarrow> Inl (AssertName section (index + 1)))
      | _ \<Rightarrow> Inl (AssertFields section (index + 1)))"

definition assert_section ::
  "gmap \<Rightarrow> string \<Rightarrow> string list \<Rightarrow> (gmap \<Rightarrow> string \<Rightarrow> 'c) \<Rightarrow> string list
     \<Rightarrow> assert_error + ('c list \<times> string list)" where
  "assert_section input section flds mk seen =
     (case map_of input section of
        None \<Rightarrow> Inr ([], seen)
      | Some (GList checks) \<Rightarrow> assert_checks section flds mk 0 seen checks
      | Some _ \<Rightarrow> Inl (AssertNotArray section))"

definition ParseWorkflowAssertInput :: "gmap \<Rightarrow> assert_error + WorkflowAssertInput" where
  "ParseWorkflowAssertInput input =
     (if list_ex (\<lambda>(key, v). key \<noteq> ''equal'' \<and> key \<noteq> ''nonempty'') input then Inl AssertUnsupportedFields
      else case assert_section input ''equal'' [''name'', ''actual'', ''expected'']
             (\<lambda>check name. \<lparr>eq_name = name, eq_actual = assert_get check ''actual'',
                            eq_expected = assert_get check ''expected''\<rparr>) [] of
        Inl e \<Rightarrow> Inl e
      | Inr (equal, seen) \<Rightarrow>
          (case assert_section input ''nonempty'' [''name'', ''value'']
             (\<lambda>check name. \<lparr>ne_name = name, ne_value = assert_get check ''value''\<rparr>) seen of
             Inl e \<Rightarrow> Inl e
           | Inr (nonempty, seen') \<Rightarrow>
               if length equal + length nonempty = 0 then Inl AssertNoChecks
               else Inr \<lparr>assert_equal = equal, assert_nonempty = nonempty\<rparr>))"

section \<open>Facts\<close>

text \<open>The printer: the input that a parsed assertion comes from.\<close>

definition print_assert :: "WorkflowAssertInput \<Rightarrow> gmap" where
  "print_assert a =
     [(''equal'', GList (map (\<lambda>c. GMap [(''name'', GStr (eq_name c)), (''actual'', eq_actual c),
                                        (''expected'', eq_expected c)]) (assert_equal a))),
      (''nonempty'', GList (map (\<lambda>c. GMap [(''name'', GStr (ne_name c)), (''value'', ne_value c)])
                                (assert_nonempty a)))]"

definition assert_names :: "WorkflowAssertInput \<Rightarrow> string list" where
  "assert_names a = map eq_name (assert_equal a) @ map ne_name (assert_nonempty a)"

lemma assert_checks_names:
  assumes "assert_checks section flds mk index seen raws = Inr (checks, seen')"
    and "\<And>check n. name (mk check n) = n"
  shows "distinct (map name checks) \<and> set seen' = set seen \<union> name ` set checks \<and>
     set (map name checks) \<inter> set seen = {} \<and> [] \<notin> set (map name checks) \<and> length checks = length raws"
  using assms(1)
proof (induction raws arbitrary: index seen checks)
  case Nil
  then show ?case by simp
next
  case (Cons raw raws)
  then obtain check n rest where raw: "raw = GMap check" "map_of check ''name'' = Some (GStr n)" "n \<noteq> []"
      "n \<notin> set seen" "checks = mk check n # rest"
    and r: "assert_checks section flds mk (index + 1) (n # seen) raws = Inr (rest, seen')"
    by (auto split: gval.splits if_splits option.splits sum.splits)
  from Cons.IH [OF r] raw show ?case by (auto simp: assms(2))
qed

lemma assert_checks_print:
  assumes "\<And>c. c \<in> set cs \<Longrightarrow> hasExactWorkflowAssertFields (pr c) flds \<and>
      map_of (pr c) ''name'' = Some (GStr (name c)) \<and> name c \<noteq> [] \<and> mk (pr c) (name c) = c"
    and "distinct (map name cs)" and "set (map name cs) \<inter> set seen = {}"
  shows "\<exists>seen'. assert_checks section flds mk index seen (map (\<lambda>c. GMap (pr c)) cs) = Inr (cs, seen') \<and>
     set seen' = set seen \<union> name ` set cs"
  using assms
proof (induction cs arbitrary: index seen)
  case Nil
  then show ?case by simp
next
  case (Cons c cs)
  from Cons.prems have "set (map name cs) \<inter> set (name c # seen) = {}" by auto
  with Cons.prems Cons.IH [of "name c # seen" "index + 1"] obtain s where
    "assert_checks section flds mk (index + 1) (name c # seen) (map (\<lambda>c. GMap (pr c)) cs) = Inr (cs, s)"
    "set s = set (name c # seen) \<union> name ` set cs" by auto
  with Cons.prems show ?case by auto
qed

lemma ParseWorkflowAssertInput_names:
  assumes "ParseWorkflowAssertInput input = Inr a"
  shows "distinct (assert_names a) \<and> [] \<notin> set (assert_names a) \<and> assert_names a \<noteq> []"
proof -
  let ?mk1 = "\<lambda>check name. \<lparr>eq_name = name, eq_actual = assert_get check ''actual'',
      eq_expected = assert_get check ''expected''\<rparr>"
  let ?mk2 = "\<lambda>check name. \<lparr>ne_name = name, ne_value = assert_get check ''value''\<rparr>"
  from assms obtain eqs s1 nes s2 where
    e: "assert_section input ''equal'' [''name'', ''actual'', ''expected''] ?mk1 [] = Inr (eqs, s1)"
    and n: "assert_section input ''nonempty'' [''name'', ''value''] ?mk2 s1 = Inr (nes, s2)"
    and a: "a = \<lparr>assert_equal = eqs, assert_nonempty = nes\<rparr>" "eqs \<noteq> [] \<or> nes \<noteq> []"
    unfolding ParseWorkflowAssertInput_def by (auto split: if_splits sum.splits)
  have 1: "distinct (map eq_name eqs) \<and> set s1 = eq_name ` set eqs \<and> [] \<notin> set (map eq_name eqs)"
    using e assert_checks_names [where mk = ?mk1 and name = eq_name and seen = "[]" and checks = eqs and seen' = s1]
    by (fastforce simp: assert_section_def split: option.splits gval.splits)
  have 2: "distinct (map ne_name nes) \<and> set (map ne_name nes) \<inter> set s1 = {} \<and> [] \<notin> set (map ne_name nes)"
    using n assert_checks_names [where mk = ?mk2 and name = ne_name and seen = s1 and checks = nes and seen' = s2]
    by (fastforce simp: assert_section_def split: option.splits gval.splits)
  from 1 2 a show ?thesis by (auto simp: assert_names_def)
qed

section \<open>Properties\<close>

text \<open>The parser of assert inputs is exact: an assertion written in the documented shape is parsed back
  to itself exactly when it has at least one check and its check names are non-empty and pairwise
  different over both sections.\<close>
theorem assert_parse_roundtrip:
  "(distinct (assert_names a) \<and> [] \<notin> set (assert_names a) \<and> assert_names a \<noteq> []) \<longleftrightarrow>
   ParseWorkflowAssertInput (print_assert a) = Inr a"
proof
  assume "ParseWorkflowAssertInput (print_assert a) = Inr a"
  then show "distinct (assert_names a) \<and> [] \<notin> set (assert_names a) \<and> assert_names a \<noteq> []"
    by (rule ParseWorkflowAssertInput_names)
next
  assume a: "distinct (assert_names a) \<and> [] \<notin> set (assert_names a) \<and> assert_names a \<noteq> []"
  let ?p1 = "\<lambda>c. [(''name'', GStr (eq_name c)), (''actual'', eq_actual c), (''expected'', eq_expected c)]"
  let ?p2 = "\<lambda>c. [(''name'', GStr (ne_name c)), (''value'', ne_value c)]"
  let ?mk1 = "\<lambda>check name. \<lparr>eq_name = name, eq_actual = assert_get check ''actual'',
      eq_expected = assert_get check ''expected''\<rparr>"
  let ?mk2 = "\<lambda>check name. \<lparr>ne_name = name, ne_value = assert_get check ''value''\<rparr>"
  have d1: "distinct (map eq_name (assert_equal a))" and d2: "distinct (map ne_name (assert_nonempty a))"
    using a by (simp_all add: assert_names_def)
  have ne1: "eq_name c \<noteq> []" if "c \<in> set (assert_equal a)" for c
  proof -
    from that have "eq_name c \<in> set (assert_names a)" by (simp add: assert_names_def)
    with a show ?thesis by metis
  qed
  have ne2: "ne_name c \<noteq> []" if "c \<in> set (assert_nonempty a)" for c
  proof -
    from that have "ne_name c \<in> set (assert_names a)" by (simp add: assert_names_def)
    with a show ?thesis by metis
  qed
  note shape = hasExactWorkflowAssertFields_def assert_get_def
  have "\<exists>s. assert_checks ''equal'' [''name'', ''actual'', ''expected''] ?mk1 0 []
      (map (\<lambda>c. GMap (?p1 c)) (assert_equal a)) = Inr (assert_equal a, s) \<and>
      set s = set [] \<union> eq_name ` set (assert_equal a)"
    by (rule assert_checks_print) (use ne1 d1 in \<open>simp_all add: shape\<close>)
  then obtain s1 where 1: "assert_checks ''equal'' [''name'', ''actual'', ''expected''] ?mk1 0 []
      (map (\<lambda>c. GMap (?p1 c)) (assert_equal a)) = Inr (assert_equal a, s1)"
    and s1: "set s1 = eq_name ` set (assert_equal a)" by auto
  have d: "set (map ne_name (assert_nonempty a)) \<inter> set s1 = {}"
    using a s1 by (auto simp: assert_names_def)
  have "\<exists>s. assert_checks ''nonempty'' [''name'', ''value''] ?mk2 0 s1
      (map (\<lambda>c. GMap (?p2 c)) (assert_nonempty a)) = Inr (assert_nonempty a, s) \<and>
      set s = set s1 \<union> ne_name ` set (assert_nonempty a)"
    by (rule assert_checks_print) (use ne2 d2 d in \<open>simp_all add: shape\<close>)
  then obtain s2 where 2: "assert_checks ''nonempty'' [''name'', ''value''] ?mk2 0 s1
      (map (\<lambda>c. GMap (?p2 c)) (assert_nonempty a)) = Inr (assert_nonempty a, s2)" by auto
  from a 1 2 show "ParseWorkflowAssertInput (print_assert a) = Inr a"
    by (auto simp: ParseWorkflowAssertInput_def print_assert_def assert_section_def assert_names_def)
qed

end
