(* ===== verification/Workflow_Inputs.thy ===== *)
theory Workflow_Inputs
  imports Workflow_Model
begin

text \<open>
  Runtime inputs of a workflow, \<open>MergeWorkflowInputs\<close>, \<open>ValidateWorkflowInputs\<close> and their helpers in
  \<open>manifest/workflow.go\<close>. Defaults and inputs are merged recursively, the inputs winning; the merged
  object is checked against the input schema. The rune count is that of valid UTF-8.
\<close>

section \<open>Cloning and merging\<close>

fun cloneWorkflowValue :: "gval \<Rightarrow> gval" and cloneWorkflowMap :: "gmap \<Rightarrow> gmap" where
  "cloneWorkflowValue (GMap m) = GMap (cloneWorkflowMap m)"
| "cloneWorkflowValue (GList xs) = GList (map cloneWorkflowValue xs)"
| "cloneWorkflowValue GNil = GNil"
| "cloneWorkflowValue (GBool b) = GBool b"
| "cloneWorkflowValue (GInt i) = GInt i"
| "cloneWorkflowValue (GFloat x) = GFloat x"
| "cloneWorkflowValue (GNumber s f) = GNumber s f"
| "cloneWorkflowValue (GStr s) = GStr s"
| "cloneWorkflowValue (GMaps ms) = GMaps ms"
| "cloneWorkflowValue (GStrs ss) = GStrs ss"
| "cloneWorkflowValue (GStruct m) = GStruct m"
| "cloneWorkflowMap [] = []"
| "cloneWorkflowMap ((key, v) # m) = (key, cloneWorkflowValue v) # cloneWorkflowMap m"

text \<open>The loop of \<open>mergeWorkflowMaps\<close> over the entries of the override; \<open>merged\<close> starts as a clone of the base.\<close>

fun merge_into :: "gmap \<Rightarrow> gmap \<Rightarrow> gmap" where
  "merge_into merged [] = merged"
| "merge_into merged ((key, v) # override) =
     merge_into
       (AList.update key
          (case map_of merged key of
             None \<Rightarrow> cloneWorkflowValue v
           | Some existing \<Rightarrow>
               (case (existing, v) of
                  (GMap existingMap, GMap overrideMap) \<Rightarrow> GMap (merge_into (cloneWorkflowMap existingMap) overrideMap)
                | _ \<Rightarrow> cloneWorkflowValue v))
          merged)
       override"

definition mergeWorkflowMaps :: "gmap \<Rightarrow> gmap \<Rightarrow> gmap" where
  "mergeWorkflowMaps base override =
     (if base = [] \<and> override = [] then [] else merge_into (cloneWorkflowMap base) override)"

definition MergeWorkflowInputs :: "WorkflowManifestSpec \<Rightarrow> gmap \<Rightarrow> gmap" where
  "MergeWorkflowInputs spec inputs =
     (let base = cloneWorkflowMap (wf_defaults spec)
      in if base = [] then cloneWorkflowMap inputs else mergeWorkflowMaps base inputs)"

section \<open>Validation\<close>

datatype input_error =
    InputUndeclared "string list"
  | InputRequired string
  | InputType string string
  | InputMinLength string int
  | InputMaxNegative string int
  | InputMaxLength string int
  | InputPatternInvalid string string
  | InputPattern string string

definition RuneCountInString :: "string \<Rightarrow> nat" where
  "RuneCountInString s = length (filter (\<lambda>c. \<not> (128 \<le> (of_char c :: nat) \<and> (of_char c :: nat) < 192)) s)"

definition validateStringInput :: "golib \<Rightarrow> string \<Rightarrow> IntegrationSchemaProperty \<Rightarrow> string \<Rightarrow> input_error option" where
  "validateStringInput L name property s =
     e_then
      (case prop_min_length property of
         None \<Rightarrow> None
       | Some minLen \<Rightarrow> guard_err (int (length (TrimSpace s)) < minLen) (InputMinLength name minLen))
     (e_then
      (case prop_max_length property of
         None \<Rightarrow> None
       | Some maxLen \<Rightarrow>
           if maxLen < 0 then Some (InputMaxNegative name maxLen)
           else guard_err (maxLen < int (RuneCountInString s)) (InputMaxLength name maxLen))
      (if prop_pattern property = [] then None
       else (case RegexpMatch L (prop_pattern property) s of
               None \<Rightarrow> Some (InputPatternInvalid name (prop_pattern property))
             | Some matched \<Rightarrow> guard_err (\<not> matched) (InputPattern name (prop_pattern property)))))"

definition validateWorkflowInputValue ::
  "golib \<Rightarrow> string \<Rightarrow> IntegrationSchemaProperty \<Rightarrow> gval \<Rightarrow> input_error option" where
  "validateWorkflowInputValue L name property v =
     (let type = ToLower (TrimSpace (prop_type property)) in
      if type \<in> {[], ''string''} then
        (case v of GStr s \<Rightarrow> validateStringInput L name property s | _ \<Rightarrow> Some (InputType name ''string''))
      else if type = ''boolean'' then
        (case v of GBool _ \<Rightarrow> None | _ \<Rightarrow> Some (InputType name type))
      else if type \<in> {''integer'', ''number''} then
        (case v of GInt _ \<Rightarrow> None | GFloat _ \<Rightarrow> None | GNumber _ _ \<Rightarrow> None | _ \<Rightarrow> Some (InputType name type))
      else if type = ''object'' then
        (case v of GMap _ \<Rightarrow> None | _ \<Rightarrow> Some (InputType name type))
      else if type = ''array'' then
        (case v of GList _ \<Rightarrow> None | _ \<Rightarrow> Some (InputType name type))
      else None)"

definition ValidateWorkflowInputs :: "golib \<Rightarrow> WorkflowManifestSpec \<Rightarrow> gmap \<Rightarrow> input_error option" where
  "ValidateWorkflowInputs L spec inputs0 =
     (let inputs = MergeWorkflowInputs spec inputs0;
          schema = wf_input_schema spec;
          undeclared = filter (\<lambda>name. map_of (in_properties schema) name = None) (map fst inputs)
      in if in_additional schema = Some False \<and> undeclared \<noteq> [] then Some (InputUndeclared (sort undeclared))
         else e_then
           (first_err (\<lambda>name. guard_err (map_of inputs name = None) (InputRequired name))
              (map normalizeIntegrationName (in_required schema)))
           (first_err (\<lambda>(name, property).
                case map_of inputs name of
                  None \<Rightarrow> None
                | Some v \<Rightarrow> validateWorkflowInputValue L name property v)
              (in_properties schema)))"

section \<open>Facts\<close>

lemma clone_id [simp]: "cloneWorkflowValue v = v" "cloneWorkflowMap m = m"
proof (induction v and m rule: cloneWorkflowValue_cloneWorkflowMap.induct)
  case (2 xs)
  then show ?case by (simp add: map_idI)
qed simp_all

text \<open>The value of a key in the merge of two maps.\<close>

definition merged_value :: "gval option \<Rightarrow> gval option \<Rightarrow> gval option" where
  "merged_value b v =
     (case v of
        None \<Rightarrow> b
      | Some x \<Rightarrow>
          (case (b, x) of
             (Some (GMap bm), GMap om) \<Rightarrow> Some (GMap (merge_into bm om))
           | _ \<Rightarrow> Some x))"

lemma merge_into_lookup:
  "distinct (map fst override) \<Longrightarrow> map_of (merge_into base override) k = merged_value (map_of base k) (map_of override k)"
proof (induction override arbitrary: base)
  case Nil
  then show ?case by (simp add: merged_value_def)
next
  case (Cons e override)
  obtain key v where e: "e = (key, v)" by (cases e)
  have nk: "key = k \<Longrightarrow> map_of override k = None" using Cons.prems e by (auto simp: map_of_eq_None_iff)
  have d: "distinct (map fst override)" using Cons.prems by simp
  show ?case
  proof (cases "key = k")
    case True
    with nk have "map_of override k = None" by simp
    with True Cons.IH [OF d] show ?thesis
      by (auto simp: e merged_value_def update_conv' split: option.splits gval.splits)
  next
    case False
    with Cons.IH [OF d] show ?thesis by (simp add: e update_conv')
  qed
qed

lemma merge_into_distinct: "distinct (map fst base) \<Longrightarrow> distinct (map fst (merge_into base override))"
  by (induction override arbitrary: base) (auto simp: distinct_update)

lemma MergeWorkflowInputs_eq: "MergeWorkflowInputs spec inputs =
    (if wf_defaults spec = [] then inputs else merge_into (wf_defaults spec) inputs)"
  by (simp add: MergeWorkflowInputs_def mergeWorkflowMaps_def)

lemma MergeWorkflowInputs_lookup:
  assumes "distinct (map fst inputs)"
  shows "map_of (MergeWorkflowInputs spec inputs) k = merged_value (map_of (wf_defaults spec) k) (map_of inputs k)"
  using assms by (auto simp: MergeWorkflowInputs_eq merge_into_lookup merged_value_def split: option.splits)

section \<open>Properties\<close>

text \<open>How runtime inputs override manifest defaults: a key that only one side has keeps its value, two
  objects under the same key are merged by the same rule, and in every other conflict the runtime
  value wins.\<close>
theorem inputs_override_defaults:
  assumes "distinct (map fst inputs)"
  shows "map_of (MergeWorkflowInputs spec inputs) k =
    (case map_of inputs k of
       None \<Rightarrow> map_of (wf_defaults spec) k
     | Some v \<Rightarrow>
         (case (map_of (wf_defaults spec) k, v) of
            (Some (GMap d), GMap i) \<Rightarrow> Some (GMap (mergeWorkflowMaps d i))
          | _ \<Rightarrow> Some v))"
  using MergeWorkflowInputs_lookup [OF assms, of spec k]
  by (auto simp: merged_value_def mergeWorkflowMaps_def split: option.splits gval.splits)

definition ex_inputs_spec :: WorkflowManifestSpec where
  "ex_inputs_spec = \<lparr>wf_trigger = \<lparr>trig_mode = [], trig_enabled = None, trig_schedule = None, trig_event = None\<rparr>,
     wf_input_schema = \<lparr>in_required = [''Image''], in_properties =
       [(''image'', \<lparr>prop_type = ''string'', prop_description = [], prop_secret = False, prop_enum = [],
          prop_default = GNil, prop_min_length = Some 1, prop_sensitive = False, prop_pattern = [], prop_max_length = Some 4\<rparr>)],
       in_additional = Some False\<rparr>,
     wf_defaults = [(''image'', GStr ''app'')], wf_dispatch_mode = [], wf_authorization = None, wf_steps = []\<rparr>"

theorem inputs_override_defaults_witness:
  "map_of (MergeWorkflowInputs ex_inputs_spec [(''image'', GStr ''web'')]) ''image'' = Some (GStr ''web'')"
  using inputs_override_defaults [of "[(''image'', GStr ''web'')]" ex_inputs_spec "''image''"]
  by (simp add: ex_inputs_spec_def)

text \<open>\<open>ValidateWorkflowInputs\<close> accepts exactly the inputs whose merge with the defaults has every required
  key, has only declared keys when additional properties are closed, and holds a value of the
  declared type and shape under each declared key.\<close>
theorem workflow_inputs_accepted_iff:
  "ValidateWorkflowInputs L spec inputs = None \<longleftrightarrow>
     (in_additional (wf_input_schema spec) = Some False \<longrightarrow>
        fst ` set (MergeWorkflowInputs spec inputs) \<subseteq> fst ` set (in_properties (wf_input_schema spec))) \<and>
     (\<forall>name\<in>set (in_required (wf_input_schema spec)).
        map_of (MergeWorkflowInputs spec inputs) (normalizeIntegrationName name) \<noteq> None) \<and>
     (\<forall>(name, property)\<in>set (in_properties (wf_input_schema spec)).
        \<forall>v. map_of (MergeWorkflowInputs spec inputs) name = Some v \<longrightarrow>
          validateWorkflowInputValue L name property v = None)"
proof -
  let ?m = "MergeWorkflowInputs spec inputs" and ?ps = "in_properties (wf_input_schema spec)"
  have "filter (\<lambda>name. map_of ?ps name = None) (map fst ?m) = [] \<longleftrightarrow> fst ` set ?m \<subseteq> fst ` set ?ps"
    by (auto simp: filter_empty_conv map_of_eq_None_iff)
  then show ?thesis
    by (auto simp: ValidateWorkflowInputs_def Let_def validate_simps split: option.splits)
qed

theorem workflow_inputs_accepted_iff_witness:
  "ValidateWorkflowInputs ex_golib ex_inputs_spec [] = None \<and>
   map_of (MergeWorkflowInputs ex_inputs_spec []) ''image'' \<noteq> None"
proof -
  have v: "ValidateWorkflowInputs ex_golib ex_inputs_spec [] = None" by code_simp
  have n: "''Image'' \<in> set (in_required (wf_input_schema ex_inputs_spec))" "normalizeIntegrationName ''Image'' = ''image''"
    by code_simp+
  from v workflow_inputs_accepted_iff [of ex_golib ex_inputs_spec "[]"]
  have "map_of (MergeWorkflowInputs ex_inputs_spec []) (normalizeIntegrationName ''Image'') \<noteq> None" using n(1) by blast
  with v n(2) show ?thesis by simp
qed

end
