(* ===== verification/Sensitive_Output.thy ===== *)
theory Sensitive_Output
  imports Workflow_Template Workflow_Inputs
begin

text \<open>
  Redaction of step results: \<open>controllers/message/workflows_sensitive_output.go\<close> and the value-directed
  redaction of \<open>workflows_sensitive_lease.go\<close>. An adapter declares secret paths of its output; the paths
  are redacted, and a malformed declaration or a path that does not resolve redacts the whole output.
\<close>

definition redactedWorkflowOutputValue :: string where
  "redactedWorkflowOutputValue = ''[REDACTED]''"

section \<open>strings.ReplaceAll and strings.Count\<close>

function ReplaceAll :: "string \<Rightarrow> string \<Rightarrow> string \<Rightarrow> string" where
  "ReplaceAll s old new =
     (case s of
        [] \<Rightarrow> []
      | c # cs \<Rightarrow>
          if old \<noteq> [] \<and> HasPrefix s old then new @ ReplaceAll (drop (length old) s) old new
          else c # ReplaceAll cs old new)"
  by pat_completeness auto
termination
  by (relation "measure (\<lambda>(s, old, new). length s)") (auto simp: length_greater_0_conv [symmetric] simp del: length_greater_0_conv)

declare ReplaceAll.simps [simp del]

function Count :: "string \<Rightarrow> string \<Rightarrow> nat" where
  "Count s sub =
     (case s of
        [] \<Rightarrow> 0
      | c # cs \<Rightarrow>
          if sub \<noteq> [] \<and> HasPrefix s sub then Suc (Count (drop (length sub) s) sub)
          else Count cs sub)"
  by pat_completeness auto
termination
  by (relation "measure (\<lambda>(s, sub). length s)") (auto simp: length_greater_0_conv [symmetric] simp del: length_greater_0_conv)

declare Count.simps [simp del]

section \<open>Declared paths\<close>

fun decodeWorkflowJSONPointerSegment :: "string \<Rightarrow> string option" where
  "decodeWorkflowJSONPointerSegment [] = Some []"
| "decodeWorkflowJSONPointerSegment (c # s) =
     (if c \<noteq> CHR 0x7E then map_option (Cons c) (decodeWorkflowJSONPointerSegment s)
      else (case s of
              [] \<Rightarrow> None
            | d # r \<Rightarrow>
                if d = CHR ''0'' then map_option (Cons CHR 0x7E) (decodeWorkflowJSONPointerSegment r)
                else if d = CHR ''1'' then map_option (Cons CHR ''/'') (decodeWorkflowJSONPointerSegment r)
                else None))"

fun decode_segments :: "string list \<Rightarrow> string list option" where
  "decode_segments [] = Some []"
| "decode_segments (s # ss) =
     (case decodeWorkflowJSONPointerSegment s of
        None \<Rightarrow> None
      | Some seg \<Rightarrow> if seg = [] then None else map_option (Cons seg) (decode_segments ss))"

definition TrimPrefix :: "string \<Rightarrow> string \<Rightarrow> string" where
  "TrimPrefix s p = (if HasPrefix s p then drop (length p) s else s)"

definition workflowOutputPathSegments :: "string \<Rightarrow> string list option" where
  "workflowOutputPathSegments rawPath =
     (let path = TrimSpace rawPath in
      if path = [] then None
      else if HasPrefix path ''/'' then decode_segments (Split CHR ''/'' (TrimPrefix path ''/''))
      else let segments = Split CHR ''.'' (TrimPrefix path ''output.'') in
           if list_ex (\<lambda>s. TrimSpace s = []) segments then None else Some segments)"

fun redactWorkflowOutputSegments :: "gval \<Rightarrow> string list \<Rightarrow> gval option" where
  "redactWorkflowOutputSegments current [] = Some (GStr redactedWorkflowOutputValue)"
| "redactWorkflowOutputSegments current (s # ss) =
     (case current of
        GMap m \<Rightarrow>
          (case map_of m s of
             None \<Rightarrow> None
           | Some child \<Rightarrow> map_option (\<lambda>r. GMap (AList.update s r m)) (redactWorkflowOutputSegments child ss))
      | GList xs \<Rightarrow>
          (case Atoi s of
             None \<Rightarrow> None
           | Some index \<Rightarrow>
               if index < 0 \<or> int (length xs) \<le> index then None
               else map_option (\<lambda>r. GList (xs[nat index := r])) (redactWorkflowOutputSegments (xs ! nat index) ss))
      | _ \<Rightarrow> None)"

definition redactWorkflowOutputPath :: "gval \<Rightarrow> string \<Rightarrow> gval option" where
  "redactWorkflowOutputPath output rawPath =
     (case workflowOutputPathSegments rawPath of
        None \<Rightarrow> None
      | Some segments \<Rightarrow> if segments = [] then None else redactWorkflowOutputSegments output segments)"

text \<open>\<^term>\<open>None\<close>: nothing declared; \<^term>\<open>Some []\<close>: a malformed declaration.\<close>

definition workflowSensitiveOutputPaths :: "gmap \<Rightarrow> string list option" where
  "workflowSensitiveOutputPaths metadata =
     (case map_of metadata ''sensitive_output_paths'' of
        None \<Rightarrow> None
      | Some (GStr s) \<Rightarrow> (let path = TrimSpace s in Some (if path = [] then [] else [path]))
      | Some (GStrs ss) \<Rightarrow> Some (if list_ex (\<lambda>s. TrimSpace s = []) ss then [] else map TrimSpace ss)
      | Some (GList xs) \<Rightarrow>
          Some (if list_all (\<lambda>x. case x of GStr s \<Rightarrow> TrimSpace s \<noteq> [] | _ \<Rightarrow> False) xs
                then map (\<lambda>x. case x of GStr s \<Rightarrow> TrimSpace s | _ \<Rightarrow> []) xs else [])
      | Some _ \<Rightarrow> Some [])"

fun redact_paths :: "gval \<Rightarrow> string list \<Rightarrow> gval option" where
  "redact_paths output [] = Some output"
| "redact_paths output (p # ps) =
     (case redactWorkflowOutputPath output p of None \<Rightarrow> None | Some o' \<Rightarrow> redact_paths o' ps)"

definition mark_redacted :: "gval \<Rightarrow> string \<Rightarrow> gmap \<Rightarrow> gmap" where
  "mark_redacted output scope m =
     AList.update ''sensitive_output_redaction_scope'' (GStr scope)
       (AList.update ''sensitive_output_redacted'' (GBool True) (AList.update ''output'' output m))"

definition redactSensitiveWorkflowStepResult :: "WorkflowRunStepResult \<Rightarrow> WorkflowRunStepResult" where
  "redactSensitiveWorkflowStepResult result =
     (case workflowSensitiveOutputPaths (res_metadata result) of
        None \<Rightarrow> result
      | Some paths \<Rightarrow>
          let metadata = cloneWorkflowMap (res_metadata result);
              whole = mark_redacted (GStr redactedWorkflowOutputValue) ''output'' metadata in
          (case map_of metadata ''output'' of
             None \<Rightarrow> result\<lparr>res_metadata := whole\<rparr>
           | Some output \<Rightarrow>
               if paths = [] then result\<lparr>res_metadata := whole\<rparr>
               else (case redact_paths output paths of
                       None \<Rightarrow> result\<lparr>res_metadata := whole\<rparr>
                     | Some redacted \<Rightarrow> result\<lparr>res_metadata := mark_redacted redacted ''paths'' metadata\<rparr>)))"

section \<open>Redaction of a value\<close>

fun redactWorkflowSensitiveValue :: "gval \<Rightarrow> string \<Rightarrow> gval"
and redact_entries :: "gmap \<Rightarrow> string \<Rightarrow> gmap \<Rightarrow> gmap" where
  "redactWorkflowSensitiveValue (GMap m) target = GMap (redact_entries m target [])"
| "redactWorkflowSensitiveValue (GList xs) target = GList (map (\<lambda>x. redactWorkflowSensitiveValue x target) xs)"
| "redactWorkflowSensitiveValue (GStrs ss) target =
     GStrs (map (\<lambda>s. ReplaceAll s target redactedWorkflowOutputValue) ss)"
| "redactWorkflowSensitiveValue (GStr s) target = GStr (ReplaceAll s target redactedWorkflowOutputValue)"
| "redactWorkflowSensitiveValue v target = v"
| "redact_entries [] target redacted = redacted"
| "redact_entries ((key, item) # m) target redacted =
     redact_entries m target
       (AList.update (ReplaceAll key target redactedWorkflowOutputValue)
          (redactWorkflowSensitiveValue item target) redacted)"

fun countWorkflowStringValue :: "gval \<Rightarrow> string \<Rightarrow> nat" and count_entries :: "gmap \<Rightarrow> string \<Rightarrow> nat" where
  "countWorkflowStringValue (GMap m) target = count_entries m target"
| "countWorkflowStringValue (GList xs) target = sum_list (map (\<lambda>x. countWorkflowStringValue x target) xs)"
| "countWorkflowStringValue (GStrs ss) target = sum_list (map (\<lambda>s. Count s target) ss)"
| "countWorkflowStringValue (GStr s) target = Count s target"
| "countWorkflowStringValue v target = 0"
| "count_entries [] target = 0"
| "count_entries ((key, item) # m) target =
     Count key target + countWorkflowStringValue item target + count_entries m target"

section \<open>Facts\<close>

text \<open>
  Where the secret can still be read after redaction: nowhere, if the secret has no square bracket and
  is no part of the replacement text. \<open>occurs\<close> is substring occurrence.
\<close>

definition occurs :: "string \<Rightarrow> string \<Rightarrow> bool" where
  "occurs s t \<longleftrightarrow> (\<exists>a b. t = a @ s @ b)"

definition redactable :: "string \<Rightarrow> bool" where
  "redactable secret \<longleftrightarrow> secret \<noteq> [] \<and> CHR ''['' \<notin> set secret \<and> CHR '']'' \<notin> set secret \<and> \<not> Contains ''REDACTED'' secret"

lemma Index_None: "Index t s = None \<longleftrightarrow> \<not> occurs s t"
proof (induction t)
  case Nil
  then show ?case by (auto simp: occurs_def)
next
  case (Cons c t)
  have "occurs s (c # t) \<longleftrightarrow> HasPrefix (c # t) s \<or> occurs s t"
  proof
    assume "occurs s (c # t)"
    then obtain a b where "c # t = a @ s @ b" by (auto simp: occurs_def)
    then show "HasPrefix (c # t) s \<or> occurs s t"
      by (cases a) (auto simp: occurs_def HasPrefix_iff)
  next
    assume "HasPrefix (c # t) s \<or> occurs s t"
    then show "occurs s (c # t)"
    proof
      assume "HasPrefix (c # t) s"
      then have "\<exists>r. c # t = [] @ s @ r" by (simp add: HasPrefix_iff)
      then show ?thesis unfolding occurs_def by blast
    next
      assume "occurs s t"
      then obtain a b where "t = a @ s @ b" by (auto simp: occurs_def)
      then have "c # t = (c # a) @ s @ b" by simp
      then show ?thesis unfolding occurs_def by blast
    qed
  qed
  with Cons show ?case by simp
qed

lemma Contains_occurs: "Contains t s \<longleftrightarrow> occurs s t"
  using Index_None by (auto simp: Contains_def)

lemma ReplaceAll_Nil [simp]: "ReplaceAll [] old new = []"
  by (subst ReplaceAll.simps) simp

lemma ReplaceAll_prefix:
  assumes "CHR ''['' \<notin> set w"
  shows "HasPrefix (ReplaceAll s secret redactedWorkflowOutputValue) w \<Longrightarrow> HasPrefix s w"
  using assms
proof (induction s arbitrary: w)
  case Nil
  then show ?case by simp
next
  case (Cons c s)
  show ?case
  proof (cases "secret \<noteq> [] \<and> HasPrefix (c # s) secret")
    case True
    then have "ReplaceAll (c # s) secret redactedWorkflowOutputValue =
        CHR ''['' # ''REDACTED]'' @ ReplaceAll (drop (length secret) (c # s)) secret redactedWorkflowOutputValue"
      by (subst ReplaceAll.simps) (simp add: redactedWorkflowOutputValue_def)
    with Cons.prems have "w = []" by (cases w) (auto simp: HasPrefix_iff)
    then show ?thesis by (simp add: HasPrefix_def)
  next
    case False
    then have "ReplaceAll (c # s) secret redactedWorkflowOutputValue = c # ReplaceAll s secret redactedWorkflowOutputValue"
      by (subst ReplaceAll.simps) auto
    with Cons show ?thesis by (cases w) (auto simp: HasPrefix_iff)
  qed
qed

lemma redacted_text_clear:
  assumes "redactable secret" and "\<not> occurs secret t"
  shows "\<not> occurs secret (redactedWorkflowOutputValue @ t)"
proof
  assume "occurs secret (redactedWorkflowOutputValue @ t)"
  then obtain a b where ab: "redactedWorkflowOutputValue @ t = a @ secret @ b" by (auto simp: occurs_def)
  have sec: "secret \<noteq> []" "CHR ''['' \<notin> set secret" "CHR '']'' \<notin> set secret" "\<not> occurs secret ''REDACTED''"
    using assms(1) by (auto simp: redactable_def Contains_occurs)
  show False
  proof (cases "length redactedWorkflowOutputValue \<le> length a")
    case True
    with ab have "t = drop (length redactedWorkflowOutputValue) a @ secret @ b"
      by (metis append_eq_append_conv_if)
    with assms(2) show False by (auto simp: occurs_def)
  next
    case False
    have "a \<noteq> []"
    proof
      assume "a = []"
      with ab sec(1,2) show False by (cases secret) (auto simp: redactedWorkflowOutputValue_def)
    qed
    then obtain a' where a: "a = CHR ''['' # a'" and ab': "''REDACTED]'' @ t = a' @ secret @ b"
      using ab by (cases a) (auto simp: redactedWorkflowOutputValue_def)
    have la: "length a' \<le> 8" using False a by (simp add: redactedWorkflowOutputValue_def)
    have lb: "length (a' @ secret) \<le> 8"
    proof (rule ccontr)
      assume c: "\<not> length (a' @ secret) \<le> 8"
      have "(''REDACTED]'' @ t) ! 8 = CHR '']''" by simp
      then have "(a' @ secret @ b) ! 8 = CHR '']''" unfolding ab' .
      then have "secret ! (8 - length a') = CHR '']''" using la c by (auto simp: nth_append split: if_splits)
      moreover have "8 - length a' < length secret" using la c by auto
      ultimately show False using sec(3) nth_mem by metis
    qed
    have "take 8 (''REDACTED]'' @ t) = take 8 ((a' @ secret) @ b)" using ab' by simp
    then have "''REDACTED'' = (a' @ secret) @ take (8 - length (a' @ secret)) b" using lb by simp
    with sec(4) show False by (auto simp: occurs_def)
  qed
qed

lemma ReplaceAll_clear:
  assumes "redactable secret"
  shows "\<not> occurs secret (ReplaceAll s secret redactedWorkflowOutputValue)"
proof (induction s rule: length_induct)
  case (1 s)
  note ne = assms [unfolded redactable_def, THEN conjunct1]
  show ?case
  proof (cases s)
    case Nil
    then show ?thesis using ne by (simp add: occurs_def)
  next
    case (Cons c cs)
    show ?thesis
    proof (cases "HasPrefix s secret")
      case True
      let ?r = "drop (length secret) s"
      have "length ?r < length s" using ne Cons by simp
      with 1 have "\<not> occurs secret (ReplaceAll ?r secret redactedWorkflowOutputValue)" by blast
      then have "\<not> occurs secret (redactedWorkflowOutputValue @ ReplaceAll ?r secret redactedWorkflowOutputValue)"
        by (rule redacted_text_clear [OF assms])
      moreover have "ReplaceAll s secret redactedWorkflowOutputValue =
          redactedWorkflowOutputValue @ ReplaceAll ?r secret redactedWorkflowOutputValue"
        using True ne Cons by (subst ReplaceAll.simps) simp
      ultimately show ?thesis by simp
    next
      case False
      let ?t = "ReplaceAll cs secret redactedWorkflowOutputValue"
      have r: "ReplaceAll s secret redactedWorkflowOutputValue = c # ?t"
        using False Cons by (subst ReplaceAll.simps) simp
      have t: "\<not> occurs secret ?t" using 1 Cons by simp
      have "\<not> HasPrefix (c # ?t) secret"
      proof
        assume "HasPrefix (c # ?t) secret"
        then have "HasPrefix s secret"
          using ReplaceAll_prefix [of secret s secret] assms r by (simp add: redactable_def)
        with False show False ..
      qed
      with t show ?thesis
        unfolding r Index_None [symmetric] by simp
    qed
  qed
qed

text \<open>No string and no key of a value contains the secret; values decoded from JSON have no other text.\<close>

fun clear_of :: "string \<Rightarrow> gval \<Rightarrow> bool" and clear_of_map :: "string \<Rightarrow> gmap \<Rightarrow> bool" where
  "clear_of secret (GStr s) = (\<not> occurs secret s)"
| "clear_of secret (GStrs ss) = (\<forall>s\<in>set ss. \<not> occurs secret s)"
| "clear_of secret (GList xs) = (\<forall>x\<in>set xs. clear_of secret x)"
| "clear_of secret (GMap m) = clear_of_map secret m"
| "clear_of secret v = True"
| "clear_of_map secret [] = True"
| "clear_of_map secret ((k, v) # m) = (\<not> occurs secret k \<and> clear_of secret v \<and> clear_of_map secret m)"

lemma clear_of_map_iff:
  "clear_of_map secret m \<longleftrightarrow> (\<forall>(k, v)\<in>set m. \<not> occurs secret k \<and> clear_of secret v)"
  by (induction m) auto

lemma clear_of_map_update:
  "clear_of_map secret m \<Longrightarrow> \<not> occurs secret k \<Longrightarrow> clear_of secret v \<Longrightarrow> clear_of_map secret (AList.update k v m)"
  by (induction m) auto

lemma redact_clear:
  assumes "redactable secret"
  shows "clear_of secret (redactWorkflowSensitiveValue v secret)"
    and "clear_of_map secret acc \<Longrightarrow> clear_of_map secret (redact_entries m secret acc)"
proof -
  have "target = secret \<Longrightarrow> clear_of secret (redactWorkflowSensitiveValue v target)"
    and "target = secret \<Longrightarrow> clear_of_map secret acc \<Longrightarrow> clear_of_map secret (redact_entries m target acc)" for target
    by (induction v target and m target acc rule: redactWorkflowSensitiveValue_redact_entries.induct)
       (auto simp: ReplaceAll_clear [OF assms] clear_of_map_update)
  then show "clear_of secret (redactWorkflowSensitiveValue v secret)"
    and "clear_of_map secret acc \<Longrightarrow> clear_of_map secret (redact_entries m secret acc)" by blast+
qed

text \<open>A path is hidden in a value when following it meets the replacement text.\<close>

fun hidden :: "gval \<Rightarrow> string list \<Rightarrow> bool" where
  "hidden v [] = (v = GStr redactedWorkflowOutputValue)"
| "hidden v (s # ss) =
     (v = GStr redactedWorkflowOutputValue \<or>
      (case v of
         GMap m \<Rightarrow> (case map_of m s of None \<Rightarrow> False | Some c \<Rightarrow> hidden c ss)
       | GList xs \<Rightarrow>
           (case Atoi s of
              None \<Rightarrow> False
            | Some i \<Rightarrow> 0 \<le> i \<and> i < int (length xs) \<and> hidden (xs ! nat i) ss)
       | _ \<Rightarrow> False))"

lemma hidden_redacted [simp]: "hidden (GStr redactedWorkflowOutputValue) p"
  by (cases p) auto

lemma redact_hides: "redactWorkflowOutputSegments v p = Some v' \<Longrightarrow> hidden v' p"
  by (induction v p arbitrary: v' rule: redactWorkflowOutputSegments.induct)
     (auto simp: update_conv' split: gval.splits option.splits if_splits)

lemma redact_keeps_hidden:
  "redactWorkflowOutputSegments v q = Some v' \<Longrightarrow> hidden v p \<Longrightarrow> hidden v' p"
proof (induction v q arbitrary: v' p rule: redactWorkflowOutputSegments.induct)
  case (2 current s ss)
  show ?case
  proof (cases p)
    case Nil
    with 2 show ?thesis by auto
  next
    case (Cons t ts)
    with 2 show ?thesis
      by (cases current) (auto simp: update_conv' nth_list_update split: option.splits if_splits)
  qed
qed auto

lemma redact_paths_keep: "redact_paths v ps = Some r \<Longrightarrow> hidden v segs \<Longrightarrow> hidden r segs"
  by (induction ps arbitrary: v)
     (auto simp: redactWorkflowOutputPath_def redact_keeps_hidden split: option.splits if_splits)

lemma redact_paths_hide:
  "redact_paths v ps = Some r \<Longrightarrow> p \<in> set ps \<Longrightarrow>
   \<exists>segs. workflowOutputPathSegments p = Some segs \<and> segs \<noteq> [] \<and> hidden r segs"
proof (induction ps arbitrary: v)
  case (Cons q ps)
  then obtain w segs where w: "workflowOutputPathSegments q = Some segs" "segs \<noteq> []"
      "redactWorkflowOutputSegments v segs = Some w" and r: "redact_paths w ps = Some r"
    by (auto simp: redactWorkflowOutputPath_def split: option.splits if_splits)
  show ?case
  proof (cases "p = q")
    case True
    with w redact_paths_keep [OF r redact_hides [OF w(3)]] show ?thesis by blast
  next
    case False
    with Cons r show ?thesis by simp
  qed
qed simp

section \<open>Properties\<close>

text \<open>Redaction of declared secrets is fail-closed: when a result declares sensitive output paths, then in the
  redacted result either the whole output is replaced, or following any declared path meets the
  replacement text; an undeclared result is returned as it is.\<close>
theorem declared_paths_redacted:
  assumes "workflowSensitiveOutputPaths (res_metadata result) = Some paths"
  shows "map_of (res_metadata (redactSensitiveWorkflowStepResult result)) ''output'' =
           Some (GStr redactedWorkflowOutputValue) \<or>
    (\<exists>output. map_of (res_metadata (redactSensitiveWorkflowStepResult result)) ''output'' = Some output \<and>
       (\<forall>p\<in>set paths. \<exists>segs. workflowOutputPathSegments p = Some segs \<and> segs \<noteq> [] \<and> hidden output segs))"
  using assms redact_paths_hide
  by (auto simp: redactSensitiveWorkflowStepResult_def mark_redacted_def update_conv' Let_def split: option.splits)

definition ex_secret_result :: WorkflowRunStepResult where
  "ex_secret_result = \<lparr>res_id = ''a'', res_kind = ''integration'', res_operation = ''op'', res_capability = ''op'',
     res_status = ''succeeded'', res_attempts = 1, res_error = [],
     res_metadata = [(''sensitive_output_paths'', GList [GStr ''token'']),
                     (''output'', GMap [(''token'', GStr ''s3cr3t''), (''note'', GStr ''use s3cr3t'')])],
     res_instance = None, res_type = None\<rparr>"

theorem declared_paths_redacted_witness:
  "\<exists>output. map_of (res_metadata (redactSensitiveWorkflowStepResult ex_secret_result)) ''output'' = Some output \<and>
     (output = GStr redactedWorkflowOutputValue \<or>
      (\<exists>segs. workflowOutputPathSegments ''token'' = Some segs \<and> segs \<noteq> [] \<and> hidden output segs))"
proof -
  have "workflowSensitiveOutputPaths (res_metadata ex_secret_result) = Some [''token'']" by code_simp
  from declared_paths_redacted [OF this] show ?thesis by auto
qed

end
