(* ===== verification/Integration_Type.thy ===== *)
theory Integration_Type
  imports Manifest_Names
begin

text \<open>
  The integration type manifest: the structs of \<open>model/integration.go\<close> and the validators of
  \<open>manifest/integration_type.go\<close>. The fixed regular expressions are matched by hand-written predicates;
  the fifteen signal lists of the guardian block are one record.
\<close>

section \<open>Data\<close>

record IntegrationDashboardSpec =
  dash_url :: string
  dash_label :: string

record IntegrationDisplaySpec =
  disp_subtitle :: string
  disp_locale :: "(string \<times> string) list"

record IntegrationIconSpec =
  icon_url :: string
  icon_accent :: string
  icon_aria :: string

record IntegrationAdapterQueue =
  q_describe :: string
  q_discover :: string
  q_read :: string
  q_execute :: string
  q_sync :: string
  q_health :: string

record IntegrationAdapterSpec =
  ad_transport :: string
  ad_version :: string
  ad_queues :: IntegrationAdapterQueue
  ad_endpoints :: IntegrationAdapterQueue  \<comment> \<open>\<open>IntegrationAdapterRoute\<close> has the same fields\<close>
  ad_timeout :: int

record IntegrationSchemaSpec =
  sch_mode :: string
  sch_required :: "string list"
  sch_properties :: "(string \<times> IntegrationSchemaProperty) list"

record IntegrationCredentialPolicySpec =
  cp_source :: string
  cp_materialize :: bool

record IntegrationGuardianSignalSupportSpec =
  sig_oom_killed :: "string list"
  sig_restart_count :: "string list"
  sig_error_rate :: "string list"
  sig_queue_backlog :: "string list"
  sig_memory_pressure :: "string list"
  sig_disk_pressure :: "string list"
  sig_rate_limited :: "string list"
  sig_auth_denied :: "string list"
  sig_sync_lag :: "string list"
  sig_monthly_cost :: "string list"
  sig_utilization :: "string list"
  sig_idle_hours :: "string list"
  sig_overprovisioned :: "string list"
  sig_scheduling_failure :: "string list"
  sig_insufficient_cpu :: "string list"

record IntegrationGuardianSupportSpec =
  gs_mode :: string
  gs_signals :: IntegrationGuardianSignalSupportSpec

record IntegrationResourceType =
  rt_name :: string
  rt_prefix :: string
  rt_identity :: string
  rt_discoverable :: bool
  rt_actions :: "string list"

record IntegrationActionDefinition =
  act_name :: string
  act_description :: string
  act_resource_types :: "string list"
  act_idempotent :: bool
  act_category :: string
  act_input_schema :: gmap

record IntegrationDiscoverySpec =
  disc_mode :: string
  disc_cursor :: string
  disc_webhooks :: bool

record IntegrationNormalizationSpec =
  norm_external_id :: string
  norm_name :: string
  norm_owner :: string
  norm_fallback :: string

record IntegrationExecutionSpec =
  exec_dry_run :: bool
  exec_idempotent :: "string list"

record IntegrationExtensionsSpec =
  ext_types :: bool
  ext_actions :: bool
  ext_raw :: bool

record IntegrationTypeReactor =
  reactor_event :: string
  reactor_capability :: string

record IntegrationTypeManifestSpec =
  it_provider :: string
  it_family_ref :: "ManifestSelector option"
  it_operations :: "string list"
  it_domain :: string
  it_dashboard :: "IntegrationDashboardSpec option"
  it_display :: "IntegrationDisplaySpec option"
  it_icon :: "IntegrationIconSpec option"
  it_adapter :: IntegrationAdapterSpec
  it_capabilities :: "string list"
  it_policy :: IntegrationCredentialPolicySpec
  it_guardian :: IntegrationGuardianSupportSpec
  it_credential_schema :: IntegrationSchemaSpec
  it_instance_schema :: IntegrationSchemaSpec
  it_resource_types :: "IntegrationResourceType list"
  it_actions :: "IntegrationActionDefinition list"
  it_discovery :: IntegrationDiscoverySpec
  it_normalization :: IntegrationNormalizationSpec
  it_execution :: IntegrationExecutionSpec
  it_extensions :: IntegrationExtensionsSpec
  it_reactors :: "IntegrationTypeReactor list"

text \<open>
  The errors of the validators: the kind of the violation, the field it is about, and the offending
  value where the message of the source has one.
\<close>

datatype type_error =
    FieldRequired string
  | FieldInvalid string string
  | FieldUnsupported string string
  | FieldDuplicated string string
  | FieldUnknown string string
  | FieldConflict string string
  | FieldNames name_error

section \<open>Patterns\<close>

definition is_lower :: "char \<Rightarrow> bool" where
  "is_lower c \<longleftrightarrow> CHR ''a'' \<le> c \<and> c \<le> CHR ''z''"

definition is_upper :: "char \<Rightarrow> bool" where
  "is_upper c \<longleftrightarrow> CHR ''A'' \<le> c \<and> c \<le> CHR ''Z''"

definition integrationDomainPattern :: "string \<Rightarrow> bool" where
  "integrationDomainPattern s \<longleftrightarrow>
     (case s of [] \<Rightarrow> False
      | c # cs \<Rightarrow> is_lower c \<and> list_all (\<lambda>c. is_lower_alnum c \<or> c \<in> set ''_-'') cs)"

definition integrationLocalePattern :: "string \<Rightarrow> bool" where
  "integrationLocalePattern s \<longleftrightarrow>
     (length s = 2 \<and> list_all is_lower s) \<or>
     (length s = 5 \<and> list_all is_lower (take 2 s) \<and> s ! 2 = CHR ''-'' \<and> list_all is_upper (drop 3 s))"

definition integrationHexColorPattern :: "string \<Rightarrow> bool" where
  "integrationHexColorPattern s \<longleftrightarrow>
     length s = 7 \<and> hd s = CHR ''#'' \<and>
     list_all (\<lambda>c. is_digit c \<or> (CHR ''A'' \<le> c \<and> c \<le> CHR ''F'') \<or> (CHR ''a'' \<le> c \<and> c \<le> CHR ''f'')) (tl s)"

section \<open>Presentation blocks\<close>

definition validateIntegrationDashboard :: "IntegrationDashboardSpec option \<Rightarrow> type_error option" where
  "validateIntegrationDashboard dashboard =
     (case dashboard of
        None \<Rightarrow> None
      | Some d \<Rightarrow>
          if TrimSpace (dash_url d) = [] then Some (FieldRequired ''dashboard.url'')
          else guard_err (\<not> HasPrefix (dash_url d) ''https://'' \<and> \<not> HasPrefix (dash_url d) ''http://'')
                 (FieldInvalid ''dashboard.url'' (dash_url d)))"

definition validateIntegrationDisplay :: "IntegrationDisplaySpec option \<Rightarrow> type_error option" where
  "validateIntegrationDisplay display =
     (case display of
        None \<Rightarrow> None
      | Some d \<Rightarrow>
          e_then (first_err (\<lambda>(locale_tag, txt).
              if \<not> integrationLocalePattern locale_tag then Some (FieldInvalid ''display.subtitle_locale'' locale_tag)
              else guard_err (TrimSpace txt = []) (FieldRequired locale_tag)) (disp_locale d))
            (guard_err (TrimSpace (disp_subtitle d) = [] \<and> disp_locale d = []) (FieldRequired ''display.subtitle'')))"

definition validateIntegrationIcon :: "IntegrationIconSpec option \<Rightarrow> type_error option" where
  "validateIntegrationIcon icon =
     (case icon of
        None \<Rightarrow> None
      | Some i \<Rightarrow>
          let url = TrimSpace (icon_url i); accent = TrimSpace (icon_accent i) in
          if url = [] then Some (FieldRequired ''icon.url'')
          else if \<not> (HasPrefix url ''https://'' \<or> HasPrefix url ''http://'' \<or> HasPrefix url ''data:'' \<or> HasPrefix url ''/'')
          then Some (FieldInvalid ''icon.url'' (icon_url i))
          else guard_err (accent \<noteq> [] \<and> \<not> integrationHexColorPattern accent) (FieldInvalid ''icon.accent'' (icon_accent i)))"

section \<open>Guardian support\<close>

definition guardian_fields :: "IntegrationGuardianSignalSupportSpec \<Rightarrow> (string \<times> string list) list" where
  "guardian_fields s =
      [(''oom_killed'', sig_oom_killed s), (''restart_count'', sig_restart_count s),
       (''error_rate'', sig_error_rate s), (''queue_backlog'', sig_queue_backlog s),
       (''memory_pressure'', sig_memory_pressure s), (''disk_pressure'', sig_disk_pressure s),
       (''rate_limited'', sig_rate_limited s), (''auth_denied'', sig_auth_denied s),
       (''sync_lag_seconds'', sig_sync_lag s), (''monthly_cost_usd'', sig_monthly_cost s),
       (''utilization'', sig_utilization s), (''idle_hours'', sig_idle_hours s),
       (''overprovisioned'', sig_overprovisioned s), (''scheduling_failure'', sig_scheduling_failure s),
       (''insufficient_cpu'', sig_insufficient_cpu s)]"

definition integrationGuardianSignalGroups ::
  "IntegrationGuardianSignalSupportSpec \<Rightarrow> (string \<times> string list) list" where
  "integrationGuardianSignalGroups s = filter (\<lambda>(label, vs). vs \<noteq> []) (guardian_fields s)"

definition normalizeGuardianSignalKeys :: "string list \<Rightarrow> string list" where
  "normalizeGuardianSignalKeys vs =
     fold (\<lambda>v normalized. let key = normalizeIntegrationName v in
             if key = [] then normalized
             else if key \<in> set normalized then normalized
             else normalized @ [key]) vs []"

definition normalizeIntegrationGuardianSignals ::
  "IntegrationGuardianSignalSupportSpec \<Rightarrow> IntegrationGuardianSignalSupportSpec" where
  "normalizeIntegrationGuardianSignals s =
     \<lparr>sig_oom_killed = normalizeGuardianSignalKeys (sig_oom_killed s),
      sig_restart_count = normalizeGuardianSignalKeys (sig_restart_count s),
      sig_error_rate = normalizeGuardianSignalKeys (sig_error_rate s),
      sig_queue_backlog = normalizeGuardianSignalKeys (sig_queue_backlog s),
      sig_memory_pressure = normalizeGuardianSignalKeys (sig_memory_pressure s),
      sig_disk_pressure = normalizeGuardianSignalKeys (sig_disk_pressure s),
      sig_rate_limited = normalizeGuardianSignalKeys (sig_rate_limited s),
      sig_auth_denied = normalizeGuardianSignalKeys (sig_auth_denied s),
      sig_sync_lag = normalizeGuardianSignalKeys (sig_sync_lag s),
      sig_monthly_cost = normalizeGuardianSignalKeys (sig_monthly_cost s),
      sig_utilization = normalizeGuardianSignalKeys (sig_utilization s),
      sig_idle_hours = normalizeGuardianSignalKeys (sig_idle_hours s),
      sig_overprovisioned = normalizeGuardianSignalKeys (sig_overprovisioned s),
      sig_scheduling_failure = normalizeGuardianSignalKeys (sig_scheduling_failure s),
      sig_insufficient_cpu = normalizeGuardianSignalKeys (sig_insufficient_cpu s)\<rparr>"

definition NormalizeIntegrationGuardianSupport ::
  "IntegrationGuardianSupportSpec \<Rightarrow> IntegrationGuardianSupportSpec" where
  "NormalizeIntegrationGuardianSupport spec =
     (let mode = ToLower (TrimSpace (gs_mode spec)) in
      \<lparr>gs_mode = (if mode \<noteq> [] then mode
                  else if integrationGuardianSignalGroups (gs_signals spec) = [] then ''none'' else ''light''),
       gs_signals = normalizeIntegrationGuardianSignals (gs_signals spec)\<rparr>)"

definition validateGuardianSignalKeys :: "string \<Rightarrow> string list \<Rightarrow> type_error option" where
  "validateGuardianSignalKeys label vs =
     check_distinct normalizeIntegrationName
       (\<lambda>v. guard_err (normalizeIntegrationName v = []) (FieldRequired label))
       (FieldDuplicated label) (\<lambda>v. None) [] vs"

definition supportedGuardianSupportModes :: "string list" where
  "supportedGuardianSupportModes = [''none'', ''light'', ''full'']"

definition validateIntegrationGuardianSupport :: "IntegrationGuardianSupportSpec \<Rightarrow> type_error option" where
  "validateIntegrationGuardianSupport spec0 =
     (let spec = NormalizeIntegrationGuardianSupport spec0 in
      if gs_mode spec \<notin> set supportedGuardianSupportModes then Some (FieldUnsupported ''guardian_support.mode'' (gs_mode spec))
      else first_err (\<lambda>(label, vs). validateGuardianSignalKeys label vs)
             (integrationGuardianSignalGroups (gs_signals spec)))"

section \<open>Credentials\<close>

definition supportedCredentialPolicySources :: "string list" where
  "supportedCredentialPolicySources = [''none'', ''inline'', ''secret_ref'', ''inline_or_secret_ref'']"

definition NormalizeIntegrationCredentialPolicy ::
  "IntegrationCredentialPolicySpec \<Rightarrow> IntegrationSchemaSpec \<Rightarrow> IntegrationCredentialPolicySpec" where
  "NormalizeIntegrationCredentialPolicy policy schema =
     (let source = ToLower (TrimSpace (cp_source policy)) in
      policy\<lparr>cp_source := (if source \<noteq> [] then source
         else if ToLower (TrimSpace (sch_mode schema)) = ''none'' then ''none''
         else ''inline_or_secret_ref'')\<rparr>)"

definition ValidateIntegrationCredentialPolicy ::
  "IntegrationCredentialPolicySpec \<Rightarrow> IntegrationSchemaSpec \<Rightarrow> type_error option" where
  "ValidateIntegrationCredentialPolicy policy0 schema =
     (let policy = NormalizeIntegrationCredentialPolicy policy0 schema;
          source = cp_source policy;
          m = ToLower (TrimSpace (sch_mode schema));
          schemaMode = (if m = [] then ''none'' else m) in
      if source \<notin> set supportedCredentialPolicySources then Some (FieldUnsupported ''credential_policy.source'' source)
      else if source = ''none'' \<and> schemaMode \<noteq> ''none'' then Some (FieldConflict ''credential_policy.source'' source)
      else if schemaMode = ''none'' \<and> source \<noteq> ''none'' then Some (FieldConflict ''credential_schema.mode'' (sch_mode schema))
      else if cp_materialize policy \<and> source = ''none'' then Some (FieldConflict ''credential_policy.materialize_inline'' ''none'')
      else if cp_materialize policy \<and> source = ''inline'' then Some (FieldConflict ''credential_policy.materialize_inline'' ''inline'')
      else None)"

definition EffectiveIntegrationCredentialPolicy :: "IntegrationTypeManifestSpec \<Rightarrow> IntegrationCredentialPolicySpec" where
  "EffectiveIntegrationCredentialPolicy typeSpec =
     (let policy = NormalizeIntegrationCredentialPolicy (it_policy typeSpec) (it_credential_schema typeSpec) in
      if cp_source policy \<noteq> ''none'' \<and> \<not> cp_materialize policy \<and>
         cp_source policy \<in> {''secret_ref'', ''inline_or_secret_ref''}
      then policy\<lparr>cp_materialize := True\<rparr> else policy)"

section \<open>Adapter and capabilities\<close>

definition supportedIntegrationCapabilities :: "string list" where
  "supportedIntegrationCapabilities = [''describe'', ''discover'', ''read'', ''execute'', ''sync'', ''health'']"

definition supportedIntegrationTransports :: "string list" where
  "supportedIntegrationTransports = [''rabbitmq'', ''http_json'']"

definition adapter_address :: "IntegrationAdapterQueue \<Rightarrow> string \<Rightarrow> string" where
  "adapter_address q capability =
     (if capability = ''describe'' then TrimSpace (q_describe q)
      else if capability = ''discover'' then TrimSpace (q_discover q)
      else if capability = ''read'' then TrimSpace (q_read q)
      else if capability = ''execute'' then TrimSpace (q_execute q)
      else if capability = ''sync'' then TrimSpace (q_sync q)
      else if capability = ''health'' then TrimSpace (q_health q)
      else [])"

definition validateIntegrationAdapter :: "IntegrationAdapterSpec \<Rightarrow> string list \<Rightarrow> type_error option" where
  "validateIntegrationAdapter adapter capabilities =
     (let transport = ToLower (TrimSpace (ad_transport adapter)) in
      if transport \<notin> set supportedIntegrationTransports then Some (FieldUnsupported ''adapter.transport'' (ad_transport adapter))
      else if TrimSpace (ad_version adapter) = [] then Some (FieldRequired ''adapter.version'')
      else if ad_timeout adapter \<le> 0 then Some (FieldRequired ''adapter.timeout_seconds'')
      else first_err (\<lambda>capability.
             if transport = ''rabbitmq''
             then guard_err (adapter_address (ad_queues adapter) capability = []) (FieldConflict ''adapter.queues'' capability)
             else guard_err (adapter_address (ad_endpoints adapter) capability = []) (FieldConflict ''adapter.endpoints'' capability))
           (toIntegrationNameSet capabilities))"

definition validateIntegrationCapabilities :: "string list \<Rightarrow> type_error option" where
  "validateIntegrationCapabilities capabilities =
     (if capabilities = [] then Some (FieldRequired ''capabilities'')
      else e_then
        (check_distinct normalizeIntegrationName
          (\<lambda>c. let n = normalizeIntegrationName c in
               if n = [] then Some (FieldRequired ''capabilities[]'')
               else guard_err (n \<notin> set supportedIntegrationCapabilities) (FieldUnsupported ''capabilities'' n))
          (FieldDuplicated ''capabilities'') (\<lambda>c. None) [] capabilities)
        (guard_err (''describe'' \<notin> normalizeIntegrationName ` set capabilities) (FieldRequired ''capabilities.describe'')))"

section \<open>Schemas and catalogs\<close>

definition supportedIntegrationSchemaModes :: "string list" where
  "supportedIntegrationSchemaModes = [''none'', ''inline'', ''secret_ref'']"

definition validateIntegrationSchema :: "string \<Rightarrow> IntegrationSchemaSpec \<Rightarrow> type_error option" where
  "validateIntegrationSchema label schema =
     (if ToLower (TrimSpace (sch_mode schema)) \<notin> set supportedIntegrationSchemaModes
      then Some (FieldUnsupported label (sch_mode schema))
      else e_then
        (check_distinct normalizeIntegrationName
          (\<lambda>f. guard_err (normalizeIntegrationName f = []) (FieldRequired label))
          (FieldDuplicated label) (\<lambda>f. None) [] (sch_required schema))
      (e_then
        (first_err (\<lambda>(name, property).
            if normalizeIntegrationName name = [] then Some (FieldRequired label)
            else guard_err (ToLower (TrimSpace (prop_type property)) \<notin> set supportedIntegrationSchemaTypes)
                   (FieldUnsupported name (prop_type property))) (sch_properties schema))
        (if sch_properties schema = [] then None
         else first_err (\<lambda>f. guard_err (map_of (sch_properties schema) f = None) (FieldUnknown label f))
                (map normalizeIntegrationName (sch_required schema)))))"

definition validateIntegrationResourceType :: "IntegrationResourceType \<Rightarrow> type_error option" where
  "validateIntegrationResourceType r =
     (let name = normalizeIntegrationName (rt_name r) in
      if TrimSpace (rt_prefix r) = [] then Some (FieldInvalid ''canonical_prefix'' name)
      else if TrimSpace (rt_identity r) = [] then Some (FieldInvalid ''identity_template'' name)
      else if rt_actions r = [] then Some (FieldInvalid ''default_actions'' name)
      else check_distinct normalizeIntegrationName
             (\<lambda>a. guard_err (normalizeIntegrationName a = []) (FieldInvalid ''default_actions[]'' name))
             (FieldDuplicated name) (\<lambda>a. None) [] (rt_actions r))"

definition validateIntegrationResourceTypes :: "IntegrationResourceType list \<Rightarrow> type_error option" where
  "validateIntegrationResourceTypes resourceTypes =
     (if resourceTypes = [] then Some (FieldRequired ''resource_types'')
      else check_distinct (\<lambda>r. normalizeIntegrationName (rt_name r))
             (\<lambda>r. guard_err (normalizeIntegrationName (rt_name r) = []) (FieldRequired ''resource_types.name''))
             (FieldDuplicated ''resource_types'') validateIntegrationResourceType [] resourceTypes)"

definition validateIntegrationActionCatalog ::
  "IntegrationActionDefinition list \<Rightarrow> IntegrationResourceType list \<Rightarrow> type_error option" where
  "validateIntegrationActionCatalog actions resourceTypes =
     (let known = map (\<lambda>r. normalizeIntegrationName (rt_name r)) resourceTypes in
      check_distinct (\<lambda>a. normalizeIntegrationName (act_name a))
        (\<lambda>a. guard_err (normalizeIntegrationName (act_name a) = []) (FieldRequired ''action_catalog.name''))
        (FieldDuplicated ''action_catalog'')
        (\<lambda>a. check_distinct normalizeIntegrationName
               (\<lambda>r. let n = normalizeIntegrationName r in
                    if n = [] then Some (FieldInvalid ''action_catalog.resource_types'' (normalizeIntegrationName (act_name a)))
                    else guard_err (n \<notin> set known) (FieldUnknown (normalizeIntegrationName (act_name a)) n))
               (FieldDuplicated (normalizeIntegrationName (act_name a))) (\<lambda>r. None) []
               (act_resource_types a))
        [] actions)"

definition supportedIntegrationDiscoveryModes :: "string list" where
  "supportedIntegrationDiscoveryModes = [''pull'', ''push'', ''hybrid'']"

definition supportedIntegrationCursorModes :: "string list" where
  "supportedIntegrationCursorModes = [''none'', ''full'', ''incremental'']"

definition validateIntegrationDiscovery :: "IntegrationDiscoverySpec \<Rightarrow> type_error option" where
  "validateIntegrationDiscovery discovery =
     (let mode = ToLower (TrimSpace (disc_mode discovery));
          c = ToLower (TrimSpace (disc_cursor discovery));
          cursor = (if c = [] then ''none'' else c) in
      if mode \<notin> set supportedIntegrationDiscoveryModes then Some (FieldUnsupported ''discovery.mode'' (disc_mode discovery))
      else if cursor \<notin> set supportedIntegrationCursorModes then Some (FieldUnsupported ''discovery.cursor'' (disc_cursor discovery))
      else guard_err ((mode = ''pull'' \<or> mode = ''hybrid'') \<and> cursor = ''none'') (FieldConflict ''discovery.mode'' mode))"

definition validateIntegrationNormalization :: "IntegrationNormalizationSpec \<Rightarrow> type_error option" where
  "validateIntegrationNormalization n =
     (if TrimSpace (norm_external_id n) = [] then Some (FieldRequired ''normalization.external_id_path'')
      else guard_err (TrimSpace (norm_fallback n) = []) (FieldRequired ''normalization.fallback_resource_prefix''))"

definition knownActions :: "IntegrationActionDefinition list \<Rightarrow> IntegrationResourceType list \<Rightarrow> string list" where
  "knownActions actionCatalog resourceTypes =
     map (\<lambda>a. normalizeIntegrationName (act_name a)) actionCatalog @
     concat (map (\<lambda>r. map normalizeIntegrationName (rt_actions r)) resourceTypes)"

definition validateIntegrationExecution ::
  "IntegrationExecutionSpec \<Rightarrow> IntegrationActionDefinition list \<Rightarrow> IntegrationResourceType list
     \<Rightarrow> IntegrationExtensionsSpec \<Rightarrow> type_error option" where
  "validateIntegrationExecution execution actionCatalog resourceTypes extensions =
     check_distinct normalizeIntegrationName
       (\<lambda>a. guard_err (normalizeIntegrationName a = []) (FieldRequired ''execution.idempotent_actions[]''))
       (FieldDuplicated ''execution.idempotent_actions'')
       (\<lambda>a. guard_err (normalizeIntegrationName a \<notin> set (knownActions actionCatalog resourceTypes) \<and> \<not> ext_actions extensions)
              (FieldUnknown ''execution.idempotent_actions'' (normalizeIntegrationName a)))
       [] (exec_idempotent execution)"

section \<open>The manifest\<close>

definition validateIntegrationFamily :: "IntegrationTypeManifestSpec \<Rightarrow> type_error option" where
  "validateIntegrationFamily spec =
     (case it_family_ref spec of
        Some ref \<Rightarrow>
          e_then (map_option FieldNames (validateManifestSelector ''integration_type family_ref'' ref))
            (if it_operations spec = [] then Some (FieldRequired ''implemented_operations'')
             else map_option FieldNames (validateNamedStringList ''integration_type implemented_operations'' (it_operations spec)))
      | None \<Rightarrow> guard_err (it_operations spec \<noteq> []) (FieldRequired ''family_ref''))"

definition validateIntegrationIdentity :: "IntegrationTypeManifestSpec \<Rightarrow> type_error option" where
  "validateIntegrationIdentity spec =
     (let provider = normalizeIntegrationName (it_provider spec); domain = TrimSpace (it_domain spec) in
      if provider = [] then Some (FieldRequired ''provider'')
      else if \<not> integrationNamePattern provider then Some (FieldInvalid ''provider'' (it_provider spec))
      else guard_err (domain \<noteq> [] \<and> \<not> integrationDomainPattern domain) (FieldInvalid ''domain'' (it_domain spec)))"

definition ValidateIntegrationTypeSpec :: "IntegrationTypeManifestSpec \<Rightarrow> type_error option" where
  "ValidateIntegrationTypeSpec spec =
     e_then (validateIntegrationIdentity spec)
    (e_then (validateIntegrationDashboard (it_dashboard spec))
    (e_then (validateIntegrationDisplay (it_display spec))
    (e_then (validateIntegrationIcon (it_icon spec))
    (e_then (validateIntegrationFamily spec)
    (e_then (validateIntegrationAdapter (it_adapter spec) (it_capabilities spec))
    (e_then (validateIntegrationCapabilities (it_capabilities spec))
    (e_then (ValidateIntegrationCredentialPolicy (it_policy spec) (it_credential_schema spec))
    (e_then (validateIntegrationGuardianSupport (it_guardian spec))
    (e_then (validateIntegrationSchema ''credential_schema'' (it_credential_schema spec))
    (e_then (validateIntegrationSchema ''instance_schema'' (it_instance_schema spec))
    (e_then (validateIntegrationResourceTypes (it_resource_types spec))
    (e_then (validateIntegrationActionCatalog (it_actions spec) (it_resource_types spec))
    (e_then (validateIntegrationDiscovery (it_discovery spec))
    (e_then (validateIntegrationNormalization (it_normalization spec))
            (validateIntegrationExecution (it_execution spec) (it_actions spec) (it_resource_types spec)
               (it_extensions spec))))))))))))))))"

section \<open>Facts\<close>

lemma normalizeGuardianSignalKeys_eq: "normalizeGuardianSignalKeys vs = toIntegrationNameSet vs"
  by (simp add: normalizeGuardianSignalKeys_def toIntegrationNameSet_def)

lemma normalized_keys_valid [validate_simps]:
  "validateGuardianSignalKeys label (normalizeGuardianSignalKeys vs) = None"
proof -
  have s: "set (normalizeGuardianSignalKeys vs) = normalizeIntegrationName ` set vs - {[]}"
    and d: "distinct (normalizeGuardianSignalKeys vs)"
    using toIntegrationNameSet_props [of vs] by (simp_all add: normalizeGuardianSignalKeys_eq)
  have n: "normalizeIntegrationName k = k" if "k \<in> set (normalizeGuardianSignalKeys vs)" for k
    using that s by auto
  then have "map normalizeIntegrationName (normalizeGuardianSignalKeys vs) = normalizeGuardianSignalKeys vs"
    by (simp add: map_idI)
  moreover have "normalizeIntegrationName k \<noteq> []" if "k \<in> set (normalizeGuardianSignalKeys vs)" for k
    using n [OF that] that s by simp
  ultimately show ?thesis
    using d unfolding validateGuardianSignalKeys_def check_distinct_None guard_err_None by simp
qed

lemma guardian_groups_normalized:
  "(label, vs) \<in> set (integrationGuardianSignalGroups (normalizeIntegrationGuardianSignals s)) \<Longrightarrow>
   \<exists>raw. vs = normalizeGuardianSignalKeys raw"
proof -
  assume "(label, vs) \<in> set (integrationGuardianSignalGroups (normalizeIntegrationGuardianSignals s))"
  then have "(label, vs) \<in> set (guardian_fields (normalizeIntegrationGuardianSignals s))"
    by (simp add: integrationGuardianSignalGroups_def)
  moreover have "guardian_fields (normalizeIntegrationGuardianSignals s) =
      map (\<lambda>(l, v). (l, normalizeGuardianSignalKeys v)) (guardian_fields s)"
    by (simp add: guardian_fields_def normalizeIntegrationGuardianSignals_def)
  ultimately show ?thesis by auto
qed

lemma validateIntegrationGuardianSupport_None [validate_simps]:
  "validateIntegrationGuardianSupport spec = None \<longleftrightarrow>
     ToLower (TrimSpace (gs_mode spec)) \<in> set ([] # supportedGuardianSupportModes)"
proof -
  let ?n = "NormalizeIntegrationGuardianSupport spec"
  have "first_err (\<lambda>(label, vs). validateGuardianSignalKeys label vs)
      (integrationGuardianSignalGroups (gs_signals ?n)) = None"
    unfolding first_err_None
    by (auto simp: NormalizeIntegrationGuardianSupport_def Let_def normalized_keys_valid
        dest!: guardian_groups_normalized)
  then show ?thesis
    by (auto simp: validateIntegrationGuardianSupport_def NormalizeIntegrationGuardianSupport_def Let_def
        supportedGuardianSupportModes_def)
qed

lemma validateIntegrationCapabilities_None [validate_simps]:
  "validateIntegrationCapabilities cs = None \<longleftrightarrow>
     distinct (map normalizeIntegrationName cs) \<and> ''describe'' \<in> normalizeIntegrationName ` set cs \<and>
     normalizeIntegrationName ` set cs \<subseteq> set supportedIntegrationCapabilities"
  by (auto simp: validateIntegrationCapabilities_def validate_simps Let_def supportedIntegrationCapabilities_def)

definition adapter_reaches :: "IntegrationAdapterSpec \<Rightarrow> string \<Rightarrow> bool" where
  "adapter_reaches adapter capability \<longleftrightarrow>
     (if ToLower (TrimSpace (ad_transport adapter)) = ''rabbitmq''
      then adapter_address (ad_queues adapter) capability \<noteq> []
      else adapter_address (ad_endpoints adapter) capability \<noteq> [])"

lemma validateIntegrationAdapter_None [validate_simps]:
  "validateIntegrationAdapter adapter cs = None \<longleftrightarrow>
     ToLower (TrimSpace (ad_transport adapter)) \<in> set supportedIntegrationTransports \<and>
     TrimSpace (ad_version adapter) \<noteq> [] \<and> 0 < ad_timeout adapter \<and>
     (\<forall>c\<in>normalizeIntegrationName ` set cs - {[]}. adapter_reaches adapter c)"
proof -
  have "set (toIntegrationNameSet cs) = normalizeIntegrationName ` set cs - {[]}"
    using toIntegrationNameSet_props by blast
  then show ?thesis
    by (auto simp: validateIntegrationAdapter_def validate_simps Let_def adapter_reaches_def
        supportedIntegrationTransports_def)
qed

lemma ValidateIntegrationCredentialPolicy_None [validate_simps]:
  "ValidateIntegrationCredentialPolicy policy schema = None \<longleftrightarrow>
     (let source = cp_source (NormalizeIntegrationCredentialPolicy policy schema) in
      source \<in> set supportedCredentialPolicySources \<and>
      (source = ''none'' \<longleftrightarrow> ToLower (TrimSpace (sch_mode schema)) \<in> {[], ''none''}) \<and>
      (cp_materialize policy \<longrightarrow> source \<in> {''secret_ref'', ''inline_or_secret_ref''}))"
  by (auto simp: ValidateIntegrationCredentialPolicy_def NormalizeIntegrationCredentialPolicy_def Let_def
      supportedCredentialPolicySources_def)

section \<open>Properties\<close>

text \<open>The capabilities that a type can offer, with the routes of its adapter for each.\<close>

definition capability_routes :: "IntegrationAdapterSpec \<Rightarrow> (string \<times> string) list" where
  "capability_routes adapter =
     (let r = (if ToLower (TrimSpace (ad_transport adapter)) = ''rabbitmq'' then ad_queues adapter else ad_endpoints adapter) in
      [(''describe'', q_describe r), (''discover'', q_discover r), (''read'', q_read r), (''execute'', q_execute r), (''sync'', q_sync r),
       (''health'', q_health r)])"

text \<open>The credential source that is in force: the declared one, and without one that of the mode of the schema.\<close>

definition credential_source :: "IntegrationTypeManifestSpec \<Rightarrow> string" where
  "credential_source spec =
     (if TrimSpace (cp_source (it_policy spec)) \<noteq> [] then ToLower (TrimSpace (cp_source (it_policy spec)))
      else if ToLower (TrimSpace (sch_mode (it_credential_schema spec))) = ''none'' then ''none'' else ''inline_or_secret_ref'')"

lemma credential_source_eq:
  "cp_source (NormalizeIntegrationCredentialPolicy (it_policy spec) (it_credential_schema spec)) = credential_source spec"
  by (simp add: NormalizeIntegrationCredentialPolicy_def credential_source_def Let_def)

lemma reaches_route:
  "(c, route) \<in> set (capability_routes adapter) \<Longrightarrow> adapter_reaches adapter c \<Longrightarrow> TrimSpace route \<noteq> []"
  by (auto simp: capability_routes_def adapter_reaches_def adapter_address_def Let_def split: if_splits)

text \<open>C39: What an accepted integration type guarantees to dispatch. Its capabilities, trimmed and in lower case, are pairwise
  different, are among the six that exist and contain describe. Its transport is RabbitMQ or HTTP, and the adapter has a queue or an endpoint
  that is not blank for every capability it declares, a version and a positive timeout. The credential policy fits the schema: the source in force is one of the four,
  it is none exactly when the mode of the schema is none, and credentials are materialised only from a secret reference.\<close>
theorem integration_type_dispatchable:
  assumes "ValidateIntegrationTypeSpec spec = None"
    and "names = map normalizeIntegrationName (it_capabilities spec)" and "mode = ToLower (TrimSpace (sch_mode (it_credential_schema spec)))"
  shows "distinct names \<and> set names \<subseteq> {''describe'', ''discover'', ''read'', ''execute'', ''sync'', ''health''} \<and> ''describe'' \<in> set names \<and>
    ToLower (TrimSpace (ad_transport (it_adapter spec))) \<in> {''rabbitmq'', ''http_json''} \<and>
    (\<forall>(capability, route)\<in>set (capability_routes (it_adapter spec)). capability \<in> set names \<longrightarrow> TrimSpace route \<noteq> []) \<and>
    TrimSpace (ad_version (it_adapter spec)) \<noteq> [] \<and> 0 < ad_timeout (it_adapter spec) \<and>
    mode \<in> {''none'', ''inline'', ''secret_ref''} \<and>
    credential_source spec \<in> {''none'', ''inline'', ''secret_ref'', ''inline_or_secret_ref''} \<and> (credential_source spec = ''none'' \<longleftrightarrow> mode = ''none'') \<and>
    (cp_materialize (it_policy spec) \<longrightarrow> credential_source spec \<in> {''secret_ref'', ''inline_or_secret_ref''})"
proof -
  from assms(1) have
    ad: "validateIntegrationAdapter (it_adapter spec) (it_capabilities spec) = None"
    and ca: "validateIntegrationCapabilities (it_capabilities spec) = None"
    and po: "ValidateIntegrationCredentialPolicy (it_policy spec) (it_credential_schema spec) = None"
    and sc: "validateIntegrationSchema ''credential_schema'' (it_credential_schema spec) = None"
    unfolding ValidateIntegrationTypeSpec_def e_then_None by blast+
  have m: "mode \<in> {''none'', ''inline'', ''secret_ref''}"
    using sc assms(3) by (auto simp: validateIntegrationSchema_def supportedIntegrationSchemaModes_def split: if_splits)
  have n: "distinct names" "''describe'' \<in> set names" and sup: "set names \<subseteq> set supportedIntegrationCapabilities"
    using ca assms(2) by (auto simp: validate_simps)
  have t: "ToLower (TrimSpace (ad_transport (it_adapter spec))) \<in> {''rabbitmq'', ''http_json''}" "TrimSpace (ad_version (it_adapter spec)) \<noteq> []"
      "0 < ad_timeout (it_adapter spec)" and r: "\<forall>c\<in>set names - {[]}. adapter_reaches (it_adapter spec) c"
    using ad assms(2) by (auto simp: validateIntegrationAdapter_None supportedIntegrationTransports_def)
  have "TrimSpace route \<noteq> []" if cr: "(c, route) \<in> set (capability_routes (it_adapter spec))" and "c \<in> set names" for c route
  proof -
    have "c \<noteq> []" using cr by (auto simp: capability_routes_def Let_def)
    then show ?thesis using reaches_route [OF cr] r that(2) by blast
  qed
  moreover have "credential_source spec \<in> {''none'', ''inline'', ''secret_ref'', ''inline_or_secret_ref''}" "credential_source spec = ''none'' \<longleftrightarrow> mode = ''none''"
    "cp_materialize (it_policy spec) \<longrightarrow> credential_source spec \<in> {''secret_ref'', ''inline_or_secret_ref''}"
    using po m assms(3) unfolding ValidateIntegrationCredentialPolicy_None credential_source_eq Let_def by (auto simp: supportedCredentialPolicySources_def)
  ultimately show ?thesis using n sup t m by (auto simp: supportedIntegrationCapabilities_def)
qed

definition ex_queue :: IntegrationAdapterQueue where
  "ex_queue = \<lparr>q_describe = ''q.describe'', q_discover = [], q_read = [], q_execute = ''q.execute'', q_sync = [], q_health = []\<rparr>"

definition ex_schema :: IntegrationSchemaSpec where
  "ex_schema = \<lparr>sch_mode = ''none'', sch_required = [], sch_properties = []\<rparr>"

definition ex_signals :: IntegrationGuardianSignalSupportSpec where
  "ex_signals = \<lparr>sig_oom_killed = [''OOM'', '' oom ''], sig_restart_count = [], sig_error_rate = [], sig_queue_backlog = [],
     sig_memory_pressure = [], sig_disk_pressure = [], sig_rate_limited = [], sig_auth_denied = [], sig_sync_lag = [],
     sig_monthly_cost = [], sig_utilization = [], sig_idle_hours = [], sig_overprovisioned = [],
     sig_scheduling_failure = [], sig_insufficient_cpu = []\<rparr>"

definition ex_type :: IntegrationTypeManifestSpec where
  "ex_type = \<lparr>it_provider = ''github'', it_family_ref = None, it_operations = [], it_domain = [], it_dashboard = None,
     it_display = None, it_icon = None,
     it_adapter = \<lparr>ad_transport = ''rabbitmq'', ad_version = ''1'', ad_queues = ex_queue, ad_endpoints = ex_queue, ad_timeout = 30\<rparr>,
     it_capabilities = [''Describe'', ''execute''], it_policy = \<lparr>cp_source = [], cp_materialize = False\<rparr>,
     it_guardian = \<lparr>gs_mode = [], gs_signals = ex_signals\<rparr>,
     it_credential_schema = ex_schema, it_instance_schema = ex_schema,
     it_resource_types = [\<lparr>rt_name = ''repo'', rt_prefix = ''gh'', rt_identity = ''id'', rt_discoverable = True, rt_actions = [''read'']\<rparr>],
     it_actions = [], it_discovery = \<lparr>disc_mode = ''push'', disc_cursor = [], disc_webhooks = True\<rparr>,
     it_normalization = \<lparr>norm_external_id = ''id'', norm_name = [], norm_owner = [], norm_fallback = ''gh''\<rparr>,
     it_execution = \<lparr>exec_dry_run = False, exec_idempotent = [''read'']\<rparr>,
     it_extensions = \<lparr>ext_types = False, ext_actions = False, ext_raw = False\<rparr>, it_reactors = []\<rparr>"

lemma ex_type_valid: "ValidateIntegrationTypeSpec ex_type = None"
  by code_simp

lemma ex_type_mode: "ToLower (TrimSpace (sch_mode (it_credential_schema ex_type))) = ''none''"
  by code_simp

theorem integration_type_dispatchable_witness:
  "distinct (map normalizeIntegrationName (it_capabilities ex_type)) \<and>
   ''describe'' \<in> set (map normalizeIntegrationName (it_capabilities ex_type)) \<and> credential_source ex_type = ''none'' \<and>
   0 < ad_timeout (it_adapter ex_type)"
  using integration_type_dispatchable [OF ex_type_valid refl refl] ex_type_mode by blast

text \<open>Normalisation makes the guardian block valid: after the signal lists are normalised no key is empty or
  duplicated, so a guardian block is rejected for an unsupported mode and for nothing else.\<close>
theorem guardian_support_only_mode:
  "validateIntegrationGuardianSupport spec = None \<longleftrightarrow>
     ToLower (TrimSpace (gs_mode spec)) \<in> set ([] # supportedGuardianSupportModes)"
  by (rule validateIntegrationGuardianSupport_None)

end
