(* ===== verification/Sensitive_Lease.thy ===== *)
theory Sensitive_Lease
  imports Sensitive_Output Integration_Type
begin

text \<open>
  The one-step lease for provider-generated secrets, \<open>controllers/message/workflows_sensitive_lease.go\<close>:
  which producer and sink pairs are eligible, how the raw result of a producer is split into a safe
  result and a lease that holds the secret, and how the lease is spent by the sink that follows. The
  resolution of the sink against the manifest store is an argument.
\<close>

record resolved_integration =
  rs_instance :: ManifestReference
  rs_type :: ManifestReference
  rs_type_spec :: IntegrationTypeManifestSpec

record sensitiveOutputPlan =
  plan_producer :: string
  plan_sink :: string
  plan_source :: string
  plan_input :: string
  plan_instance_id :: string
  plan_instance_version :: int
  plan_type_id :: string
  plan_type_version :: int

record sensitiveOutputLease =
  lease_producer :: string
  lease_sink :: string
  lease_source :: string
  lease_input :: string
  lease_instance_id :: string
  lease_instance_version :: int
  lease_type_id :: string
  lease_type_version :: int
  lease_value :: string

definition sensitiveOutputSinkOperation :: string where
  "sensitiveOutputSinkOperation = ''ensure_secret''"

definition sensitiveOutputSinkFamily :: string where
  "sensitiveOutputSinkFamily = ''secrets-management''"

definition sensitiveOutputSinkInputPath :: string where
  "sensitiveOutputSinkInputPath = ''secret.generation.manual.value''"

definition sensitiveOutputSinkSecretIDPath :: string where
  "sensitiveOutputSinkSecretIDPath = ''secret.secret_id''"

definition sensitiveOutputSinkStrategyPath :: string where
  "sensitiveOutputSinkStrategyPath = ''secret.generation.strategy''"

definition errSensitiveOutputContract :: string where
  "errSensitiveOutputContract = ''sensitive_output_contract_violation''"

definition errSensitiveOutputProducer :: string where
  "errSensitiveOutputProducer = ''sensitive_output_producer_failed''"

definition errSensitiveOutputSink :: string where
  "errSensitiveOutputSink = ''sensitive_output_sink_failed''"

definition WorkflowDispatchOperation :: string where
  "WorkflowDispatchOperation = ''dispatch_workflow''"

definition normalizeWorkflowStepID :: "string \<Rightarrow> string" where
  "normalizeWorkflowStepID v = ToLower (TrimSpace v)"

definition workflowStepAttempts :: "WorkflowStepSpec \<Rightarrow> int" where
  "workflowStepAttempts step =
     (if 0 < retry_max_attempts (step_retry step) then retry_max_attempts (step_retry step) else 1)"

definition sensitiveOutputPathPattern :: "string \<Rightarrow> bool" where
  "sensitiveOutputPathPattern s \<longleftrightarrow>
     s \<noteq> [] \<and> list_all (\<lambda>c. is_lower c \<or> is_upper c \<or> is_digit c \<or> c \<in> set ''_-'') s"

section \<open>Template paths\<close>

definition workflowTemplatePathsInString :: "string \<Rightarrow> string list" where
  "workflowTemplatePathsInString v = map (\<lambda>b. TrimSpace (capture b)) (templates v)"

fun workflowTemplatePathsInValue :: "gval \<Rightarrow> string list" and paths_in_map :: "gmap \<Rightarrow> string list" where
  "workflowTemplatePathsInValue (GMap m) = paths_in_map m"
| "workflowTemplatePathsInValue (GList xs) = concat (map workflowTemplatePathsInValue xs)"
| "workflowTemplatePathsInValue (GStrs ss) = concat (map workflowTemplatePathsInString ss)"
| "workflowTemplatePathsInValue (GStr s) = workflowTemplatePathsInString s"
| "workflowTemplatePathsInValue _ = []"
| "paths_in_map [] = []"
| "paths_in_map ((k, v) # m) = workflowTemplatePathsInString k @ workflowTemplatePathsInValue v @ paths_in_map m"

definition paths_in_selector :: "ManifestSelector option \<Rightarrow> string list" where
  "paths_in_selector s =
     (case s of None \<Rightarrow> []
      | Some sel \<Rightarrow> workflowTemplatePathsInString (sel_manifest_id sel) @
          workflowTemplatePathsInString (sel_namespace sel) @ workflowTemplatePathsInString (sel_name sel))"

definition workflowTemplatePathsInStep :: "WorkflowStepSpec \<Rightarrow> string list" where
  "workflowTemplatePathsInStep step =
     workflowTemplatePathsInValue (GMap (step_with step)) @
     concat (map workflowTemplatePathsInString
       [step_condition step, use_family (step_use step), use_operation (step_use step), use_capability (step_use step)]) @
     (case step_for_each step of None \<Rightarrow> [] | Some f \<Rightarrow> workflowTemplatePathsInString (fe_items f)) @
     paths_in_selector (use_instance_ref (step_use step)) @ paths_in_selector (use_provider_ref (step_use step))"

definition canonicalWorkflowTemplatePath :: "string \<Rightarrow> string option" where
  "canonicalWorkflowTemplatePath path =
     (let parts = map TrimSpace (Split CHR ''.'' (TrimSpace path))
      in if [] \<in> set parts then None else Some (Join parts ''.''))"

definition countSensitiveOutputReferences :: "WorkflowStepSpec list \<Rightarrow> string \<Rightarrow> nat" where
  "countSensitiveOutputReferences steps reference0 =
     (case canonicalWorkflowTemplatePath reference0 of
        None \<Rightarrow> 0
      | Some reference \<Rightarrow>
          length (filter (\<lambda>p. case canonicalWorkflowTemplatePath p of
                    None \<Rightarrow> False
                  | Some path \<Rightarrow> path = reference \<or> HasPrefix path (reference @ ''.'') \<or> HasPrefix reference (path @ ''.''))
            (concat (map workflowTemplatePathsInStep steps))))"

fun value_at :: "gval \<Rightarrow> string list \<Rightarrow> gval option" where
  "value_at current [] = Some current"
| "value_at current (s # ss) =
     (case current of
        GMap m \<Rightarrow> (case map_of m s of None \<Rightarrow> None | Some v \<Rightarrow> value_at v ss)
      | _ \<Rightarrow> None)"

definition workflowStringAtPath :: "gmap \<Rightarrow> string list \<Rightarrow> string option" where
  "workflowStringAtPath base segments =
     (case value_at (GMap base) segments of Some (GStr s) \<Rightarrow> Some s | _ \<Rightarrow> None)"

definition exactSensitiveOutputSource :: "string \<Rightarrow> string \<Rightarrow> string option" where
  "exactSensitiveOutputSource rawTemplate producerStepID =
     (let t = TrimSpace rawTemplate in
      case templates t of
        [body] \<Rightarrow>
          if TrimSpace (''{{'' @ body @ ''}}'') \<noteq> t then None
          else (case Split CHR ''.'' (TrimSpace (capture body)) of
                  [p0, p1, p2, p3, p4] \<Rightarrow>
                    if p0 = ''steps'' \<and> p1 = producerStepID \<and> p2 = ''metadata'' \<and> p3 = ''output'' \<and>
                       sensitiveOutputPathPattern p4
                    then Some p4 else None
                | _ \<Rightarrow> None)
      | _ \<Rightarrow> None)"

section \<open>Plans\<close>

definition is_integration :: "WorkflowStepSpec \<Rightarrow> bool" where
  "is_integration step \<longleftrightarrow> EqualFold (TrimSpace (use_kind (step_use step))) ''integration''"

definition unconditional :: "WorkflowStepSpec \<Rightarrow> bool" where
  "unconditional step \<longleftrightarrow> TrimSpace (step_condition step) = [] \<and> step_for_each step = None"

definition eligible_pair :: "WorkflowStepSpec \<Rightarrow> WorkflowStepSpec \<Rightarrow> bool" where
  "eligible_pair producer sink \<longleftrightarrow>
     normalizeWorkflowStepID (step_id producer) \<noteq> [] \<and> normalizeWorkflowStepID (step_id sink) \<noteq> [] \<and>
     is_integration producer \<and>
     NormalizeWorkflowStepOperation producer \<noteq> [] \<and>
     NormalizeWorkflowStepOperation producer \<noteq> WorkflowDispatchOperation \<and>
     NormalizeWorkflowStepCapability producer = NormalizeWorkflowStepOperation producer \<and>
     workflowStepAttempts producer = 1 \<and> unconditional producer \<and>
     is_integration sink \<and>
     NormalizeWorkflowStepOperation sink = sensitiveOutputSinkOperation \<and>
     NormalizeWorkflowStepCapability sink = NormalizeWorkflowStepOperation sink \<and> unconditional sink"

definition path_segments :: "string \<Rightarrow> string list" where
  "path_segments p = Split CHR ''.'' p"

definition deriveSensitiveOutputPlan :: "WorkflowStepSpec list \<Rightarrow> nat \<Rightarrow> sensitiveOutputPlan option" where
  "deriveSensitiveOutputPlan orderedSteps index =
     (if length orderedSteps \<le> index + 1 then None
      else let producer = orderedSteps ! index; sink = orderedSteps ! (index + 1);
               producerID = normalizeWorkflowStepID (step_id producer);
               sinkID = normalizeWorkflowStepID (step_id sink) in
      if \<not> eligible_pair producer sink then None
      else if map normalizeWorkflowStepID (step_depends sink) \<noteq> [producerID] then None
      else if workflowStringAtPath (step_with sink) (path_segments sensitiveOutputSinkStrategyPath) \<noteq> Some ''manual'' then None
      else (case workflowStringAtPath (step_with sink) (path_segments sensitiveOutputSinkSecretIDPath) of
          None \<Rightarrow> None
        | Some secretID \<Rightarrow>
            if TrimSpace secretID = [] then None
            else (case workflowStringAtPath (step_with sink) (path_segments sensitiveOutputSinkInputPath) of
                None \<Rightarrow> None
              | Some rawTemplate \<Rightarrow>
                  (case exactSensitiveOutputSource rawTemplate producerID of
                     None \<Rightarrow> None
                   | Some sourcePath \<Rightarrow>
                       if countSensitiveOutputReferences orderedSteps
                            (''steps.'' @ producerID @ ''.metadata.output.'' @ sourcePath) \<noteq> 1 then None
                       else Some \<lparr>plan_producer = producerID, plan_sink = sinkID, plan_source = sourcePath,
                              plan_input = sensitiveOutputSinkInputPath, plan_instance_id = [],
                              plan_instance_version = 0, plan_type_id = [], plan_type_version = 0\<rparr>))))"

definition sensitiveOutputSinkSecretIDResolvable :: "golib \<Rightarrow> WorkflowStepSpec \<Rightarrow> WorkflowExecutionContext \<Rightarrow> bool" where
  "sensitiveOutputSinkSecretIDResolvable L step ctx =
     (case workflowStringAtPath (step_with step) (path_segments sensitiveOutputSinkSecretIDPath) of
        None \<Rightarrow> False
      | Some raw \<Rightarrow>
          (case RenderWorkflowInput L ctx (GStr raw) of
             Inr (GStr secretID) \<Rightarrow>
               secretID \<noteq> [] \<and> secretID = TrimSpace secretID \<and>
               \<not> Contains secretID ''{{'' \<and> \<not> Contains secretID ''}}''
           | _ \<Rightarrow> False))"

definition containsFold :: "string list \<Rightarrow> string \<Rightarrow> bool" where
  "containsFold haystack needle \<longleftrightarrow>
     list_ex (\<lambda>c. EqualFold (TrimSpace c) (ToLower (TrimSpace needle))) haystack \<or> needle \<in> set haystack"

definition isSensitiveOutputSinkType :: "IntegrationTypeManifestSpec \<Rightarrow> bool" where
  "isSensitiveOutputSinkType typeSpec =
     (case it_family_ref typeSpec of
        None \<Rightarrow> False
      | Some ref \<Rightarrow> EqualFold (TrimSpace (sel_name ref)) sensitiveOutputSinkFamily \<and>
          containsFold (it_operations typeSpec) sensitiveOutputSinkOperation)"

definition matchesResolvedSink :: "sensitiveOutputLease \<Rightarrow> resolved_integration \<Rightarrow> bool" where
  "matchesResolvedSink lease r \<longleftrightarrow>
     lease_instance_id lease \<noteq> [] \<and> lease_type_id lease \<noteq> [] \<and>
     EqualFold (ref_id (rs_instance r)) (lease_instance_id lease) \<and>
     ref_version (rs_instance r) = lease_instance_version lease \<and>
     EqualFold (ref_id (rs_type r)) (lease_type_id lease) \<and>
     ref_version (rs_type r) = lease_type_version lease"

section \<open>The selector templates of a step\<close>

definition pick_string :: "gmap \<Rightarrow> string \<Rightarrow> string \<Rightarrow> string" where
  "pick_string shaped key old =
     (case map_of shaped key of Some (GStr v) \<Rightarrow> if v \<noteq> [] then v else old | _ \<Rightarrow> old)"

datatype use_error = UseRender string render_error | UseShape string | InputRender render_error | InputShape string

definition renderSelector ::
  "golib \<Rightarrow> WorkflowExecutionContext \<Rightarrow> string \<Rightarrow> ManifestSelector option \<Rightarrow> use_error + ManifestSelector option" where
  "renderSelector L ctx label sel =
     (case sel of
        None \<Rightarrow> Inr None
      | Some s \<Rightarrow>
          (case RenderWorkflowInput L ctx (GMap [(''manifest_id'', GStr (sel_manifest_id s)),
                  (''namespace'', GStr (sel_namespace s)), (''name'', GStr (sel_name s))]) of
             Inl e \<Rightarrow> Inl (UseRender label e)
           | Inr (GMap shaped) \<Rightarrow>
               Inr (Some (s\<lparr>sel_manifest_id := pick_string shaped ''manifest_id'' (sel_manifest_id s),
                      sel_namespace := pick_string shaped ''namespace'' (sel_namespace s),
                      sel_name := pick_string shaped ''name'' (sel_name s)\<rparr>))
           | Inr _ \<Rightarrow> Inl (UseShape label)))"

definition renderWorkflowStepUse ::
  "golib \<Rightarrow> WorkflowExecutionContext \<Rightarrow> WorkflowStepUseSpec \<Rightarrow> use_error + WorkflowStepUseSpec" where
  "renderWorkflowStepUse L ctx use =
     (case renderSelector L ctx ''instance_ref'' (use_instance_ref use) of
        Inl e \<Rightarrow> Inl e
      | Inr inst \<Rightarrow>
          (case renderSelector L ctx ''provider_ref'' (use_provider_ref use) of
             Inl e \<Rightarrow> Inl e
           | Inr prov \<Rightarrow>
               let resolved = use\<lparr>use_instance_ref := inst, use_provider_ref := prov\<rparr> in
               if Contains (use_family use) ''{{'' then
                 (case RenderWorkflowInput L ctx (GStr (use_family use)) of
                    Inl e \<Rightarrow> Inl (UseRender ''family'' e)
                  | Inr (GStr v) \<Rightarrow> Inr (resolved\<lparr>use_family := v\<rparr>)
                  | Inr _ \<Rightarrow> Inr resolved)
               else Inr resolved))"

definition authorizeSensitiveOutputPlan ::
  "golib \<Rightarrow> (WorkflowStepUseSpec \<Rightarrow> resolved_integration option) \<Rightarrow> WorkflowStepSpec list \<Rightarrow> nat
     \<Rightarrow> WorkflowExecutionContext \<Rightarrow> sensitiveOutputPlan option" where
  "authorizeSensitiveOutputPlan L resolveSink orderedSteps index ctx =
     (case deriveSensitiveOutputPlan orderedSteps index of
        None \<Rightarrow> None
      | Some plan \<Rightarrow>
          let sink = orderedSteps ! (index + 1) in
          if \<not> sensitiveOutputSinkSecretIDResolvable L sink ctx then None
          else (case renderWorkflowStepUse L ctx (step_use sink) of
              Inl e \<Rightarrow> None
            | Inr use \<Rightarrow>
                (case resolveSink use of
                   None \<Rightarrow> None
                 | Some r \<Rightarrow>
                     if \<not> isSensitiveOutputSinkType (rs_type_spec r) then None
                     else Some (plan\<lparr>plan_instance_id := ref_id (rs_instance r),
                       plan_instance_version := ref_version (rs_instance r),
                       plan_type_id := ref_id (rs_type r), plan_type_version := ref_version (rs_type r)\<rparr>))))"

section \<open>The producer's result\<close>

definition sensitiveOutputProducerFailure :: "WorkflowRunStepResult \<Rightarrow> WorkflowRunStepResult" where
  "sensitiveOutputProducerFailure result =
     result\<lparr>res_status := ''failed'', res_error := errSensitiveOutputProducer,
       res_metadata := [(''output'', GStr redactedWorkflowOutputValue), (''sensitive_output_redacted'', GBool True),
                        (''sensitive_output_redaction_scope'', GStr ''output'')]\<rparr>"

definition sensitiveOutputContractFailure :: "WorkflowRunStepResult \<Rightarrow> WorkflowRunStepResult" where
  "sensitiveOutputContractFailure result =
     result\<lparr>res_status := ''failed'', res_error := errSensitiveOutputContract,
       res_metadata := [(''output'', GStr redactedWorkflowOutputValue), (''sensitive_output_redacted'', GBool True),
                        (''sensitive_output_redaction_scope'', GStr ''output''),
                        (''sensitive_output_contract_violation'', GBool True)]\<rparr>"

fun strings_of :: "gval list \<Rightarrow> string list option" where
  "strings_of [] = Some []"
| "strings_of (x # xs) = (case x of GStr s \<Rightarrow> map_option (Cons s) (strings_of xs) | _ \<Rightarrow> None)"

definition strictSensitiveOutputPaths :: "gval \<Rightarrow> string list option" where
  "strictSensitiveOutputPaths raw =
     (case (case raw of GStrs ss \<Rightarrow> Some ss | GList xs \<Rightarrow> strings_of xs | _ \<Rightarrow> None) of
        None \<Rightarrow> None
      | Some vs \<Rightarrow>
          if vs = [] \<or> \<not> list_all (\<lambda>v. v = TrimSpace v \<and> sensitiveOutputPathPattern v) vs \<or> \<not> distinct vs
          then None else Some vs)"

definition secureSensitiveProducerResult ::
  "WorkflowRunStepResult \<Rightarrow> sensitiveOutputPlan option \<Rightarrow> WorkflowRunStepResult \<times> sensitiveOutputLease option" where
  "secureSensitiveProducerResult result plan =
     (let declared = map_of (res_metadata result) ''sensitive_output_paths'';
          violation = (sensitiveOutputContractFailure result, None) in
      case plan of
        None \<Rightarrow> (case declared of None \<Rightarrow> (result, None) | Some _ \<Rightarrow> violation)
      | Some p \<Rightarrow>
          if res_status result \<noteq> ''succeeded'' then (sensitiveOutputProducerFailure result, None)
          else (case declared of
              None \<Rightarrow>
                (case map_of (res_metadata result) ''output'' of
                   Some (GMap m) \<Rightarrow> if map_of m (plan_source p) \<noteq> None then violation else (result, None)
                 | _ \<Rightarrow> (result, None))
            | Some rawPaths \<Rightarrow>
                if strictSensitiveOutputPaths rawPaths \<noteq> Some [plan_source p] then violation
                else (case map_of (res_metadata result) ''output'' of
                    Some (GMap m) \<Rightarrow>
                      (case map_of m (plan_source p) of
                         Some (GStr v) \<Rightarrow>
                           if v = [] then violation
                           else (let safe = redactSensitiveWorkflowStepResult result in
                             case redactWorkflowSensitiveValue (GMap (res_metadata safe)) v of
                               GMap metadata \<Rightarrow>
                                 (safe\<lparr>res_metadata := metadata, res_error := []\<rparr>,
                                  Some \<lparr>lease_producer = plan_producer p, lease_sink = plan_sink p,
                                    lease_source = plan_source p, lease_input = plan_input p,
                                    lease_instance_id = plan_instance_id p,
                                    lease_instance_version = plan_instance_version p,
                                    lease_type_id = plan_type_id p, lease_type_version = plan_type_version p,
                                    lease_value = v\<rparr>)
                             | _ \<Rightarrow> violation)
                       | _ \<Rightarrow> violation)
                  | _ \<Rightarrow> violation)))"

section \<open>The sink\<close>

definition lease_accepts :: "sensitiveOutputLease \<Rightarrow> WorkflowStepSpec \<Rightarrow> bool" where
  "lease_accepts lease step \<longleftrightarrow>
     normalizeWorkflowStepID (step_id step) = lease_sink lease \<and> is_integration step \<and>
     NormalizeWorkflowStepOperation step = sensitiveOutputSinkOperation \<and>
     NormalizeWorkflowStepCapability step = sensitiveOutputSinkOperation \<and> unconditional step"

definition renderWorkflowStepInput ::
  "golib \<Rightarrow> WorkflowExecutionContext \<Rightarrow> WorkflowStepSpec \<Rightarrow> use_error + gmap" where
  "renderWorkflowStepInput L ctx step =
     (case RenderWorkflowInput L ctx (GMap (step_with step)) of
        Inl e \<Rightarrow> Inl (InputRender e)
      | Inr (GMap m) \<Rightarrow> Inr m
      | Inr GNil \<Rightarrow> Inr []
      | Inr _ \<Rightarrow> Inl (InputShape (step_id step)))"

definition overlay_ctx ::
  "WorkflowExecutionContext \<Rightarrow> sensitiveOutputLease \<Rightarrow> WorkflowExecutionContext option" where
  "overlay_ctx ctx lease =
     (case map_of (ctx_steps ctx) (lease_producer lease) of
        None \<Rightarrow> None
      | Some source \<Rightarrow>
          (case map_of (res_metadata source) ''output'' of
             Some (GMap out) \<Rightarrow>
               Some (ctx\<lparr>ctx_steps := AList.update (lease_producer lease)
                 (source\<lparr>res_metadata := AList.update ''output''
                    (GMap (AList.update (lease_source lease) (GStr (lease_value lease)) out)) (res_metadata source)\<rparr>)
                 (ctx_steps ctx)\<rparr>)
           | _ \<Rightarrow> None))"

definition sink_input_ok :: "gmap \<Rightarrow> sensitiveOutputLease \<Rightarrow> bool" where
  "sink_input_ok rendered lease \<longleftrightarrow>
     workflowStringAtPath rendered (path_segments (lease_input lease)) = Some (lease_value lease) \<and>
     countWorkflowStringValue (GMap rendered) (lease_value lease) = 1 \<and>
     workflowStringAtPath rendered (path_segments sensitiveOutputSinkStrategyPath) = Some ''manual'' \<and>
     (case workflowStringAtPath rendered (path_segments sensitiveOutputSinkSecretIDPath) of
        None \<Rightarrow> False
      | Some i \<Rightarrow> i \<noteq> [] \<and> i = TrimSpace i \<and> \<not> Contains i ''{{'' \<and> \<not> Contains i ''}}'')"

definition renderSensitiveOutputSinkInput ::
  "golib \<Rightarrow> WorkflowExecutionContext \<Rightarrow> WorkflowStepSpec \<Rightarrow> sensitiveOutputLease \<Rightarrow> gmap option" where
  "renderSensitiveOutputSinkInput L ctx step lease =
     (if \<not> lease_accepts lease step \<or> lease_value lease = [] then None
      else (case overlay_ctx ctx lease of
          None \<Rightarrow> None
        | Some overlay \<Rightarrow>
            (case renderWorkflowStepInput L overlay step of
               Inl e \<Rightarrow> None
             | Inr rendered \<Rightarrow> if sink_input_ok rendered lease then Some rendered else None)))"

definition clearSensitiveRenderedInput :: "gmap \<Rightarrow> string \<Rightarrow> gmap" where
  "clearSensitiveRenderedInput input v =
     (if v = [] then input
      else (case redactWorkflowSensitiveValue (GMap input) v of GMap m \<Rightarrow> m | _ \<Rightarrow> input))"

definition sensitiveOutputSinkReceipt :: gmap where
  "sensitiveOutputSinkReceipt =
     [(''integration_status'', GStr ''succeeded''), (''sensitive_input_persisted'', GBool True),
      (''sensitive_input_lease_version'', GStr ''v1'')]"

definition sensitiveOutputSinkStatusSucceeded :: "string \<Rightarrow> bool" where
  "sensitiveOutputSinkStatusSucceeded status \<longleftrightarrow> ToLower (TrimSpace status) \<in> {''created'', ''updated'', ''unchanged''}"

definition secureSensitiveOutputSinkResponse ::
  "WorkflowRunStepResult \<Rightarrow> string \<Rightarrow> WorkflowRunStepResult \<times> bool" where
  "secureSensitiveOutputSinkResponse result status =
     (if \<not> sensitiveOutputSinkStatusSucceeded status
      then (result\<lparr>res_status := ''failed'', res_error := errSensitiveOutputSink, res_metadata := []\<rparr>, False)
      else (result\<lparr>res_status := ''succeeded'', res_error := [], res_metadata := sensitiveOutputSinkReceipt\<rparr>, True))"

definition producerMetadata :: "sensitiveOutputPlan \<Rightarrow> gmap" where
  "producerMetadata plan =
     [(''supports_sensitive_output_paths'', GBool True),
      (''sensitive_output_sink'', GMap [(''version'', GStr ''v1''), (''mode'', GStr ''transient_next_step''),
         (''producer_step_id'', GStr (plan_producer plan)), (''step_id'', GStr (plan_sink plan)),
         (''family'', GStr sensitiveOutputSinkFamily), (''operation'', GStr sensitiveOutputSinkOperation),
         (''input_path'', GStr (plan_input plan)), (''source_output_paths'', GStrs [plan_source plan])])]"

definition sinkMetadata :: "sensitiveOutputLease \<Rightarrow> gmap" where
  "sinkMetadata lease =
     [(''sensitive_input_lease'', GMap [(''version'', GStr ''v1''), (''mode'', GStr ''transient_next_step''),
         (''source_step_id'', GStr (lease_producer lease)), (''input_paths'', GStrs [lease_input lease])])]"

definition validateReservedIntegrationMetadata :: "gmap \<Rightarrow> bool" where
  "validateReservedIntegrationMetadata metadata \<longleftrightarrow>
     \<not> list_ex (\<lambda>(key, v). ToLower (TrimSpace key) \<in>
         {''supports_sensitive_output_paths'', ''sensitive_output_sink'', ''sensitive_input_lease''}) metadata"

section \<open>Facts\<close>

lemma secure_cases:
  assumes "secureSensitiveProducerResult result plan = (safe, Some lease)"
  obtains p m metadata where "plan = Some p" "res_status result = ''succeeded''"
    "map_of (res_metadata result) ''output'' = Some (GMap m)"
    "map_of m (plan_source p) = Some (GStr (lease_value lease))" "lease_value lease \<noteq> []"
    "redactWorkflowSensitiveValue (GMap (res_metadata (redactSensitiveWorkflowStepResult result))) (lease_value lease)
       = GMap metadata"
    "safe = (redactSensitiveWorkflowStepResult result)\<lparr>res_metadata := metadata, res_error := []\<rparr>"
    "lease_sink lease = plan_sink p" "lease_producer lease = plan_producer p" "lease_source lease = plan_source p"
  using assms unfolding secureSensitiveProducerResult_def Let_def
  by (auto split: option.splits if_splits gval.splits simp del: redactWorkflowSensitiveValue.simps)

lemma redactSensitive_core:
  "res_id (redactSensitiveWorkflowStepResult r) = res_id r"
  "res_status (redactSensitiveWorkflowStepResult r) = res_status r"
  by (simp_all add: redactSensitiveWorkflowStepResult_def Let_def split: option.split)

lemma secure_lease_clear:
  assumes "secureSensitiveProducerResult result plan = (safe, Some lease)" and "redactable (lease_value lease)"
  shows "clear_of (lease_value lease) (GMap (res_metadata safe)) \<and> res_error safe = [] \<and>
    res_status safe = ''succeeded'' \<and> res_id safe = res_id result"
proof -
  obtain metadata where
    m: "redactWorkflowSensitiveValue (GMap (res_metadata (redactSensitiveWorkflowStepResult result))) (lease_value lease)
       = GMap metadata"
    and s: "safe = (redactSensitiveWorkflowStepResult result)\<lparr>res_metadata := metadata, res_error := []\<rparr>"
    and st: "res_status result = ''succeeded''"
    using assms(1) by (elim secure_cases)
  have "clear_of (lease_value lease) (GMap metadata)"
    using redact_clear(1) [OF assms(2)] m by metis
  then show ?thesis using s st by (simp add: redactSensitive_core)
qed

lemma secure_no_lease:
  assumes "secureSensitiveProducerResult result plan = (safe, None)"
  shows "safe \<in> {result, sensitiveOutputContractFailure result, sensitiveOutputProducerFailure result}"
    and "map_of (res_metadata result) ''sensitive_output_paths'' \<noteq> None \<Longrightarrow>
      safe \<in> {sensitiveOutputContractFailure result, sensitiveOutputProducerFailure result}"
  using assms unfolding secureSensitiveProducerResult_def Let_def
  by (auto split: option.splits if_splits gval.splits simp del: redactWorkflowSensitiveValue.simps)

lemma secure_id: "res_id (fst (secureSensitiveProducerResult result plan)) = res_id result"
proof (cases "secureSensitiveProducerResult result plan")
  case (Pair safe lease)
  show ?thesis
  proof (cases lease)
    case None
    with Pair secure_no_lease(1) [of result plan safe] show ?thesis
      by (auto simp: sensitiveOutputContractFailure_def sensitiveOutputProducerFailure_def)
  next
    case (Some l)
    with Pair have "secureSensitiveProducerResult result plan = (safe, Some l)" by simp
    then obtain metadata where "safe = (redactSensitiveWorkflowStepResult result)\<lparr>res_metadata := metadata, res_error := []\<rparr>"
      by (elim secure_cases)
    with Pair show ?thesis by (simp add: redactSensitive_core)
  qed
qed

lemma secure_failed_stays:
  assumes "res_status result = ''failed''"
  shows "res_status (fst (secureSensitiveProducerResult result plan)) = ''failed'' \<and>
    snd (secureSensitiveProducerResult result plan) = None"
  using assms unfolding secureSensitiveProducerResult_def Let_def
  by (auto simp: sensitiveOutputContractFailure_def sensitiveOutputProducerFailure_def split: option.splits)

section \<open>Properties\<close>

text \<open>C30: A leased secret leaves no trace in what is recorded: when the result of a producer yields a lease, no
  string and no key of the safe result's metadata contains the leased secret, and its error text is
  empty. The secret must have no square bracket and be no part of the replacement text.\<close>
theorem leased_secret_not_recorded:
  assumes "secureSensitiveProducerResult result plan = (safe, Some lease)" and "redactable (lease_value lease)"
  shows "clear_of (lease_value lease) (GMap (res_metadata safe)) \<and> res_error safe = []"
  using secure_lease_clear [OF assms] by blast

definition ex_plan :: sensitiveOutputPlan where
  "ex_plan = \<lparr>plan_producer = ''a'', plan_sink = ''b'', plan_source = ''token'', plan_input = sensitiveOutputSinkInputPath,
     plan_instance_id = ''i'', plan_instance_version = 1, plan_type_id = ''t'', plan_type_version = 1\<rparr>"

lemma ex_secure:
  "case secureSensitiveProducerResult ex_secret_result (Some ex_plan) of
     (safe, Some lease) \<Rightarrow> lease_value lease = ''s3cr3t'' \<and>
        map_of (res_metadata safe) ''output'' = Some (GMap [(''token'', GStr ''[REDACTED]''), (''note'', GStr ''use [REDACTED]'')])
   | (safe, None) \<Rightarrow> False"
  by code_simp

theorem leased_secret_not_recorded_witness:
  "clear_of ''s3cr3t'' (GMap (res_metadata (fst (secureSensitiveProducerResult ex_secret_result (Some ex_plan)))))"
proof -
  obtain safe lease where s: "secureSensitiveProducerResult ex_secret_result (Some ex_plan) = (safe, Some lease)"
    and v: "lease_value lease = ''s3cr3t''"
    using ex_secure by (auto split: prod.splits option.splits)
  have "redactable ''s3cr3t''" by code_simp
  with leased_secret_not_recorded [OF s] s v show ?thesis by simp
qed

text \<open>A secret that cannot be delivered is dropped: a result that declares sensitive paths and yields no
  lease is replaced by a failed result whose metadata is the same for every result an adapter could
  have sent, so nothing of the adapter's output is recorded.\<close>
theorem undeliverable_secret_dropped:
  assumes "secureSensitiveProducerResult result plan = (safe, None)"
    and "map_of (res_metadata result) ''sensitive_output_paths'' \<noteq> None"
  shows "res_status safe = ''failed'' \<and> res_error safe \<in> {errSensitiveOutputContract, errSensitiveOutputProducer} \<and>
    res_metadata safe \<in> {res_metadata (sensitiveOutputContractFailure other),
                         res_metadata (sensitiveOutputProducerFailure other)}"
  using secure_no_lease(2) [OF assms]
  by (elim insertE emptyE) (simp_all add: sensitiveOutputContractFailure_def sensitiveOutputProducerFailure_def)

lemma ex_unplanned: "secureSensitiveProducerResult ex_secret_result None = (sensitiveOutputContractFailure ex_secret_result, None)"
  "map_of (res_metadata ex_secret_result) ''sensitive_output_paths'' \<noteq> None"
  by code_simp+

theorem undeliverable_secret_dropped_witness:
  "res_status (sensitiveOutputContractFailure ex_secret_result) = ''failed''"
  using undeliverable_secret_dropped [OF ex_unplanned] by blast

text \<open>A lease is spent exactly once: an input rendered for the sink holds the secret at the leased path and
  nowhere else, it is rendered only for the step the lease names, and clearing the input after the
  call leaves no trace of the secret in it.\<close>
theorem lease_spent_once:
  assumes "renderSensitiveOutputSinkInput L ctx step lease = Some input"
  shows "normalizeWorkflowStepID (step_id step) = lease_sink lease \<and>
    workflowStringAtPath input (path_segments (lease_input lease)) = Some (lease_value lease) \<and>
    countWorkflowStringValue (GMap input) (lease_value lease) = 1 \<and>
    (redactable (lease_value lease) \<longrightarrow>
       clear_of (lease_value lease) (GMap (clearSensitiveRenderedInput input (lease_value lease))))"
proof -
  have a: "lease_accepts lease step" "lease_value lease \<noteq> []" "sink_input_ok input lease"
    using assms by (auto simp: renderSensitiveOutputSinkInput_def split: if_splits option.splits sum.splits)
  have "redactable (lease_value lease) \<Longrightarrow>
      clear_of (lease_value lease) (GMap (clearSensitiveRenderedInput input (lease_value lease)))"
    using redact_clear(1) [of "lease_value lease" "GMap input"] a(2) by (simp add: clearSensitiveRenderedInput_def)
  with a show ?thesis by (simp add: lease_accepts_def sink_input_ok_def)
qed

definition ex_lease :: sensitiveOutputLease where
  "ex_lease = \<lparr>lease_producer = ''a'', lease_sink = ''b'', lease_source = ''token'', lease_input = sensitiveOutputSinkInputPath,
     lease_instance_id = ''i'', lease_instance_version = 1, lease_type_id = ''t'', lease_type_version = 1,
     lease_value = ''s3cr3t''\<rparr>"

definition ex_sink :: WorkflowStepSpec where
  "ex_sink = zero_step\<lparr>step_id := ''B'', step_use := (step_use zero_step)\<lparr>use_kind := ''integration'', use_operation := ''ensure_secret''\<rparr>,
     step_with := [(''secret'', GMap [(''secret_id'', GStr ''db''),
        (''generation'', GMap [(''strategy'', GStr ''manual''),
           (''manual'', GMap [(''value'', GStr ''{{ steps.a.metadata.output.token }}'')])])])]\<rparr>"

definition ex_sink_ctx :: WorkflowExecutionContext where
  "ex_sink_ctx = ex_ctx\<lparr>ctx_steps := [(''a'', ex_secret_result\<lparr>res_metadata := [(''output'', GMap [(''token'', GStr ''[REDACTED]'')])]\<rparr>)]\<rparr>"

lemma ex_sink_input:
  "renderSensitiveOutputSinkInput ex_golib ex_sink_ctx ex_sink ex_lease =
     Some [(''secret'', GMap [(''secret_id'', GStr ''db''),
        (''generation'', GMap [(''strategy'', GStr ''manual''), (''manual'', GMap [(''value'', GStr ''s3cr3t'')])])])]"
  by code_simp

theorem lease_spent_once_witness:
  "countWorkflowStringValue (GMap [(''secret'', GMap [(''secret_id'', GStr ''db''),
        (''generation'', GMap [(''strategy'', GStr ''manual''), (''manual'', GMap [(''value'', GStr ''s3cr3t'')])])])])
     (lease_value ex_lease) = 1"
  using lease_spent_once [OF ex_sink_input] by blast

end
