(* ===== verification/Workflow_Engine.thy ===== *)
theory Workflow_Engine
  imports Workflow_Condition Workflow_Order Workflow_Assert Sensitive_Lease
begin

text \<open>
  The workflow engine, \<open>controllers/message/workflows.go\<close>: \<open>runWorkflow\<close>, \<open>runStepIterations\<close>,
  \<open>executeWorkflowStep\<close> and their helpers. The engine talks to a world of type \<open>'w\<close> (the manifest store,
  the adapters, the clock) through the operations of the record \<open>engine_env\<close>: resolution of integrations,
  one adapter call, waiting before a retry, and the in-process handlers of steps that read or write the
  store. A result of type \<open>option\<close> is \<^term>\<open>None\<close> when the Go code panics. The time stamps of results are
  left out.
\<close>

section \<open>Data\<close>

record ExecuteIntegrationRequest =
  xr_integration :: ManifestSelector
  xr_operation :: string
  xr_capability :: string
  xr_input :: gmap
  xr_auth :: gmap
  xr_metadata :: gmap

record ExecuteIntegrationResponse =
  xp_status :: string
  xp_output :: gval
  xp_metadata :: gmap

record integrationExecutionPolicy =
  ep_detail_free :: bool
  ep_safe_error :: string
  ep_allow_sensitive :: bool
  ep_require_explicit :: bool

record WorkflowDispatchSpec =
  ds_component :: string
  ds_repository :: string
  ds_workflow :: string
  ds_ref :: string
  ds_inputs :: gmap
  ds_metadata :: gmap

record DispatchWorkflowRequest =
  dr_runner :: ManifestSelector
  dr_operation :: string
  dr_capability :: string
  dr_workflow :: WorkflowDispatchSpec
  dr_token :: string

record RunWorkflowRequest =
  rq_workflow :: ManifestSelector
  rq_inputs :: gmap
  rq_token :: string
  rq_metadata :: gmap

record RunWorkflowResponse =
  rr_workflow :: ManifestReference
  rr_status :: string
  rr_steps :: "WorkflowRunStepResult list"
  rr_metadata :: gmap

record workflowStepExecutionSecurity =
  sec_plan :: "sensitiveOutputPlan option"
  sec_lease :: "sensitiveOutputLease option"

record 'w engine_env =
  env_lib :: golib
  env_resolve_instance :: "'w \<Rightarrow> ManifestSelector \<Rightarrow> 'w \<times> (string + resolved_integration)"
  env_resolve_family :: "'w \<Rightarrow> string \<Rightarrow> string \<Rightarrow> ManifestSelector option \<Rightarrow> 'w \<times> (string + resolved_integration)"
  env_resolve_sink :: "'w \<Rightarrow> WorkflowStepUseSpec \<Rightarrow> resolved_integration option"
  env_execute :: "'w \<Rightarrow> ExecuteIntegrationRequest \<Rightarrow> resolved_integration \<Rightarrow> int \<Rightarrow> integrationExecutionPolicy
                    \<Rightarrow> 'w \<times> (string + ExecuteIntegrationResponse)"
  env_sleep :: "'w \<Rightarrow> int \<Rightarrow> 'w \<times> string option"
  env_in_process :: "'w \<Rightarrow> WorkflowStepSpec \<Rightarrow> WorkflowRunStepResult \<Rightarrow> gmap \<Rightarrow> 'w \<times> WorkflowRunStepResult"

section \<open>Error texts\<close>

definition hex_digit :: "nat \<Rightarrow> char" where
  "hex_digit n = (if n < 10 then char_of (48 + n) else char_of (87 + n))"

definition quote_char :: "char \<Rightarrow> string" where
  "quote_char c =
     (let n = (of_char c :: nat) in
      if c = CHR 0x22 then [CHR 0x5C, CHR 0x22]
      else if c = CHR 0x5C then [CHR 0x5C, CHR 0x5C]
      else if c = CHR 0x0A then [CHR 0x5C, CHR ''n'']
      else if c = CHR 0x0D then [CHR 0x5C, CHR ''r'']
      else if c = CHR 0x09 then [CHR 0x5C, CHR ''t'']
      else if 32 \<le> n \<and> n < 127 then [c]
      else [CHR 0x5C, CHR ''x'', hex_digit (n div 16), hex_digit (n mod 16)])"

definition Quote :: "string \<Rightarrow> string" where
  "Quote s = CHR 0x22 # concat (map quote_char s) @ [CHR 0x22]"

fun render_error_text :: "render_error \<Rightarrow> string" where
  "render_error_text (TemplateUnresolved t) = ''workflow template '' @ Quote t @ '' could not be resolved''"
| "render_error_text (RenderMapKey k e) = ''render map key '' @ Quote k @ '': '' @ render_error_text e"

fun use_error_text :: "use_error \<Rightarrow> string" where
  "use_error_text (UseRender label e) = label @ '': '' @ render_error_text e"
| "use_error_text (UseShape label) = label @ '' rendered a non-object payload''"
| "use_error_text (InputRender e) = render_error_text e"
| "use_error_text (InputShape i) = ''workflow step '' @ Quote i @ '' rendered a non-object payload''"

fun condition_error_text :: "condition_render_error \<Rightarrow> string" where
  "condition_error_text (ConditionLeft e) = ''condition left side: '' @ render_error_text e"
| "condition_error_text (ConditionRight e) = ''condition right side: '' @ render_error_text e"
| "condition_error_text (ConditionValue e) = ''condition: '' @ render_error_text e"

section \<open>Helpers\<close>

definition mergeStringAnyMaps :: "gmap \<Rightarrow> gmap \<Rightarrow> gmap" where
  "mergeStringAnyMaps base extra = fold (\<lambda>(k, v) m. AList.update k v m) extra base"

definition workflowInputMap :: "gval option \<Rightarrow> gmap" where
  "workflowInputMap v = (case v of Some (GMap m) \<Rightarrow> m | _ \<Rightarrow> [])"

definition workflowInputString :: "golib \<Rightarrow> gval option \<Rightarrow> string" where
  "workflowInputString L v = (case v of None \<Rightarrow> [] | Some GNil \<Rightarrow> [] | Some x \<Rightarrow> TrimSpace (Sprint L x))"

definition workflowStepBackoff :: "WorkflowStepSpec \<Rightarrow> int" where
  "workflowStepBackoff step = (if retry_backoff (step_retry step) \<le> 0 then 0 else retry_backoff (step_retry step))"

definition defaultWorkflowStepTimeout :: int where
  "defaultWorkflowStepTimeout = 20"

definition workflowStepTimeout :: "WorkflowStepSpec \<Rightarrow> IntegrationTypeManifestSpec \<Rightarrow> int" where
  "workflowStepTimeout step typeSpec =
     (if 0 < step_timeout step then step_timeout step
      else if 0 < ad_timeout (it_adapter typeSpec) then ad_timeout (it_adapter typeSpec)
      else defaultWorkflowStepTimeout)"

definition sleepWithContext :: "'w engine_env \<Rightarrow> 'w \<Rightarrow> int \<Rightarrow> 'w \<times> string option" where
  "sleepWithContext env w d = (if d \<le> 0 then (w, None) else env_sleep env w d)"

definition workflowDispatchAuthToMap :: "string \<Rightarrow> gmap" where
  "workflowDispatchAuthToMap token =
     (if TrimSpace token = [] then [] else [(''token'', GStr (TrimSpace token))])"

definition normalizeDispatchExecutionStatus :: "string \<Rightarrow> string" where
  "normalizeDispatchExecutionStatus status =
     (if ToLower (TrimSpace status) \<in> {[], ''ok'', ''done'', ''completed'', ''success'', ''succeeded''}
      then ''dispatched'' else TrimSpace status)"

definition green_statuses :: "string list" where
  "green_statuses = [[], ''ok'', ''done'', ''completed'', ''dispatched'', ''succeeded'', ''success'',
     ''applied'', ''observed'', ''ensured'', ''created'', ''updated'', ''already_exists'', ''unchanged'',
     ''committed'', ''executed'', ''read'', ''described'', ''rotated'', ''not_found'', ''absent'', ''deleted'',
     ''simulated'', ''dry_run'', ''noop'', ''no_op'']"

definition normalizeWorkflowIntegrationStatus :: "string \<Rightarrow> string" where
  "normalizeWorkflowIntegrationStatus status =
     (if ToLower (TrimSpace status) \<in> set green_statuses then ''succeeded'' else ''failed'')"

definition workflowDispatchSpecProvided :: "WorkflowDispatchSpec \<Rightarrow> bool" where
  "workflowDispatchSpecProvided spec \<longleftrightarrow>
     TrimSpace (ds_repository spec) \<noteq> [] \<or> TrimSpace (ds_workflow spec) \<noteq> [] \<or> TrimSpace (ds_ref spec) \<noteq> [] \<or>
     TrimSpace (ds_component spec) \<noteq> [] \<or> ds_inputs spec \<noteq> [] \<or> ds_metadata spec \<noteq> []"

definition workflowDispatchSpecFromOutput :: "golib \<Rightarrow> gval \<Rightarrow> WorkflowDispatchSpec" where
  "workflowDispatchSpecFromOutput L v =
     (let out = (case v of GMap m \<Rightarrow> m | _ \<Rightarrow> []) in
      \<lparr>ds_component = workflowInputString L (map_of out ''component_id''),
       ds_repository = workflowInputString L (map_of out ''repository''),
       ds_workflow = workflowInputString L (map_of out ''workflow''),
       ds_ref = workflowInputString L (map_of out ''ref''),
       ds_inputs = workflowInputMap (map_of out ''inputs''),
       ds_metadata = workflowInputMap (map_of out ''metadata'')\<rparr>)"

definition mergeWorkflowDispatchSpec :: "WorkflowDispatchSpec \<Rightarrow> WorkflowDispatchSpec \<Rightarrow> WorkflowDispatchSpec" where
  "mergeWorkflowDispatchSpec base override =
     \<lparr>ds_component = (if TrimSpace (ds_component override) \<noteq> [] then ds_component override else ds_component base),
      ds_repository = (if TrimSpace (ds_repository override) \<noteq> [] then ds_repository override else ds_repository base),
      ds_workflow = (if TrimSpace (ds_workflow override) \<noteq> [] then ds_workflow override else ds_workflow base),
      ds_ref = (if TrimSpace (ds_ref override) \<noteq> [] then ds_ref override else ds_ref base),
      ds_inputs = (if ds_inputs override \<noteq> [] then ds_inputs override else ds_inputs base),
      ds_metadata = (if ds_metadata override \<noteq> [] then ds_metadata override else ds_metadata base)\<rparr>"

definition normalizeWorkflowDispatchRequest :: "DispatchWorkflowRequest \<Rightarrow> DispatchWorkflowRequest" where
  "normalizeWorkflowDispatchRequest req =
     (let op = TrimSpace (dr_operation req);
          operation = (if op = [] then WorkflowDispatchOperation else op);
          cap = TrimSpace (dr_capability req);
          wf = dr_workflow req in
      req\<lparr>dr_operation := operation, dr_capability := (if cap = [] then operation else cap),
        dr_workflow := wf\<lparr>ds_repository := TrimSpace (ds_repository wf), ds_workflow := TrimSpace (ds_workflow wf),
           ds_ref := TrimSpace (ds_ref wf), ds_component := TrimSpace (ds_component wf)\<rparr>,
        dr_token := TrimSpace (dr_token req)\<rparr>)"

text \<open>Panics, with \<^term>\<open>None\<close>, on a step without \<open>instance_ref\<close>: the pointer is dereferenced.\<close>

definition buildWorkflowDispatchStepRequest ::
  "golib \<Rightarrow> ManifestReference \<Rightarrow> WorkflowStepSpec \<Rightarrow> gmap \<Rightarrow> RunWorkflowRequest \<Rightarrow> DispatchWorkflowRequest option" where
  "buildWorkflowDispatchStepRequest L wfRef step input req =
     (case use_instance_ref (step_use step) of
        None \<Rightarrow> None
      | Some runner \<Rightarrow>
          let metadata = AList.update ''workflow_step'' (GStr (normalizeWorkflowStepID (step_id step)))
                (AList.update ''workflow_manifest''
                  (GMap [(''namespace'', GStr (ref_namespace wfRef)), (''name'', GStr (ref_name wfRef)),
                         (''version'', GInt (ref_version wfRef))])
                  (mergeStringAnyMaps (rq_metadata req) (workflowInputMap (map_of input ''metadata'')))) in
          Some (normalizeWorkflowDispatchRequest
            \<lparr>dr_runner = runner, dr_operation = NormalizeWorkflowStepOperation step,
             dr_capability = NormalizeWorkflowStepCapability step,
             dr_workflow = \<lparr>ds_component = workflowInputString L (map_of input ''component_id''),
               ds_repository = workflowInputString L (map_of input ''repository''),
               ds_workflow = workflowInputString L (map_of input ''workflow''),
               ds_ref = workflowInputString L (map_of input ''ref''),
               ds_inputs = workflowInputMap (map_of input ''inputs''), ds_metadata = metadata\<rparr>,
             dr_token = rq_token req\<rparr>))"

definition no_policy :: integrationExecutionPolicy where
  "no_policy = \<lparr>ep_detail_free = False, ep_safe_error = [], ep_allow_sensitive = False, ep_require_explicit = False\<rparr>"

text \<open>Returns the status and the workflow of the dispatch response and the adapter's metadata.\<close>

definition dispatchWorkflowThroughIntegration ::
  "'w engine_env \<Rightarrow> 'w \<Rightarrow> DispatchWorkflowRequest \<Rightarrow> resolved_integration \<Rightarrow> int
     \<Rightarrow> 'w \<times> (string + (string \<times> WorkflowDispatchSpec \<times> gmap))" where
  "dispatchWorkflowThroughIntegration env w req r timeout =
     (let wf = dr_workflow req;
          request = \<lparr>xr_integration = \<lparr>sel_manifest_id = [], sel_namespace = [], sel_name = [], sel_version = None\<rparr>,
             xr_operation = dr_operation req, xr_capability = dr_capability req,
             xr_input = [(''component_id'', GStr (ds_component wf)), (''repository'', GStr (ds_repository wf)),
                (''workflow'', GStr (ds_workflow wf)), (''ref'', GStr (ds_ref wf)),
                (''inputs'', GMap (ds_inputs wf)), (''metadata'', GMap (ds_metadata wf))],
             xr_auth = workflowDispatchAuthToMap (dr_token req),
             xr_metadata = [(''source'', GStr ''workflow.dispatch'')]\<rparr>
      in case env_execute env w request r timeout no_policy of
           (w', Inl e) \<Rightarrow> (w', Inl e)
         | (w', Inr response) \<Rightarrow>
             let out = workflowDispatchSpecFromOutput (env_lib env) (xp_output response);
                 workflow = (if workflowDispatchSpecProvided out then mergeWorkflowDispatchSpec wf out else wf);
                 s = normalizeDispatchExecutionStatus (xp_status response);
                 status = (if s = [] then ''dispatched'' else s)
             in (w', Inr (status, workflow, xp_metadata response)))"

definition dispatch_struct :: "WorkflowDispatchSpec \<Rightarrow> gval" where
  "dispatch_struct d = GStruct [(''ComponentID'', GStr (ds_component d)), (''Repository'', GStr (ds_repository d)),
     (''Workflow'', GStr (ds_workflow d)), (''Ref'', GStr (ds_ref d)), (''Inputs'', GMap (ds_inputs d)),
     (''Metadata'', GMap (ds_metadata d))]"

definition reference_struct :: "ManifestReference \<Rightarrow> gval" where
  "reference_struct r = GStruct [(''ID'', GStr (ref_id r)), (''Kind'', GStr (ref_kind r)),
     (''Namespace'', GStr (ref_namespace r)), (''Name'', GStr (ref_name r)), (''Version'', GInt (ref_version r))]"

section \<open>In-process assertions\<close>

fun workflowAssertValueIsNonempty :: "gval \<Rightarrow> bool" where
  "workflowAssertValueIsNonempty (GStr s) = (s \<noteq> [])"
| "workflowAssertValueIsNonempty (GNumber s f) = (s \<noteq> [])"
| "workflowAssertValueIsNonempty (GList xs) = (xs \<noteq> [])"
| "workflowAssertValueIsNonempty (GStrs ss) = (ss \<noteq> [])"
| "workflowAssertValueIsNonempty (GMaps ms) = (ms \<noteq> [])"
| "workflowAssertValueIsNonempty (GMap m) = (m \<noteq> [])"
| "workflowAssertValueIsNonempty _ = False"

definition assert_error_text :: "assert_error \<Rightarrow> string" where
  "assert_error_text e =
     (case e of
        AssertUnsupportedFields \<Rightarrow> ''assert input contains unsupported fields''
      | AssertNotArray section \<Rightarrow> ''assert with.'' @ section @ '' must be an array''
      | AssertFields section i \<Rightarrow> ''assert '' @ section @ '' check '' @ Itoa (int i) @ '' must contain exactly '' @
          (if section = ''equal'' then ''name, actual, and expected'' else ''name and value'')
      | AssertName section i \<Rightarrow> ''assert '' @ section @ '' check '' @ Itoa (int i) @ '' requires a non-empty string name''
      | AssertDuplicated name \<Rightarrow> ''assert check name '' @ Quote name @ '' is duplicated''
      | AssertNoChecks \<Rightarrow> ''assert requires at least one equal or nonempty check'')"

definition handleWorkflowAssert :: "WorkflowRunStepResult \<Rightarrow> gmap \<Rightarrow> WorkflowRunStepResult" where
  "handleWorkflowAssert result0 input =
     (let result = result0\<lparr>res_metadata := []\<rparr> in
      case ParseWorkflowAssertInput input of
        Inl e \<Rightarrow> result\<lparr>res_error := assert_error_text e\<rparr>
      | Inr parsed \<Rightarrow>
          (case List.find (\<lambda>c. \<not> deepEqual (eq_actual c) (eq_expected c)) (assert_equal parsed) of
             Some c \<Rightarrow> result\<lparr>res_error := ''assert equal check '' @ Quote (eq_name c) @ '' failed''\<rparr>
           | None \<Rightarrow>
               (case List.find (\<lambda>c. \<not> workflowAssertValueIsNonempty (ne_value c)) (assert_nonempty parsed) of
                  Some c \<Rightarrow> result\<lparr>res_error := ''assert nonempty check '' @ Quote (ne_name c) @ '' failed''\<rparr>
                | None \<Rightarrow>
                    result\<lparr>res_status := ''succeeded'', res_error := [], res_metadata :=
                      [(''equal_count'', GInt (int (length (assert_equal parsed)))),
                       (''equal_names'', GStrs (map eq_name (assert_equal parsed))),
                       (''nonempty_count'', GInt (int (length (assert_nonempty parsed)))),
                       (''nonempty_names'', GStrs (map ne_name (assert_nonempty parsed))),
                       (''assertion_count'', GInt (int (length (assert_equal parsed) + length (assert_nonempty parsed))))]\<rparr>)))"

definition executeYggdrasilWorkflowStep ::
  "'w engine_env \<Rightarrow> 'w \<Rightarrow> WorkflowStepSpec \<Rightarrow> WorkflowRunStepResult \<Rightarrow> gmap \<Rightarrow> 'w \<times> WorkflowRunStepResult" where
  "executeYggdrasilWorkflowStep env w step result0 input =
     (let result = result0\<lparr>res_attempts := 1\<rparr>; operation = ToLower (TrimSpace (use_operation (step_use step))) in
      if operation = ''assert'' then (w, handleWorkflowAssert result input)
      else if operation \<in> {''apply_manifest'', ''control_plane.render'', ''collaborator.reconcile_provider_state'',
                           ''oidc_client.verify_bootstrap_file''}
      then env_in_process env w step result input
      else (w, result\<lparr>res_error := ''unsupported yggdrasil step operation '' @ Quote operation\<rparr>))"

section \<open>One step\<close>

definition step_result :: "WorkflowStepSpec \<Rightarrow> string \<Rightarrow> string \<Rightarrow> WorkflowRunStepResult" where
  "step_result step status err =
     \<lparr>res_id = normalizeWorkflowStepID (step_id step), res_kind = ToLower (TrimSpace (use_kind (step_use step))),
      res_operation = NormalizeWorkflowStepOperation step, res_capability = NormalizeWorkflowStepCapability step,
      res_status = status, res_attempts = 0, res_error = err, res_metadata = [], res_instance = None, res_type = None\<rparr>"

definition stop_with :: "WorkflowRunStepResult \<Rightarrow> string \<Rightarrow> WorkflowRunStepResult" where
  "stop_with result e = result\<lparr>res_error := e, res_attempts := 1\<rparr>"

text \<open>The text of an error, or the constant of the sink when a lease is active.\<close>

definition guarded_error :: "workflowStepExecutionSecurity \<Rightarrow> string \<Rightarrow> string" where
  "guarded_error sec e = (if sec_lease sec \<noteq> None then errSensitiveOutputSink else e)"

definition execution_policy :: "workflowStepExecutionSecurity \<Rightarrow> integrationExecutionPolicy" where
  "execution_policy sec =
     (case sec_lease sec of
        Some _ \<Rightarrow> \<lparr>ep_detail_free = True, ep_safe_error = errSensitiveOutputSink, ep_allow_sensitive = False, ep_require_explicit = True\<rparr>
      | None \<Rightarrow>
          (case sec_plan sec of
             Some _ \<Rightarrow> \<lparr>ep_detail_free = True, ep_safe_error = errSensitiveOutputProducer, ep_allow_sensitive = True, ep_require_explicit = False\<rparr>
           | None \<Rightarrow> no_policy))"

definition execute_request ::
  "ManifestReference \<Rightarrow> WorkflowStepUseSpec \<Rightarrow> resolved_integration \<Rightarrow> WorkflowRunStepResult \<Rightarrow> gmap
     \<Rightarrow> RunWorkflowRequest \<Rightarrow> workflowStepExecutionSecurity \<Rightarrow> ExecuteIntegrationRequest" where
  "execute_request wfRef use r result input req sec =
     (let metadata0 = [(''workflow'', reference_struct wfRef), (''step_id'', GStr (res_id result)), (''source'', GStr ''workflow.run'')];
          metadata1 = (case sec_plan sec of None \<Rightarrow> metadata0 | Some p \<Rightarrow> mergeStringAnyMaps metadata0 (producerMetadata p));
          metadata2 = (case sec_lease sec of None \<Rightarrow> metadata1 | Some l \<Rightarrow> mergeStringAnyMaps metadata1 (sinkMetadata l))
      in \<lparr>xr_integration = (case use_instance_ref use of
              Some sel \<Rightarrow> sel
            | None \<Rightarrow> \<lparr>sel_manifest_id = [], sel_namespace = ref_namespace (rs_instance r), sel_name = ref_name (rs_instance r), sel_version = None\<rparr>),
          xr_operation = res_operation result, xr_capability = res_capability result, xr_input = input,
          xr_auth = workflowDispatchAuthToMap (rq_token req), xr_metadata = metadata2\<rparr>)"

text \<open>One attempt: the new world, the new result and whether the step is finished.\<close>

definition attempt_once ::
  "'w engine_env \<Rightarrow> ManifestReference \<Rightarrow> WorkflowStepSpec \<Rightarrow> WorkflowStepUseSpec \<Rightarrow> resolved_integration \<Rightarrow> gmap
     \<Rightarrow> RunWorkflowRequest \<Rightarrow> workflowStepExecutionSecurity \<Rightarrow> 'w \<Rightarrow> WorkflowRunStepResult
     \<Rightarrow> ('w \<times> WorkflowRunStepResult \<times> bool) option" where
  "attempt_once env wfRef step use r input req sec w result =
     (let timeout = workflowStepTimeout step (rs_type_spec r) in
      if res_operation result = WorkflowDispatchOperation then
        (case buildWorkflowDispatchStepRequest (env_lib env) wfRef step input req of
           None \<Rightarrow> None
         | Some dispatchReq \<Rightarrow>
             (case dispatchWorkflowThroughIntegration env w dispatchReq r timeout of
                (w', Inl e) \<Rightarrow> Some (w', result\<lparr>res_error := e\<rparr>, False)
              | (w', Inr (status, workflow, metadata)) \<Rightarrow>
                  Some (w', result\<lparr>res_status := ''succeeded'', res_metadata := mergeStringAnyMaps metadata
                    [(''adapter_status'', GStr status), (''workflow'', dispatch_struct workflow)]\<rparr>, True)))
      else
        (case env_execute env w (execute_request wfRef use r result input req sec) r timeout (execution_policy sec) of
           (w', Inl e) \<Rightarrow> Some (w', result\<lparr>res_error := guarded_error sec e\<rparr>, False)
         | (w', Inr response) \<Rightarrow>
             (if sec_lease sec \<noteq> None then
                (case secureSensitiveOutputSinkResponse result (xp_status response) of
                   (result', succeeded) \<Rightarrow> Some (w', result', succeeded))
              else
                (let status = normalizeWorkflowIntegrationStatus (xp_status response);
                     result' = result\<lparr>res_status := status, res_metadata := mergeStringAnyMaps (xp_metadata response)
                        [(''integration_status'', GStr (xp_status response)), (''output'', xp_output response)]\<rparr>
                 in if status = ''succeeded'' then Some (w', result', True)
                    else Some (w', result'\<lparr>res_error := ''integration returned status '' @ Quote (xp_status response)\<rparr>, False)))))"

text \<open>The retry loop: \<open>left\<close> attempts remain, the next one has number \<open>attempt\<close>.\<close>

fun attempt_loop ::
  "'w engine_env \<Rightarrow> ManifestReference \<Rightarrow> WorkflowStepSpec \<Rightarrow> WorkflowStepUseSpec \<Rightarrow> resolved_integration \<Rightarrow> gmap
     \<Rightarrow> RunWorkflowRequest \<Rightarrow> workflowStepExecutionSecurity \<Rightarrow> nat \<Rightarrow> int \<Rightarrow> 'w \<Rightarrow> WorkflowRunStepResult
     \<Rightarrow> ('w \<times> WorkflowRunStepResult) option" where
  "attempt_loop env wfRef step use r input req sec 0 attempt w result = Some (w, result)"
| "attempt_loop env wfRef step use r input req sec (Suc left) attempt w result =
     (case attempt_once env wfRef step use r input req sec w (result\<lparr>res_attempts := attempt\<rparr>) of
        None \<Rightarrow> None
      | Some (w', result', finished) \<Rightarrow>
          if finished \<or> left = 0 then Some (w', result')
          else (case sleepWithContext env w' (workflowStepBackoff step) of
              (w'', Some e) \<Rightarrow> Some (w'', result'\<lparr>res_error := guarded_error sec e\<rparr>)
            | (w'', None) \<Rightarrow> attempt_loop env wfRef step use r input req sec left (attempt + 1) w'' result'))"

definition resolve_use ::
  "'w engine_env \<Rightarrow> 'w \<Rightarrow> WorkflowStepUseSpec \<Rightarrow> 'w \<times> (string + resolved_integration)" where
  "resolve_use env w use =
     (case use_instance_ref use of
        Some sel \<Rightarrow> env_resolve_instance env w sel
      | None \<Rightarrow> env_resolve_family env w (use_family use) (use_operation use) (use_provider_ref use))"

definition execute_integration_step ::
  "'w engine_env \<Rightarrow> 'w \<Rightarrow> ManifestReference \<Rightarrow> WorkflowStepSpec \<Rightarrow> WorkflowExecutionContext \<Rightarrow> RunWorkflowRequest
     \<Rightarrow> workflowStepExecutionSecurity \<Rightarrow> WorkflowRunStepResult \<Rightarrow> gmap \<Rightarrow> ('w \<times> WorkflowRunStepResult) option" where
  "execute_integration_step env w wfRef step ctx req sec result input =
     (case renderWorkflowStepUse (env_lib env) ctx (step_use step) of
        Inl e \<Rightarrow> Some (w, stop_with result (guarded_error sec (''render step use block: '' @ use_error_text e)))
      | Inr use \<Rightarrow>
          (case resolve_use env w use of
             (w', Inl e) \<Rightarrow> Some (w', stop_with result (guarded_error sec e))
           | (w', Inr r) \<Rightarrow>
               let result1 = result\<lparr>res_instance := Some (rs_instance r), res_type := Some (rs_type r)\<rparr> in
               if (case sec_lease sec of None \<Rightarrow> False
                   | Some l \<Rightarrow> \<not> isSensitiveOutputSinkType (rs_type_spec r) \<or> \<not> matchesResolvedSink l r)
               then Some (w', stop_with result1 errSensitiveOutputSink)
               else attempt_loop env wfRef step use r input req sec (nat (workflowStepAttempts step)) 1 w' result1))"

definition step_input ::
  "golib \<Rightarrow> WorkflowExecutionContext \<Rightarrow> WorkflowStepSpec \<Rightarrow> workflowStepExecutionSecurity \<Rightarrow> string + gmap" where
  "step_input L ctx step sec =
     (case sec_lease sec of
        Some l \<Rightarrow> (case renderSensitiveOutputSinkInput L ctx step l of None \<Rightarrow> Inl errSensitiveOutputSink | Some m \<Rightarrow> Inr m)
      | None \<Rightarrow> (case renderWorkflowStepInput L ctx step of Inl e \<Rightarrow> Inl (use_error_text e) | Inr m \<Rightarrow> Inr m))"

definition dispatch_step ::
  "'w engine_env \<Rightarrow> 'w \<Rightarrow> ManifestReference \<Rightarrow> WorkflowStepSpec \<Rightarrow> WorkflowExecutionContext \<Rightarrow> RunWorkflowRequest
     \<Rightarrow> workflowStepExecutionSecurity \<Rightarrow> WorkflowRunStepResult \<Rightarrow> ('w \<times> WorkflowRunStepResult) option" where
  "dispatch_step env w wfRef step ctx req sec result =
     (case step_input (env_lib env) ctx step sec of
        Inl e \<Rightarrow> Some (w, stop_with result e)
      | Inr input \<Rightarrow>
          if res_kind result = ''yggdrasil'' then
            (if HasPrefix (res_operation result) ''capacity.'' then Some (env_in_process env w step result input)
             else Some (executeYggdrasilWorkflowStep env w step result input))
          else if res_kind result = ''product'' then Some (env_in_process env w step result input)
          else execute_integration_step env w wfRef step ctx req sec result input)"

definition executeWorkflowStep ::
  "'w engine_env \<Rightarrow> 'w \<Rightarrow> ManifestReference \<Rightarrow> WorkflowStepSpec \<Rightarrow> WorkflowExecutionContext \<Rightarrow> RunWorkflowRequest
     \<Rightarrow> workflowStepExecutionSecurity \<Rightarrow> ('w \<times> WorkflowRunStepResult) option" where
  "executeWorkflowStep env w wfRef step ctx req sec =
     (let result = step_result step ''failed'' [] in
      if (case sec_lease sec of None \<Rightarrow> False | Some l \<Rightarrow> \<not> lease_accepts l step)
      then Some (w, stop_with result errSensitiveOutputSink)
      else if TrimSpace (step_condition step) = [] then dispatch_step env w wfRef step ctx req sec result
      else (case EvaluateWorkflowStepCondition (env_lib env) ctx (step_condition step) of
          Inl e \<Rightarrow> Some (w, stop_with result (condition_error_text e))
        | Inr run \<Rightarrow>
            if run then dispatch_step env w wfRef step ctx req sec result
            else Some (w, result\<lparr>res_status := ''skipped'', res_metadata :=
                   [(''skip_reason'', GStr ''condition''), (''condition'', GStr (step_condition step))]\<rparr>)))"

section \<open>Iterations\<close>

fun coerceToSlice :: "gval \<Rightarrow> gval list option" where
  "coerceToSlice GNil = Some []"
| "coerceToSlice (GList xs) = Some xs"
| "coerceToSlice (GStrs ss) = Some (map GStr ss)"
| "coerceToSlice _ = None"

definition no_security :: workflowStepExecutionSecurity where
  "no_security = \<lparr>sec_plan = None, sec_lease = None\<rparr>"

definition iteration_step :: "WorkflowStepSpec \<Rightarrow> nat \<Rightarrow> WorkflowStepSpec" where
  "iteration_step step idx =
     step\<lparr>step_id := normalizeWorkflowStepID (step_id step) @ ''['' @ Itoa (int idx) @ '']'', step_for_each := None\<rparr>"

definition iteration_ctx :: "WorkflowExecutionContext \<Rightarrow> string \<Rightarrow> nat \<Rightarrow> gval \<Rightarrow> WorkflowExecutionContext" where
  "iteration_ctx ctx asName idx item =
     ctx\<lparr>ctx_each := Some (AList.update ''index'' (GInt (int idx)) (AList.update asName item
       (case ctx_each ctx of None \<Rightarrow> [] | Some each \<Rightarrow> each)))\<rparr>"

fun iterate ::
  "'w engine_env \<Rightarrow> ManifestReference \<Rightarrow> WorkflowStepSpec \<Rightarrow> WorkflowExecutionContext \<Rightarrow> RunWorkflowRequest \<Rightarrow> string
     \<Rightarrow> nat \<Rightarrow> gval list \<Rightarrow> 'w \<Rightarrow> ('w \<times> WorkflowRunStepResult list \<times> string) option" where
  "iterate env wfRef step ctx req asName idx [] w = Some (w, [], [])"
| "iterate env wfRef step ctx req asName idx (item # items) w =
     (case executeWorkflowStep env w wfRef (iteration_step step idx) (iteration_ctx ctx asName idx item) req no_security of
        None \<Rightarrow> None
      | Some (w', result) \<Rightarrow>
          if res_status result = ''failed'' then Some (w', [result], res_id result)
          else (case iterate env wfRef step ctx req asName (Suc idx) items w' of
              None \<Rightarrow> None
            | Some (w'', results, failed) \<Rightarrow> Some (w'', result # results, failed)))"

definition go_type_name :: "gval \<Rightarrow> string" where
  "go_type_name v =
     (case v of GNil \<Rightarrow> ''<nil>'' | GBool _ \<Rightarrow> ''bool'' | GInt _ \<Rightarrow> ''int'' | GFloat _ \<Rightarrow> ''float64''
      | GNumber _ _ \<Rightarrow> ''json.Number'' | GStr _ \<Rightarrow> ''string'' | GList _ \<Rightarrow> ''[]interface {}''
      | GMap _ \<Rightarrow> ''map[string]interface {}'' | GMaps _ \<Rightarrow> ''[]map[string]interface {}'' | GStrs _ \<Rightarrow> ''[]string''
      | GStruct _ \<Rightarrow> ''struct'')"

definition runStepIterations ::
  "'w engine_env \<Rightarrow> 'w \<Rightarrow> ManifestReference \<Rightarrow> WorkflowStepSpec \<Rightarrow> WorkflowExecutionContext \<Rightarrow> RunWorkflowRequest
     \<Rightarrow> workflowStepExecutionSecurity \<Rightarrow> ('w \<times> WorkflowRunStepResult list \<times> string) option" where
  "runStepIterations env w wfRef step ctx req sec =
     (if (case sec_lease sec of None \<Rightarrow> False | Some l \<Rightarrow> \<not> lease_accepts l step) then
        map_option (\<lambda>(w', result). (w', [result], res_id result)) (executeWorkflowStep env w wfRef step ctx req sec)
      else case (case step_for_each step of None \<Rightarrow> None | Some f \<Rightarrow> if TrimSpace (fe_items f) = [] then None else Some f) of
        None \<Rightarrow>
          map_option (\<lambda>(w', result). (w', [result], if res_status result = ''failed'' then res_id result else []))
            (executeWorkflowStep env w wfRef step ctx req sec)
      | Some f \<Rightarrow>
          (let asName = (if TrimSpace (fe_as f) = [] then ''item'' else TrimSpace (fe_as f));
               baseID = normalizeWorkflowStepID (step_id step) in
           case RenderWorkflowInput (env_lib env) ctx (GStr (fe_items f)) of
             Inl e \<Rightarrow> Some (w, [step_result step ''failed'' (''for_each items: '' @ render_error_text e)], baseID)
           | Inr v \<Rightarrow>
               (case coerceToSlice v of
                  None \<Rightarrow> Some (w, [step_result step ''failed''
                     (''for_each items rendered to non-slice value: '' @ go_type_name v)], baseID)
                | Some items \<Rightarrow> iterate env wfRef step ctx req asName 0 items w)))"

section \<open>The run\<close>

definition skipWorkflowSteps :: "WorkflowStepSpec list \<Rightarrow> string \<Rightarrow> WorkflowRunStepResult list" where
  "skipWorkflowSteps steps failedStepID =
     map (\<lambda>step. step_result step ''skipped'' (''workflow aborted after step '' @ Quote failedStepID @ '' failed'')) steps"

text \<open>The loop over the raw results of one step: \<open>record_results\<close> secures each of them before it is recorded.\<close>

record engine_state =
  es_ctx :: WorkflowExecutionContext
  es_steps :: "WorkflowRunStepResult list"
  es_lease :: "sensitiveOutputLease option"
  es_failed :: string

definition record_result ::
  "sensitiveOutputPlan option \<Rightarrow> WorkflowRunStepResult \<Rightarrow> engine_state \<Rightarrow> engine_state" where
  "record_result plan raw st =
     (case secureSensitiveProducerResult raw plan of
        (safe, lease) \<Rightarrow>
          st\<lparr>es_ctx := (es_ctx st)\<lparr>ctx_steps := AList.update (res_id safe) safe (ctx_steps (es_ctx st))\<rparr>,
             es_steps := es_steps st @ [safe],
             es_lease := (case lease of None \<Rightarrow> es_lease st | Some l \<Rightarrow> Some l),
             es_failed := (if res_status safe = ''failed'' then res_id safe else es_failed st)\<rparr>)"

definition run_one ::
  "'w engine_env \<Rightarrow> ManifestReference \<Rightarrow> RunWorkflowRequest \<Rightarrow> WorkflowStepSpec list \<Rightarrow> nat \<Rightarrow> 'w \<Rightarrow> engine_state
     \<Rightarrow> ('w \<times> engine_state) option" where
  "run_one env wfRef req orderedSteps index w st =
     (let sec = \<lparr>sec_plan = (if es_lease st = None
                   then authorizeSensitiveOutputPlan (env_lib env) (env_resolve_sink env w) orderedSteps index (es_ctx st)
                   else None),
                 sec_lease = es_lease st\<rparr>
      in case runStepIterations env w wfRef (orderedSteps ! index) (es_ctx st) req sec of
           None \<Rightarrow> None
         | Some (w', results, failedID) \<Rightarrow>
             Some (w', fold (record_result (sec_plan sec)) results (st\<lparr>es_lease := None, es_failed := failedID\<rparr>)))"

fun run_loop ::
  "'w engine_env \<Rightarrow> ManifestReference \<Rightarrow> RunWorkflowRequest \<Rightarrow> WorkflowStepSpec list \<Rightarrow> nat \<Rightarrow> nat \<Rightarrow> 'w \<Rightarrow> engine_state
     \<Rightarrow> ('w \<times> engine_state) option" where
  "run_loop env wfRef req orderedSteps index 0 w st = Some (w, st)"
| "run_loop env wfRef req orderedSteps index (Suc left) w st =
     (case run_one env wfRef req orderedSteps index w st of
        None \<Rightarrow> None
      | Some (w', st') \<Rightarrow>
          if es_failed st' \<noteq> []
          then Some (w', st'\<lparr>es_steps := es_steps st' @ skipWorkflowSteps (drop (index + 1) orderedSteps) (es_failed st')\<rparr>)
          else run_loop env wfRef req orderedSteps (index + 1) left w' st')"

definition initial_state :: "ManifestReference \<Rightarrow> RunWorkflowRequest \<Rightarrow> engine_state" where
  "initial_state wfRef req =
     \<lparr>es_ctx = \<lparr>ctx_inputs = rq_inputs req, ctx_metadata = rq_metadata req, ctx_token = rq_token req,
                ctx_workflow = wfRef, ctx_steps = [], ctx_each = None\<rparr>,
      es_steps = [], es_lease = None, es_failed = []\<rparr>"

definition failWorkflowWithUnconsumedSensitiveOutput ::
  "RunWorkflowResponse \<Rightarrow> sensitiveOutputLease \<Rightarrow> RunWorkflowResponse" where
  "failWorkflowWithUnconsumedSensitiveOutput response lease =
     response\<lparr>rr_status := ''failed'',
       rr_metadata := AList.update ''error'' (GStr errSensitiveOutputContract)
         (AList.update ''failed_step'' (GStr (lease_producer lease)) (rr_metadata response))\<rparr>"

definition runWorkflow ::
  "'w engine_env \<Rightarrow> 'w \<Rightarrow> ManifestReference \<Rightarrow> WorkflowManifestSpec \<Rightarrow> RunWorkflowRequest
     \<Rightarrow> ('w \<times> (string + RunWorkflowResponse)) option" where
  "runWorkflow env w wfRef spec req =
     (case WorkflowExecutionOrder (wf_steps spec) of
        None \<Rightarrow> Some (w, Inl ''workflow steps contain a dependency cycle'')
      | Some orderedSteps \<Rightarrow>
          (case run_loop env wfRef req orderedSteps 0 (length orderedSteps) w (initial_state wfRef req) of
             None \<Rightarrow> None
           | Some (w', st) \<Rightarrow>
               let response = \<lparr>rr_workflow = wfRef, rr_status = ''succeeded'', rr_steps = es_steps st, rr_metadata = rq_metadata req\<rparr> in
               if es_failed st \<noteq> [] then
                 Some (w', Inr (response\<lparr>rr_status := ''failed'',
                   rr_metadata := AList.update ''failed_step'' (GStr (es_failed st)) (rq_metadata req)\<rparr>))
               else (case es_lease st of
                   Some lease \<Rightarrow> Some (w', Inr (failWorkflowWithUnconsumedSensitiveOutput response lease))
                 | None \<Rightarrow> Some (w', Inr response))))"

definition normalizeRunWorkflowRequest :: "RunWorkflowRequest \<Rightarrow> RunWorkflowRequest" where
  "normalizeRunWorkflowRequest req = req\<lparr>rq_token := TrimSpace (rq_token req)\<rparr>"

definition manifestSelectorProvided :: "ManifestSelector option \<Rightarrow> bool" where
  "manifestSelectorProvided sel =
     (case sel of
        None \<Rightarrow> False
      | Some s \<Rightarrow> TrimSpace (sel_manifest_id s) \<noteq> [] \<or> TrimSpace (sel_namespace s) \<noteq> [] \<or>
          TrimSpace (sel_name s) \<noteq> [] \<or> sel_version s \<noteq> None)"

definition validateRunWorkflowRequest :: "RunWorkflowRequest \<Rightarrow> bool" where
  "validateRunWorkflowRequest req = manifestSelectorProvided (Some (rq_workflow req))"

end
