(* ===== verification/Workflow_Spec.thy ===== *)
theory Workflow_Spec
  imports Workflow_Order Workflow_Assert
begin

text \<open>
  Validation of a workflow manifest: \<open>ValidateWorkflowSpec\<close>, \<open>validateWorkflowStep\<close>,
  \<open>validateWorkflowInputSchema\<close> and \<open>validateWorkflowTriggerDetails\<close> of \<open>manifest/workflow.go\<close>. The cron
  parser and the time zone database are fields of \<open>triggerlib\<close>; the regular expressions of schema
  properties go through the library argument of \<open>Go_Value\<close>.
\<close>

record triggerlib =
  CronParses :: "string \<Rightarrow> bool"
  ZoneLoads :: "string \<Rightarrow> bool"

datatype step_error =
    StepKindUnsupported string
  | IntegrationNoTarget
  | IntegrationBothTargets
  | StepSelector name_error
  | ProviderRefWithInstance
  | FamilyInvalid string
  | FamilyNoOperation
  | IntegrationNoOperation
  | CapabilityInvalid string
  | ProductNoOperation
  | ProductOperation string
  | ProductNoRef
  | ProductInstanceRef
  | YggNoOperation
  | YggOperation string
  | YggInstanceRef
  | YggFamily
  | YggProviderRef
  | YggRequires string
  | YggAssert assert_error
  | YggNoInput
  | NegativeTimeout
  | NegativeMaxAttempts
  | NegativeBackoff
  | StepWith name_error

datatype trigger_error =
    ScheduleRequired
  | CronRequired
  | CronInvalid string
  | TimezoneInvalid string
  | CatchupInvalid string
  | EventRequired
  | EventNoTypes
  | EventEmptyType
  | FilterNoPath nat
  | FilterOperator nat string
  | NegativeDebounce

datatype schema_error =
    SchemaRequiredEmpty
  | SchemaRequiredDuplicated string
  | SchemaPropertyName
  | SchemaPropertyType string string
  | SchemaMaxNegative string
  | SchemaMinExceedsMax string
  | SchemaPattern string string
  | SchemaRequiredUndeclared string

datatype workflow_error =
    TriggerModeUnsupported string
  | TriggerDetails trigger_error
  | DispatchModeUnsupported string
  | AuthorizationSelector name_error
  | InputSchema schema_error
  | DefaultsObject name_error
  | NoSteps
  | CapacityNeedsAuthorization
  | StepIdRequired
  | StepIdInvalid string
  | StepDuplicated string
  | StepInvalid string step_error
  | DependsOnList string name_error
  | DependsOnUnknown string string
  | DependsOnItself string
  | DependencyCycle

definition supportedWorkflowTriggerModes :: "string list" where
  "supportedWorkflowTriggerModes = [''manual'', ''event'', ''schedule'']"

definition supportedWorkflowDispatchModes :: "string list" where
  "supportedWorkflowDispatchModes = [''sync'', ''async'']"

definition supportedWorkflowStepKinds :: "string list" where
  "supportedWorkflowStepKinds = [''integration'', ''product'', ''yggdrasil'']"

definition supportedProductStepOperations :: "string list" where
  "supportedProductStepOperations =
     [''materialize'', ''installation.reconcile'', ''installation.apply'', ''installation.observe'',
      ''installation.uninstall'', ''installation_state.discover'']"

definition supportedYggdrasilStepOperations :: "string list" where
  "supportedYggdrasilStepOperations =
     [''apply_manifest'', ''assert'', ''control_plane.render'', ''collaborator.reconcile_provider_state'',
      ''oidc_client.verify_bootstrap_file'', ''capacity.assess'', ''capacity.observe'',
      ''capacity.adopt_executor_power'', ''capacity.grant_executor_power'', ''capacity.confirm_executor_power'',
      ''capacity.initialize_executor_activity'', ''capacity.record_executor_activity'',
      ''capacity.observe_executor_activity'', ''capacity.reserve_executor_stop'', ''capacity.prepare_executor_stop'',
      ''capacity.claim'', ''capacity.renew'', ''capacity.advance'', ''capacity.recover'', ''capacity.renew_recovery'',
      ''capacity.reconcile'', ''capacity.grant_mutation'', ''capacity.record_slot'', ''capacity.confirm_mutation'',
      ''capacity.grant_compensation'', ''capacity.confirm_compensation'', ''capacity.observe_vm_inventory'',
      ''capacity.observe_vm_node_membership'', ''capacity.observe_original_creation_canary'',
      ''capacity.observe_failed_vm_creation'', ''capacity.record_vm_inventory'', ''capacity.confirm_native_mutation'',
      ''capacity.observe_bound_assessment'', ''capacity.assess_bound'', ''capacity.execute_bound'',
      ''capacity.admit_bound'', ''capacity.provision_original_guest'', ''capacity.plan_original_guest'',
      ''capacity.complete_original_guest'', ''capacity.qualify_original_guest_echo'',
      ''capacity.qualify_original_guest_notify'', ''capacity.refresh_original_guest_notify'',
      ''capacity.retire_original_guest'', ''capacity.finish_original_guest_retirement'']"

section \<open>Steps\<close>

definition validateIntegrationStep :: "WorkflowStepSpec \<Rightarrow> step_error option" where
  "validateIntegrationStep step =
     (let use = step_use step; family = TrimSpace (use_family use) in
      e_then
       (case use_instance_ref use of
          None \<Rightarrow>
            if family = [] then Some IntegrationNoTarget
            else if \<not> integrationNamePattern family then Some (FamilyInvalid (use_family use))
            else if TrimSpace (use_operation use) = [] then Some FamilyNoOperation
            else (case use_provider_ref use of
                    None \<Rightarrow> None
                  | Some p \<Rightarrow> map_option StepSelector (validateManifestSelector ''workflow step provider_ref'' p))
        | Some ref \<Rightarrow>
            if family \<noteq> [] then Some IntegrationBothTargets
            else e_then (map_option StepSelector (validateManifestSelector ''workflow step instance_ref'' ref))
                   (guard_err (use_provider_ref use \<noteq> None) ProviderRefWithInstance))
       (if NormalizeWorkflowStepOperation step = [] then Some IntegrationNoOperation
        else let capability = NormalizeWorkflowStepCapability step in
        guard_err (capability \<noteq> [] \<and> \<not> integrationNamePattern capability)
          (CapabilityInvalid (use_capability use))))"

definition validateProductStep :: "WorkflowStepSpec \<Rightarrow> step_error option" where
  "validateProductStep step =
     (let use = step_use step; operation = ToLower (TrimSpace (use_operation use)) in
      if operation = [] then Some ProductNoOperation
      else if operation \<notin> set supportedProductStepOperations then Some (ProductOperation operation)
      else if map_of (step_with step) ''product_ref'' = None then Some ProductNoRef
      else if use_instance_ref use \<noteq> None then Some ProductInstanceRef
      else None)"

definition require_key :: "WorkflowStepSpec \<Rightarrow> string \<Rightarrow> step_error option" where
  "require_key step key = guard_err (map_of (step_with step) key = None) (YggRequires key)"

definition validateYggdrasilStep :: "WorkflowStepSpec \<Rightarrow> step_error option" where
  "validateYggdrasilStep step =
     (let use = step_use step; operation = ToLower (TrimSpace (use_operation use)) in
      if operation = [] then Some YggNoOperation
      else if operation \<notin> set supportedYggdrasilStepOperations then Some (YggOperation operation)
      else if use_instance_ref use \<noteq> None then Some YggInstanceRef
      else if TrimSpace (use_family use) \<noteq> [] then Some YggFamily
      else if use_provider_ref use \<noteq> None then Some YggProviderRef
      else if operation = ''apply_manifest'' then require_key step ''manifest''
      else if operation = ''assert'' then
        (case ParseWorkflowAssertInput (step_with step) of Inl e \<Rightarrow> Some (YggAssert e) | Inr _ \<Rightarrow> None)
      else if operation = ''control_plane.render'' then require_key step ''control_plane_ref''
      else if operation = ''collaborator.reconcile_provider_state'' then require_key step ''provider''
      else if operation = ''oidc_client.verify_bootstrap_file'' then guard_err (step_with step \<noteq> []) YggNoInput
      else None)"

definition validateWorkflowStep :: "WorkflowStepSpec \<Rightarrow> step_error option" where
  "validateWorkflowStep step =
     (let kind = ToLower (TrimSpace (use_kind (step_use step))) in
      if kind \<notin> set supportedWorkflowStepKinds then Some (StepKindUnsupported (use_kind (step_use step)))
      else e_then
        (if kind = ''integration'' then validateIntegrationStep step
         else if kind = ''product'' then validateProductStep step
         else validateYggdrasilStep step)
        (if step_timeout step < 0 then Some NegativeTimeout
         else if retry_max_attempts (step_retry step) < 0 then Some NegativeMaxAttempts
         else if retry_backoff (step_retry step) < 0 then Some NegativeBackoff
         else map_option StepWith (validateLooseObject ''workflow step with'' (step_with step))))"

section \<open>Input schema and trigger\<close>

definition validateSchemaProperty :: "golib \<Rightarrow> string \<times> IntegrationSchemaProperty \<Rightarrow> schema_error option" where
  "validateSchemaProperty L np =
     (case np of (name, property) \<Rightarrow>
        let type = ToLower (TrimSpace (prop_type property)) in
        if normalizeIntegrationName name = [] then Some SchemaPropertyName
        else if type \<notin> set supportedIntegrationSchemaTypes then Some (SchemaPropertyType name (prop_type property))
        else if type = ''string'' then
          (if (case prop_max_length property of Some n \<Rightarrow> n < 0 | None \<Rightarrow> False) then Some (SchemaMaxNegative name)
           else if (case (prop_min_length property, prop_max_length property) of
                      (Some a, Some b) \<Rightarrow> b < a | _ \<Rightarrow> False) then Some (SchemaMinExceedsMax name)
           else if prop_pattern property \<noteq> [] \<and> RegexpMatch L (prop_pattern property) [] = None
           then Some (SchemaPattern name (prop_pattern property))
           else None)
        else None)"

definition validateWorkflowInputSchema :: "golib \<Rightarrow> WorkflowInputSchemaSpec \<Rightarrow> schema_error option" where
  "validateWorkflowInputSchema L schema =
     e_then
      (check_distinct normalizeIntegrationName
        (\<lambda>f. guard_err (normalizeIntegrationName f = []) SchemaRequiredEmpty)
        SchemaRequiredDuplicated (\<lambda>f. None) [] (in_required schema))
      (e_then
        (first_err (validateSchemaProperty L) (in_properties schema))
        (if in_properties schema = [] then None
         else first_err (\<lambda>f. guard_err (map_of (in_properties schema) f = None) (SchemaRequiredUndeclared f))
                (map normalizeIntegrationName (in_required schema))))"

definition payloadFilterOperators :: "string list" where
  "payloadFilterOperators = [''eq'', ''neq'', ''in'', ''not_in'', ''contains'', ''matches'']"

definition validatePayloadFilter :: "nat \<times> WorkflowEventPayloadFilter \<Rightarrow> trigger_error option" where
  "validatePayloadFilter nf =
     (case nf of (i, f) \<Rightarrow>
        if TrimSpace (pf_path f) = [] then Some (FilterNoPath i)
        else guard_err (ToLower (TrimSpace (pf_operator f)) \<notin> set payloadFilterOperators)
               (FilterOperator i (pf_operator f)))"

definition validateScheduleTrigger :: "triggerlib \<Rightarrow> WorkflowTriggerSpec \<Rightarrow> trigger_error option" where
  "validateScheduleTrigger T trigger =
     (case trig_schedule trigger of
        None \<Rightarrow> Some ScheduleRequired
      | Some s \<Rightarrow>
          if TrimSpace (sched_cron s) = [] then Some CronRequired
          else if \<not> CronParses T (sched_cron s) then Some (CronInvalid (sched_cron s))
          else if TrimSpace (sched_timezone s) \<noteq> [] \<and> \<not> ZoneLoads T (TrimSpace (sched_timezone s))
          then Some (TimezoneInvalid (TrimSpace (sched_timezone s)))
          else guard_err (ToLower (TrimSpace (sched_catchup s)) \<notin> {[], ''skip'', ''catch_up''})
                 (CatchupInvalid (sched_catchup s)))"

definition validateEventTrigger :: "WorkflowTriggerSpec \<Rightarrow> trigger_error option" where
  "validateEventTrigger trigger =
     (case trig_event trigger of
        None \<Rightarrow> Some EventRequired
      | Some e \<Rightarrow>
          if ev_types e = [] then Some EventNoTypes
          else e_then (first_err (\<lambda>t. guard_err (TrimSpace t = []) EventEmptyType) (ev_types e))
              (e_then (first_err validatePayloadFilter (enumerate 0 (ev_filters e)))
                 (guard_err (ev_debounce e < 0) NegativeDebounce)))"

definition validateWorkflowTriggerDetails ::
  "triggerlib \<Rightarrow> string \<Rightarrow> WorkflowTriggerSpec \<Rightarrow> trigger_error option" where
  "validateWorkflowTriggerDetails T mode trigger =
     (if mode \<in> {[], ''manual''} then None
      else if mode = ''schedule'' then validateScheduleTrigger T trigger
      else if mode = ''event'' then validateEventTrigger trigger
      else None)"

section \<open>The manifest\<close>

definition triggerMode :: "WorkflowTriggerSpec \<Rightarrow> string" where
  "triggerMode trigger =
     (let mode = ToLower (TrimSpace (trig_mode trigger)) in if mode = [] then ''manual'' else mode)"

definition is_capacity_step :: "WorkflowStepSpec \<Rightarrow> bool" where
  "is_capacity_step step \<longleftrightarrow>
     EqualFold (TrimSpace (use_kind (step_use step))) ''yggdrasil'' \<and>
     HasPrefix (ToLower (TrimSpace (use_operation (step_use step)))) ''capacity.''"

definition validateStepName :: "WorkflowManifestSpec \<Rightarrow> WorkflowStepSpec \<Rightarrow> workflow_error option" where
  "validateStepName spec step =
     (if is_capacity_step step \<and> wf_authorization spec = None then Some CapacityNeedsAuthorization
      else if sid step = [] then Some StepIdRequired
      else if \<not> integrationNamePattern (sid step) then Some (StepIdInvalid (step_id step))
      else None)"

definition validateStepDependencies :: "string list \<Rightarrow> WorkflowStepSpec \<Rightarrow> workflow_error option" where
  "validateStepDependencies stepNames step =
     e_then (map_option (DependsOnList (sid step)) (validateNamedStringList ''workflow step depends_on'' (step_depends step)))
       (first_err (\<lambda>d. if d \<notin> set stepNames then Some (DependsOnUnknown (sid step) d)
                       else guard_err (d = sid step) (DependsOnItself (sid step))) (sdeps step))"

definition validateAuthorizationSelectors :: "WorkflowManifestSpec \<Rightarrow> workflow_error option" where
  "validateAuthorizationSelectors spec =
     (case wf_authorization spec of
        None \<Rightarrow> None
      | Some a \<Rightarrow>
          e_then (map_option AuthorizationSelector (validateManifestSelector ''workflow authorization rbac'' (wauth_rbac a)))
            (case wauth_policy a of
               None \<Rightarrow> None
             | Some p \<Rightarrow> map_option AuthorizationSelector (validateManifestSelector ''workflow authorization policy'' p)))"

definition ValidateWorkflowSpec :: "golib \<Rightarrow> triggerlib \<Rightarrow> WorkflowManifestSpec \<Rightarrow> workflow_error option" where
  "ValidateWorkflowSpec L T spec =
     (let mode = triggerMode (wf_trigger spec);
          dispatchMode = ToLower (TrimSpace (wf_dispatch_mode spec)) in
      if mode \<notin> set supportedWorkflowTriggerModes then Some (TriggerModeUnsupported (trig_mode (wf_trigger spec)))
      else e_then (map_option TriggerDetails (validateWorkflowTriggerDetails T mode (wf_trigger spec)))
      (if dispatchMode \<noteq> [] \<and> dispatchMode \<notin> set supportedWorkflowDispatchModes
       then Some (DispatchModeUnsupported (wf_dispatch_mode spec))
      else e_then (validateAuthorizationSelectors spec)
      (e_then (map_option InputSchema (validateWorkflowInputSchema L (wf_input_schema spec)))
      (e_then (map_option DefaultsObject (validateLooseObject ''workflow defaults'' (wf_defaults spec)))
      (if wf_steps spec = [] then Some NoSteps
      else e_then
        (check_distinct sid (validateStepName spec) StepDuplicated
           (\<lambda>s. map_option (StepInvalid (sid s)) (validateWorkflowStep s)) [] (wf_steps spec))
      (e_then (first_err (validateStepDependencies (map sid (wf_steps spec))) (wf_steps spec))
      (guard_err (WorkflowExecutionOrder (wf_steps spec) = None) DependencyCycle)))))))"

section \<open>Facts\<close>

lemma validateStepDependencies_None [validate_simps]:
  "validateStepDependencies names step = None \<longleftrightarrow>
     distinct (sdeps step) \<and> (\<forall>d\<in>set (step_depends step). valid_name d) \<and>
     set (sdeps step) \<subseteq> set names \<and> sid step \<notin> set (sdeps step)"
  by (force simp: validateStepDependencies_def validate_simps sdeps_def)

lemma validateStepName_None [validate_simps]:
  "validateStepName spec s = None \<longleftrightarrow>
     (is_capacity_step s \<longrightarrow> wf_authorization spec \<noteq> None) \<and> integrationNamePattern (sid s)"
  by (auto simp: validateStepName_def)

text \<open>What the validator establishes of the steps.\<close>

definition wf_workflow_steps :: "WorkflowManifestSpec \<Rightarrow> bool" where
  "wf_workflow_steps spec \<longleftrightarrow>
     wf_steps spec \<noteq> [] \<and> distinct (map sid (wf_steps spec)) \<and>
     (\<forall>s\<in>set (wf_steps spec). integrationNamePattern (sid s) \<and> validateWorkflowStep s = None \<and>
        distinct (sdeps s) \<and> (\<forall>d\<in>set (step_depends s). valid_name d) \<and>
        set (sdeps s) \<subseteq> set (map sid (wf_steps spec)) \<and>
        (is_capacity_step s \<longrightarrow> wf_authorization spec \<noteq> None)) \<and>
     acyclic (dep_rel (wf_steps spec))"

lemma acyclic_no_self:
  assumes "acyclic (dep_rel steps)" and "s \<in> set steps"
  shows "sid s \<notin> set (sdeps s)"
proof
  assume "sid s \<in> set (sdeps s)"
  then have "(sid s, sid s) \<in> dep_rel steps" using assms(2) by (auto simp: dep_rel_def)
  with assms(1) show False by (auto simp: acyclic_def)
qed

lemma wf_workflow_graph: "wf_workflow_steps spec \<Longrightarrow> wf_graph (wf_steps spec)"
  by (auto simp: wf_workflow_steps_def wf_graph_def)

lemma steps_checked:
  "wf_steps spec \<noteq> [] \<and>
   check_distinct sid (validateStepName spec) StepDuplicated
     (\<lambda>s. map_option (StepInvalid (sid s)) (validateWorkflowStep s)) [] (wf_steps spec) = None \<and>
   first_err (validateStepDependencies (map sid (wf_steps spec))) (wf_steps spec) = None \<and>
   WorkflowExecutionOrder (wf_steps spec) \<noteq> None \<longleftrightarrow> wf_workflow_steps spec"
  (is "?l \<longleftrightarrow> ?r")
proof
  assume l: ?l
  then have g: "wf_graph (wf_steps spec)" by (auto simp: wf_graph_def validate_simps)
  with l have "acyclic (dep_rel (wf_steps spec))"
    using WorkflowExecutionOrder_exists [OF g] by auto
  with l show ?r by (auto simp: wf_workflow_steps_def validate_simps)
next
  assume r: ?r
  then have "WorkflowExecutionOrder (wf_steps spec) \<noteq> None"
    using WorkflowExecutionOrder_exists [OF wf_workflow_graph [OF r]] by (auto simp: wf_workflow_steps_def)
  with r acyclic_no_self show ?l by (auto simp: wf_workflow_steps_def validate_simps)
qed

lemma ValidateWorkflowSpec_None:
  "ValidateWorkflowSpec L T spec = None \<longleftrightarrow>
     triggerMode (wf_trigger spec) \<in> set supportedWorkflowTriggerModes \<and>
     validateWorkflowTriggerDetails T (triggerMode (wf_trigger spec)) (wf_trigger spec) = None \<and>
     ToLower (TrimSpace (wf_dispatch_mode spec)) \<in> set ([] # supportedWorkflowDispatchModes) \<and>
     validateAuthorizationSelectors spec = None \<and>
     validateWorkflowInputSchema L (wf_input_schema spec) = None \<and>
     validateLooseObject ''workflow defaults'' (wf_defaults spec) = None \<and>
     wf_workflow_steps spec"
  unfolding steps_checked [symmetric]
  by (auto simp: ValidateWorkflowSpec_def Let_def e_then_None guard_err_None)

section \<open>Properties\<close>

text \<open>What a workflow that passes validation is: its step ids are well-formed and pairwise different, every
  step is valid for its kind, dependencies name existing steps without repetition, the dependency
  relation has no cycle, and a workflow with a capacity step is protected by an authorization block.\<close>
theorem workflow_validation_sound:
  assumes "ValidateWorkflowSpec L T spec = None"
  shows "wf_workflow_steps spec"
  using assms by (simp add: ValidateWorkflowSpec_None)

definition ex_triggerlib :: triggerlib where
  "ex_triggerlib = \<lparr>CronParses = (\<lambda>s. True), ZoneLoads = (\<lambda>s. True)\<rparr>"

definition ex_ygg_step :: "string \<Rightarrow> string list \<Rightarrow> WorkflowStepSpec" where
  "ex_ygg_step i ds = (ex_step i ds)\<lparr>step_use := (step_use zero_step)\<lparr>use_kind := ''Yggdrasil'', use_operation := ''apply_manifest''\<rparr>,
     step_with := [(''manifest'', GMap [])]\<rparr>"

definition ex_workflow :: WorkflowManifestSpec where
  "ex_workflow = \<lparr>wf_trigger = \<lparr>trig_mode = [], trig_enabled = None, trig_schedule = None, trig_event = None\<rparr>,
     wf_input_schema = \<lparr>in_required = [], in_properties = [], in_additional = None\<rparr>, wf_defaults = [],
     wf_dispatch_mode = [], wf_authorization = None,
     wf_steps = [ex_ygg_step ''second'' [''first''], ex_ygg_step ''first'' []]\<rparr>"

lemma ex_workflow_valid: "ValidateWorkflowSpec ex_golib ex_triggerlib ex_workflow = None"
  by code_simp

theorem workflow_validation_sound_witness: "wf_workflow_steps ex_workflow"
  by (rule workflow_validation_sound [OF ex_workflow_valid])

text \<open>A validated workflow can be scheduled: the engine gets an execution order, and it is a dependency-safe
  permutation of the steps.\<close>
theorem validated_workflow_has_order:
  assumes "ValidateWorkflowSpec L T spec = None"
  shows "\<exists>out. WorkflowExecutionOrder (wf_steps spec) = Some out \<and> distinct out \<and> set out = set (wf_steps spec)"
proof -
  have w: "wf_workflow_steps spec" using assms by (simp add: ValidateWorkflowSpec_None)
  then have g: "wf_graph (wf_steps spec)" by (rule wf_workflow_graph)
  with w obtain out where o: "WorkflowExecutionOrder (wf_steps spec) = Some out"
    using WorkflowExecutionOrder_exists [OF g] by (auto simp: wf_workflow_steps_def)
  with WorkflowExecutionOrder_Some [OF g o] show ?thesis by blast
qed

theorem validated_workflow_has_order_witness:
  "\<exists>out. WorkflowExecutionOrder (wf_steps ex_workflow) = Some out \<and> distinct out \<and> set out = set (wf_steps ex_workflow)"
  by (rule validated_workflow_has_order [OF ex_workflow_valid])

end
