(* ===== verification/Workflow_Run.thy ===== *)
theory Workflow_Run
  imports Workflow_Engine Workflow_Spec
begin

text \<open>
  Properties of a run of the engine: what the recorded results say about the outcome, that dependencies
  are recorded before a step runs, that a lease is presented to the one step it is meant for, and how
  often an adapter is called. The in-process handlers and the adapters are the environment; where a
  property relies on them, the reliance is the named predicate \<open>keeps_ids\<close> or \<open>call_counter\<close>.
\<close>

definition keeps_ids :: "'w engine_env \<Rightarrow> bool" where
  "keeps_ids env \<longleftrightarrow> (\<forall>w step r input. res_id (snd (env_in_process env w step r input)) = res_id r)"

section \<open>One step\<close>

lemma stop_with_simps [simp]:
  "res_id (stop_with r e) = res_id r" "res_status (stop_with r e) = res_status r" "res_attempts (stop_with r e) = 1"
  by (simp_all add: stop_with_def)

lemma step_result_simps [simp]:
  "res_id (step_result step s e) = normalizeWorkflowStepID (step_id step)"
  "res_status (step_result step s e) = s" "res_attempts (step_result step s e) = 0"
  by (simp_all add: step_result_def)

lemma handleWorkflowAssert_id [simp]:
  "res_id (handleWorkflowAssert r input) = res_id r" "res_attempts (handleWorkflowAssert r input) = res_attempts r"
  by (simp_all add: handleWorkflowAssert_def Let_def split: sum.split option.split)

lemma attempt_once_id:
  assumes "attempt_once env wfRef step use r input req sec w result = Some (w', result', finished)"
  shows "res_id result' = res_id result \<and> res_attempts result' = res_attempts result"
  using assms unfolding attempt_once_def Let_def secureSensitiveOutputSinkResponse_def
  by (auto split: if_splits option.splits prod.splits sum.splits)

lemma attempt_loop_id:
  "attempt_loop env wfRef step use r input req sec n a w result = Some (w', result') \<Longrightarrow>
   res_id result' = res_id result \<and> (0 < n \<longrightarrow> a \<le> res_attempts result' \<and> res_attempts result' < a + int n)"
proof (induction n arbitrary: a w result)
  case (Suc n)
  obtain w1 r1 f where o: "attempt_once env wfRef step use r input req sec w (result\<lparr>res_attempts := a\<rparr>) = Some (w1, r1, f)"
    using Suc.prems by (auto split: option.splits)
  have r1: "res_id r1 = res_id result" "res_attempts r1 = a" using attempt_once_id [OF o] by simp_all
  show ?case
  proof (cases "f \<or> n = 0")
    case True
    with Suc.prems o r1 show ?thesis by auto
  next
    case False
    obtain w2 e where s: "sleepWithContext env w1 (workflowStepBackoff step) = (w2, e)" by (cases "sleepWithContext env w1 (workflowStepBackoff step)")
    show ?thesis
    proof (cases e)
      case None
      with Suc.prems o False s have "attempt_loop env wfRef step use r input req sec n (a + 1) w2 r1 = Some (w', result')" by simp
      from Suc.IH [OF this] False r1 show ?thesis by auto
    next
      case (Some t)
      with Suc.prems o False s r1 show ?thesis by auto
    qed
  qed
qed simp

lemma executeWorkflowStep_id:
  assumes "keeps_ids env" and "executeWorkflowStep env w wfRef step ctx req sec = Some (w', r)"
  shows "res_id r = normalizeWorkflowStepID (step_id step)"
proof -
  have ip: "env_in_process env v s x i = (v', y) \<Longrightarrow> res_id y = res_id x" for v s x i v' y
    using assms(1) unfolding keeps_ids_def by (metis snd_conv)
  have int: "execute_integration_step env w wfRef step ctx req sec x i = Some (w', y) \<Longrightarrow> res_id y = res_id x" for x i y
    by (auto simp: execute_integration_step_def Let_def dest: attempt_loop_id
        split: sum.splits prod.splits if_splits)
  have d: "dispatch_step env w wfRef step ctx req sec x = Some (w', y) \<Longrightarrow> res_id y = res_id x" for x y
    by (auto simp: dispatch_step_def executeYggdrasilWorkflowStep_def Let_def dest!: ip int
        split: sum.splits if_splits)
  show ?thesis using assms(2)
    by (auto simp: executeWorkflowStep_def Let_def dest!: d split: if_splits sum.splits)
qed

lemma executeWorkflowStep_rejected:
  assumes "executeWorkflowStep env w wfRef step ctx req sec = Some (w', r)"
    and "sec_lease sec = Some l" and "\<not> lease_accepts l step"
  shows "res_status r = ''failed'' \<and> w' = w"
  using assms by (auto simp: executeWorkflowStep_def Let_def)

section \<open>The results of one step\<close>

definition fans_out :: "WorkflowStepSpec \<Rightarrow> bool" where
  "fans_out step = (case step_for_each step of None \<Rightarrow> False | Some f \<Rightarrow> TrimSpace (fe_items f) \<noteq> [])"

lemma runStepIterations_single:
  assumes "keeps_ids env" and "\<not> fans_out step"
    and "runStepIterations env w wfRef step ctx req sec = Some (w', results, failed)"
  shows "\<exists>r. results = [r] \<and> res_id r = normalizeWorkflowStepID (step_id step)"
  using assms executeWorkflowStep_id [OF assms(1)]
  by (fastforce simp: runStepIterations_def fans_out_def split: if_splits option.splits)

lemma iterate_failed:
  "iterate env wfRef step ctx req asName idx items w = Some (w', results, failed) \<Longrightarrow>
   (failed = [] \<or> (\<exists>r\<in>set results. res_status r = ''failed'' \<and> res_id r = failed)) \<and>
   ((\<exists>r\<in>set results. res_status r = ''failed'') \<longrightarrow> (\<exists>r\<in>set results. res_status r = ''failed'' \<and> res_id r = failed))"
proof (induction items arbitrary: idx w results)
  case (Cons item items)
  then show ?case by (fastforce split: option.splits if_splits prod.splits)
qed auto

lemma runStepIterations_failed:
  assumes "runStepIterations env w wfRef step ctx req sec = Some (w', results, failed)"
  shows "(failed \<noteq> [] \<longrightarrow> (\<exists>r\<in>set results. res_status r = ''failed'' \<and> res_id r = failed)) \<and>
    ((\<exists>r\<in>set results. res_status r = ''failed'') \<longrightarrow> (\<exists>r\<in>set results. res_status r = ''failed'' \<and> res_id r = failed))"
proof (cases "case sec_lease sec of None \<Rightarrow> False | Some l \<Rightarrow> \<not> lease_accepts l step")
  case True
  with assms obtain r where r: "executeWorkflowStep env w wfRef step ctx req sec = Some (w', r)"
    and e: "results = [r]" "failed = res_id r"
    by (auto simp: runStepIterations_def)
  from True executeWorkflowStep_rejected [OF r] have "res_status r = ''failed''" by (auto split: option.splits)
  with e show ?thesis by simp
next
  case False
  with assms show ?thesis
    unfolding runStepIterations_def Let_def
    by (auto dest!: iterate_failed split: option.splits if_splits sum.splits)
qed


lemma iteration_id_nonempty: "normalizeWorkflowStepID (step_id (iteration_step step idx)) \<noteq> []"
proof -
  have "\<not> is_space CHR '']''" by (simp add: is_space_def)
  then show ?thesis by (auto simp: normalizeWorkflowStepID_def iteration_step_def TrimSpace_eq_Nil)
qed

lemma iterate_ids:
  "keeps_ids env \<Longrightarrow> iterate env wfRef step ctx req asName idx items w = Some (w', results, failed) \<Longrightarrow>
   \<forall>r\<in>set results. res_id r \<noteq> []"
proof (induction items arbitrary: idx w results)
  case (Cons item items)
  from Cons.prems(2) obtain w1 r where
    r: "executeWorkflowStep env w wfRef (iteration_step step idx) (iteration_ctx ctx asName idx item) req no_security = Some (w1, r)"
    by (auto split: option.splits)
  have "res_id r \<noteq> []" using executeWorkflowStep_id [OF Cons.prems(1) r] iteration_id_nonempty by metis
  with Cons r show ?case by (force split: if_splits option.splits)
qed auto

lemma runStepIterations_ids:
  assumes "keeps_ids env" and "normalizeWorkflowStepID (step_id step) \<noteq> []"
    and "runStepIterations env w wfRef step ctx req sec = Some (w', results, failed)"
  shows "\<forall>r\<in>set results. res_id r \<noteq> []"
  using assms(2,3) executeWorkflowStep_id [OF assms(1)] iterate_ids [OF assms(1)]
  unfolding runStepIterations_def Let_def
  by (auto split: option.splits if_splits sum.splits)

text \<open>Results that belong to a step: one with its id, or, when it fans out, those of its first iterations in order, numbered from zero.\<close>

definition own_results :: "WorkflowStepSpec \<Rightarrow> WorkflowRunStepResult list \<Rightarrow> bool" where
  "own_results step rs \<longleftrightarrow>
     map res_id rs = [normalizeWorkflowStepID (step_id step)] \<or>
     fans_out step \<and>
     map res_id rs = map (\<lambda>k. normalizeWorkflowStepID (step_id step) @ ''['' @ Itoa (int k) @ '']'') [0..<length rs]"

lemma iteration_id:
  assumes "normalizeWorkflowStepID (step_id step) \<noteq> []"
  shows "normalizeWorkflowStepID (step_id (iteration_step step idx)) = normalizeWorkflowStepID (step_id step) @ ''['' @ Itoa (int idx) @ '']''"
proof -
  let ?i = "normalizeWorkflowStepID (step_id step)"
  have "?i = TrimSpace (ToLower (step_id step))" by (simp add: normalizeWorkflowStepID_def TrimSpace_ToLower)
  then have "trimmed ?i" by (simp only: TrimSpace_trimmed)
  then have t: "trimmed (?i @ ''['' @ Itoa (int idx) @ '']'')" using assms by (simp add: trimmed_def is_space_def)
  have "lower_char c = c" if "is_digit c" for c
  proof -
    have "of_char c \<le> (57 :: nat)" using that by (simp add: is_digit_def less_eq_char_def)
    then show ?thesis by (simp add: lower_char_def)
  qed
  moreover have "list_all is_digit (Itoa (int idx))" using nat_digits_val [of idx] by (simp add: Itoa_def)
  ultimately have "ToLower (Itoa (int idx)) = Itoa (int idx)" by (simp add: ToLower_def list_all_iff map_idI)
  moreover have "ToLower ?i = ?i" "ToLower ''['' = ''[''" "ToLower '']'' = '']''" by (simp_all add: normalizeWorkflowStepID_def) code_simp+
  ultimately have "ToLower (?i @ ''['' @ Itoa (int idx) @ '']'') = ?i @ ''['' @ Itoa (int idx) @ '']''" by (simp add: ToLower_def)
  then show ?thesis using TrimSpace_id [OF t] by (simp add: normalizeWorkflowStepID_def iteration_step_def)
qed

lemma iterate_own:
  "keeps_ids env \<Longrightarrow> normalizeWorkflowStepID (step_id step) \<noteq> [] \<Longrightarrow>
   iterate env wfRef step ctx req asName idx items w = Some (w', results, failed) \<Longrightarrow>
   map res_id results = map (\<lambda>k. normalizeWorkflowStepID (step_id step) @ ''['' @ Itoa (int k) @ '']'') [idx..<idx + length results]"
proof (induction items arbitrary: idx w results)
  case (Cons item items)
  from Cons.prems(3) obtain w1 r where
    r: "executeWorkflowStep env w wfRef (iteration_step step idx) (iteration_ctx ctx asName idx item) req no_security = Some (w1, r)"
    by (auto split: option.splits)
  have i: "res_id r = normalizeWorkflowStepID (step_id step) @ ''['' @ Itoa (int idx) @ '']''"
    using executeWorkflowStep_id [OF Cons.prems(1) r] iteration_id [OF Cons.prems(2)] by simp
  show ?case
  proof (cases "res_status r = ''failed''")
    case True
    then have "results = [r]" using Cons.prems(3) r by simp
    then show ?thesis using i by (simp add: upt_conv_Cons)
  next
    case False
    then obtain rest where "iterate env wfRef step ctx req asName (Suc idx) items w1 = Some (w', rest, failed)" "results = r # rest"
      using Cons.prems(3) r by (auto split: option.splits)
    with Cons.IH [OF Cons.prems(1,2), of "Suc idx" w1 rest] i show ?thesis by (simp add: upt_conv_Cons del: upt_Suc)
  qed
qed simp

lemma runStepIterations_own:
  assumes "keeps_ids env" and "normalizeWorkflowStepID (step_id step) \<noteq> []"
    and "runStepIterations env w wfRef step ctx req sec = Some (w', results, failed)"
  shows "own_results step results"
proof (cases "(case sec_lease sec of None \<Rightarrow> False | Some l \<Rightarrow> \<not> lease_accepts l step) \<or> \<not> fans_out step")
  case True
  then have "\<exists>r. results = [r] \<and> res_id r = normalizeWorkflowStepID (step_id step)"
    using runStepIterations_single [OF assms(1) _ assms(3)] assms(3) executeWorkflowStep_id [OF assms(1)]
    by (auto simp: runStepIterations_def)
  then show ?thesis by (auto simp: own_results_def)
next
  case False
  then obtain f where f: "step_for_each step = Some f" "TrimSpace (fe_items f) \<noteq> []" "fans_out step"
    by (auto simp: fans_out_def split: option.splits)
  with False assms(3) show ?thesis unfolding runStepIterations_def Let_def
    by (auto simp: own_results_def dest: iterate_own [OF assms(1,2)] split: sum.splits option.splits)
qed

section \<open>Recording\<close>

definition safe_result :: "sensitiveOutputPlan option \<Rightarrow> WorkflowRunStepResult \<Rightarrow> WorkflowRunStepResult" where
  "safe_result plan r = fst (secureSensitiveProducerResult r plan)"

lemma record_result_eq:
  "record_result plan r st =
     st\<lparr>es_ctx := (es_ctx st)\<lparr>ctx_steps := AList.update (res_id r) (safe_result plan r) (ctx_steps (es_ctx st))\<rparr>,
        es_steps := es_steps st @ [safe_result plan r],
        es_lease := (case snd (secureSensitiveProducerResult r plan) of None \<Rightarrow> es_lease st | Some l \<Rightarrow> Some l),
        es_failed := (if res_status (safe_result plan r) = ''failed'' then res_id r else es_failed st)\<rparr>"
  using secure_id [of r plan]
  by (cases "secureSensitiveProducerResult r plan") (simp add: record_result_def safe_result_def)

lemma record_results_steps: "es_steps (fold (record_result plan) rs st) = es_steps st @ map (safe_result plan) rs"
  by (induction rs arbitrary: st) (simp_all add: record_result_eq)

lemma record_results_ctx:
  "map_of (ctx_steps (es_ctx (fold (record_result plan) rs st))) =
     map_of (ctx_steps (es_ctx st)) ++ map_of (rev (map (\<lambda>r. (res_id r, safe_result plan r)) rs))"
  by (induction rs arbitrary: st) (simp_all add: record_result_eq update_conv' map_add_upd_left)

lemma record_results_failed:
  "(\<forall>r\<in>set rs. res_id r \<noteq> []) \<Longrightarrow>
   (if \<exists>r\<in>set rs. res_status (safe_result plan r) = ''failed''
    then \<exists>r\<in>set rs. res_status (safe_result plan r) = ''failed'' \<and> es_failed (fold (record_result plan) rs st) = res_id r
    else es_failed (fold (record_result plan) rs st) = es_failed st)"
proof (induction rs arbitrary: st)
  case (Cons r rs)
  then have ih: "if \<exists>r\<in>set rs. res_status (safe_result plan r) = ''failed''
    then \<exists>x\<in>set rs. res_status (safe_result plan x) = ''failed'' \<and>
      es_failed (fold (record_result plan) rs (record_result plan r st)) = res_id x
    else es_failed (fold (record_result plan) rs (record_result plan r st)) = es_failed (record_result plan r st)"
    by simp
  have "es_failed (record_result plan r st) = (if res_status (safe_result plan r) = ''failed'' then res_id r else es_failed st)"
    by (simp add: record_result_eq)
  with ih show ?case by (auto split: if_splits)
qed simp

lemma record_results_lease:
  "es_lease (fold (record_result plan) rs st) = Some l \<Longrightarrow>
   es_lease st = Some l \<or> (\<exists>r\<in>set rs. snd (secureSensitiveProducerResult r plan) = Some l)"
proof (induction rs arbitrary: st)
  case (Cons r rs)
  then have "es_lease (record_result plan r st) = Some l \<or> (\<exists>r\<in>set rs. snd (secureSensitiveProducerResult r plan) = Some l)"
    by simp
  then show ?case by (auto simp: record_result_eq split: option.splits)
qed simp

lemma plan_fields:
  assumes "authorizeSensitiveOutputPlan L resolveSink ordered index ctx = Some p"
  shows "index + 1 < length ordered \<and> eligible_pair (ordered ! index) (ordered ! (index + 1)) \<and>
    plan_producer p = normalizeWorkflowStepID (step_id (ordered ! index)) \<and>
    plan_sink p = normalizeWorkflowStepID (step_id (ordered ! (index + 1)))"
  using assms unfolding authorizeSensitiveOutputPlan_def deriveSensitiveOutputPlan_def Let_def
  by (auto split: option.splits if_splits sum.splits)

section \<open>Reachable states of a run\<close>

text \<open>The states in which the engine takes up step \<open>index\<close>: no step has failed so far.\<close>

inductive run_reach ::
  "'w engine_env \<Rightarrow> ManifestReference \<Rightarrow> RunWorkflowRequest \<Rightarrow> WorkflowStepSpec list \<Rightarrow> 'w \<Rightarrow> nat \<Rightarrow> 'w \<Rightarrow> engine_state \<Rightarrow> bool"
  for env wfRef req ordered w0 where
  reach_start: "run_reach env wfRef req ordered w0 0 w0 (initial_state wfRef req)"
| reach_step: "run_reach env wfRef req ordered w0 index w st \<Longrightarrow> index < length ordered \<Longrightarrow>
    run_one env wfRef req ordered index w st = Some (w', st') \<Longrightarrow> es_failed st' = [] \<Longrightarrow>
    run_reach env wfRef req ordered w0 (index + 1) w' st'"

definition named_steps :: "WorkflowStepSpec list \<Rightarrow> bool" where
  "named_steps steps \<longleftrightarrow> (\<forall>s\<in>set steps. normalizeWorkflowStepID (step_id s) \<noteq> [])"

text \<open>What one step does to the state, in terms of its raw results.\<close>

lemma run_one_cases:
  assumes "run_one env wfRef req ordered index w st = Some (w', st')"
  obtains results failed plan where
    "runStepIterations env w wfRef (ordered ! index) (es_ctx st) req \<lparr>sec_plan = plan, sec_lease = es_lease st\<rparr> = Some (w', results, failed)"
    "st' = fold (record_result plan) results (st\<lparr>es_lease := None, es_failed := failed\<rparr>)"
    "\<And>p. plan = Some p \<Longrightarrow> es_lease st = None \<and>
        authorizeSensitiveOutputPlan (env_lib env) (env_resolve_sink env w) ordered index (es_ctx st) = Some p"
  using assms unfolding run_one_def Let_def by (auto split: option.splits if_splits)

lemma run_one_failed:
  assumes "keeps_ids env" and "named_steps ordered" and "index < length ordered"
    and "run_one env wfRef req ordered index w st = Some (w', st')"
  shows "\<exists>new. es_steps st' = es_steps st @ new \<and> own_results (ordered ! index) new \<and>
    (if es_failed st' = [] then \<forall>r\<in>set new. res_status r \<noteq> ''failed''
     else \<exists>r\<in>set new. res_status r = ''failed'' \<and> res_id r = es_failed st')"
proof -
  obtain results failed plan where
    run: "runStepIterations env w wfRef (ordered ! index) (es_ctx st) req \<lparr>sec_plan = plan, sec_lease = es_lease st\<rparr> = Some (w', results, failed)"
    and st': "st' = fold (record_result plan) results (st\<lparr>es_lease := None, es_failed := failed\<rparr>)"
    by (rule run_one_cases [OF assms(4)]) blast
  have "normalizeWorkflowStepID (step_id (ordered ! index)) \<noteq> []" using assms(2,3) by (simp add: named_steps_def)
  from runStepIterations_ids [OF assms(1) this run] have ids: "\<forall>r\<in>set results. res_id r \<noteq> []" .
  have raw: "failed \<noteq> [] \<Longrightarrow> \<exists>r\<in>set results. res_status r = ''failed''"
    using runStepIterations_failed [OF run] by blast
  have stays: "res_status r = ''failed'' \<Longrightarrow> res_status (safe_result plan r) = ''failed''" for r
    using secure_failed_stays [of r plan] by (simp add: safe_result_def)
  have sid: "res_id (safe_result plan r) = res_id r" for r by (simp add: safe_result_def secure_id)
  have "normalizeWorkflowStepID (step_id (ordered ! index)) \<noteq> []" using assms(2,3) by (simp add: named_steps_def)
  from runStepIterations_own [OF assms(1) this run] have own: "own_results (ordered ! index) (map (safe_result plan) results)"
    by (simp add: own_results_def comp_def sid)
  show ?thesis
  proof (cases "\<exists>r\<in>set results. res_status (safe_result plan r) = ''failed''")
    case True
    with record_results_failed [OF ids, of plan "st\<lparr>es_lease := None, es_failed := failed\<rparr>"] obtain r where
      "r \<in> set results" "res_status (safe_result plan r) = ''failed''" "es_failed st' = res_id r"
      unfolding st' by auto
    with ids sid own show ?thesis unfolding st' record_results_steps by auto
  next
    case False
    with raw stays have f: "failed = []" by blast
    with False record_results_failed [OF ids, of plan "st\<lparr>es_lease := None, es_failed := failed\<rparr>"]
    have "es_failed st' = []" unfolding st' by auto
    with False own show ?thesis unfolding st' record_results_steps by auto
  qed
qed

lemma run_one_lease:
  assumes "run_one env wfRef req ordered index w st = Some (w', st')" and "es_lease st' = Some l"
  shows "index + 1 < length ordered \<and> lease_accepts l (ordered ! (index + 1)) \<and>
    lease_producer l = normalizeWorkflowStepID (step_id (ordered ! index))"
proof -
  obtain results failed plan where
    st': "st' = fold (record_result plan) results (st\<lparr>es_lease := None, es_failed := failed\<rparr>)"
    and auth: "\<And>p. plan = Some p \<Longrightarrow>
        authorizeSensitiveOutputPlan (env_lib env) (env_resolve_sink env w) ordered index (es_ctx st) = Some p"
    by (rule run_one_cases [OF assms(1)]) blast
  from record_results_lease [of plan results _ l] assms(2) obtain r where "snd (secureSensitiveProducerResult r plan) = Some l"
    unfolding st' by fastforce
  then obtain p where p: "plan = Some p" "lease_sink l = plan_sink p" "lease_producer l = plan_producer p"
    by (metis prod.collapse secure_cases)
  from plan_fields [OF auth [OF p(1)]] p(2,3) show ?thesis
    by (auto simp: lease_accepts_def eligible_pair_def)
qed

lemma reach_lease:
  assumes "run_reach env wfRef req ordered w0 index w st" and "es_lease st = Some l"
  shows "0 < index \<and> index < length ordered \<and> lease_accepts l (ordered ! index) \<and>
    lease_producer l = normalizeWorkflowStepID (step_id (ordered ! (index - 1)))"
  using assms
proof (cases rule: run_reach.cases)
  case reach_start
  with assms(2) show ?thesis by (simp add: initial_state_def)
next
  case (reach_step i w1 st1)
  with run_one_lease [OF reach_step(4) assms(2)] show ?thesis by simp
qed

lemma reach_steps:
  assumes "keeps_ids env" and "named_steps ordered" and "run_reach env wfRef req ordered w0 index w st"
  shows "index \<le> length ordered \<and> es_failed st = [] \<and> (\<forall>r\<in>set (es_steps st). res_status r \<noteq> ''failed'')"
  using assms(3)
proof induction
  case reach_start
  then show ?case by (simp add: initial_state_def)
next
  case (reach_step index w st w' st')
  with run_one_failed [OF assms(1,2) reach_step.hyps(2,3)] show ?case by auto
qed

lemma reach_blocks:
  assumes "keeps_ids env" and "named_steps ordered" and "run_reach env wfRef req ordered w0 index w st"
  shows "\<exists>blocks. list_all2 own_results (take index ordered) blocks \<and> es_steps st = concat blocks"
  using assms(3)
proof induction
  case reach_start
  then show ?case by (simp add: initial_state_def)
next
  case (reach_step index w st w' st')
  then obtain blocks where b: "list_all2 own_results (take index ordered) blocks" "es_steps st = concat blocks" by blast
  obtain new where n: "es_steps st' = es_steps st @ new" "own_results (ordered ! index) new"
    using run_one_failed [OF assms(1,2) reach_step.hyps(2,3)] by blast
  have "list_all2 own_results (take (index + 1) ordered) (blocks @ [new])"
    using b(1) n(2) reach_step.hyps(2) by (simp add: take_Suc_conv_app_nth list_all2_appendI)
  then show ?case using b(2) n(1) by (intro exI [of _ "blocks @ [new]"]) simp
qed

lemma run_one_ctx:
  assumes "keeps_ids env" and "run_one env wfRef req ordered index w st = Some (w', st')"
  shows "dom (map_of (ctx_steps (es_ctx st))) \<subseteq> dom (map_of (ctx_steps (es_ctx st'))) \<and>
    (\<not> fans_out (ordered ! index) \<longrightarrow> normalizeWorkflowStepID (step_id (ordered ! index)) \<in> dom (map_of (ctx_steps (es_ctx st')))) \<and>
    (\<forall>k r. map_of (ctx_steps (es_ctx st')) k = Some r \<longrightarrow>
       map_of (ctx_steps (es_ctx st)) k = Some r \<or> r \<in> set (es_steps st'))"
proof -
  obtain results failed plan where
    run: "runStepIterations env w wfRef (ordered ! index) (es_ctx st) req \<lparr>sec_plan = plan, sec_lease = es_lease st\<rparr> = Some (w', results, failed)"
    and st': "st' = fold (record_result plan) results (st\<lparr>es_lease := None, es_failed := failed\<rparr>)"
    by (rule run_one_cases [OF assms(2)]) blast
  have ctx: "map_of (ctx_steps (es_ctx st')) =
      map_of (ctx_steps (es_ctx st)) ++ map_of (rev (map (\<lambda>r. (res_id r, safe_result plan r)) results))"
    unfolding st' record_results_ctx by simp
  have "\<not> fans_out (ordered ! index) \<longrightarrow> normalizeWorkflowStepID (step_id (ordered ! index)) \<in> dom (map_of (ctx_steps (es_ctx st')))"
    using runStepIterations_single [OF assms(1) _ run] unfolding ctx by auto
  moreover have "map_of (ctx_steps (es_ctx st)) k = Some r \<or> r \<in> set (es_steps st')"
    if "map_of (ctx_steps (es_ctx st')) k = Some r" for k r
  proof -
    from that have "map_of (ctx_steps (es_ctx st)) k = Some r \<or> r \<in> safe_result plan ` set results"
      unfolding ctx by (auto simp: map_add_Some_iff dest!: map_of_SomeD)
    then show ?thesis unfolding st' record_results_steps by auto
  qed
  ultimately show ?thesis unfolding ctx by auto
qed

lemma reach_ctx:
  assumes "keeps_ids env" and "named_steps ordered" and "run_reach env wfRef req ordered w0 index w st"
  shows "(\<forall>j<index. \<not> fans_out (ordered ! j) \<longrightarrow>
       normalizeWorkflowStepID (step_id (ordered ! j)) \<in> dom (map_of (ctx_steps (es_ctx st)))) \<and>
    (\<forall>k r. map_of (ctx_steps (es_ctx st)) k = Some r \<longrightarrow> res_status r \<noteq> ''failed'')"
  using assms(3)
proof induction
  case reach_start
  then show ?case by (simp add: initial_state_def)
next
  case (reach_step index w st w' st')
  have next_st: "run_reach env wfRef req ordered w0 (index + 1) w' st'"
    using reach_step.hyps by (rule run_reach.reach_step)
  note c = run_one_ctx [OF assms(1) reach_step.hyps(3)]
  show ?case
  proof (intro conjI allI impI)
    fix j assume "j < index + 1" "\<not> fans_out (ordered ! j)"
    then consider "j = index" | "j < index" by linarith
    then show "normalizeWorkflowStepID (step_id (ordered ! j)) \<in> dom (map_of (ctx_steps (es_ctx st')))"
      using c reach_step.IH \<open>\<not> fans_out (ordered ! j)\<close> by cases blast+
  next
    fix k r assume "map_of (ctx_steps (es_ctx st')) k = Some r"
    then show "res_status r \<noteq> ''failed''"
      using c reach_step.IH reach_steps [OF assms(1,2) next_st] by blast
  qed
qed

text \<open>What the template context says of a step is the recorded result of that step.\<close>

lemma reach_ctx_own:
  assumes "run_reach env wfRef req ordered w0 index w st" and "map_of (ctx_steps (es_ctx st)) k = Some r"
  shows "r \<in> set (es_steps st) \<and> res_id r = k"
  using assms
proof (induction arbitrary: k r)
  case reach_start
  then show ?case by (simp add: initial_state_def)
next
  case (reach_step index w st w' st')
  obtain results failed plan where
    st': "st' = fold (record_result plan) results (st\<lparr>es_lease := None, es_failed := failed\<rparr>)"
    by (rule run_one_cases [OF reach_step.hyps(3)]) blast
  have "map_of (ctx_steps (es_ctx st)) k = Some r \<or> (\<exists>raw\<in>set results. r = safe_result plan raw \<and> k = res_id raw)"
    using reach_step.prems unfolding st' record_results_ctx by (auto simp: map_add_Some_iff dest!: map_of_SomeD)
  then show ?case using reach_step.IH unfolding st' record_results_steps by (auto simp: safe_result_def secure_id)
qed

text \<open>The loop of \<open>runWorkflow\<close> follows the reachable states and stops at the first failed step.\<close>

lemma run_loop_reach:
  assumes "run_loop env wfRef req ordered index left w st = Some (w', st')"
    and "run_reach env wfRef req ordered w0 index w st" and "index + left = length ordered"
  shows "run_reach env wfRef req ordered w0 (length ordered) w' st' \<or>
    (\<exists>k v s s1. run_reach env wfRef req ordered w0 k v s \<and> k < length ordered \<and>
       run_one env wfRef req ordered k v s = Some (w', s1) \<and> es_failed s1 \<noteq> [] \<and>
       st' = s1\<lparr>es_steps := es_steps s1 @ skipWorkflowSteps (drop (k + 1) ordered) (es_failed s1)\<rparr>)"
  using assms
proof (induction left arbitrary: index w st)
  case (Suc left)
  obtain w1 s1 where one: "run_one env wfRef req ordered index w st = Some (w1, s1)"
    using Suc.prems(1) by (auto split: option.splits)
  show ?case
  proof (cases "es_failed s1 = []")
    case True
    have "run_reach env wfRef req ordered w0 (index + 1) w1 s1"
      by (rule reach_step [OF Suc.prems(2) _ one True]) (use Suc.prems(3) in simp)
    with Suc.IH [of "index + 1" w1 s1] Suc.prems one True show ?thesis by simp
  next
    case False
    with Suc.prems(1) one have "w1 = w'" "st' = s1\<lparr>es_steps := es_steps s1 @ skipWorkflowSteps (drop (index + 1) ordered) (es_failed s1)\<rparr>"
      by simp_all
    moreover have "index < length ordered" using Suc.prems(3) by simp
    ultimately show ?thesis using Suc.prems(2) one False by blast
  qed
qed simp

lemma runWorkflow_cases:
  assumes "runWorkflow env w wfRef spec req = Some (w', Inr resp)"
    and "WorkflowExecutionOrder (wf_steps spec) = Some ordered"
  obtains st where "run_loop env wfRef req ordered 0 (length ordered) w (initial_state wfRef req) = Some (w', st)"
    "rr_steps resp = es_steps st"
    "es_failed st \<noteq> [] \<longrightarrow> rr_status resp = ''failed'' \<and>
       map_of (rr_metadata resp) ''failed_step'' = Some (GStr (es_failed st))"
    "es_failed st = [] \<and> es_lease st = None \<longrightarrow> rr_status resp = ''succeeded''"
proof -
  from assms obtain st where st: "run_loop env wfRef req ordered 0 (length ordered) w (initial_state wfRef req) = Some (w', st)"
    by (auto simp: runWorkflow_def Let_def split: option.splits if_splits)
  show thesis
  proof (rule that [OF st])
    show "rr_steps resp = es_steps st"
      using assms st by (auto simp: runWorkflow_def Let_def failWorkflowWithUnconsumedSensitiveOutput_def split: option.splits if_splits)
    show "es_failed st \<noteq> [] \<longrightarrow> rr_status resp = ''failed'' \<and>
       map_of (rr_metadata resp) ''failed_step'' = Some (GStr (es_failed st))"
      using assms st by (auto simp: runWorkflow_def Let_def update_conv')
    show "es_failed st = [] \<and> es_lease st = None \<longrightarrow> rr_status resp = ''succeeded''"
      using assms st by (auto simp: runWorkflow_def Let_def)
  qed
qed

section \<open>Panics and calls\<close>

definition dispatch_panics :: "WorkflowStepSpec \<Rightarrow> bool" where
  "dispatch_panics step \<longleftrightarrow>
     NormalizeWorkflowStepOperation step = WorkflowDispatchOperation \<and> use_instance_ref (step_use step) = None"

lemma attempt_once_operation:
  assumes "attempt_once env wfRef step use r input req sec w result = Some (w', result', finished)"
  shows "res_operation result' = res_operation result"
  using assms unfolding attempt_once_def Let_def secureSensitiveOutputSinkResponse_def
  by (auto split: if_splits option.splits prod.splits sum.splits)

lemma attempt_once_None:
  "attempt_once env wfRef step use r input req sec w result = None \<longleftrightarrow>
     res_operation result = WorkflowDispatchOperation \<and> use_instance_ref (step_use step) = None"
  unfolding attempt_once_def Let_def buildWorkflowDispatchStepRequest_def
  by (auto split: if_splits option.splits prod.splits sum.splits)

lemma attempt_loop_None:
  "attempt_loop env wfRef step use r input req sec n a w result = None \<longleftrightarrow>
     0 < n \<and> res_operation result = WorkflowDispatchOperation \<and> use_instance_ref (step_use step) = None"
proof (induction n arbitrary: a w result)
  case (Suc n)
  show ?case
  proof (cases "attempt_once env wfRef step use r input req sec w (result\<lparr>res_attempts := a\<rparr>)")
    case None
    then show ?thesis using attempt_once_None [of env wfRef step use r input req sec w "result\<lparr>res_attempts := a\<rparr>"] by simp
  next
    case (Some x)
    obtain w1 r1 f where x: "x = (w1, r1, f)" by (cases x)
    have n: "\<not> (res_operation result = WorkflowDispatchOperation \<and> use_instance_ref (step_use step) = None)"
      using Some attempt_once_None [of env wfRef step use r input req sec w "result\<lparr>res_attempts := a\<rparr>"] by simp
    have "res_operation r1 = res_operation result" using attempt_once_operation Some x by fastforce
    with Some x n show ?thesis by (auto simp: Suc.IH split: prod.splits option.splits)
  qed
qed simp

lemma attempts_positive: "0 < nat (workflowStepAttempts step)"
  by (simp add: workflowStepAttempts_def)

lemma executeWorkflowStep_None:
  assumes "executeWorkflowStep env w wfRef step ctx req sec = None"
  shows "dispatch_panics step"
proof -
  have "execute_integration_step env w wfRef step ctx req sec (step_result step ''failed'' []) input = None \<Longrightarrow> dispatch_panics step" for input
    by (simp add: execute_integration_step_def Let_def attempt_loop_None step_result_def dispatch_panics_def
        split: sum.splits prod.splits if_splits)
  then have "dispatch_step env w wfRef step ctx req sec (step_result step ''failed'' []) = None \<Longrightarrow> dispatch_panics step"
    by (auto simp: dispatch_step_def split: sum.splits if_splits)
  with assms show ?thesis by (auto simp: executeWorkflowStep_def Let_def split: sum.splits if_splits)
qed

lemma iterate_None: "iterate env wfRef step ctx req asName idx items w = None \<Longrightarrow> dispatch_panics step"
proof (induction items arbitrary: idx w)
  case (Cons item items)
  have "dispatch_panics (iteration_step step idx) = dispatch_panics step"
    by (simp add: dispatch_panics_def iteration_step_def NormalizeWorkflowStepOperation_def Let_def)
  with Cons executeWorkflowStep_None [of env w wfRef "iteration_step step idx" "iteration_ctx ctx asName idx item" req no_security]
  show ?case by (auto split: option.splits if_splits)
qed simp

lemma runStepIterations_None:
  assumes "runStepIterations env w wfRef step ctx req sec = None"
  shows "dispatch_panics step"
  using assms executeWorkflowStep_None [of env w wfRef step ctx req sec] iterate_None [of env wfRef step ctx req]
  unfolding runStepIterations_def Let_def
  by (auto split: option.splits sum.splits if_splits)

lemma run_loop_None:
  "run_loop env wfRef req ordered index left w st = None \<Longrightarrow> index + left = length ordered \<Longrightarrow>
   \<exists>s\<in>set ordered. dispatch_panics s"
proof (induction left arbitrary: index w st)
  case (Suc left)
  show ?case
  proof (cases "run_one env wfRef req ordered index w st")
    case None
    then have "dispatch_panics (ordered ! index)"
      using runStepIterations_None by (auto simp: run_one_def Let_def split: option.splits prod.splits)
    moreover have "ordered ! index \<in> set ordered" using Suc.prems(2) by simp
    ultimately show ?thesis by blast
  next
    case (Some x)
    obtain w1 s1 where "x = (w1, s1)" by (cases x)
    with Some Suc.prems Suc.IH [of "index + 1" w1 s1] show ?thesis by (simp split: if_splits)
  qed
qed simp

definition call_counter :: "'w engine_env \<Rightarrow> ('w \<Rightarrow> nat) \<Rightarrow> bool" where
  "call_counter env calls \<longleftrightarrow>
     (\<forall>w q r t p. calls (fst (env_execute env w q r t p)) = Suc (calls w)) \<and>
     (\<forall>w s. calls (fst (env_resolve_instance env w s)) = calls w) \<and>
     (\<forall>w f c p. calls (fst (env_resolve_family env w f c p)) = calls w) \<and>
     (\<forall>w d. calls (fst (env_sleep env w d)) = calls w)"

lemma attempt_once_calls:
  assumes "call_counter env calls"
    and "attempt_once env wfRef step use r input req sec w result = Some (w', result', finished)"
  shows "calls w' = Suc (calls w)"
proof -
  have "env_execute env v q x t p = (v', y) \<Longrightarrow> calls v' = Suc (calls v)" for v q x t p v' y
    using assms(1) unfolding call_counter_def by (metis fst_conv)
  with assms(2) show ?thesis
    unfolding attempt_once_def Let_def dispatchWorkflowThroughIntegration_def
    by (auto split: if_splits option.splits prod.splits sum.splits)
qed

lemma attempt_loop_calls:
  "call_counter env calls \<Longrightarrow>
   attempt_loop env wfRef step use r input req sec n a w result = Some (w', result') \<Longrightarrow> calls w' \<le> calls w + n"
proof (induction n arbitrary: a w result)
  case (Suc n)
  obtain w1 r1 f where o: "attempt_once env wfRef step use r input req sec w (result\<lparr>res_attempts := a\<rparr>) = Some (w1, r1, f)"
    using Suc.prems(2) by (auto split: option.splits)
  have c: "calls w1 = Suc (calls w)" by (rule attempt_once_calls [OF Suc.prems(1) o])
  have s: "calls (fst (sleepWithContext env w1 d)) = calls w1" for d
    using Suc.prems(1) by (simp add: sleepWithContext_def call_counter_def)
  show ?case
  proof (cases "f \<or> n = 0")
    case True
    with Suc.prems(2) o c show ?thesis by auto
  next
    case False
    obtain w2 e where w2: "sleepWithContext env w1 (workflowStepBackoff step) = (w2, e)"
      by (cases "sleepWithContext env w1 (workflowStepBackoff step)")
    with s [of "workflowStepBackoff step"] have c2: "calls w2 = calls w1" by simp
    show ?thesis using Suc.prems(2) Suc.IH [OF Suc.prems(1), of "a + 1" w2 r1] o False w2 c c2
      by (cases e) auto
  qed
qed simp

lemma execute_integration_step_calls:
  assumes "call_counter env calls"
    and "execute_integration_step env w wfRef step ctx req sec result input = Some (w', r)"
  shows "calls w' \<le> calls w + nat (workflowStepAttempts step)"
proof (cases "renderWorkflowStepUse (env_lib env) ctx (step_use step)")
  case (Inl e)
  with assms(2) show ?thesis by (simp add: execute_integration_step_def)
next
  case (Inr use)
  obtain w1 x where u: "resolve_use env w use = (w1, x)" by (cases "resolve_use env w use")
  have "calls (fst (resolve_use env w use)) = calls w"
    using assms(1) by (simp add: resolve_use_def call_counter_def split: option.split)
  with u have "calls w1 = calls w" by simp
  with assms(2) Inr u show ?thesis
    by (auto simp: execute_integration_step_def Let_def dest: attempt_loop_calls [OF assms(1)] split: sum.splits if_splits)
qed

section \<open>Properties\<close>

lemma named_stepsI:
  assumes "ValidateWorkflowSpec L T spec = None" and "WorkflowExecutionOrder (wf_steps spec) = Some ordered"
  shows "named_steps ordered" "wf_graph (wf_steps spec)"
proof -
  from assms(1) have w: "wf_workflow_steps spec" by (simp add: ValidateWorkflowSpec_None)
  then show g: "wf_graph (wf_steps spec)" by (rule wf_workflow_graph)
  have "set ordered = set (wf_steps spec)" using WorkflowExecutionOrder_Some [OF g assms(2)] by blast
  moreover have "integrationNamePattern (sid s) \<Longrightarrow> sid s \<noteq> []" for s by (auto simp: integrationNamePattern_def)
  ultimately show "named_steps ordered" using w
    unfolding named_steps_def wf_workflow_steps_def sid_def normalizeWorkflowStepID_def normalizeIntegrationName_def by auto
qed

text \<open>C3: The outcome of a run is what its results say. For a validated workflow, and in-process handlers that keep the id of
  the result they fill in, the recorded results are those of the steps in execution order: one for a step, or one for each of its first
  iterations when it fans out. Either the response is \<open>succeeded\<close>, every step has its results and none of them failed; or it is
  \<open>failed\<close>, no result of the steps before a certain step failed, that step has a failed result, which the
  metadata name as the failed step, and every step behind it has exactly one result, which says \<open>skipped\<close>.\<close>
theorem run_outcome:
  assumes "keeps_ids env" and "ValidateWorkflowSpec L T spec = None"
    and "WorkflowExecutionOrder (wf_steps spec) = Some ordered"
    and "runWorkflow env w wfRef spec req = Some (w', Inr resp)"
  shows "rr_status resp = ''succeeded'' \<and>
      (\<exists>blocks. list_all2 own_results ordered blocks \<and> rr_steps resp = concat blocks \<and> (\<forall>r\<in>set (concat blocks). res_status r \<noteq> ''failed'')) \<or>
    rr_status resp = ''failed'' \<and>
      (\<exists>ahead failing later blocks block skipped. ordered = ahead @ failing # later \<and> rr_steps resp = concat blocks @ block @ skipped \<and>
         list_all2 own_results ahead blocks \<and> (\<forall>r\<in>set (concat blocks). res_status r \<noteq> ''failed'') \<and>
         own_results failing block \<and>
         (\<exists>r\<in>set block. res_status r = ''failed'' \<and> map_of (rr_metadata resp) ''failed_step'' = Some (GStr (res_id r))) \<and>
         list_all2 (\<lambda>s r. res_id r = normalizeWorkflowStepID (step_id s) \<and> res_status r = ''skipped'') later skipped)"
proof -
  have n: "named_steps ordered" by (rule named_stepsI [OF assms(2,3)])
  obtain st where loop: "run_loop env wfRef req ordered 0 (length ordered) w (initial_state wfRef req) = Some (w', st)"
    and steps: "rr_steps resp = es_steps st"
    and failed: "es_failed st \<noteq> [] \<longrightarrow> rr_status resp = ''failed'' \<and>
       map_of (rr_metadata resp) ''failed_step'' = Some (GStr (es_failed st))"
    and ok: "es_failed st = [] \<and> es_lease st = None \<longrightarrow> rr_status resp = ''succeeded''"
    by (rule runWorkflow_cases [OF assms(4,3)])
  have "0 + length ordered = length ordered" by simp
  from run_loop_reach [OF loop reach_start this] show ?thesis
  proof (elim disjE exE conjE)
    assume r: "run_reach env wfRef req ordered w (length ordered) w' st"
    with reach_lease [OF r] have "es_lease st = None" by (cases "es_lease st") auto
    with reach_steps [OF assms(1) n r] reach_blocks [OF assms(1) n r] ok steps show ?thesis by auto
  next
    fix k v s s1
    assume k: "run_reach env wfRef req ordered w k v s" "k < length ordered" "run_one env wfRef req ordered k v s = Some (w', s1)" "es_failed s1 \<noteq> []"
      and st: "st = s1\<lparr>es_steps := es_steps s1 @ skipWorkflowSteps (drop (k + 1) ordered) (es_failed s1)\<rparr>"
    obtain blocks where b: "list_all2 own_results (take k ordered) blocks" "es_steps s = concat blocks"
      using reach_blocks [OF assms(1) n k(1)] by blast
    obtain block where f: "es_steps s1 = es_steps s @ block" "own_results (ordered ! k) block"
      "\<exists>r\<in>set block. res_status r = ''failed'' \<and> res_id r = es_failed s1"
      using run_one_failed [OF assms(1) n k(2,3)] k(4) by auto
    let ?skipped = "skipWorkflowSteps (drop (k + 1) ordered) (es_failed s1)"
    have sk: "list_all2 (\<lambda>s r. res_id r = normalizeWorkflowStepID (step_id s) \<and> res_status r = ''skipped'') (drop (k + 1) ordered) ?skipped"
      by (simp add: skipWorkflowSteps_def list_all2_conv_all_nth)
    have clean: "\<forall>r\<in>set (concat blocks). res_status r \<noteq> ''failed''" using reach_steps [OF assms(1) n k(1)] b(2) by simp
    have o: "ordered = take k ordered @ (ordered ! k) # drop (k + 1) ordered" using k(2) by (simp add: id_take_nth_drop)
    have m: "rr_status resp = ''failed''" "map_of (rr_metadata resp) ''failed_step'' = Some (GStr (es_failed s1))" using failed st k(4) by simp_all
    have all: "rr_steps resp = concat blocks @ block @ ?skipped" using steps st b(2) f(1) by simp
    have "\<exists>r\<in>set block. res_status r = ''failed'' \<and> map_of (rr_metadata resp) ''failed_step'' = Some (GStr (res_id r))" using f(3) m(2) by auto
    with o all b(1) clean f(2) sk m(1) show ?thesis by blast
  qed
qed

text \<open>C31: A lease meets the step it is meant for. Whenever the engine takes up a step with a lease, the lease was
  granted by the step just before it, and the step is the one the lease names, an unconditional
  \<open>ensure_secret\<close> step; so no lease outlives a run and no other step sees the secret.\<close>
theorem lease_meets_its_sink:
  assumes "run_reach env wfRef req ordered w0 index w st" and "es_lease st = Some l"
  shows "0 < index \<and> index < length ordered \<and> lease_accepts l (ordered ! index) \<and>
    lease_producer l = normalizeWorkflowStepID (step_id (ordered ! (index - 1)))"
  using assms by (rule reach_lease)

text \<open>C22: A step runs after what it depends on. When the engine takes up a step of a validated workflow, and in-process handlers
  keep the id of the result they fill in, every dependency that does not fan out has a result in the template context, which is
  the recorded result of that very dependency and is no failure.\<close>
theorem dependencies_recorded:
  assumes "keeps_ids env" and "ValidateWorkflowSpec L T spec = None"
    and "WorkflowExecutionOrder (wf_steps spec) = Some ordered"
    and "run_reach env wfRef req ordered w0 index w st" and "index < length ordered"
    and "d \<in> set (sdeps (ordered ! index))"
    and "\<forall>s\<in>set (wf_steps spec). sid s = d \<longrightarrow> \<not> fans_out s"
  shows "\<exists>r. map_of (ctx_steps (es_ctx st)) d = Some r \<and> r \<in> set (es_steps st) \<and> res_id r = d \<and> res_status r \<noteq> ''failed''"
proof -
  note n = named_stepsI [OF assms(2,3)]
  have o: "set ordered = set (wf_steps spec)" using WorkflowExecutionOrder_Some [OF n(2) assms(3)] by blast
  obtain j where j: "j < index" "sid (ordered ! j) = d"
    using WorkflowExecutionOrder_deps [OF n(2) assms(3,5,6)] by blast
  have "ordered ! j \<in> set ordered" using j(1) assms(5) by simp
  with o assms(7) j(2) have "\<not> fans_out (ordered ! j)" by blast
  with reach_ctx [OF assms(1) n(1) assms(4)] j obtain r where "map_of (ctx_steps (es_ctx st)) d = Some r" "res_status r \<noteq> ''failed''"
    by (force simp: sid_def normalizeWorkflowStepID_def normalizeIntegrationName_def)
  with reach_ctx_own [OF assms(4)] show ?thesis by blast
qed

text \<open>Retries are bounded. An integration step makes at most as many adapter calls as its retry policy allows
  (one without a policy), counted in the world by any counter that every adapter call, and no resolution
  or wait, advances; and a step that gets a lease it cannot accept makes none.\<close>
theorem adapter_calls_bounded:
  assumes "call_counter env calls" and "ToLower (TrimSpace (use_kind (step_use step))) = ''integration''"
    and "executeWorkflowStep env w wfRef step ctx req sec = Some (w', r)"
  shows "calls w' \<le> calls w + nat (workflowStepAttempts step) \<and>
    ((\<exists>l. sec_lease sec = Some l \<and> \<not> lease_accepts l step) \<longrightarrow> calls w' = calls w)"
proof -
  have k: "res_kind (step_result step s e) = ''integration''" for s e using assms(2) by (simp add: step_result_def)
  have "dispatch_step env w wfRef step ctx req sec (step_result step ''failed'' []) = Some (w', y) \<Longrightarrow>
      calls w' \<le> calls w + nat (workflowStepAttempts step)" for y
    by (auto simp: dispatch_step_def k dest: execute_integration_step_calls [OF assms(1)] split: sum.splits)
  then have "calls w' \<le> calls w + nat (workflowStepAttempts step)"
    using assms(3) by (auto simp: executeWorkflowStep_def Let_def split: if_splits sum.splits)
  with executeWorkflowStep_rejected [OF assms(3)] show ?thesis by blast
qed

text \<open>C37: A run of a validated workflow completes: unless a step asks for \<open>dispatch_workflow\<close> without an
  \<open>instance_ref\<close>, the engine returns a response for every behaviour of the adapters and the store, neither
  panicking nor reporting a cycle.\<close>
theorem validated_workflow_run_completes:
  assumes "ValidateWorkflowSpec L T spec = None" and "\<forall>s\<in>set (wf_steps spec). \<not> dispatch_panics s"
  shows "\<exists>w' resp. runWorkflow env w wfRef spec req = Some (w', Inr resp)"
proof -
  have v: "wf_workflow_steps spec" using assms(1) by (simp add: ValidateWorkflowSpec_None)
  then have g: "wf_graph (wf_steps spec)" by (rule wf_workflow_graph)
  with v obtain ordered where o: "WorkflowExecutionOrder (wf_steps spec) = Some ordered"
    using WorkflowExecutionOrder_exists [OF g] by (auto simp: wf_workflow_steps_def)
  with assms(2) WorkflowExecutionOrder_Some [OF g o] have "\<forall>s\<in>set ordered. \<not> dispatch_panics s" by simp
  then obtain w' st where "run_loop env wfRef req ordered 0 (length ordered) w (initial_state wfRef req) = Some (w', st)"
    using run_loop_None [of env wfRef req ordered 0 "length ordered" w "initial_state wfRef req"] by fastforce
  with o show ?thesis by (simp add: runWorkflow_def Let_def split: option.split)
qed

text \<open>A \<open>dispatch_workflow\<close> step that is routed by family panics: once its input and its target resolve, the
  engine dereferences the missing \<open>instance_ref\<close> of the step.\<close>
theorem family_dispatch_panics:
  assumes "dispatch_panics step" and "ToLower (TrimSpace (use_kind (step_use step))) = ''integration''"
    and "TrimSpace (step_condition step) = []"
    and "renderWorkflowStepInput (env_lib env) ctx step = Inr input"
    and "renderWorkflowStepUse (env_lib env) ctx (step_use step) = Inr use"
    and "resolve_use env w use = (w1, Inr r)"
  shows "executeWorkflowStep env w wfRef step ctx req no_security = None"
proof -
  have "attempt_loop env wfRef step use r input req no_security (nat (workflowStepAttempts step)) 1 w1
     ((step_result step ''failed'' [])\<lparr>res_instance := Some (rs_instance r), res_type := Some (rs_type r)\<rparr>) = None"
    using assms(1) attempts_positive [of step] by (simp add: attempt_loop_None dispatch_panics_def step_result_def)
  with assms(2-6) show ?thesis
    by (simp add: executeWorkflowStep_def Let_def no_security_def dispatch_step_def step_input_def
        execute_integration_step_def step_result_def)
qed

text \<open>What an answer of an adapter counts for. An ordinary step succeeds exactly on the statuses of the green
  list, a sink that holds a lease exactly on \<open>created\<close>, \<open>updated\<close> and \<open>unchanged\<close>, and a
  \<open>dispatch_workflow\<close> step on every status the adapter may return.\<close>
theorem adapter_status_decides:
  assumes "attempt_once env wfRef step use r input req sec w result = Some (w', result', finished)"
    and "\<forall>v q x t p. \<exists>v'. env_execute env v q x t p = (v', Inr response)"
  shows "res_status result' = ''succeeded'' \<longleftrightarrow>
    (if res_operation result = WorkflowDispatchOperation then True
     else if sec_lease sec \<noteq> None then sensitiveOutputSinkStatusSucceeded (xp_status response)
     else ToLower (TrimSpace (xp_status response)) \<in> set green_statuses)"
proof -
  have e: "env_execute env v q x t p = (v', y) \<Longrightarrow> y = Inr response" for v q x t p v' y
    using assms(2) by (metis snd_conv)
  show ?thesis
    using assms(1) unfolding attempt_once_def Let_def dispatchWorkflowThroughIntegration_def
      secureSensitiveOutputSinkResponse_def normalizeWorkflowIntegrationStatus_def
    by (auto dest!: e split: if_splits option.splits prod.splits sum.splits)
qed

section \<open>A concrete run\<close>

definition ex_sink_selector :: ManifestSelector where
  "ex_sink_selector = \<lparr>sel_manifest_id = [], sel_namespace = [], sel_name = ''vault'', sel_version = None\<rparr>"

definition ex_target :: "string \<Rightarrow> resolved_integration" where
  "ex_target n = \<lparr>rs_instance = ex_reference\<lparr>ref_id := ''i'', ref_name := n\<rparr>, rs_type = ex_reference\<lparr>ref_id := ''t''\<rparr>,
     rs_type_spec = ex_type\<lparr>it_family_ref := Some (ex_sink_selector\<lparr>sel_name := ''secrets-management''\<rparr>),
       it_operations := [''ensure_secret'']\<rparr>\<rparr>"

text \<open>An environment whose world counts the adapter calls: \<open>issue_token\<close> returns a declared secret, every
  other operation the status it is asked for.\<close>

definition ex_answer :: "string \<Rightarrow> ExecuteIntegrationRequest \<Rightarrow> ExecuteIntegrationResponse" where
  "ex_answer status q =
     (if xr_operation q = ''issue_token''
      then \<lparr>xp_status = ''ok'', xp_output = GMap [(''token'', GStr ''s3cr3t'')],
            xp_metadata = [(''sensitive_output_paths'', GStrs [''token''])]\<rparr>
      else \<lparr>xp_status = status, xp_output = GNil, xp_metadata = []\<rparr>)"

definition ex_env :: "string \<Rightarrow> nat engine_env" where
  "ex_env status = \<lparr>env_lib = ex_golib,
     env_resolve_instance = (\<lambda>w s. (w, Inr (ex_target (sel_name s)))),
     env_resolve_family = (\<lambda>w f c p. (w, Inr (ex_target f))),
     env_resolve_sink = (\<lambda>w use. map_option (\<lambda>s. ex_target (sel_name s)) (use_instance_ref use)),
     env_execute = (\<lambda>w q r t p. (Suc w, Inr (ex_answer status q))),
     env_sleep = (\<lambda>w d. (w, None)),
     env_in_process = (\<lambda>w step r input. (w, r\<lparr>res_status := ''succeeded''\<rparr>))\<rparr>"

lemma ex_env_keeps_ids: "keeps_ids (ex_env status)"
  by (simp add: keeps_ids_def ex_env_def)

lemma ex_env_counts: "call_counter (ex_env status) id"
  by (simp add: call_counter_def ex_env_def)

definition ex_issue :: WorkflowStepSpec where
  "ex_issue = (ex_step ''a'' [])\<lparr>step_use := (step_use zero_step)\<lparr>use_kind := ''integration'', use_operation := ''issue_token'',
     use_instance_ref := Some ex_sink_selector\<rparr>\<rparr>"

definition ex_store :: WorkflowStepSpec where
  "ex_store = ex_sink\<lparr>step_depends := [''a''],
     step_use := (step_use ex_sink)\<lparr>use_instance_ref := Some ex_sink_selector\<rparr>\<rparr>"

definition ex_last :: WorkflowStepSpec where
  "ex_last = (ex_ygg_step ''c'' [''b''])"

definition ex_secret_workflow :: WorkflowManifestSpec where
  "ex_secret_workflow = ex_workflow\<lparr>wf_steps := [ex_last, ex_store, ex_issue]\<rparr>"

definition ex_request :: RunWorkflowRequest where
  "ex_request = \<lparr>rq_workflow = ex_sink_selector, rq_inputs = [], rq_token = [], rq_metadata = []\<rparr>"

lemma ex_secret_workflow_valid: "ValidateWorkflowSpec ex_golib ex_triggerlib ex_secret_workflow = None"
  by code_simp

lemma ex_secret_workflow_order: "WorkflowExecutionOrder (wf_steps ex_secret_workflow) = Some [ex_issue, ex_store, ex_last]"
  by code_simp

lemma ex_run_failed:
  "case runWorkflow (ex_env ''boom'') 0 ex_reference ex_secret_workflow ex_request of
     Some (w', Inr resp) \<Rightarrow> rr_status resp = ''failed'' \<and> map res_status (rr_steps resp) = [''succeeded'', ''failed'', ''skipped'']
   | _ \<Rightarrow> False"
  by code_simp

theorem run_outcome_witness:
  "\<exists>w' resp ahead failing later blocks block skipped. runWorkflow (ex_env ''boom'') 0 ex_reference ex_secret_workflow ex_request = Some (w', Inr resp) \<and>
     [ex_issue, ex_store, ex_last] = ahead @ failing # later \<and> rr_steps resp = concat blocks @ block @ skipped \<and>
     (\<exists>r\<in>set block. res_status r = ''failed'' \<and> res_id r = ''b'') \<and> length skipped = length later"
proof -
  obtain w' resp where r: "runWorkflow (ex_env ''boom'') 0 ex_reference ex_secret_workflow ex_request = Some (w', Inr resp)"
    and f: "rr_status resp = ''failed''" 
    using ex_run_failed by (auto split: option.splits prod.splits sum.splits)
  have "case runWorkflow (ex_env ''boom'') 0 ex_reference ex_secret_workflow ex_request of
      Some (w', Inr resp) \<Rightarrow> map_of (rr_metadata resp) ''failed_step'' = Some (GStr ''b'') | _ \<Rightarrow> False" by code_simp
  then have m: "map_of (rr_metadata resp) ''failed_step'' = Some (GStr ''b'')" using r by simp
  have "rr_status resp \<noteq> ''succeeded''" using f by simp
  with run_outcome [OF ex_env_keeps_ids ex_secret_workflow_valid ex_secret_workflow_order r] obtain ahead failing later blocks block skipped where
    o: "[ex_issue, ex_store, ex_last] = ahead @ failing # later" "rr_steps resp = concat blocks @ block @ skipped"
      "\<exists>r\<in>set block. res_status r = ''failed'' \<and> map_of (rr_metadata resp) ''failed_step'' = Some (GStr (res_id r))"
      "list_all2 (\<lambda>s r. res_id r = normalizeWorkflowStepID (step_id s) \<and> res_status r = ''skipped'') later skipped" by blast
  have "\<exists>r\<in>set block. res_status r = ''failed'' \<and> res_id r = ''b''" using o(3) m by auto
  then show ?thesis using r o(1,2) list_all2_lengthD [OF o(4)] by metis
qed

lemma ex_reach_lease:
  "case run_one (ex_env ''created'') ex_reference ex_request [ex_issue, ex_store, ex_last] 0 0 (initial_state ex_reference ex_request) of
     Some (w', st') \<Rightarrow> es_failed st' = [] \<and> (case es_lease st' of Some l \<Rightarrow> lease_value l = ''s3cr3t'' | None \<Rightarrow> False)
   | None \<Rightarrow> False"
  by code_simp

theorem lease_meets_its_sink_witness:
  "\<exists>w st l. run_reach (ex_env ''created'') ex_reference ex_request [ex_issue, ex_store, ex_last] 0 1 w st \<and>
     es_lease st = Some l \<and> lease_accepts l ex_store"
proof -
  obtain w st l where o: "run_one (ex_env ''created'') ex_reference ex_request [ex_issue, ex_store, ex_last] 0 0 (initial_state ex_reference ex_request) = Some (w, st)"
    and l: "es_failed st = []" "es_lease st = Some l"
    using ex_reach_lease by (auto split: option.splits prod.splits)
  have r: "run_reach (ex_env ''created'') ex_reference ex_request [ex_issue, ex_store, ex_last] 0 (0 + 1) w st"
    by (rule reach_step [OF reach_start _ o l(1)]) simp
  from lease_meets_its_sink [OF r l(2)] r l(2) show ?thesis by auto
qed

theorem dependencies_recorded_witness:
  "\<exists>w st r. run_reach (ex_env ''created'') ex_reference ex_request [ex_issue, ex_store, ex_last] 0 1 w st \<and>
     map_of (ctx_steps (es_ctx st)) ''a'' = Some r \<and> res_status r \<noteq> ''failed''"
proof -
  obtain w st where o: "run_one (ex_env ''created'') ex_reference ex_request [ex_issue, ex_store, ex_last] 0 0 (initial_state ex_reference ex_request) = Some (w, st)"
    and l: "es_failed st = []"
    using ex_reach_lease by (auto split: option.splits prod.splits)
  have r: "run_reach (ex_env ''created'') ex_reference ex_request [ex_issue, ex_store, ex_last] 0 (0 + 1) w st"
    by (rule reach_step [OF reach_start _ o l(1)]) simp
  have d: "''a'' \<in> set (sdeps ([ex_issue, ex_store, ex_last] ! (0 + 1)))"
    "\<forall>s\<in>set (wf_steps ex_secret_workflow). sid s = ''a'' \<longrightarrow> \<not> fans_out s" by code_simp+
  from dependencies_recorded [OF ex_env_keeps_ids ex_secret_workflow_valid ex_secret_workflow_order r _ d] r
  show ?thesis by auto
qed

theorem validated_workflow_run_completes_witness:
  "\<exists>w' resp. runWorkflow (ex_env ''boom'') 0 ex_reference ex_secret_workflow ex_request = Some (w', Inr resp)"
  by (rule validated_workflow_run_completes [OF ex_secret_workflow_valid]) code_simp

definition ex_family_dispatch :: WorkflowStepSpec where
  "ex_family_dispatch = (ex_step ''d'' [])\<lparr>step_use := (step_use zero_step)\<lparr>use_kind := ''integration'',
     use_operation := ''dispatch_workflow'', use_family := ''ci''\<rparr>\<rparr>"

theorem family_dispatch_panics_witness:
  "validateWorkflowStep ex_family_dispatch = None \<and>
   executeWorkflowStep (ex_env ''ok'') 0 ex_reference ex_family_dispatch ex_ctx ex_request no_security = None"
proof
  show "validateWorkflowStep ex_family_dispatch = None" by code_simp
  have i: "renderWorkflowStepInput (env_lib (ex_env ''ok'')) ex_ctx ex_family_dispatch = Inr []" by code_simp
  have u: "renderWorkflowStepUse (env_lib (ex_env ''ok'')) ex_ctx (step_use ex_family_dispatch) = Inr (step_use ex_family_dispatch)"
    by code_simp
  have r: "resolve_use (ex_env ''ok'') 0 (step_use ex_family_dispatch) = (0, Inr (ex_target ''ci''))" by code_simp
  show "executeWorkflowStep (ex_env ''ok'') 0 ex_reference ex_family_dispatch ex_ctx ex_request no_security = None"
    by (rule family_dispatch_panics [OF _ _ _ i u r]) code_simp+
qed

theorem adapter_calls_bounded_witness:
  "\<exists>w' r. executeWorkflowStep (ex_env ''boom'') 0 ex_reference (ex_issue\<lparr>step_retry := \<lparr>retry_max_attempts = 3, retry_backoff = 1\<rparr>\<rparr>)
       ex_ctx ex_request no_security = Some (w', r) \<and> w' \<le> 3"
proof -
  let ?step = "ex_issue\<lparr>step_retry := \<lparr>retry_max_attempts = 3, retry_backoff = 1\<rparr>\<rparr>"
  have "executeWorkflowStep (ex_env ''boom'') 0 ex_reference ?step ex_ctx ex_request no_security \<noteq> None" by code_simp
  then obtain w' r where e: "executeWorkflowStep (ex_env ''boom'') 0 ex_reference ?step ex_ctx ex_request no_security = Some (w', r)"
    by fast
  have k: "ToLower (TrimSpace (use_kind (step_use ?step))) = ''integration''" "nat (workflowStepAttempts ?step) = 3" by code_simp+
  from adapter_calls_bounded [OF ex_env_counts k(1) e] e k(2) show ?thesis by auto
qed

definition ex_failing_env :: "nat engine_env" where
  "ex_failing_env = (ex_env [])\<lparr>env_execute := (\<lambda>w q r t p. (Suc w, Inr \<lparr>xp_status = ''failed'', xp_output = GNil, xp_metadata = []\<rparr>))\<rparr>"

definition ex_dispatch :: WorkflowStepSpec where
  "ex_dispatch = ex_family_dispatch\<lparr>step_use := (step_use ex_family_dispatch)\<lparr>use_family := [],
     use_instance_ref := Some ex_sink_selector\<rparr>\<rparr>"

theorem adapter_status_decides_witness:
  "\<exists>w' r' f. attempt_once ex_failing_env ex_reference ex_dispatch (step_use ex_dispatch) (ex_target ''ci'') [] ex_request no_security 0
     (step_result ex_dispatch ''failed'' []) = Some (w', r', f) \<and> res_status r' = ''succeeded''"
proof -
  let ?r = "step_result ex_dispatch ''failed'' []"
  have "attempt_once ex_failing_env ex_reference ex_dispatch (step_use ex_dispatch) (ex_target ''ci'') [] ex_request no_security 0 ?r \<noteq> None"
    by code_simp
  then obtain w' r' f where a: "attempt_once ex_failing_env ex_reference ex_dispatch (step_use ex_dispatch) (ex_target ''ci'') []
      ex_request no_security 0 ?r = Some (w', r', f)" by fast
  have e: "\<forall>v q x t p. \<exists>v'. env_execute ex_failing_env v q x t p = (v', Inr \<lparr>xp_status = ''failed'', xp_output = GNil, xp_metadata = []\<rparr>)"
    by (simp add: ex_failing_env_def)
  have o: "res_operation ?r = WorkflowDispatchOperation" by code_simp
  from adapter_status_decides [OF a e] o a show ?thesis by auto
qed

end
