(* ===== verification/Integration_Instance.thy ===== *)
theory Integration_Instance
  imports Integration_Type "HOL-Library.Multiset"
begin

text \<open>
  Integration instances: the validator of \<open>manifest/integration_instance.go\<close>, the checks of credentials and inputs
  against the type's schemas of \<open>manifest/integration_inputs.go\<close>, and the naming convention of capabilities of
  \<open>manifest/capability_naming.go\<close>. The encoding of a value as JSON is an argument; values were decoded from JSON, so
  that an object is a \<open>map[string]any\<close>. The file of the allow-list is read by its caller.
\<close>

section \<open>The instance\<close>

record IntegrationInstanceDiscoverySpec =
  idv_enabled :: bool
  idv_mode :: string
  idv_interval :: int

record IntegrationInstanceExecutionSpec =
  iex_dry_run :: bool
  iex_batch :: int

record IntegrationInstanceManifestSpec =
  ii_type_ref :: ManifestSelector
  ii_status :: string
  ii_owners :: "string list"
  ii_credentials :: gmap
  ii_credentials_ref :: string
  ii_config :: gmap
  ii_discovery :: IntegrationInstanceDiscoverySpec
  ii_execution :: IntegrationInstanceExecutionSpec

datatype instance_error =
    InstanceName name_error
  | InstanceStatus string
  | SecretRefRequired
  | DiscoveryMode string
  | IntervalNegative
  | IntervalRequired string
  | BatchNegative

definition supportedIntegrationInstanceStatuses :: "string list" where
  "supportedIntegrationInstanceStatuses = [''draft'', ''active'', ''disabled'']"

definition supportedIntegrationInstanceDiscoveryModes :: "string list" where
  "supportedIntegrationInstanceDiscoveryModes = [''manual'', ''scheduled'', ''webhook'', ''hybrid'']"

definition defaulted :: "string \<Rightarrow> string \<Rightarrow> string" where
  "defaulted d v = (let n = ToLower (TrimSpace v) in if n = [] then d else n)"

definition validateIntegrationInstanceDiscovery :: "IntegrationInstanceDiscoverySpec \<Rightarrow> instance_error option" where
  "validateIntegrationInstanceDiscovery dv =
     (let mode = defaulted ''manual'' (idv_mode dv) in
      e_then (guard_err (mode \<notin> set supportedIntegrationInstanceDiscoveryModes) (DiscoveryMode (idv_mode dv)))
     (e_then (guard_err (idv_interval dv < 0) IntervalNegative)
             (guard_err (idv_enabled dv \<and> (mode = ''scheduled'' \<or> mode = ''hybrid'') \<and> idv_interval dv \<le> 0) (IntervalRequired mode))))"

definition validateIntegrationInstanceExecution :: "IntegrationInstanceExecutionSpec \<Rightarrow> instance_error option" where
  "validateIntegrationInstanceExecution ex = guard_err (iex_batch ex < 0) BatchNegative"

definition ValidateIntegrationInstanceSpec :: "IntegrationInstanceManifestSpec \<Rightarrow> instance_error option" where
  "ValidateIntegrationInstanceSpec spec =
     e_then (map_option InstanceName (validateManifestSelector ''integration_instance type_ref'' (ii_type_ref spec)))
    (e_then (guard_err (defaulted ''active'' (ii_status spec) \<notin> set supportedIntegrationInstanceStatuses) (InstanceStatus (ii_status spec)))
    (e_then (map_option InstanceName (validateNamedStringList ''integration_instance owners'' (ii_owners spec)))
    (e_then (guard_err (TrimSpace (ii_credentials_ref spec) \<noteq> [] \<and> \<not> HasPrefix (TrimSpace (ii_credentials_ref spec)) ''secret://'') SecretRefRequired)
    (e_then (map_option InstanceName (validateLooseObject ''integration_instance credentials'' (ii_credentials spec)))
    (e_then (map_option InstanceName (validateLooseObject ''integration_instance config'' (ii_config spec)))
    (e_then (validateIntegrationInstanceDiscovery (ii_discovery spec))
            (validateIntegrationInstanceExecution (ii_execution spec))))))))"

section \<open>Credentials and inputs\<close>

datatype instance_input_error =
    CredentialsForbidden
  | CredentialsRefForbidden
  | InlineForbidden
  | CredentialsRefRequired
  | CredentialsTwice
  | InputEmptyKey string
  | InputsUnsupported string
  | SchemaModeUnsupported string string
  | InputMissing string string
  | InputUndeclared string string
  | InputType string string
  | InputTypeUnsupported string string
  | InputNotInEnum string string

definition ValidateIntegrationInstanceCredentialStorage :: "IntegrationInstanceManifestSpec \<Rightarrow> IntegrationTypeManifestSpec \<Rightarrow> instance_input_error option" where
  "ValidateIntegrationInstanceCredentialStorage spec typeSpec =
     (let source = cp_source (NormalizeIntegrationCredentialPolicy (it_policy typeSpec) (it_credential_schema typeSpec));
          hasInline = ii_credentials spec \<noteq> []; hasRef = TrimSpace (ii_credentials_ref spec) \<noteq> [] in
      if source = ''none'' then guard_err (hasInline \<or> hasRef) CredentialsForbidden
      else if source = ''inline'' then guard_err hasRef CredentialsRefForbidden
      else if source = ''secret_ref'' then e_then (guard_err hasInline InlineForbidden) (guard_err (\<not> hasRef) CredentialsRefRequired)
      else if source = ''inline_or_secret_ref'' then guard_err (hasInline \<and> hasRef) CredentialsTwice
      else None)"

definition isIntegrationInteger :: "gval \<Rightarrow> bool" where
  "isIntegrationInteger v = (case v of GInt _ \<Rightarrow> True | GNumber _ _ \<Rightarrow> True | GFloat x \<Rightarrow> snd (quotient_of x) = 1 | _ \<Rightarrow> False)"

definition isIntegrationNumber :: "gval \<Rightarrow> bool" where
  "isIntegrationNumber v = (case v of GInt _ \<Rightarrow> True | GNumber _ _ \<Rightarrow> True | GFloat _ \<Rightarrow> True | _ \<Rightarrow> False)"

definition integrationEnumContains :: "(gval \<Rightarrow> string) \<Rightarrow> gval list \<Rightarrow> gval \<Rightarrow> bool" where
  "integrationEnumContains json options v \<longleftrightarrow> list_ex (\<lambda>opt. json opt = json v) options"

text \<open>Whether a value has a declared type; None for a type that is not supported.\<close>

definition has_schema_type :: "string \<Rightarrow> gval \<Rightarrow> bool option" where
  "has_schema_type t v =
     (if t = [] \<or> t = ''string'' then Some (case v of GStr _ \<Rightarrow> True | _ \<Rightarrow> False)
      else if t = ''boolean'' then Some (case v of GBool _ \<Rightarrow> True | _ \<Rightarrow> False)
      else if t = ''integer'' then Some (isIntegrationInteger v)
      else if t = ''number'' then Some (isIntegrationNumber v)
      else if t = ''object'' then Some (case v of GMap _ \<Rightarrow> True | _ \<Rightarrow> False)
      else if t = ''array'' then Some (case v of GList _ \<Rightarrow> True | _ \<Rightarrow> False)
      else None)"

definition validateIntegrationSchemaValue :: "(gval \<Rightarrow> string) \<Rightarrow> string \<Rightarrow> string \<Rightarrow> IntegrationSchemaProperty \<Rightarrow> gval \<Rightarrow> instance_input_error option" where
  "validateIntegrationSchemaValue json label name property v =
     (case has_schema_type (ToLower (TrimSpace (prop_type property))) v of
        None \<Rightarrow> Some (InputTypeUnsupported name (prop_type property))
      | Some ok \<Rightarrow>
          e_then (guard_err (\<not> ok) (InputType label name))
                 (guard_err (prop_enum property \<noteq> [] \<and> \<not> integrationEnumContains json (prop_enum property) v) (InputNotInEnum label name)))"

text \<open>A map with normalised keys; of keys that coincide, the last one visited stays.\<close>

definition normalized_map :: "(string \<times> 'a) list \<Rightarrow> (string \<times> 'a) list" where
  "normalized_map m = fold (\<lambda>(k, v) acc. AList.update (normalizeIntegrationName k) v acc) m []"

text \<open>The body of the loop over the values.\<close>

definition input_entry_err ::
  "(gval \<Rightarrow> string) \<Rightarrow> string \<Rightarrow> (string \<times> IntegrationSchemaProperty) list \<Rightarrow> string \<Rightarrow> gval \<Rightarrow> instance_input_error option" where
  "input_entry_err json label props k v =
     (case map_of props (normalizeIntegrationName k) of
        None \<Rightarrow> guard_err (props \<noteq> []) (InputUndeclared label (normalizeIntegrationName k))
      | Some property \<Rightarrow> validateIntegrationSchemaValue json label (normalizeIntegrationName k) property v)"

definition ValidateIntegrationInputValues :: "(gval \<Rightarrow> string) \<Rightarrow> string \<Rightarrow> IntegrationSchemaSpec \<Rightarrow> gmap \<Rightarrow> instance_input_error option" where
  "ValidateIntegrationInputValues json label schema raw =
     (let mode = defaulted ''none'' (sch_mode schema); vs = normalized_map raw; props = normalized_map (sch_properties schema) in
      e_then (first_err (\<lambda>(k, _). guard_err (normalizeIntegrationName k = []) (InputEmptyKey label)) raw)
        (if mode = ''none'' then guard_err (vs \<noteq> []) (InputsUnsupported label)
         else if mode \<noteq> ''inline'' \<and> mode \<noteq> ''secret_ref'' then Some (SchemaModeUnsupported label (sch_mode schema))
         else e_then (first_err (\<lambda>f. guard_err (map_of vs (normalizeIntegrationName f) = None) (InputMissing label (normalizeIntegrationName f))) (sch_required schema))
              (first_err (\<lambda>(k, v). input_entry_err json label props k v) vs)))"


section \<open>Capability names\<close>

definition capabilityPrefixes :: "string list" where
  "capabilityPrefixes = [''ensure_'', ''observe_'', ''destroy_'', ''discover_'', ''on_'']"

definition capability_rest :: "string \<Rightarrow> bool" where
  "capability_rest s \<longleftrightarrow> (case s of [] \<Rightarrow> False
     | c # cs \<Rightarrow> CHR ''a'' \<le> c \<and> c \<le> CHR ''z'' \<and> list_all (\<lambda>x. is_lower_alnum x \<or> x = CHR ''_'') cs)"

definition capabilityNamePattern :: "string \<Rightarrow> bool" where
  "capabilityNamePattern name \<longleftrightarrow> list_ex (\<lambda>p. HasPrefix name p \<and> capability_rest (drop (length p) name)) capabilityPrefixes"

text \<open>A warning: the entry's position in the catalogue stands for the path rendered from it, and the suggested name for
  the message that quotes it (empty when no rule applies).\<close>

record Warning =
  wn_code :: string
  wn_field :: "nat option"
  wn_value :: string
  wn_suggested :: string

record CapabilityNamingAllowlist =
  al_exact :: "string list"
  al_prefix :: "string list"

definition normalized_allowlist :: "string list \<Rightarrow> string list \<Rightarrow> CapabilityNamingAllowlist" where
  "normalized_allowlist exact prefixes = \<lparr>al_exact = map (\<lambda>e. ToLower (TrimSpace e)) exact, al_prefix = map (\<lambda>p. ToLower (TrimSpace p)) prefixes\<rparr>"

definition Allowed :: "CapabilityNamingAllowlist \<Rightarrow> string \<Rightarrow> string \<Rightarrow> bool" where
  "Allowed al name category =
     (let cat = ToLower (TrimSpace category); n = ToLower (TrimSpace name) in
      cat = ''reactor'' \<or> cat = ''permission'' \<or> n \<in> set (al_exact al) \<or> list_ex (HasPrefix n) (al_prefix al))"

definition legacyVerbs :: "(string \<times> string) list" where
  "legacyVerbs =
     [(''create_'', ''ensure_''), (''update_'', ''ensure_''), (''upsert_'', ''ensure_''), (''register_'', ''ensure_''), (''set_'', ''ensure_''),
      (''issue_'', ''ensure_''), (''list_'', ''observe_''), (''get_'', ''observe_''), (''describe_'', ''observe_''), (''lookup_'', ''observe_''),
      (''retrieve_'', ''observe_''), (''delete_'', ''destroy_''), (''unregister_'', ''destroy_''), (''remove_'', ''destroy_''),
      (''archive_'', ''destroy_''), (''cancel_'', ''destroy_'')]"

definition suggestCanonicalName :: "string \<Rightarrow> string" where
  "suggestCanonicalName name =
     (case find (\<lambda>(verb, _). HasPrefix name verb) legacyVerbs of None \<Rightarrow> [] | Some (verb, canonical) \<Rightarrow> canonical @ drop (length verb) name)"

definition ValidateCapabilityName :: "string \<Rightarrow> string \<Rightarrow> CapabilityNamingAllowlist option \<Rightarrow> Warning list" where
  "ValidateCapabilityName raw category allowlist =
     (let name = ToLower (TrimSpace raw) in
      if name = [] then []
      else if capabilityNamePattern name then []
      else if (case allowlist of None \<Rightarrow> False | Some al \<Rightarrow> Allowed al name category) then []
      else [\<lparr>wn_code = ''CAPABILITY_NAME_NONCONFORMANT'', wn_field = None, wn_value = name, wn_suggested = suggestCanonicalName name\<rparr>])"

definition ValidateActionCatalogNaming :: "IntegrationActionDefinition list \<Rightarrow> CapabilityNamingAllowlist option \<Rightarrow> Warning list" where
  "ValidateActionCatalogNaming catalog allowlist =
     concat (map (\<lambda>(i, act). map (\<lambda>w. w\<lparr>wn_field := Some i\<rparr>) (ValidateCapabilityName (act_name act) (act_category act) allowlist))
       (enumerate 0 catalog))"

section \<open>What the checks of inputs accept\<close>

text \<open>The reference: an object as the partial function from normalised names that a pass over its entries leaves, and
  conformance to a schema as a condition on partial functions.\<close>

definition named :: "(string \<times> 'a) list \<Rightarrow> (string \<rightharpoonup> 'a)" where
  "named m = map_of (rev (map (\<lambda>(k, v). (normalizeIntegrationName k, v)) m))"

text \<open>The values of a type: a number without a fraction is an integer, and so is every \<open>json.Number\<close>, whose text is not read.\<close>

inductive of_type :: "string \<Rightarrow> gval \<Rightarrow> bool" where
  string_value: "of_type ''string'' (GStr s)"
| boolean_value: "of_type ''boolean'' (GBool b)"
| integer_value: "of_type ''integer'' (GInt i)"
| integral_float: "of_type ''integer'' (GFloat (of_int i))"
| integer_literal: "of_type ''integer'' (GNumber txt x)"
| number_value: "of_type ''number'' (GInt i)"
| number_float: "of_type ''number'' (GFloat x)"
| number_literal: "of_type ''number'' (GNumber txt y)"
| object_value: "of_type ''object'' (GMap m)"
| array_value: "of_type ''array'' (GList vs)"

definition declared_type :: "IntegrationSchemaProperty \<Rightarrow> string" where
  "declared_type property = (if TrimSpace (prop_type property) = [] then ''string'' else ToLower (TrimSpace (prop_type property)))"

definition value_conforms :: "(gval \<Rightarrow> string) \<Rightarrow> IntegrationSchemaProperty \<Rightarrow> gval \<Rightarrow> bool" where
  "value_conforms json property v \<longleftrightarrow>
     of_type (declared_type property) v \<and> (prop_enum property = [] \<or> (\<exists>opt\<in>set (prop_enum property). json opt = json v))"

definition object_conforms ::
  "(gval \<Rightarrow> string) \<Rightarrow> string \<Rightarrow> string list \<Rightarrow> (string \<rightharpoonup> IntegrationSchemaProperty) \<Rightarrow> (string \<rightharpoonup> gval) \<Rightarrow> bool" where
  "object_conforms json mode required props vs \<longleftrightarrow>
     mode = ''none'' \<and> vs = Map.empty \<or>
     mode \<in> {''inline'', ''secret_ref''} \<and>
     (\<forall>f\<in>set required. normalizeIntegrationName f \<in> dom vs) \<and>
     (\<forall>k v. vs k = Some v \<longrightarrow> (case props k of None \<Rightarrow> props = Map.empty | Some p \<Rightarrow> value_conforms json p v))"

definition inputs_conform :: "(gval \<Rightarrow> string) \<Rightarrow> IntegrationSchemaSpec \<Rightarrow> gmap \<Rightarrow> bool" where
  "inputs_conform json schema raw \<longleftrightarrow>
     [] \<notin> dom (named raw) \<and>
     object_conforms json (defaulted ''none'' (sch_mode schema)) (sch_required schema) (named (sch_properties schema)) (named raw)"

lemma map_of_fold_update:
  "map_of (fold (\<lambda>(k, v) acc. AList.update (f k) v acc) m acc) = map_of acc ++ map_of (rev (map (\<lambda>(k, v). (f k, v)) m))"
  by (induction m arbitrary: acc) (auto simp: update_conv' map_add_def fun_eq_iff split: option.splits)

lemma map_of_normalized_map [simp]: "map_of (normalized_map m) = named m"
  by (simp add: normalized_map_def named_def map_of_fold_update)

lemma distinct_fold_update:
  "distinct (map fst acc) \<Longrightarrow> distinct (map fst (fold (\<lambda>(k, v) acc. AList.update (f k) v acc) m acc))"
  by (induction m arbitrary: acc) (auto simp: distinct_update)

lemma normalized_map_entry: "(k, v) \<in> set (normalized_map m) \<longleftrightarrow> named m k = Some v"
proof -
  have "distinct (map fst (normalized_map m))"
    unfolding normalized_map_def by (rule distinct_fold_update) simp
  then show ?thesis by (simp flip: map_of_eq_Some_iff)
qed

lemma normalized_map_empty: "normalized_map m = [] \<longleftrightarrow> named m = Map.empty"
  by (metis map_of_normalized_map map_of.simps(1) map_of_eq_empty_iff)

lemma dom_named: "dom (named m) = normalizeIntegrationName ` fst ` set m"
  by (force simp: named_def dom_map_of_conv_image_fst)

lemma named_normal: "named m k = Some v \<Longrightarrow> normalizeIntegrationName k = k"
proof -
  assume "named m k = Some v"
  then have "k \<in> dom (named m)" by (rule domI)
  then show ?thesis unfolding dom_named by auto
qed

lemma integral_rat: "snd (quotient_of x) = 1 \<longleftrightarrow> (\<exists>i. x = of_int i)"
proof
  assume "snd (quotient_of x) = 1"
  then have "x = of_int (fst (quotient_of x)) / of_int 1" by (metis prod.collapse quotient_of_div)
  then show "\<exists>i. x = of_int i" by auto
next
  assume "\<exists>i. x = of_int i"
  then show "snd (quotient_of x) = 1" using quotient_of_int unfolding Rat.of_int_def by auto
qed

lemma has_schema_type_iff: "has_schema_type (ToLower (TrimSpace (prop_type property))) v = Some True \<longleftrightarrow> of_type (declared_type property) v"
proof -
  have "has_schema_type t v = Some True \<longleftrightarrow> of_type (if t = [] then ''string'' else t) v" for t
    by (cases v) (auto simp: has_schema_type_def isIntegrationInteger_def isIntegrationNumber_def of_type.simps integral_rat)
  moreover have "ToLower (TrimSpace (prop_type property)) = [] \<longleftrightarrow> TrimSpace (prop_type property) = []" by (simp add: ToLower_def)
  ultimately show ?thesis by (simp add: declared_type_def)
qed

lemma schema_value_accepted: "validateIntegrationSchemaValue json label name property v = None \<longleftrightarrow> value_conforms json property v"
  unfolding value_conforms_def has_schema_type_iff [symmetric]
  by (auto simp: validateIntegrationSchemaValue_def integrationEnumContains_def list_ex_iff validate_simps split: option.splits)

lemma entry_accepted:
  "named raw k = Some v \<Longrightarrow> input_entry_err json label (normalized_map ps) k v = None \<longleftrightarrow>
     (case named ps k of None \<Rightarrow> named ps = Map.empty | Some p \<Rightarrow> value_conforms json p v)"
  by (auto simp: input_entry_err_def named_normal schema_value_accepted validate_simps normalized_map_empty split: option.splits)

lemma entries_accepted:
  "first_err (\<lambda>(k, v). input_entry_err json label (normalized_map ps) k v) (normalized_map raw) = None \<longleftrightarrow>
     (\<forall>k v. named raw k = Some v \<longrightarrow> (case named ps k of None \<Rightarrow> named ps = Map.empty | Some p \<Rightarrow> value_conforms json p v))"
  by (simp add: first_err_None Ball_def normalized_map_entry entry_accepted cong: imp_cong)

lemma keys_accepted: "first_err (\<lambda>(k, _). guard_err (normalizeIntegrationName k = []) e) raw = None \<longleftrightarrow> [] \<notin> dom (named raw)"
  unfolding first_err_None dom_named by (force simp: validate_simps)

lemma required_accepted:
  "first_err (\<lambda>f. guard_err (named raw (normalizeIntegrationName f) = None) (e f)) fs = None \<longleftrightarrow>
     (\<forall>f\<in>set fs. normalizeIntegrationName f \<in> dom (named raw))"
  by (auto simp: validate_simps)

lemma input_values_accepted: "ValidateIntegrationInputValues json label schema raw = None \<longleftrightarrow> inputs_conform json schema raw"
  unfolding ValidateIntegrationInputValues_def Let_def e_then_None keys_accepted inputs_conform_def object_conforms_def
  by (auto simp only: map_of_normalized_map e_then_None required_accepted entries_accepted normalized_map_empty guard_err_None
      split: if_splits)

lemma named_distinct: "distinct (map (\<lambda>e. normalizeIntegrationName (fst e)) m) \<Longrightarrow>
    named m = map_of (map (\<lambda>(k, v). (normalizeIntegrationName k, v)) m)"
  unfolding named_def by (intro map_of_inject_set [THEN iffD2]) (auto simp: o_def split_def simp flip: rev_map)

lemma named_reordered:
  assumes "distinct (map (\<lambda>e. normalizeIntegrationName (fst e)) m)" and "mset m' = mset m"
  shows "named m' = named m"
proof -
  let ?n = "\<lambda>e. normalizeIntegrationName (fst e)"
  have "mset (map ?n m') = mset (map ?n m)" using assms(2) by simp
  then have "distinct (map ?n m')" using assms(1) mset_eq_imp_distinct_iff by blast
  then show ?thesis
    using assms mset_eq_setD [OF assms(2)]
    by (simp add: named_distinct) (intro map_of_inject_set [THEN iffD2], auto simp: o_def split_def)
qed


text \<open>The verdict on inputs does not depend on the order in which Go's maps are traversed: when neither the values nor the
  declared properties have two keys of one normalised name, any other order of their entries is accepted exactly when the first
  one is.\<close>
theorem inputs_verdict_unordered:
  assumes "distinct (map (\<lambda>e. normalizeIntegrationName (fst e)) raw)" and "mset raw' = mset raw"
    and "distinct (map (\<lambda>e. normalizeIntegrationName (fst e)) (sch_properties schema))" and "mset ps = mset (sch_properties schema)"
  shows "ValidateIntegrationInputValues json label (schema\<lparr>sch_properties := ps\<rparr>) raw' = None \<longleftrightarrow>
    ValidateIntegrationInputValues json label schema raw = None"
  unfolding input_values_accepted inputs_conform_def
  by (simp add: named_reordered [OF assms(1,2)] named_reordered [OF assms(3,4)])

text \<open>The declared minimal length of a property has no effect on the inputs of an instance: an empty string is accepted where the
  schema asks for more.\<close>

lemma min_length_ignored:
  "validateIntegrationSchemaValue json label name (property\<lparr>prop_min_length := n, prop_max_length := m, prop_pattern := pat\<rparr>) v =
   validateIntegrationSchemaValue json label name property v"
  by (simp add: validateIntegrationSchemaValue_def split: option.split)

text \<open>Without that the order decides: of two keys of one normalised name only the last one visited is checked.\<close>

definition ex_property :: IntegrationSchemaProperty where
  "ex_property = \<lparr>prop_type = ''string'', prop_description = [], prop_secret = False, prop_enum = [], prop_default = GNil,
     prop_min_length = None, prop_sensitive = False, prop_pattern = [], prop_max_length = None\<rparr>"

definition ex_input_schema :: IntegrationSchemaSpec where
  "ex_input_schema = \<lparr>sch_mode = ''inline'', sch_required = [''a''],
     sch_properties = [(''a'', ex_property)]\<rparr>"

lemma ex_names_normal: "normalizeIntegrationName ''A'' = ''a''" "normalizeIntegrationName ''a'' = ''a''" "defaulted ''none'' ''inline'' = ''inline''"
    "has_schema_type (ToLower (TrimSpace ''string'')) (GStr x) = Some True" "has_schema_type (ToLower (TrimSpace ''string'')) (GInt 1) = Some False"
proof -
  have t: "ToLower (TrimSpace ''string'') = ''string''" by code_simp
  show "has_schema_type (ToLower (TrimSpace ''string'')) (GStr x) = Some True"
    "has_schema_type (ToLower (TrimSpace ''string'')) (GInt 1) = Some False"
    by (simp_all add: t has_schema_type_def)
qed code_simp+

lemma ex_input_named: "named [(''A'', x), (''a'', y)] = [''a'' \<mapsto> y]" "named [(''a'', x), (''A'', y)] = [''a'' \<mapsto> y]"
    "named (sch_properties ex_input_schema) = [''a'' \<mapsto> ex_property]"
  by (auto simp: named_def ex_input_schema_def ex_names_normal)

lemma colliding_keys_decided_by_order:
  "ValidateIntegrationInputValues json label ex_input_schema [(''A'', GInt 1), (''a'', GStr ''x'')] = None"
  "ValidateIntegrationInputValues json label ex_input_schema [(''a'', GStr ''x''), (''A'', GInt 1)] \<noteq> None"
  unfolding input_values_accepted inputs_conform_def object_conforms_def ex_input_named value_conforms_def has_schema_type_iff [symmetric]
  by (auto simp: ex_input_schema_def ex_names_normal ex_property_def)

section \<open>What the naming convention advises\<close>

lemma capability_rest_lower:
  assumes "capability_rest r"
  shows "ToLower r = r" and "\<forall>c\<in>set r. \<not> is_space c" and "r \<noteq> []"
proof -
  have ok: "\<forall>c\<in>set r. is_lower_alnum c \<or> c = CHR ''_''"
    using assms by (auto simp: capability_rest_def is_lower_alnum_def list_all_iff split: list.splits)
  then show "ToLower r = r"
    by (auto simp: ToLower_def is_lower_alnum_def is_digit_def lower_char_def less_eq_char_def intro!: map_idI)
  show "\<forall>c\<in>set r. \<not> is_space c"
    using ok by (auto simp: is_space_def is_lower_alnum_def is_digit_def less_eq_char_def)
  show "r \<noteq> []" using assms by (auto simp: capability_rest_def)
qed

lemma capabilityPrefixes_normal: "p \<in> set capabilityPrefixes \<Longrightarrow> p \<noteq> [] \<and> \<not> is_space (hd p) \<and> ToLower p = p"
proof -
  have "list_all (\<lambda>p. p \<noteq> [] \<and> \<not> is_space (hd p) \<and> ToLower p = p) capabilityPrefixes" by code_simp
  then show "p \<in> set capabilityPrefixes \<Longrightarrow> p \<noteq> [] \<and> \<not> is_space (hd p) \<and> ToLower p = p" by (auto simp: list_all_iff)
qed

lemma canonical_prefix_normal:
  assumes "p \<in> set capabilityPrefixes" and "capability_rest r"
  shows "ToLower (TrimSpace (p @ r)) = p @ r" and "capabilityNamePattern (p @ r)"
proof -
  note r = capability_rest_lower [OF assms(2)] and p = capabilityPrefixes_normal [OF assms(1)]
  have "trimmed (p @ r)" using r p by (simp add: trimmed_def)
  moreover have "ToLower (p @ r) = p @ r" using r(1) p by (simp add: ToLower_def)
  ultimately show "ToLower (TrimSpace (p @ r)) = p @ r" by (simp add: TrimSpace_id)
  show "capabilityNamePattern (p @ r)"
    unfolding capabilityNamePattern_def list_ex_iff using assms by (intro bexI [of _ p]) simp_all
qed

text \<open>A legacy verb ends with its only underscore, so that a name has at most one of them as a prefix.\<close>

definition verb_stem :: "string \<Rightarrow> string" where
  "verb_stem s = takeWhile (\<lambda>c. c \<noteq> CHR ''_'') s"

lemma legacyVerbs_shape:
  "(v, c) \<in> set legacyVerbs \<Longrightarrow> v = verb_stem v @ ''_'' \<and> c \<in> set capabilityPrefixes" and legacyVerbs_distinct: "distinct (map fst legacyVerbs)"
proof -
  have "list_all (\<lambda>(v, c). v = verb_stem v @ ''_'' \<and> c \<in> set capabilityPrefixes) legacyVerbs" by code_simp
  then show "(v, c) \<in> set legacyVerbs \<Longrightarrow> v = verb_stem v @ ''_'' \<and> c \<in> set capabilityPrefixes" by (auto simp: list_all_iff)
qed code_simp

lemma verb_stem_append:
  assumes "v = verb_stem v @ ''_''"
  shows "verb_stem (v @ t) = verb_stem v"
proof -
  have "v @ t = verb_stem v @ CHR ''_'' # t" by (subst assms) simp
  then have "verb_stem (v @ t) = verb_stem (verb_stem v @ CHR ''_'' # t)" by (rule arg_cong)
  also have "\<dots> = verb_stem v" unfolding verb_stem_def by (subst takeWhile_append2) (auto dest: set_takeWhileD)
  finally show ?thesis .
qed

lemma one_legacy_prefix:
  assumes "(verb, c) \<in> set legacyVerbs" and "(v, d) \<in> set legacyVerbs"
  shows "HasPrefix (verb @ rest) v \<longleftrightarrow> v = verb"
proof
  assume "HasPrefix (verb @ rest) v"
  then obtain t where "verb @ rest = v @ t" by (auto simp: HasPrefix_iff)
  then have "verb_stem verb = verb_stem v"
    using verb_stem_append [of verb rest] verb_stem_append [of v t] legacyVerbs_shape assms by metis
  then show "v = verb" using legacyVerbs_shape assms by metis
qed simp

lemma find_key: "distinct (map fst xs) \<Longrightarrow> (a, b) \<in> set xs \<Longrightarrow> find (\<lambda>(k, _). k = a) xs = Some (a, b)"
  by (induction xs) force+

lemma legacy_verb_found:
  assumes "(verb, canonical) \<in> set legacyVerbs"
  shows "find (\<lambda>(v, _). HasPrefix (verb @ rest) v) legacyVerbs = Some (verb, canonical)"
proof -
  have "find (\<lambda>(v, _). HasPrefix (verb @ rest) v) legacyVerbs = find (\<lambda>(v, _). v = verb) legacyVerbs"
    by (rule find_cong) (auto simp: one_legacy_prefix [OF assms])
  then show ?thesis by (simp only: find_key [OF legacyVerbs_distinct assms])
qed

text \<open>The advice of a naming warning can be followed: for a name made of a legacy verb and a well-formed rest, the name that
  the warning suggests keeps the rest and draws no warning itself, whatever its category and the allow-list.\<close>
theorem advice_conforms:
  assumes "(verb, canonical) \<in> set legacyVerbs" and "capability_rest rest"
  shows "suggestCanonicalName (verb @ rest) = canonical @ rest \<and>
    ValidateCapabilityName (suggestCanonicalName (verb @ rest)) category al = []"
proof
  show s: "suggestCanonicalName (verb @ rest) = canonical @ rest"
    by (simp add: suggestCanonicalName_def legacy_verb_found [OF assms(1)])
  show "ValidateCapabilityName (suggestCanonicalName (verb @ rest)) category al = []"
    using canonical_prefix_normal [OF _ assms(2)] legacyVerbs_shape [OF assms(1)]
    unfolding s by (simp add: ValidateCapabilityName_def Let_def)
qed

section \<open>Instances of a secret type\<close>

text \<open>An instance that passes the validator and the storage check under a policy of secret references names a secret and holds no
  credential in the clear.\<close>

lemma secret_ref_instance:
  assumes "ValidateIntegrationInstanceSpec spec = None" and "ValidateIntegrationInstanceCredentialStorage spec typeSpec = None"
    and "cp_source (NormalizeIntegrationCredentialPolicy (it_policy typeSpec) (it_credential_schema typeSpec)) = ''secret_ref''"
  shows "ii_credentials spec = [] \<and> HasPrefix (TrimSpace (ii_credentials_ref spec)) ''secret://''"
  using assms
  by (auto simp: ValidateIntegrationInstanceSpec_def ValidateIntegrationInstanceCredentialStorage_def validate_simps)

text \<open>Inputs accepted under a schema of mode none are empty.\<close>

lemma no_inputs_without_schema: "inputs_conform json schema raw \<Longrightarrow> defaulted ''none'' (sch_mode schema) = ''none'' \<Longrightarrow> raw = []"
  using dom_named [of raw] by (auto simp: inputs_conform_def object_conforms_def)

text \<open>The application of the properties at concrete inputs.\<close>

theorem inputs_verdict_unordered_witness:
  "ValidateIntegrationInputValues (\<lambda>_. []) ''config'' (ex_input_schema\<lparr>sch_properties := [(''b'', ex_property), (''a'', ex_property)]\<rparr>)
     [(''b'', GStr ''y''), (''a'', GStr ''x'')] = None \<longleftrightarrow>
   ValidateIntegrationInputValues (\<lambda>_. []) ''config'' (ex_input_schema\<lparr>sch_properties := [(''a'', ex_property), (''b'', ex_property)]\<rparr>)
     [(''a'', GStr ''x''), (''b'', GStr ''y'')] = None"
proof -
  have b: "normalizeIntegrationName ''b'' = ''b''" by code_simp
  show ?thesis
    using inputs_verdict_unordered [of "[(''a'', GStr ''x''), (''b'', GStr ''y'')]" "[(''b'', GStr ''y''), (''a'', GStr ''x'')]"
        "ex_input_schema\<lparr>sch_properties := [(''a'', ex_property), (''b'', ex_property)]\<rparr>" "[(''b'', ex_property), (''a'', ex_property)]"]
    by (simp add: ex_names_normal b)
qed

theorem advice_conforms_witness:
  "suggestCanonicalName (''create_'' @ ''bucket'') = ''ensure_'' @ ''bucket'' \<and>
   ValidateCapabilityName (suggestCanonicalName (''create_'' @ ''bucket'')) [] None = []"
proof (rule advice_conforms)
  show "(''create_'', ''ensure_'') \<in> set legacyVerbs" by code_simp
  show "capability_rest ''bucket''" by code_simp
qed

end
