(* ===== verification/Go_Time.thy ===== *)
theory Go_Time
  imports Go_Prelude "HOL-Library.Word"
begin

text \<open>
  Instants of \<open>time.Time\<close>, as the number of nanoseconds since the Unix epoch. \<open>After\<close>, \<open>Before\<close> and
  \<open>Equal\<close> are the order of the integers, \<open>Add\<close> and \<open>Sub\<close> are addition and subtraction; the durations of
  the program are far from the limits of \<open>time.Duration\<close>. The zero value of \<open>time.Time\<close> is the first
  instant of the year 1.
\<close>

type_synonym time = int

definition zeroTime :: time where
  "zeroTime = - 62135596800000000000"

definition IsZero :: "time \<Rightarrow> bool" where
  "IsZero t \<longleftrightarrow> t = zeroTime"

definition Second :: int where
  "Second = 1000000000"

definition Unix_seconds :: "time \<Rightarrow> int" where
  "Unix_seconds t = t div Second"

text \<open>\<open>t.Unix()\<close> is an \<open>int64\<close>; \<open>time.Unix(s, 0)\<close> reads one back.\<close>

definition Unix :: "time \<Rightarrow> 64 word" where
  "Unix t = word_of_int (Unix_seconds t)"

definition unix_time :: "64 word \<Rightarrow> time" where
  "unix_time s = sint s * Second"

definition int64_seconds :: "time \<Rightarrow> bool" where
  "int64_seconds t \<longleftrightarrow> - (2 ^ 63) \<le> Unix_seconds t \<and> Unix_seconds t < 2 ^ 63"

lemma Second_pos [simp]: "0 < Second"
  by (simp add: Second_def)

lemma sint_word_of_int_64:
  assumes "- (2 ^ 63) \<le> i" and "i < 2 ^ 63"
  shows "sint (word_of_int i :: 64 word) = i"
  using assms by (simp add: sint_sbintrunc' signed_take_bit_int_eq_self)

lemma whole_second:
  assumes "t mod Second = 0"
  shows "Unix_seconds t * Second = t"
  using assms by (metis Unix_seconds_def add.right_neutral div_mult_mod_eq)

lemma Unix_seconds_le: "Unix_seconds t * Second \<le> t"
  by (simp add: Unix_seconds_def Second_def)

lemma Unix_seconds_less: "t < (Unix_seconds t + 1) * Second"
  by (simp add: Unix_seconds_def Second_def)

end
