(* ===== verification/Workflow_Schedule.thy ===== *)
theory Workflow_Schedule
  imports Go_Time
begin

text \<open>
  The selection of a cron tick, \<open>selectWorkflowScheduleTick\<close> of \<open>addons/workflow_scheduler.go\<close>. The cron
  library is the argument \<open>cron\<close>: for a location, the function \<open>Next\<close> of the parsed expression. The bisection
  works on \<open>int64\<close> seconds, as in the source; what it relies on of the library is \<open>cron_laws\<close>.
\<close>

section \<open>The tick of a pass\<close>

definition next_tick :: "(time \<Rightarrow> time) \<Rightarrow> time \<Rightarrow> time option" where
  "next_tick Next after = (let v = Next after in if \<not> IsZero v \<and> after < v then Some v else None)"

lemma word_half:
  fixes d :: "64 word"
  assumes "1 < d"
  shows "unat (d div 2) < unat d" "unat (d - d div 2) < unat d"
proof -
  have "1 < unat d" using assms by (simp add: word_less_nat_alt)
  moreover have h: "unat (d div 2) = unat d div 2" by (simp add: unat_div)
  ultimately show "unat (d div 2) < unat d" by simp
  have "d div 2 \<le> d" using h by (simp add: word_le_nat_alt)
  then have "unat (d - d div 2) = unat d - unat d div 2" using h by (simp add: unat_sub)
  with \<open>1 < unat d\<close> show "unat (d - d div 2) < unat d" by simp
qed

function bisect :: "(time \<Rightarrow> time) \<Rightarrow> time \<Rightarrow> 64 word \<Rightarrow> 64 word \<Rightarrow> time \<Rightarrow> time option" where
  "bisect Next now low high selected =
     (if 1 < high - low then
        (let middle = low + (high - low) div 2 in
         case next_tick Next (unix_time middle) of
           None \<Rightarrow> None
         | Some candidate \<Rightarrow>
             if now < candidate then bisect Next now low middle selected
             else bisect Next now middle high candidate)
      else Some selected)"
  by pat_completeness auto

termination
  by (relation "measure (\<lambda>(N, now, low, high, s). unat (high - low))")
    (simp_all add: word_half diff_diff_eq2 algebra_simps flip: diff_diff_eq)

declare bisect.simps [simp del]

definition selectWorkflowScheduleTick ::
  "('z \<Rightarrow> time \<Rightarrow> time) option \<Rightarrow> 'z option \<Rightarrow> time \<Rightarrow> time \<Rightarrow> string \<Rightarrow> (time \<times> time \<times> bool) option" where
  "selectWorkflowScheduleTick schedule location lastFired now catchupPolicy =
     (case (schedule, location) of
        (Some cron, Some loc) \<Rightarrow>
          let policy = ToLower (TrimSpace catchupPolicy); Next = cron loc in
          if IsZero lastFired \<or> IsZero now \<or> policy \<notin> {[], ''skip'', ''catch_up''} then None
          else (case next_tick Next lastFired of
              None \<Rightarrow> None
            | Some first \<Rightarrow>
                if now < first then Some (first, zeroTime, False)
                else (case next_tick Next first of
                    None \<Rightarrow> None
                  | Some following \<Rightarrow>
                      if policy = ''catch_up'' \<or> now < following then Some (first, following, True)
                      else if Unix now \<le>s Unix first then None
                      else (case bisect Next now (Unix first) (Unix now) following of
                          None \<Rightarrow> None
                        | Some selected \<Rightarrow>
                            (case next_tick Next selected of
                               None \<Rightarrow> None
                             | Some after \<Rightarrow>
                                 if selected < first \<or> now < selected \<or> after \<le> now then None
                                 else Some (selected, after, True)))))
      | _ \<Rightarrow> None)"

section \<open>The bisection finds the last occurrence\<close>

text \<open>
  What the scheduler relies on of the cron library: \<open>Next\<close> returns the least occurrence after an instant,
  occurrences are whole seconds, and there always is another one.
\<close>

definition cron_laws :: "(time \<Rightarrow> time) \<Rightarrow> (time \<Rightarrow> bool) \<Rightarrow> bool" where
  "cron_laws Next occ \<longleftrightarrow>
     (\<forall>a. a < Next a \<and> occ (Next a) \<and> (\<forall>u. a < u \<and> u < Next a \<longrightarrow> \<not> occ u)) \<and>
     (\<forall>t. occ t \<longrightarrow> t mod Second = 0) \<and> \<not> occ zeroTime"

lemma cron_next:
  assumes "cron_laws Next occ"
  shows "a < Next a" "occ (Next a)" "occ u \<Longrightarrow> a < u \<Longrightarrow> Next a \<le> u" "next_tick Next a = Some (Next a)"
proof -
  show "a < Next a" "occ (Next a)" using assms by (auto simp: cron_laws_def)
  show "occ u \<Longrightarrow> a < u \<Longrightarrow> Next a \<le> u" using assms by (force simp: cron_laws_def)
  have "Next a \<noteq> zeroTime" using assms unfolding cron_laws_def by metis
  then show "next_tick Next a = Some (Next a)"
    using \<open>a < Next a\<close> by (simp add: next_tick_def IsZero_def)
qed

lemma cron_mono:
  assumes "cron_laws Next occ" and "a \<le> b"
  shows "Next a \<le> Next b"
  using cron_next(3) [OF assms(1) cron_next(2) [OF assms(1), of b], of a] cron_next(1) [OF assms(1), of b] assms(2) by linarith

lemma middle_eq:
  fixes l h :: int
  assumes "- (2 ^ 63) \<le> l" and "l < h" and "h < 2 ^ 63"
  shows "unat (word_of_int h - word_of_int l :: 64 word) = nat (h - l)"
    and "word_of_int l + (word_of_int h - word_of_int l :: 64 word) div 2 = word_of_int (l + (h - l) div 2)"
proof -
  have d: "word_of_int h - word_of_int l = (word_of_int (h - l) :: 64 word)" by simp
  have k: "uint (word_of_int k :: 64 word) = k" if "0 \<le> k" "k < 2 ^ 64" for k
    using that by (simp add: uint_word_of_int)
  have u: "uint (word_of_int (h - l) :: 64 word) = h - l"
    by (rule k) (use assms in auto)
  then show "unat (word_of_int h - word_of_int l :: 64 word) = nat (h - l)" unfolding d by (simp add: unat_eq_nat_uint)
  have "(word_of_int (h - l) :: 64 word) div 2 = word_of_int ((h - l) div 2)"
    using u by (simp add: word_div_def)
  then show "word_of_int l + (word_of_int h - word_of_int l :: 64 word) div 2 = word_of_int (l + (h - l) div 2)"
    unfolding d by simp
qed

lemma bisect_last:
  assumes laws: "cron_laws Next occ"
  shows "- (2 ^ 63) \<le> l \<Longrightarrow> l < h \<Longrightarrow> h < 2 ^ 63 \<Longrightarrow> Next (l * Second) \<le> now \<Longrightarrow> now < Next (h * Second) \<Longrightarrow>
    \<exists>m. l \<le> m \<and> m < h \<and> bisect Next now (word_of_int l) (word_of_int h) (Next (l * Second)) = Some (Next (m * Second)) \<and>
      Next (m * Second) \<le> now \<and> now < Next ((m + 1) * Second)"
proof (induction "nat (h - l)" arbitrary: l h rule: less_induct)
  case less
  let ?m = "l + (h - l) div 2"
  note eq = middle_eq [OF less.prems(1-3)]
  have one: "1 < word_of_int h - (word_of_int l :: 64 word) \<longleftrightarrow> 1 < h - l"
    using eq(1) less.prems(2) by (simp add: word_less_nat_alt)
  show ?case
  proof (cases "1 < h - l")
    case False
    then have "h = l + 1" using less.prems(2) by simp
    moreover have "bisect Next now (word_of_int l) (word_of_int h) (Next (l * Second)) = Some (Next (l * Second))"
      using False one by (subst bisect.simps) simp
    ultimately show ?thesis using less.prems by auto
  next
    case True
    then have m: "l < ?m" "?m < h" by linarith+
    have st: "sint (word_of_int ?m :: 64 word) = ?m"
      by (rule sint_word_of_int_64) (use m less.prems in linarith)+
    have step: "bisect Next now (word_of_int l) (word_of_int h) (Next (l * Second)) =
        (if now < Next (?m * Second) then bisect Next now (word_of_int l) (word_of_int ?m) (Next (l * Second))
         else bisect Next now (word_of_int ?m) (word_of_int h) (Next (?m * Second)))"
      using True one eq(2) cron_next(4) [OF laws, of "?m * Second"] st
      by (subst bisect.simps) (simp add: Let_def unix_time_def)
    show ?thesis
    proof (cases "now < Next (?m * Second)")
      case True
      with less.hyps [of ?m l] m less.prems obtain k where "l \<le> k" "k < ?m"
        "bisect Next now (word_of_int l) (word_of_int ?m) (Next (l * Second)) = Some (Next (k * Second))"
        "Next (k * Second) \<le> now" "now < Next ((k + 1) * Second)" by auto
      with True m step show ?thesis by (auto intro!: exI [of _ k])
    next
      case False
      with less.hyps [of h ?m] m less.prems obtain k where "?m \<le> k" "k < h"
        "bisect Next now (word_of_int ?m) (word_of_int h) (Next (?m * Second)) = Some (Next (k * Second))"
        "Next (k * Second) \<le> now" "now < Next ((k + 1) * Second)" by auto
      with False m step show ?thesis by (auto intro!: exI [of _ k])
    qed
  qed
qed

lemma cron_whole:
  assumes "cron_laws Next occ"
  shows "Next a mod Second = 0" "Unix_seconds (Next a) * Second = Next a"
  using assms whole_second [of "Next a"] by (auto simp: cron_laws_def)

lemma whole_less:
  assumes "s * Second < t" and "t mod Second = 0"
  shows "(s + 1) * Second \<le> t"
proof -
  have "t = Unix_seconds t * Second" using whole_second [OF assms(2)] by simp
  with assms(1) have "s < Unix_seconds t" by (simp add: Second_def)
  then have "(s + 1) * Second \<le> Unix_seconds t * Second" by (simp add: Second_def)
  with \<open>t = Unix_seconds t * Second\<close> show ?thesis by simp
qed

lemma Unix_seconds_mono: "s \<le> t \<Longrightarrow> Unix_seconds s \<le> Unix_seconds t"
  by (simp add: Unix_seconds_def zdiv_mono1)

definition last_due :: "(time \<Rightarrow> bool) \<Rightarrow> time \<Rightarrow> time \<Rightarrow> bool" where
  "last_due occ now t \<longleftrightarrow> occ t \<and> t \<le> now \<and> (\<forall>u. occ u \<and> u \<le> now \<longrightarrow> u \<le> t)"

lemma bisect_selects:
  assumes laws: "cron_laws Next occ" and occ: "occ first" and due: "Next first \<le> now"
    and range: "int64_seconds first" "int64_seconds now"
  shows "\<exists>t. bisect Next now (Unix first) (Unix now) (Next first) = Some t \<and> last_due occ now t \<and> first < t \<and> now < Next t"
    and "\<not> Unix now \<le>s Unix first"
proof -
  let ?l = "Unix_seconds first" and ?h = "Unix_seconds now"
  have first: "?l * Second = first" using laws occ whole_second by (auto simp: cron_laws_def)
  have "(?l + 1) * Second \<le> Next first"
    using whole_less [of ?l "Next first"] cron_whole(1) [OF laws] cron_next(1) [OF laws, of first] first by simp
  with due have "(?l + 1) * Second \<le> now" by simp
  with Unix_seconds_less [of now] have lh: "?l < ?h" by (simp add: Second_def)
  have "(?h + 1) * Second \<le> Next (?h * Second)"
    by (rule whole_less [OF cron_next(1) [OF laws] cron_whole(1) [OF laws]])
  with Unix_seconds_less [of now] have future: "now < Next (?h * Second)" by simp
  have b: "- (2 ^ 63) \<le> ?l" "?h < 2 ^ 63" using range by (auto simp: int64_seconds_def)
  from bisect_last [OF laws b(1) lh b(2) _ future] due first obtain m where m: "?l \<le> m"
      "bisect Next now (word_of_int ?l) (word_of_int ?h) (Next first) = Some (Next (m * Second))"
      "Next (m * Second) \<le> now" "now < Next ((m + 1) * Second)" by auto
  let ?t = "Next (m * Second)"
  have "(m + 1) * Second \<le> ?t" by (rule whole_less [OF cron_next(1) [OF laws] cron_whole(1) [OF laws]])
  then have after: "now < Next ?t" using cron_mono [OF laws, of "(m + 1) * Second" ?t] m(4) by simp
  then have "u \<le> ?t" if "occ u" "u \<le> now" for u
    using cron_next(3) [OF laws that(1), of ?t] that(2) by force
  then have last: "last_due occ now ?t" using m(3) cron_next(2) [OF laws] by (simp add: last_due_def)
  have "first \<le> m * Second" using m(1) first mult_right_mono [of ?l m Second] by (simp add: Second_def)
  then have "first < ?t" using cron_next(1) [OF laws, of "m * Second"] by simp
  with last after m(2) show "\<exists>t. bisect Next now (Unix first) (Unix now) (Next first) = Some t \<and>
      last_due occ now t \<and> first < t \<and> now < Next t" by (auto simp: Unix_def)
  show "\<not> Unix now \<le>s Unix first"
    using lh range by (simp add: word_sle_eq Unix_def sint_word_of_int_64 int64_seconds_def)
qed

definition catchup_policy :: "string \<Rightarrow> string" where
  "catchup_policy s = ToLower (TrimSpace s)"

lemma schedule_tick_selects:
  assumes laws: "cron_laws (cron loc) occ" and nz: "\<not> IsZero lastFired" "\<not> IsZero now"
    and range: "int64_seconds lastFired" "int64_seconds now"
    and policy: "catchup_policy policy \<in> {[], ''skip'', ''catch_up''}"
  shows "\<exists>tick after due. selectWorkflowScheduleTick (Some cron) (Some loc) lastFired now policy = Some (tick, after, due) \<and>
     (due \<longleftrightarrow> (\<exists>u. occ u \<and> lastFired < u \<and> u \<le> now)) \<and>
     (due \<longrightarrow> lastFired < tick \<and> after = cron loc tick \<and>
        (if catchup_policy policy = ''catch_up'' then tick = cron loc lastFired \<and> tick \<le> now else last_due occ now tick))"
proof -
  let ?N = "cron loc"
  define first where "first = ?N lastFired"
  note nx = cron_next [OF laws]
  have due: "(\<exists>u. occ u \<and> lastFired < u \<and> u \<le> now) \<longleftrightarrow> first \<le> now"
    using nx(1,2) [of lastFired] nx(3) [of _ lastFired] unfolding first_def by (meson order_trans)
  have lf: "lastFired < first" unfolding first_def by (rule nx(1))
  have pol: "ToLower (TrimSpace policy) = catchup_policy policy" by (simp add: catchup_policy_def)
  note unf = selectWorkflowScheduleTick_def Let_def pol nx(4) first_def [symmetric]
  consider "now < first" | "first \<le> now" "catchup_policy policy = ''catch_up''"
    | "first \<le> now" "catchup_policy policy \<noteq> ''catch_up''" "now < ?N first"
    | "first \<le> now" "catchup_policy policy \<noteq> ''catch_up''" "?N first \<le> now" by force
  then show ?thesis
  proof cases
    case 1
    with nz policy have "selectWorkflowScheduleTick (Some cron) (Some loc) lastFired now policy = Some (first, zeroTime, False)"
      by (simp add: unf)
    with 1 due show ?thesis by auto
  next
    case 2
    with nz policy have "selectWorkflowScheduleTick (Some cron) (Some loc) lastFired now policy = Some (first, ?N first, True)"
      by (simp add: unf)
    with 2 due lf show ?thesis by (auto simp: first_def)
  next
    case 3
    then have "last_due occ now first"
      using nx(2) [of lastFired] nx(3) [of _ first] unfolding last_due_def first_def by fastforce
    moreover from 3 nz policy
    have "selectWorkflowScheduleTick (Some cron) (Some loc) lastFired now policy = Some (first, ?N first, True)"
      by (simp add: unf)
    ultimately show ?thesis using 3 due lf by auto
  next
    case 4
    have "int64_seconds first"
      using range Unix_seconds_mono [of lastFired first] Unix_seconds_mono [of first now] lf 4(1)
      by (simp add: int64_seconds_def)
    note sel = bisect_selects [OF laws _ 4(3) this range(2)]
    have "occ first" unfolding first_def by (rule nx(2))
    from sel [OF this] obtain t where t: "bisect ?N now (Unix first) (Unix now) (?N first) = Some t"
      "last_due occ now t" "first < t" "now < ?N t" "\<not> Unix now \<le>s Unix first" by auto
    then have "t \<le> now" by (simp add: last_due_def)
    with 4 t nz policy
    have "selectWorkflowScheduleTick (Some cron) (Some loc) lastFired now policy = Some (t, ?N t, True)"
      by (simp add: unf)
    with 4 t lf due show ?thesis by auto
  qed
qed

text \<open>C17: The scheduler picks the right cron tick, whatever the length of the backlog: with a baseline and a
  clock within the 64-bit seconds of the bisection, the selection succeeds; it reports a tick as due
  exactly when an occurrence lies after the last fired one and not after now; \<open>catch_up\<close> takes the oldest
  such occurrence, and \<open>skip\<close> (or no policy) the latest occurrence not after now; the next fire time
  is the occurrence that follows the tick.\<close>
theorem schedule_tick_correct:
  assumes "cron_laws (cron loc) occ" and "\<not> IsZero lastFired" "\<not> IsZero now"
    and "int64_seconds lastFired" "int64_seconds now"
    and "catchup_policy policy \<in> {[], ''skip'', ''catch_up''}"
  shows "\<exists>tick after due. selectWorkflowScheduleTick (Some cron) (Some loc) lastFired now policy = Some (tick, after, due) \<and>
     (due \<longleftrightarrow> (\<exists>u. occ u \<and> lastFired < u \<and> u \<le> now)) \<and>
     (due \<longrightarrow> lastFired < tick \<and> after = cron loc tick \<and>
        (if catchup_policy policy = ''catch_up'' then tick = cron loc lastFired \<and> tick \<le> now else last_due occ now tick))"
  using assms by (rule schedule_tick_selects)

text \<open>An example schedule: half past every hour.\<close>

definition Hour :: int where
  "Hour = 3600 * Second"

definition half_past :: "unit \<Rightarrow> time \<Rightarrow> time" where
  "half_past loc t = ((t - 1800 * Second) div Hour + 1) * Hour + 1800 * Second"

definition is_half_past :: "time \<Rightarrow> bool" where
  "is_half_past t \<longleftrightarrow> t mod Hour = 1800 * Second"

lemma half_past_laws: "cron_laws (half_past ()) is_half_past"
proof -
  have "a < half_past () a" for a by (simp add: half_past_def Hour_def Second_def)
  moreover have "is_half_past (half_past () a)" for a
    by (simp add: half_past_def is_half_past_def Hour_def Second_def)
  moreover have "half_past () a \<le> u" if "a < u" "is_half_past u" for a u
  proof -
    have "(u - 1800 * Second) mod Hour = 0"
      using that(2) unfolding is_half_past_def by (metis mod_diff_left_eq diff_self mod_0)
    then obtain k where k: "u - 1800 * Second = Hour * k" by auto
    have "Hour * ((a - 1800 * Second) div Hour) \<le> a - 1800 * Second"
      by (simp add: Hour_def Second_def)
    then have "Hour * ((a - 1800 * Second) div Hour) < Hour * k" using k that(1) by simp
    then have "(a - 1800 * Second) div Hour < k" by (simp add: Hour_def)
    then have "((a - 1800 * Second) div Hour + 1) * Hour \<le> k * Hour" by (simp add: Hour_def)
    with k show ?thesis by (simp add: half_past_def algebra_simps)
  qed
  moreover have "t mod Second = 0" if "is_half_past t" for t
    using that mod_mod_cancel [of Second Hour t] by (simp add: is_half_past_def Hour_def)
  moreover have "\<not> is_half_past zeroTime" by (simp add: is_half_past_def zeroTime_def Hour_def Second_def)
  ultimately show ?thesis unfolding cron_laws_def by (meson linorder_not_le)
qed

text \<open>Three hours of backlog: the skip policy fires the last of three due ticks, and catch-up the first.\<close>
theorem schedule_tick_correct_witness:
  "(\<exists>tick after due. selectWorkflowScheduleTick (Some half_past) (Some ()) 0 (3 * Hour) ''skip'' = Some (tick, after, due) \<and>
     due \<and> last_due is_half_past (3 * Hour) tick) \<and>
   (\<exists>after. selectWorkflowScheduleTick (Some half_past) (Some ()) 0 (3 * Hour) ''catch_up'' = Some (1800 * Second, after, True))"
proof -
  have p: "catchup_policy ''skip'' = ''skip''" "catchup_policy ''catch_up'' = ''catch_up''"
    by (simp_all add: catchup_policy_def ToLower_def TrimSpace_def TrimLeft_def is_space_def lower_char_def)
  have nz: "\<not> IsZero 0" "\<not> IsZero (3 * Hour)" "int64_seconds 0" "int64_seconds (3 * Hour)"
    by (simp_all add: IsZero_def zeroTime_def Hour_def Second_def int64_seconds_def Unix_seconds_def)
  have "is_half_past (1800 * Second) \<and> 0 < 1800 * Second \<and> 1800 * Second \<le> 3 * Hour"
    by (simp add: is_half_past_def Hour_def Second_def)
  then have occ: "(\<exists>u. is_half_past u \<and> 0 < u \<and> u \<le> 3 * Hour) = True" by blast
  have first: "half_past () 0 = 1800 * Second" by (simp add: half_past_def Hour_def Second_def)
  show ?thesis
    using schedule_tick_correct [of half_past "()" is_half_past 0 "3 * Hour" "''skip''"] half_past_laws nz p(1) occ
      schedule_tick_correct [of half_past "()" is_half_past 0 "3 * Hour" "''catch_up''"] p(2) first
    unfolding occ by auto
qed

end
