(* ===== verification/Once_Ledger.thy ===== *)
theory Once_Ledger
  imports Go_Prelude
begin

text \<open>
  The interface of a durable table that hands out a piece of work at most once. \<open>claim r d\<close> is an attempt
  of the request \<open>r\<close> on the table \<open>d\<close>; it says whether this attempt has won its work \<open>item r\<close>, and returns
  the table after the attempt. The laws are the ones that the database gives single statements and
  transactions: attempts are atomic, so what many workers do is a list of attempts, in any order. The
  scheduler claims cron ticks in \<open>workflow_schedule_state\<close>, the event trigger loop claims pairs of a
  workflow and an event in \<open>event_log\<close>, and asynchronous dispatch claims idempotency keys in
  \<open>workflow_runs\<close>.
\<close>

locale once_ledger =
  fixes claim :: "'r \<Rightarrow> 'd \<Rightarrow> bool \<times> 'd"
    and item :: "'r \<Rightarrow> 'k"
    and claimed :: "'d \<Rightarrow> 'k \<Rightarrow> bool"
  assumes claim_fresh: "claim r d = (True, d') \<Longrightarrow> \<not> claimed d (item r) \<and> claimed d' (item r)"
    and claim_mono: "claim r d = (won, d') \<Longrightarrow> claimed d k \<Longrightarrow> claimed d' k"
begin

fun history :: "'r list \<Rightarrow> 'd \<Rightarrow> 'r list \<times> 'd" where
  "history [] d = ([], d)"
| "history (r # rs) d =
     (case claim r d of (won, d1) \<Rightarrow>
        (case history rs d1 of (ws, d2) \<Rightarrow> (if won then r # ws else ws, d2)))"

lemma history_mono: "history rs d = (ws, d') \<Longrightarrow> claimed d k \<Longrightarrow> claimed d' k"
proof (induction rs arbitrary: d ws d')
  case (Cons r rs)
  obtain won d1 where c: "claim r d = (won, d1)" by (cases "claim r d")
  obtain vs d2 where h: "history rs d1 = (vs, d2)" by (cases "history rs d1")
  have "claimed d1 k" using claim_mono [OF c] Cons.prems(2) .
  with Cons.IH [OF h] Cons.prems(1) c h show ?case by simp
qed simp

lemma history_once:
  "history rs d = (ws, d') \<Longrightarrow>
     distinct (map item ws) \<and> set ws \<subseteq> set rs \<and> (\<forall>r\<in>set ws. \<not> claimed d (item r) \<and> claimed d' (item r))"
proof (induction rs arbitrary: d ws d')
  case (Cons r rs)
  obtain won d1 where c: "claim r d = (won, d1)" by (cases "claim r d")
  obtain vs d2 where h: "history rs d1 = (vs, d2)" by (cases "history rs d1")
  have eq: "ws = (if won then r # vs else vs)" "d' = d2" using Cons.prems c h by (auto split: if_splits)
  note ih = Cons.IH [OF h]
  have fresh: "\<not> claimed d (item v)" if "v \<in> set vs" for v
    using claim_mono [OF c, of "item v"] ih that by blast
  show ?case
  proof (cases won)
    case True
    with c claim_fresh [of r d d1] have j: "\<not> claimed d (item r)" "claimed d1 (item r)" by simp_all
    then have "item r \<notin> item ` set vs" using ih by auto
    moreover have "claimed d2 (item r)" using history_mono [OF h] j(2) by blast
    ultimately show ?thesis using True eq ih fresh j(1) by auto
  next
    case False
    with eq ih fresh show ?thesis by auto
  qed
qed simp

end

end
