(* ===== verification/Dispatch_Lock.thy ===== *)
theory Dispatch_Lock
  imports Go_Prelude
begin

text \<open>
  The emergency lock of workflow dispatch, \<open>internal/workflowdispatchlock/policy.go\<close>. The environment is an
  \<open>option\<close>, \<^term>\<open>None\<close> when the variable is not set; the strict JSON decoder is the argument \<open>decode\<close>, which
  returns the configuration and whether the end of the input follows it.
\<close>

record WorkflowRef =
  wref_namespace :: string
  wref_name :: string

record config =
  cfg_mode :: string
  cfg_allowed :: "WorkflowRef list"

record LockPolicy =
  lock_mode :: string
  lock_allowed :: "WorkflowRef list"

datatype lock_error =
    LockBlank
  | LockJSON
  | LockTrailing
  | LockOffNotEmpty
  | LockEnforceEmpty
  | LockMode
  | LockItemRequired nat
  | LockItemSpace nat
  | LockItemWildcard nat
  | LockItemDuplicate nat

datatype lock_refusal =
    InvalidConfiguration
  | NotAllowlisted string string
  | UnboundDisabled
  | RepositoryBindingDisabled
  | ManifestMutationDisabled
  | ControlPlaneMutationDisabled

definition modeOff :: string where
  "modeOff = ''off''"

definition modeEnforce :: string where
  "modeEnforce = ''enforce''"

fun parse_refs :: "nat \<Rightarrow> WorkflowRef list \<Rightarrow> WorkflowRef list \<Rightarrow> lock_error + WorkflowRef list" where
  "parse_refs index allowed [] = Inr allowed"
| "parse_refs index allowed (rawRef # rest) =
     (let ref = \<lparr>wref_namespace = TrimSpace (wref_namespace rawRef), wref_name = TrimSpace (wref_name rawRef)\<rparr> in
      if wref_namespace ref = [] \<or> wref_name ref = [] then Inl (LockItemRequired index)
      else if wref_namespace ref \<noteq> wref_namespace rawRef \<or> wref_name ref \<noteq> wref_name rawRef then Inl (LockItemSpace index)
      else if ContainsAny (wref_namespace ref) ''*?['' \<or> ContainsAny (wref_name ref) ''*?['' then Inl (LockItemWildcard index)
      else if ref \<in> set allowed then Inl (LockItemDuplicate index)
      else parse_refs (Suc index) (ref # allowed) rest)"

definition Parse :: "(string \<Rightarrow> (config \<times> bool) option) \<Rightarrow> string option \<Rightarrow> lock_error + LockPolicy" where
  "Parse decode env =
     (case env of
        None \<Rightarrow> Inr \<lparr>lock_mode = modeOff, lock_allowed = []\<rparr>
      | Some raw \<Rightarrow>
          if TrimSpace raw = [] then Inl LockBlank
          else (case decode raw of
              None \<Rightarrow> Inl LockJSON
            | Some (cfg, eof) \<Rightarrow>
                if \<not> eof then Inl LockTrailing
                else let mode = ToLower (TrimSpace (cfg_mode cfg)) in
                if mode = modeOff then
                  (if cfg_allowed cfg \<noteq> [] then Inl LockOffNotEmpty
                   else Inr \<lparr>lock_mode = modeOff, lock_allowed = []\<rparr>)
                else if mode = modeEnforce then
                  (if cfg_allowed cfg = [] then Inl LockEnforceEmpty
                   else map_sum id (\<lambda>allowed. \<lparr>lock_mode = modeEnforce, lock_allowed = allowed\<rparr>)
                     (parse_refs 0 [] (cfg_allowed cfg)))
                else Inl LockMode))"

definition Enforced :: "LockPolicy \<Rightarrow> bool" where
  "Enforced p \<longleftrightarrow> lock_mode p = modeEnforce"

definition Check :: "LockPolicy \<Rightarrow> string \<Rightarrow> string \<Rightarrow> lock_refusal option" where
  "Check p namespace name =
     (if \<not> Enforced p then None
      else if \<lparr>wref_namespace = namespace, wref_name = name\<rparr> \<in> set (lock_allowed p) then None
      else Some (NotAllowlisted namespace name))"

definition CheckEnvironment ::
  "(string \<Rightarrow> (config \<times> bool) option) \<Rightarrow> string option \<Rightarrow> string \<Rightarrow> string \<Rightarrow> lock_refusal option" where
  "CheckEnvironment decode env namespace name =
     (case Parse decode env of Inl e \<Rightarrow> Some InvalidConfiguration | Inr policy \<Rightarrow> Check policy namespace name)"

text \<open>The four gates of surfaces without a stored workflow differ in the refusal only.\<close>

definition refuse_when_enforced ::
  "(string \<Rightarrow> (config \<times> bool) option) \<Rightarrow> string option \<Rightarrow> lock_refusal \<Rightarrow> lock_refusal option" where
  "refuse_when_enforced decode env refusal =
     (case Parse decode env of
        Inl e \<Rightarrow> Some InvalidConfiguration
      | Inr policy \<Rightarrow> if Enforced policy then Some refusal else None)"

definition CheckUnboundEnvironment where
  "CheckUnboundEnvironment decode env = refuse_when_enforced decode env UnboundDisabled"

definition CheckRepositoryBindingDispatchEnvironment where
  "CheckRepositoryBindingDispatchEnvironment decode env = refuse_when_enforced decode env RepositoryBindingDisabled"

definition CheckManifestMutationEnvironment where
  "CheckManifestMutationEnvironment decode env = refuse_when_enforced decode env ManifestMutationDisabled"

definition CheckControlPlaneMutationEnvironment where
  "CheckControlPlaneMutationEnvironment decode env = refuse_when_enforced decode env ControlPlaneMutationDisabled"

section \<open>Facts\<close>

definition exact_ref :: "WorkflowRef \<Rightarrow> bool" where
  "exact_ref r \<longleftrightarrow> wref_namespace r \<noteq> [] \<and> wref_name r \<noteq> [] \<and>
     TrimSpace (wref_namespace r) = wref_namespace r \<and> TrimSpace (wref_name r) = wref_name r \<and>
     \<not> ContainsAny (wref_namespace r) ''*?['' \<and> \<not> ContainsAny (wref_name r) ''*?[''"

lemma parse_refs_Inr:
  "parse_refs index allowed refs = Inr out \<longleftrightarrow>
     list_all exact_ref refs \<and> distinct refs \<and> set refs \<inter> set allowed = {} \<and> out = rev refs @ allowed"
proof (induction refs arbitrary: index allowed)
  case (Cons r refs)
  have eq: "\<lparr>wref_namespace = wref_namespace r, wref_name = wref_name r\<rparr> = r" by simp
  show ?case
  proof (cases "exact_ref r \<and> r \<notin> set allowed")
    case True
    then have "parse_refs index allowed (r # refs) = parse_refs (Suc index) (r # allowed) refs"
      by (simp add: exact_ref_def Let_def eq)
    with True Cons.IH [of "Suc index" "r # allowed"] show ?thesis by auto
  next
    case False
    then have "\<nexists>out. parse_refs index allowed (r # refs) = Inr out"
      by (auto simp: exact_ref_def Let_def eq)
    with False show ?thesis by auto
  qed
qed auto

text \<open>A configuration that parses to an enforced policy, and one that leaves the lock open.\<close>

definition lock_open :: "(string \<Rightarrow> (config \<times> bool) option) \<Rightarrow> string option \<Rightarrow> bool" where
  "lock_open decode env \<longleftrightarrow>
     (case env of None \<Rightarrow> True
      | Some raw \<Rightarrow> TrimSpace raw \<noteq> [] \<and>
          (\<exists>cfg. decode raw = Some (cfg, True) \<and> ToLower (TrimSpace (cfg_mode cfg)) = ''off'' \<and> cfg_allowed cfg = []))"

definition lock_lists :: "(string \<Rightarrow> (config \<times> bool) option) \<Rightarrow> string option \<Rightarrow> WorkflowRef list \<Rightarrow> bool" where
  "lock_lists decode env refs \<longleftrightarrow>
     (\<exists>raw cfg. env = Some raw \<and> TrimSpace raw \<noteq> [] \<and> decode raw = Some (cfg, True) \<and>
        ToLower (TrimSpace (cfg_mode cfg)) = ''enforce'' \<and> cfg_allowed cfg = refs \<and> refs \<noteq> [] \<and>
        list_all exact_ref refs \<and> distinct refs)"

lemma Parse_cases:
  "Parse decode env = Inr p \<longleftrightarrow>
     lock_open decode env \<and> p = \<lparr>lock_mode = modeOff, lock_allowed = []\<rparr> \<or>
     (\<exists>refs. lock_lists decode env refs \<and> p = \<lparr>lock_mode = modeEnforce, lock_allowed = rev refs\<rparr>)"
proof (cases env)
  case None
  then show ?thesis by (auto simp: Parse_def lock_open_def lock_lists_def)
next
  case (Some raw)
  show ?thesis
  proof (cases "TrimSpace raw = [] \<or> decode raw = None")
    case True
    with Some show ?thesis by (auto simp: Parse_def lock_open_def lock_lists_def)
  next
    case False
    then obtain cfg eof where d: "decode raw = Some (cfg, eof)" by auto
    have ms: "map_sum id f x = Inr y \<longleftrightarrow> (\<exists>z. x = Inr z \<and> y = f z)" for f :: "WorkflowRef list \<Rightarrow> LockPolicy" and x :: "lock_error + WorkflowRef list" and y
      by (cases x) auto
    from Some False d show ?thesis
      by (auto simp: Parse_def lock_open_def lock_lists_def Let_def modeOff_def modeEnforce_def ms parse_refs_Inr)
  qed
qed

lemma open_not_listed: "lock_open decode env \<Longrightarrow> \<not> lock_lists decode env refs"
  by (auto simp: lock_open_def lock_lists_def split: option.splits)

section \<open>Properties\<close>

text \<open>The emergency lock is fail-closed and exact. A workflow may be dispatched exactly when the variable is
  not set, or it switches the lock off with an empty list, or it enforces a well-formed list that names
  this namespace and name literally; every malformed setting refuses every workflow.\<close>
theorem dispatch_lock_permits_iff:
  "CheckEnvironment decode env namespace name = None \<longleftrightarrow>
     lock_open decode env \<or>
     (\<exists>refs. lock_lists decode env refs \<and> \<lparr>wref_namespace = namespace, wref_name = name\<rparr> \<in> set refs)"
proof (cases "Parse decode env")
  case (Inl e)
  then have "\<not> lock_open decode env" "\<And>refs. \<not> lock_lists decode env refs"
    using Parse_cases [of decode env] by auto
  with Inl show ?thesis by (simp add: CheckEnvironment_def)
next
  case (Inr p)
  then have "lock_open decode env \<and> p = \<lparr>lock_mode = modeOff, lock_allowed = []\<rparr> \<or>
     (\<exists>refs. lock_lists decode env refs \<and> p = \<lparr>lock_mode = modeEnforce, lock_allowed = rev refs\<rparr>)"
    by (simp add: Parse_cases)
  then show ?thesis
  proof (elim disjE conjE exE)
    assume "lock_open decode env" "p = \<lparr>lock_mode = modeOff, lock_allowed = []\<rparr>"
    with Inr show ?thesis by (simp add: CheckEnvironment_def Check_def Enforced_def modeOff_def modeEnforce_def)
  next
    fix refs assume r: "lock_lists decode env refs" "p = \<lparr>lock_mode = modeEnforce, lock_allowed = rev refs\<rparr>"
    have "lock_lists decode env refs' \<longleftrightarrow> refs' = refs" for refs' using r(1) by (auto simp: lock_lists_def)
    moreover have "\<not> lock_open decode env" using open_not_listed r(1) by blast
    moreover have "CheckEnvironment decode env namespace name = None \<longleftrightarrow>
        \<lparr>wref_namespace = namespace, wref_name = name\<rparr> \<in> set refs"
      using Inr r(2) by (simp add: CheckEnvironment_def Check_def Enforced_def)
    ultimately show ?thesis by simp
  qed
qed

text \<open>Surfaces that are not bound to a stored workflow are closed by every enforcing or malformed setting:
  unbound dispatch, repository bindings, manifest changes and direct changes of the control plane pass
  exactly when the lock is open, whatever the list of workflows says.\<close>
theorem unbound_surfaces_need_open_lock:
  "(CheckUnboundEnvironment decode env = None \<longleftrightarrow> lock_open decode env) \<and>
   (CheckRepositoryBindingDispatchEnvironment decode env = None \<longleftrightarrow> lock_open decode env) \<and>
   (CheckManifestMutationEnvironment decode env = None \<longleftrightarrow> lock_open decode env) \<and>
   (CheckControlPlaneMutationEnvironment decode env = None \<longleftrightarrow> lock_open decode env)"
proof -
  have "refuse_when_enforced decode env r = None \<longleftrightarrow> lock_open decode env" for r
  proof (cases "Parse decode env")
    case (Inl e)
    then have "\<not> lock_open decode env" using Parse_cases [of decode env] by auto
    with Inl show ?thesis by (simp add: refuse_when_enforced_def)
  next
    case (Inr p)
    consider "lock_open decode env" "lock_mode p = modeOff" | refs where "lock_lists decode env refs" "lock_mode p = modeEnforce"
      using Parse_cases [of decode env p] Inr by force
    then show ?thesis
    proof cases
      case 1
      with Inr show ?thesis by (simp add: refuse_when_enforced_def Enforced_def modeOff_def modeEnforce_def)
    next
      case 2
      with Inr open_not_listed [of decode env refs] show ?thesis
        by (auto simp: refuse_when_enforced_def Enforced_def)
    qed
  qed
  then show ?thesis
    by (simp add: CheckUnboundEnvironment_def CheckRepositoryBindingDispatchEnvironment_def
        CheckManifestMutationEnvironment_def CheckControlPlaneMutationEnvironment_def)
qed

end
