(* ===== verification/Workflow_Scheduler.thy ===== *)
theory Workflow_Scheduler
  imports Workflow_Schedule Once_Ledger Dispatch_Lock Workflow_Engine
begin

text \<open>
  A pass of the scheduler of cron-triggered workflows, \<open>addons/workflow_scheduler.go\<close>, with the table
  \<open>workflow_schedule_state\<close> of \<open>repository/workflow_trigger.go\<close>. What a pass reads from the outside (the
  emergency lock, the cron and time libraries, the broker, the capacity service, and the success of each
  database statement) is the record \<open>sched_io\<close>; a failed or rolled-back transaction leaves the database as
  it was. Planning a tick only reads; firing it is one transaction, so the two are separate definitions,
  and between a worker's plan and its transaction other workers may fire.
\<close>

datatype sched_error =
    CronInvalid
  | StateReadFailed
  | TickSelectionInvalid
  | ManifestIDInvalid
  | ServiceRefused string
  | OwnerLookupFailed string
  | OwnerUnavailable
  | BeginFailed
  | UpsertFailed
  | EnqueueFailed
  | CommitFailed

datatype fire_result = NotWon | Fired | FireFailed sched_error

datatype sched_lookup = LookupRow string string | LookupNoRows | LookupError string

record 'j sched_db =
  sdb_state :: "string \<Rightarrow> (time \<times> time) option"  \<comment> \<open>\<open>last_fired_at\<close> and \<open>next_fire_at\<close> by manifest\<close>
  sdb_jobs :: "'j list"                           \<comment> \<open>capacity dispatch jobs\<close>
  sdb_events :: "gmap list"                       \<comment> \<open>payloads of \<open>workflow.schedule.fired\<close>\<close>
  sdb_runs :: "(string \<times> time \<times> RunWorkflowRequest) list"  \<comment> \<open>started runs, with their tick\<close>

record ('z, 'j) sched_io =
  io_decode :: "string \<Rightarrow> (config \<times> bool) option"
  io_env :: "string option"
  io_cron :: "string \<Rightarrow> ('z \<Rightarrow> time \<Rightarrow> time) option"
  io_utc :: 'z
  io_location :: "string \<Rightarrow> 'z option"
  io_rfc3339 :: "string \<Rightarrow> time option"
  io_format :: "time \<Rightarrow> string"
  io_uuid :: "string \<Rightarrow> bool"
  io_service :: "(string \<Rightarrow> time \<Rightarrow> string + 'j option) option"
  io_requires_owner :: "string \<Rightarrow> string + bool"
  io_read_ok :: bool
  io_broker_before :: bool
  io_begin_ok :: bool
  io_upsert_ok :: bool
  io_enqueue_ok :: bool
  io_emit_ok :: bool
  io_commit_ok :: bool
  io_broker_after :: bool
  io_lookup :: "string \<Rightarrow> sched_lookup"
  io_lookup_again :: "string \<Rightarrow> sched_lookup"
  io_cancelled :: bool
  io_prepare :: "RunWorkflowRequest \<Rightarrow> string + RunWorkflowRequest"

definition UpsertWorkflowScheduleState ::
  "string \<Rightarrow> time \<Rightarrow> time \<Rightarrow> (string \<Rightarrow> (time \<times> time) option) \<Rightarrow> bool \<times> (string \<Rightarrow> (time \<times> time) option)" where
  "UpsertWorkflowScheduleState m lastFiredAt nextFireAt st =
     (case st m of
        None \<Rightarrow> (True, st(m \<mapsto> (lastFiredAt, nextFireAt)))
      | Some (l, n) \<Rightarrow> if l < lastFiredAt then (True, st(m \<mapsto> (lastFiredAt, nextFireAt))) else (False, st))"

text \<open>The zero time stands for a missing row.\<close>

definition GetWorkflowScheduleState :: "string \<Rightarrow> (string \<Rightarrow> (time \<times> time) option) \<Rightarrow> time" where
  "GetWorkflowScheduleState m st = (case st m of None \<Rightarrow> zeroTime | Some (l, n) \<Rightarrow> l)"

definition schedule_location :: "('z, 'j) sched_io \<Rightarrow> string \<Rightarrow> 'z" where
  "schedule_location io timezone =
     (let tz = TrimSpace timezone in
      if tz \<noteq> [] then (case io_location io tz of Some loc \<Rightarrow> loc | None \<Rightarrow> io_utc io) else io_utc io)"

definition schedule_baseline :: "('z, 'j) sched_io \<Rightarrow> WorkflowScheduleTriggerSpec \<Rightarrow> time \<Rightarrow> time \<Rightarrow> time" where
  "schedule_baseline io schedule lastFired now =
     (if \<not> IsZero lastFired then lastFired
      else let start = (if sched_start_at schedule \<noteq> [] then
                          (case io_rfc3339 io (sched_start_at schedule) of Some t \<Rightarrow> t | None \<Rightarrow> lastFired)
                        else lastFired)
           in if IsZero start then now - 3600 * Second else start)"

definition past_end :: "('z, 'j) sched_io \<Rightarrow> WorkflowScheduleTriggerSpec \<Rightarrow> time \<Rightarrow> bool" where
  "past_end io schedule now \<longleftrightarrow>
     sched_end_at schedule \<noteq> [] \<and>
     (case io_rfc3339 io (sched_end_at schedule) of Some endAt \<Rightarrow> endAt < now | None \<Rightarrow> False)"

text \<open>\<open>prepared\<close> of the capacity service, or the refusal of a protected schedule without one.\<close>

definition prepare_capacity :: "('z, 'j) sched_io \<Rightarrow> string \<Rightarrow> time \<Rightarrow> sched_error + 'j option" where
  "prepare_capacity io m tick =
     (case io_service io of
        Some service \<Rightarrow>
          if \<not> io_uuid io m then Inl ManifestIDInvalid
          else map_sum ServiceRefused id (service m tick)
      | None \<Rightarrow>
          (case io_requires_owner io m of
             Inl e \<Rightarrow> Inl (OwnerLookupFailed e)
           | Inr requiresOwner \<Rightarrow> if requiresOwner then Inl OwnerUnavailable else Inr None))"

definition plan_tick ::
  "('z, 'j) sched_io \<Rightarrow> string \<Rightarrow> string \<Rightarrow> string \<Rightarrow> WorkflowScheduleTriggerSpec \<Rightarrow> time
     \<Rightarrow> (string \<Rightarrow> (time \<times> time) option) \<Rightarrow> sched_error + (time \<times> time \<times> 'j option) option" where
  "plan_tick io m namespace name schedule now st =
     (if CheckEnvironment (io_decode io) (io_env io) namespace name \<noteq> None then Inr None
      else case io_cron io (sched_cron schedule) of
        None \<Rightarrow> Inl CronInvalid
      | Some sched \<Rightarrow>
          if \<not> io_read_ok io then Inl StateReadFailed
          else (case selectWorkflowScheduleTick (Some sched) (Some (schedule_location io (sched_timezone schedule)))
                       (schedule_baseline io schedule (GetWorkflowScheduleState m st) now) now (sched_catchup schedule) of
              None \<Rightarrow> Inl TickSelectionInvalid
            | Some (nextFire, nextAfterFire, due) \<Rightarrow>
                if \<not> due \<or> past_end io schedule now then Inr None
                else (case prepare_capacity io m nextFire of
                    Inl e \<Rightarrow> Inl e
                  | Inr prepared \<Rightarrow>
                      if prepared = None \<and> \<not> io_broker_before io then Inr None
                      else Inr (Some (nextFire, nextAfterFire, prepared)))))"

definition fired_payload :: "('z, 'j) sched_io \<Rightarrow> string \<Rightarrow> WorkflowScheduleTriggerSpec \<Rightarrow> time \<Rightarrow> gmap" where
  "fired_payload io m schedule tick =
     [(''workflow_manifest_id'', GStr m),
      (''scheduled_for'', GStr (io_format io tick)),
      (''cron_expression'', GStr (sched_cron schedule))] @
     (if sched_timezone schedule \<noteq> [] then [(''timezone'', GStr (sched_timezone schedule))] else []) @
     (if sched_inputs schedule \<noteq> [] then [(''default_inputs'', GMap (sched_inputs schedule))] else [])"

definition dispatch_lookup :: "('z, 'j) sched_io \<Rightarrow> string \<Rightarrow> string + string \<times> string" where
  "dispatch_lookup io m =
     (case io_lookup io m of
        LookupRow namespace name \<Rightarrow> Inr (namespace, name)
      | LookupError e \<Rightarrow> Inl e
      | LookupNoRows \<Rightarrow>
          if io_cancelled io then Inl ''context canceled''
          else (case io_lookup_again io m of
              LookupRow namespace name \<Rightarrow> Inr (namespace, name)
            | LookupError e \<Rightarrow> Inl e
            | LookupNoRows \<Rightarrow> Inl ''sql: no rows in result set''))"

definition dispatchScheduledRun ::
  "('z, 'j) sched_io \<Rightarrow> string \<Rightarrow> WorkflowScheduleTriggerSpec \<Rightarrow> time \<Rightarrow> string + RunWorkflowRequest" where
  "dispatchScheduledRun io m schedule scheduledFor =
     (case dispatch_lookup io m of
        Inl e \<Rightarrow> Inl e
      | Inr (namespace, name) \<Rightarrow>
          io_prepare io
            \<lparr>rq_workflow = \<lparr>sel_manifest_id = [], sel_namespace = namespace, sel_name = name, sel_version = None\<rparr>,
             rq_inputs = sched_inputs schedule,
             rq_token = [],
             rq_metadata = [(''triggered_by'', GStr ''workflow_scheduler''),
                            (''manifest_id'', GStr m),
                            (''scheduled_for'', GStr (io_format io scheduledFor))]\<rparr>)"

definition fire_tick ::
  "('z, 'j) sched_io \<Rightarrow> string \<Rightarrow> WorkflowScheduleTriggerSpec \<Rightarrow> time \<times> time \<times> 'j option \<Rightarrow> 'j sched_db
     \<Rightarrow> fire_result \<times> 'j sched_db" where
  "fire_tick io m schedule plan db =
     (case plan of (nextFire, nextAfterFire, prepared) \<Rightarrow>
        if \<not> io_begin_ok io then (FireFailed BeginFailed, db)
        else if \<not> io_upsert_ok io then (FireFailed UpsertFailed, db)
        else (case UpsertWorkflowScheduleState m nextFire nextAfterFire (sdb_state db) of
            (False, _) \<Rightarrow> (NotWon, db)
          | (True, st) \<Rightarrow>
              if prepared \<noteq> None \<and> \<not> io_enqueue_ok io then (FireFailed EnqueueFailed, db)
              else if \<not> io_commit_ok io then (FireFailed CommitFailed, db)
              else let db1 = db\<lparr>sdb_state := st,
                                 sdb_jobs := sdb_jobs db @ (case prepared of None \<Rightarrow> [] | Some j \<Rightarrow> [j]),
                                 sdb_events := sdb_events db @ (if io_emit_ok io then [fired_payload io m schedule nextFire] else [])\<rparr>
                   in if prepared \<noteq> None \<or> \<not> io_broker_after io then (Fired, db1)
                      else (case dispatchScheduledRun io m schedule nextFire of
                          Inl e \<Rightarrow> (Fired, db1)
                        | Inr req \<Rightarrow> (Fired, db1\<lparr>sdb_runs := sdb_runs db1 @ [(m, nextFire, req)]\<rparr>))))"

definition processScheduledWorkflow ::
  "('z, 'j) sched_io \<Rightarrow> string \<Rightarrow> string \<Rightarrow> string \<Rightarrow> WorkflowScheduleTriggerSpec \<Rightarrow> time \<Rightarrow> 'j sched_db
     \<Rightarrow> sched_error option \<times> 'j sched_db" where
  "processScheduledWorkflow io m namespace name schedule now db =
     (case plan_tick io m namespace name schedule now (sdb_state db) of
        Inl e \<Rightarrow> (Some e, db)
      | Inr None \<Rightarrow> (None, db)
      | Inr (Some plan) \<Rightarrow>
          (case fire_tick io m schedule plan db of
             (FireFailed e, db') \<Rightarrow> (Some e, db')
           | (_, db') \<Rightarrow> (None, db')))"

text \<open>
  The rows of the query for active workflows of trigger mode \<open>schedule\<close>; \<^term>\<open>None\<close> is a row or a spec that
  does not decode.
\<close>

definition scheduled_candidates ::
  "(string \<times> string \<times> string \<times> WorkflowTriggerSpec) option list \<Rightarrow> (string \<times> string \<times> string \<times> WorkflowScheduleTriggerSpec) list" where
  "scheduled_candidates rows =
     List.map_filter (\<lambda>row. case row of
         None \<Rightarrow> None
       | Some (m, namespace, name, trigger) \<Rightarrow>
           (case trig_schedule trigger of
              None \<Rightarrow> None
            | Some schedule \<Rightarrow>
                if trig_enabled trigger = Some False then None else Some (m, namespace, name, schedule))) rows"

text \<open>One pass: an error of one workflow is logged, and the pass goes on with the next.\<close>

definition runWorkflowSchedulerPass ::
  "(string \<Rightarrow> ('z, 'j) sched_io) \<Rightarrow> (string \<times> string \<times> string \<times> WorkflowTriggerSpec) option list \<Rightarrow> time
     \<Rightarrow> 'j sched_db \<Rightarrow> 'j sched_db" where
  "runWorkflowSchedulerPass io rows now db =
     fold (\<lambda>(m, namespace, name, schedule) d. snd (processScheduledWorkflow (io m) m namespace name schedule now d))
       (scheduled_candidates rows) db"

section \<open>The table of fired ticks hands out a tick once\<close>

definition claim_tick ::
  "('z, 'j) sched_io \<times> string \<times> WorkflowScheduleTriggerSpec \<times> time \<times> time \<times> 'j option \<Rightarrow> 'j sched_db \<Rightarrow> bool \<times> 'j sched_db" where
  "claim_tick r db = (case r of (io, m, schedule, plan) \<Rightarrow> (case fire_tick io m schedule plan db of (res, db') \<Rightarrow> (res = Fired, db')))"

definition request_tick :: "('z, 'j) sched_io \<times> string \<times> WorkflowScheduleTriggerSpec \<times> time \<times> time \<times> 'j option \<Rightarrow> string \<times> time" where
  "request_tick r = (case r of (io, m, schedule, nextFire, _) \<Rightarrow> (m, nextFire))"

definition tick_claimed :: "'j sched_db \<Rightarrow> string \<times> time \<Rightarrow> bool" where
  "tick_claimed db k = (case sdb_state db (fst k) of None \<Rightarrow> False | Some (l, n) \<Rightarrow> snd k \<le> l)"

lemma fire_tick_cases:
  assumes "fire_tick io m schedule (t, after, prepared) db = (res, db')"
  obtains (kept) "res \<noteq> Fired" "db' = db"
  | (fired) "res = Fired" "\<And>l n. sdb_state db m = Some (l, n) \<Longrightarrow> l < t" "sdb_state db' = (sdb_state db)(m \<mapsto> (t, after))"
      "sdb_jobs db' = sdb_jobs db @ (case prepared of None \<Rightarrow> [] | Some j \<Rightarrow> [j])"
      "sdb_runs db' = sdb_runs db \<or> (\<exists>req. sdb_runs db' = sdb_runs db @ [(m, t, req)])"
proof (cases "res = Fired")
  case True
  with assms obtain st where u: "UpsertWorkflowScheduleState m t after (sdb_state db) = (True, st)"
    by (auto simp: fire_tick_def split: if_splits prod.splits bool.splits)
  then have st: "st = (sdb_state db)(m \<mapsto> (t, after))" "\<And>l n. sdb_state db m = Some (l, n) \<Longrightarrow> l < t"
    by (auto simp: UpsertWorkflowScheduleState_def split: option.splits prod.splits if_splits)
  show thesis
    by (rule fired [OF True st(2)])
      (use assms True u st(1) in \<open>auto simp: fire_tick_def Let_def split: if_splits sum.splits\<close>)
next
  case False
  with assms have "db' = db"
    by (auto simp: fire_tick_def Let_def split: if_splits sum.splits prod.splits bool.splits)
  with False show thesis by (rule kept)
qed

lemma claim_tick_apply:
  "fire_tick io m schedule plan db = (res, db') \<Longrightarrow> claim_tick (io, m, schedule, plan) db = (res = Fired, db')"
  by (simp add: claim_tick_def)

interpretation tick_ledger: once_ledger claim_tick request_tick tick_claimed
proof
  fix r :: "('z, 'j) sched_io \<times> string \<times> WorkflowScheduleTriggerSpec \<times> time \<times> time \<times> 'j option" and d d' :: "'j sched_db" and won k
  obtain io m schedule t after prepared where r: "r = (io, m, schedule, t, after, prepared)" by (cases r)
  obtain res d1 where f: "fire_tick io m schedule (t, after, prepared) d = (res, d1)"
    by (cases "fire_tick io m schedule (t, after, prepared) d")
  note c = claim_tick_apply [OF f, folded r]
  {
    assume "claim_tick r d = (True, d')"
    with c have "res = Fired" "d' = d1" by simp_all
    with f r show "\<not> tick_claimed d (request_tick r) \<and> tick_claimed d' (request_tick r)"
      by (elim fire_tick_cases) (auto simp: request_tick_def tick_claimed_def split: option.splits)
  next
    assume "claim_tick r d = (won, d')" "tick_claimed d k"
    with c have "d' = d1" by simp
    with f \<open>tick_claimed d k\<close> show "tick_claimed d' k"
      by (elim fire_tick_cases) (auto simp: tick_claimed_def split: option.splits)
  }
qed

text \<open>The runs that the database records belong to claimed ticks, each to its own.\<close>

definition runs_unique :: "'j sched_db \<Rightarrow> bool" where
  "runs_unique db \<longleftrightarrow> distinct (map (\<lambda>(m, t, req). (m, t)) (sdb_runs db)) \<and>
     list_all (\<lambda>(m, t, req). tick_claimed db (m, t)) (sdb_runs db)"

lemma fire_tick_runs_unique:
  assumes "runs_unique db" and "fire_tick io m schedule plan db = (res, db')"
  shows "runs_unique db'"
proof -
  obtain t after prepared where p: "plan = (t, after, prepared)" by (cases plan)
  from assms(2) [unfolded p] show ?thesis
  proof (cases rule: fire_tick_cases)
    case kept
    with assms(1) show ?thesis by simp
  next
    case fired
    have mono: "tick_claimed db k \<Longrightarrow> tick_claimed db' k" for k
      using fired(2,3) by (auto simp: tick_claimed_def split: option.splits if_splits)
    have new: "tick_claimed db' (m, t)" "\<not> tick_claimed db (m, t)"
      using fired(2,3) by (auto simp: tick_claimed_def split: option.splits)
    from fired(5) mono new assms(1) show ?thesis
      by (force simp: runs_unique_def list_all_iff)
  qed
qed

lemma history_runs_unique:
  "runs_unique db \<Longrightarrow> tick_ledger.history rs db = (ws, db') \<Longrightarrow> runs_unique db'"
proof (induction rs arbitrary: db ws)
  case (Cons r rs)
  obtain io m schedule plan where r: "r = (io, m, schedule, plan)" by (cases r)
  obtain res d1 where f: "fire_tick io m schedule plan db = (res, d1)" by (cases "fire_tick io m schedule plan db")
  obtain vs d2 where h: "tick_ledger.history rs d1 = (vs, d2)" by (cases "tick_ledger.history rs d1")
  from Cons.prems(2) h r have "db' = d2" by (simp add: claim_tick_apply [OF f] split: if_splits)
  with Cons.IH [OF fire_tick_runs_unique [OF Cons.prems(1) f]] h show ?case by simp
qed simp

section \<open>A pass over a backlog\<close>

lemma select_catch_up:
  assumes "cron_laws (cron loc) occ" and "\<not> IsZero l" "\<not> IsZero now" and "catchup_policy policy = ''catch_up''" and "cron loc l \<le> now"
  shows "selectWorkflowScheduleTick (Some cron) (Some loc) l now policy = Some (cron loc l, cron loc (cron loc l), True)"
  using assms by (simp add: selectWorkflowScheduleTick_def Let_def cron_next(4) [OF assms(1)] flip: catchup_policy_def)

text \<open>Nothing refuses the workflow, and every statement succeeds.\<close>

definition clear_io :: "('z, 'j) sched_io \<Rightarrow> string \<Rightarrow> string \<Rightarrow> string \<Rightarrow> bool" where
  "clear_io io m namespace name \<longleftrightarrow>
     CheckEnvironment (io_decode io) (io_env io) namespace name = None \<and> io_service io = None \<and>
     io_requires_owner io m = Inr False \<and> io_read_ok io \<and> io_broker_before io \<and> io_begin_ok io \<and> io_upsert_ok io \<and>
     io_commit_ok io \<and> io_broker_after io"

lemma process_catch_up:
  assumes clear: "clear_io io m namespace name" and cron: "io_cron io (sched_cron schedule) = Some c"
    and laws: "cron_laws (c (schedule_location io (sched_timezone schedule))) occ"
    and row: "sdb_state db m = Some (l, n)" and nz: "\<not> IsZero l" "\<not> IsZero now"
    and policy: "catchup_policy (sched_catchup schedule) = ''catch_up''"
    and due: "c (schedule_location io (sched_timezone schedule)) l \<le> now" and open': "\<not> past_end io schedule now"
    and run: "dispatchScheduledRun io m schedule (c (schedule_location io (sched_timezone schedule)) l) = Inr req"
    and db': "processScheduledWorkflow io m namespace name schedule now db = (err, db')"
  shows "sdb_state db' m = Some (c (schedule_location io (sched_timezone schedule)) l,
           c (schedule_location io (sched_timezone schedule)) (c (schedule_location io (sched_timezone schedule)) l))"
    and "sdb_runs db' = sdb_runs db @ [(m, c (schedule_location io (sched_timezone schedule)) l, req)]"
proof -
  let ?loc = "schedule_location io (sched_timezone schedule)"
  let ?t = "c ?loc l"
  have less: "l < ?t" by (rule cron_next(1) [OF laws])
  have "schedule_baseline io schedule (GetWorkflowScheduleState m (sdb_state db)) now = l"
    using row nz by (simp add: schedule_baseline_def GetWorkflowScheduleState_def)
  then have "plan_tick io m namespace name schedule now (sdb_state db) = Inr (Some (?t, c ?loc ?t, None))"
    using clear cron open' select_catch_up [of c ?loc, OF laws nz policy due]
    by (simp add: plan_tick_def clear_io_def prepare_capacity_def)
  moreover have "UpsertWorkflowScheduleState m ?t (c ?loc ?t) (sdb_state db) = (True, (sdb_state db)(m \<mapsto> (?t, c ?loc ?t)))"
    using row less by (simp add: UpsertWorkflowScheduleState_def)
  ultimately show "sdb_state db' m = Some (?t, c ?loc ?t)" "sdb_runs db' = sdb_runs db @ [(m, ?t, req)]"
    using db' clear run by (auto simp: processScheduledWorkflow_def fire_tick_def clear_io_def Let_def)
qed

lemma catch_up_passes:
  assumes clear: "clear_io io m namespace name" and cron: "io_cron io (sched_cron schedule) = Some c"
    and laws: "cron_laws (c (schedule_location io (sched_timezone schedule))) occ" and nz: "\<not> IsZero now"
    and policy: "catchup_policy (sched_catchup schedule) = ''catch_up''" and open': "\<not> past_end io schedule now"
    and run: "\<And>t. \<exists>req. dispatchScheduledRun io m schedule t = Inr req"
    and Next: "Next = c (schedule_location io (sched_timezone schedule))"
  shows "sdb_state db m = Some (l, Next l) \<Longrightarrow> \<not> IsZero l \<Longrightarrow> (Next ^^ k) l \<le> now \<Longrightarrow>
    ((\<lambda>d. snd (processScheduledWorkflow io m namespace name schedule now d)) ^^ k) db = db' \<Longrightarrow>
    sdb_state db' m = Some ((Next ^^ k) l, (Next ^^ Suc k) l) \<and> \<not> IsZero ((Next ^^ k) l) \<and>
    map (\<lambda>(m, t, req). (m, t)) (sdb_runs db') =
      map (\<lambda>(m, t, req). (m, t)) (sdb_runs db) @ map (\<lambda>i. (m, (Next ^^ Suc i) l)) [0..<k]"
proof (induction k arbitrary: db')
  case (Suc k)
  let ?p = "\<lambda>d. processScheduledWorkflow io m namespace name schedule now d"
  define d where "d = ((\<lambda>d. snd (?p d)) ^^ k) db"
  obtain err where p: "?p d = (err, db')" using Suc.prems(4) by (metis d_def funpow.simps(2) o_apply prod.collapse)
  have due: "(Next ^^ Suc k) l \<le> now" by (rule Suc.prems(3))
  have "(Next ^^ k) l < (Next ^^ Suc k) l" using cron_next(1) [OF laws] Next by simp
  with due have le: "(Next ^^ k) l \<le> now" by simp
  note ih = Suc.IH [OF Suc.prems(1,2) le d_def [symmetric]]
  obtain req where r: "dispatchScheduledRun io m schedule (Next ((Next ^^ k) l)) = Inr req" using run by blast
  have "sdb_state db' m = Some ((Next ^^ Suc k) l, (Next ^^ Suc (Suc k)) l)"
    "sdb_runs db' = sdb_runs d @ [(m, (Next ^^ Suc k) l, req)]"
    using process_catch_up [OF clear cron laws, where l = "(Next ^^ k) l" and now = now and db = d] ih nz policy due open' r p
    by (simp_all add: Next)
  moreover have "next_tick Next ((Next ^^ k) l) = Some ((Next ^^ Suc k) l)" using cron_next(4) [OF laws] Next by simp
  then have "\<not> IsZero ((Next ^^ Suc k) l)" by (auto simp: next_tick_def Let_def split: if_splits)
  ultimately show ?case using ih by simp
qed simp

section \<open>Properties\<close>

text \<open>C12: A cron tick fires at most once, whatever the workers do. Take any sequence of firing transactions, by
  any number of workers, with any plans however stale and any outcome of their statements: the won ticks
  are pairwise different, each was free before and is taken afterwards, and the database never records
  two runs for one tick of a workflow.\<close>
theorem ticks_fire_once:
  assumes "runs_unique db" and "tick_ledger.history requests db = (fired, db')"
  shows "distinct (map request_tick fired) \<and> runs_unique db' \<and>
    (\<forall>r\<in>set fired. \<not> tick_claimed db (request_tick r) \<and> tick_claimed db' (request_tick r))"
  using tick_ledger.history_once [OF assms(2)] history_runs_unique [OF assms] by blast

text \<open>A tick is consumed only when its work is handed on. When the pass changes the state of a workflow, the
  emergency lock permitted it, the tick was selected as due from the state before, the state records
  exactly that tick, and either the broker was up before the transaction or the capacity job was
  enqueued in the same transaction; the state of every other workflow is as before.\<close>
theorem tick_consumed_only_if_handed_on:
  assumes "processScheduledWorkflow io m namespace name schedule now db = (err, db')" and "db' \<noteq> db"
  shows "CheckEnvironment (io_decode io) (io_env io) namespace name = None \<and>
    (\<exists>sched tick after. io_cron io (sched_cron schedule) = Some sched \<and>
       selectWorkflowScheduleTick (Some sched) (Some (schedule_location io (sched_timezone schedule)))
         (schedule_baseline io schedule (GetWorkflowScheduleState m (sdb_state db)) now) now (sched_catchup schedule) =
           Some (tick, after, True) \<and>
       sdb_state db' = (sdb_state db)(m \<mapsto> (tick, after)) \<and>
       (io_broker_before io \<or> (\<exists>job. sdb_jobs db' = sdb_jobs db @ [job])))"
proof -
  from assms obtain plan where p: "plan_tick io m namespace name schedule now (sdb_state db) = Inr (Some plan)"
    by (auto simp: processScheduledWorkflow_def split: sum.splits option.splits)
  obtain tick after prepared where pl: "plan = (tick, after, prepared)" by (cases plan)
  obtain res d1 where f: "fire_tick io m schedule (tick, after, prepared) db = (res, d1)"
    by (cases "fire_tick io m schedule (tick, after, prepared) db")
  with assms(1) p pl have d1: "db' = d1" by (auto simp: processScheduledWorkflow_def split: fire_result.splits)
  from p pl have plan: "CheckEnvironment (io_decode io) (io_env io) namespace name = None"
    "\<exists>sched. io_cron io (sched_cron schedule) = Some sched \<and>
       selectWorkflowScheduleTick (Some sched) (Some (schedule_location io (sched_timezone schedule)))
         (schedule_baseline io schedule (GetWorkflowScheduleState m (sdb_state db)) now) now (sched_catchup schedule) =
           Some (tick, after, True)" "prepared \<noteq> None \<or> io_broker_before io"
    by (auto simp: plan_tick_def split: if_splits option.splits sum.splits prod.splits)
  from f show ?thesis
    by (cases rule: fire_tick_cases) (use assms(2) d1 plan in auto)
qed

text \<open>A backlog drains in order. Under the policy \<open>catch_up\<close>, when nothing refuses the workflow, \<open>k\<close> passes over
  a backlog of at least \<open>k\<close> due occurrences fire exactly the \<open>k\<close> oldest ones after the last fired tick, in
  their order, one run each.\<close>
theorem catch_up_drains_backlog:
  assumes "clear_io io m namespace name" and "io_cron io (sched_cron schedule) = Some c"
    and "cron_laws (c (schedule_location io (sched_timezone schedule))) occ" and "\<not> IsZero now"
    and "catchup_policy (sched_catchup schedule) = ''catch_up''" and "\<not> past_end io schedule now"
    and "\<And>t. \<exists>req. dispatchScheduledRun io m schedule t = Inr req"
    and "Next = c (schedule_location io (sched_timezone schedule))"
    and "sdb_state db m = Some (l, Next l)" and "\<not> IsZero l" and "(Next ^^ k) l \<le> now"
    and "((\<lambda>d. snd (processScheduledWorkflow io m namespace name schedule now d)) ^^ k) db = db'"
  shows "sdb_state db' m = Some ((Next ^^ k) l, (Next ^^ Suc k) l) \<and>
    map (\<lambda>(m, t, req). (m, t)) (sdb_runs db') =
      map (\<lambda>(m, t, req). (m, t)) (sdb_runs db) @ map (\<lambda>i. (m, (Next ^^ Suc i) l)) [0..<k]"
  using catch_up_passes [OF assms] by blast

section \<open>Witnesses\<close>

definition ex_schedule :: WorkflowScheduleTriggerSpec where
  "ex_schedule = \<lparr>sched_cron = ''30 * * * *'', sched_timezone = [], sched_start_at = [], sched_end_at = [],
     sched_catchup = ''catch_up'', sched_inputs = []\<rparr>"

definition ex_io :: "(unit, unit) sched_io" where
  "ex_io = \<lparr>io_decode = (\<lambda>_. None), io_env = None, io_cron = (\<lambda>_. Some half_past), io_utc = (), io_location = (\<lambda>_. None),
     io_rfc3339 = (\<lambda>_. None), io_format = (\<lambda>_. []), io_uuid = (\<lambda>_. True), io_service = None,
     io_requires_owner = (\<lambda>_. Inr False), io_read_ok = True, io_broker_before = True, io_begin_ok = True,
     io_upsert_ok = True, io_enqueue_ok = True, io_emit_ok = True, io_commit_ok = True, io_broker_after = True,
     io_lookup = (\<lambda>_. LookupRow ''ops'' ''probe''), io_lookup_again = (\<lambda>_. LookupNoRows), io_cancelled = False,
     io_prepare = Inr\<rparr>"

definition ex_sched_db :: "unit sched_db" where
  "ex_sched_db = \<lparr>sdb_state = [''m'' \<mapsto> (0, half_past () 0)], sdb_jobs = [], sdb_events = [], sdb_runs = []\<rparr>"

text \<open>Two workers have planned the same tick; one of them fires it.\<close>
theorem ticks_fire_once_witness:
  "let r = (ex_io, ''m'', ex_schedule, half_past () 0, half_past () (half_past () 0), None);
       fired = fst (tick_ledger.history [r, r] ex_sched_db)
   in length fired = 1 \<and> distinct (map request_tick fired)"
proof -
  let ?r = "(ex_io, ''m'', ex_schedule, half_past () 0, half_past () (half_past () 0), None)"
  have "runs_unique ex_sched_db" by (simp add: runs_unique_def ex_sched_db_def)
  from ticks_fire_once [OF this, of "[?r, ?r]"]
  have "distinct (map request_tick (fst (tick_ledger.history [?r, ?r] ex_sched_db)))"
    by (metis prod.collapse)
  moreover have "half_past () 0 = 1800000000000" by (simp add: half_past_def Hour_def Second_def)
  then have "length (fst (tick_ledger.history [?r, ?r] ex_sched_db)) = 1"
    by (simp add: claim_tick_def fire_tick_def UpsertWorkflowScheduleState_def ex_io_def ex_sched_db_def Let_def
        dispatchScheduledRun_def dispatch_lookup_def)
  ultimately show ?thesis unfolding Let_def by blast
qed

lemma ex_clear:
  "clear_io ex_io ''m'' ''ops'' ''probe''" "\<not> past_end ex_io ex_schedule now" "schedule_location ex_io (sched_timezone ex_schedule) = ()"
  "catchup_policy (sched_catchup ex_schedule) = ''catch_up''" "io_cron ex_io (sched_cron ex_schedule) = Some half_past"
  "\<exists>req. dispatchScheduledRun ex_io ''m'' ex_schedule t = Inr req"
  by (simp_all add: clear_io_def ex_io_def ex_schedule_def past_end_def schedule_location_def CheckEnvironment_def Parse_def
      Check_def Enforced_def modeOff_def modeEnforce_def catchup_policy_def ToLower_def TrimSpace_def TrimLeft_def
      is_space_def lower_char_def dispatchScheduledRun_def dispatch_lookup_def)

theorem tick_consumed_only_if_handed_on_witness:
  "let db' = snd (processScheduledWorkflow ex_io ''m'' ''ops'' ''probe'' ex_schedule (3 * Hour) ex_sched_db)
   in db' \<noteq> ex_sched_db \<and> (\<exists>tick after. sdb_state db' = (sdb_state ex_sched_db)(''m'' \<mapsto> (tick, after)))"
proof -
  obtain err db' where p: "processScheduledWorkflow ex_io ''m'' ''ops'' ''probe'' ex_schedule (3 * Hour) ex_sched_db = (err, db')"
    by (cases "processScheduledWorkflow ex_io ''m'' ''ops'' ''probe'' ex_schedule (3 * Hour) ex_sched_db")
  have v: "half_past () 0 = 1800000000000" by (simp add: half_past_def Hour_def Second_def)
  obtain req where "dispatchScheduledRun ex_io ''m'' ex_schedule (half_past () 0) = Inr req" using ex_clear(6) by blast
  then have "sdb_runs db' \<noteq> sdb_runs ex_sched_db"
    using process_catch_up(2) [OF ex_clear(1) ex_clear(5), of is_half_past ex_sched_db 0 "half_past () 0" "3 * Hour" req err db']
      p v half_past_laws
    by (auto simp: ex_clear ex_sched_db_def IsZero_def zeroTime_def Hour_def Second_def)
  then have ne: "db' \<noteq> ex_sched_db" by auto
  from tick_consumed_only_if_handed_on [OF p ne] ne p show ?thesis by auto
qed

theorem catch_up_drains_backlog_witness:
  "map (\<lambda>(m, t, req). (m, t)) (sdb_runs (((\<lambda>d. snd (processScheduledWorkflow ex_io ''m'' ''ops'' ''probe'' ex_schedule (3 * Hour) d)) ^^ 3) ex_sched_db)) =
     [(''m'', 1800 * Second), (''m'', 5400 * Second), (''m'', 9000 * Second)]"
proof -
  let ?p = "(\<lambda>d. snd (processScheduledWorkflow ex_io ''m'' ''ops'' ''probe'' ex_schedule (3 * Hour) d)) ^^ 3"
  have n: "half_past () 0 = 1800 * Second" "half_past () (1800 * Second) = 5400 * Second" "half_past () (5400 * Second) = 9000 * Second"
    by (simp_all add: half_past_def Hour_def Second_def)
  then have it: "(half_past () ^^ 3) 0 = 9000 * Second" "(half_past () ^^ 2) 0 = 5400 * Second"
    by (simp_all add: numeral_3_eq_3 numeral_2_eq_2)
  have late: "\<not> IsZero (3 * Hour)" "\<not> IsZero 0" "9000 * Second \<le> 3 * Hour"
    by (simp_all add: IsZero_def zeroTime_def Hour_def Second_def)
  have row: "sdb_state ex_sched_db ''m'' = Some (0, half_past () 0)" "sdb_runs ex_sched_db = []"
    by (simp_all add: ex_sched_db_def)
  have laws: "cron_laws (half_past (schedule_location ex_io (sched_timezone ex_schedule))) is_half_past"
    using half_past_laws ex_clear(3) by simp
  have "(half_past () ^^ 3) 0 \<le> 3 * Hour" using it late(3) by simp
  note all = catch_up_drains_backlog [where Next = "half_past ()" and k = 3, OF ex_clear(1) ex_clear(5) laws late(1) ex_clear(4)
      ex_clear(2) ex_clear(6) _ row(1) late(2) this refl]
  have "[0..<3] = [0, Suc 0, 2]" by (simp add: upt_rec)
  with all n it ex_clear(3) row(2) show ?thesis by simp
qed

end
