(* ===== verification/Cursor_Scan.thy ===== *)
theory Cursor_Scan
  imports Go_Prelude
begin

text \<open>
  The interface of a listing that is read page by page with a cursor. A row lies behind a cursor or not;
  the cursor that a page returns is the mark of its last row. The laws say that the rows behind the mark of
  a row are the ones that come after it in the order of the listing, and that with a row all later rows lie
  behind a cursor. The event stream pages by sequence number, the manifest listing by pairs of a sort value
  and an id.
\<close>

locale cursor_scan =
  fixes behind :: "'c \<Rightarrow> 'a \<Rightarrow> bool"
    and mark :: "'a \<Rightarrow> 'c"
    and before :: "'a \<Rightarrow> 'a \<Rightarrow> bool"
  assumes behind_mark: "behind (mark r) s \<longleftrightarrow> before r s"
    and behind_mono: "behind c r \<Longrightarrow> before r s \<Longrightarrow> behind c s"
    and before_asym: "before r s \<Longrightarrow> \<not> before s r"
begin

text \<open>A page asks for one row more than its limit, to know whether there are more.\<close>

definition page :: "'c \<Rightarrow> nat \<Rightarrow> 'a list \<Rightarrow> 'a list \<times> 'c \<times> bool" where
  "page c limit rows =
     (let found = take (Suc limit) (filter (behind c) rows);
          batch = (if limit < length found then take limit found else found)
      in (batch, if batch = [] then c else mark (last batch), limit < length found))"

fun scan :: "nat \<Rightarrow> 'c \<Rightarrow> nat \<Rightarrow> 'a list \<Rightarrow> 'a list" where
  "scan 0 c limit rows = []"
| "scan (Suc fuel) c limit rows =
     (case page c limit rows of (batch, c', hasMore) \<Rightarrow> if hasMore then batch @ scan fuel c' limit rows else batch)"

lemma page_eq:
  "page c limit rows =
     (let xs = filter (behind c) rows; batch = take limit xs
      in (batch, if batch = [] then c else mark (last batch), limit < length xs))"
  by (simp add: page_def Let_def min_def)

lemma filter_behind_last:
  assumes "sorted_wrt before rows" and "filter (behind c) rows = ys @ x # zs"
  shows "filter (behind (mark x)) rows = zs"
proof -
  have sw: "sorted_wrt before (ys @ x # zs)" using sorted_wrt_filter [OF assms(1), of "behind c"] assms(2) by simp
  have "x \<in> set (filter (behind c) rows)" using assms(2) by simp
  then have "behind (mark x) = (\<lambda>r. behind c r \<and> before x r)"
    using behind_mark behind_mono [of c x] by auto
  then have "filter (behind (mark x)) rows = filter (before x) (filter (behind c) rows)"
    by (simp add: filter_filter)
  also have "\<dots> = filter (before x) (ys @ x # zs)" using assms(2) by simp
  also have "\<dots> = zs" using sw before_asym by (auto simp: sorted_wrt_append filter_empty_conv intro!: filter_True)
  finally show ?thesis .
qed

lemma page_cases:
  assumes "sorted_wrt before rows" and "0 < limit"
  obtains (last) c' where "page c limit rows = (filter (behind c) rows, c', False)"
  | (more) ys x where "page c limit rows = (ys @ [x], mark x, True)" "x \<in> set rows"
      "filter (behind c) rows = (ys @ [x]) @ filter (behind (mark x)) rows"
proof (cases "limit < length (filter (behind c) rows)")
  case True
  let ?xs = "filter (behind c) rows"
  have "take limit ?xs \<noteq> []" using True assms(2) by auto
  then obtain ys x where ys: "take limit ?xs = ys @ [x]" by (metis rev_exhaust)
  then have split: "?xs = ys @ x # drop limit ?xs" by (metis append.assoc append_Cons append_Nil append_take_drop_id)
  have "page c limit rows = (ys @ [x], mark x, True)" using True ys assms(2) by (auto simp: page_eq Let_def)
  moreover have "x \<in> set rows" using split by (metis filter_is_subset in_set_conv_decomp subsetD)
  moreover have "?xs = (ys @ [x]) @ filter (behind (mark x)) rows"
    using filter_behind_last [OF assms(1) split] split by simp
  ultimately show thesis by (rule more)
next
  case False
  then show thesis by (intro last) (simp add: page_eq Let_def)
qed

lemma scan_complete:
  assumes "sorted_wrt before rows" and "0 < limit"
  shows "length (filter (behind c) rows) < fuel \<Longrightarrow> scan fuel c limit rows = filter (behind c) rows"
proof (induction fuel arbitrary: c)
  case (Suc fuel)
  from assms show ?case
  proof (cases rule: page_cases [where c = c])
    case (more ys x)
    with Suc.prems have "length (filter (behind (mark x)) rows) < fuel" by simp
    with Suc.IH [of "mark x"] more show ?thesis by simp
  qed simp
qed simp

end

end
