(* ===== verification/Manifest_Store.thy ===== *)
theory Manifest_Store
  imports Go_Time Cursor_Scan
begin

text \<open>
  The table of manifest versions, \<open>repository/manifest.go\<close>: creation, resolution, soft and hard deletion,
  purge, and the listings, with the page limits of \<open>repository/pagination.go\<close>. The specification of a
  manifest is a type parameter. The trigger of the table stamps \<open>updated_at\<close> on every update; the id of a new
  row and the clock are arguments. Text is compared bytewise; a cursor is the pair that it encodes.
\<close>

section \<open>Rows\<close>

record 's Manifest =
  mf_id :: string
  mf_api :: string
  mf_kind :: string
  mf_ns :: string
  mf_name :: string
  mf_version :: int
  mf_active :: bool
  mf_description :: string
  mf_labels :: "(string \<times> string) list"
  mf_spec :: 's
  mf_checksum :: string
  mf_created :: time
  mf_updated :: time

record 's ManifestDocument =
  doc_api :: string
  doc_kind :: string
  doc_ns :: string
  doc_name :: string
  doc_description :: string
  doc_labels :: "(string \<times> string) list"
  doc_active :: "bool option"
  doc_spec :: 's

definition identity :: "'s Manifest \<Rightarrow> string \<times> string \<times> string" where
  "identity m = (mf_kind m, mf_ns m, mf_name m)"

definition doc_identity :: "'s ManifestDocument \<Rightarrow> string \<times> string \<times> string" where
  "doc_identity d = (doc_kind d, doc_ns d, doc_name d)"

definition documentActive :: "'s ManifestDocument \<Rightarrow> bool" where
  "documentActive doc = (case doc_active doc of None \<Rightarrow> True | Some b \<Rightarrow> b)"

text \<open>\<open>UPDATE ... SET active = FALSE\<close> for the active rows of a logical manifest.\<close>

definition deactivate :: "time \<Rightarrow> string \<times> string \<times> string \<Rightarrow> 's Manifest list \<Rightarrow> 's Manifest list" where
  "deactivate now i rows =
     map (\<lambda>m. if identity m = i \<and> mf_active m then m\<lparr>mf_active := False, mf_updated := now\<rparr> else m) rows"

definition next_version :: "string \<times> string \<times> string \<Rightarrow> 's Manifest list \<Rightarrow> int" where
  "next_version i rows = fold (\<lambda>m v. if identity m = i then max (mf_version m) v else v) rows 0 + 1"

definition new_manifest :: "string \<Rightarrow> time \<Rightarrow> 's ManifestDocument \<Rightarrow> string \<Rightarrow> int \<Rightarrow> 's Manifest" where
  "new_manifest i now doc checksum version =
     \<lparr>mf_id = i, mf_api = doc_api doc, mf_kind = doc_kind doc, mf_ns = doc_ns doc, mf_name = doc_name doc,
      mf_version = version, mf_active = documentActive doc, mf_description = TrimSpace (doc_description doc),
      mf_labels = doc_labels doc, mf_spec = doc_spec doc, mf_checksum = checksum, mf_created = now, mf_updated = now\<rparr>"

definition CreateManifestVersionTx ::
  "string \<Rightarrow> time \<Rightarrow> 's ManifestDocument \<Rightarrow> string \<Rightarrow> 's Manifest list \<Rightarrow> 's Manifest \<times> 's Manifest list" where
  "CreateManifestVersionTx i now doc checksum rows =
     (let row = new_manifest i now doc checksum (next_version (doc_identity doc) rows)
      in (row, deactivate now (doc_identity doc) rows @ [row]))"

definition GetManifestByID :: "string \<Rightarrow> 's Manifest list \<Rightarrow> 's Manifest option" where
  "GetManifestByID i rows = find (\<lambda>m. mf_id m = i) rows"

definition ResolveManifest ::
  "string \<Rightarrow> string \<Rightarrow> string \<Rightarrow> int option \<Rightarrow> bool \<Rightarrow> 's Manifest list \<Rightarrow> 's Manifest option" where
  "ResolveManifest kind namespace name version activeOnly rows =
     (let i = (ToLower (TrimSpace kind), ToLower (TrimSpace namespace), ToLower (TrimSpace name));
          found = filter (\<lambda>m. identity m = i \<and> (case version of None \<Rightarrow> True | Some v \<Rightarrow> mf_version m = v) \<and>
                              (activeOnly \<longrightarrow> mf_active m)) rows
      in case sort_key (\<lambda>m. - mf_version m) found of [] \<Rightarrow> None | m # _ \<Rightarrow> Some m)"

text \<open>\<^term>\<open>None\<close> is \<open>ErrManifestNotFound\<close>; the number is the count of touched rows.\<close>

definition HardDeleteManifestByID :: "string \<Rightarrow> 's Manifest list \<Rightarrow> (nat \<times> 's Manifest list) option" where
  "HardDeleteManifestByID i rows =
     (case GetManifestByID i rows of
        None \<Rightarrow> None
      | Some m \<Rightarrow> let kept = filter (\<lambda>r. identity r \<noteq> identity m) rows in Some (length rows - length kept, kept))"

definition MarkManifestInactiveByID :: "string \<Rightarrow> time \<Rightarrow> 's Manifest list \<Rightarrow> (nat \<times> 's Manifest list) option" where
  "MarkManifestInactiveByID i now rows =
     (case GetManifestByID i rows of
        None \<Rightarrow> None
      | Some m \<Rightarrow> Some (length (filter (\<lambda>r. identity r = identity m \<and> mf_active r) rows), deactivate now (identity m) rows))"

definition PurgeInactiveManifestsOlderThan :: "time \<Rightarrow> 's Manifest list \<Rightarrow> nat \<times> 's Manifest list" where
  "PurgeInactiveManifestsOlderThan cutoff rows =
     (let kept = filter (\<lambda>m. mf_active m \<or> cutoff \<le> mf_updated m) rows in (length rows - length kept, kept))"

section \<open>Listings\<close>

record ListManifestFilters =
  lf_kind :: string
  lf_ns :: string
  lf_name :: string
  lf_labels :: "(string \<times> string) list"
  lf_active :: bool

definition list_condition :: "ListManifestFilters \<Rightarrow> 's Manifest \<Rightarrow> bool" where
  "list_condition F m \<longleftrightarrow>
     (TrimSpace (lf_kind F) \<noteq> [] \<longrightarrow> mf_kind m = ToLower (TrimSpace (lf_kind F))) \<and>
     (TrimSpace (lf_ns F) \<noteq> [] \<longrightarrow> mf_ns m = ToLower (TrimSpace (lf_ns F))) \<and>
     (TrimSpace (lf_name F) \<noteq> [] \<longrightarrow> mf_name m = ToLower (TrimSpace (lf_name F))) \<and>
     list_all (\<lambda>(k, v). map_of (mf_labels m) k = Some v) (lf_labels F) \<and>
     (lf_active F \<longrightarrow> mf_active m)"

definition ListManifests :: "ListManifestFilters \<Rightarrow> 's Manifest list \<Rightarrow> 's Manifest list" where
  "ListManifests F rows =
     sort_key mf_kind (sort_key mf_ns (sort_key mf_name (sort_key (\<lambda>m. - mf_version m) (filter (list_condition F) rows))))"

datatype manifest_sort = UpdatedAtDesc | CreatedAtDesc | NameAsc

definition normalizeManifestSortKey :: "string \<Rightarrow> manifest_sort" where
  "normalizeManifestSortKey s =
     (let k = ToLower (TrimSpace s) in
      if k = ''created_at_desc'' then CreatedAtDesc else if k = ''name_asc'' then NameAsc else UpdatedAtDesc)"

text \<open>The sort value of a row and its place in the order: descending times, ascending names, then the id.\<close>

datatype sort_value = SortTime time | SortName string

definition extractManifestSortValue :: "manifest_sort \<Rightarrow> 's Manifest \<Rightarrow> sort_value" where
  "extractManifestSortValue k m =
     (case k of UpdatedAtDesc \<Rightarrow> SortTime (mf_updated m) | CreatedAtDesc \<Rightarrow> SortTime (mf_created m) | NameAsc \<Rightarrow> SortName (mf_name m))"

fun value_before :: "sort_value \<times> string \<Rightarrow> sort_value \<times> string \<Rightarrow> bool" where
  "value_before (SortTime t, i) (SortTime u, j) \<longleftrightarrow> u < t \<or> (u = t \<and> j < i)"
| "value_before (SortName n, i) (SortName p, j) \<longleftrightarrow> n < p \<or> (n = p \<and> i < j)"
| "value_before _ _ \<longleftrightarrow> False"

type_synonym manifest_cursor = "(sort_value \<times> string) option"

definition cursor_behind :: "manifest_sort \<Rightarrow> manifest_cursor \<Rightarrow> 's Manifest \<Rightarrow> bool" where
  "cursor_behind k c m = (case c of None \<Rightarrow> True | Some p \<Rightarrow> value_before p (extractManifestSortValue k m, mf_id m))"

definition cursor_mark :: "manifest_sort \<Rightarrow> 's Manifest \<Rightarrow> manifest_cursor" where
  "cursor_mark k m = Some (extractManifestSortValue k m, mf_id m)"

definition listed_before :: "manifest_sort \<Rightarrow> 's Manifest \<Rightarrow> 's Manifest \<Rightarrow> bool" where
  "listed_before k m n = value_before (extractManifestSortValue k m, mf_id m) (extractManifestSortValue k n, mf_id n)"

fun insert_listed :: "manifest_sort \<Rightarrow> 's Manifest \<Rightarrow> 's Manifest list \<Rightarrow> 's Manifest list" where
  "insert_listed k m [] = [m]"
| "insert_listed k m (n # ns) = (if listed_before k n m then n # insert_listed k m ns else m # n # ns)"

definition order_listed :: "manifest_sort \<Rightarrow> 's Manifest list \<Rightarrow> 's Manifest list" where
  "order_listed k rows = fold (insert_listed k) rows []"

definition NormalizePagination :: "int \<Rightarrow> nat" where
  "NormalizePagination limit = (let l = (if limit \<le> 0 then 100 else limit) in nat (if 1000 < l then 1000 else l))"

definition ListManifestsPaginated ::
  "ListManifestFilters \<Rightarrow> string \<Rightarrow> int \<Rightarrow> manifest_cursor \<Rightarrow> 's Manifest list \<Rightarrow> 's Manifest list \<times> manifest_cursor \<times> bool" where
  "ListManifestsPaginated F sortKey limit cursor rows =
     (let k = normalizeManifestSortKey sortKey; l = NormalizePagination limit;
          found = take (Suc l) (filter (cursor_behind k cursor) (order_listed k (filter (list_condition F) rows)));
          hasMore = l < length found;
          manifests = (if hasMore then take l found else found)
      in (manifests, if manifests = [] then None else cursor_mark k (last manifests), hasMore))"

section \<open>Pages\<close>

lemma value_before_asym: "value_before p q \<Longrightarrow> \<not> value_before q p"
  by (cases "(p, q)" rule: value_before.cases) auto

lemma value_before_trans: "value_before p q \<Longrightarrow> value_before q r \<Longrightarrow> value_before p r"
  by (cases "(p, q)" rule: value_before.cases; cases "(q, r)" rule: value_before.cases) auto

lemma listed_before_total: "mf_id m \<noteq> mf_id n \<Longrightarrow> listed_before k m n \<or> listed_before k n m"
  by (auto simp: listed_before_def extractManifestSortValue_def split: manifest_sort.split)

interpretation manifest_scan: cursor_scan "cursor_behind k" "cursor_mark k" "listed_before k" for k
proof
  show "cursor_behind k (cursor_mark k r) s \<longleftrightarrow> listed_before k r s" for r s :: "'a Manifest"
    by (simp add: cursor_behind_def cursor_mark_def listed_before_def)
  show "cursor_behind k c r \<Longrightarrow> listed_before k r s \<Longrightarrow> cursor_behind k c s" for c and r s :: "'a Manifest"
    by (auto simp: cursor_behind_def listed_before_def split: option.splits dest: value_before_trans)
  show "listed_before k r s \<Longrightarrow> \<not> listed_before k s r" for r s :: "'a Manifest"
    unfolding listed_before_def by (rule value_before_asym)
qed

lemma listed_before_trans: "listed_before k a b \<Longrightarrow> listed_before k b c \<Longrightarrow> listed_before k a c"
  unfolding listed_before_def by (rule value_before_trans)

lemma set_insert_listed [simp]: "set (insert_listed k m ns) = insert m (set ns)"
  by (induction ns) auto

lemma length_insert_listed [simp]: "length (insert_listed k m ns) = Suc (length ns)"
  by (induction ns) auto

lemma length_fold_insert_listed [simp]: "length (fold (insert_listed k) rs acc) = length rs + length acc"
  by (induction rs arbitrary: acc) auto

lemma insert_listed_sorted:
  "sorted_wrt (listed_before k) ns \<Longrightarrow> mf_id m \<notin> mf_id ` set ns \<Longrightarrow> sorted_wrt (listed_before k) (insert_listed k m ns)"
proof (induction ns)
  case (Cons n ns)
  show ?case
  proof (cases "listed_before k n m")
    case True
    with Cons show ?thesis by auto
  next
    case False
    with Cons.prems(2) have mn: "listed_before k m n" using listed_before_total [of m n k] by auto
    with False Cons.prems show ?thesis by (auto intro: listed_before_trans)
  qed
qed simp

lemma order_listed_props:
  assumes "distinct (map mf_id rows)"
  shows "sorted_wrt (listed_before k) (order_listed k rows) \<and> set (order_listed k rows) = set rows"
proof -
  have "distinct (map mf_id (rows @ acc)) \<Longrightarrow> sorted_wrt (listed_before k) acc \<Longrightarrow>
      sorted_wrt (listed_before k) (fold (insert_listed k) rows acc) \<and> set (fold (insert_listed k) rows acc) = set rows \<union> set acc" for acc
  proof (induction rows arbitrary: acc)
    case (Cons r rows)
    have d: "distinct (map mf_id (rows @ insert_listed k r acc))"
    proof -
      have "distinct (map mf_id (insert_listed k r acc))" if "mf_id r \<notin> mf_id ` set acc" "distinct (map mf_id acc)" for acc :: "'a Manifest list"
        using that by (induction acc) (auto simp: image_iff)
      then show ?thesis using Cons.prems(1) by auto
    qed
    have "sorted_wrt (listed_before k) (insert_listed k r acc)"
      using Cons.prems by (intro insert_listed_sorted) auto
    with Cons.IH [OF d] show ?case by auto
  qed simp
  from this [of "[]"] assms show ?thesis by (simp add: order_listed_def)
qed

text \<open>A client that walks the listing with the returned cursors.\<close>

fun list_all_pages :: "nat \<Rightarrow> ListManifestFilters \<Rightarrow> string \<Rightarrow> int \<Rightarrow> manifest_cursor \<Rightarrow> 's Manifest list \<Rightarrow> 's Manifest list option" where
  "list_all_pages 0 F sortKey limit cursor rows = None"
| "list_all_pages (Suc fuel) F sortKey limit cursor rows =
     (case ListManifestsPaginated F sortKey limit cursor rows of (manifests, nextCursor, hasMore) \<Rightarrow>
        if hasMore then map_option (\<lambda>ms. manifests @ ms) (list_all_pages fuel F sortKey limit nextCursor rows) else Some manifests)"

lemma paginated_page:
  assumes "manifest_scan.page k c (NormalizePagination limit) (order_listed k (filter (list_condition F) rows)) = (batch, c', hm)"
    and "k = normalizeManifestSortKey sortKey"
  shows "\<exists>c''. ListManifestsPaginated F sortKey limit c rows = (batch, c'', hm) \<and> (batch \<noteq> [] \<longrightarrow> c'' = c')"
  using assms by (auto simp: ListManifestsPaginated_def manifest_scan.page_def Let_def)

lemma list_all_pages_eq:
  assumes "distinct (map mf_id rows)" and k: "k = normalizeManifestSortKey sortKey"
  shows "length (filter (cursor_behind k c) (order_listed k (filter (list_condition F) rows))) < fuel \<Longrightarrow>
    list_all_pages fuel F sortKey limit c rows = Some (filter (cursor_behind k c) (order_listed k (filter (list_condition F) rows)))"
proof (induction fuel arbitrary: c)
  case (Suc fuel)
  let ?ms = "order_listed k (filter (list_condition F) rows)"
  have "distinct (map mf_id (filter (list_condition F) rows))" using assms(1) by (rule distinct_map_filter)
  then have sorted: "sorted_wrt (listed_before k) ?ms" using order_listed_props by blast
  have pos: "0 < NormalizePagination limit" by (simp add: NormalizePagination_def Let_def)
  from sorted pos show ?case
  proof (cases rule: manifest_scan.page_cases [where c = c])
    case (last c')
    from paginated_page [OF this k] show ?thesis by auto
  next
    case (more ys x)
    from paginated_page [OF more(1) k]
    have "ListManifestsPaginated F sortKey limit c rows = (ys @ [x], cursor_mark k x, True)" by auto
    moreover have "length (filter (cursor_behind k (cursor_mark k x)) ?ms) < fuel" using Suc.prems more(3) by simp
    ultimately show ?thesis using Suc.IH more(3) by simp
  qed
qed simp

section \<open>The invariant of the table\<close>

text \<open>The primary key and the two unique indexes.\<close>

definition store_ok :: "'s Manifest list \<Rightarrow> bool" where
  "store_ok rows \<longleftrightarrow> distinct (map mf_id rows) \<and> distinct (map (\<lambda>m. (identity m, mf_version m)) rows) \<and>
     distinct (map identity (filter mf_active rows))"

lemma identity_update [simp]: "identity (m\<lparr>mf_active := b, mf_updated := t\<rparr>) = identity m"
  by (simp add: identity_def)

lemma deactivate_cols:
  "map mf_id (deactivate now i rows) = map mf_id rows"
  "map (\<lambda>m. (identity m, mf_version m)) (deactivate now i rows) = map (\<lambda>m. (identity m, mf_version m)) rows"
  "map identity (filter mf_active (deactivate now i rows)) = filter (\<lambda>j. j \<noteq> i) (map identity (filter mf_active rows))"
  by (simp_all add: deactivate_def) (induction rows, auto)

lemma next_version_above: "m \<in> set rows \<Longrightarrow> identity m = i \<Longrightarrow> mf_version m < next_version i rows"
proof -
  have mono: "v \<le> fold (\<lambda>m v. if identity m = i then max (mf_version m) v else v) rs v" for rs :: "'a Manifest list" and v
  proof (induction rs arbitrary: v)
    case (Cons a rs)
    show ?case using Cons.IH [of v] order_trans [OF max.cobounded2 [of v "mf_version a"] Cons.IH] by simp
  qed simp
  have "m \<in> set rs \<Longrightarrow> identity m = i \<Longrightarrow> mf_version m \<le> fold (\<lambda>m v. if identity m = i then max (mf_version m) v else v) rs v" for rs v
  proof (induction rs arbitrary: v)
    case (Cons r rs)
    show ?case
    proof (cases "m = r")
      case True
      then show ?thesis using Cons.prems(2) mono [of "max (mf_version m) v" rs] by simp
    next
      case False
      with Cons show ?thesis by auto
    qed
  qed simp
  then show "m \<in> set rows \<Longrightarrow> identity m = i \<Longrightarrow> mf_version m < next_version i rows"
    unfolding next_version_def by (meson zle_add1_eq_le)
qed

lemma new_manifest_fields [simp]:
  "identity (new_manifest i now doc checksum v) = doc_identity doc" "mf_id (new_manifest i now doc checksum v) = i"
  "mf_version (new_manifest i now doc checksum v) = v" "mf_active (new_manifest i now doc checksum v) = documentActive doc"
  by (simp_all add: new_manifest_def identity_def doc_identity_def)

lemma store_ok_create:
  assumes "store_ok rows" and "i \<notin> mf_id ` set rows"
  shows "store_ok (snd (CreateManifestVersionTx i now doc checksum rows))"
proof -
  let ?row = "new_manifest i now doc checksum (next_version (doc_identity doc) rows)"
  let ?d = "deactivate now (doc_identity doc) rows"
  have 1: "distinct (map mf_id (?d @ [?row]))" using assms by (simp add: deactivate_cols(1) flip: set_map) (simp add: store_ok_def)
  have "(doc_identity doc, next_version (doc_identity doc) rows) \<notin> set (map (\<lambda>m. (identity m, mf_version m)) rows)"
    using next_version_above [of _ rows "doc_identity doc"] by force
  then have 2: "distinct (map (\<lambda>m. (identity m, mf_version m)) (?d @ [?row]))"
    using assms(1) by (simp add: deactivate_cols(2) store_ok_def flip: set_map)
  have "map identity (filter mf_active (?d @ [?row])) =
      filter (\<lambda>j. j \<noteq> doc_identity doc) (map identity (filter mf_active rows)) @ (if documentActive doc then [doc_identity doc] else [])"
    by (simp add: deactivate_cols(3))
  then have 3: "distinct (map identity (filter mf_active (?d @ [?row])))" using assms(1) by (simp add: store_ok_def)
  show ?thesis using 1 2 3 by (simp add: CreateManifestVersionTx_def Let_def store_ok_def)
qed

lemma store_ok_filter: "store_ok rows \<Longrightarrow> store_ok (filter P rows)"
  by (auto simp: store_ok_def distinct_map_filter filter_filter conj_commute)
    (metis (no_types, lifting) distinct_map_filter filter_filter filter_cong)

lemma store_ok_deactivate: "store_ok rows \<Longrightarrow> store_ok (deactivate now i rows)"
  by (simp add: store_ok_def deactivate_cols)

text \<open>The tables that the operations can reach, by any sequence of calls.\<close>

inductive store_reach :: "'s Manifest list \<Rightarrow> bool" where
  reach_empty: "store_reach []"
| reach_create: "store_reach rows \<Longrightarrow> i \<notin> mf_id ` set rows \<Longrightarrow> CreateManifestVersionTx i now doc checksum rows = (m, rows') \<Longrightarrow>
    store_reach rows'"
| reach_hard_delete: "store_reach rows \<Longrightarrow> HardDeleteManifestByID i rows = Some (n, rows') \<Longrightarrow> store_reach rows'"
| reach_inactive: "store_reach rows \<Longrightarrow> MarkManifestInactiveByID i now rows = Some (n, rows') \<Longrightarrow> store_reach rows'"
| reach_purge: "store_reach rows \<Longrightarrow> PurgeInactiveManifestsOlderThan cutoff rows = (n, rows') \<Longrightarrow> store_reach rows'"

lemma store_reach_ok: "store_reach rows \<Longrightarrow> store_ok rows"
proof (induction rule: store_reach.induct)
  case (reach_create rows i now doc checksum m rows')
  then show ?case using store_ok_create [of rows i now doc checksum] by simp
next
  case (reach_hard_delete rows i n rows')
  then show ?case by (auto simp: HardDeleteManifestByID_def Let_def store_ok_filter split: option.splits)
next
  case (reach_inactive rows i now n rows')
  then show ?case by (auto simp: MarkManifestInactiveByID_def store_ok_deactivate split: option.splits)
next
  case (reach_purge rows cutoff n rows')
  then show ?case by (auto simp: PurgeInactiveManifestsOlderThan_def Let_def store_ok_filter)
qed (simp add: store_ok_def)

lemma filter_active_deactivated:
  "filter (\<lambda>m. identity m = i \<and> mf_active m) (deactivate now i rows) = []"
  by (induction rows) (simp_all add: deactivate_def)

lemma filter_version_absent:
  "filter (\<lambda>m. identity m = i \<and> mf_version m = next_version i rows) (deactivate now j rows) = []"
proof -
  have "(i, next_version i rows) \<notin> set (map (\<lambda>m. (identity m, mf_version m)) (deactivate now j rows))"
    unfolding deactivate_cols using next_version_above [of _ rows i] by force
  then show ?thesis unfolding filter_empty_conv set_map by (metis (no_types, lifting) image_eqI)
qed

section \<open>Properties\<close>

text \<open>C27: The manifest table is sound after every history. Whatever sequence of creations, soft and hard deletions and
  purges has run, ids are unique, a version number of a logical manifest names one row, and a logical manifest
  has at most one active version; so the unique indexes of the table never refuse a creation, and an
  active resolution has one possible answer.\<close>
theorem manifest_store_sound:
  assumes "store_reach rows"
  shows "distinct (map mf_id rows) \<and> distinct (map (\<lambda>m. (identity m, mf_version m)) rows) \<and>
    distinct (map identity (filter mf_active rows))"
  using store_reach_ok [OF assms] by (simp add: store_ok_def)

text \<open>C36: What is stored is what resolves. After the creation of a version under a normalised name, the name resolves
  to the new version when it is active and to nothing active when it is a tombstone, the explicit version
  number resolves to it in both cases, and the number is larger than every stored version of the name.\<close>
theorem create_then_resolve:
  assumes "ToLower (TrimSpace (doc_kind doc)) = doc_kind doc" "ToLower (TrimSpace (doc_ns doc)) = doc_ns doc"
    "ToLower (TrimSpace (doc_name doc)) = doc_name doc"
    and "CreateManifestVersionTx i now doc checksum rows = (m, rows')"
  shows "ResolveManifest (doc_kind doc) (doc_ns doc) (doc_name doc) None True rows' = (if documentActive doc then Some m else None) \<and>
    ResolveManifest (doc_kind doc) (doc_ns doc) (doc_name doc) (Some (mf_version m)) False rows' = Some m \<and>
    list_all (\<lambda>r. identity r = doc_identity doc \<longrightarrow> mf_version r < mf_version m) rows"
proof -
  from assms(4) have m: "m = new_manifest i now doc checksum (next_version (doc_identity doc) rows)"
    and rows': "rows' = deactivate now (doc_identity doc) rows @ [m]"
    by (auto simp: CreateManifestVersionTx_def Let_def)
  have i: "(doc_kind doc, doc_ns doc, doc_name doc) = doc_identity doc" by (simp add: doc_identity_def)
  have "list_all (\<lambda>r. identity r = doc_identity doc \<longrightarrow> mf_version r < mf_version m) rows"
    using next_version_above m by (fastforce simp: list_all_iff)
  then show ?thesis using m
    by (simp add: ResolveManifest_def Let_def assms(1-3) i rows' filter_active_deactivated filter_version_absent)
qed

text \<open>Paging through the manifests loses and repeats nothing. Starting without a cursor, with any limit, filter
  and sort key, a client that passes the returned cursor back as long as there are more rows gets every
  matching manifest exactly once, in the order of the sort key with the id as the tie-break.\<close>
theorem manifest_listing_complete:
  assumes "distinct (map mf_id rows)"
  shows "\<exists>ms. list_all_pages (Suc (length rows)) F sortKey limit None rows = Some ms \<and>
    set ms = {m \<in> set rows. list_condition F m} \<and> sorted_wrt (listed_before (normalizeManifestSortKey sortKey)) ms"
proof -
  let ?k = "normalizeManifestSortKey sortKey" and ?rows = "filter (list_condition F) rows"
  have d: "distinct (map mf_id ?rows)" using assms by (rule distinct_map_filter)
  have all: "filter (cursor_behind ?k None) ms = ms" for ms :: "'a Manifest list" by (simp add: cursor_behind_def)
  have "length (order_listed ?k ?rows) \<le> length rows" by (simp add: order_listed_def)
  then have "list_all_pages (Suc (length rows)) F sortKey limit None rows = Some (order_listed ?k ?rows)"
    using list_all_pages_eq [OF assms refl, of sortKey None F "Suc (length rows)" limit] unfolding all by simp
  then show ?thesis using order_listed_props [OF d, of ?k] by auto
qed

section \<open>Witnesses\<close>

definition ex_doc :: "nat ManifestDocument" where
  "ex_doc = \<lparr>doc_api = ''v1'', doc_kind = ''workflow'', doc_ns = ''ops'', doc_name = ''probe'', doc_description = [], doc_labels = [],
     doc_active = None, doc_spec = 0\<rparr>"

lemma ex_doc_normal: "ToLower (TrimSpace (doc_kind ex_doc)) = doc_kind ex_doc" "ToLower (TrimSpace (doc_ns ex_doc)) = doc_ns ex_doc"
  "ToLower (TrimSpace (doc_name ex_doc)) = doc_name ex_doc"
  by (simp_all add: ex_doc_def ToLower_def TrimSpace_def TrimLeft_def is_space_def lower_char_def)

definition ex_rows :: "nat Manifest list" where
  "ex_rows = snd (CreateManifestVersionTx ''b'' 2 ex_doc [] (snd (CreateManifestVersionTx ''a'' 1 ex_doc [] [])))"

lemma ex_rows_reach: "store_reach ex_rows"
proof -
  have "store_reach (snd (CreateManifestVersionTx ''a'' 1 ex_doc [] []))"
    by (rule reach_create [OF reach_empty _ prod.collapse [symmetric]]) simp
  then show ?thesis unfolding ex_rows_def
    by (rule reach_create [OF _ _ prod.collapse [symmetric]]) (simp add: CreateManifestVersionTx_def Let_def deactivate_def)
qed

theorem manifest_store_sound_witness:
  "map mf_version ex_rows = [1, 2] \<and> map mf_active ex_rows = [False, True] \<and> distinct (map identity (filter mf_active ex_rows))"
  using manifest_store_sound [OF ex_rows_reach]
  by (simp add: ex_rows_def CreateManifestVersionTx_def Let_def deactivate_def next_version_def)
    (simp add: documentActive_def ex_doc_def)

theorem create_then_resolve_witness:
  "let (m, rows') = CreateManifestVersionTx ''c'' 3 ex_doc [] ex_rows
   in ResolveManifest ''workflow'' ''ops'' ''probe'' None True rows' = Some m \<and> mf_version m = 3"
proof -
  obtain m rows' where c: "CreateManifestVersionTx ''c'' 3 ex_doc [] ex_rows = (m, rows')"
    by (cases "CreateManifestVersionTx ''c'' 3 ex_doc [] ex_rows")
  then have "mf_version m = 3"
    by (auto simp: ex_rows_def CreateManifestVersionTx_def Let_def deactivate_def next_version_def)
  with create_then_resolve [OF ex_doc_normal c] c show ?thesis by (simp add: documentActive_def ex_doc_def)
qed

theorem manifest_listing_complete_witness:
  "\<exists>ms. list_all_pages (Suc (length ex_rows)) \<lparr>lf_kind = [], lf_ns = [], lf_name = [], lf_labels = [], lf_active = False\<rparr> ''name_asc'' 1 None ex_rows = Some ms \<and>
     set ms = set ex_rows"
proof -
  have "distinct (map mf_id ex_rows)" using store_reach_ok [OF ex_rows_reach] by (simp add: store_ok_def)
  from manifest_listing_complete [OF this, of "\<lparr>lf_kind = [], lf_ns = [], lf_name = [], lf_labels = [], lf_active = False\<rparr>" "''name_asc''" 1]
  show ?thesis by (auto simp: list_condition_def)
qed

end
