(* ===== verification/Reactors.thy ===== *)
theory Reactors
  imports Go_Time Go_Value
begin

text \<open>
  The reactor framework: the rows of \<open>integration_event_reactions\<close> with the statements of
  \<open>repository/integration_event_reactions.go\<close>, the retry schedule of \<open>internal/reactors/backoff.go\<close>, the payload
  of \<open>internal/reactors/payload.go\<close> and the tick of \<open>internal/reactors/dispatcher.go\<close>. The environment variables, \<open>time.ParseDuration\<close>,
  the event store and the adapter are arguments.
\<close>

section \<open>Rows\<close>

datatype reaction_status = Pending | InProgress | Succeeded | Failed | DeadLettered

record reaction =
  rx_id :: string
  rx_event :: string
  rx_event_type :: string
  rx_instance :: string
  rx_type_manifest :: string
  rx_capability :: string
  rx_status :: reaction_status
  rx_attempt :: int
  rx_next :: "time option"
  rx_started :: "time option"
  rx_finished :: "time option"
  rx_error :: "string option"

text \<open>\<open>UPDATE ... WHERE id = $1\<close>.\<close>

definition update_row :: "string \<Rightarrow> (reaction \<Rightarrow> reaction) \<Rightarrow> reaction list \<Rightarrow> reaction list" where
  "update_row i f rows = map (\<lambda>r. if rx_id r = i then f r else r) rows"

definition due_reaction :: "time \<Rightarrow> reaction \<Rightarrow> bool" where
  "due_reaction now r \<longleftrightarrow> rx_status r \<in> {Pending, Failed} \<and> (case rx_next r of None \<Rightarrow> False | Some t \<Rightarrow> t \<le> now)"

definition claim_row :: "time \<Rightarrow> reaction \<Rightarrow> reaction" where
  "claim_row now r = r\<lparr>rx_status := InProgress, rx_attempt := rx_attempt r + 1, rx_started := Some now, rx_error := None\<rparr>"

text \<open>\<open>locked\<close> are the rows another transaction holds, which \<open>SKIP LOCKED\<close> passes over.\<close>

definition ClaimPendingBatch ::
  "time \<Rightarrow> (string \<Rightarrow> bool) \<Rightarrow> nat \<Rightarrow> reaction list \<Rightarrow> reaction list \<times> reaction list" where
  "ClaimPendingBatch now locked limit rows =
     (let claims = take limit (sort_key (\<lambda>r. the (rx_next r)) (filter (\<lambda>r. due_reaction now r \<and> \<not> locked (rx_id r)) rows))
      in (map (claim_row now) claims, fold (\<lambda>c. update_row (rx_id c) (claim_row now)) claims rows))"

definition MarkSucceeded :: "time \<Rightarrow> string \<Rightarrow> reaction list \<Rightarrow> reaction list" where
  "MarkSucceeded now i rows =
     update_row i (\<lambda>r. r\<lparr>rx_status := Succeeded, rx_finished := Some now, rx_error := None\<rparr>) rows"

definition clip_error :: "string \<Rightarrow> string" where
  "clip_error msg = (if 4096 < length msg then take 4096 msg else msg)"

definition MarkFailed :: "time \<Rightarrow> string \<Rightarrow> string \<Rightarrow> int \<Rightarrow> reaction list \<Rightarrow> reaction list" where
  "MarkFailed now i errMsg backoff rows =
     update_row i (\<lambda>r. r\<lparr>rx_status := Failed, rx_next := Some (now + backoff), rx_error := Some (clip_error errMsg)\<rparr>) rows"

definition MarkDeadLettered :: "time \<Rightarrow> string \<Rightarrow> string \<Rightarrow> reaction list \<Rightarrow> reaction list" where
  "MarkDeadLettered now i errMsg rows =
     update_row i (\<lambda>r. r\<lparr>rx_status := DeadLettered, rx_finished := Some now, rx_error := Some (clip_error errMsg)\<rparr>) rows"

definition stuck_reaction :: "time \<Rightarrow> int \<Rightarrow> reaction \<Rightarrow> bool" where
  "stuck_reaction now threshold r \<longleftrightarrow>
     rx_status r = InProgress \<and> (case rx_started r of None \<Rightarrow> False | Some t \<Rightarrow> t < now - threshold)"

definition HealStuckInProgress :: "time \<Rightarrow> int \<Rightarrow> reaction list \<Rightarrow> reaction list" where
  "HealStuckInProgress now threshold rows =
     map (\<lambda>r. if stuck_reaction now threshold r
              then r\<lparr>rx_status := Failed, rx_next := Some now, rx_error := Some ''healed from stuck in_progress''\<rparr> else r) rows"

section \<open>The retry schedule\<close>

record backoff_env =
  be_getenv :: "string \<Rightarrow> string"
  be_duration :: "string \<Rightarrow> int option"  \<comment> \<open>\<open>time.ParseDuration\<close>\<close>

definition envDuration :: "backoff_env \<Rightarrow> string \<Rightarrow> int \<Rightarrow> int" where
  "envDuration E key def =
     (let v = TrimSpace (be_getenv E key) in
      if v = [] then def
      else (case be_duration E v of None \<Rightarrow> def | Some d \<Rightarrow> if d \<le> 0 then def else d))"

definition envIntPositive :: "backoff_env \<Rightarrow> string \<Rightarrow> int \<Rightarrow> int" where
  "envIntPositive E key def =
     (let v = TrimSpace (be_getenv E key) in
      if v = [] then def
      else (case Atoi v of None \<Rightarrow> def | Some n \<Rightarrow> if n \<le> 0 then def else n))"

definition Minute :: int where
  "Minute = 60 * Second"

definition BackoffFor :: "backoff_env \<Rightarrow> int \<Rightarrow> int \<times> bool" where
  "BackoffFor E attempt =
     (let maxAttempts = envIntPositive E ''REACTOR_MAX_ATTEMPTS'' 3 in
      if attempt < 1 \<or> maxAttempts < attempt then (0, True)
      else if attempt = 1 then (envDuration E ''REACTOR_BACKOFF_ATTEMPT_1'' Minute, False)
      else if attempt = 2 then (envDuration E ''REACTOR_BACKOFF_ATTEMPT_2'' (5 * Minute), False)
      else if attempt = 3 then (envDuration E ''REACTOR_BACKOFF_ATTEMPT_3'' (15 * Minute), False)
      else (0, True))"

section \<open>The payload\<close>

datatype event_payload = NoPayload | BadPayload | ObjectPayload gmap

definition BuildReactorPayload ::
  "string \<Rightarrow> string \<Rightarrow> string \<Rightarrow> event_payload \<Rightarrow> string \<Rightarrow> (string \<times> string) option \<Rightarrow> int \<Rightarrow> string + gmap" where
  "BuildReactorPayload eventID eventType schemaVersion payload emittedAt actor attempt =
     (case payload of
        BadPayload \<Rightarrow> Inl ''unmarshal event payload''
      | _ \<Rightarrow>
          let merged = (case payload of ObjectPayload m \<Rightarrow> m | _ \<Rightarrow> []);
              ctx = [(''event_id'', GStr eventID), (''event_type'', GStr eventType),
                     (''schema_version'', GStr schemaVersion), (''emitted_at'', GStr emittedAt),
                     (''attempt'', GInt attempt)] @
                    (case actor of None \<Rightarrow> []
                     | Some (t, i) \<Rightarrow> [(''actor'', GMap [(''type'', GStr t), (''id'', GStr i)])])
          in Inr (AList.update ''_context'' (GMap ctx) merged))"

section \<open>A tick of the runner\<close>

text \<open>
  \<open>rxe_fetch\<close> is \<open>FetchEventForReactor\<close>, \<open>rxe_call\<close> the adapter; both may depend on the tick. The emitted
  \<open>reactor.dead_lettered\<close> events are the second component of a tick.
\<close>

record reactor_env =
  rxe_backoff :: backoff_env
  rxe_fetch :: "string \<Rightarrow> string + event_payload \<times> string \<times> (string \<times> string) option"
  rxe_call :: "string \<Rightarrow> string \<Rightarrow> gmap \<Rightarrow> string option"
  rxe_broker :: bool
  rxe_threshold :: int
  rxe_batch :: nat

definition dead_letter_payload :: "reaction \<Rightarrow> string \<Rightarrow> gmap" where
  "dead_letter_payload c finalErr =
     [(''reaction_id'', GStr (rx_id c)), (''event_id'', GStr (rx_event c)), (''event_type'', GStr (rx_event_type c)),
      (''integration_instance_id'', GStr (rx_instance c)), (''capability'', GStr (rx_capability c)),
      (''final_error'', GStr finalErr), (''attempts'', GInt (rx_attempt c))]"

definition dispatchOne :: "reactor_env \<Rightarrow> time \<Rightarrow> reaction \<Rightarrow> reaction list \<times> gmap list \<Rightarrow> reaction list \<times> gmap list" where
  "dispatchOne E now c st =
     (case st of (rows, letters) \<Rightarrow>
        (case rxe_fetch E (rx_event c) of
           Inl err \<Rightarrow> (MarkFailed now (rx_id c) (''fetch event: '' @ err) (fst (BackoffFor (rxe_backoff E) (rx_attempt c))) rows, letters)
         | Inr (raw, emittedAt, actor) \<Rightarrow>
             (case BuildReactorPayload (rx_event c) (rx_event_type c) ''v1'' raw emittedAt actor (rx_attempt c) of
                Inl err \<Rightarrow> (MarkFailed now (rx_id c) (''build payload: '' @ err) (fst (BackoffFor (rxe_backoff E) (rx_attempt c))) rows, letters)
              | Inr payload \<Rightarrow>
                  (case rxe_call E (rx_instance c) (rx_capability c) payload of
                     None \<Rightarrow> (MarkSucceeded now (rx_id c) rows, letters)
                   | Some err \<Rightarrow>
                       (case BackoffFor (rxe_backoff E) (rx_attempt c) of
                          (wait, deadLetter) \<Rightarrow>
                            if deadLetter then (MarkDeadLettered now (rx_id c) err rows, letters @ [dead_letter_payload c err])
                            else (MarkFailed now (rx_id c) err wait rows, letters))))))"

definition tickOnce ::
  "reactor_env \<Rightarrow> time \<Rightarrow> (string \<Rightarrow> bool) \<Rightarrow> reaction list \<times> gmap list \<Rightarrow> reaction list \<times> gmap list" where
  "tickOnce E now locked st =
     (if \<not> rxe_broker E then st
      else (case ClaimPendingBatch now locked (rxe_batch E) (HealStuckInProgress now (rxe_threshold E) (fst st)) of
          (batch, rows) \<Rightarrow> fold (dispatchOne E now) batch (rows, snd st)))"

section \<open>Every row for itself\<close>

text \<open>What a dispatch does to its row, and the events it emits.\<close>

definition dispatch_outcome :: "reactor_env \<Rightarrow> reaction \<Rightarrow> (string option \<times> string \<times> bool)" where
  "dispatch_outcome E c =
     (case rxe_fetch E (rx_event c) of
        Inl err \<Rightarrow> (Some err, ''fetch event: '', False)
      | Inr (raw, emittedAt, actor) \<Rightarrow>
          (case BuildReactorPayload (rx_event c) (rx_event_type c) ''v1'' raw emittedAt actor (rx_attempt c) of
             Inl err \<Rightarrow> (Some err, ''build payload: '', False)
           | Inr payload \<Rightarrow> (rxe_call E (rx_instance c) (rx_capability c) payload, [], snd (BackoffFor (rxe_backoff E) (rx_attempt c)))))"

definition settle :: "reactor_env \<Rightarrow> time \<Rightarrow> reaction \<Rightarrow> reaction \<Rightarrow> reaction" where
  "settle E now c r =
     (case dispatch_outcome E c of
        (None, _, _) \<Rightarrow> r\<lparr>rx_status := Succeeded, rx_finished := Some now, rx_error := None\<rparr>
      | (Some err, prefix, True) \<Rightarrow> r\<lparr>rx_status := DeadLettered, rx_finished := Some now, rx_error := Some (clip_error err)\<rparr>
      | (Some err, prefix, False) \<Rightarrow>
          r\<lparr>rx_status := Failed, rx_next := Some (now + fst (BackoffFor (rxe_backoff E) (rx_attempt c))),
            rx_error := Some (clip_error (prefix @ err))\<rparr>)"

definition heal_row :: "time \<Rightarrow> int \<Rightarrow> reaction \<Rightarrow> reaction" where
  "heal_row now threshold r =
     (if stuck_reaction now threshold r
      then r\<lparr>rx_status := Failed, rx_next := Some now, rx_error := Some ''healed from stuck in_progress''\<rparr> else r)"

text \<open>The rows a tick claims: the first due rows that no other transaction holds, up to the size of a batch.\<close>

definition claimed_rows :: "reactor_env \<Rightarrow> time \<Rightarrow> (string \<Rightarrow> bool) \<Rightarrow> reaction list \<Rightarrow> reaction list" where
  "claimed_rows E now locked rows =
     take (rxe_batch E) (sort_key (\<lambda>r. the (rx_next r))
       (filter (\<lambda>r. due_reaction now r \<and> \<not> locked (rx_id r)) (map (heal_row now (rxe_threshold E)) rows)))"

definition row_step :: "reactor_env \<Rightarrow> time \<Rightarrow> string set \<Rightarrow> reaction \<Rightarrow> reaction" where
  "row_step E now chosen r =
     (let h = heal_row now (rxe_threshold E) r; c = claim_row now h in if rx_id r \<in> chosen then settle E now c c else h)"

lemma rx_id_row [simp]:
  "rx_id (claim_row now r) = rx_id r" "rx_id (settle E now c r) = rx_id r" "rx_id (heal_row now th r) = rx_id r"
  by (simp_all add: claim_row_def settle_def heal_row_def split: prod.splits option.splits bool.splits)

lemma dispatchOne_update:
  "fst (dispatchOne E now c st) = update_row (rx_id c) (settle E now c) (fst st)"
  by (cases st) (simp add: dispatchOne_def settle_def dispatch_outcome_def MarkSucceeded_def MarkFailed_def MarkDeadLettered_def
      update_row_def split: prod.splits sum.splits option.splits)

lemma fold_dispatchOne:
  "fst (fold (dispatchOne E now) cs st) = fold (\<lambda>c. update_row (rx_id c) (settle E now c)) cs (fst st)"
  by (induction cs arbitrary: st) (simp_all add: dispatchOne_update)

lemma fold_update_row:
  assumes "distinct (map rx_id cs)" and "\<And>c r. rx_id (f c r) = rx_id r"
  shows "fold (\<lambda>c. update_row (rx_id c) (f c)) cs rows =
    map (\<lambda>r. case find (\<lambda>c. rx_id c = rx_id r) cs of None \<Rightarrow> r | Some c \<Rightarrow> f c r) rows"
  using assms(1)
proof (induction cs arbitrary: rows)
  case (Cons c cs)
  have absent: "find (\<lambda>d. rx_id d = rx_id c) cs = None"
    using Cons.prems by (simp add: find_None_iff image_iff) metis
  show ?case using Cons.IH [of "update_row (rx_id c) (f c) rows"] Cons.prems absent
    by (auto simp: update_row_def assms(2))
qed simp

lemma find_by_id:
  assumes "distinct (map rx_id cs)" and "c \<in> set cs"
  shows "find (\<lambda>d. rx_id d = rx_id c) cs = Some c"
  using assms by (induction cs) auto

lemma claimed_rowsD:
  assumes "distinct (map rx_id rows)" and "c \<in> set (claimed_rows E now locked rows)"
  shows "due_reaction now c" "\<not> locked (rx_id c)" "c \<in> heal_row now (rxe_threshold E) ` set rows"
  using assms(2) by (auto simp: claimed_rows_def dest!: in_set_takeD)

lemma claimed_rows_distinct:
  assumes "distinct (map rx_id rows)"
  shows "distinct (map rx_id (claimed_rows E now locked rows))"
proof -
  have "distinct (map rx_id (map (heal_row now (rxe_threshold E)) rows))" using assms by (simp add: comp_def)
  then have "distinct (map rx_id (filter (\<lambda>r. due_reaction now r \<and> \<not> locked (rx_id r)) (map (heal_row now (rxe_threshold E)) rows)))"
    by (rule distinct_map_filter)
  then show ?thesis unfolding claimed_rows_def take_map [symmetric] by (intro distinct_take) (simp add: distinct_map)
qed

lemma tickOnce_claimed:
  assumes "rxe_broker E"
  shows "tickOnce E now locked (rows, letters) =
    fold (dispatchOne E now) (map (claim_row now) (claimed_rows E now locked rows))
      (fold (\<lambda>c. update_row (rx_id c) (claim_row now)) (claimed_rows E now locked rows) (map (heal_row now (rxe_threshold E)) rows), letters)"
proof -
  have "HealStuckInProgress now (rxe_threshold E) rows = map (heal_row now (rxe_threshold E)) rows"
    by (simp add: HealStuckInProgress_def heal_row_def)
  then show ?thesis using assms by (simp add: tickOnce_def ClaimPendingBatch_def claimed_rows_def Let_def)
qed

lemma tick_rows:
  assumes ids: "distinct (map rx_id rows)" and broker: "rxe_broker E"
  shows "fst (tickOnce E now locked (rows, letters)) = map (row_step E now (rx_id ` set (claimed_rows E now locked rows))) rows"
proof -
  let ?heal = "heal_row now (rxe_threshold E)"
  let ?cs = "claimed_rows E now locked rows"
  note dc = claimed_rows_distinct [OF ids, of E now locked]
  have dh: "distinct (map rx_id (map ?heal rows))" using ids by (simp add: comp_def)
  have dcc: "distinct (map rx_id (map (claim_row now) ?cs))" using dc by (simp add: comp_def)
  have eq: "(case find (\<lambda>c. rx_id c = rx_id r') (map (claim_row now) ?cs) of None \<Rightarrow> r' | Some c \<Rightarrow> settle E now c r') =
      row_step E now (rx_id ` set ?cs) r"
    if r: "r \<in> set rows" and r': "r' = (case find (\<lambda>c. rx_id c = rx_id (?heal r)) ?cs of None \<Rightarrow> ?heal r | Some c \<Rightarrow> claim_row now (?heal r))" for r r'
  proof (cases "rx_id r \<in> rx_id ` set ?cs")
    case True
    then obtain c where c: "c \<in> set ?cs" "rx_id c = rx_id (?heal r)" by auto
    with claimed_rowsD(3) [OF ids c(1)] r dh have "c = ?heal r" by (auto simp: distinct_map inj_on_def)
    with c have m: "?heal r \<in> set ?cs" by simp
    have "r' = claim_row now (?heal r)" using r' unfolding find_by_id [OF dc m] by simp
    moreover have "find (\<lambda>c. rx_id c = rx_id (claim_row now (?heal r))) (map (claim_row now) ?cs) = Some (claim_row now (?heal r))"
      by (rule find_by_id [OF dcc]) (use m in simp)
    ultimately show ?thesis using True by (simp add: row_step_def Let_def)
  next
    case False
    then have absent: "rx_id c \<noteq> rx_id (?heal r)" if "c \<in> set ?cs" for c using that by (metis image_eqI rx_id_row(3))
    have "find (\<lambda>c. rx_id c = rx_id (?heal r)) ?cs = None" unfolding find_None_iff using absent by blast
    moreover have "find (\<lambda>c. rx_id c = rx_id (?heal r)) (map (claim_row now) ?cs) = None"
      unfolding find_None_iff using absent by (metis (no_types, lifting) imageE list.set_map rx_id_row(1))
    ultimately show ?thesis using r' False by (simp add: row_step_def Let_def)
  qed
  show ?thesis
    unfolding tickOnce_claimed [OF broker] fold_dispatchOne fst_conv fold_update_row [where f = "\<lambda>c. claim_row now", OF dc rx_id_row(1)]
      fold_update_row [where f = "settle E now", OF dcc rx_id_row(2)] map_map comp_def
    by (rule map_cong [OF refl], rule eq [OF _ refl])
qed

section \<open>Progress\<close>

definition terminal :: "reaction \<Rightarrow> bool" where
  "terminal r \<longleftrightarrow> rx_status r \<in> {Succeeded, DeadLettered}"

text \<open>A row between two ticks of a runner that does not crash.\<close>

definition waiting :: "reaction \<Rightarrow> bool" where
  "waiting r \<longleftrightarrow> rx_status r \<in> {Pending, Failed} \<and> rx_next r \<noteq> None \<and> 0 \<le> rx_attempt r"

text \<open>A row that a runner claimed and then gave up.\<close>

definition abandoned :: "reaction \<Rightarrow> bool" where
  "abandoned r \<longleftrightarrow> rx_status r = InProgress \<and> rx_started r \<noteq> None \<and> 0 \<le> rx_attempt r"




lemma row_step_simps:
  "terminal r \<Longrightarrow> heal_row now th r = r" "waiting r \<Longrightarrow> heal_row now th r = r"
  "abandoned r \<Longrightarrow> heal_row now th r = r \<or> waiting (heal_row now th r) \<and> rx_attempt (heal_row now th r) = rx_attempt r \<and> rx_event (heal_row now th r) = rx_event r"
  by (auto simp: terminal_def waiting_def abandoned_def heal_row_def stuck_reaction_def)












section \<open>A runner that keeps ticking\<close>

fun run_ticks :: "(nat \<Rightarrow> reactor_env) \<Rightarrow> (nat \<Rightarrow> time) \<Rightarrow> (nat \<Rightarrow> string \<Rightarrow> bool) \<Rightarrow> reaction list \<Rightarrow> nat \<Rightarrow> reaction list \<times> gmap list" where
  "run_ticks E clock locked rows 0 = (rows, [])"
| "run_ticks E clock locked rows (Suc n) = tickOnce (E n) (clock n) (locked n) (run_ticks E clock locked rows n)"








lemma claimed_in_progress:
  assumes ids: "distinct (map rx_id rows)" and claim: "ClaimPendingBatch now locked limit rows = (batch, rows')"
    and r: "r \<in> set rows'" "rx_id r \<in> rx_id ` set batch"
  shows "rx_status r = InProgress"
proof -
  let ?f = "\<lambda>r. due_reaction now r \<and> \<not> locked (rx_id r)"
  define cs where "cs = take limit (sort_key (\<lambda>r. the (rx_next r)) (filter ?f rows))"
  have "distinct (map rx_id (sort_key (\<lambda>r. the (rx_next r)) (filter ?f rows)))"
    using distinct_map_filter [OF ids, of ?f] by (simp add: distinct_map)
  then have dc: "distinct (map rx_id cs)" unfolding cs_def take_map [symmetric] by (rule distinct_take)
  from claim have b: "batch = map (claim_row now) cs" and rows': "rows' = fold (\<lambda>c. update_row (rx_id c) (claim_row now)) cs rows"
    by (auto simp: ClaimPendingBatch_def Let_def cs_def)
  then obtain r0 where r0: "r = (case find (\<lambda>c. rx_id c = rx_id r0) cs of None \<Rightarrow> r0 | Some c \<Rightarrow> claim_row now r0)"
    using r(1) unfolding fold_update_row [where f = "\<lambda>c. claim_row now", OF dc rx_id_row(1)] by auto
  then have "rx_id r0 = rx_id r" by (auto split: option.splits)
  then obtain c where "c \<in> set cs" "rx_id c = rx_id r0" using r(2) b by force
  then have "find (\<lambda>c. rx_id c = rx_id r0) cs \<noteq> None" unfolding find_None_iff by blast
  with r0 have "r = claim_row now r0" by auto
  then show ?thesis by (simp add: claim_row_def)
qed

section \<open>Properties\<close>


text \<open>A reaction has one owner. Two claims in a row, of any sizes, by any workers and at any times, never return
  the same reaction, as long as the first one has not been healed or finished in between.\<close>
theorem claims_are_exclusive:
  assumes "distinct (map rx_id rows)"
    and "ClaimPendingBatch now locked limit rows = (batch, rows')"
    and "ClaimPendingBatch now' locked' limit' rows' = (batch', rows'')"
  shows "set (map rx_id batch) \<inter> set (map rx_id batch') = {}"
proof (rule ccontr)
  assume "\<not> ?thesis"
  then obtain i where i: "i \<in> set (map rx_id batch)" "i \<in> set (map rx_id batch')" by blast
  then obtain c' where c': "c' \<in> set batch'" "rx_id c' \<in> rx_id ` set batch" by (metis imageE list.set_map)
  from assms(3) c'(1) obtain c where "c \<in> set rows'" "due_reaction now' c" "rx_id c = rx_id c'"
    by (auto simp: ClaimPendingBatch_def Let_def dest!: in_set_takeD)
  with claimed_in_progress [OF assms(1,2), of c] c'(2) show False by (simp add: due_reaction_def)
qed

text \<open>A reaction whose event cannot be fetched is retried without end: however many ticks pass, it is neither
  dead-lettered nor succeeded, since only a failed call of the adapter looks at the limit of attempts.\<close>
theorem unfetchable_reaction_never_settles:
  assumes "distinct (map rx_id rows)" and "list_all waiting rows" and "\<And>n event. rxe_fetch (E n) event = Inl err"
  shows "list_all waiting (fst (run_ticks E clock locked rows n))"
proof -
  have step: "waiting (row_step (E n) now chosen r)" if w: "waiting r" for n now chosen r
  proof -
    have "dispatch_outcome (E n) c = (Some err, ''fetch event: '', False)" for c
      by (simp add: dispatch_outcome_def assms(3))
    then show ?thesis using w row_step_simps(2) [OF w] by (simp add: row_step_def Let_def settle_def waiting_def claim_row_def)
  qed
  have "list_all waiting (fst (run_ticks E clock locked rows n)) \<and> map rx_id (fst (run_ticks E clock locked rows n)) = map rx_id rows"
  proof (induction n)
    case (Suc n)
    obtain rs letters where st: "run_ticks E clock locked rows n = (rs, letters)" by (cases "run_ticks E clock locked rows n")
    have "distinct (map rx_id rs)" using Suc st assms(1) by simp
    note t = tick_rows [OF this, of "E n" "clock n" "locked n" letters]
    show ?case
    proof (cases "rxe_broker (E n)")
      case True
      have "rx_id (row_step E' now chosen r) = rx_id r" for E' now chosen r by (simp add: row_step_def Let_def)
      with Suc st t [OF True] step show ?thesis by (simp add: list_all_iff comp_def)
    qed (use Suc st in \<open>simp add: tickOnce_def\<close>)
  qed (use assms(2) in simp)
  then show ?thesis ..
qed

text \<open>The number of attempts that \<open>REACTOR_MAX_ATTEMPTS\<close> asks for has no effect above three: the fourth failure is dead-lettered under
  every environment.\<close>
theorem max_attempts_above_three_ignored: "3 < attempt \<Longrightarrow> BackoffFor E attempt = (0, True)"
  by (simp add: BackoffFor_def Let_def)

text \<open>A late answer reopens a finished reaction: when a worker that was given up reports a failure after another
  worker has recorded success, the row is due again.\<close>
theorem late_failure_reopens_reaction:
  assumes "r \<in> set (MarkFailed later i err wait (MarkSucceeded now i rows))" and "rx_id r = i"
  shows "due_reaction (later + wait) r"
proof -
  let ?f = "\<lambda>r. r\<lparr>rx_status := Failed, rx_next := Some (later + wait), rx_error := Some (clip_error err)\<rparr>"
  from assms(1) obtain r0 where r0: "r = (if rx_id r0 = i then ?f r0 else r0)"
    unfolding MarkFailed_def update_row_def set_map by blast
  have "rx_id r0 = i" using assms(2) r0 by (simp split: if_splits)
  then have "r = ?f r0" using r0 by simp
  then show ?thesis by (simp add: due_reaction_def)
qed

section \<open>Witnesses\<close>

definition ex_reaction :: reaction where
  "ex_reaction = \<lparr>rx_id = ''r1'', rx_event = ''e1'', rx_event_type = ''team.created'', rx_instance = ''i1'', rx_type_manifest = ''t1'',
     rx_capability = ''on_team_created'', rx_status = Pending, rx_attempt = 0, rx_next = Some 0, rx_started = None,
     rx_finished = None, rx_error = None\<rparr>"

definition ex_reactor_env :: "(string + event_payload \<times> string \<times> (string \<times> string) option) \<Rightarrow> reactor_env" where
  "ex_reactor_env fetched = \<lparr>rxe_backoff = \<lparr>be_getenv = (\<lambda>_. []), be_duration = (\<lambda>_. None)\<rparr>, rxe_fetch = (\<lambda>_. fetched),
     rxe_call = (\<lambda>_ _ _. Some ''down''), rxe_broker = True, rxe_threshold = 10 * Minute, rxe_batch = 50\<rparr>"


lemma ex_waiting: "waiting ex_reaction"
  by (simp add: ex_reaction_def waiting_def)



theorem claims_are_exclusive_witness:
  "let (batch, rows') = ClaimPendingBatch 5 (\<lambda>_. False) 10 [ex_reaction];
       (batch', rows'') = ClaimPendingBatch 7 (\<lambda>_. False) 10 rows'
   in map rx_id batch = [''r1''] \<and> set (map rx_id batch) \<inter> set (map rx_id batch') = {}"
proof -
  obtain b rows' where 1: "ClaimPendingBatch 5 (\<lambda>_. False) 10 [ex_reaction] = (b, rows')"
    by (cases "ClaimPendingBatch 5 (\<lambda>_. False) 10 [ex_reaction]")
  obtain b' rows'' where 2: "ClaimPendingBatch 7 (\<lambda>_. False) 10 rows' = (b', rows'')"
    by (cases "ClaimPendingBatch 7 (\<lambda>_. False) 10 rows'")
  have "map rx_id b = [''r1'']"
    using 1 by (auto simp: ClaimPendingBatch_def due_reaction_def ex_reaction_def claim_row_def Let_def)
  moreover have "set (map rx_id b) \<inter> set (map rx_id b') = {}" by (rule claims_are_exclusive [OF _ 1 2]) simp
  ultimately show ?thesis unfolding 1 2 Let_def prod.case by blast
qed

theorem unfetchable_reaction_never_settles_witness:
  "list_all waiting (fst (run_ticks (\<lambda>_. ex_reactor_env (Inl ''gone'')) (\<lambda>n. int n * Minute) (\<lambda>_ _. False) [ex_reaction] 1000))"
  by (rule unfetchable_reaction_never_settles [where err = "''gone''"]) (simp_all add: ex_reactor_env_def ex_waiting)

theorem max_attempts_above_three_ignored_witness:
  "BackoffFor \<lparr>be_getenv = (\<lambda>k. if k = ''REACTOR_MAX_ATTEMPTS'' then ''9'' else []), be_duration = (\<lambda>_. None)\<rparr> 4 = (0, True)"
  by (rule max_attempts_above_three_ignored) simp

theorem late_failure_reopens_reaction_witness:
  "due_reaction (7 + 1) (hd (MarkFailed 7 ''r1'' ''timeout'' 1 (MarkSucceeded 5 ''r1'' [ex_reaction])))"
  by (rule late_failure_reopens_reaction [where i = "''r1''" and now = 5 and err = "''timeout''" and rows = "[ex_reaction]"])
    (simp_all add: MarkFailed_def MarkSucceeded_def update_row_def ex_reaction_def)

end
