(* ===== verification/Event_Log.thy ===== *)
theory Event_Log
  imports Reactors Once_Ledger Cursor_Scan
begin

text \<open>
  The event log, \<open>repository/event.go\<close>, and the fan-out to reactors in the same transaction,
  \<open>MaterializeReactions\<close> of \<open>repository/integration_event_reactions.go\<close> with the event type grammars of
  \<open>repository/event_types_lifecycle.go\<close> and \<open>event_types_integration_mutation.go\<close>. The JSON schemas of the
  payloads, the id generators, the sequence and the clock of the database are the record \<open>emit_env\<close>. An
  error rolls the caller's transaction back, so it leaves the tables as they were.
\<close>

section \<open>Tables\<close>

record event_row =
  er_id :: string
  er_seq :: int
  er_type :: string
  er_schema :: string
  er_agg_type :: string
  er_agg_id :: string
  er_actor_type :: "string option"
  er_actor_id :: "string option"
  er_actor_context :: "gmap option"
  er_emitted :: time
  er_payload :: gmap
  er_metadata :: "gmap option"
  er_key :: "string option"

record EventActor =
  actor_type :: string
  actor_id :: string
  actor_context :: "gmap option"

record EmitEventRequest =
  em_type :: string
  em_schema :: string
  em_agg_type :: string
  em_agg_id :: string
  em_actor :: "EventActor option"
  em_payload :: "gmap option"
  em_metadata :: "gmap option"
  em_key :: string

record EmitEventOutcome =
  eo_event :: string
  eo_reactions :: nat
  eo_deduped :: bool

text \<open>
  What the fan-out query reads of the manifests: the active instances with their type reference, and the
  active types with the pairs of event type and capability of their reactors.
\<close>

record reactor_view =
  rv_instances :: "(string \<times> string \<times> string) list"
  rv_types :: "(string \<times> string \<times> string \<times> (string \<times> string) list) list"

record event_db =
  edb_log :: "event_row list"
  edb_reactions :: "reaction list"

record emit_env =
  ee_schema_ok :: "string \<Rightarrow> string \<Rightarrow> gmap \<Rightarrow> bool"
  ee_new_id :: "string option"
  ee_marshal :: "gmap \<Rightarrow> bool"
  ee_seq :: int
  ee_now :: time
  ee_reaction_id :: "nat \<Rightarrow> string"

datatype emit_error =
    EventTypeRequired
  | AggregateTypeRequired
  | AggregateIDRequired
  | PayloadRequired
  | IdempotencyKeyTooLong
  | PayloadRefused
  | EventIDFailed
  | MarshalFailed
  | MaterializeFailed

section \<open>Event types that react\<close>

definition CanonLifecycleEventTypes :: "string list" where
  "CanonLifecycleEventTypes =
     [''collaborator.created'', ''collaborator.offboarded'', ''collaborator.session.terminated'',
      ''collaborator.absence_started'', ''collaborator.absence_ended'', ''collaborator.role_changed'',
      ''collaborator.re_onboarded'', ''team.created'', ''team.updated'', ''team.deleted'',
      ''team_membership.added'', ''team_membership.removed'', ''team_grant.added'', ''team_grant.revoked'']"

definition IsCanonLifecycleEvent :: "string \<Rightarrow> bool" where
  "IsCanonLifecycleEvent t \<longleftrightarrow> t \<in> set CanonLifecycleEventTypes"

definition is_lower_letter :: "char \<Rightarrow> bool" where
  "is_lower_letter c \<longleftrightarrow> CHR ''a'' \<le> c \<and> c \<le> CHR ''z''"

definition snake_case :: "string \<Rightarrow> bool" where
  "snake_case s \<longleftrightarrow> (case s of [] \<Rightarrow> False
     | c # cs \<Rightarrow> is_lower_letter c \<and> list_all (\<lambda>d. is_lower_letter d \<or> is_digit d \<or> d = CHR ''_'') cs)"

definition IntegrationMutationVerbs :: "string list" where
  "IntegrationMutationVerbs = [''ensured'', ''destroyed'', ''created'']"

definition IsIntegrationMutationEvent :: "string \<Rightarrow> bool" where
  "IsIntegrationMutationEvent t =
     (case Split CHR ''.'' t of
        [provider, resource, verb] \<Rightarrow> snake_case provider \<and> snake_case resource \<and> verb \<in> set IntegrationMutationVerbs
      | _ \<Rightarrow> False)"

definition ParseIntegrationMutationEventType :: "string \<Rightarrow> (string \<times> string \<times> string) option" where
  "ParseIntegrationMutationEventType t =
     (if \<not> IsIntegrationMutationEvent t then None
      else (case Split CHR ''.'' t of [provider, resource, verb] \<Rightarrow> Some (provider, resource, verb) | _ \<Rightarrow> None))"

section \<open>Emission\<close>

definition reactors_for ::
  "string \<Rightarrow> string \<times> string \<times> string \<Rightarrow> string \<times> string \<times> string \<times> (string \<times> string) list \<Rightarrow> (string \<times> string \<times> string) list" where
  "reactors_for t ii it =
     (case ii of (instance, namespace, name) \<Rightarrow>
        (case it of (tid, tns, tname, reactors) \<Rightarrow>
           if tns = namespace \<and> tname = name
           then map (\<lambda>(e, capability). (instance, tid, capability)) (filter (\<lambda>(e, capability). e = t) reactors) else []))"

definition matching_reactors :: "reactor_view \<Rightarrow> string \<Rightarrow> (string \<times> string \<times> string) list" where
  "matching_reactors V t = concat (map (\<lambda>ii. concat (map (reactors_for t ii) (rv_types V))) (rv_instances V))"

definition new_reactions :: "emit_env \<Rightarrow> reactor_view \<Rightarrow> string \<Rightarrow> string \<Rightarrow> reaction list" where
  "new_reactions E V event t =
     map (\<lambda>(n, instance, tid, capability).
         \<lparr>rx_id = ee_reaction_id E n, rx_event = event, rx_event_type = t, rx_instance = instance, rx_type_manifest = tid,
          rx_capability = capability, rx_status = Pending, rx_attempt = 0, rx_next = Some (ee_now E), rx_started = None,
          rx_finished = None, rx_error = None\<rparr>)
       (enumerate 0 (matching_reactors V t))"

definition event_instance :: "reaction \<Rightarrow> string \<times> string" where
  "event_instance r = (rx_event r, rx_instance r)"

text \<open>The constraint \<open>iers_unique_per_event_instance\<close> refuses a second row for an event and an instance.\<close>

definition MaterializeReactions ::
  "emit_env \<Rightarrow> reactor_view \<Rightarrow> string \<Rightarrow> string \<Rightarrow> reaction list \<Rightarrow> emit_error + reaction list \<times> nat" where
  "MaterializeReactions E V event t rows =
     (if \<not> IsCanonLifecycleEvent t \<and> \<not> IsIntegrationMutationEvent t then Inr (rows, 0)
      else let fresh = new_reactions E V event t in
        if \<not> distinct (map event_instance fresh) \<or> set (map event_instance fresh) \<inter> set (map event_instance rows) \<noteq> {}
        then Inl MaterializeFailed
        else Inr (rows @ fresh, length fresh))"

definition NormalizeEmit :: "EmitEventRequest \<Rightarrow> EmitEventRequest" where
  "NormalizeEmit req = req\<lparr>em_type := TrimSpace (em_type req),
     em_schema := (if em_schema req = [] then ''v1'' else em_schema req),
     em_agg_type := TrimSpace (em_agg_type req), em_agg_id := TrimSpace (em_agg_id req), em_key := TrimSpace (em_key req)\<rparr>"

definition MaxIdempotencyKeyLength :: nat where
  "MaxIdempotencyKeyLength = 256"

definition check_emit :: "emit_env \<Rightarrow> EmitEventRequest \<Rightarrow> emit_error option" where
  "check_emit E req =
     e_then (guard_err (em_type req = []) EventTypeRequired)
    (e_then (guard_err (em_agg_type req = []) AggregateTypeRequired)
    (e_then (guard_err (em_agg_id req = []) AggregateIDRequired)
    (e_then (guard_err (em_payload req = None) PayloadRequired)
    (e_then (guard_err (MaxIdempotencyKeyLength < length (em_key req)) IdempotencyKeyTooLong)
    (e_then (guard_err (\<not> ee_schema_ok E (em_type req) (em_schema req) (the (em_payload req))) PayloadRefused)
    (e_then (guard_err (ee_new_id E = None) EventIDFailed)
    (guard_err (\<not> ee_marshal E (the (em_payload req)) \<or>
                (case em_metadata req of None \<Rightarrow> False | Some m \<Rightarrow> \<not> ee_marshal E m) \<or>
                (case em_actor req of None \<Rightarrow> False
                 | Some a \<Rightarrow> (case actor_context a of None \<Rightarrow> False | Some c \<Rightarrow> \<not> ee_marshal E c))) MarshalFailed)))))))"

definition non_empty :: "string \<Rightarrow> string option" where
  "non_empty s = (if s = [] then None else Some s)"

definition event_of_request :: "emit_env \<Rightarrow> EmitEventRequest \<Rightarrow> event_row" where
  "event_of_request E req =
     \<lparr>er_id = the (ee_new_id E), er_seq = ee_seq E, er_type = em_type req, er_schema = em_schema req,
      er_agg_type = em_agg_type req, er_agg_id = em_agg_id req,
      er_actor_type = Option.bind (em_actor req) (\<lambda>a. non_empty (actor_type a)),
      er_actor_id = Option.bind (em_actor req) (\<lambda>a. non_empty (actor_id a)),
      er_actor_context = Option.bind (em_actor req) actor_context,
      er_emitted = ee_now E, er_payload = the (em_payload req), er_metadata = em_metadata req,
      er_key = non_empty (em_key req)\<rparr>"

definition same_key :: "string \<Rightarrow> string option \<Rightarrow> event_row \<Rightarrow> bool" where
  "same_key t k e \<longleftrightarrow> k \<noteq> None \<and> er_type e = t \<and> er_key e = k"

definition EmitEventWithOutcome ::
  "emit_env \<Rightarrow> reactor_view \<Rightarrow> EmitEventRequest \<Rightarrow> event_db \<Rightarrow> emit_error + EmitEventOutcome \<times> event_db" where
  "EmitEventWithOutcome E V request db =
     (let req = NormalizeEmit request in
      case check_emit E req of
        Some e \<Rightarrow> Inl e
      | None \<Rightarrow>
          let row = event_of_request E req in
          (case find (same_key (er_type row) (er_key row)) (edb_log db) of
             Some existing \<Rightarrow> Inr (\<lparr>eo_event = er_id existing, eo_reactions = 0, eo_deduped = True\<rparr>, db)
           | None \<Rightarrow>
               (case MaterializeReactions E V (er_id row) (er_type row) (edb_reactions db) of
                  Inl e \<Rightarrow> Inl e
                | Inr (rows, n) \<Rightarrow>
                    Inr (\<lparr>eo_event = er_id row, eo_reactions = n, eo_deduped = False\<rparr>,
                         db\<lparr>edb_log := edb_log db @ [row], edb_reactions := rows\<rparr>))))"

definition EmitEvent :: "emit_env \<Rightarrow> reactor_view \<Rightarrow> EmitEventRequest \<Rightarrow> event_db \<Rightarrow> emit_error + string \<times> event_db" where
  "EmitEvent E V req db = map_sum id (\<lambda>(outcome, db'). (eo_event outcome, db')) (EmitEventWithOutcome E V req db)"

section \<open>The stream\<close>

text \<open>\<open>LIKE\<close>: the percent sign matches any text, the underscore any character, and the backslash quotes one.\<close>

fun like :: "string \<Rightarrow> string \<Rightarrow> bool" where
  "like [] s \<longleftrightarrow> s = []"
| "like (p # ps) [] \<longleftrightarrow> p = CHR ''%'' \<and> like ps []"
| "like (p # ps) (c # s) \<longleftrightarrow>
     (if p = CHR ''%'' then like ps (c # s) \<or> like (p # ps) s
      else if p = CHR ''_'' then like ps s
      else if p = CHR 0x5C then (case ps of [] \<Rightarrow> False | q # qs \<Rightarrow> q = c \<and> like qs s)
      else p = c \<and> like ps s)"

definition wildcardToLike :: "string \<Rightarrow> string" where
  "wildcardToLike pattern = map (\<lambda>c. if c = CHR ''*'' then CHR ''%'' else c) pattern"

definition encodePullCursor :: "int \<Rightarrow> string" where
  "encodePullCursor seq = ''seq:'' @ Itoa seq"

text \<open>\<open>fmt.Sscanf\<close> with the verb \<open>%d\<close>: blanks, a sign and decimal digits; what follows them is not read.\<close>

definition scan_int64 :: "string \<Rightarrow> int option" where
  "scan_int64 s =
     (let blank = takeWhile is_space s; t = dropWhile is_space s;
          sign = (case t of c # cs \<Rightarrow> if c = CHR ''-'' then -1 else 1 | [] \<Rightarrow> 1);
          u = (case t of c # cs \<Rightarrow> if c = CHR ''-'' \<or> c = CHR ''+'' then cs else t | [] \<Rightarrow> t);
          digits = takeWhile is_digit u; n = sign * int (digits_val 0 digits)
      in if CHR 0x0A \<in> set blank \<or> digits = [] \<or> n < - (2 ^ 63) \<or> 2 ^ 63 \<le> n then None else Some n)"

definition decodePullCursor :: "string \<Rightarrow> int option" where
  "decodePullCursor cursor =
     (let c = TrimSpace cursor in
      if c = [] then Some 0
      else if \<not> HasPrefix c ''seq:'' then None
      else (case scan_int64 (drop 4 c) of None \<Rightarrow> None | Some seq \<Rightarrow> if seq < 0 then None else Some seq))"

record PullEventsFilters =
  plf_types :: "string list"
  plf_agg_type :: string
  plf_agg_id :: string
  plf_schemas :: "string list"
  plf_emitted_after :: "time option"

definition pull_condition :: "PullEventsFilters \<Rightarrow> event_row \<Rightarrow> bool" where
  "pull_condition F e \<longleftrightarrow>
     (let patterns = filter (\<lambda>p. p \<noteq> []) (map TrimSpace (plf_types F)) in
      patterns = [] \<or> list_ex (\<lambda>p. like (wildcardToLike p) (er_type e)) patterns) \<and>
     (plf_agg_type F = [] \<or> er_agg_type e = plf_agg_type F) \<and>
     (plf_agg_id F = [] \<or> er_agg_id e = plf_agg_id F) \<and>
     (plf_schemas F = [] \<or> er_schema e \<in> set (plf_schemas F)) \<and>
     (case plf_emitted_after F of None \<Rightarrow> True | Some t \<Rightarrow> t < er_emitted e)"

definition pull_limit :: "int \<Rightarrow> nat" where
  "pull_limit limit = (let l = (if limit \<le> 0 then 100 else limit) in nat (if 1000 < l then 1000 else l))"

definition PullEvents ::
  "string \<Rightarrow> int \<Rightarrow> PullEventsFilters \<Rightarrow> event_row list \<Rightarrow> (event_row list \<times> string \<times> bool) option" where
  "PullEvents cursor limit F rows =
     (case decodePullCursor cursor of
        None \<Rightarrow> None
      | Some cursorSeq \<Rightarrow>
          let l = pull_limit limit;
              found = take (Suc l) (sort_key er_seq (filter (\<lambda>e. cursorSeq < er_seq e \<and> pull_condition F e) rows));
              hasMore = l < length found;
              events = (if hasMore then take l found else found);
              lastSeq = (if events = [] then cursorSeq else er_seq (last events))
          in Some (events, encodePullCursor lastSeq, hasMore))"

definition CleanupExpiredEvents :: "time \<Rightarrow> (string \<times> int) list \<Rightarrow> event_db \<Rightarrow> event_db" where
  "CleanupExpiredEvents now policies db =
     fold (\<lambda>(pattern, days) d.
         if days \<le> 0 then d
         else let keep = (\<lambda>e. \<not> (like (wildcardToLike pattern) (er_type e) \<and> er_emitted e < now - days * (24 * 60 * Minute)));
                  kept = filter keep (edb_log d)
              in d\<lparr>edb_log := kept, edb_reactions := filter (\<lambda>r. rx_event r \<in> er_id ` set kept) (edb_reactions d)\<rparr>)
       policies db"

section \<open>Cursors and pages\<close>

lemma takeWhile_all: "list_all P xs \<Longrightarrow> takeWhile P xs = xs"
  by (induction xs) auto

lemma digit_not_space: "is_digit c \<Longrightarrow> \<not> is_space c"
  by (auto simp: is_digit_def is_space_def)

lemma digit_not_sign: "is_digit c \<Longrightarrow> c \<noteq> CHR ''-'' \<and> c \<noteq> CHR ''+''"
  by (auto simp: is_digit_def)

lemma scan_int64_digits:
  assumes "list_all is_digit ds" and "ds \<noteq> []" and "digits_val 0 ds < 2 ^ 63"
  shows "scan_int64 ds = Some (int (digits_val 0 ds))"
proof -
  obtain d es where ds: "ds = d # es" using assms(2) by (cases ds) auto
  have "is_digit d" using assms(1) ds by simp
  then have "\<not> is_space d" "d \<noteq> CHR ''-''" "d \<noteq> CHR ''+''" using digit_not_space digit_not_sign by blast+
  then have "takeWhile is_space ds = []" "dropWhile is_space ds = ds" "takeWhile is_digit ds = ds" using ds takeWhile_all [OF assms(1)] by simp_all
  moreover have "int (digits_val 0 ds) < 2 ^ 63" using assms(3) by (metis of_nat_less_iff of_nat_numeral of_nat_power)
  ultimately show ?thesis using ds \<open>d \<noteq> CHR ''-''\<close> \<open>d \<noteq> CHR ''+''\<close> by (simp add: scan_int64_def Let_def)
qed

lemma decode_encode_cursor:
  assumes "0 \<le> seq" and "seq < 2 ^ 63"
  shows "decodePullCursor (encodePullCursor seq) = Some seq"
proof -
  define ds where "ds = nat_digits (nat seq)"
  have itoa: "Itoa seq = ds" using assms(1) by (simp add: Itoa_def ds_def)
  have ds: "digits_val 0 ds = nat seq" "list_all is_digit ds" "ds \<noteq> []" using nat_digits_val [of "nat seq"] by (simp_all add: ds_def)
  have "is_digit (last ds)" using ds(2,3) by (simp add: list_all_iff)
  then have "trimmed (''seq:'' @ ds)" using ds(3) digit_not_space by (simp add: trimmed_def is_space_def)
  then have "TrimSpace (''seq:'' @ ds) = ''seq:'' @ ds" by (rule TrimSpace_id)
  moreover have "scan_int64 ds = Some seq" using scan_int64_digits [OF ds(2,3)] ds(1) assms by (simp add: nat_less_iff)
  ultimately show ?thesis using assms(1) itoa
    by (simp add: decodePullCursor_def encodePullCursor_def Let_def HasPrefix_def)
qed

interpretation event_scan: cursor_scan "\<lambda>c e. c < er_seq e" er_seq "\<lambda>r s. er_seq r < er_seq s"
  by unfold_locales auto

definition stream :: "PullEventsFilters \<Rightarrow> event_row list \<Rightarrow> event_row list" where
  "stream F rows = sort_key er_seq (filter (pull_condition F) rows)"

lemma PullEvents_page:
  assumes "decodePullCursor cursor = Some c"
  shows "PullEvents cursor limit F rows =
    (case event_scan.page c (pull_limit limit) (stream F rows) of (batch, c', hasMore) \<Rightarrow> Some (batch, encodePullCursor c', hasMore))"
proof -
  have "sort_key er_seq (filter (\<lambda>e. c < er_seq e \<and> pull_condition F e) rows) = filter (\<lambda>e. c < er_seq e) (stream F rows)"
    by (simp add: stream_def filter_sort filter_filter conj_commute)
  then show ?thesis using assms by (simp add: PullEvents_def event_scan.page_def Let_def)
qed

text \<open>
  A consumer of the stream: it pulls once from every state of the log that it meets, each time with a limit of its
  own, and passes on the cursor it was given. Its result is what it received, its cursor and the \<open>has_more\<close> of the last pull.
\<close>

fun pull_each :: "string \<Rightarrow> PullEventsFilters \<Rightarrow> (int \<times> event_row list) list \<Rightarrow> (event_row list \<times> string \<times> bool) option" where
  "pull_each cursor F [] = Some ([], cursor, True)"
| "pull_each cursor F ((limit, shown) # pulls) =
     (case PullEvents cursor limit F shown of
        None \<Rightarrow> None
      | Some (events, nextCursor, hasMore) \<Rightarrow>
          if pulls = [] then Some (events, nextCursor, hasMore)
          else map_option (\<lambda>(es, rest). (events @ es, rest)) (pull_each nextCursor F pulls))"

text \<open>
  An event that a later state of the log shows and an earlier one does not has a larger sequence number than all events
  of the earlier one. Events may disappear, as the retention removes them.
\<close>

definition visible_in_order :: "event_row list list \<Rightarrow> bool" where
  "visible_in_order logs \<longleftrightarrow>
     sorted_wrt (\<lambda>a b. list_all (\<lambda>e. e \<in> set a \<or> list_all (\<lambda>d. er_seq d < er_seq e) a) b) logs"

definition sequences_ok :: "event_row list \<Rightarrow> bool" where
  "sequences_ok rows \<longleftrightarrow> distinct (map er_seq rows) \<and> list_all (\<lambda>e. 0 \<le> er_seq e \<and> er_seq e < 2 ^ 63) rows"

lemma stream_sorted:
  assumes "sequences_ok rows"
  shows "sorted_wrt (\<lambda>r s. er_seq r < er_seq s) (stream F rows)"
proof -
  have "distinct (map er_seq (filter (pull_condition F) rows))" using assms by (simp add: sequences_ok_def distinct_map_filter)
  then have "distinct (map er_seq (stream F rows))" by (simp add: stream_def distinct_map)
  moreover have "sorted (map er_seq (stream F rows))" by (simp add: stream_def)
  ultimately show ?thesis using strict_sorted_iff sorted_wrt_map by blast
qed

lemma decode_bounds: "decodePullCursor cursor = Some c \<Longrightarrow> 0 \<le> c \<and> c < 2 ^ 63"
  by (auto simp: decodePullCursor_def scan_int64_def Let_def split: if_splits option.splits)

lemma pull_step:
  assumes "sequences_ok rows" and "decodePullCursor cursor = Some c"
  obtains batch c1 hasMore where "PullEvents cursor limit F rows = Some (batch, encodePullCursor c1, hasMore)"
    "decodePullCursor (encodePullCursor c1) = Some c1" "c \<le> c1"
    "set batch = {e \<in> set rows. c < er_seq e \<and> er_seq e \<le> c1 \<and> pull_condition F e}"
    "sorted_wrt (\<lambda>r s. er_seq r < er_seq s) batch" "batch = [] \<and> c1 = c \<or> (\<exists>d \<in> set batch. er_seq d = c1)"
    "hasMore \<longleftrightarrow> filter (\<lambda>e. c1 < er_seq e) (stream F rows) \<noteq> []"
    "hasMore \<Longrightarrow> length (filter (\<lambda>e. c1 < er_seq e) (stream F rows)) < length (filter (\<lambda>e. c < er_seq e) (stream F rows))"
proof -
  let ?xs = "filter (\<lambda>e. c < er_seq e) (stream F rows)" and ?l = "pull_limit limit"
  let ?b = "take ?l ?xs"
  define c1 where "c1 = (if ?b = [] then c else er_seq (last ?b))"
  note srt = stream_sorted [OF assms(1), of F]
  note sx = sorted_wrt_filter [OF srt, of "\<lambda>e. c < er_seq e"]
  have pos: "0 < ?l" by (simp add: pull_limit_def Let_def)
  have xs: "set ?xs = {e \<in> set rows. c < er_seq e \<and> pull_condition F e}" by (auto simp: stream_def)
  have P: "PullEvents cursor limit F rows = Some (?b, encodePullCursor c1, ?l < length ?xs)"
    using PullEvents_page [OF assms(2), of limit F rows] by (simp add: event_scan.page_eq Let_def c1_def)
  have mem: "?b = [] \<and> c1 = c \<or> (\<exists>d \<in> set ?b. er_seq d = c1)" using last_in_set [of ?b] by (cases "?b = []") (auto simp: c1_def)
  have rest: "filter (\<lambda>e. c1 < er_seq e) (stream F rows) = drop ?l ?xs"
  proof (cases "?b = []")
    case True
    then show ?thesis using pos by (auto simp: c1_def)
  next
    case False
    then obtain ys x where yx: "?b = ys @ [x]" by (metis rev_exhaust)
    then have "?xs = ys @ x # drop ?l ?xs" by (metis append.assoc append_Cons append_Nil append_take_drop_id)
    from event_scan.filter_behind_last [OF srt this] show ?thesis using yx by (simp add: c1_def)
  qed
  have le: "er_seq e \<le> c1" if e: "e \<in> set ?b" for e
  proof -
    obtain ys x where yx: "?b = ys @ [x]" using e by (metis empty_iff empty_set rev_exhaust)
    then have "sorted_wrt (\<lambda>r s. er_seq r < er_seq s) (ys @ [x])" using sorted_wrt_take [OF sx, of ?l] by simp
    with e yx show ?thesis by (auto simp: c1_def sorted_wrt_append)
  qed
  have "set ?b = {e \<in> set ?xs. er_seq e \<le> c1}"
  proof (intro set_eqI iffI)
    fix e assume "e \<in> {e \<in> set ?xs. er_seq e \<le> c1}"
    then have "e \<in> set (?b @ drop ?l ?xs)" by (simp only: append_take_drop_id) simp
    moreover have "e \<notin> set (drop ?l ?xs)" unfolding rest [symmetric] using \<open>e \<in> {e \<in> set ?xs. er_seq e \<le> c1}\<close> by simp
    ultimately show "e \<in> set ?b" by (simp only: set_append Un_iff) blast
  qed (use le in_set_takeD in fast)
  then have S: "set ?b = {e \<in> set rows. c < er_seq e \<and> er_seq e \<le> c1 \<and> pull_condition F e}" using xs by auto
  have bounds: "0 \<le> c1 \<and> c1 < 2 ^ 63" "c \<le> c1"
    using mem decode_bounds [OF assms(2)] assms(1) S by (auto simp: sequences_ok_def list_all_iff)
  have L: "length (filter (\<lambda>e. c1 < er_seq e) (stream F rows)) < length ?xs" if "?l < length ?xs" unfolding rest using pos that by simp
  have M: "?l < length ?xs \<longleftrightarrow> filter (\<lambda>e. c1 < er_seq e) (stream F rows) \<noteq> []" unfolding rest by (simp add: not_le)
  show thesis
    by (rule that [OF P _ bounds(2) S sorted_wrt_take [OF sx] mem M L]) (use bounds decode_encode_cursor in auto)
qed

lemma pull_each_stream:
  assumes "list_all (\<lambda>(_, shown). sequences_ok shown) pulls" and "visible_in_order (map snd pulls)" and "decodePullCursor cursor = Some c" and "pulls \<noteq> []"
  shows "\<exists>events c' more. pull_each cursor F pulls = Some (events, encodePullCursor c', more) \<and>
    decodePullCursor (encodePullCursor c') = Some c' \<and> c \<le> c' \<and>
    (\<forall>e \<in> set events. (\<exists>shown \<in> snd ` set pulls. e \<in> set shown) \<and> c < er_seq e \<and> er_seq e \<le> c' \<and> pull_condition F e) \<and>
    {e \<in> set (snd (last pulls)). c < er_seq e \<and> er_seq e \<le> c' \<and> pull_condition F e} \<subseteq> set events \<and>
    sorted_wrt (\<lambda>r s. er_seq r < er_seq s) events \<and>
    (more \<longleftrightarrow> filter (\<lambda>e. c' < er_seq e) (stream F (snd (last pulls))) \<noteq> [])"
  using assms
proof (induction pulls arbitrary: cursor c)
  case (Cons p pulls)
  obtain limit shown where p: "p = (limit, shown)" by (cases p)
  have ok: "sequences_ok shown" using Cons.prems(1) p by simp
  obtain batch c1 more where P: "PullEvents cursor limit F shown = Some (batch, encodePullCursor c1, more)"
    and d1: "decodePullCursor (encodePullCursor c1) = Some c1" "c \<le> c1"
    and S: "set batch = {e \<in> set shown. c < er_seq e \<and> er_seq e \<le> c1 \<and> pull_condition F e}"
    and srt: "sorted_wrt (\<lambda>r s. er_seq r < er_seq s) batch" and mem: "batch = [] \<and> c1 = c \<or> (\<exists>d \<in> set batch. er_seq d = c1)"
    and M: "more \<longleftrightarrow> filter (\<lambda>e. c1 < er_seq e) (stream F shown) \<noteq> []"
  proof (rule pull_step [OF ok Cons.prems(3), of limit F], goal_cases)
    case (1 b d m) then show ?case by (intro that [of b d m]) assumption+
  qed
  show ?case
  proof (cases "pulls = []")
    case True
    then show ?thesis using P d1 S srt M p by (intro exI [of _ batch] exI [of _ c1] exI [of _ more]) auto
  next
    case False
    have prems: "list_all (\<lambda>(_, shown). sequences_ok shown) pulls" "visible_in_order (map snd pulls)"
      using Cons.prems(1,2) by (simp_all add: visible_in_order_def)
    from Cons.IH [OF prems d1(1) False] obtain es c' more' where E: "pull_each (encodePullCursor c1) F pulls = Some (es, encodePullCursor c', more')"
      and d2: "decodePullCursor (encodePullCursor c') = Some c'" "c1 \<le> c'"
      and in_es: "\<forall>e \<in> set es. (\<exists>shown \<in> snd ` set pulls. e \<in> set shown) \<and> c1 < er_seq e \<and> er_seq e \<le> c' \<and> pull_condition F e"
      and sub: "{e \<in> set (snd (last pulls)). c1 < er_seq e \<and> er_seq e \<le> c' \<and> pull_condition F e} \<subseteq> set es"
      and srt2: "sorted_wrt (\<lambda>r s. er_seq r < er_seq s) es"
      and M2: "more' \<longleftrightarrow> filter (\<lambda>e. c' < er_seq e) (stream F (snd (last pulls))) \<noteq> []" by blast
    have early: "e \<in> set batch" if e: "e \<in> set (snd (last pulls))" "c < er_seq e" "er_seq e \<le> c1" "pull_condition F e" for e
    proof -
      obtain d where d: "d \<in> set shown" "er_seq d = c1" using mem e(2,3) S by auto
      have "e \<in> set shown \<or> list_all (\<lambda>d. er_seq d < er_seq e) shown"
        using Cons.prems(2) p False e(1) by (fastforce simp: visible_in_order_def list_all_iff)
      with d e S show ?thesis by (auto simp: list_all_iff)
    qed
    have "sorted_wrt (\<lambda>r s. er_seq r < er_seq s) (batch @ es)" using srt srt2 S in_es by (fastforce simp: sorted_wrt_append)
    moreover have "{e \<in> set (snd (last (p # pulls))). c < er_seq e \<and> er_seq e \<le> c' \<and> pull_condition F e} \<subseteq> set (batch @ es)"
    proof
      fix e assume e: "e \<in> {e \<in> set (snd (last (p # pulls))). c < er_seq e \<and> er_seq e \<le> c' \<and> pull_condition F e}"
      then show "e \<in> set (batch @ es)" using early [of e] sub False by (cases "er_seq e \<le> c1") auto
    qed
    moreover have "\<forall>e \<in> set (batch @ es). (\<exists>shown \<in> snd ` set (p # pulls). e \<in> set shown) \<and> c < er_seq e \<and> er_seq e \<le> c' \<and> pull_condition F e"
      using S in_es d1(2) d2(2) p by fastforce
    moreover have "pull_each cursor F (p # pulls) = Some (batch @ es, encodePullCursor c', more')" using p P E False by simp
    ultimately show ?thesis using d1(2) d2 M2 False by (intro exI [of _ "batch @ es"] exI [of _ c'] exI [of _ more']) simp
  qed
qed simp

lemma pull_each_append:
  assumes "pull_each cursor F xs = Some (events, nxt, hasMore)" and "ys \<noteq> []"
  shows "pull_each cursor F (xs @ ys) = map_option (\<lambda>(es, rest). (events @ es, rest)) (pull_each nxt F ys)"
  using assms(1)
proof (induction xs arbitrary: cursor events nxt hasMore)
  case Nil then show ?case by (cases "pull_each nxt F ys") auto
next
  case (Cons p xs)
  obtain limit shown where p: "p = (limit, shown)" by (cases p)
  obtain e1 n1 m1 where P: "PullEvents cursor limit F shown = Some (e1, n1, m1)" using Cons.prems p by (auto split: option.splits)
  show ?case
  proof (cases "xs = []")
    case True
    then show ?thesis using Cons.prems p P assms(2) by simp
  next
    case False
    then obtain e2 where e2: "pull_each n1 F xs = Some (e2, nxt, hasMore)" "events = e1 @ e2" using Cons.prems p P by auto
    show ?thesis using Cons.IH [OF e2(1)] p P e2(2) assms(2) by (cases "pull_each nxt F ys") auto
  qed
qed

lemma quiet_log_drained:
  assumes "sequences_ok rows" and "decodePullCursor cursor = Some c"
    and "list_all (\<lambda>(_, shown). shown = rows) pulls" and "length (filter (\<lambda>e. c < er_seq e) (stream F rows)) < length pulls"
  shows "\<exists>events nxt. pull_each cursor F pulls = Some (events, nxt, False)"
  using assms(2-)
proof (induction pulls arbitrary: cursor c)
  case (Cons p pulls)
  obtain limit where p: "p = (limit, rows)" using Cons.prems(2) by (cases p) simp
  obtain batch c1 more where P: "PullEvents cursor limit F rows = Some (batch, encodePullCursor c1, more)"
    and d1: "decodePullCursor (encodePullCursor c1) = Some c1" and M: "more \<longleftrightarrow> filter (\<lambda>e. c1 < er_seq e) (stream F rows) \<noteq> []"
    and L: "more \<Longrightarrow> length (filter (\<lambda>e. c1 < er_seq e) (stream F rows)) < length (filter (\<lambda>e. c < er_seq e) (stream F rows))"
  proof (rule pull_step [OF assms(1) Cons.prems(1), of limit F], goal_cases)
    case (1 b d m) then show ?case by (intro that [of b d m]) blast+
  qed
  show ?case
  proof (cases "pulls = []")
    case True
    then have "\<not> more" using L Cons.prems(3) by auto
    then show ?thesis using True p P by simp
  next
    case False
    have "length (filter (\<lambda>e. c1 < er_seq e) (stream F rows)) < length pulls" using L M Cons.prems(3) False by (cases more) auto
    with Cons.IH [OF d1] Cons.prems(2) False p P show ?thesis by fastforce
  qed
qed simp

section \<open>Emission is idempotent\<close>

definition emit_request :: "emit_env \<times> reactor_view \<times> EmitEventRequest \<Rightarrow> string \<times> string" where
  "emit_request r = (case r of (E, V, req) \<Rightarrow> (TrimSpace (em_type req), TrimSpace (em_key req)))"

definition claim_emit :: "emit_env \<times> reactor_view \<times> EmitEventRequest \<Rightarrow> event_db \<Rightarrow> bool \<times> event_db" where
  "claim_emit r db =
     (case r of (E, V, req) \<Rightarrow>
        (case EmitEventWithOutcome E V req db of
           Inl e \<Rightarrow> (False, db)
         | Inr (outcome, db') \<Rightarrow> (\<not> eo_deduped outcome \<and> TrimSpace (em_key req) \<noteq> [], db')))"

definition emitted :: "event_db \<Rightarrow> string \<times> string \<Rightarrow> bool" where
  "emitted db k \<longleftrightarrow> snd k \<noteq> [] \<and> list_ex (same_key (fst k) (Some (snd k))) (edb_log db)"

lemma Emit_cases:
  assumes "EmitEventWithOutcome E V req db = Inr (outcome, db')"
  obtains (deduped) existing where "eo_deduped outcome" "eo_event outcome = er_id existing" "eo_reactions outcome = 0" "db' = db"
      "find (same_key (TrimSpace (em_type req)) (non_empty (TrimSpace (em_key req)))) (edb_log db) = Some existing"
  | (inserted) row rows n where "\<not> eo_deduped outcome" "row = event_of_request E (NormalizeEmit req)"
      "eo_event outcome = er_id row" "eo_reactions outcome = n"
      "find (same_key (TrimSpace (em_type req)) (non_empty (TrimSpace (em_key req)))) (edb_log db) = None"
      "MaterializeReactions E V (er_id row) (er_type row) (edb_reactions db) = Inr (rows, n)"
      "db' = db\<lparr>edb_log := edb_log db @ [row], edb_reactions := rows\<rparr>"
      "er_type row = TrimSpace (em_type req)" "er_key row = non_empty (TrimSpace (em_key req))"
proof -
  have k: "er_type (event_of_request E (NormalizeEmit req)) = TrimSpace (em_type req)"
    "er_key (event_of_request E (NormalizeEmit req)) = non_empty (TrimSpace (em_key req))"
    by (simp_all add: event_of_request_def NormalizeEmit_def)
  show thesis
  proof (cases "find (same_key (TrimSpace (em_type req)) (non_empty (TrimSpace (em_key req)))) (edb_log db)")
    case (Some existing)
    with assms k show thesis
      by (intro deduped [of existing]) (auto simp: EmitEventWithOutcome_def Let_def split: option.splits)
  next
    case None
    with assms k obtain rows n where
      "MaterializeReactions E V (er_id (event_of_request E (NormalizeEmit req))) (TrimSpace (em_type req)) (edb_reactions db) = Inr (rows, n)"
      by (auto simp: EmitEventWithOutcome_def Let_def split: option.splits sum.splits)
    with None assms k show thesis
      by (intro inserted [of _ n rows]) (auto simp: EmitEventWithOutcome_def Let_def split: option.splits)
  qed
qed

lemma find_same_key_None:
  "find (same_key t (non_empty k)) es = None \<longleftrightarrow> k = [] \<or> \<not> list_ex (same_key t (Some k)) es"
  by (induction es) (auto simp: same_key_def non_empty_def)

lemma claim_emit_log: "claim_emit r db = (won, db') \<Longrightarrow> \<exists>new. edb_log db' = edb_log db @ new"
proof -
  assume c: "claim_emit r db = (won, db')"
  obtain E V req where r: "r = (E, V, req)" by (cases r)
  show ?thesis
  proof (cases "EmitEventWithOutcome E V req db")
    case (Inl e)
    with c r show ?thesis by (auto simp: claim_emit_def)
  next
    case (Inr p)
    obtain outcome d where p: "p = (outcome, d)" by (cases p)
    with Inr c r have d: "d = db'" by (simp add: claim_emit_def)
    from Inr [unfolded p d] show ?thesis by (cases rule: Emit_cases) auto
  qed
qed

interpretation emit_ledger: once_ledger claim_emit emit_request emitted
proof
  fix r d d' won k
  {
    assume c: "claim_emit r d = (True, d')"
    obtain E V req where r: "r = (E, V, req)" by (cases r)
    from c r obtain outcome where o: "EmitEventWithOutcome E V req d = Inr (outcome, d')" "\<not> eo_deduped outcome" "TrimSpace (em_key req) \<noteq> []"
      by (auto simp: claim_emit_def split: sum.splits prod.splits)
    from o(1) show "\<not> emitted d (emit_request r) \<and> emitted d' (emit_request r)"
    proof (cases rule: Emit_cases)
      case (inserted row rows n)
      with o(3) r show ?thesis
        by (auto simp: emitted_def emit_request_def find_same_key_None same_key_def) (simp_all add: non_empty_def)
    qed (use o(2) in simp)
  next
    assume "claim_emit r d = (won, d')" "emitted d k"
    then show "emitted d' k" by (auto dest!: claim_emit_log simp: emitted_def)
  }
qed

lemma history_log: "emit_ledger.history rs db = (ws, db') \<Longrightarrow> \<exists>new. edb_log db' = edb_log db @ new"
proof (induction rs arbitrary: db ws db')
  case (Cons r rs)
  obtain won d1 where c: "claim_emit r db = (won, d1)" by (cases "claim_emit r db")
  obtain vs d2 where h: "emit_ledger.history rs d1 = (vs, d2)" by (cases "emit_ledger.history rs d1")
  have "db' = d2" using Cons.prems c h by (simp split: if_splits)
  with claim_emit_log [OF c] Cons.IH [OF h] show ?case by auto
qed simp

text \<open>The unique index on the type and the idempotency key.\<close>

definition keys_unique :: "event_db \<Rightarrow> bool" where
  "keys_unique db \<longleftrightarrow> (\<forall>e\<in>set (edb_log db). \<forall>f\<in>set (edb_log db). same_key (er_type e) (er_key e) f \<longrightarrow> f = e)"

lemma Emit_keys_unique:
  assumes "EmitEventWithOutcome E V req db = Inr (outcome, db')" and "keys_unique db"
  shows "keys_unique db'"
  using assms(1)
proof (cases rule: Emit_cases)
  case (inserted row rows n)
  have "\<not> same_key (er_type row) (er_key row) e" if "e \<in> set (edb_log db)" for e
    using inserted(5,8,9) that by (auto simp: find_None_iff)
  moreover have "\<not> same_key (er_type e) (er_key e) row" if "e \<in> set (edb_log db)" for e
    using calculation [OF that] by (auto simp: same_key_def)
  ultimately show ?thesis using assms(2) inserted(7) by (auto simp: keys_unique_def)
qed (use assms(2) in simp)

lemma history_keys_unique:
  "keys_unique db \<Longrightarrow> emit_ledger.history rs db = (ws, db') \<Longrightarrow> keys_unique db'"
proof (induction rs arbitrary: db ws db')
  case (Cons r rs)
  obtain won d1 where c: "claim_emit r db = (won, d1)" by (cases "claim_emit r db")
  obtain vs d2 where h: "emit_ledger.history rs d1 = (vs, d2)" by (cases "emit_ledger.history rs d1")
  obtain E V req where r: "r = (E, V, req)" by (cases r)
  have "keys_unique d1"
    using c r Emit_keys_unique [OF _ Cons.prems(1)] Cons.prems(1) by (auto simp: claim_emit_def split: sum.splits)
  moreover have "db' = d2" using Cons.prems(2) c h by (simp split: if_splits)
  ultimately show ?case using Cons.IH h by blast
qed simp

section \<open>The fan-out\<close>

text \<open>Instances have one row each, types one active version each, and a type reacts to an event type once.\<close>

definition view_ok :: "reactor_view \<Rightarrow> bool" where
  "view_ok V \<longleftrightarrow> distinct (map fst (rv_instances V)) \<and> distinct (map (\<lambda>(tid, ns, name, rs). (ns, name)) (rv_types V)) \<and>
     list_all (\<lambda>(tid, ns, name, rs). distinct (map fst rs)) (rv_types V)"

lemma filter_key_short:
  assumes "distinct (map fst rs)"
  shows "length (filter (\<lambda>(e, c). e = t) rs) \<le> 1"
  using assms by (induction rs) (force simp: filter_empty_conv)+

lemma reactors_for_short:
  assumes "distinct (map (\<lambda>(tid, ns, name, rs). (ns, name)) ts)" and "list_all (\<lambda>(tid, ns, name, rs). distinct (map fst rs)) ts"
  shows "length (concat (map (reactors_for t ii) ts)) \<le> 1"
  using assms
proof (induction ts)
  case (Cons y ts)
  obtain tid ns nm rs where y: "y = (tid, ns, nm, rs)" by (cases y)
  obtain i namespace name where ii: "ii = (i, namespace, name)" by (cases ii)
  have ih: "length (concat (map (reactors_for t ii) ts)) \<le> 1" using Cons by simp
  show ?case
  proof (cases "ns = namespace \<and> nm = name")
    case True
    have "reactors_for t ii z = []" if "z \<in> set ts" for z
      using Cons.prems(1) y True ii that by (cases z) (force simp: reactors_for_def)
    then have "concat (map (reactors_for t ii) ts) = []" by simp
    moreover have "length (reactors_for t ii y) \<le> 1"
      using True y ii Cons.prems(2) filter_key_short [of rs t] by (simp add: reactors_for_def)
    ultimately show ?thesis by (simp only: list.map concat.simps append_Nil2)
  next
    case False
    then have "reactors_for t ii y = []" using y ii by (auto simp: reactors_for_def)
    with ih show ?thesis by (simp only: list.map concat.simps append_Nil)
  qed
qed simp

lemma matching_instances_distinct:
  assumes "view_ok V"
  shows "distinct (map fst (matching_reactors V t))"
proof -
  define g where "g = (\<lambda>ii. concat (map (reactors_for t ii) (rv_types V)))"
  have short: "length (g x) \<le> 1" for x using reactors_for_short [of "rv_types V" t x] assms by (simp add: view_ok_def g_def)
  have dist: "distinct (map fst (g x))" for x using short [of x] by (cases "g x") simp_all
  have own: "fst ` set (g x) \<subseteq> {fst x}" for x by (cases x) (auto simp: g_def reactors_for_def split: if_splits)
  have "distinct (map fst xs) \<Longrightarrow> distinct (map fst (concat (map g xs)))" for xs
  proof (induction xs)
    case (Cons x xs)
    have sub: "fst ` set (concat (map g xs)) \<subseteq> fst ` set xs"
    proof
      fix i assume "i \<in> fst ` set (concat (map g xs))"
      then obtain y where "y \<in> set xs" "i \<in> fst ` set (g y)" by auto
      with own [of y] show "i \<in> fst ` set xs" by blast
    qed
    have "fst x \<notin> fst ` set xs" using Cons.prems by simp
    with sub have "fst x \<notin> fst ` set (concat (map g xs))" by (rule contra_subsetD)
    then have "fst ` set (g x) \<inter> fst ` set (concat (map g xs)) = {}"
      using subset_singletonD [OF own [of x]] by (elim disjE) simp_all
    then have "set (map fst (g x)) \<inter> set (map fst (concat (map g xs))) = {}" unfolding set_map .
    moreover have "distinct (map fst (concat (map g xs)))" using Cons by simp
    ultimately show ?case using dist [of x] by (simp only: list.map concat.simps map_append distinct_append)
  qed simp
  then show ?thesis using assms by (simp add: matching_reactors_def view_ok_def g_def)
qed

lemma Materialize_ok:
  assumes "view_ok V" and "\<And>r. r \<in> set rows \<Longrightarrow> rx_event r \<noteq> event"
  shows "\<exists>new. MaterializeReactions E V event t rows = Inr (rows @ new, length new) \<and> list_all (\<lambda>r. rx_event r = event \<and> waiting r) new \<and>
    map (\<lambda>r. (rx_instance r, rx_type_manifest r, rx_capability r)) new =
      (if IsCanonLifecycleEvent t \<or> IsIntegrationMutationEvent t then matching_reactors V t else [])"
proof (cases "IsCanonLifecycleEvent t \<or> IsIntegrationMutationEvent t")
  case True
  let ?new = "new_reactions E V event t"
  have cols: "map (\<lambda>r. (rx_instance r, rx_type_manifest r, rx_capability r)) ?new = matching_reactors V t"
    by (simp add: new_reactions_def comp_def case_prod_beta)
  have ev: "rx_event r = event \<and> waiting r" if "r \<in> set ?new" for r
    using that by (auto simp: new_reactions_def waiting_def)
  have "map event_instance ?new = map (Pair event) (map fst (matching_reactors V t))"
    using ev by (simp add: event_instance_def flip: cols)
  then have "distinct (map event_instance ?new)"
    using matching_instances_distinct [OF assms(1), of t] by (simp add: distinct_map inj_on_def)
  moreover have "set (map event_instance ?new) \<inter> set (map event_instance rows) = {}"
    using ev assms(2) by (fastforce simp: event_instance_def)
  ultimately show ?thesis using True cols ev
    by (intro exI [of _ ?new]) (auto simp: MaterializeReactions_def Let_def list_all_iff)
next
  case False
  then show ?thesis by (simp add: MaterializeReactions_def)
qed

section \<open>Properties\<close>

text \<open>C14: The event stream loses and repeats nothing that becomes visible in order. A consumer pulls again and again while
  events are emitted and old ones are removed, with any limits, and passes the returned cursor back. Provided that the sequence numbers are
  distinct and not negative, and that an event never becomes visible after one with a larger number (an event whose transaction commits
  out of that order can be skipped), it has received, in the order of the sequence numbers and each once,
  only matching events of the log between the cursor it started with and the one it holds, and all of them that the log still has; when
  the last answer says that there are no more, these are all matching events behind its first cursor. It gets there: as
  many pulls as the log has rows, and one, from a log that no longer changes end with that answer.\<close>
theorem event_stream_complete:
  assumes "list_all (\<lambda>(_, shown). sequences_ok shown) pulls" and "visible_in_order (map snd pulls)"
    and "decodePullCursor cursor = Some c" and "pulls \<noteq> []"
  shows "\<exists>events c' more. pull_each cursor F pulls = Some (events, encodePullCursor c', more) \<and>
    sorted_wrt (\<lambda>r s. er_seq r < er_seq s) events \<and>
    (\<forall>e \<in> set events. (\<exists>shown \<in> snd ` set pulls. e \<in> set shown) \<and> c < er_seq e \<and> er_seq e \<le> c' \<and> pull_condition F e) \<and>
    {e \<in> set (snd (last pulls)). c < er_seq e \<and> er_seq e \<le> c' \<and> pull_condition F e} \<subseteq> set events \<and>
    (\<not> more \<longrightarrow> {e \<in> set (snd (last pulls)). c < er_seq e \<and> pull_condition F e} \<subseteq> set events) \<and>
    (\<forall>earlier quiet rows. pulls = earlier @ quiet \<and> list_all (\<lambda>(_, shown). shown = rows) quiet \<and> length rows < length quiet \<longrightarrow> \<not> more)"
proof -
  from pull_each_stream [OF assms, of F] obtain events c' more where P: "pull_each cursor F pulls = Some (events, encodePullCursor c', more)"
    and ev: "\<forall>e \<in> set events. (\<exists>shown \<in> snd ` set pulls. e \<in> set shown) \<and> c < er_seq e \<and> er_seq e \<le> c' \<and> pull_condition F e"
    and sub: "{e \<in> set (snd (last pulls)). c < er_seq e \<and> er_seq e \<le> c' \<and> pull_condition F e} \<subseteq> set events"
    and srt: "sorted_wrt (\<lambda>r s. er_seq r < er_seq s) events"
    and M: "more \<longleftrightarrow> filter (\<lambda>e. c' < er_seq e) (stream F (snd (last pulls))) \<noteq> []" by blast
  have all: "{e \<in> set (snd (last pulls)). c < er_seq e \<and> pull_condition F e} \<subseteq> set events" if "\<not> more"
  proof
    fix e assume e: "e \<in> {e \<in> set (snd (last pulls)). c < er_seq e \<and> pull_condition F e}"
    have "filter (\<lambda>e. c' < er_seq e) (stream F (snd (last pulls))) = []" using M that by blast
    then have "er_seq e \<le> c'" using e by (auto simp: stream_def filter_empty_conv not_less)
    with e sub show "e \<in> set events" by blast
  qed
  have "\<not> more" if q: "pulls = earlier @ quiet" "list_all (\<lambda>(_, shown). shown = rows) quiet" "length rows < length quiet" for earlier quiet rows
  proof -
    have ne: "quiet \<noteq> []" using q(3) by auto
    then have ok: "sequences_ok rows" using assms(1) q(1,2) by (cases quiet) auto
    have short: "length (filter (\<lambda>e. d < er_seq e) (stream F rows)) < length quiet" for d
      using q(3) le_trans [OF length_filter_le length_filter_le, of "\<lambda>e. d < er_seq e" "pull_condition F" rows]
      by (metis (no_types, lifting) le_less_trans length_filter_le length_sort stream_def)
    show ?thesis
    proof (cases "earlier = []")
      case True
      then show ?thesis using quiet_log_drained [OF ok assms(3) q(2) short] P q(1) by auto
    next
      case False
      have "list_all (\<lambda>(_, shown). sequences_ok shown) earlier" "visible_in_order (map snd earlier)"
        using assms(1,2) q(1) by (auto simp: visible_in_order_def sorted_wrt_append)
      from pull_each_stream [OF this assms(3) False, of F] obtain es c1 m where E: "pull_each cursor F earlier = Some (es, encodePullCursor c1, m)"
        "decodePullCursor (encodePullCursor c1) = Some c1" by blast
      from quiet_log_drained [OF ok E(2) q(2) short] pull_each_append [OF E(1) ne] P q(1) show ?thesis by auto
    qed
  qed
  with P ev sub srt all show ?thesis by (intro exI [of _ events] exI [of _ c'] exI [of _ more]) blast
qed

text \<open>Emission is idempotent by key. Once an event with an idempotency key has been emitted, every later request
  with the same type and key, after any number of other emissions by any callers, returns the original
  event, reports the duplicate, and changes neither the log nor the reactions.\<close>
theorem emission_idempotent:
  assumes "keys_unique db" and "EmitEventWithOutcome E V req db = Inr (outcome, db1)" and "TrimSpace (em_key req) \<noteq> []"
    and "emit_ledger.history others db1 = (won, db2)"
    and "EmitEventWithOutcome E' V' req' db2 = Inr (outcome', db3)"
    and "emit_request (E', V', req') = emit_request (E, V, req)"
  shows "eo_event outcome' = eo_event outcome \<and> eo_deduped outcome' \<and> eo_reactions outcome' = 0 \<and> db3 = db2"
proof -
  let ?t = "TrimSpace (em_type req)" and ?k = "TrimSpace (em_key req)"
  have key: "non_empty ?k = Some ?k" using assms(3) by (simp add: non_empty_def)
  have same: "TrimSpace (em_type req') = ?t" "TrimSpace (em_key req') = ?k" using assms(6) by (simp_all add: emit_request_def)
  obtain e where e: "e \<in> set (edb_log db1)" "same_key ?t (Some ?k) e" "er_id e = eo_event outcome"
    using assms(2)
  proof (cases rule: Emit_cases)
    case (deduped existing)
    then have "existing \<in> set (edb_log db) \<and> same_key ?t (Some ?k) existing" using key by (auto simp: find_Some_iff)
    then show thesis using deduped that by metis
  next
    case (inserted row rows n)
    then show thesis using that [of row] key by (simp add: same_key_def)
  qed
  have in2: "e \<in> set (edb_log db2)" using history_log [OF assms(4)] e(1) by auto
  have u2: "keys_unique db2" by (rule history_keys_unique [OF Emit_keys_unique [OF assms(2,1)] assms(4)])
  from assms(5) show ?thesis
  proof (cases rule: Emit_cases)
    case (deduped existing)
    then have "existing \<in> set (edb_log db2) \<and> same_key ?t (Some ?k) existing" using key same by (auto simp: find_Some_iff)
    then have "existing = e" using u2 in2 e(2) by (auto simp: keys_unique_def same_key_def)
    with deduped e(3) show ?thesis by simp
  next
    case (inserted row rows n)
    then show ?thesis using in2 e(2) key same by (auto simp: find_None_iff)
  qed
qed

text \<open>A committed event has fanned out completely. When every integration type reacts to an event type at most
  once, the constraint of the reaction table never refuses an emission that passes its checks: the event
  is appended, or it is a duplicate by key, and the same transaction adds exactly one waiting reaction for every active
  instance whose type reacts to the event.\<close>
theorem fan_out_exact:
  assumes "view_ok V" and "check_emit E (NormalizeEmit req) = None" and "ee_new_id E = Some event"
    and "\<And>r. r \<in> set (edb_reactions db) \<Longrightarrow> rx_event r \<noteq> event"
    and "TrimSpace (em_key req) = [] \<or> \<not> emitted db (emit_request (E, V, req))"
  shows "\<exists>row new. EmitEventWithOutcome E V req db =
      Inr (\<lparr>eo_event = event, eo_reactions = length new, eo_deduped = False\<rparr>,
           db\<lparr>edb_log := edb_log db @ [row], edb_reactions := edb_reactions db @ new\<rparr>) \<and>
    er_id row = event \<and> er_type row = TrimSpace (em_type req) \<and> list_all (\<lambda>r. rx_event r = event \<and> waiting r) new \<and>
    map (\<lambda>r. (rx_instance r, rx_type_manifest r, rx_capability r)) new =
      (if IsCanonLifecycleEvent (TrimSpace (em_type req)) \<or> IsIntegrationMutationEvent (TrimSpace (em_type req))
       then matching_reactors V (TrimSpace (em_type req)) else [])"
proof -
  let ?row = "event_of_request E (NormalizeEmit req)"
  have row: "er_id ?row = event" "er_type ?row = TrimSpace (em_type req)" "er_key ?row = non_empty (TrimSpace (em_key req))"
    using assms(3) by (simp_all add: event_of_request_def NormalizeEmit_def)
  have "find (same_key (er_type ?row) (er_key ?row)) (edb_log db) = None"
    unfolding row find_same_key_None using assms(5) by (auto simp: emitted_def emit_request_def)
  moreover from Materialize_ok [OF assms(1,4), where E = E and t = "TrimSpace (em_type req)"] obtain new where
    "MaterializeReactions E V event (TrimSpace (em_type req)) (edb_reactions db) = Inr (edb_reactions db @ new, length new)"
    "list_all (\<lambda>r. rx_event r = event \<and> waiting r) new"
    "map (\<lambda>r. (rx_instance r, rx_type_manifest r, rx_capability r)) new =
      (if IsCanonLifecycleEvent (TrimSpace (em_type req)) \<or> IsIntegrationMutationEvent (TrimSpace (em_type req))
       then matching_reactors V (TrimSpace (em_type req)) else [])" by blast
  ultimately show ?thesis using assms(2) row
    by (intro exI [of _ ?row] exI [of _ new]) (simp add: EmitEventWithOutcome_def Let_def)
qed

text \<open>A pattern with an underscore matches more than it says: the filter \<open>team_grant.*\<close> also selects the type
  \<open>team.grant.added\<close>, because only the star is translated and the underscore stays a wildcard of \<open>LIKE\<close>.\<close>
theorem underscore_pattern_overmatches:
  "like (wildcardToLike ''team_grant.*'') ''team_grant.added'' \<and> like (wildcardToLike ''team_grant.*'') ''team.grant.added''"
  by (simp add: wildcardToLike_def)

text \<open>An event that becomes visible late is skipped: when a transaction with a smaller sequence number commits
  after a consumer has read a larger one, no later pull of that consumer returns its event.\<close>
theorem late_commit_is_skipped:
  assumes "PullEvents cursor limit F rows = Some (events, nextCursor, hasMore)" and "events \<noteq> []"
    and "0 \<le> er_seq (last events)" "er_seq (last events) < 2 ^ 63" and "er_seq late \<le> er_seq (last events)"
    and "PullEvents nextCursor limit' F' (rows @ [late]) = Some (events', nextCursor', hasMore')"
  shows "late \<notin> set events'"
proof -
  have "nextCursor = encodePullCursor (er_seq (last events))"
    using assms(1,2) by (auto simp: PullEvents_def Let_def split: option.splits)
  then have "decodePullCursor nextCursor = Some (er_seq (last events))" using assms(3,4) decode_encode_cursor by simp
  with assms(6) have "set events' \<subseteq> {e. er_seq (last events) < er_seq e}"
    by (auto simp: PullEvents_def Let_def dest!: in_set_takeD split: if_splits)
  with assms(5) show ?thesis by auto
qed

section \<open>Witnesses\<close>

definition ex_event :: "int \<Rightarrow> event_row" where
  "ex_event n = \<lparr>er_id = Itoa n, er_seq = n, er_type = ''team.created'', er_schema = ''v1'', er_agg_type = ''team'', er_agg_id = ''t'',
     er_actor_type = None, er_actor_id = None, er_actor_context = None, er_emitted = n, er_payload = [], er_metadata = None,
     er_key = None\<rparr>"

definition ex_filters :: PullEventsFilters where
  "ex_filters = \<lparr>plf_types = [], plf_agg_type = [], plf_agg_id = [], plf_schemas = [], plf_emitted_after = None\<rparr>"

lemma ex_cursor_empty: "decodePullCursor [] = Some 0"
  by (simp add: decodePullCursor_def)

text \<open>One pull before the second event is emitted, then enough of them from the log with both.\<close>
theorem event_stream_complete_witness:
  "\<exists>events c'. pull_each [] ex_filters ([(1, [ex_event 1])] @ replicate 3 (1, [ex_event 1, ex_event 2])) = Some (events, encodePullCursor c', False) \<and>
     set events = {ex_event 1, ex_event 2}"
proof -
  let ?rows = "[ex_event 1, ex_event 2]"
  let ?pulls = "[(1 :: int, [ex_event 1])] @ replicate 3 (1, ?rows)"
  have ok: "list_all (\<lambda>(_, shown). sequences_ok shown) ?pulls" by (simp add: sequences_ok_def ex_event_def eval_nat_numeral)
  have ord: "visible_in_order (map snd ?pulls)" by (simp add: visible_in_order_def ex_event_def eval_nat_numeral)
  have cond: "pull_condition ex_filters (ex_event n)" for n by (simp add: ex_filters_def pull_condition_def)
  have "?pulls \<noteq> []" by simp
  from event_stream_complete [OF ok ord ex_cursor_empty this, of ex_filters]
  obtain events c' more where P: "pull_each [] ex_filters ?pulls = Some (events, encodePullCursor c', more)"
    and ev: "\<forall>e \<in> set events. (\<exists>shown \<in> snd ` set ?pulls. e \<in> set shown) \<and> 0 < er_seq e \<and> er_seq e \<le> c' \<and> pull_condition ex_filters e"
    and sub: "\<not> more \<longrightarrow> {e \<in> set (snd (last ?pulls)). 0 < er_seq e \<and> pull_condition ex_filters e} \<subseteq> set events"
    and quiet: "\<forall>earlier quiet rows. ?pulls = earlier @ quiet \<and> list_all (\<lambda>(_, shown). shown = rows) quiet \<and> length rows < length quiet \<longrightarrow> \<not> more"
    by (elim exE conjE)
  have nm: "\<not> more" 
    by (rule quiet [rule_format, of "[(1, [ex_event 1])]" "replicate 3 (1, ?rows)" ?rows]) (simp add: eval_nat_numeral)
  have "set events = {ex_event 1, ex_event 2}"
  proof
    show "set events \<subseteq> {ex_event 1, ex_event 2}" using ev by (auto simp: eval_nat_numeral)
    have seq: "er_seq (ex_event n) = n" for n by (simp add: ex_event_def)
    show "{ex_event 1, ex_event 2} \<subseteq> set events" using sub nm cond seq by (simp add: eval_nat_numeral subset_iff)
  qed
  moreover have "more = False" using nm by simp
  ultimately show ?thesis using P by blast
qed

definition ex_emit_env :: "string \<Rightarrow> emit_env" where
  "ex_emit_env i = \<lparr>ee_schema_ok = (\<lambda>_ _ _. True), ee_new_id = Some i, ee_marshal = (\<lambda>_. True), ee_seq = 1, ee_now = 0,
     ee_reaction_id = (\<lambda>n. Itoa (int n))\<rparr>"

definition ex_emit :: EmitEventRequest where
  "ex_emit = \<lparr>em_type = ''team.created'', em_schema = [], em_agg_type = ''team'', em_agg_id = ''t'', em_actor = None,
     em_payload = Some [], em_metadata = None, em_key = ''k''\<rparr>"

definition ex_view :: reactor_view where
  "ex_view = \<lparr>rv_instances = [(''i1'', ''core'', ''github'')],
     rv_types = [(''t1'', ''core'', ''github'', [(''team.created'', ''on_team_created'')])]\<rparr>"

definition ex_event_db :: event_db where
  "ex_event_db = \<lparr>edb_log = [], edb_reactions = []\<rparr>"

lemma ex_emit_fields: "TrimSpace (em_type ex_emit) = ''team.created''" "TrimSpace (em_key ex_emit) = ''k''"
  "TrimSpace ''team'' = ''team''" "TrimSpace ''t'' = ''t''"
  by (simp_all add: ex_emit_def TrimSpace_def TrimLeft_def is_space_def)

lemma ex_check: "check_emit (ex_emit_env i) (NormalizeEmit ex_emit) = None"
  using ex_emit_fields
  by (simp add: check_emit_def NormalizeEmit_def ex_emit_env_def MaxIdempotencyKeyLength_def guard_err_def) (simp add: ex_emit_def)

theorem fan_out_exact_witness:
  "\<exists>row new. EmitEventWithOutcome (ex_emit_env ''e1'') ex_view ex_emit ex_event_db =
      Inr (\<lparr>eo_event = ''e1'', eo_reactions = length new, eo_deduped = False\<rparr>,
           ex_event_db\<lparr>edb_log := edb_log ex_event_db @ [row], edb_reactions := edb_reactions ex_event_db @ new\<rparr>) \<and>
    map (\<lambda>r. (rx_instance r, rx_type_manifest r, rx_capability r)) new = [(''i1'', ''t1'', ''on_team_created'')]"
proof -
  have "view_ok ex_view" by (simp add: view_ok_def ex_view_def)
  moreover have "IsCanonLifecycleEvent (TrimSpace (em_type ex_emit))"
    unfolding ex_emit_fields by (simp add: IsCanonLifecycleEvent_def CanonLifecycleEventTypes_def)
  moreover have "matching_reactors ex_view (TrimSpace (em_type ex_emit)) = [(''i1'', ''t1'', ''on_team_created'')]"
    unfolding ex_emit_fields by (simp add: matching_reactors_def reactors_for_def ex_view_def)
  moreover have "ee_new_id (ex_emit_env ''e1'') = Some ''e1''" "edb_reactions ex_event_db = []"
    "\<not> emitted ex_event_db (emit_request (ex_emit_env ''e1'', ex_view, ex_emit))"
    by (simp_all add: ex_emit_env_def ex_event_db_def emitted_def)
  ultimately show ?thesis
    using fan_out_exact [of ex_view "ex_emit_env ''e1''" ex_emit "''e1''" ex_event_db] ex_check by fastforce
qed

theorem emission_idempotent_witness:
  "\<exists>outcome db1 outcome'. EmitEventWithOutcome (ex_emit_env ''e1'') ex_view ex_emit ex_event_db = Inr (outcome, db1) \<and>
     EmitEventWithOutcome (ex_emit_env ''e2'') ex_view ex_emit db1 = Inr (outcome', db1) \<and>
     eo_event outcome' = ''e1'' \<and> eo_deduped outcome'"
proof -
  let ?row = "event_of_request (ex_emit_env ''e1'') (NormalizeEmit ex_emit)"
  have f: "er_type ?row = ''team.created''" "er_key ?row = Some ''k''" "er_id ?row = ''e1''"
    by (simp_all add: event_of_request_def NormalizeEmit_def ex_emit_fields non_empty_def ex_emit_env_def)
  from Materialize_ok [of ex_view "[]" "''e1''" "ex_emit_env ''e1''" "''team.created''"] obtain new where
    new: "MaterializeReactions (ex_emit_env ''e1'') ex_view ''e1'' ''team.created'' [] = Inr (new, length new)"
    by (auto simp: view_ok_def ex_view_def)
  let ?o = "\<lparr>eo_event = ''e1'', eo_reactions = length new, eo_deduped = False\<rparr>"
  let ?db1 = "ex_event_db\<lparr>edb_log := [?row], edb_reactions := new\<rparr>"
  have 1: "EmitEventWithOutcome (ex_emit_env ''e1'') ex_view ex_emit ex_event_db = Inr (?o, ?db1)"
    using new by (simp add: EmitEventWithOutcome_def Let_def ex_check f ex_event_db_def)
  have "er_type (event_of_request (ex_emit_env ''e2'') (NormalizeEmit ex_emit)) = ''team.created''"
    "er_key (event_of_request (ex_emit_env ''e2'') (NormalizeEmit ex_emit)) = Some ''k''"
    by (simp_all add: event_of_request_def NormalizeEmit_def ex_emit_fields non_empty_def ex_emit_env_def)
  then have 2: "\<exists>outcome'. EmitEventWithOutcome (ex_emit_env ''e2'') ex_view ex_emit ?db1 = Inr (outcome', ?db1)"
    using f by (simp add: EmitEventWithOutcome_def Let_def ex_check same_key_def)
  then obtain outcome' where 3: "EmitEventWithOutcome (ex_emit_env ''e2'') ex_view ex_emit ?db1 = Inr (outcome', ?db1)" by blast
  have "keys_unique ex_event_db" "emit_ledger.history [] ?db1 = ([], ?db1)" by (simp_all add: keys_unique_def ex_event_db_def)
  from emission_idempotent [OF this(1) 1 _ this(2) 3] 1 3 show ?thesis by (auto simp: ex_emit_fields emit_request_def)
qed

theorem late_commit_is_skipped_witness:
  "\<exists>events nextCursor hasMore events' nextCursor' hasMore'.
     PullEvents [] 10 ex_filters [ex_event 2] = Some (events, nextCursor, hasMore) \<and>
     PullEvents nextCursor 10 ex_filters [ex_event 2, ex_event 1] = Some (events', nextCursor', hasMore') \<and> ex_event 1 \<notin> set events'"
proof -
  have p: "pull_condition ex_filters e" for e by (simp add: pull_condition_def ex_filters_def)
  have seq: "er_seq (ex_event n) = n" for n by (simp add: ex_event_def)
  have 1: "PullEvents [] 10 ex_filters [ex_event 2] = Some ([ex_event 2], encodePullCursor 2, False)"
    by (simp add: PullEvents_def ex_cursor_empty Let_def pull_limit_def p seq)
  have "decodePullCursor (encodePullCursor 2) = Some 2" by (rule decode_encode_cursor) simp_all
  then obtain events' nextCursor' hasMore' where
    2: "PullEvents (encodePullCursor 2) 10 ex_filters ([ex_event 2] @ [ex_event 1]) = Some (events', nextCursor', hasMore')"
    by (auto simp: PullEvents_def Let_def)
  have "ex_event 1 \<notin> set events'" by (rule late_commit_is_skipped [OF 1 _ _ _ _ 2]) (simp_all add: seq)
  with 1 2 show ?thesis by auto
qed

end
