(* ===== verification/Manifest_Sync.thy ===== *)
theory Manifest_Sync
  imports Manifest_Store Event_Log Integration_Type
begin

text \<open>
  The automatic synchronisation of integration types with their adapters: \<open>internal/manifestsync/merge.go\<close> and
  \<open>syncer.go\<close>, the conditional write of \<open>repository/integration_type_sync.go\<close>, and the reactor rules of
  \<open>manifest/integration_type_reactors_validate.go\<close>, with their effect on the fan-out of events. The adapter's
  description, the list of instances and the checksum are arguments; the JSON of a specification is the
  specification.
\<close>

section \<open>Reactor declarations\<close>

datatype reactor_error =
    ReactorsNotArray
  | ReactorNotObject nat
  | ReactorEventTypeNotCanon string
  | ReactorCapabilityNotInCatalog string
  | ReactorDuplicateEventType string

fun gstr :: "gval option \<Rightarrow> string" where
  "gstr (Some (GStr s)) = s"
| "gstr _ = []"

definition catalog_names :: "gmap \<Rightarrow> string list" where
  "catalog_names spec =
     (case map_of spec ''action_catalog'' of
        Some (GList entries) \<Rightarrow>
          filter (\<lambda>n. n \<noteq> []) (map (\<lambda>e. case e of GMap m \<Rightarrow> gstr (map_of m ''name'') | _ \<Rightarrow> []) entries)
      | _ \<Rightarrow> [])"

fun check_reactors :: "string list \<Rightarrow> nat \<Rightarrow> string list \<Rightarrow> gval list \<Rightarrow> reactor_error option" where
  "check_reactors names i seen [] = None"
| "check_reactors names i seen (r # rs) =
     (case r of
        GMap m \<Rightarrow>
          let eventType = gstr (map_of m ''event_type''); capability = gstr (map_of m ''capability'') in
          if eventType \<notin> set CanonLifecycleEventTypes then Some (ReactorEventTypeNotCanon eventType)
          else if capability \<notin> set names then Some (ReactorCapabilityNotInCatalog capability)
          else if eventType \<in> set seen then Some (ReactorDuplicateEventType eventType)
          else check_reactors names (Suc i) (eventType # seen) rs
      | _ \<Rightarrow> Some (ReactorNotObject i))"

definition ValidateReactors :: "gmap \<Rightarrow> reactor_error option" where
  "ValidateReactors spec =
     (case map_of spec ''reactors'' of
        None \<Rightarrow> None
      | Some GNil \<Rightarrow> None
      | Some (GList reactors) \<Rightarrow> check_reactors (catalog_names spec) 0 [] reactors
      | Some _ \<Rightarrow> Some ReactorsNotArray)"

text \<open>The two keys of the JSON form of a specification that the validator reads.\<close>

definition spec_json :: "IntegrationTypeManifestSpec \<Rightarrow> gmap" where
  "spec_json spec =
     (''action_catalog'', GList (map (\<lambda>a. GMap [(''name'', GStr (act_name a))]) (it_actions spec))) #
     (if it_reactors spec = [] then []
      else [(''reactors'', GList (map (\<lambda>r. GMap [(''event_type'', GStr (reactor_event r)), (''capability'', GStr (reactor_capability r))])
              (it_reactors spec)))])"

section \<open>Merging\<close>

record Diff =
  diff_added :: "string list"
  diff_removed :: "string list"
  diff_schema :: bool
  diff_capabilities :: bool

fun add_reactors :: "IntegrationTypeReactor list \<Rightarrow> IntegrationTypeReactor list \<Rightarrow> IntegrationTypeReactor list" where
  "add_reactors out [] = out"
| "add_reactors out (r # rs) = add_reactors (if r \<in> set out then out else out @ [r]) rs"

definition unionReactors :: "IntegrationTypeReactor list \<Rightarrow> IntegrationTypeReactor list \<Rightarrow> IntegrationTypeReactor list" where
  "unionReactors live current = add_reactors (add_reactors [] live) current"

text \<open>The order of the differences is the iteration order of a Go map; here it is the order of the catalog.\<close>

definition diffNames :: "string list \<Rightarrow> string list \<Rightarrow> string list" where
  "diffNames a b = remdups (filter (\<lambda>n. n \<notin> set b) a)"

definition computeDiff :: "IntegrationTypeManifestSpec \<Rightarrow> IntegrationTypeManifestSpec \<Rightarrow> Diff" where
  "computeDiff before after =
     \<lparr>diff_added = diffNames (map act_name (it_actions after)) (map act_name (it_actions before)),
      diff_removed = diffNames (map act_name (it_actions before)) (map act_name (it_actions after)),
      diff_schema = (it_credential_schema before \<noteq> it_credential_schema after \<or> it_instance_schema before \<noteq> it_instance_schema after),
      diff_capabilities = (it_capabilities before \<noteq> it_capabilities after)\<rparr>"

definition zero_policy :: IntegrationCredentialPolicySpec where
  "zero_policy = \<lparr>cp_source = [], cp_materialize = False\<rparr>"

definition MergeSpec ::
  "IntegrationTypeManifestSpec \<Rightarrow> IntegrationTypeManifestSpec \<Rightarrow> IntegrationTypeManifestSpec \<times> Diff" where
  "MergeSpec current live =
     (let out = live\<lparr>it_reactors := unionReactors (it_reactors live) (it_reactors current),
                      it_domain := (if it_domain current \<noteq> [] then it_domain current else it_domain live),
                      it_dashboard := (if it_dashboard current \<noteq> None then it_dashboard current else it_dashboard live),
                      it_display := (if it_display current \<noteq> None then it_display current else it_display live),
                      it_icon := (if it_icon current \<noteq> None then it_icon current else it_icon live),
                      it_policy := (if it_policy current \<noteq> zero_policy then it_policy current else it_policy live)\<rparr>
      in (out, computeDiff current out))"

section \<open>Synchronisation\<close>

datatype skip_reason = TypeNotFound | NoInstances | NoDescribableInstance | RPCFailed | InvalidDescribe | ApplyFailed

datatype sync_event =
    SyncSkipped skip_reason string "string option"
  | SyncNoOp string
  | Synced int int Diff string

datatype live_error = EmptyActionCatalog | EmptyAdapterVersion | EmptySchemaMode

definition validateLiveSpec :: "IntegrationTypeManifestSpec \<Rightarrow> live_error option" where
  "validateLiveSpec s =
     e_then (guard_err (it_actions s = []) EmptyActionCatalog)
    (e_then (guard_err (TrimSpace (ad_version (it_adapter s)) = []) EmptyAdapterVersion)
            (guard_err (TrimSpace (sch_mode (it_credential_schema s)) = []) EmptySchemaMode))"

type_synonym type_row = "IntegrationTypeManifestSpec Manifest"
type_synonym type_doc = "IntegrationTypeManifestSpec ManifestDocument"

definition CurrentIntegrationTypeForSync :: "string \<Rightarrow> type_row list \<Rightarrow> string + type_row" where
  "CurrentIntegrationTypeForSync requested rows =
     (case GetManifestByID requested rows of
        None \<Rightarrow> Inl ''manifest not found''
      | Some old \<Rightarrow>
          if mf_kind old \<noteq> ''integration_type'' then Inl ''sync target is not integration_type''
          else (case ResolveManifest (mf_kind old) (mf_ns old) (mf_name old) None True rows of
              None \<Rightarrow> Inl ''manifest not found''
            | Some m \<Rightarrow> Inr m))"

record sync_env =
  sy_instances :: "string \<Rightarrow> string + string list"
  sy_describe :: "string \<Rightarrow> type_row \<Rightarrow> string + IntegrationTypeManifestSpec"
  sy_checksum :: "type_doc \<Rightarrow> string option"
  sy_lock :: bool          \<comment> \<open>the advisory lock of the logical type is free\<close>
  sy_tx_ok :: bool
  sy_new_id :: string
  sy_now :: time
  sy_debug_no_op :: bool

text \<open>The current active row, as the transaction reads it under the lock.\<close>

definition current_type :: "type_doc \<Rightarrow> type_row list \<Rightarrow> type_row option" where
  "current_type doc rows = find (\<lambda>m. identity m = doc_identity doc \<and> mf_active m) rows"

definition ApplyIntegrationTypeSyncVersion ::
  "sync_env \<Rightarrow> type_row \<Rightarrow> type_doc \<Rightarrow> string \<Rightarrow> type_row list \<Rightarrow> string + type_row \<times> type_row list" where
  "ApplyIntegrationTypeSyncVersion E expected doc checksum rows =
     (if mf_id expected = [] \<or> mf_kind expected \<noteq> ''integration_type'' \<or> doc_kind doc \<noteq> mf_kind expected \<or>
         doc_ns doc \<noteq> mf_ns expected \<or> doc_name doc \<noteq> mf_name expected \<or> \<not> documentActive doc
      then Inl ''matching active integration type required''
      else if sy_checksum E doc \<noteq> Some checksum then Inl ''integration type sync checksum refused''
      else if \<not> sy_lock E then Inl ''integration type sync already in progress''
      else (case current_type doc rows of
          None \<Rightarrow> Inl ''manifest not found''
        | Some current \<Rightarrow>
            if \<not> sy_tx_ok E then Inl ''transaction failed''
            else if mf_checksum current = checksum \<and> mf_api current = doc_api doc \<and>
               TrimSpace (mf_description current) = TrimSpace (doc_description doc) \<and>
               map_of (mf_labels current) = map_of (doc_labels doc) \<and> mf_spec current = doc_spec doc
            then Inr (current, rows)
            else if mf_id current \<noteq> mf_id expected \<or> mf_checksum current \<noteq> mf_checksum expected
            then Inl ''integration type changed during describe; sync held''
            else Inr (CreateManifestVersionTx (sy_new_id E) (sy_now E) doc checksum rows)))"

definition sync_document :: "type_row \<Rightarrow> IntegrationTypeManifestSpec \<Rightarrow> type_doc" where
  "sync_document typeManifest newSpec =
     \<lparr>doc_api = ''yggdrasil.io/v1'', doc_kind = ''integration_type'', doc_ns = mf_ns typeManifest, doc_name = mf_name typeManifest,
      doc_description = mf_description typeManifest, doc_labels = mf_labels typeManifest, doc_active = Some True, doc_spec = newSpec\<rparr>"

definition ApplyManifestVersion :: "sync_env \<Rightarrow> type_row \<Rightarrow> type_doc \<Rightarrow> type_row list \<Rightarrow> string + type_row \<times> type_row list" where
  "ApplyManifestVersion E expected doc rows =
     (case sy_checksum E doc of
        None \<Rightarrow> Inl ''compute manifest checksum''
      | Some checksum \<Rightarrow> ApplyIntegrationTypeSyncVersion E expected doc checksum rows)"

definition live_error_text :: "live_error \<Rightarrow> string" where
  "live_error_text e = (case e of
     EmptyActionCatalog \<Rightarrow> ''live spec has empty action_catalog''
   | EmptyAdapterVersion \<Rightarrow> ''live spec has empty adapter.version''
   | EmptySchemaMode \<Rightarrow> ''live spec has empty credential_schema.mode'')"

definition SyncIntegrationType :: "sync_env \<Rightarrow> string \<Rightarrow> type_row list \<Rightarrow> sync_event option \<times> type_row list" where
  "SyncIntegrationType E typeID rows =
     (case CurrentIntegrationTypeForSync typeID rows of
        Inl err \<Rightarrow> (Some (SyncSkipped TypeNotFound err None), rows)
      | Inr typeManifest \<Rightarrow>
          (case sy_instances E typeID of
             Inl err \<Rightarrow> (Some (SyncSkipped NoDescribableInstance err None), rows)
           | Inr [] \<Rightarrow> (Some (SyncSkipped NoInstances [] None), rows)
           | Inr (src # _) \<Rightarrow>
               (case sy_describe E src typeManifest of
                  Inl err \<Rightarrow> (Some (SyncSkipped RPCFailed err (Some src)), rows)
                | Inr liveSpec \<Rightarrow>
                    (case validateLiveSpec liveSpec of
                       Some err \<Rightarrow> (Some (SyncSkipped InvalidDescribe (live_error_text err) (Some src)), rows)
                     | None \<Rightarrow>
                         let (newSpec, diff) = MergeSpec (mf_spec typeManifest) liveSpec in
                         if mf_spec typeManifest = newSpec
                         then (if sy_debug_no_op E then Some (SyncNoOp src) else None, rows)
                         else (case ApplyManifestVersion E typeManifest (sync_document typeManifest newSpec) rows of
                             Inl err \<Rightarrow> (Some (SyncSkipped ApplyFailed err (Some src)), rows)
                           | Inr (applied, rows') \<Rightarrow>
                               (Some (Synced (mf_version typeManifest) (mf_version applied) diff src), rows'))))))"

section \<open>Facts on merging\<close>

lemma add_reactors_set [simp]: "set (add_reactors out rs) = set out \<union> set rs"
  by (induction rs arbitrary: out) auto

lemma add_reactors_distinct: "distinct out \<Longrightarrow> distinct (add_reactors out rs)"
  by (induction rs arbitrary: out) auto

lemma add_reactors_absorb: "set rs \<subseteq> set out \<Longrightarrow> add_reactors out rs = out"
  by (induction rs arbitrary: out) auto

lemma add_reactors_append: "add_reactors out (xs @ ys) = add_reactors (add_reactors out xs) ys"
  by (induction xs arbitrary: out) auto

lemma add_reactors_prefix: "\<exists>new. add_reactors out rs = out @ new"
  by (induction rs arbitrary: out) (auto, metis append_assoc)

lemma add_reactors_again: "distinct xs \<Longrightarrow> set out \<inter> set xs = {} \<Longrightarrow> add_reactors out xs = out @ xs"
  by (induction xs arbitrary: out) auto

lemma unionReactors_again: "unionReactors live (unionReactors live current) = unionReactors live current"
proof -
  define l where "l = add_reactors [] live"
  obtain new where u: "unionReactors live current = l @ new" using add_reactors_prefix unfolding unionReactors_def l_def by blast
  have d: "distinct (l @ new)" using add_reactors_distinct [of "[]"] add_reactors_distinct unfolding u [symmetric] unionReactors_def by simp
  have "add_reactors l (l @ new) = add_reactors (add_reactors l l) new" by (rule add_reactors_append)
  also have "\<dots> = l @ new" using d by (simp add: add_reactors_absorb add_reactors_again)
  finally show ?thesis unfolding u by (simp add: unionReactors_def l_def)
qed

lemma MergeSpec_again: "fst (MergeSpec (fst (MergeSpec current live)) live) = fst (MergeSpec current live)"
  by (simp add: MergeSpec_def Let_def unionReactors_again)

section \<open>Validated types\<close>

lemma check_reactors_None:
  "check_reactors names i seen (map (\<lambda>r. GMap [(''event_type'', GStr (reactor_event r)), (''capability'', GStr (reactor_capability r))]) rs) = None \<longleftrightarrow>
     distinct (map reactor_event rs) \<and> set (map reactor_event rs) \<inter> set seen = {} \<and>
     list_all (\<lambda>r. reactor_event r \<in> set CanonLifecycleEventTypes \<and> reactor_capability r \<in> set names) rs"
  by (induction rs arbitrary: i seen) (auto simp: Let_def)

lemma ValidateReactors_None:
  "ValidateReactors (spec_json spec) = None \<longleftrightarrow>
     distinct (map reactor_event (it_reactors spec)) \<and>
     list_all (\<lambda>r. reactor_event r \<in> set CanonLifecycleEventTypes \<and> reactor_capability r \<in> act_name ` set (it_actions spec) - {[]}) (it_reactors spec)"
proof -
  have "set (catalog_names (spec_json spec)) = act_name ` set (it_actions spec) - {[]}"
    by (auto simp: catalog_names_def spec_json_def)
  then show ?thesis by (cases "it_reactors spec = []") (simp_all add: ValidateReactors_def spec_json_def check_reactors_None)
qed

definition reactors_of :: "IntegrationTypeManifestSpec \<Rightarrow> (string \<times> string) list" where
  "reactors_of spec = map (\<lambda>r. (reactor_event r, reactor_capability r)) (it_reactors spec)"

text \<open>What the fan-out query sees of the table of integration types, beside the active instances.\<close>

definition active_type :: "type_row \<Rightarrow> bool" where
  "active_type m \<longleftrightarrow> mf_kind m = ''integration_type'' \<and> mf_active m"

definition view_of :: "(string \<times> string \<times> string) list \<Rightarrow> type_row list \<Rightarrow> reactor_view" where
  "view_of instances rows =
     \<lparr>rv_instances = instances,
      rv_types = map (\<lambda>m. (mf_id m, mf_ns m, mf_name m, reactors_of (mf_spec m))) (filter active_type rows)\<rparr>"

lemma view_of_ok:
  assumes "store_ok rows" and "distinct (map fst instances)"
    and "\<And>m. m \<in> set rows \<Longrightarrow> active_type m \<Longrightarrow> ValidateReactors (spec_json (mf_spec m)) = None"
  shows "view_ok (view_of instances rows)"
proof -
  have "distinct (map identity (filter active_type rows))"
    using assms(1) distinct_map_filter [of identity "filter mf_active rows" "\<lambda>m. mf_kind m = ''integration_type''"]
    unfolding store_ok_def active_type_def by (simp add: conj_commute filter_filter)
  moreover have "map identity (filter active_type rows) = map (\<lambda>p. (''integration_type'', p)) (map (\<lambda>m. (mf_ns m, mf_name m)) (filter active_type rows))"
    by (induction rows) (simp_all add: identity_def active_type_def)
  ultimately have "distinct (map (\<lambda>m. (mf_ns m, mf_name m)) (filter active_type rows))"
    by (metis (no_types, lifting) distinct_map)
  moreover have "distinct (map fst (reactors_of (mf_spec m)))" if "m \<in> set rows" "active_type m" for m
    using assms(3) [OF that] by (simp add: ValidateReactors_None reactors_of_def comp_def)
  ultimately show ?thesis using assms(2) by (auto simp: view_ok_def view_of_def comp_def list_all_iff)
qed

section \<open>One sync suffices\<close>

lemma find_active:
  assumes "store_ok rows" and "m \<in> set rows" "mf_active m" "identity m = i"
  shows "find (\<lambda>m. identity m = i \<and> mf_active m) rows = Some m"
proof -
  have d: "distinct (map identity (filter mf_active rows))" using assms(1) by (simp add: store_ok_def)
  obtain m' where m': "find (\<lambda>m. identity m = i \<and> mf_active m) rows = Some m'"
    using assms(2-4) by (metis (mono_tags, lifting) find_None_iff not_None_eq)
  then have "m' \<in> set (filter mf_active rows)" "identity m' = i" by (auto simp: find_Some_iff)
  then have "m' = m" using d assms(2-4) by (auto simp: distinct_map inj_on_def)
  with m' show ?thesis by simp
qed

lemma singleton_list: "set xs = {m} \<Longrightarrow> distinct xs \<Longrightarrow> xs = [m]"
  by (cases xs) (auto simp: subset_singleton_iff)

lemma ResolveManifest_member:
  assumes "ResolveManifest kind namespace name None True rows = Some m"
  shows "m \<in> set rows \<and> mf_active m \<and> identity m = (ToLower (TrimSpace kind), ToLower (TrimSpace namespace), ToLower (TrimSpace name))"
proof -
  let ?P = "\<lambda>m. identity m = (ToLower (TrimSpace kind), ToLower (TrimSpace namespace), ToLower (TrimSpace name)) \<and> mf_active m"
  define xs where "xs = sort_key (\<lambda>m. - mf_version m) (filter ?P rows)"
  have "(case xs of [] \<Rightarrow> None | m # _ \<Rightarrow> Some m) = Some m" using assms by (simp add: ResolveManifest_def Let_def xs_def)
  then have "m \<in> set xs" by (cases xs) simp_all
  then show ?thesis by (simp add: xs_def)
qed

lemma ResolveManifest_active:
  assumes "store_ok rows" and "m \<in> set rows" "mf_active m"
    and "identity m = (ToLower (TrimSpace kind), ToLower (TrimSpace namespace), ToLower (TrimSpace name))"
  shows "ResolveManifest kind namespace name None True rows = Some m"
proof -
  let ?P = "\<lambda>m. identity m = (ToLower (TrimSpace kind), ToLower (TrimSpace namespace), ToLower (TrimSpace name)) \<and> mf_active m"
  have "x = m" if x: "x \<in> set rows" "?P x" for x
  proof -
    note fx = find_active [OF assms(1) x(1) conjunct2 [OF x(2)] conjunct1 [OF x(2)]]
    show ?thesis using find_active [OF assms] unfolding fx by simp
  qed
  then have "set (filter ?P rows) = {m}" unfolding set_filter using assms(2-4) by blast
  moreover have "distinct (filter ?P rows)" using assms(1) by (simp add: store_ok_def distinct_map)
  ultimately have "filter ?P rows = [m]" by (intro singleton_list)
  then show ?thesis by (simp add: ResolveManifest_def Let_def)
qed

lemma Apply_sync_cases:
  assumes "ApplyIntegrationTypeSyncVersion E expected doc checksum rows = Inr (m, rows')"
  obtains (same) "rows' = rows" "current_type doc rows = Some m" "mf_spec m = doc_spec doc"
  | (created) current where "current_type doc rows = Some current" "mf_id current = mf_id expected" "mf_checksum current = mf_checksum expected"
      "CreateManifestVersionTx (sy_new_id E) (sy_now E) doc checksum rows = (m, rows')"
  using assms by (auto simp: ApplyIntegrationTypeSyncVersion_def split: if_splits option.splits)

lemma CurrentType_member:
  assumes "CurrentIntegrationTypeForSync typeID rows = Inr m"
  shows "m \<in> set rows \<and> mf_active m \<and> identity m = (''integration_type'', ToLower (TrimSpace (mf_ns m)), ToLower (TrimSpace (mf_name m))) \<and>
    (\<exists>old. GetManifestByID typeID rows = Some old \<and> mf_kind old = ''integration_type'' \<and>
       mf_ns m = ToLower (TrimSpace (mf_ns old)) \<and> mf_name m = ToLower (TrimSpace (mf_name old)))"
proof -
  from assms obtain old where old: "GetManifestByID typeID rows = Some old" "mf_kind old = ''integration_type''"
    "ResolveManifest (mf_kind old) (mf_ns old) (mf_name old) None True rows = Some m"
    by (auto simp: CurrentIntegrationTypeForSync_def split: option.splits if_splits)
  have k: "ToLower (TrimSpace ''integration_type'') = ''integration_type''"
    by (simp add: ToLower_def TrimSpace_def TrimLeft_def is_space_def lower_char_def)
  from ResolveManifest_member [OF old(3)] old(2) k
  have m: "m \<in> set rows" "mf_active m" "mf_kind m = ''integration_type''" "mf_ns m = ToLower (TrimSpace (mf_ns old))" "mf_name m = ToLower (TrimSpace (mf_name old))"
    by (simp_all add: identity_def)
  then show ?thesis using old(1,2) by (simp add: identity_def TrimSpace_ToLower)
qed

lemma CurrentType_created:
  assumes ok: "store_ok rows" and id: "sy_new_id E \<notin> mf_id ` set rows"
    and old: "GetManifestByID typeID rows = Some old" "mf_kind old = ''integration_type''"
    and doc: "doc_kind doc = ''integration_type''" "doc_ns doc = ToLower (TrimSpace (mf_ns old))" "doc_name doc = ToLower (TrimSpace (mf_name old))" "documentActive doc"
    and c: "CreateManifestVersionTx (sy_new_id E) (sy_now E) doc checksum rows = (m, rows')"
  shows "CurrentIntegrationTypeForSync typeID rows' = Inr m \<and> mf_spec m = doc_spec doc"
proof -
  from c have m: "m = new_manifest (sy_new_id E) (sy_now E) doc checksum (next_version (doc_identity doc) rows)"
    and rows': "rows' = deactivate (sy_now E) (doc_identity doc) rows @ [m]" by (auto simp: CreateManifestVersionTx_def Let_def)
  have ok': "store_ok rows'" using store_ok_create [OF ok id, of "sy_now E" doc checksum] c by simp
  have find: "find (\<lambda>m. mf_id m = typeID) rs = Some old \<Longrightarrow>
      \<exists>old'. find (\<lambda>m. mf_id m = typeID) (deactivate now i rs @ [m]) = Some old' \<and> identity old' = identity old" for rs now i
    by (induction rs) (auto simp: deactivate_def split: if_splits)
  from find old(1) rows' obtain old' where o: "GetManifestByID typeID rows' = Some old'" "identity old' = identity old"
    unfolding GetManifestByID_def by blast
  have k: "ToLower (TrimSpace ''integration_type'') = ''integration_type''"
    by (simp add: ToLower_def TrimSpace_def TrimLeft_def is_space_def lower_char_def)
  have "ResolveManifest (mf_kind old') (mf_ns old') (mf_name old') None True rows' = Some m"
    using o(2) old(2) doc k by (intro ResolveManifest_active [OF ok']) (simp_all add: rows' m identity_def doc_identity_def new_manifest_def)
  then show ?thesis using o old(2) m by (simp add: CurrentIntegrationTypeForSync_def identity_def new_manifest_def)
qed

section \<open>Properties\<close>

text \<open>A sync merges without losing anybody's work, and merging again changes nothing: every reactor of the adapter
  and of the operator is kept, each pair of event type and capability once; the operator's domain, dashboard,
  display, icon and credential policy win when they are set; the actions and schemas come from the adapter;
  and a second merge with the same description is the identity.\<close>
theorem merge_keeps_both_sides:
  "let m = fst (MergeSpec current live) in
     set (it_reactors m) = set (it_reactors live) \<union> set (it_reactors current) \<and> distinct (it_reactors m) \<and>
     it_domain m = (if it_domain current \<noteq> [] then it_domain current else it_domain live) \<and>
     it_policy m = (if it_policy current \<noteq> zero_policy then it_policy current else it_policy live) \<and>
     it_actions m = it_actions live \<and> it_credential_schema m = it_credential_schema live \<and>
     fst (MergeSpec m live) = m"
  by (simp add: Let_def MergeSpec_again)
    (simp add: MergeSpec_def Let_def unionReactors_def add_reactors_distinct)

text \<open>The synchronisation converges. When a sync has written a new version of an integration type, the next sync
  against the same adapter finds nothing to do: it leaves the table as it is and emits at most the debug event.\<close>
theorem sync_converges:
  assumes "store_ok rows" and "sy_new_id E \<notin> mf_id ` set rows" and "\<And>i m m'. sy_describe E i m = sy_describe E i m'"
    and "SyncIntegrationType E typeID rows = (Some (Synced from_version to_version diff src), rows')"
  shows "\<exists>event. SyncIntegrationType E typeID rows' = (event, rows') \<and> (event = None \<or> event = Some (SyncNoOp src))"
proof -
  from assms(4) obtain t where t: "CurrentIntegrationTypeForSync typeID rows = Inr t"
    by (cases "CurrentIntegrationTypeForSync typeID rows") (simp_all add: SyncIntegrationType_def)
  from assms(4) t obtain src' rest where i: "sy_instances E typeID = Inr (src' # rest)"
    by (auto simp: SyncIntegrationType_def split: sum.splits list.splits)
  from assms(4) t i obtain live where live: "sy_describe E src' t = Inr live" "validateLiveSpec live = None"
    by (auto simp: SyncIntegrationType_def split: sum.splits option.splits)
  define new where "new = fst (MergeSpec (mf_spec t) live)"
  obtain d where merge: "MergeSpec (mf_spec t) live = (new, d)" unfolding new_def by (metis prod.collapse)
  from assms(4) t i live merge obtain applied where ap: "ApplyManifestVersion E t (sync_document t new) rows = Inr (applied, rows')"
    and ne: "mf_spec t \<noteq> new" and src: "src' = src"
    by (auto simp: SyncIntegrationType_def split: if_splits sum.splits)
  then obtain checksum where ap: "ApplyIntegrationTypeSyncVersion E t (sync_document t new) checksum rows = Inr (applied, rows')"
    by (auto simp: ApplyManifestVersion_def split: option.splits)
  note tm = CurrentType_member [OF t]
  then obtain old where old: "GetManifestByID typeID rows = Some old" "mf_kind old = ''integration_type''"
    "mf_ns t = ToLower (TrimSpace (mf_ns old))" "mf_name t = ToLower (TrimSpace (mf_name old))" by blast
  have tid: "identity t = doc_identity (sync_document t new)" using tm by (simp add: identity_def doc_identity_def sync_document_def)
  have cur: "current_type (sync_document t new) rows = Some t"
    unfolding current_type_def using tm tid by (intro find_active [OF assms(1)]) simp_all
  from ap have "CurrentIntegrationTypeForSync typeID rows' = Inr applied \<and> mf_spec applied = new"
  proof (cases rule: Apply_sync_cases)
    case same
    with cur ne show ?thesis by (simp add: sync_document_def)
  next
    case (created current)
    from CurrentType_created [OF assms(1,2) old(1,2) _ _ _ _ created(4)] old(3,4) show ?thesis
      by (simp add: sync_document_def documentActive_def)
  qed
  moreover have "fst (MergeSpec new live) = new" unfolding new_def by (rule MergeSpec_again)
  then obtain d' where "MergeSpec new live = (new, d')" by (metis prod.collapse)
  moreover have "sy_describe E src' applied = Inr live" using live(1) assms(3) by metis
  ultimately show ?thesis using i live(2) src by (simp add: SyncIntegrationType_def)
qed

text \<open>Validated types never block an event. In a sound manifest table whose active integration types have passed
  the reactor rules, an emission that passes its own checks succeeds, whatever instances are registered: the
  reaction table's uniqueness is never violated.\<close>
theorem validated_types_never_block_emission:
  assumes "store_reach rows" and "distinct (map fst instances)"
    and "\<And>m. m \<in> set rows \<Longrightarrow> active_type m \<Longrightarrow> ValidateReactors (spec_json (mf_spec m)) = None"
    and "check_emit E (NormalizeEmit req) = None" and "\<And>r. r \<in> set (edb_reactions db) \<Longrightarrow> Some (rx_event r) \<noteq> ee_new_id E"
  shows "\<exists>outcome db'. EmitEventWithOutcome E (view_of instances rows) req db = Inr (outcome, db')"
proof -
  have ok: "view_ok (view_of instances rows)" by (rule view_of_ok [OF store_reach_ok [OF assms(1)] assms(2,3)])
  obtain event where ev: "ee_new_id E = Some event" using assms(4) by (auto simp: check_emit_def validate_simps)
  have "\<exists>p. MaterializeReactions E (view_of instances rows) event t (edb_reactions db) = Inr p" for t
    using Materialize_ok [OF ok, of "edb_reactions db" event E t] assms(5) ev by auto
  moreover have "er_id (event_of_request E (NormalizeEmit req)) = event" using ev by (simp add: event_of_request_def)
  ultimately show ?thesis using assms(4)
    by (auto simp: EmitEventWithOutcome_def Let_def split: option.splits sum.splits) (metis Inl_Inr_False)+
qed

text \<open>A sync can block an event type. When the adapter and the operator declare different capabilities for one event
  type, each side being valid by itself, the merged type has both reactors, fails the reactor rules, and from
  then on every emission of that event type fails as long as an active instance of the type exists.\<close>
theorem merged_reactors_block_emission:
  assumes "a \<in> set (it_reactors live)" "b \<in> set (it_reactors current)" "reactor_event a = reactor_event b" "reactor_capability a \<noteq> reactor_capability b"
    and "IsCanonLifecycleEvent (reactor_event a)" and "TrimSpace (em_type req) = reactor_event a" and "TrimSpace (em_key req) = []"
    and "check_emit E (NormalizeEmit req) = None"
  shows "ValidateReactors (spec_json (fst (MergeSpec current live))) \<noteq> None \<and>
    EmitEventWithOutcome E \<lparr>rv_instances = [(i, ns, name)], rv_types = [(t, ns, name, reactors_of (fst (MergeSpec current live)))]\<rparr> req db =
      Inl MaterializeFailed"
proof -
  let ?rs = "it_reactors (fst (MergeSpec current live))"
  let ?V = "\<lparr>rv_instances = [(i, ns, name)], rv_types = [(t, ns, name, reactors_of (fst (MergeSpec current live)))]\<rparr>"
  have ab: "a \<in> set ?rs" "b \<in> set ?rs" "a \<noteq> b" using assms(1,2,4) by (auto simp: MergeSpec_def Let_def unionReactors_def)
  then have "\<not> inj_on reactor_event (set ?rs)" using assms(3) by (auto simp: inj_on_def)
  then have dup: "\<not> distinct (map reactor_event ?rs)" by (simp add: distinct_map)
  have two: "\<not> length xs \<le> 1" if "x \<in> set xs" "y \<in> set xs" "x \<noteq> y" for xs :: "(string \<times> string \<times> string) list" and x y
    using that by (cases xs) auto
  let ?m = "matching_reactors ?V (reactor_event a)"
  have "(i, t, reactor_capability a) \<in> set ?m" "(i, t, reactor_capability b) \<in> set ?m"
    using ab assms(3) by (auto simp: matching_reactors_def reactors_for_def reactors_of_def image_iff) metis
  then have "\<not> length ?m \<le> 1" using two assms(4) by blast
  moreover have "set (map fst ?m) \<subseteq> {i}" by (auto simp: matching_reactors_def reactors_for_def)
  ultimately have "\<not> distinct (map fst ?m)"
    using card_mono [of "{i}" "set (map fst ?m)"] by (auto dest: distinct_card)
  moreover have inst: "map event_instance (new_reactions E ?V event (reactor_event a)) = map (Pair event) (map fst ?m)" for event
    by (simp add: new_reactions_def event_instance_def comp_def case_prod_beta)
      (metis (no_types, lifting) comp_def list.map_comp list.map_cong0 map_snd_enumerate)
  ultimately have "\<not> distinct (map event_instance (new_reactions E ?V event (reactor_event a)))" for event
    unfolding inst by (simp only: distinct_map) (simp add: inj_on_def)
  then have "MaterializeReactions E ?V event (reactor_event a) (edb_reactions db) = Inl MaterializeFailed" for event
    using assms(5) by (simp add: MaterializeReactions_def Let_def)
  moreover have "er_type (event_of_request E (NormalizeEmit req)) = reactor_event a" "er_key (event_of_request E (NormalizeEmit req)) = None"
    using assms(6,7) by (simp_all add: event_of_request_def NormalizeEmit_def non_empty_def)
  moreover have "find (same_key x None) es = None" for x es by (induction es) (simp_all add: same_key_def)
  ultimately have "EmitEventWithOutcome E ?V req db = Inl MaterializeFailed"
    using assms(8) by (simp add: EmitEventWithOutcome_def Let_def)
  then show ?thesis using dup by (simp add: ValidateReactors_None)
qed

section \<open>Witnesses\<close>

definition ex_reactor :: "string \<Rightarrow> IntegrationTypeReactor" where
  "ex_reactor capability = \<lparr>reactor_event = ''team.created'', reactor_capability = capability\<rparr>"

definition ex_action :: "string \<Rightarrow> IntegrationActionDefinition" where
  "ex_action n = \<lparr>act_name = n, act_description = [], act_resource_types = [], act_idempotent = True, act_category = [], act_input_schema = []\<rparr>"

definition ex_live :: IntegrationTypeManifestSpec where
  "ex_live = ex_type\<lparr>it_actions := [ex_action ''on_team_created''], it_reactors := [ex_reactor ''on_team_created'']\<rparr>"

definition ex_type_row :: type_row where
  "ex_type_row = \<lparr>mf_id = ''t1'', mf_api = ''yggdrasil.io/v1'', mf_kind = ''integration_type'', mf_ns = ''core'', mf_name = ''github'', mf_version = 1,
     mf_active = True, mf_description = [], mf_labels = [], mf_spec = ex_type, mf_checksum = ''c1'', mf_created = 0, mf_updated = 0\<rparr>"

definition ex_sync :: sync_env where
  "ex_sync = \<lparr>sy_instances = (\<lambda>_. Inr [''i1'']), sy_describe = (\<lambda>_ _. Inr ex_live), sy_checksum = (\<lambda>_. Some ''c2''), sy_lock = True,
     sy_tx_ok = True, sy_new_id = ''t2'', sy_now = 9, sy_debug_no_op = False\<rparr>"

lemma ex_names: "ToLower (TrimSpace ''integration_type'') = ''integration_type''" "ToLower (TrimSpace ''core'') = ''core''"
  "ToLower (TrimSpace ''github'') = ''github''"
  by (simp_all add: ToLower_def TrimSpace_def TrimLeft_def is_space_def lower_char_def)

lemma ex_current: "CurrentIntegrationTypeForSync ''t1'' [ex_type_row] = Inr ex_type_row"
  by (simp add: CurrentIntegrationTypeForSync_def GetManifestByID_def ResolveManifest_def Let_def ex_type_row_def identity_def ex_names)

lemma ex_live_valid: "validateLiveSpec ex_live = None"
  by (simp add: validateLiveSpec_def validate_simps ex_live_def ex_type_def ex_schema_def TrimSpace_def TrimLeft_def is_space_def)

lemma ex_merge: "fst (MergeSpec ex_type ex_live) = ex_live" "ex_type \<noteq> ex_live"
  by (simp_all add: MergeSpec_def Let_def ex_live_def ex_type_def unionReactors_def zero_policy_def)

theorem sync_converges_witness:
  "\<exists>to_version diff rows'. SyncIntegrationType ex_sync ''t1'' [ex_type_row] = (Some (Synced 1 to_version diff ''i1''), rows') \<and>
     SyncIntegrationType ex_sync ''t1'' rows' = (None, rows')"
proof -
  obtain d where merge: "MergeSpec ex_type ex_live = (ex_live, d)" using ex_merge(1) by (metis prod.collapse)
  let ?doc = "sync_document ex_type_row ex_live"
  have "current_type ?doc [ex_type_row] = Some ex_type_row"
    by (simp add: current_type_def ex_type_row_def sync_document_def identity_def doc_identity_def)
  then have "ApplyManifestVersion ex_sync ex_type_row ?doc [ex_type_row] = Inr (CreateManifestVersionTx ''t2'' 9 ?doc ''c2'' [ex_type_row])"
    by (simp add: ApplyManifestVersion_def ApplyIntegrationTypeSyncVersion_def ex_sync_def)
      (simp add: ex_type_row_def sync_document_def documentActive_def)
  moreover obtain applied rows' where c: "CreateManifestVersionTx ''t2'' 9 ?doc ''c2'' [ex_type_row] = (applied, rows')"
    by (cases "CreateManifestVersionTx ''t2'' 9 ?doc ''c2'' [ex_type_row]")
  moreover have "sy_instances ex_sync ''t1'' = Inr [''i1'']" "sy_describe ex_sync ''i1'' ex_type_row = Inr ex_live"
    "mf_spec ex_type_row = ex_type" "mf_version ex_type_row = 1" by (simp_all add: ex_sync_def ex_type_row_def)
  ultimately have 1: "SyncIntegrationType ex_sync ''t1'' [ex_type_row] = (Some (Synced 1 (mf_version applied) d ''i1''), rows')"
    using ex_current ex_live_valid merge ex_merge(2) by (simp add: SyncIntegrationType_def)
  have "store_ok [ex_type_row]" "sy_new_id ex_sync \<notin> mf_id ` set [ex_type_row]" by (simp_all add: store_ok_def ex_sync_def ex_type_row_def)
  from sync_converges [OF this _ 1] obtain event where "SyncIntegrationType ex_sync ''t1'' rows' = (event, rows')"
    "event = None \<or> event = Some (SyncNoOp ''i1'')" by (auto simp: ex_sync_def)
  moreover have "fst (SyncIntegrationType ex_sync ''t1'' rows') \<noteq> Some (SyncNoOp ''i1'')"
    by (auto simp: SyncIntegrationType_def ex_sync_def Let_def split: sum.splits list.splits option.splits prod.splits)
  ultimately show ?thesis using 1 by auto
qed

lemma ex_plain_emit:
  assumes "i = ''e9''"
  shows "check_emit (ex_emit_env i) (NormalizeEmit (ex_emit\<lparr>em_key := []\<rparr>)) = None" "TrimSpace (em_type (ex_emit\<lparr>em_key := []\<rparr>)) = ''team.created''"
  using ex_emit_fields
  by (simp_all add: check_emit_def NormalizeEmit_def ex_emit_env_def MaxIdempotencyKeyLength_def guard_err_def) (simp add: ex_emit_def)

definition ex_type_rows :: "type_row list" where
  "ex_type_rows = snd (CreateManifestVersionTx ''t1'' 0 (sync_document ex_type_row ex_live) ''c1'' [])"

theorem validated_types_never_block_emission_witness:
  "\<exists>outcome db'. EmitEventWithOutcome (ex_emit_env ''e9'') (view_of [(''i1'', ''core'', ''github'')] ex_type_rows) (ex_emit\<lparr>em_key := []\<rparr>) ex_event_db =
     Inr (outcome, db')"
proof -
  have "store_reach ex_type_rows"
    unfolding ex_type_rows_def by (rule reach_create [OF reach_empty _ prod.collapse [symmetric]]) simp
  moreover have "ValidateReactors (spec_json ex_live) = None"
    by (simp add: ValidateReactors_None ex_live_def ex_reactor_def ex_action_def CanonLifecycleEventTypes_def)
  then have "ValidateReactors (spec_json (mf_spec m)) = None" if "m \<in> set ex_type_rows" for m
    using that by (simp add: ex_type_rows_def CreateManifestVersionTx_def Let_def deactivate_def new_manifest_def sync_document_def)
  ultimately show ?thesis
    by (intro validated_types_never_block_emission) (simp_all add: ex_plain_emit ex_event_db_def)
qed

theorem merged_reactors_block_emission_witness:
  "ValidateReactors (spec_json ex_live) = None \<and>
   EmitEventWithOutcome (ex_emit_env ''e9'')
     \<lparr>rv_instances = [(''i1'', ''core'', ''github'')],
      rv_types = [(''t1'', ''core'', ''github'', reactors_of (fst (MergeSpec (ex_type\<lparr>it_reactors := [ex_reactor ''notify'']\<rparr>) ex_live)))]\<rparr>
     (ex_emit\<lparr>em_key := []\<rparr>) ex_event_db = Inl MaterializeFailed"
proof -
  have "IsCanonLifecycleEvent ''team.created''" by (simp add: IsCanonLifecycleEvent_def CanonLifecycleEventTypes_def)
  then show ?thesis
    using merged_reactors_block_emission [of "ex_reactor ''on_team_created''" ex_live "ex_reactor ''notify''"
        "ex_type\<lparr>it_reactors := [ex_reactor ''notify'']\<rparr>" "ex_emit\<lparr>em_key := []\<rparr>" "ex_emit_env ''e9''"] ex_plain_emit
    by (simp add: ex_live_def ex_reactor_def ValidateReactors_None ex_action_def CanonLifecycleEventTypes_def)
qed

end
