(* ===== verification/Workflow_Triggers.thy ===== *)
theory Workflow_Triggers
  imports Event_Log Dispatch_Lock Workflow_Engine Go_Path
begin

text \<open>
  The loop that starts workflows on events, \<open>addons/workflow_event_triggers.go\<close>, with the cursor and the
  deduplication query of \<open>repository/workflow_trigger.go\<close>, on the event log of \<open>Event_Log\<close>. What a pass reads
  from the outside is the record \<open>match_io\<close>; the advisory lock makes a pass run alone, and only one pass of the
  fleet advances the cursor.
\<close>

section \<open>Matching\<close>

record eventTriggerWorkflow =
  etw_manifest :: string
  etw_ns :: string
  etw_name :: string
  etw_trigger :: WorkflowEventTriggerSpec

fun lookup_parts :: "gval \<Rightarrow> string list \<Rightarrow> gval" where
  "lookup_parts current [] = current"
| "lookup_parts current (part # parts) =
     (case current of
        GMap m \<Rightarrow> lookup_parts (case map_of m part of None \<Rightarrow> GNil | Some v \<Rightarrow> v) parts
      | _ \<Rightarrow> GNil)"

definition dottedPathLookup :: "gmap \<Rightarrow> string \<Rightarrow> gval" where
  "dottedPathLookup obj path = lookup_parts (GMap obj) (Split CHR ''.'' path)"

definition sliceContainsValue :: "golib \<Rightarrow> gval \<Rightarrow> gval \<Rightarrow> bool" where
  "sliceContainsValue L items item =
     (case items of GList xs \<Rightarrow> list_ex (\<lambda>i. Sprint L i = Sprint L item) xs | _ \<Rightarrow> False)"

definition applyPayloadFilter :: "golib \<Rightarrow> gmap \<Rightarrow> WorkflowEventPayloadFilter \<Rightarrow> bool" where
  "applyPayloadFilter L payload filt =
     (let value = dottedPathLookup payload (pf_path filt); op = ToLower (TrimSpace (pf_operator filt)) in
      if op = ''eq'' then Sprint L value = Sprint L (pf_value filt)
      else if op = ''neq'' then Sprint L value \<noteq> Sprint L (pf_value filt)
      else if op = ''in'' then sliceContainsValue L (pf_value filt) value
      else if op = ''not_in'' then \<not> sliceContainsValue L (pf_value filt) value
      else if op = ''contains'' then Contains (Sprint L value) (Sprint L (pf_value filt))
      else if op = ''matches'' then
        (case pf_value filt of GStr pattern \<Rightarrow> RegexpMatch L pattern (Sprint L value) = Some True | _ \<Rightarrow> False)
      else False)"

definition eventMatchesTrigger :: "golib \<Rightarrow> event_row \<Rightarrow> eventTriggerWorkflow \<Rightarrow> bool" where
  "eventMatchesTrigger L event trigger \<longleftrightarrow>
     list_ex (\<lambda>pattern. Match pattern (er_type event) = Some True) (ev_types (etw_trigger trigger)) \<and>
     (case ev_aggregate (etw_trigger trigger) of
        None \<Rightarrow> True
      | Some f \<Rightarrow>
          (agg_type f = [] \<or> er_agg_type event = agg_type f) \<and>
          (agg_pattern f = [] \<or> Match (agg_pattern f) (er_agg_id event) = Some True)) \<and>
     list_all (applyPayloadFilter L (er_payload event)) (ev_filters (etw_trigger trigger))"

section \<open>A match\<close>

record trig_db =
  tdb_events :: event_db
  tdb_cursor :: string
  tdb_runs :: "(string \<times> string \<times> RunWorkflowRequest) list"  \<comment> \<open>started runs by manifest and event\<close>

record match_io =
  mi_decode :: "string \<Rightarrow> (config \<times> bool) option"
  mi_env :: "string option"
  mi_requires_owner :: "string \<Rightarrow> string + bool"
  mi_dedup_ok :: bool
  mi_emit :: emit_env
  mi_view :: reactor_view
  mi_tx_ok :: bool
  mi_broker :: bool
  mi_prepare :: "RunWorkflowRequest \<Rightarrow> string + RunWorkflowRequest"

datatype match_error = MatchLocked | ProtectedCapacity | DedupCheckFailed | EmitMatchedFailed | PrepareRunFailed

definition HasWorkflowEventMatched :: "string \<Rightarrow> string \<Rightarrow> event_row list \<Rightarrow> bool" where
  "HasWorkflowEventMatched manifest sourceEvent rows =
     list_ex (\<lambda>e. er_type e = ''workflow.event.matched'' \<and> er_agg_id e = manifest \<and>
                  map_of (er_payload e) ''matched_event_id'' = Some (GStr sourceEvent)) rows"

definition matched_request :: "eventTriggerWorkflow \<Rightarrow> event_row \<Rightarrow> EmitEventRequest" where
  "matched_request trigger event =
     \<lparr>em_type = ''workflow.event.matched'', em_schema = ''v1'', em_agg_type = ''workflow'', em_agg_id = etw_manifest trigger,
      em_actor = Some \<lparr>actor_type = ''system'', actor_id = ''workflow_event_triggers'', actor_context = None\<rparr>,
      em_payload = Some ([(''workflow_manifest_id'', GStr (etw_manifest trigger)),
                          (''matched_event_id'', GStr (er_id event)),
                          (''matched_event_type'', GStr (er_type event)),
                          (''matched_aggregate_id'', GStr (er_agg_id event))] @
                         (if ev_inputs (etw_trigger trigger) \<noteq> [] then [(''default_inputs'', GMap (ev_inputs (etw_trigger trigger)))] else [])),
      em_metadata = None, em_key = []\<rparr>"

definition emitWorkflowEventMatched :: "match_io \<Rightarrow> eventTriggerWorkflow \<Rightarrow> event_row \<Rightarrow> event_db \<Rightarrow> event_db option" where
  "emitWorkflowEventMatched io trigger event db =
     (if \<not> mi_tx_ok io then None
      else (case EmitEvent (mi_emit io) (mi_view io) (matched_request trigger event) db of
          Inl e \<Rightarrow> None
        | Inr (i, db') \<Rightarrow> Some db'))"

definition buildEventTriggerRunRequest :: "eventTriggerWorkflow \<Rightarrow> event_row \<Rightarrow> RunWorkflowRequest" where
  "buildEventTriggerRunRequest trigger event =
     \<lparr>rq_workflow = \<lparr>sel_manifest_id = [], sel_namespace = etw_ns trigger, sel_name = etw_name trigger, sel_version = None\<rparr>,
      rq_inputs = fold (\<lambda>(k, v). AList.update k v) (ev_inputs (etw_trigger trigger)) [(''event'', GMap (er_payload event))],
      rq_token = [],
      rq_metadata = [(''triggered_by'', GStr ''workflow_event_triggers''),
                     (''matched_event_id'', GStr (er_id event)),
                     (''matched_event_type'', GStr (er_type event))]\<rparr>"

text \<open>After the marker is committed: a live broker, a prepared run, and the asynchronous start.\<close>

definition dispatch_match :: "match_io \<Rightarrow> eventTriggerWorkflow \<Rightarrow> event_row \<Rightarrow> trig_db \<Rightarrow> match_error option \<times> trig_db" where
  "dispatch_match io trigger event db =
     (if \<not> mi_broker io then (None, db)
      else (case mi_prepare io (buildEventTriggerRunRequest trigger event) of
          Inl e \<Rightarrow> (Some PrepareRunFailed, db)
        | Inr req \<Rightarrow> (None, db\<lparr>tdb_runs := tdb_runs db @ [(etw_manifest trigger, er_id event, req)]\<rparr>)))"

definition processMatchedTrigger ::
  "match_io \<Rightarrow> eventTriggerWorkflow \<Rightarrow> event_row \<Rightarrow> trig_db \<Rightarrow> match_error option \<times> trig_db" where
  "processMatchedTrigger io trigger event db =
     (if CheckEnvironment (mi_decode io) (mi_env io) (etw_ns trigger) (etw_name trigger) \<noteq> None then (Some MatchLocked, db)
      else if mi_requires_owner io (etw_manifest trigger) \<noteq> Inr False then (Some ProtectedCapacity, db)
      else if \<not> mi_dedup_ok io then (Some DedupCheckFailed, db)
      else if HasWorkflowEventMatched (etw_manifest trigger) (er_id event) (edb_log (tdb_events db)) then (None, db)
      else (case emitWorkflowEventMatched io trigger event (tdb_events db) of
          None \<Rightarrow> (Some EmitMatchedFailed, db)
        | Some events \<Rightarrow> dispatch_match io trigger event (db\<lparr>tdb_events := events\<rparr>)))"

section \<open>A pass\<close>

definition event_triggers ::
  "(string \<times> string \<times> string \<times> WorkflowTriggerSpec) option list \<Rightarrow> eventTriggerWorkflow list" where
  "event_triggers rows =
     List.map_filter (\<lambda>row. case row of
         None \<Rightarrow> None
       | Some (m, namespace, name, trigger) \<Rightarrow>
           (case trig_event trigger of
              None \<Rightarrow> None
            | Some ev \<Rightarrow>
                if trig_enabled trigger = Some False then None
                else Some \<lparr>etw_manifest = m, etw_ns = namespace, etw_name = name, etw_trigger = ev\<rparr>)) rows"

text \<open>
  The pairs of the batch in the order of the two loops. A pair that the emergency lock refuses ends the
  pass; every other error is logged. The boolean says whether the cursor may be saved.
\<close>

fun process_pairs ::
  "golib \<Rightarrow> (nat \<Rightarrow> match_io) \<Rightarrow> nat \<Rightarrow> (event_row \<times> eventTriggerWorkflow) list \<Rightarrow> trig_db \<Rightarrow> bool \<times> trig_db" where
  "process_pairs L io n [] db = (True, db)"
| "process_pairs L io n ((event, trigger) # pairs) db =
     (if \<not> eventMatchesTrigger L event trigger then process_pairs L io (Suc n) pairs db
      else (case processMatchedTrigger (io n) trigger event db of
          (err, db') \<Rightarrow> if err = Some MatchLocked then (False, db') else process_pairs L io (Suc n) pairs db'))"

definition no_filters :: PullEventsFilters where
  "no_filters = \<lparr>plf_types = [], plf_agg_type = [], plf_agg_id = [], plf_schemas = [], plf_emitted_after = None\<rparr>"

definition runWorkflowEventTriggersPass ::
  "golib \<Rightarrow> (nat \<Rightarrow> match_io) \<Rightarrow> bool \<Rightarrow> bool \<Rightarrow> eventTriggerWorkflow list \<Rightarrow> trig_db \<Rightarrow> trig_db" where
  "runWorkflowEventTriggersPass L io leader save_ok triggers db =
     (if \<not> leader \<or> triggers = [] then db
      else (case PullEvents (tdb_cursor db) 100 no_filters (edb_log (tdb_events db)) of
          None \<Rightarrow> db
        | Some (events, nextCursor, hasMore) \<Rightarrow>
            if events = [] then db
            else (case process_pairs L io 0 (List.product events triggers) db of
                (advance, db') \<Rightarrow> if advance \<and> save_ok then db'\<lparr>tdb_cursor := nextCursor\<rparr> else db')))"

section \<open>A pair is claimed once\<close>

definition pair_of :: "match_io \<times> eventTriggerWorkflow \<times> event_row \<Rightarrow> string \<times> string" where
  "pair_of r = (case r of (io, trigger, event) \<Rightarrow> (etw_manifest trigger, er_id event))"

definition matched :: "trig_db \<Rightarrow> string \<times> string \<Rightarrow> bool" where
  "matched db k = HasWorkflowEventMatched (fst k) (snd k) (edb_log (tdb_events db))"

text \<open>
  An attempt wins when it records the match. Manifest ids are UUIDs; an id with surrounding blanks would be
  stored without them.
\<close>

definition claim_pair :: "match_io \<times> eventTriggerWorkflow \<times> event_row \<Rightarrow> trig_db \<Rightarrow> bool \<times> trig_db" where
  "claim_pair r db =
     (case r of (io, trigger, event) \<Rightarrow>
        (case processMatchedTrigger io trigger event db of
           (err, db') \<Rightarrow> (length (edb_log (tdb_events db')) \<noteq> length (edb_log (tdb_events db)) \<and> trimmed (etw_manifest trigger), db')))"

lemma TrimSpace_literals:
  "TrimSpace ''workflow.event.matched'' = ''workflow.event.matched''" "TrimSpace ''workflow'' = ''workflow''"
  by (simp_all add: TrimSpace_def TrimLeft_def is_space_def)

lemma emit_matched_log:
  assumes "emitWorkflowEventMatched io trigger event db = Some db'"
  obtains row where "edb_log db' = edb_log db @ [row]" "er_type row = ''workflow.event.matched''"
    "er_agg_id row = TrimSpace (etw_manifest trigger)" "map_of (er_payload row) ''matched_event_id'' = Some (GStr (er_id event))"
proof -
  from assms obtain outcome where
    e: "EmitEventWithOutcome (mi_emit io) (mi_view io) (matched_request trigger event) db = Inr (outcome, db')"
    by (cases "EmitEventWithOutcome (mi_emit io) (mi_view io) (matched_request trigger event) db")
      (auto simp: emitWorkflowEventMatched_def EmitEvent_def split: if_splits)
  from e show thesis
  proof (cases rule: Emit_cases)
    case (deduped existing)
    moreover have "find (same_key t None) es = None" for t es by (induction es) (simp_all add: same_key_def)
    ultimately show thesis by (simp add: matched_request_def non_empty_def)
  next
    case (inserted row rows n)
    show thesis
      by (rule that [of row]) (use inserted(2,7,8) in
        \<open>simp_all add: matched_request_def event_of_request_def NormalizeEmit_def TrimSpace_literals\<close>)
  qed
qed

lemma process_cases:
  assumes "processMatchedTrigger io trigger event db = (err, db')"
  obtains (kept) "db' = db"
  | (recorded) row where "CheckEnvironment (mi_decode io) (mi_env io) (etw_ns trigger) (etw_name trigger) = None"
      "\<not> HasWorkflowEventMatched (etw_manifest trigger) (er_id event) (edb_log (tdb_events db))"
      "edb_log (tdb_events db') = edb_log (tdb_events db) @ [row]" "er_type row = ''workflow.event.matched''"
      "er_agg_id row = TrimSpace (etw_manifest trigger)" "map_of (er_payload row) ''matched_event_id'' = Some (GStr (er_id event))"
      "tdb_cursor db' = tdb_cursor db"
      "tdb_runs db' = tdb_runs db \<or> (\<exists>req. tdb_runs db' = tdb_runs db @ [(etw_manifest trigger, er_id event, req)])"
      "err \<noteq> Some MatchLocked"
proof (cases "emitWorkflowEventMatched io trigger event (tdb_events db)")
  case None
  with assms have "db' = db" by (auto simp: processMatchedTrigger_def split: if_splits)
  then show thesis by (rule kept)
next
  case (Some events)
  from emit_matched_log [OF this] obtain row where row: "edb_log events = edb_log (tdb_events db) @ [row]" "er_type row = ''workflow.event.matched''"
    "er_agg_id row = TrimSpace (etw_manifest trigger)" "map_of (er_payload row) ''matched_event_id'' = Some (GStr (er_id event))" by blast
  show thesis
  proof (cases "db' = db")
    case True
    then show thesis by (rule kept)
  next
    case False
    with assms Some have gates: "CheckEnvironment (mi_decode io) (mi_env io) (etw_ns trigger) (etw_name trigger) = None"
      "\<not> HasWorkflowEventMatched (etw_manifest trigger) (er_id event) (edb_log (tdb_events db))"
      and rest: "dispatch_match io trigger event (db\<lparr>tdb_events := events\<rparr>) = (err, db')"
      by (simp_all add: processMatchedTrigger_def split: if_splits)
    from rest have "tdb_events db' = events \<and> tdb_cursor db' = tdb_cursor db \<and> err \<noteq> Some MatchLocked \<and>
        (tdb_runs db' = tdb_runs db \<or> (\<exists>req. tdb_runs db' = tdb_runs db @ [(etw_manifest trigger, er_id event, req)]))"
      by (auto simp: dispatch_match_def split: if_splits sum.splits)
    with gates row show thesis by (intro recorded [of row]) simp_all
  qed
qed

interpretation pair_ledger: once_ledger claim_pair pair_of matched
proof
  fix r :: "match_io \<times> eventTriggerWorkflow \<times> event_row" and d d' :: trig_db and won k
  obtain io trigger event where r: "r = (io, trigger, event)" by (cases r)
  obtain err d1 where p: "processMatchedTrigger io trigger event d = (err, d1)" by (cases "processMatchedTrigger io trigger event d")
  {
    assume c: "claim_pair r d = (True, d')"
    then have d': "d' = d1" and tr: "trimmed (etw_manifest trigger)" and ne: "length (edb_log (tdb_events d1)) \<noteq> length (edb_log (tdb_events d))"
      unfolding claim_pair_def r prod.case p by auto
    from p show "\<not> matched d (pair_of r) \<and> matched d' (pair_of r)"
    proof (cases rule: process_cases)
      case (recorded row)
      with d' r TrimSpace_id [OF tr] show ?thesis by (simp add: matched_def pair_of_def HasWorkflowEventMatched_def)
    qed (use ne in simp)
  next
    assume "claim_pair r d = (won, d')" "matched d k"
    with p r have "d' = d1" by (simp add: claim_pair_def)
    from p \<open>matched d k\<close> show "matched d' k" unfolding \<open>d' = d1\<close>
      by (cases rule: process_cases) (auto simp: matched_def HasWorkflowEventMatched_def)
  }
qed

text \<open>Every started run has its marker, and no pair has two runs.\<close>

definition runs_marked :: "trig_db \<Rightarrow> bool" where
  "runs_marked db \<longleftrightarrow> distinct (map (\<lambda>(m, e, req). (m, e)) (tdb_runs db)) \<and> list_all (\<lambda>(m, e, req). matched db (m, e)) (tdb_runs db)"

lemma process_runs_marked:
  assumes "processMatchedTrigger io trigger event db = (err, db')" and "trimmed (etw_manifest trigger)" and "runs_marked db"
  shows "runs_marked db'"
  using assms(1)
proof (cases rule: process_cases)
  case kept
  with assms(3) show ?thesis by simp
next
  case (recorded row)
  have mono: "matched db k \<Longrightarrow> matched db' k" for k using recorded(3) by (auto simp: matched_def HasWorkflowEventMatched_def)
  have new: "matched db' (etw_manifest trigger, er_id event)" "\<not> matched db (etw_manifest trigger, er_id event)"
    using recorded TrimSpace_id [OF assms(2)] by (simp_all add: matched_def HasWorkflowEventMatched_def)
  from recorded(8) mono new assms(3) show ?thesis by (force simp: runs_marked_def list_all_iff)
qed

lemma process_pairs_inv:
  assumes "\<And>db io trigger event err db'. P db \<Longrightarrow> trigger \<in> T \<Longrightarrow> processMatchedTrigger io trigger event db = (err, db') \<Longrightarrow> P db'"
  shows "P db \<Longrightarrow> snd ` set pairs \<subseteq> T \<Longrightarrow> process_pairs L io n pairs db = (adv, db') \<Longrightarrow> P db'"
proof (induction pairs arbitrary: n db)
  case (Cons p pairs)
  obtain event trigger where p: "p = (event, trigger)" by (cases p)
  obtain err d1 where q: "processMatchedTrigger (io n) trigger event db = (err, d1)" by (cases "processMatchedTrigger (io n) trigger event db")
  show ?case
  proof (cases "eventMatchesTrigger L event trigger")
    case True
    have "P d1" using assms [OF Cons.prems(1) _ q] Cons.prems(2) p by simp
    with True p q Cons.prems Cons.IH [of d1 "Suc n"] show ?thesis by (auto split: if_splits)
  next
    case False
    with p Cons show ?thesis by simp
  qed
qed simp

lemma pass_inv:
  assumes "\<And>db io trigger event err db'. P db \<Longrightarrow> trigger \<in> set triggers \<Longrightarrow> processMatchedTrigger io trigger event db = (err, db') \<Longrightarrow> P db'"
    and "\<And>db c. P db \<Longrightarrow> P (db\<lparr>tdb_cursor := c\<rparr>)" and "P db"
  shows "P (runWorkflowEventTriggersPass L io leader save_ok triggers db)"
proof -
  have "P db'" if "process_pairs L io 0 (List.product events triggers) db = (adv, db')" for events adv db'
    by (rule process_pairs_inv [where P = P and T = "set triggers", OF assms(1) assms(3) _ that]) auto
  then show ?thesis using assms(2,3)
    by (auto simp: runWorkflowEventTriggersPass_def split: option.splits prod.splits)
qed

section \<open>Properties\<close>

text \<open>C28: An event starts a workflow at most once. However many passes run over the log, by whichever leaders, with
  whatever failures, cursors and batches, no pair of a workflow and an event ever has two runs, and every
  started run has its committed marker, so a crash between the marker and the cursor repeats nothing.\<close>
theorem event_starts_workflow_once:
  assumes "runs_marked db" and "list_all (\<lambda>(L, io, leader, save_ok, triggers). list_all (\<lambda>t. trimmed (etw_manifest t)) triggers) passes"
  shows "runs_marked (fold (\<lambda>(L, io, leader, save_ok, triggers). runWorkflowEventTriggersPass L io leader save_ok triggers) passes db)"
  using assms
proof (induction passes arbitrary: db)
  case (Cons p passes)
  obtain L io leader save_ok triggers where p: "p = (L, io, leader, save_ok, triggers)" by (cases p)
  have "runs_marked (runWorkflowEventTriggersPass L io leader save_ok triggers db)"
    by (rule pass_inv [where P = runs_marked])
      (use Cons.prems p process_runs_marked in \<open>auto simp: list_all_iff runs_marked_def matched_def\<close>)
  with Cons.IH Cons.prems(2) p show ?case by simp
qed simp

text \<open>Racing attempts on one pair have one winner: in any sequence of attempts to process matches, the pairs that
  record a match are pairwise different, were unrecorded before and are recorded afterwards.\<close>
theorem match_recorded_once:
  assumes "pair_ledger.history attempts db = (won, db')"
  shows "distinct (map pair_of won) \<and> (\<forall>r\<in>set won. \<not> matched db (pair_of r) \<and> matched db' (pair_of r))"
  using pair_ledger.history_once [OF assms] by blast

text \<open>The emergency lock loses no event. When a pass meets a matching pair that the lock refuses, the cursor stays
  where it was, so the next pass pulls the same events again; nothing of the refused pair is recorded.\<close>
theorem locked_pair_holds_cursor:
  assumes "PullEvents (tdb_cursor db) 100 no_filters (edb_log (tdb_events db)) = Some (events, nextCursor, hasMore)"
    and "event \<in> set events" and "trigger \<in> set triggers" and "eventMatchesTrigger L event trigger"
    and "\<And>n. CheckEnvironment (mi_decode (io n)) (mi_env (io n)) (etw_ns trigger) (etw_name trigger) \<noteq> None"
  shows "tdb_cursor (runWorkflowEventTriggersPass L io leader save_ok triggers db) = tdb_cursor db"
proof -
  have locked: "processMatchedTrigger (io n) trigger event d = (Some MatchLocked, d)" for n d
    using assms(5) by (simp add: processMatchedTrigger_def)
  have held: "(event, trigger) \<in> set pairs \<Longrightarrow> process_pairs L io n pairs d = (adv, d') \<Longrightarrow> \<not> adv" for pairs n d adv d'
  proof (induction pairs arbitrary: n d)
    case (Cons p pairs)
    obtain e t where p: "p = (e, t)" by (cases p)
    show ?case
    proof (cases "p = (event, trigger)")
      case True
      with Cons.prems assms(4) locked show ?thesis by simp
    next
      case False
      with Cons p show ?thesis by (auto split: if_splits prod.splits)
    qed
  qed simp
  have cursor: "tdb_cursor d' = tdb_cursor db" if "process_pairs L io 0 (List.product events triggers) db = (adv, d')" for adv d'
    by (rule process_pairs_inv [where P = "\<lambda>d. tdb_cursor d = tdb_cursor db" and T = UNIV, OF _ refl _ that])
      (erule process_cases, simp_all)
  obtain adv d' where pp: "process_pairs L io 0 (List.product events triggers) db = (adv, d')"
    by (cases "process_pairs L io 0 (List.product events triggers) db")
  have "(event, trigger) \<in> set (List.product events triggers)" using assms(2,3) by simp
  from held [OF this pp] cursor [OF pp] show ?thesis
    using assms(1) by (simp add: runWorkflowEventTriggersPass_def pp)
qed

text \<open>A wildcard trigger feeds itself. When a workflow subscribes to \<open>*\<close> without filters, the marker that records
  one of its matches is again an event that matches it, with a fresh id, so its runs never come to an end.\<close>
theorem wildcard_trigger_feeds_itself:
  assumes "''*'' \<in> set (ev_types (etw_trigger trigger))" and "ev_aggregate (etw_trigger trigger) = None" and "ev_filters (etw_trigger trigger) = []"
    and "emitWorkflowEventMatched io trigger event db = Some db'"
  shows "\<exists>row. edb_log db' = edb_log db @ [row] \<and> eventMatchesTrigger L row trigger"
proof -
  from emit_matched_log [OF assms(4)] obtain row where row: "edb_log db' = edb_log db @ [row]" "er_type row = ''workflow.event.matched''" by blast
  have "Match ''*'' (er_type row) = Some True" unfolding row(2) Match_star by simp
  then have "eventMatchesTrigger L row trigger" using assms(1-3) by (auto simp: eventMatchesTrigger_def list_ex_iff)
  with row(1) show ?thesis by blast
qed

section \<open>Witnesses\<close>

definition ex_trigger :: eventTriggerWorkflow where
  "ex_trigger = \<lparr>etw_manifest = ''m'', etw_ns = ''ops'', etw_name = ''audit'',
     etw_trigger = \<lparr>ev_types = [''*''], ev_aggregate = None, ev_filters = [], ev_debounce = 0, ev_inputs = []\<rparr>\<rparr>"

definition ex_match_io :: "string option \<Rightarrow> match_io" where
  "ex_match_io env = \<lparr>mi_decode = (\<lambda>_. None), mi_env = env, mi_requires_owner = (\<lambda>_. Inr False), mi_dedup_ok = True,
     mi_emit = ex_emit_env ''e7'', mi_view = ex_view, mi_tx_ok = True, mi_broker = True, mi_prepare = Inr\<rparr>"

definition ex_trig_db :: trig_db where
  "ex_trig_db = \<lparr>tdb_events = \<lparr>edb_log = [ex_event 1], edb_reactions = []\<rparr>, tdb_cursor = [], tdb_runs = []\<rparr>"

lemma ex_matched_emit:
  "\<exists>db'. emitWorkflowEventMatched (ex_match_io env) ex_trigger (ex_event 1) (tdb_events ex_trig_db) = Some db'"
proof -
  have t: "TrimSpace ''m'' = ''m''" by (simp add: TrimSpace_def TrimLeft_def is_space_def)
  have "check_emit (ex_emit_env ''e7'') (NormalizeEmit (matched_request ex_trigger (ex_event 1))) = None"
    by (simp add: check_emit_def NormalizeEmit_def matched_request_def TrimSpace_literals ex_emit_env_def guard_err_def
        MaxIdempotencyKeyLength_def ex_trigger_def t)
  moreover have "\<not> IsCanonLifecycleEvent ''workflow.event.matched''" "\<not> IsIntegrationMutationEvent ''workflow.event.matched''"
    by (simp_all add: IsCanonLifecycleEvent_def CanonLifecycleEventTypes_def IsIntegrationMutationEvent_def IntegrationMutationVerbs_def)
  moreover have "er_type (event_of_request (ex_emit_env ''e7'') (NormalizeEmit (matched_request ex_trigger (ex_event 1)))) = ''workflow.event.matched''"
    "er_key (event_of_request (ex_emit_env ''e7'') (NormalizeEmit (matched_request ex_trigger (ex_event 1)))) = None"
    by (simp_all add: event_of_request_def NormalizeEmit_def matched_request_def TrimSpace_literals non_empty_def)
  moreover have "find (same_key x None) es = None" for x es by (induction es) (simp_all add: same_key_def)
  ultimately show ?thesis
    by (simp add: emitWorkflowEventMatched_def ex_match_io_def EmitEvent_def EmitEventWithOutcome_def Let_def MaterializeReactions_def)
qed

lemma ex_lock: "CheckEnvironment (mi_decode (ex_match_io None)) (mi_env (ex_match_io None)) ns n = None"
  "CheckEnvironment (mi_decode (ex_match_io (Some ''x''))) (mi_env (ex_match_io (Some ''x''))) ns n \<noteq> None"
  by (simp_all add: ex_match_io_def CheckEnvironment_def Parse_def Check_def Enforced_def modeOff_def modeEnforce_def
      TrimSpace_def TrimLeft_def is_space_def)

theorem wildcard_trigger_feeds_itself_witness:
  "\<exists>db' row. emitWorkflowEventMatched (ex_match_io None) ex_trigger (ex_event 1) (tdb_events ex_trig_db) = Some db' \<and>
     edb_log db' = [ex_event 1, row] \<and> eventMatchesTrigger ex_golib row ex_trigger"
proof -
  obtain db' where e: "emitWorkflowEventMatched (ex_match_io None) ex_trigger (ex_event 1) (tdb_events ex_trig_db) = Some db'"
    using ex_matched_emit by blast
  from wildcard_trigger_feeds_itself [OF _ _ _ e] e show ?thesis by (auto simp: ex_trigger_def ex_trig_db_def)
qed

lemma ex_pull: "PullEvents (tdb_cursor ex_trig_db) 100 no_filters (edb_log (tdb_events ex_trig_db)) = Some ([ex_event 1], encodePullCursor 1, False)"
  by (simp add: PullEvents_def ex_trig_db_def ex_cursor_empty Let_def pull_limit_def pull_condition_def no_filters_def)
    (simp add: ex_event_def)

lemma ex_trigger_matches: "eventMatchesTrigger L (ex_event 1) ex_trigger"
  by (simp add: eventMatchesTrigger_def ex_trigger_def ex_event_def Match_star)

theorem locked_pair_holds_cursor_witness:
  "tdb_cursor (runWorkflowEventTriggersPass ex_golib (\<lambda>_. ex_match_io (Some ''x'')) True True [ex_trigger] ex_trig_db) = []"
  using locked_pair_holds_cursor [OF ex_pull, of "ex_event 1" ex_trigger "[ex_trigger]" ex_golib "\<lambda>_. ex_match_io (Some ''x'')" True True]
    ex_trigger_matches ex_lock(2) by (simp add: ex_trig_db_def)

theorem event_starts_workflow_once_witness:
  "distinct (map (\<lambda>(m, e, req). (m, e))
     (tdb_runs (fold (\<lambda>(L, io, leader, save_ok, triggers). runWorkflowEventTriggersPass L io leader save_ok triggers)
       [(ex_golib, \<lambda>_. ex_match_io None, True, False, [ex_trigger]), (ex_golib, \<lambda>_. ex_match_io None, True, True, [ex_trigger])] ex_trig_db)))"
  using event_starts_workflow_once [of ex_trig_db
      "[(ex_golib, \<lambda>_. ex_match_io None, True, False, [ex_trigger]), (ex_golib, \<lambda>_. ex_match_io None, True, True, [ex_trigger])]"]
  by (simp add: runs_marked_def ex_trig_db_def ex_trigger_def trimmed_def is_space_def)

theorem match_recorded_once_witness:
  "distinct (map pair_of (fst (pair_ledger.history [(ex_match_io None, ex_trigger, ex_event 1), (ex_match_io None, ex_trigger, ex_event 1)] ex_trig_db)))"
  using match_recorded_once [OF prod.collapse [symmetric], of "[(ex_match_io None, ex_trigger, ex_event 1), (ex_match_io None, ex_trigger, ex_event 1)]" ex_trig_db]
  by blast

end
