(* ===== verification/Run_Rows.thy ===== *)
theory Run_Rows
  imports Go_Time Once_Ledger Workflow_Engine
begin

text \<open>
  The durable rows of asynchronous workflow runs: \<open>repository/workflow_run.go\<close>, the cleaner of stale runs in
  \<open>addons/stale_workflow_runs_cleaner.go\<close>, the columns that \<open>finishScheduledWorkflowRun\<close> of
  \<open>addons/workflow_scheduler.go\<close> derives from a finished run, and the asynchronous dispatch of
  \<open>controllers/httpapi/workflow_runs.go\<close> with the ownership it binds. The text form that the database gives a
  JSON value that is not a string (\<open>text\<close>), the preparation of the request and the SHA-256 digest are
  arguments.
\<close>

section \<open>Rows\<close>

record run_row =
  wr_id :: string
  wr_ns :: string
  wr_name :: string
  wr_version :: "int option"
  wr_status :: string
  wr_inputs :: gmap
  wr_metadata :: gmap
  wr_result :: "RunWorkflowResponse option"
  wr_error :: "string option"
  wr_started :: "time option"
  wr_finished :: "time option"
  wr_created :: time
  wr_updated :: time

datatype run_error =
    RunInsertFailed
  | RunLookupFailed
  | RunIdempotencyConflict string string string

text \<open>\<open>metadata ->> key\<close>.\<close>

definition json_text :: "(gval \<Rightarrow> string) \<Rightarrow> gmap \<Rightarrow> string \<Rightarrow> string option" where
  "json_text text m key =
     (case map_of m key of None \<Rightarrow> None | Some GNil \<Rightarrow> None | Some (GStr s) \<Rightarrow> Some s | Some v \<Rightarrow> Some (text v))"

text \<open>The key under which the partial unique index stores a row.\<close>

definition index_key :: "(gval \<Rightarrow> string) \<Rightarrow> gmap \<Rightarrow> string option" where
  "index_key text m = (case json_text text m ''idempotency_key'' of None \<Rightarrow> None | Some k \<Rightarrow> if k = [] then None else Some k)"

definition workflowRunIdempotencyKey :: "gmap \<Rightarrow> string" where
  "workflowRunIdempotencyKey metadata = TrimSpace (case map_of metadata ''idempotency_key'' of Some (GStr s) \<Rightarrow> s | _ \<Rightarrow> [])"

definition new_run :: "string \<Rightarrow> ManifestSelector \<Rightarrow> gmap \<Rightarrow> gmap \<Rightarrow> time \<Rightarrow> run_row" where
  "new_run i selector inputs metadata now =
     \<lparr>wr_id = i, wr_ns = sel_namespace selector, wr_name = sel_name selector, wr_version = sel_version selector, wr_status = ''pending'',
      wr_inputs = inputs, wr_metadata = metadata, wr_result = None, wr_error = None, wr_started = None, wr_finished = None,
      wr_created = now, wr_updated = now\<rparr>"

definition key_taken :: "(gval \<Rightarrow> string) \<Rightarrow> gmap \<Rightarrow> run_row list \<Rightarrow> bool" where
  "key_taken text metadata rows \<longleftrightarrow>
     index_key text metadata \<noteq> None \<and> list_ex (\<lambda>r. index_key text (wr_metadata r) = index_key text metadata) rows"

text \<open>A plain insert violates the primary key or the unique index; both are errors.\<close>

definition InsertWorkflowRun ::
  "(gval \<Rightarrow> string) \<Rightarrow> string \<Rightarrow> ManifestSelector \<Rightarrow> gmap \<Rightarrow> gmap \<Rightarrow> time \<Rightarrow> run_row list \<Rightarrow> run_error + run_row list" where
  "InsertWorkflowRun text i selector inputs metadata now rows =
     (if i \<in> wr_id ` set rows \<or> key_taken text metadata rows then Inl RunInsertFailed
      else Inr (rows @ [new_run i selector inputs metadata now]))"

definition InsertWorkflowRunIdempotent ::
  "(gval \<Rightarrow> string) \<Rightarrow> string \<Rightarrow> ManifestSelector \<Rightarrow> gmap \<Rightarrow> gmap \<Rightarrow> time \<Rightarrow> run_row list \<Rightarrow> run_error + string \<times> bool \<times> run_row list" where
  "InsertWorkflowRunIdempotent text i selector inputs metadata now rows =
     (let key = workflowRunIdempotencyKey metadata in
      if key = [] then map_sum id (\<lambda>rows'. (i, False, rows')) (InsertWorkflowRun text i selector inputs metadata now rows)
      else if key_taken text metadata rows then
        (case find (\<lambda>r. json_text text (wr_metadata r) ''idempotency_key'' = Some key) rows of
           None \<Rightarrow> Inl RunLookupFailed
         | Some r \<Rightarrow>
             if wr_ns r \<noteq> sel_namespace selector \<or> wr_name r \<noteq> sel_name selector
             then Inl (RunIdempotencyConflict key (wr_ns r) (wr_name r))
             else Inr (wr_id r, True, rows))
      else if i \<in> wr_id ` set rows then Inl RunInsertFailed
      else Inr (i, False, rows @ [new_run i selector inputs metadata now]))"

definition MarkWorkflowRunRunning :: "string \<Rightarrow> time \<Rightarrow> time \<Rightarrow> run_row list \<Rightarrow> run_row list" where
  "MarkWorkflowRunRunning i startedAt now rows =
     map (\<lambda>r. if wr_id r = i \<and> wr_status r = ''pending''
              then r\<lparr>wr_status := ''running'', wr_started := Some startedAt, wr_updated := now\<rparr> else r) rows"

definition FinalizeWorkflowRun ::
  "string \<Rightarrow> string \<Rightarrow> RunWorkflowResponse option \<Rightarrow> string \<Rightarrow> time \<Rightarrow> time \<Rightarrow> run_row list \<Rightarrow> run_row list" where
  "FinalizeWorkflowRun i status result errMessage finishedAt now rows =
     map (\<lambda>r. if wr_id r = i
              then r\<lparr>wr_status := status, wr_result := result, wr_error := (if errMessage = [] then None else Some errMessage),
                     wr_finished := Some finishedAt, wr_updated := now\<rparr> else r) rows"

text \<open>\<open>jobs\<close> are the runs of \<open>capacity_dispatch_jobs\<close>, which have an owner of their own.\<close>

definition cleanupStaleWorkflowRuns :: "string \<Rightarrow> int \<Rightarrow> string set \<Rightarrow> time \<Rightarrow> run_row list \<Rightarrow> run_row list" where
  "cleanupStaleWorkflowRuns errMsg timeout jobs now rows =
     (if timeout \<le> 0 then rows
      else map (\<lambda>r. if wr_status r \<in> {''pending'', ''running''} \<and> wr_id r \<notin> jobs \<and>
                       (case wr_started r of Some t \<Rightarrow> t | None \<Rightarrow> wr_created r) < now - timeout
                    then r\<lparr>wr_status := ''cancelled'', wr_finished := Some now, wr_error := Some errMsg, wr_updated := now\<rparr>
                    else r) rows)"

definition GetWorkflowRun :: "string \<Rightarrow> run_row list \<Rightarrow> run_row option" where
  "GetWorkflowRun i rows = find (\<lambda>r. wr_id r = i) rows"

definition creatorKey :: string where
  "creatorKey = ''yggdrasil.io/creator_machine_principal_id''"

definition bridgeKey :: string where
  "bridgeKey = ''yggdrasil.io/creator_legacy_workflow_bridge''"

definition owned_by :: "(gval \<Rightarrow> string) \<Rightarrow> string \<Rightarrow> run_row \<Rightarrow> bool" where
  "owned_by text principalID r \<longleftrightarrow> json_text text (wr_metadata r) creatorKey = Some (TrimSpace principalID)"

definition GetWorkflowRunForMachinePrincipal :: "(gval \<Rightarrow> string) \<Rightarrow> string \<Rightarrow> string \<Rightarrow> run_row list \<Rightarrow> run_row option" where
  "GetWorkflowRunForMachinePrincipal text i principalID rows = find (\<lambda>r. wr_id r = i \<and> owned_by text principalID r) rows"

definition WorkflowRunOwnedByMachinePrincipal :: "(gval \<Rightarrow> string) \<Rightarrow> string \<Rightarrow> string \<Rightarrow> run_row list \<Rightarrow> bool" where
  "WorkflowRunOwnedByMachinePrincipal text i principalID rows = list_ex (\<lambda>r. wr_id r = i \<and> owned_by text principalID r) rows"

section \<open>Finishing a run\<close>

text \<open>Status, result and error columns of a finished run; \<open>Inl\<close> is an error of the engine.\<close>

definition run_columns :: "string + RunWorkflowResponse \<Rightarrow> string \<times> RunWorkflowResponse option \<times> string" where
  "run_columns outcome =
     (case outcome of
        Inl e \<Rightarrow> (''failed'', None, e)
      | Inr response \<Rightarrow>
          if EqualFold (rr_status response) ''failed'' then
            (''failed'', Some response,
             case map_of (rr_metadata response) ''failed_step'' of
               Some (GStr s) \<Rightarrow> if s \<noteq> [] then ''step '' @ s @ '' failed'' else []
             | _ \<Rightarrow> [])
          else (''succeeded'', Some response, []))"

text \<open>The boolean says whether the completion event is emitted; a failed statement changes nothing and emits none.\<close>

definition finishScheduledWorkflowRun ::
  "bool \<Rightarrow> string \<Rightarrow> string + RunWorkflowResponse \<Rightarrow> time \<Rightarrow> run_row list \<Rightarrow> bool \<times> run_row list" where
  "finishScheduledWorkflowRun finalize_ok i outcome now rows =
     (if \<not> finalize_ok then (False, rows)
      else (case run_columns outcome of (status, result, errMsg) \<Rightarrow>
              (case outcome of Inl _ \<Rightarrow> False | Inr _ \<Rightarrow> True, FinalizeWorkflowRun i status result errMsg now now rows)))"

section \<open>Histories\<close>

text \<open>The columns that no statement changes.\<close>

definition run_cols :: "run_row \<Rightarrow> string \<times> string \<times> string \<times> gmap" where
  "run_cols r = (wr_id r, wr_ns r, wr_name r, wr_metadata r)"

inductive run_step :: "(gval \<Rightarrow> string) \<Rightarrow> run_row list \<Rightarrow> run_row list \<Rightarrow> bool" for js where
  step_insert: "InsertWorkflowRun js i selector inputs metadata now rows = Inr rows' \<Longrightarrow> run_step js rows rows'"
| step_idempotent: "InsertWorkflowRunIdempotent js i selector inputs metadata now rows = Inr (j, deduped, rows') \<Longrightarrow> run_step js rows rows'"
| step_running: "run_step js rows (MarkWorkflowRunRunning i startedAt now rows)"
| step_finalize: "run_step js rows (FinalizeWorkflowRun i status result err finishedAt now rows)"
| step_cleanup: "run_step js rows (cleanupStaleWorkflowRuns msg timeout jobs now rows)"

lemma cols_update:
  "map run_cols (MarkWorkflowRunRunning i startedAt now rows) = map run_cols rows"
  "map run_cols (FinalizeWorkflowRun i status result err finishedAt now rows) = map run_cols rows"
  "map run_cols (cleanupStaleWorkflowRuns msg timeout jobs now rows) = map run_cols rows"
  by (auto simp: MarkWorkflowRunRunning_def FinalizeWorkflowRun_def cleanupStaleWorkflowRuns_def run_cols_def)

lemma Insert_cases:
  assumes "InsertWorkflowRunIdempotent text i selector inputs metadata now rows = Inr (j, deduped, rows')"
  obtains (old) r where "deduped" "rows' = rows" "r \<in> set rows" "wr_id r = j" "wr_ns r = sel_namespace selector" "wr_name r = sel_name selector"
      "json_text text (wr_metadata r) ''idempotency_key'' = Some (workflowRunIdempotencyKey metadata)" "workflowRunIdempotencyKey metadata \<noteq> []"
  | (fresh) "\<not> deduped" "j = i" "rows' = rows @ [new_run i selector inputs metadata now]" "\<not> key_taken text metadata rows" "i \<notin> wr_id ` set rows"
proof (cases "workflowRunIdempotencyKey metadata = []")
  case True
  with assms show thesis
    by (intro fresh) (auto simp: InsertWorkflowRunIdempotent_def InsertWorkflowRun_def Let_def split: if_splits)
next
  case False
  show thesis
  proof (cases "key_taken text metadata rows")
    case True
    with assms False obtain r where "find (\<lambda>r. json_text text (wr_metadata r) ''idempotency_key'' = Some (workflowRunIdempotencyKey metadata)) rows = Some r"
      "deduped" "rows' = rows" "wr_id r = j" "wr_ns r = sel_namespace selector" "wr_name r = sel_name selector"
      by (auto simp: InsertWorkflowRunIdempotent_def Let_def split: option.splits if_splits)
    with False show thesis by (intro old [of r]) (auto simp: find_Some_iff)
  next
    case key: False
    with assms False show thesis by (intro fresh) (auto simp: InsertWorkflowRunIdempotent_def Let_def split: if_splits)
  qed
qed

definition run_ok :: "(gval \<Rightarrow> string) \<Rightarrow> run_row list \<Rightarrow> bool" where
  "run_ok text rows \<longleftrightarrow> (\<forall>p\<in>set (map run_cols rows). \<forall>q\<in>set (map run_cols rows).
     index_key text (snd (snd (snd p))) = index_key text (snd (snd (snd q))) \<and> index_key text (snd (snd (snd p))) \<noteq> None \<longrightarrow> p = q)"

lemma run_ok_unique:
  assumes "run_ok text rows" "s \<in> set rows" "r \<in> set rows"
    and "index_key text (wr_metadata s) = index_key text (wr_metadata r)" "index_key text (wr_metadata s) \<noteq> None"
  shows "run_cols s = run_cols r"
proof (rule assms(1) [unfolded run_ok_def, rule_format])
  show "run_cols s \<in> set (map run_cols rows)" "run_cols r \<in> set (map run_cols rows)" using assms(2,3) by simp_all
  show "index_key text (snd (snd (snd (run_cols s)))) = index_key text (snd (snd (snd (run_cols r)))) \<and>
      index_key text (snd (snd (snd (run_cols s)))) \<noteq> None" using assms(4,5) by (simp add: run_cols_def)
qed

lemma find_row: "r \<in> set rows \<Longrightarrow> P r \<Longrightarrow> \<exists>s. find P rows = Some s \<and> s \<in> set rows \<and> P s"
  by (induction rows) auto

lemma run_ok_fresh:
  assumes "run_ok text rows" and "\<not> key_taken text metadata rows"
  shows "run_ok text (rows @ [new_run i selector inputs metadata now])"
proof -
  have "index_key text (wr_metadata r) \<noteq> index_key text metadata" if "r \<in> set rows" "index_key text metadata \<noteq> None" for r
    using assms(2) that by (auto simp: key_taken_def list_ex_iff)
  then show ?thesis using assms(1) by (force simp: run_ok_def run_cols_def new_run_def)
qed

lemma run_step_props:
  assumes "run_step text rows rows'"
  shows "(\<exists>new. map run_cols rows' = map run_cols rows @ new) \<and> (run_ok text rows \<longrightarrow> run_ok text rows')"
  using assms
proof (cases rule: run_step.cases)
  case (step_insert i selector inputs metadata now)
  then have "rows' = rows @ [new_run i selector inputs metadata now]" "\<not> key_taken text metadata rows"
    by (auto simp: InsertWorkflowRun_def split: if_splits)
  then show ?thesis using run_ok_fresh by auto
next
  case (step_idempotent i selector inputs metadata now j deduped)
  from step_idempotent show ?thesis
    by (cases rule: Insert_cases) (use run_ok_fresh in auto)
qed (auto simp: cols_update run_ok_def)

lemma run_steps_props:
  "(run_step text)\<^sup>*\<^sup>* rows rows' \<Longrightarrow> (\<exists>new. map run_cols rows' = map run_cols rows @ new) \<and> (run_ok text rows \<longrightarrow> run_ok text rows')"
proof (induction rule: rtranclp_induct)
  case (step y z)
  from run_step_props [OF step(2)] step(3) show ?case by auto
qed simp

section \<open>A key is claimed once\<close>

type_synonym run_request = "string \<times> ManifestSelector \<times> gmap \<times> gmap \<times> time"

definition claim_key :: "(gval \<Rightarrow> string) \<Rightarrow> run_request \<Rightarrow> run_row list \<Rightarrow> bool \<times> run_row list" where
  "claim_key js r rows =
     (case r of (i, selector, inputs, metadata, now) \<Rightarrow>
        (case InsertWorkflowRunIdempotent js i selector inputs metadata now rows of
           Inl e \<Rightarrow> (False, rows)
         | Inr (j, deduped, rows') \<Rightarrow> (\<not> deduped \<and> index_key js metadata \<noteq> None, rows')))"

definition request_key :: "(gval \<Rightarrow> string) \<Rightarrow> run_request \<Rightarrow> string option" where
  "request_key js r = (case r of (i, selector, inputs, metadata, now) \<Rightarrow> index_key js metadata)"

definition key_claimed :: "(gval \<Rightarrow> string) \<Rightarrow> run_row list \<Rightarrow> string option \<Rightarrow> bool" where
  "key_claimed js rows k \<longleftrightarrow> k \<noteq> None \<and> list_ex (\<lambda>r. index_key js (wr_metadata r) = k) rows"

interpretation key_ledger: once_ledger "claim_key js" "request_key js" "key_claimed js" for js
proof
  fix r :: run_request and d d' :: "run_row list" and won k
  obtain i selector inputs metadata now where r: "r = (i, selector, inputs, metadata, now)" by (cases r)
  {
    assume c: "claim_key js r d = (True, d')"
    with r obtain j where ins: "InsertWorkflowRunIdempotent js i selector inputs metadata now d = Inr (j, False, d')" and k: "index_key js metadata \<noteq> None"
      by (auto simp: claim_key_def split: sum.splits)
    from ins show "\<not> key_claimed js d (request_key js r) \<and> key_claimed js d' (request_key js r)"
      by (cases rule: Insert_cases) (use r k in \<open>auto simp: key_claimed_def request_key_def key_taken_def new_run_def\<close>)
  next
    assume c: "claim_key js r d = (won, d')" and k: "key_claimed js d k"
    show "key_claimed js d' k"
    proof (cases "InsertWorkflowRunIdempotent js i selector inputs metadata now d")
      case (Inl e)
      with c r k show ?thesis by (simp add: claim_key_def)
    next
      case (Inr p)
      obtain j deduped d1 where p: "p = (j, deduped, d1)" by (cases p)
      with Inr c r have "d1 = d'" by (simp add: claim_key_def)
      from Inr [unfolded p this] show ?thesis by (cases rule: Insert_cases) (use k in \<open>auto simp: key_claimed_def\<close>)
    qed
  }
qed

lemma string_key:
  assumes "map_of metadata ''idempotency_key'' = Some (GStr k)" and "k \<noteq> []"
  shows "json_text js metadata ''idempotency_key'' = Some k" "index_key js metadata = Some k"
  using assms by (simp_all add: index_key_def json_text_def)

definition ex_selector :: ManifestSelector where
  "ex_selector = \<lparr>sel_manifest_id = [], sel_namespace = ''global'', sel_name = ''deploy'', sel_version = None\<rparr>"

definition ex_run_rows :: "string \<Rightarrow> run_row list" where
  "ex_run_rows k = [new_run ''a'' ex_selector [] [(''idempotency_key'', GStr k)] 5]"

lemma ex_insert: "InsertWorkflowRunIdempotent (\<lambda>_. []) ''a'' ex_selector [] [(''idempotency_key'', GStr '' k '')] 5 [] = Inr (''a'', False, ex_run_rows '' k '')"
  "InsertWorkflowRunIdempotent (\<lambda>_. []) ''a'' ex_selector [] [(''idempotency_key'', GStr ''k'')] 5 [] = Inr (''a'', False, ex_run_rows ''k'')"
  by (simp_all add: InsertWorkflowRunIdempotent_def InsertWorkflowRun_def key_taken_def ex_run_rows_def Let_def)

section \<open>Properties\<close>

text \<open>C26: A retry gets the original run. Once a run with an idempotency key, a non-empty text without white space at its
  ends, has been accepted into a table whose index on keys holds, a second request with the same key for the same workflow
  returns the id of the first run, reports the duplicate and inserts nothing, whatever has happened to the table in
  between: other runs, starts, completions and clean-ups. (A key with white space at its ends is stored as it is and looked
  up trimmed, so its retry fails instead; that is a finding.)\<close>
theorem retry_returns_original_run:
  assumes "run_ok js rows" and "map_of metadata ''idempotency_key'' = Some (GStr k)" and "k \<noteq> []" and "trimmed k"
    and "InsertWorkflowRunIdempotent js i selector inputs metadata now rows = Inr (j, deduped, rows1)"
    and "(run_step js)\<^sup>*\<^sup>* rows1 rows2"
    and "map_of metadata' ''idempotency_key'' = Some (GStr k)"
    and "sel_namespace selector' = sel_namespace selector" "sel_name selector' = sel_name selector"
  shows "InsertWorkflowRunIdempotent js i' selector' inputs' metadata' now' rows2 = Inr (j, True, rows2)"
proof -
  have key: "workflowRunIdempotencyKey metadata = k" "workflowRunIdempotencyKey metadata' = k"
    using assms(2,4,7) TrimSpace_id by (simp_all add: workflowRunIdempotencyKey_def)
  note sk = string_key [OF assms(2,3), of js] string_key [OF assms(7,3), of js]
  have "\<exists>md. (j, sel_namespace selector, sel_name selector, md) \<in> set (map run_cols rows1) \<and> index_key js md = Some k"
    using assms(5)
  proof (cases rule: Insert_cases)
    case (old r)
    then have "index_key js (wr_metadata r) = Some k" using key assms(3) by (simp add: index_key_def)
    then show ?thesis using old by (force simp: run_cols_def)
  next
    case fresh
    then show ?thesis using sk by (auto simp: run_cols_def new_run_def)
  qed
  then obtain md where md: "(j, sel_namespace selector, sel_name selector, md) \<in> set (map run_cols rows1)" "index_key js md = Some k" by blast
  note steps = run_steps_props [OF assms(6)]
  obtain new where "map run_cols rows2 = map run_cols rows1 @ new" using steps by blast
  then have "set (map run_cols rows2) = set (map run_cols rows1) \<union> set new" by (simp only: set_append)
  then have in2: "(j, sel_namespace selector, sel_name selector, md) \<in> set (map run_cols rows2)" using md(1) by blast
  have "run_step js rows rows1" using assms(5) by (rule step_idempotent)
  from run_step_props [OF this] assms(1) have "run_ok js rows1" by simp
  with steps have ok: "run_ok js rows2" by simp
  obtain r where r: "r \<in> set rows2" "run_cols r = (j, sel_namespace selector, sel_name selector, md)" using in2 by (auto simp: image_iff)
  then have taken: "key_taken js metadata' rows2" using md(2) sk by (auto simp: key_taken_def list_ex_iff run_cols_def)
  have "json_text js (wr_metadata r) ''idempotency_key'' = Some k" using r(2) md(2) by (auto simp: run_cols_def index_key_def split: option.splits if_splits)
  from find_row [OF r(1), where P = "\<lambda>r. json_text js (wr_metadata r) ''idempotency_key'' = Some k", OF this]
  obtain s where s: "find (\<lambda>r. json_text js (wr_metadata r) ''idempotency_key'' = Some k) rows2 = Some s"
    "s \<in> set rows2" "json_text js (wr_metadata s) ''idempotency_key'' = Some k" by blast
  then have "index_key js (wr_metadata s) = Some k" using assms(3) by (simp add: index_key_def)
  then have "run_cols s = run_cols r"
    using run_ok_unique [OF ok s(2) r(1)] r(2) md(2) by (simp add: run_cols_def)
  then show ?thesis using s(1) r(2) key assms(3,8,9) taken by (simp add: InsertWorkflowRunIdempotent_def Let_def run_cols_def)
qed

theorem retry_returns_original_run_witness:
  "InsertWorkflowRunIdempotent (\<lambda>_. []) ''b'' ex_selector [] [(''idempotency_key'', GStr ''k'')] 9
     (MarkWorkflowRunRunning ''a'' 6 6 (ex_run_rows ''k'')) = Inr (''a'', True, MarkWorkflowRunRunning ''a'' 6 6 (ex_run_rows ''k''))"
  by (rule retry_returns_original_run [OF _ _ _ _ ex_insert(2)])
    (auto simp: run_ok_def trimmed_def is_space_def intro: step_running r_into_rtranclp)

text \<open>One key, one run: in any sequence of keyed requests, by any clients, every key is inserted at most once.\<close>
theorem run_key_claimed_once:
  assumes "key_ledger.history js requests rows = (won, rows')"
  shows "distinct (map (request_key js) won) \<and> (\<forall>r\<in>set won. \<not> key_claimed js rows (request_key js r) \<and> key_claimed js rows' (request_key js r))"
  using key_ledger.history_once [OF assms] by blast

theorem run_key_claimed_once_witness:
  "key_ledger.history (\<lambda>_. []) [(''a'', ex_selector, [], [(''idempotency_key'', GStr ''k'')], 5), (''b'', ex_selector, [], [(''idempotency_key'', GStr ''k'')], 9)] []
     = ([(''a'', ex_selector, [], [(''idempotency_key'', GStr ''k'')], 5)], ex_run_rows ''k'') \<and>
   key_claimed (\<lambda>_. []) (ex_run_rows ''k'') (Some ''k'')"
proof -
  have "InsertWorkflowRunIdempotent (\<lambda>_. []) ''b'' ex_selector [] [(''idempotency_key'', GStr ''k'')] 9 (ex_run_rows ''k'') = Inr (''a'', True, ex_run_rows ''k'')"
    by code_simp
  then have h: "key_ledger.history (\<lambda>_. []) [(''a'', ex_selector, [], [(''idempotency_key'', GStr ''k'')], 5), (''b'', ex_selector, [], [(''idempotency_key'', GStr ''k'')], 9)] []
     = ([(''a'', ex_selector, [], [(''idempotency_key'', GStr ''k'')], 5)], ex_run_rows ''k'')"
    by (simp add: claim_key_def ex_insert index_key_def json_text_def)
  from run_key_claimed_once [OF h] h show ?thesis by (simp add: request_key_def index_key_def json_text_def)
qed

text \<open>A padded key makes a retry fail: after a run with a key that has surrounding blanks, and while no run has the
  bare key, every retry with that key is an error instead of a duplicate, because the index stores the key as it is
  and the lookup searches for the trimmed one.\<close>
theorem padded_key_retry_fails:
  assumes "map_of metadata ''idempotency_key'' = Some (GStr k)" and "TrimSpace k \<noteq> []" and "TrimSpace k \<noteq> k"
    and "InsertWorkflowRunIdempotent js i selector inputs metadata now rows = Inr (i, False, rows1)"
    and "list_all (\<lambda>r. json_text js (wr_metadata r) ''idempotency_key'' \<noteq> Some (TrimSpace k)) rows"
  shows "InsertWorkflowRunIdempotent js i' selector inputs metadata now' rows1 = Inl RunLookupFailed"
proof -
  have k: "k \<noteq> []" using assms(2) by auto
  note sk = string_key [OF assms(1) k, of js]
  have key: "workflowRunIdempotencyKey metadata = TrimSpace k" using assms(1) by (simp add: workflowRunIdempotencyKey_def)
  from assms(4) have rows1: "rows1 = rows @ [new_run i selector inputs metadata now]" by (cases rule: Insert_cases) auto
  then have "key_taken js metadata rows1" using sk by (simp add: key_taken_def new_run_def)
  moreover have "find (\<lambda>r. json_text js (wr_metadata r) ''idempotency_key'' = Some (TrimSpace k)) rows1 = None"
    using assms(3,5) sk(1) rows1 by (auto simp: find_None_iff list_all_iff new_run_def)
  ultimately show ?thesis using key assms(2) by (simp add: InsertWorkflowRunIdempotent_def Let_def)
qed

theorem padded_key_retry_fails_witness:
  "InsertWorkflowRunIdempotent (\<lambda>_. []) ''b'' ex_selector [] [(''idempotency_key'', GStr '' k '')] 9 (ex_run_rows '' k '') = Inl RunLookupFailed"
  by (rule padded_key_retry_fails [where k = "'' k ''", OF _ _ _ ex_insert(1)]) (simp, code_simp, code_simp, simp)

text \<open>A completion is unconditional: it also rewrites the row of a run that the cleaner has already cancelled.\<close>
lemma finalize_overwrites_cancelled:
  assumes "GetWorkflowRun i rows = Some r" and "wr_status r = ''cancelled''"
  shows "\<exists>r'. GetWorkflowRun i (FinalizeWorkflowRun i ''succeeded'' result [] t now rows) = Some r' \<and>
     wr_status r' = ''succeeded'' \<and> wr_error r' = None"
  using assms(1) unfolding GetWorkflowRun_def FinalizeWorkflowRun_def by (induction rows) (auto split: if_splits)

end
