(* ===== verification/Machine_Principals.thy ===== *)
theory Machine_Principals
  imports Event_Log
begin

text \<open>
  The inventories of hashed machine credentials, \<open>controllers/httpapi/machine_principals.go\<close> and
  \<open>controllers/httpapi/directory_machine_principals.go\<close>: the validation that the workflow, event and
  directory inventories share, their loaders, and the look-up of a principal by a presented credential. The
  environment of the process is a function from variable names; the JSON decoders, \<open>uuid.Parse\<close> and
  \<open>sha256.Sum256\<close> are arguments. A digest is a string of 32 bytes.
\<close>

section \<open>Configuration\<close>

type_synonym environ = "string \<Rightarrow> string option"

definition Getenv :: "environ \<Rightarrow> string \<Rightarrow> string" where
  "Getenv env name = (case env name of None \<Rightarrow> [] | Some v \<Rightarrow> v)"

record machine_config =
  mc_id :: string
  mc_status :: string
  mc_expires :: time
  mc_rotation :: string
  mc_rotated :: time
  mc_token :: string

record machineWorkflowRef =
  mwr_namespace :: string
  mwr_name :: string

record workflowMachinePrincipalConfig =
  wpc_base :: machine_config
  wpc_workflows :: "machineWorkflowRef list"

record eventPublisherEventRef =
  epr_provider :: string
  epr_instance :: string
  epr_type :: string

record eventPublisherPrincipalConfig =
  epc_base :: machine_config
  epc_events :: "eventPublisherEventRef list"

record directoryMachinePrincipalConfig =
  dpc_base :: machine_config
  dpc_external :: "string list"
  dpc_capabilities :: "string list"
  dpc_tartaro :: "machineWorkflowRef list"

record machine_principal =
  mp_id :: string
  mp_status :: string
  mp_expires :: time
  mp_rotation :: string
  mp_rotated :: time
  mp_digest :: string

record workflowMachinePrincipal =
  wmp_base :: machine_principal
  wmp_allowed :: "machineWorkflowRef list"

record eventPublisherLogicalRef =
  elr_provider :: string
  elr_namespace :: string
  elr_name :: string
  elr_type :: string

record eventPublisherPrincipal =
  epp_base :: machine_principal
  epp_exact :: "eventPublisherEventRef list"
  epp_logical :: "eventPublisherLogicalRef list"
  epp_provider_events :: "(string \<times> string) list"

record directoryMachinePrincipal =
  dmp_base :: machine_principal
  dmp_external :: "string list"
  dmp_capabilities :: "string list"
  dmp_tartaro :: "machineWorkflowRef list"

datatype logical_error = RefLength | RefSlash | RefCase | RefSpace | RefControl | RefWildcard | RefEmpty

datatype entry_error =
    PrincipalIDRequired
  | PrincipalIDWildcard
  | StatusInvalid
  | ExpiresRequired
  | RotationRequired
  | ExpiryBeforeRotation
  | DigestInvalid
  | DigestZero
  | PrincipalIDTooLong
  | DuplicatePrincipal
  | DuplicateDigest
  | ItemsRequired
  | ItemIncomplete nat
  | ItemWildcard nat
  | ItemNotMutation nat
  | ItemProvider nat
  | ItemReference nat logical_error
  | ItemDuplicate
  | CapabilityUnknown nat
  | TartaroRequired
  | TartaroForbidden
  | PhoneNeedsSnapshot
  | ExternalNeedsSnapshot
  | ExternalInvalid

datatype inventory_error =
    RawTokensConfigured
  | InventoryBlank
  | InventoryJSON
  | InventoryTrailing
  | InventoryNotArray
  | InventoryEmpty
  | EntryInvalid nat entry_error

section \<open>The common part of an entry\<close>

definition containsWildcard :: "string \<Rightarrow> bool" where
  "containsWildcard v = ContainsAny v ''*?[]{}''"

text \<open>\<open>hex.DecodeString\<close> on lower-case text.\<close>

definition hex_val :: "char \<Rightarrow> nat option" where
  "hex_val c =
     (if is_digit c then Some (of_char c - 48)
      else if CHR ''a'' \<le> c \<and> c \<le> CHR ''f'' then Some (of_char c - 87) else None)"

fun hex_decode :: "string \<Rightarrow> string option" where
  "hex_decode [] = Some []"
| "hex_decode [c] = None"
| "hex_decode (c # d # s) =
     (case (hex_val c, hex_val d, hex_decode s) of
        (Some h, Some l, Some r) \<Rightarrow> Some (char_of (16 * h + l) # r)
      | _ \<Rightarrow> None)"

definition zero_digest :: string where
  "zero_digest = replicate 32 (CHR 0x00)"

definition validateMachinePrincipalBase :: "machine_config \<Rightarrow> entry_error + machine_principal" where
  "validateMachinePrincipalBase c =
     (let i = TrimSpace (mc_id c); status = ToLower (TrimSpace (mc_status c)); rotation = TrimSpace (mc_rotation c);
          token = TrimSpace (mc_token c)
      in if i = [] \<or> 256 < length i then Inl PrincipalIDRequired
         else if containsWildcard i then Inl PrincipalIDWildcard
         else if status \<notin> {''active'', ''disabled'', ''revoked''} then Inl StatusInvalid
         else if IsZero (mc_expires c) then Inl ExpiresRequired
         else if rotation = [] then Inl RotationRequired
         else if \<not> IsZero (mc_rotated c) \<and> \<not> mc_rotated c < mc_expires c then Inl ExpiryBeforeRotation
         else if length token \<noteq> 64 \<or> token \<noteq> ToLower token then Inl DigestInvalid
         else (case hex_decode token of
             None \<Rightarrow> Inl DigestInvalid
           | Some digest \<Rightarrow>
               if digest = zero_digest then Inl DigestZero
               else Inr \<lparr>mp_id = i, mp_status = status, mp_expires = mc_expires c, mp_rotation = rotation,
                         mp_rotated = mc_rotated c, mp_digest = digest\<rparr>))"

text \<open>
  The loop over the entries, common to the three inventories: \<open>extra\<close> is the additional bound of the directory
  inventory, \<open>build\<close> reads the grants of the entry.
\<close>

fun load_entries ::
  "('c \<Rightarrow> machine_config) \<Rightarrow> (machine_principal \<Rightarrow> entry_error option) \<Rightarrow> ('c \<Rightarrow> machine_principal \<Rightarrow> entry_error + 'p)
     \<Rightarrow> nat \<Rightarrow> string list \<Rightarrow> string list \<Rightarrow> 'c list \<Rightarrow> inventory_error + 'p list" where
  "load_entries base extra build index seenIDs seenHashes [] = Inr []"
| "load_entries base extra build index seenIDs seenHashes (c # cs) =
     (case validateMachinePrincipalBase (base c) of
        Inl e \<Rightarrow> Inl (EntryInvalid index e)
      | Inr b \<Rightarrow>
          (case extra b of
             Some e \<Rightarrow> Inl (EntryInvalid index e)
           | None \<Rightarrow>
               if mp_id b \<in> set seenIDs then Inl (EntryInvalid index DuplicatePrincipal)
               else if mp_digest b \<in> set seenHashes then Inl (EntryInvalid index DuplicateDigest)
               else (case build c b of
                   Inl e \<Rightarrow> Inl (EntryInvalid index e)
                 | Inr p \<Rightarrow> map_sum id (\<lambda>ps. p # ps)
                     (load_entries base extra build (Suc index) (mp_id b # seenIDs) (mp_digest b # seenHashes) cs))))"

text \<open>
  A decoder gives \<^term>\<open>None\<close> for malformed input, and otherwise the array (\<^term>\<open>None\<close> for \<open>null\<close>) and whether the
  input ends after it.
\<close>

type_synonym 'c decoder = "string \<Rightarrow> ('c list option \<times> bool) option"

definition decodeMachinePrincipalConfig :: "'c decoder \<Rightarrow> environ \<Rightarrow> string \<Rightarrow> inventory_error + 'c list option" where
  "decodeMachinePrincipalConfig decode env name =
     (let raw = TrimSpace (Getenv env name) in
      if raw = [] then Inr None
      else (case decode raw of
          None \<Rightarrow> Inl InventoryJSON
        | Some (configs, eof) \<Rightarrow> if eof then Inr configs else Inl InventoryTrailing))"

definition load_inventory :: "'c decoder \<Rightarrow> environ \<Rightarrow> string \<Rightarrow> ('c list \<Rightarrow> inventory_error + 'p list) \<Rightarrow> inventory_error + 'p list" where
  "load_inventory decode env name entries =
     (case decodeMachinePrincipalConfig decode env name of
        Inl e \<Rightarrow> Inl e
      | Inr None \<Rightarrow> if TrimSpace (Getenv env name) \<noteq> [] then Inl InventoryNotArray else Inr []
      | Inr (Some configs) \<Rightarrow> if configs = [] then Inl InventoryEmpty else entries configs)"

definition set_but_blank :: "environ \<Rightarrow> string \<Rightarrow> bool" where
  "set_but_blank env name = (case env name of None \<Rightarrow> False | Some raw \<Rightarrow> TrimSpace raw = [])"

section \<open>The workflow inventory\<close>

definition workflowMachinePrincipalsEnv :: string where
  "workflowMachinePrincipalsEnv = ''YGGDRASIL_WORKFLOW_MACHINE_PRINCIPALS_JSON''"

definition legacyScopedWorkflowTokensEnv :: string where
  "legacyScopedWorkflowTokensEnv = ''YGGDRASIL_WORKFLOW_RUN_SCOPED_TOKENS_JSON''"

text \<open>The exact references of an entry, trimmed; also the loop over Tartaro instances.\<close>

fun exact_refs :: "nat \<Rightarrow> machineWorkflowRef list \<Rightarrow> machineWorkflowRef list \<Rightarrow> entry_error + machineWorkflowRef list" where
  "exact_refs i seen [] = Inr (rev seen)"
| "exact_refs i seen (r # rs) =
     (let r' = \<lparr>mwr_namespace = TrimSpace (mwr_namespace r), mwr_name = TrimSpace (mwr_name r)\<rparr> in
      if mwr_namespace r' = [] \<or> mwr_name r' = [] then Inl (ItemIncomplete i)
      else if containsWildcard (mwr_namespace r') \<or> containsWildcard (mwr_name r') then Inl (ItemWildcard i)
      else if r' \<in> set seen then Inl ItemDuplicate
      else exact_refs (Suc i) (r' # seen) rs)"

definition build_workflow_principal :: "workflowMachinePrincipalConfig \<Rightarrow> machine_principal \<Rightarrow> entry_error + workflowMachinePrincipal" where
  "build_workflow_principal c b =
     (if wpc_workflows c = [] then Inl ItemsRequired
      else map_sum id (\<lambda>allowed. \<lparr>wmp_base = b, wmp_allowed = allowed\<rparr>) (exact_refs 0 [] (wpc_workflows c)))"

definition load_workflow_entries :: "workflowMachinePrincipalConfig list \<Rightarrow> inventory_error + workflowMachinePrincipal list" where
  "load_workflow_entries = load_entries wpc_base (\<lambda>b. None) build_workflow_principal 0 [] []"

definition workflowMachinePrincipalsFromEnv ::
  "workflowMachinePrincipalConfig decoder \<Rightarrow> environ \<Rightarrow> inventory_error + workflowMachinePrincipal list" where
  "workflowMachinePrincipalsFromEnv decode env =
     (if TrimSpace (Getenv env legacyScopedWorkflowTokensEnv) \<noteq> [] then Inl RawTokensConfigured
      else if set_but_blank env workflowMachinePrincipalsEnv then Inl InventoryBlank
      else load_inventory decode env workflowMachinePrincipalsEnv load_workflow_entries)"

definition workflowMachinePrincipalAllows :: "workflowMachinePrincipal \<Rightarrow> string \<Rightarrow> string \<Rightarrow> bool" where
  "workflowMachinePrincipalAllows p namespace name \<longleftrightarrow>
     \<lparr>mwr_namespace = TrimSpace namespace, mwr_name = TrimSpace name\<rparr> \<in> set (wmp_allowed p)"

section \<open>The event inventory\<close>

definition eventPublisherPrincipalsEnv :: string where
  "eventPublisherPrincipalsEnv = ''YGGDRASIL_EVENT_PUBLISHER_PRINCIPALS_JSON''"

definition is_control :: "char \<Rightarrow> bool" where
  "is_control c \<longleftrightarrow> (of_char c :: nat) < 32 \<or> (of_char c :: nat) = 127"

definition parseLogicalInstanceRef :: "string \<Rightarrow> logical_error + string \<times> string" where
  "parseLogicalInstanceRef v =
     (if v = [] \<or> 512 < length v then Inl RefLength
      else if length (filter (\<lambda>c. c = CHR ''/'') v) \<noteq> 1 then Inl RefSlash
      else if v \<noteq> ToLower v then Inl RefCase
      else if list_ex is_space v then Inl RefSpace
      else if list_ex is_control v then Inl RefControl
      else if containsWildcard v then Inl RefWildcard
      else let namespace = takeWhile (\<lambda>c. c \<noteq> CHR ''/'') v; name = drop (length namespace + 1) v
        in if namespace = [] \<or> name = [] then Inl RefEmpty else Inr (namespace, name))"

fun event_refs ::
  "nat \<Rightarrow> eventPublisherEventRef list \<Rightarrow> eventPublisherLogicalRef list \<Rightarrow> eventPublisherEventRef list
     \<Rightarrow> entry_error + eventPublisherEventRef list \<times> eventPublisherLogicalRef list" where
  "event_refs i exact logical [] = Inr (rev exact, rev logical)"
| "event_refs i exact logical (r # rs) =
     (let provider = TrimSpace (epr_provider r); instance = TrimSpace (epr_instance r); t = TrimSpace (epr_type r);
          r' = \<lparr>epr_provider = provider, epr_instance = instance, epr_type = t\<rparr>
      in if provider = [] \<or> instance = [] \<or> t = [] then Inl (ItemIncomplete i)
         else if containsWildcard provider \<or> containsWildcard instance \<or> containsWildcard t then Inl (ItemWildcard i)
         else if \<not> IsIntegrationMutationEvent t then Inl (ItemNotMutation i)
         else if map_option fst (ParseIntegrationMutationEventType t) \<noteq> Some provider then Inl (ItemProvider i)
         else if CHR ''/'' \<in> set instance then
           (case parseLogicalInstanceRef instance of
              Inl e \<Rightarrow> Inl (ItemReference i e)
            | Inr (namespace, name) \<Rightarrow>
                let l = \<lparr>elr_provider = provider, elr_namespace = namespace, elr_name = name, elr_type = t\<rparr> in
                if l \<in> set logical then Inl ItemDuplicate else event_refs (Suc i) exact (l # logical) rs)
         else if r' \<in> set exact then Inl ItemDuplicate
         else event_refs (Suc i) (r' # exact) logical rs)"

definition build_event_principal :: "eventPublisherPrincipalConfig \<Rightarrow> machine_principal \<Rightarrow> entry_error + eventPublisherPrincipal" where
  "build_event_principal c b =
     (if epc_events c = [] then Inl ItemsRequired
      else map_sum id (\<lambda>(exact, logical). \<lparr>epp_base = b, epp_exact = exact, epp_logical = logical,
             epp_provider_events = map (\<lambda>l. (elr_provider l, elr_type l)) logical\<rparr>) (event_refs 0 [] [] (epc_events c)))"

definition load_event_entries :: "eventPublisherPrincipalConfig list \<Rightarrow> inventory_error + eventPublisherPrincipal list" where
  "load_event_entries = load_entries epc_base (\<lambda>b. None) build_event_principal 0 [] []"

definition eventPublisherPrincipalsFromEnv ::
  "eventPublisherPrincipalConfig decoder \<Rightarrow> environ \<Rightarrow> inventory_error + eventPublisherPrincipal list" where
  "eventPublisherPrincipalsFromEnv decode env =
     (if set_but_blank env eventPublisherPrincipalsEnv then Inl InventoryBlank
      else load_inventory decode env eventPublisherPrincipalsEnv load_event_entries)"

definition eventPublisherPrincipalAllows :: "eventPublisherPrincipal \<Rightarrow> string \<Rightarrow> string \<Rightarrow> string \<Rightarrow> bool" where
  "eventPublisherPrincipalAllows p provider instance t \<longleftrightarrow>
     \<lparr>epr_provider = TrimSpace provider, epr_instance = TrimSpace instance, epr_type = TrimSpace t\<rparr> \<in> set (epp_exact p)"

definition eventPublisherPrincipalHasLogicalGrant :: "eventPublisherPrincipal \<Rightarrow> string \<Rightarrow> string \<Rightarrow> bool" where
  "eventPublisherPrincipalHasLogicalGrant p provider t \<longleftrightarrow> (TrimSpace provider, TrimSpace t) \<in> set (epp_provider_events p)"

definition eventPublisherPrincipalAllowsLogical :: "eventPublisherPrincipal \<Rightarrow> string \<Rightarrow> string \<Rightarrow> string \<Rightarrow> string \<Rightarrow> bool" where
  "eventPublisherPrincipalAllowsLogical p provider namespace name t \<longleftrightarrow>
     \<lparr>elr_provider = TrimSpace provider, elr_namespace = namespace, elr_name = name, elr_type = TrimSpace t\<rparr> \<in> set (epp_logical p)"

definition eventPublisherPrincipalDeclares :: "eventPublisherPrincipal \<Rightarrow> string \<Rightarrow> string \<Rightarrow> string \<Rightarrow> bool" where
  "eventPublisherPrincipalDeclares p provider instance t =
     (let i = TrimSpace instance in
      if CHR ''/'' \<notin> set i then eventPublisherPrincipalAllows p provider i t
      else (case parseLogicalInstanceRef i of
          Inl e \<Rightarrow> False
        | Inr (namespace, name) \<Rightarrow> eventPublisherPrincipalAllowsLogical p provider namespace name t))"

section \<open>The directory inventory\<close>

definition directoryMachinePrincipalsEnv :: string where
  "directoryMachinePrincipalsEnv = ''YGGDRASIL_DIRECTORY_MACHINE_PRINCIPALS_JSON''"

definition capEffectiveActions :: string where
  "capEffectiveActions = ''directory.effective_actions''"

definition capSnapshot :: string where
  "capSnapshot = ''directory.snapshot''"

definition capPhoneContacts :: string where
  "capPhoneContacts = ''directory.contacts.phone''"

definition knownDirectoryCapability :: "string \<Rightarrow> bool" where
  "knownDirectoryCapability name \<longleftrightarrow>
     name \<in> {''directory.lookup_email'', ''directory.read'', capEffectiveActions, capSnapshot, capPhoneContacts}"

fun capability_items :: "nat \<Rightarrow> string list \<Rightarrow> string list \<Rightarrow> entry_error + string list" where
  "capability_items i seen [] = Inr (rev seen)"
| "capability_items i seen (c # cs) =
     (let c' = TrimSpace c in
      if \<not> knownDirectoryCapability c' then Inl (CapabilityUnknown i)
      else if c' \<in> set seen then Inl ItemDuplicate
      else capability_items (Suc i) (c' # seen) cs)"

text \<open>\<open>canonical\<close> says that \<open>uuid.Parse\<close> accepts the text, that it is not the nil id and that it prints as itself.\<close>

fun external_items :: "(string \<Rightarrow> bool) \<Rightarrow> string list \<Rightarrow> string list \<Rightarrow> entry_error + string list" where
  "external_items canonical seen [] = Inr (rev seen)"
| "external_items canonical seen (i # is) =
     (if \<not> canonical i then Inl ExternalInvalid
      else if i \<in> set seen then Inl ItemDuplicate
      else external_items canonical (i # seen) is)"

definition build_directory_principal ::
  "(string \<Rightarrow> bool) \<Rightarrow> directoryMachinePrincipalConfig \<Rightarrow> machine_principal \<Rightarrow> entry_error + directoryMachinePrincipal" where
  "build_directory_principal canonical c b =
     (if dpc_capabilities c = [] then Inl ItemsRequired
      else (case capability_items 0 [] (dpc_capabilities c) of
          Inl e \<Rightarrow> Inl e
        | Inr caps \<Rightarrow>
            if capEffectiveActions \<in> set caps \<and> dpc_tartaro c = [] then Inl TartaroRequired
            else if capEffectiveActions \<notin> set caps \<and> dpc_tartaro c \<noteq> [] then Inl TartaroForbidden
            else (case exact_refs 0 [] (dpc_tartaro c) of
                Inl e \<Rightarrow> Inl e
              | Inr instances \<Rightarrow>
                  if capPhoneContacts \<in> set caps \<and> capSnapshot \<notin> set caps then Inl PhoneNeedsSnapshot
                  else if dpc_external c \<noteq> [] \<and> capSnapshot \<notin> set caps then Inl ExternalNeedsSnapshot
                  else map_sum id (\<lambda>external. \<lparr>dmp_base = b, dmp_external = external, dmp_capabilities = caps, dmp_tartaro = instances\<rparr>)
                    (external_items canonical [] (dpc_external c)))))"

definition load_directory_entries ::
  "(string \<Rightarrow> bool) \<Rightarrow> directoryMachinePrincipalConfig list \<Rightarrow> inventory_error + directoryMachinePrincipal list" where
  "load_directory_entries canonical =
     load_entries dpc_base (\<lambda>b. guard_err (247 < length (mp_id b)) PrincipalIDTooLong) (build_directory_principal canonical) 0 [] []"

definition directoryMachinePrincipalsFromEnv ::
  "(string \<Rightarrow> bool) \<Rightarrow> directoryMachinePrincipalConfig decoder \<Rightarrow> environ \<Rightarrow> inventory_error + directoryMachinePrincipal list" where
  "directoryMachinePrincipalsFromEnv canonical decode env =
     load_inventory decode env directoryMachinePrincipalsEnv (load_directory_entries canonical)"

definition directoryMachinePrincipalHasCapability :: "directoryMachinePrincipal \<Rightarrow> string \<Rightarrow> bool" where
  "directoryMachinePrincipalHasCapability p c \<longleftrightarrow> c \<in> set (dmp_capabilities p)"

definition directoryMachinePrincipalAllowsTartaroInstance :: "directoryMachinePrincipal \<Rightarrow> string \<Rightarrow> string \<Rightarrow> bool" where
  "directoryMachinePrincipalAllowsTartaroInstance p namespace name \<longleftrightarrow>
     \<lparr>mwr_namespace = TrimSpace namespace, mwr_name = TrimSpace name\<rparr> \<in> set (dmp_tartaro p)"

section \<open>Credentials\<close>

definition machineCredentialMatches :: "(string \<Rightarrow> string) \<Rightarrow> string \<Rightarrow> string \<Rightarrow> bool" where
  "machineCredentialMatches sha candidate expected \<longleftrightarrow> candidate \<noteq> [] \<and> sha candidate = expected"

text \<open>The loops that look for a credential keep the last match.\<close>

definition last_match :: "('p \<Rightarrow> bool) \<Rightarrow> 'p list \<Rightarrow> 'p option" where
  "last_match P ps = fold (\<lambda>p matched. if P p then Some p else matched) ps None"

definition usable :: "time \<Rightarrow> machine_principal \<Rightarrow> bool" where
  "usable now b \<longleftrightarrow> mp_status b = ''active'' \<and> now < mp_expires b"

definition activeWorkflowMachinePrincipal ::
  "(string \<Rightarrow> string) \<Rightarrow> string \<Rightarrow> workflowMachinePrincipal list \<Rightarrow> time \<Rightarrow> workflowMachinePrincipal option" where
  "activeWorkflowMachinePrincipal sha candidate ps now =
     last_match (\<lambda>p. machineCredentialMatches sha candidate (mp_digest (wmp_base p)) \<and> usable now (wmp_base p)) ps"

definition activeEventPublisherPrincipal ::
  "(string \<Rightarrow> string) \<Rightarrow> string \<Rightarrow> eventPublisherPrincipal list \<Rightarrow> time \<Rightarrow> eventPublisherPrincipal option" where
  "activeEventPublisherPrincipal sha candidate ps now =
     last_match (\<lambda>p. machineCredentialMatches sha candidate (mp_digest (epp_base p)) \<and> usable now (epp_base p)) ps"

definition directoryMachinePrincipalByCredential ::
  "(string \<Rightarrow> string) \<Rightarrow> string \<Rightarrow> directoryMachinePrincipal list \<Rightarrow> directoryMachinePrincipal option" where
  "directoryMachinePrincipalByCredential sha candidate ps =
     last_match (\<lambda>p. machineCredentialMatches sha candidate (mp_digest (dmp_base p))) ps"

definition directoryMachinePrincipalUsable :: "directoryMachinePrincipal option \<Rightarrow> time \<Rightarrow> bool \<times> string" where
  "directoryMachinePrincipalUsable p now =
     (case p of
        None \<Rightarrow> (False, ''credential_unknown'')
      | Some d \<Rightarrow>
          if mp_status (dmp_base d) \<noteq> ''active'' then (False, ''status_'' @ mp_status (dmp_base d))
          else if \<not> now < mp_expires (dmp_base d) then (False, ''expired'')
          else (True, []))"

definition constantTimeTokenEqual :: "(string \<Rightarrow> string) \<Rightarrow> string \<Rightarrow> string \<Rightarrow> bool" where
  "constantTimeTokenEqual sha candidate expected \<longleftrightarrow> candidate \<noteq> [] \<and> expected \<noteq> [] \<and> sha candidate = sha expected"

definition digestForConfiguredToken :: "(string \<Rightarrow> string) \<Rightarrow> string \<Rightarrow> string option" where
  "digestForConfiguredToken sha token = (if TrimSpace token = [] then None else Some (sha (TrimSpace token)))"

definition digestMatchesPlaintext :: "(string \<Rightarrow> string) \<Rightarrow> string \<Rightarrow> string \<Rightarrow> bool" where
  "digestMatchesPlaintext sha digest plaintext \<longleftrightarrow> digestForConfiguredToken sha plaintext = Some digest"

section \<open>Facts\<close>

lemma last_match_iff:
  "last_match P ps = Some p \<Longrightarrow> p \<in> set ps \<and> P p"
  "last_match P ps = None \<longleftrightarrow> (\<forall>p\<in>set ps. \<not> P p)"
proof -
  have "fold (\<lambda>p matched. if P p then Some p else matched) ps m = Some p \<Longrightarrow> m = Some p \<or> (p \<in> set ps \<and> P p)" for m
    by (induction ps arbitrary: m) (auto split: if_splits)
  then show "last_match P ps = Some p \<Longrightarrow> p \<in> set ps \<and> P p" by (fastforce simp: last_match_def)
  have "fold (\<lambda>p matched. if P p then Some p else matched) ps m = None \<longleftrightarrow> m = None \<and> (\<forall>p\<in>set ps. \<not> P p)" for m
    by (induction ps arbitrary: m) (auto split: if_splits)
  then show "last_match P ps = None \<longleftrightarrow> (\<forall>p\<in>set ps. \<not> P p)" by (simp add: last_match_def)
qed

definition base_ok :: "machine_principal \<Rightarrow> bool" where
  "base_ok b \<longleftrightarrow> mp_id b \<noteq> [] \<and> trimmed (mp_id b) \<and> length (mp_id b) \<le> 256 \<and> \<not> containsWildcard (mp_id b) \<and>
     mp_status b \<in> {''active'', ''disabled'', ''revoked''} \<and> \<not> IsZero (mp_expires b) \<and>
     length (mp_digest b) = 32 \<and> mp_digest b \<noteq> zero_digest"

lemma hex_decode_length: "hex_decode s = Some d \<Longrightarrow> length s = 2 * length d"
  by (induction s arbitrary: d rule: hex_decode.induct) (auto split: option.splits)

lemma validateMachinePrincipalBase_ok: "validateMachinePrincipalBase c = Inr b \<Longrightarrow> base_ok b"
  by (auto simp: validateMachinePrincipalBase_def Let_def base_ok_def dest!: hex_decode_length split: if_splits option.splits)

lemma load_entries_props:
  assumes "load_entries base extra build index seenIDs seenHashes cs = Inr ps"
    and "\<forall>c b p. build c b = Inr p \<longrightarrow> base' p = b"
  shows "distinct (map (\<lambda>p. mp_id (base' p)) ps) \<and> distinct (map (\<lambda>p. mp_digest (base' p)) ps) \<and>
    (\<forall>p\<in>set ps. mp_id (base' p) \<notin> set seenIDs \<and> mp_digest (base' p) \<notin> set seenHashes \<and> base_ok (base' p) \<and>
       (\<exists>c\<in>set cs. build c (base' p) = Inr p))"
  using assms(1)
proof (induction cs arbitrary: index seenIDs seenHashes ps)
  case (Cons c cs)
  then obtain b p ps' where b: "validateMachinePrincipalBase (base c) = Inr b" and fresh: "mp_id b \<notin> set seenIDs" "mp_digest b \<notin> set seenHashes"
    and p: "build c b = Inr p" and ps: "ps = p # ps'"
    and rest: "load_entries base extra build (Suc index) (mp_id b # seenIDs) (mp_digest b # seenHashes) cs = Inr ps'"
    by (auto simp: map_sum_Inr split: sum.splits option.splits if_splits)
  have "base' p = b" using assms(2) p by blast
  with Cons.IH [OF rest] fresh p ps validateMachinePrincipalBase_ok [OF b] show ?case by force
qed simp

section \<open>The contract of an inventory\<close>

text \<open>
  What the authentication relies on: a loaded inventory has valid entries with distinct ids and digests. A
  credential then belongs to at most one principal, and the loop that keeps the last match finds it.
\<close>

locale principal_inventory =
  fixes load :: "'c list \<Rightarrow> inventory_error + 'p list" and base :: "'p \<Rightarrow> machine_principal"
  assumes load_ids: "load cs = Inr ps \<Longrightarrow> distinct (map (\<lambda>p. mp_id (base p)) ps)"
    and load_digests: "load cs = Inr ps \<Longrightarrow> distinct (map (\<lambda>p. mp_digest (base p)) ps)"
    and load_ok: "load cs = Inr ps \<Longrightarrow> p \<in> set ps \<Longrightarrow> base_ok (base p)"
begin

lemma one_owner:
  assumes "load cs = Inr ps" and "p \<in> set ps" "q \<in> set ps"
    and "machineCredentialMatches sha t (mp_digest (base p))" "machineCredentialMatches sha t (mp_digest (base q))"
  shows "p = q"
  using load_digests [OF assms(1)] assms(2-5)
  by (auto simp: machineCredentialMatches_def distinct_map inj_on_def)

lemma match_iff:
  assumes "load cs = Inr ps"
  shows "last_match (\<lambda>p. machineCredentialMatches sha t (mp_digest (base p)) \<and> Q p) ps = Some p \<longleftrightarrow>
    p \<in> set ps \<and> machineCredentialMatches sha t (mp_digest (base p)) \<and> Q p" (is "?m = Some p \<longleftrightarrow> ?r")
proof
  show "?r" if "?m = Some p" using last_match_iff(1) [OF that] by blast
  assume r: ?r
  then have "?m \<noteq> None" by (auto simp: last_match_iff(2))
  then obtain q where q: "?m = Some q" by auto
  from last_match_iff(1) [OF q] r have "q = p" using one_owner [OF assms] by blast
  with q show "?m = Some p" by simp
qed

end

interpretation workflow_inventory: principal_inventory load_workflow_entries wmp_base
proof
  have b: "\<forall>c b p. build_workflow_principal c b = Inr p \<longrightarrow> wmp_base p = b"
    by (auto simp: build_workflow_principal_def map_sum_Inr split: if_splits sum.splits)
  fix cs ps
  assume "load_workflow_entries cs = Inr ps"
  from load_entries_props [where base' = wmp_base, OF this [unfolded load_workflow_entries_def] b]
  show "distinct (map (\<lambda>p. mp_id (wmp_base p)) ps)" "distinct (map (\<lambda>p. mp_digest (wmp_base p)) ps)"
    "\<And>p. p \<in> set ps \<Longrightarrow> base_ok (wmp_base p)" by blast+
qed

interpretation event_inventory: principal_inventory load_event_entries epp_base
proof
  have b: "\<forall>c b p. build_event_principal c b = Inr p \<longrightarrow> epp_base p = b"
    by (auto simp: build_event_principal_def map_sum_Inr split: if_splits sum.splits)
  fix cs ps
  assume "load_event_entries cs = Inr ps"
  from load_entries_props [where base' = epp_base, OF this [unfolded load_event_entries_def] b]
  show "distinct (map (\<lambda>p. mp_id (epp_base p)) ps)" "distinct (map (\<lambda>p. mp_digest (epp_base p)) ps)"
    "\<And>p. p \<in> set ps \<Longrightarrow> base_ok (epp_base p)" by blast+
qed

interpretation directory_inventory: principal_inventory "load_directory_entries canonical" dmp_base for canonical
proof
  have b: "\<forall>c b p. build_directory_principal canonical c b = Inr p \<longrightarrow> dmp_base p = b"
    by (auto simp: build_directory_principal_def map_sum_Inr split: if_splits sum.splits)
  fix cs ps
  assume "load_directory_entries canonical cs = Inr ps"
  from load_entries_props [where base' = dmp_base, OF this [unfolded load_directory_entries_def] b]
  show "distinct (map (\<lambda>p. mp_id (dmp_base p)) ps)" "distinct (map (\<lambda>p. mp_digest (dmp_base p)) ps)"
    "\<And>p. p \<in> set ps \<Longrightarrow> base_ok (dmp_base p)" by blast+
qed

end
