(* ===== verification/Machine_Auth.thy ===== *)
theory Machine_Auth
  imports Machine_Principals Rbac
begin

text \<open>
  Authentication of machine requests: the credential surfaces of \<open>controllers/httpapi/workflow_run_auth.go\<close> and
  \<open>events_publish_auth.go\<close>, the plaintext migration bridges, the collision checks between scopes
  (\<open>boot_validation.go\<close>), and the three gates \<open>authenticateWorkflowRunRequest\<close>, \<open>authenticateEventPublishRequest\<close>
  and \<open>authorizeDeployRequest\<close>. The clock, the digest and the decoders are arguments, as is the parser of RFC 3339
  times.
\<close>

section \<open>Requests\<close>

record http_request =
  hr_claims :: "gmap option"
  hr_method :: string
  hr_path :: string
  hr_header :: "string \<Rightarrow> string"
  hr_query :: "string \<Rightarrow> string"
  hr_session :: "string option"

definition bearerToken :: "string \<Rightarrow> string" where
  "bearerToken v =
     (let v' = TrimSpace v in
      if v' = [] then [] else if \<not> HasPrefix (ToLower v') ''bearer '' then [] else TrimSpace (drop 7 v'))"

definition requestPresentsStaticCredential :: "http_request \<Rightarrow> bool" where
  "requestPresentsStaticCredential r \<longleftrightarrow>
     list_ex (\<lambda>h. TrimSpace (hr_header r h) \<noteq> [])
       [''Authorization'', ''X-Yggdrasil-Workflow-Token'', ''X-Yggdrasil-Event-Token'', ''X-Yggdrasil-Auth-Admin-Token'',
        ''X-Yggdrasil-Directory-Token'', ''X-Deploy-Token'', ''X-Session-Token''] \<or>
     (case hr_session r of None \<Rightarrow> False | Some v \<Rightarrow> TrimSpace v \<noteq> [])"

definition machineAnonymousAllowed :: "environ \<Rightarrow> bool" where
  "machineAnonymousAllowed env \<longleftrightarrow> ToLower (TrimSpace (Getenv env ''YGGDRASIL_ENV'')) \<in> {''dev'', ''development'', ''local'', ''test''}"

section \<open>The migration bridges\<close>

text \<open>\<open>legacyWorkflowCredential\<close> and \<open>legacyEventPublishCredential\<close> have the same fields and the same loader.\<close>

record legacy_credential =
  lc_token :: string
  lc_configured :: bool
  lc_active :: bool
  lc_expires :: time

datatype legacy_error = SettingsWithoutToken | NotEnabled | ExpiryMissing | ExpiryInvalid

definition no_legacy :: legacy_credential where
  "no_legacy = \<lparr>lc_token = [], lc_configured = False, lc_active = False, lc_expires = zeroTime\<rparr>"

definition legacy_from_env ::
  "(string \<Rightarrow> time option) \<Rightarrow> string \<Rightarrow> string \<Rightarrow> string \<Rightarrow> environ \<Rightarrow> time \<Rightarrow> legacy_error + legacy_credential" where
  "legacy_from_env rfc3339 tokenEnv enabledEnv expiryEnv env now =
     (let token = TrimSpace (Getenv env tokenEnv); enabled = ToLower (TrimSpace (Getenv env enabledEnv));
          expires = TrimSpace (Getenv env expiryEnv)
      in if token = [] then (if enabled \<noteq> [] \<or> expires \<noteq> [] then Inl SettingsWithoutToken else Inr no_legacy)
         else if enabled \<noteq> ''true'' then Inl NotEnabled
         else if expires = [] then Inl ExpiryMissing
         else (case rfc3339 expires of
             None \<Rightarrow> Inl ExpiryInvalid
           | Some t \<Rightarrow> Inr \<lparr>lc_token = token, lc_configured = True, lc_active = now < t, lc_expires = t\<rparr>))"

definition workflowTokenEnv :: string where
  "workflowTokenEnv = ''YGGDRASIL_WORKFLOW_RUN_TOKEN''"

definition legacyEventPublishTokenEnv :: string where
  "legacyEventPublishTokenEnv = ''YGGDRASIL_EVENT_PUBLISH_TOKEN''"

definition deployTokenEnv :: string where
  "deployTokenEnv = ''YGGDRASIL_DEPLOY_TOKEN''"

definition legacyWorkflowCredentialFromEnv :: "(string \<Rightarrow> time option) \<Rightarrow> environ \<Rightarrow> time \<Rightarrow> legacy_error + legacy_credential" where
  "legacyWorkflowCredentialFromEnv rfc3339 =
     legacy_from_env rfc3339 workflowTokenEnv ''YGGDRASIL_WORKFLOW_RUN_LEGACY_ENABLED'' ''YGGDRASIL_WORKFLOW_RUN_LEGACY_EXPIRES_AT''"

definition legacyEventPublishCredentialFromEnv :: "(string \<Rightarrow> time option) \<Rightarrow> environ \<Rightarrow> time \<Rightarrow> legacy_error + legacy_credential" where
  "legacyEventPublishCredentialFromEnv rfc3339 =
     legacy_from_env rfc3339 legacyEventPublishTokenEnv ''YGGDRASIL_EVENT_PUBLISH_LEGACY_ENABLED'' ''YGGDRASIL_EVENT_PUBLISH_LEGACY_EXPIRES_AT''"

section \<open>Collisions\<close>

definition plaintextMachineCredentialScopes :: "environ \<Rightarrow> (string \<times> string) list" where
  "plaintextMachineCredentialScopes env =
     map (\<lambda>name. (name, TrimSpace (Getenv env name))) [workflowTokenEnv, legacyEventPublishTokenEnv, deployTokenEnv, ''YGGDRASIL_AUTH_ADMIN_TOKEN'']"

datatype collision = WithDirectory nat nat | WithEvent nat nat | WithPlaintext nat string

definition workflowMachinePrincipalCollisions ::
  "(string \<Rightarrow> string) \<Rightarrow> environ \<Rightarrow> workflowMachinePrincipal list \<Rightarrow> eventPublisherPrincipal list \<Rightarrow> directoryMachinePrincipal list \<Rightarrow> collision list" where
  "workflowMachinePrincipalCollisions sha env ps event directory =
     concat (map (\<lambda>(i, p).
       [WithDirectory i j. (j, d) \<leftarrow> List.enumerate 0 directory, mp_digest (wmp_base p) = mp_digest (dmp_base d)] @
       [WithEvent i j. (j, e) \<leftarrow> List.enumerate 0 event, mp_digest (wmp_base p) = mp_digest (epp_base e)] @
       [WithPlaintext i name. (name, v) \<leftarrow> plaintextMachineCredentialScopes env, digestMatchesPlaintext sha (mp_digest (wmp_base p)) v])
       (List.enumerate 0 ps))"

definition directoryMachinePrincipalCollisions ::
  "(string \<Rightarrow> string) \<Rightarrow> environ \<Rightarrow> directoryMachinePrincipal list \<Rightarrow> eventPublisherPrincipal list \<Rightarrow> collision list" where
  "directoryMachinePrincipalCollisions sha env directory event =
     concat (map (\<lambda>(i, d).
       [WithEvent i j. (j, e) \<leftarrow> List.enumerate 0 event, mp_digest (dmp_base d) = mp_digest (epp_base e)] @
       [WithPlaintext i name. (name, v) \<leftarrow> plaintextMachineCredentialScopes env, digestMatchesPlaintext sha (mp_digest (dmp_base d)) v])
       (List.enumerate 0 directory))"

section \<open>The surfaces\<close>

datatype surface_error = SurfaceInventory inventory_error | SurfaceCollisions "collision list"

record workflowRunAuthConfig =
  wac_principals :: "workflowMachinePrincipal list"
  wac_err :: "surface_error option"
  wac_legacy :: legacy_credential
  wac_legacy_err :: "legacy_error option"

record auth_lib =
  al_sha :: "string \<Rightarrow> string"
  al_rfc3339 :: "string \<Rightarrow> time option"
  al_workflow :: "workflowMachinePrincipalConfig decoder"
  al_event :: "eventPublisherPrincipalConfig decoder"

definition loadWorkflowRunAuthConfig ::
  "auth_lib \<Rightarrow> environ \<Rightarrow> time \<Rightarrow> eventPublisherPrincipal list \<Rightarrow> directoryMachinePrincipal list \<Rightarrow> workflowRunAuthConfig" where
  "loadWorkflowRunAuthConfig A env now event directory =
     (let legacy = legacyWorkflowCredentialFromEnv (al_rfc3339 A) env now;
          config = \<lparr>wac_principals = [], wac_err = None,
                    wac_legacy = (case legacy of Inl e \<Rightarrow> no_legacy | Inr c \<Rightarrow> c),
                    wac_legacy_err = (case legacy of Inl e \<Rightarrow> Some e | Inr c \<Rightarrow> None)\<rparr>
      in case workflowMachinePrincipalsFromEnv (al_workflow A) env of
           Inl e \<Rightarrow> config\<lparr>wac_err := Some (SurfaceInventory e)\<rparr>
         | Inr ps \<Rightarrow>
             let issues = workflowMachinePrincipalCollisions (al_sha A) env ps event directory
             in config\<lparr>wac_principals := ps, wac_err := (if issues = [] then None else Some (SurfaceCollisions issues))\<rparr>)"

definition legacyActive :: "workflowRunAuthConfig \<Rightarrow> time \<Rightarrow> bool" where
  "legacyActive c now \<longleftrightarrow> wac_legacy_err c = None \<and> lc_configured (wac_legacy c) \<and> now < lc_expires (wac_legacy c)"

definition anonymousAllowed :: "environ \<Rightarrow> workflowRunAuthConfig \<Rightarrow> bool" where
  "anonymousAllowed env c \<longleftrightarrow>
     wac_err c = None \<and> wac_legacy_err c = None \<and> \<not> lc_configured (wac_legacy c) \<and> wac_principals c = [] \<and> machineAnonymousAllowed env"

record eventPublishAuthConfig =
  eac_principals :: "eventPublisherPrincipal list"
  eac_err :: "inventory_error option"
  eac_legacy :: legacy_credential
  eac_legacy_err :: "legacy_error option"

definition loadEventPublishAuthConfig :: "auth_lib \<Rightarrow> environ \<Rightarrow> time \<Rightarrow> eventPublishAuthConfig" where
  "loadEventPublishAuthConfig A env now =
     (case eventPublisherPrincipalsFromEnv (al_event A) env of
        Inl e \<Rightarrow> \<lparr>eac_principals = [], eac_err = Some e, eac_legacy = no_legacy, eac_legacy_err = None\<rparr>
      | Inr ps \<Rightarrow>
          (let legacy = legacyEventPublishCredentialFromEnv (al_rfc3339 A) env now in
           \<lparr>eac_principals = ps, eac_err = None,
            eac_legacy = (case legacy of Inl e \<Rightarrow> no_legacy | Inr c \<Rightarrow> c),
            eac_legacy_err = (case legacy of Inl e \<Rightarrow> Some e | Inr c \<Rightarrow> None)\<rparr>))"

definition loadedEventPublisherPrincipals :: "eventPublishAuthConfig option \<Rightarrow> eventPublisherPrincipal list" where
  "loadedEventPublisherPrincipals c = (case c of None \<Rightarrow> [] | Some e \<Rightarrow> if eac_err e \<noteq> None then [] else eac_principals e)"

section \<open>The workflow gate\<close>

record workflowRunActor =
  wra_collaborator :: string
  wra_subject :: RBACSubject
  wra_principal :: string
  wra_machine :: "workflowMachinePrincipal option"
  wra_legacy :: bool

definition no_actor :: workflowRunActor where
  "no_actor = \<lparr>wra_collaborator = [], wra_subject = \<lparr>subj_type = [], subj_id = []\<rparr>, wra_principal = [], wra_machine = None, wra_legacy = False\<rparr>"

definition workflowRunMachineCredentialPath :: "string \<Rightarrow> string \<Rightarrow> bool" where
  "workflowRunMachineCredentialPath method path \<longleftrightarrow>
     (method = ''POST'' \<and> path = ''/api/v1/workflow-runs'') \<or>
     (method = ''GET'' \<and> HasPrefix path ''/api/v1/workflow-runs/'' \<and>
      (let runID = drop (length ''/api/v1/workflow-runs/'') path in runID \<noteq> [] \<and> CHR ''/'' \<notin> set runID))"

definition legacyWorkflowRunSubject :: "environ \<Rightarrow> RBACSubject" where
  "legacyWorkflowRunSubject env =
     (let t = ToLower (TrimSpace (Getenv env ''YGGDRASIL_WORKFLOW_RUN_LEGACY_SUBJECT_TYPE''));
          i = TrimSpace (Getenv env ''YGGDRASIL_WORKFLOW_RUN_LEGACY_SUBJECT_ID'')
      in \<lparr>subj_type = (if t = [] then ''service'' else t), subj_id = (if i = [] then ''legacy-workflow-run-token'' else i)\<rparr>)"

definition workflow_candidates :: "http_request \<Rightarrow> string list" where
  "workflow_candidates r = [TrimSpace (hr_header r ''X-Yggdrasil-Workflow-Token''), bearerToken (hr_header r ''Authorization'')]"

text \<open>The first candidate that has a value.\<close>

fun first_some :: "('a \<Rightarrow> 'b option) \<Rightarrow> 'a list \<Rightarrow> 'b option" where
  "first_some f [] = None"
| "first_some f (x # xs) = (case f x of None \<Rightarrow> first_some f xs | Some y \<Rightarrow> Some y)"

text \<open>\<^term>\<open>None\<close> is \<open>errWorkflowRunUnauthorized\<close>.\<close>

definition authenticateWorkflowRunRequest ::
  "(string \<Rightarrow> string) \<Rightarrow> environ \<Rightarrow> workflowRunAuthConfig \<Rightarrow> time \<Rightarrow> http_request \<Rightarrow> workflowRunActor option" where
  "authenticateWorkflowRunRequest sha env config now r =
     (case hr_claims r of
        Some claims \<Rightarrow>
          (let c = TrimSpace (case map_of claims ''collaborator_id'' of Some (GStr s) \<Rightarrow> s | _ \<Rightarrow> [])
           in if c = [] then None else Some (no_actor\<lparr>wra_collaborator := c\<rparr>))
      | None \<Rightarrow>
          if wac_err config \<noteq> None then None
          else
            let machinePath = workflowRunMachineCredentialPath (hr_method r) (hr_path r);
                matched = (if machinePath then first_some (\<lambda>c. activeWorkflowMachinePrincipal sha c (wac_principals config) now) (workflow_candidates r)
                           else None)
            in case matched of
                 Some p \<Rightarrow> Some (no_actor\<lparr>wra_subject := \<lparr>subj_type = ''service'', subj_id = mp_id (wmp_base p)\<rparr>,
                                           wra_principal := mp_id (wmp_base p), wra_machine := Some p\<rparr>)
               | None \<Rightarrow>
                   if wac_legacy_err config \<noteq> None then None
                   else if machinePath \<and> legacyActive config now \<and>
                     list_ex (\<lambda>c. constantTimeTokenEqual sha c (lc_token (wac_legacy config))) (workflow_candidates r)
                   then Some (no_actor\<lparr>wra_subject := legacyWorkflowRunSubject env, wra_legacy := True\<rparr>)
                   else if \<not> requestPresentsStaticCredential r \<and> anonymousAllowed env config then Some no_actor
                   else None)"

definition manifestWriteAuthorized :: "(string \<Rightarrow> string) \<Rightarrow> environ \<Rightarrow> workflowRunAuthConfig \<Rightarrow> time \<Rightarrow> http_request \<Rightarrow> bool" where
  "manifestWriteAuthorized sha env config now r \<longleftrightarrow>
     hr_claims r \<noteq> None \<or> authenticateWorkflowRunRequest sha env config now r \<noteq> None"

section \<open>The event gate\<close>

record IntegrationInstanceIdentity =
  iid_namespace :: string
  iid_name :: string
  iid_manifest :: string
  iid_version :: int
  iid_provider :: string

record eventPublishActor =
  epa_machine :: "eventPublisherPrincipal option"
  epa_legacy :: bool
  epa_form :: string
  epa_instance :: "IntegrationInstanceIdentity option"

definition no_publisher :: eventPublishActor where
  "no_publisher = \<lparr>epa_machine = None, epa_legacy = False, epa_form = [], epa_instance = None\<rparr>"

definition event_candidates :: "http_request \<Rightarrow> string list" where
  "event_candidates r = [TrimSpace (hr_header r ''X-Yggdrasil-Event-Token''), bearerToken (hr_header r ''Authorization'')]"

definition authenticateEventPublishRequest ::
  "(string \<Rightarrow> string) \<Rightarrow> environ \<Rightarrow> eventPublishAuthConfig option \<Rightarrow> time \<Rightarrow> http_request \<Rightarrow> eventPublishActor option" where
  "authenticateEventPublishRequest sha env config now r =
     (if hr_method r \<noteq> ''POST'' \<or> (hr_path r \<noteq> ''/api/v1/events'' \<and> hr_path r \<noteq> ''/api/v1/events/authorization'') then None
      else if hr_claims r \<noteq> None then None
      else (case config of
          None \<Rightarrow> None
        | Some c \<Rightarrow>
            if eac_err c \<noteq> None then None
            else (case first_some (\<lambda>t. activeEventPublisherPrincipal sha t (eac_principals c) now) (event_candidates r) of
                Some p \<Rightarrow> Some (no_publisher\<lparr>epa_machine := Some p\<rparr>)
              | None \<Rightarrow>
                  if eac_legacy_err c \<noteq> None then None
                  else if lc_configured (eac_legacy c) \<and> now < lc_expires (eac_legacy c) \<and>
                    list_ex (\<lambda>t. constantTimeTokenEqual sha t (lc_token (eac_legacy c))) (event_candidates r)
                  then Some (no_publisher\<lparr>epa_legacy := True\<rparr>)
                  else if \<not> lc_configured (eac_legacy c) \<and> eac_principals c = [] \<and> \<not> requestPresentsStaticCredential r \<and> machineAnonymousAllowed env
                  then Some no_publisher
                  else None)))"

section \<open>The deploy gate\<close>

definition trim_slashes :: "string \<Rightarrow> string" where
  "trim_slashes s = rev (dropWhile (\<lambda>c. c = CHR ''/'') (rev (dropWhile (\<lambda>c. c = CHR ''/'') s)))"

definition deployCredentialPath :: "string \<Rightarrow> string \<Rightarrow> bool" where
  "deployCredentialPath method path \<longleftrightarrow>
     method = ''POST'' \<and>
     (path \<in> {''/api/v1/products/deploy-all'', ''/api/v1/bootstrap'', ''/api/v1/integrations/install'',
              ''/api/v1/console/products/deploy-all'', ''/api/v1/console/bootstrap'', ''/api/v1/console/integrations/install''} \<or>
      (case Split CHR ''/'' (trim_slashes path) of
         [a, b, c, d, e, f, g] \<Rightarrow> a = ''api'' \<and> b = ''v1'' \<and> c = ''console'' \<and> d = ''products'' \<and> g = ''deploy'' \<and> e \<noteq> [] \<and> f \<noteq> []
       | [a, b, c, d, e, f] \<Rightarrow> a = ''api'' \<and> b = ''v1'' \<and> c = ''products'' \<and> f = ''deploy'' \<and> d \<noteq> [] \<and> e \<noteq> []
       | _ \<Rightarrow> False))"

definition extractDeployToken :: "http_request \<Rightarrow> string" where
  "extractDeployToken r =
     (let auth = hr_header r ''Authorization'' in
      if HasPrefix auth ''Bearer '' then TrimSpace (drop 7 auth)
      else if hr_header r ''X-Deploy-Token'' \<noteq> [] then TrimSpace (hr_header r ''X-Deploy-Token'')
      else [])"

definition authorizeDeployRequest :: "(string \<Rightarrow> string) \<Rightarrow> environ \<Rightarrow> http_request \<Rightarrow> bool" where
  "authorizeDeployRequest sha env r =
     (if \<not> deployCredentialPath (hr_method r) (hr_path r) then False
      else if (case hr_claims r of None \<Rightarrow> False
               | Some claims \<Rightarrow> HasPrefix (hr_path r) ''/api/v1/console/'' \<and>
                   TrimSpace (case map_of claims ''collaborator_id'' of Some (GStr s) \<Rightarrow> s | _ \<Rightarrow> []) \<noteq> []) then True
      else let expected = TrimSpace (Getenv env deployTokenEnv); token = extractDeployToken r in
        if expected = [] then token = [] \<and> \<not> requestPresentsStaticCredential r \<and> machineAnonymousAllowed env
        else constantTimeTokenEqual sha token expected)"

section \<open>Facts\<close>

lemma first_some_Some: "first_some f xs = Some y \<Longrightarrow> \<exists>x\<in>set xs. f x = Some y"
  by (induction xs) (auto split: option.splits)

lemma first_some_None: "first_some f xs = None \<longleftrightarrow> (\<forall>x\<in>set xs. f x = None)"
  by (induction xs) (auto split: option.splits)

lemma in_enumerate: "x \<in> set xs \<Longrightarrow> \<exists>i. (i, x) \<in> set (List.enumerate n xs)"
  by (induction xs arbitrary: n) auto

lemma no_collision:
  assumes "workflowMachinePrincipalCollisions sha env ps event directory = []" and "p \<in> set ps"
  shows "\<And>d. d \<in> set directory \<Longrightarrow> mp_digest (wmp_base p) \<noteq> mp_digest (dmp_base d)"
    and "\<And>e. e \<in> set event \<Longrightarrow> mp_digest (wmp_base p) \<noteq> mp_digest (epp_base e)"
    and "\<And>name v. (name, v) \<in> set (plaintextMachineCredentialScopes env) \<Longrightarrow> \<not> digestMatchesPlaintext sha (mp_digest (wmp_base p)) v"
proof -
  obtain i where i: "(i, p) \<in> set (List.enumerate 0 ps)" using in_enumerate [OF assms(2)] by blast
  note none = assms(1) [unfolded workflowMachinePrincipalCollisions_def concat_eq_Nil_conv, rule_format, OF imageI [OF i, unfolded set_map [symmetric]]]
  show "mp_digest (wmp_base p) \<noteq> mp_digest (dmp_base d)" if d: "d \<in> set directory" for d
    using none in_enumerate [OF d, of 0] by fastforce
  show "mp_digest (wmp_base p) \<noteq> mp_digest (epp_base e)" if e: "e \<in> set event" for e
    using none in_enumerate [OF e, of 0] by fastforce
  show "\<not> digestMatchesPlaintext sha (mp_digest (wmp_base p)) v" if "(name, v) \<in> set (plaintextMachineCredentialScopes env)" for name v
    using none that by fastforce
qed

lemma loaded_principals:
  assumes "wac_err (loadWorkflowRunAuthConfig A env now event directory) = None"
  shows "workflowMachinePrincipalsFromEnv (al_workflow A) env = Inr (wac_principals (loadWorkflowRunAuthConfig A env now event directory)) \<and>
    workflowMachinePrincipalCollisions (al_sha A) env (wac_principals (loadWorkflowRunAuthConfig A env now event directory)) event directory = []"
  using assms by (auto simp: loadWorkflowRunAuthConfig_def Let_def split: sum.splits if_splits)

lemma from_env_entries:
  assumes "workflowMachinePrincipalsFromEnv decode env = Inr ps"
  shows "ps = [] \<or> (\<exists>cs. load_workflow_entries cs = Inr ps)"
  using assms by (auto simp: workflowMachinePrincipalsFromEnv_def load_inventory_def split: if_splits sum.splits option.splits)

lemma loaded_digests:
  assumes "wac_err (loadWorkflowRunAuthConfig A env now event directory) = None"
  shows "distinct (map (\<lambda>p. mp_digest (wmp_base p)) (wac_principals (loadWorkflowRunAuthConfig A env now event directory)))"
  using from_env_entries [OF loaded_principals [OF assms, THEN conjunct1]] workflow_inventory.load_digests by auto

lemma load_entries_Nil: "load_entries base extra build i ids hs cs = Inr [] \<longleftrightarrow> cs = []"
  by (cases cs) (auto simp: map_sum_Inr split: sum.splits option.splits)

lemma no_workflow_principals:
  "workflowMachinePrincipalsFromEnv decode env = Inr [] \<longleftrightarrow>
     TrimSpace (Getenv env legacyScopedWorkflowTokensEnv) = [] \<and> env workflowMachinePrincipalsEnv = None"
proof (cases "env workflowMachinePrincipalsEnv")
  case None
  then show ?thesis
    by (simp add: workflowMachinePrincipalsFromEnv_def set_but_blank_def load_inventory_def decodeMachinePrincipalConfig_def Getenv_def)
next
  case (Some raw)
  then show ?thesis
    by (auto simp: workflowMachinePrincipalsFromEnv_def set_but_blank_def load_inventory_def decodeMachinePrincipalConfig_def Getenv_def
        load_workflow_entries_def load_entries_Nil split: sum.splits option.splits if_splits)
qed

lemma no_legacy_iff:
  "(\<exists>c. legacy_from_env rfc t e x env now = Inr c \<and> \<not> lc_configured c) \<longleftrightarrow>
     TrimSpace (Getenv env t) = [] \<and> TrimSpace (Getenv env e) = [] \<and> TrimSpace (Getenv env x) = []"
  by (auto simp: legacy_from_env_def Let_def no_legacy_def split: option.splits)

lemma first_some_const [simp]: "first_some (\<lambda>c. None) xs = None"
  by (induction xs) auto

lemma no_actor_simps [simp]:
  "wra_machine no_actor = None" "wra_principal no_actor = []" "wra_collaborator no_actor = []" "\<not> wra_legacy no_actor"
  by (simp_all add: no_actor_def)

lemma authenticated_machine:
  assumes "authenticateWorkflowRunRequest sha env config now r = Some actor" and "wra_machine actor = Some p"
  shows "hr_claims r = None" "wac_err config = None" "workflowRunMachineCredentialPath (hr_method r) (hr_path r)"
    "first_some (\<lambda>c. activeWorkflowMachinePrincipal sha c (wac_principals config) now) (workflow_candidates r) = Some p"
    "actor = no_actor\<lparr>wra_subject := \<lparr>subj_type = ''service'', subj_id = mp_id (wmp_base p)\<rparr>, wra_principal := mp_id (wmp_base p), wra_machine := Some p\<rparr>"
proof -
  let ?found = "first_some (\<lambda>c. activeWorkflowMachinePrincipal sha c (wac_principals config) now) (workflow_candidates r)"
  let ?path = "workflowRunMachineCredentialPath (hr_method r) (hr_path r)"
  have c: "hr_claims r = None"
  proof (rule ccontr)
    assume "hr_claims r \<noteq> None"
    then have "wra_machine actor = None" using assms(1) by (auto simp: authenticateWorkflowRunRequest_def Let_def split: if_splits)
    with assms(2) show False by simp
  qed
  moreover have "wac_err config = None" using assms(1) c by (auto simp: authenticateWorkflowRunRequest_def split: if_splits)
  moreover have "?path \<and> ?found \<noteq> None"
  proof (rule ccontr)
    assume "\<not> (?path \<and> ?found \<noteq> None)"
    then have "(if ?path then ?found else None) = None" by auto
    then have "wra_machine actor = None" using assms(1) c calculation(2)
      by (auto simp: authenticateWorkflowRunRequest_def Let_def split: if_splits)
    with assms(2) show False by simp
  qed
  ultimately show "hr_claims r = None" "wac_err config = None" ?path "?found = Some p"
    "actor = no_actor\<lparr>wra_subject := \<lparr>subj_type = ''service'', subj_id = mp_id (wmp_base p)\<rparr>, wra_principal := mp_id (wmp_base p), wra_machine := Some p\<rparr>"
    using assms by (auto simp: authenticateWorkflowRunRequest_def Let_def)
qed

section \<open>Properties\<close>

text \<open>C18: A machine identity is a presented credential. A request that is authenticated as a machine principal comes
  without a session, on exactly the dispatch or the poll route, under an inventory that was accepted as a whole; the
  principal is active and not expired, its digest is that of a credential of the request, and no other principal of
  the inventory has it.\<close>
theorem machine_identity_is_credentialed:
  assumes "config = loadWorkflowRunAuthConfig A env loaded event directory"
    and "authenticateWorkflowRunRequest (al_sha A) env config now r = Some actor" and "wra_machine actor = Some p"
  shows "hr_claims r = None \<and> wac_err config = None \<and> workflowRunMachineCredentialPath (hr_method r) (hr_path r) \<and>
    p \<in> set (wac_principals config) \<and> usable now (wmp_base p) \<and> wra_principal actor = mp_id (wmp_base p) \<and>
    wra_subject actor = \<lparr>subj_type = ''service'', subj_id = mp_id (wmp_base p)\<rparr> \<and>
    (\<exists>t\<in>set (workflow_candidates r). machineCredentialMatches (al_sha A) t (mp_digest (wmp_base p)) \<and>
       (\<forall>q\<in>set (wac_principals config). machineCredentialMatches (al_sha A) t (mp_digest (wmp_base q)) \<longrightarrow> q = p))"
proof -
  let ?find = "\<lambda>c. activeWorkflowMachinePrincipal (al_sha A) c (wac_principals config) now"
  note * = authenticated_machine [OF assms(2,3)]
  from first_some_Some [OF *(4)] obtain t where t: "t \<in> set (workflow_candidates r)" "?find t = Some p" by blast
  from last_match_iff(1) [OF t(2) [unfolded activeWorkflowMachinePrincipal_def]]
  have p: "p \<in> set (wac_principals config)" "machineCredentialMatches (al_sha A) t (mp_digest (wmp_base p))" "usable now (wmp_base p)" by blast+
  have one: "q = p" if "q \<in> set (wac_principals config)" "machineCredentialMatches (al_sha A) t (mp_digest (wmp_base q))" for q
    using loaded_digests [OF *(2) [unfolded assms(1)]] that p(1,2) assms(1)
    by (auto simp: machineCredentialMatches_def distinct_map inj_on_def)
  have actor: "wra_principal actor = mp_id (wmp_base p)" "wra_subject actor = \<lparr>subj_type = ''service'', subj_id = mp_id (wmp_base p)\<rparr>"
    by (simp_all add: *(5))
  have "\<forall>q\<in>set (wac_principals config). machineCredentialMatches (al_sha A) t (mp_digest (wmp_base q)) \<longrightarrow> q = p"
    by (intro ballI impI) (rule one)
  with p(2) t(1) have
    "\<exists>t\<in>set (workflow_candidates r). machineCredentialMatches (al_sha A) t (mp_digest (wmp_base p)) \<and>
       (\<forall>q\<in>set (wac_principals config). machineCredentialMatches (al_sha A) t (mp_digest (wmp_base q)) \<longrightarrow> q = p)"
    by (intro bexI [of _ t] conjI)
  with *(1-3) p(1,3) actor show ?thesis by (intro conjI)
qed

text \<open>An inventory of one principal, and a request that presents its credential.\<close>

definition ex_machine :: machine_config where
  "ex_machine = \<lparr>mc_id = ''m1'', mc_status = ''active'', mc_expires = 900, mc_rotation = ''r1'', mc_rotated = zeroTime,
     mc_token = concat (replicate 32 ''61'')\<rparr>"

definition ex_auth_lib :: auth_lib where
  "ex_auth_lib = \<lparr>al_sha = (\<lambda>s. take 32 (s @ replicate 32 CHR ''a'')), al_rfc3339 = (\<lambda>s. None),
     al_workflow = (\<lambda>s. Some (Some [\<lparr>wpc_base = ex_machine, wpc_workflows = [\<lparr>mwr_namespace = ''ops'', mwr_name = ''sync''\<rparr>]\<rparr>], True)),
     al_event = (\<lambda>s. None)\<rparr>"

definition ex_environ :: environ where
  "ex_environ = (\<lambda>name. if name = workflowMachinePrincipalsEnv then Some ''[]'' else None)"

definition ex_http_request :: http_request where
  "ex_http_request = \<lparr>hr_claims = None, hr_method = ''POST'', hr_path = ''/api/v1/workflow-runs'',
     hr_header = (\<lambda>h. if h = ''Authorization'' then ''Bearer a'' else []), hr_query = (\<lambda>q. []), hr_session = None\<rparr>"

definition ex_principal :: workflowMachinePrincipal where
  "ex_principal = \<lparr>wmp_base = \<lparr>mp_id = ''m1'', mp_status = ''active'', mp_expires = 900, mp_rotation = ''r1'', mp_rotated = zeroTime,
     mp_digest = replicate 32 CHR ''a''\<rparr>, wmp_allowed = [\<lparr>mwr_namespace = ''ops'', mwr_name = ''sync''\<rparr>]\<rparr>"

lemma ex_loaded:
  "loadWorkflowRunAuthConfig ex_auth_lib ex_environ 0 [] [] =
     \<lparr>wac_principals = [ex_principal], wac_err = None, wac_legacy = no_legacy, wac_legacy_err = None\<rparr>"
  by code_simp

lemma ex_authenticated:
  "authenticateWorkflowRunRequest (al_sha ex_auth_lib) ex_environ
     \<lparr>wac_principals = [ex_principal], wac_err = None, wac_legacy = no_legacy, wac_legacy_err = None\<rparr> 5 ex_http_request =
     Some (no_actor\<lparr>wra_subject := \<lparr>subj_type = ''service'', subj_id = ''m1''\<rparr>, wra_principal := ''m1'', wra_machine := Some ex_principal\<rparr>)"
  by code_simp

theorem machine_identity_is_credentialed_witness:
  "workflowRunMachineCredentialPath (hr_method ex_http_request) (hr_path ex_http_request) \<and> usable 5 (wmp_base ex_principal) \<and>
   (\<exists>t\<in>set (workflow_candidates ex_http_request). machineCredentialMatches (al_sha ex_auth_lib) t (mp_digest (wmp_base ex_principal)))"
  using machine_identity_is_credentialed [OF refl, of ex_auth_lib ex_environ 0 "[]" "[]" 5 ex_http_request, unfolded ex_loaded, OF ex_authenticated,
      of ex_principal] by auto

text \<open>The anonymous posture is closed by default. A request is accepted without any identity exactly when it carries
  no session and no credential, \<open>YGGDRASIL_ENV\<close> names a development environment, the variable of the
  inventory is unset, and neither raw tokens nor any setting of the bridge are configured.\<close>
theorem anonymous_only_when_unconfigured:
  "authenticateWorkflowRunRequest sha env (loadWorkflowRunAuthConfig A env loaded event directory) now r = Some no_actor \<longleftrightarrow>
     hr_claims r = None \<and> \<not> requestPresentsStaticCredential r \<and> machineAnonymousAllowed env \<and>
     env workflowMachinePrincipalsEnv = None \<and> TrimSpace (Getenv env legacyScopedWorkflowTokensEnv) = [] \<and>
     TrimSpace (Getenv env workflowTokenEnv) = [] \<and>
     TrimSpace (Getenv env ''YGGDRASIL_WORKFLOW_RUN_LEGACY_ENABLED'') = [] \<and>
     TrimSpace (Getenv env ''YGGDRASIL_WORKFLOW_RUN_LEGACY_EXPIRES_AT'') = []"
proof -
  let ?c = "loadWorkflowRunAuthConfig A env loaded event directory"
  have "authenticateWorkflowRunRequest sha env ?c now r = Some no_actor \<longleftrightarrow>
      hr_claims r = None \<and> \<not> requestPresentsStaticCredential r \<and> anonymousAllowed env ?c"
    by (auto simp: authenticateWorkflowRunRequest_def no_actor_def Let_def anonymousAllowed_def legacyActive_def
        activeWorkflowMachinePrincipal_def last_match_def split: option.splits if_splits)
  moreover have "anonymousAllowed env ?c \<longleftrightarrow> machineAnonymousAllowed env \<and> workflowMachinePrincipalsFromEnv (al_workflow A) env = Inr [] \<and>
      (\<exists>l. legacyWorkflowCredentialFromEnv (al_rfc3339 A) env loaded = Inr l \<and> \<not> lc_configured l)"
    by (auto simp: anonymousAllowed_def loadWorkflowRunAuthConfig_def Let_def workflowMachinePrincipalCollisions_def split: sum.splits if_splits)
  ultimately show ?thesis
    by (simp add: no_workflow_principals legacyWorkflowCredentialFromEnv_def no_legacy_iff) blast
qed

text \<open>Scopes do not overlap. A credential that matches a principal of an accepted workflow inventory matches no event
  and no directory principal, and is none of the plaintext tokens of the bridges, of deployment and of
  administration.\<close>
theorem credential_scopes_disjoint:
  assumes "config = loadWorkflowRunAuthConfig A env loaded event directory" and "wac_err config = None"
    and "p \<in> set (wac_principals config)" and "machineCredentialMatches (al_sha A) t (mp_digest (wmp_base p))"
  shows "(\<forall>e\<in>set event. \<not> machineCredentialMatches (al_sha A) t (mp_digest (epp_base e))) \<and>
    (\<forall>d\<in>set directory. \<not> machineCredentialMatches (al_sha A) t (mp_digest (dmp_base d))) \<and>
    (\<forall>(name, v)\<in>set (plaintextMachineCredentialScopes env). \<not> constantTimeTokenEqual (al_sha A) t v)"
proof -
  note nc = no_collision [OF loaded_principals [OF assms(2) [unfolded assms(1)], THEN conjunct2] assms(3) [unfolded assms(1)]]
  have t: "t \<noteq> []" "al_sha A t = mp_digest (wmp_base p)" using assms(4) by (auto simp: machineCredentialMatches_def)
  have "\<not> constantTimeTokenEqual (al_sha A) t v" if v: "(name, v) \<in> set (plaintextMachineCredentialScopes env)" for name v
  proof -
    have "TrimSpace v = v" using v by (auto simp: plaintextMachineCredentialScopes_def)
    then show ?thesis using nc(3) [OF v] t
      by (auto simp: constantTimeTokenEqual_def digestMatchesPlaintext_def digestForConfiguredToken_def)
  qed
  moreover have "\<not> machineCredentialMatches (al_sha A) t (mp_digest (epp_base e))" if "e \<in> set event" for e
    using nc(2) [OF that] t by (auto simp: machineCredentialMatches_def)
  moreover have "\<not> machineCredentialMatches (al_sha A) t (mp_digest (dmp_base d))" if "d \<in> set directory" for d
    using nc(1) [OF that] t by (auto simp: machineCredentialMatches_def)
  ultimately show ?thesis by blast
qed

theorem credential_scopes_disjoint_witness:
  "ex_principal \<in> set (wac_principals (loadWorkflowRunAuthConfig ex_auth_lib ex_environ 0 [] [])) \<and>
   \<not> constantTimeTokenEqual (al_sha ex_auth_lib) ''a'' (snd (plaintextMachineCredentialScopes ex_environ ! 0))"
proof -
  have m: "machineCredentialMatches (al_sha ex_auth_lib) ''a'' (mp_digest (wmp_base ex_principal))" by code_simp
  have "plaintextMachineCredentialScopes ex_environ ! 0 \<in> set (plaintextMachineCredentialScopes ex_environ)"
    by (simp add: plaintextMachineCredentialScopes_def)
  with credential_scopes_disjoint [OF refl, of ex_auth_lib ex_environ 0 "[]" "[]" ex_principal "''a''"] m
  show ?thesis by (simp add: ex_loaded split: prod.splits) (metis prod.collapse)
qed

end
