(* ===== verification/Run_Dispatch.thy ===== *)
theory Run_Dispatch
  imports Run_Rows Manifest_Store Dispatch_Lock Workflow_Inputs Workflow_Spec Machine_Auth
begin

text \<open>
  From a request to a durable run: \<open>prepareWorkflowRun\<close> and its two persisting callers in
  \<open>controllers/message/workflows.go\<close>, the redaction of sensitive inputs in
  \<open>controllers/message/workflows_sensitive_input.go\<close>, and the asynchronous dispatch with its ownership in
  \<open>controllers/httpapi/workflow_runs.go\<close>. \<open>uuid.Parse\<close>, the decoding of a stored specification and of the
  dispatch lock, and the SHA-256 digest are arguments.
\<close>

section \<open>Preparation\<close>

record 's prep_env =
  pe_lib :: golib
  pe_triggers :: triggerlib
  pe_uuid :: "string \<Rightarrow> string option"
  pe_parse :: "'s \<Rightarrow> WorkflowManifestSpec option"
  pe_lock_decode :: "string \<Rightarrow> (config \<times> bool) option"
  pe_lock :: "string option"

datatype prepare_error =
    PrepSelector
  | PrepManifestID
  | PrepName
  | PrepNotFound
  | PrepParse
  | PrepLocked lock_refusal
  | PrepSpec workflow_error
  | PrepInputs input_error

definition resolveManifestForKind ::
  "'s prep_env \<Rightarrow> string \<Rightarrow> ManifestSelector \<Rightarrow> 's Manifest list \<Rightarrow> prepare_error + 's Manifest" where
  "resolveManifestForKind E kind selector store =
     (let found = (\<lambda>r. case r of None \<Rightarrow> Inl PrepNotFound | Some m \<Rightarrow> Inr m);
          name = TrimSpace (sel_name selector); namespace = TrimSpace (sel_namespace selector)
      in if TrimSpace (sel_manifest_id selector) \<noteq> [] then
           (case pe_uuid E (TrimSpace (sel_manifest_id selector)) of
              None \<Rightarrow> Inl PrepManifestID
            | Some i \<Rightarrow> found (GetManifestByID i store))
         else if name = [] then Inl PrepName
         else found (ResolveManifest kind (if namespace = [] then ''global'' else namespace) name (sel_version selector) True store))"

definition ResolveActiveWorkflowManifestSpec ::
  "'s prep_env \<Rightarrow> ManifestSelector \<Rightarrow> 's Manifest list \<Rightarrow> prepare_error + 's Manifest \<times> WorkflowManifestSpec" where
  "ResolveActiveWorkflowManifestSpec E selector store =
     (case resolveManifestForKind E ''workflow'' selector store of
        Inl e \<Rightarrow> Inl e
      | Inr m \<Rightarrow>
          if \<not> EqualFold (TrimSpace (mf_kind m)) ''workflow'' \<or> \<not> mf_active m then Inl PrepNotFound
          else (case pe_parse E (mf_spec m) of None \<Rightarrow> Inl PrepParse | Some spec \<Rightarrow> Inr (m, spec)))"

definition prepareWorkflowRun ::
  "'s prep_env \<Rightarrow> RunWorkflowRequest \<Rightarrow> 's Manifest list \<Rightarrow> prepare_error + 's Manifest \<times> WorkflowManifestSpec \<times> RunWorkflowRequest" where
  "prepareWorkflowRun E req0 store =
     (let req = normalizeRunWorkflowRequest req0 in
      if \<not> validateRunWorkflowRequest req then Inl PrepSelector
      else (case ResolveActiveWorkflowManifestSpec E (rq_workflow req) store of
          Inl e \<Rightarrow> Inl e
        | Inr (m, spec) \<Rightarrow>
            (case CheckEnvironment (pe_lock_decode E) (pe_lock E) (mf_ns m) (mf_name m) of
               Some e \<Rightarrow> Inl (PrepLocked e)
             | None \<Rightarrow>
                 (case ValidateWorkflowSpec (pe_lib E) (pe_triggers E) spec of
                    Some e \<Rightarrow> Inl (PrepSpec e)
                  | None \<Rightarrow>
                      let merged = MergeWorkflowInputs spec (rq_inputs req) in
                      (case ValidateWorkflowInputs (pe_lib E) spec merged of
                         Some e \<Rightarrow> Inl (PrepInputs e)
                       | None \<Rightarrow> Inr (m, spec, req\<lparr>rq_inputs := merged\<rparr>))))))"

text \<open>A copy of a value is the value.\<close>

definition sensitive_property :: "IntegrationSchemaProperty \<Rightarrow> bool" where
  "sensitive_property property \<longleftrightarrow> prop_secret property \<or> prop_sensitive property"

definition redactSensitiveWorkflowInputs :: "WorkflowManifestSpec \<Rightarrow> gmap \<Rightarrow> gmap" where
  "redactSensitiveWorkflowInputs spec inputs =
     fold (\<lambda>(name, property) redacted.
        if \<not> sensitive_property property then redacted
        else (case map_of redacted name of None \<Rightarrow> redacted | Some v \<Rightarrow> AList.update name (GStr ''[REDACTED]'') redacted))
       (in_properties (wf_input_schema spec)) inputs"

definition prepareWorkflowRunForPersistence ::
  "'s prep_env \<Rightarrow> RunWorkflowRequest \<Rightarrow> 's Manifest list \<Rightarrow> prepare_error + RunWorkflowRequest \<times> gmap" where
  "prepareWorkflowRunForPersistence E req store =
     (case prepareWorkflowRun E req store of
        Inl e \<Rightarrow> Inl e
      | Inr (m, spec, prepared) \<Rightarrow> Inr (prepared, redactSensitiveWorkflowInputs spec (rq_inputs req)))"

definition PrepareAndInsertWorkflowRun ::
  "(gval \<Rightarrow> string) \<Rightarrow> 's prep_env \<Rightarrow> string \<Rightarrow> time \<Rightarrow> RunWorkflowRequest \<Rightarrow> 's Manifest list \<Rightarrow> run_row list
     \<Rightarrow> (prepare_error + run_error) + RunWorkflowRequest \<times> run_row list" where
  "PrepareAndInsertWorkflowRun js E runID now req store rows =
     (case prepareWorkflowRunForPersistence E req store of
        Inl e \<Rightarrow> Inl (Inl e)
      | Inr (prepared, persisted) \<Rightarrow>
          (case InsertWorkflowRun js runID (rq_workflow prepared) persisted (rq_metadata prepared) now rows of
             Inl e \<Rightarrow> Inl (Inr e)
           | Inr rows' \<Rightarrow> Inr (prepared, rows')))"

definition PrepareAndInsertWorkflowRunIdempotent ::
  "(gval \<Rightarrow> string) \<Rightarrow> 's prep_env \<Rightarrow> string \<Rightarrow> time \<Rightarrow> RunWorkflowRequest \<Rightarrow> 's Manifest list \<Rightarrow> run_row list
     \<Rightarrow> (prepare_error + run_error) + RunWorkflowRequest \<times> string \<times> bool \<times> run_row list" where
  "PrepareAndInsertWorkflowRunIdempotent js E runID now req store rows =
     (case prepareWorkflowRunForPersistence E req store of
        Inl e \<Rightarrow> Inl (Inl e)
      | Inr (prepared, persisted) \<Rightarrow>
          (case InsertWorkflowRunIdempotent js runID (rq_workflow prepared) persisted (rq_metadata prepared) now rows of
             Inl e \<Rightarrow> Inl (Inr e)
           | Inr (i, deduped, rows') \<Rightarrow> Inr (prepared, i, deduped, rows')))"

section \<open>Ownership\<close>

definition scopedMachineWorkflowIdempotencyKey :: "(string \<Rightarrow> string) \<Rightarrow> string \<Rightarrow> string \<Rightarrow> string" where
  "scopedMachineWorkflowIdempotencyKey sha256hex principalID clientKey =
     (let p = TrimSpace principalID; k = TrimSpace clientKey
      in ''machine-sha256:'' @ sha256hex (Itoa (int (length p)) @ '':'' @ p @ k))"

definition bindWorkflowRunMachineActor :: "(string \<Rightarrow> string) \<Rightarrow> gmap \<Rightarrow> workflowRunActor \<Rightarrow> gmap \<times> string" where
  "bindWorkflowRunMachineActor sha metadata actor =
     (let m0 = AList.delete bridgeKey (AList.delete creatorKey metadata);
          m1 = (if wra_legacy actor then AList.update bridgeKey (GStr ''true'') m0 else m0)
      in if wra_principal actor = [] then (m1, [])
         else let m2 = AList.update creatorKey (GStr (wra_principal actor)) m1 in
           (case map_of m2 ''idempotency_key'' of
              Some (GStr key) \<Rightarrow>
                if TrimSpace key \<noteq> []
                then (AList.update ''idempotency_key'' (GStr (scopedMachineWorkflowIdempotencyKey sha (wra_principal actor) key)) m2, key)
                else (m2, [])
            | _ \<Rightarrow> (m2, [])))"

section \<open>Asynchronous dispatch\<close>

datatype dispatch_response =
    BrokerUnavailable
  | DispatchConflict
  | DispatchError "prepare_error + run_error"
  | RunNotFound
  | Deduped string
  | OwnerClosed
  | Accepted string

text \<open>The second component is the run that a goroutine executes, with the request it executes it for.\<close>

definition dispatchAsyncWorkflowRun ::
  "(gval \<Rightarrow> string) \<Rightarrow> (string \<Rightarrow> string) \<Rightarrow> 's prep_env \<Rightarrow> bool \<Rightarrow> bool \<Rightarrow> string \<Rightarrow> time \<Rightarrow> RunWorkflowRequest \<Rightarrow> workflowRunActor
     \<Rightarrow> 's Manifest list \<Rightarrow> run_row list \<Rightarrow> dispatch_response \<times> (string \<times> RunWorkflowRequest) option \<times> run_row list" where
  "dispatchAsyncWorkflowRun js sha E broker owner_open newID now req actor store rows =
     (if \<not> broker then (BrokerUnavailable, None, rows)
      else (case bindWorkflowRunMachineActor sha (rq_metadata req) actor of (metadata, originalKey) \<Rightarrow>
        (case PrepareAndInsertWorkflowRunIdempotent js E newID now (req\<lparr>rq_metadata := metadata\<rparr>) store rows of
           Inl (Inr (RunIdempotencyConflict k ns n)) \<Rightarrow> (DispatchConflict, None, rows)
         | Inl e \<Rightarrow> (DispatchError e, None, rows)
         | Inr (prepared, runID, deduped, rows') \<Rightarrow>
             let run = (if originalKey \<noteq> []
                        then prepared\<lparr>rq_metadata := AList.update ''idempotency_key'' (GStr originalKey) (rq_metadata prepared)\<rparr>
                        else prepared)
             in if deduped then
                  (if wra_principal actor \<noteq> [] \<and> \<not> WorkflowRunOwnedByMachinePrincipal js runID (wra_principal actor) rows'
                   then (RunNotFound, None, rows') else (Deduped runID, None, rows'))
                else if \<not> owner_open then (OwnerClosed, None, rows')
                else (Accepted runID, Some (runID, run), rows'))))"

text \<open>
  The goroutine: \<open>outcome\<close> is what \<open>RunWorkflow\<close> gives, \<^term>\<open>None\<close> when it panics. The boolean says whether the
  completion event is emitted.
\<close>

definition async_worker ::
  "string \<Rightarrow> (string + RunWorkflowResponse) option \<Rightarrow> time \<Rightarrow> time \<Rightarrow> run_row list \<Rightarrow> bool \<times> run_row list" where
  "async_worker runID outcome startedAt finishedAt rows =
     (let running = MarkWorkflowRunRunning runID startedAt startedAt rows in
      case outcome of
        None \<Rightarrow> (False, FinalizeWorkflowRun runID ''failed'' None ''asynchronous workflow execution panicked'' finishedAt finishedAt running)
      | Some out \<Rightarrow> (case run_columns out of (status, result, errMsg) \<Rightarrow>
          (case out of Inl _ \<Rightarrow> False | Inr _ \<Rightarrow> True, FinalizeWorkflowRun runID status result errMsg finishedAt finishedAt running)))"

text \<open>\<open>handleWorkflowRunGet\<close> after authentication; \<^term>\<open>Inl True\<close> is a malformed id, \<^term>\<open>Inl False\<close> an unknown run.\<close>

definition handleWorkflowRunGet ::
  "(gval \<Rightarrow> string) \<Rightarrow> (string \<Rightarrow> string option) \<Rightarrow> workflowRunActor \<Rightarrow> string \<Rightarrow> run_row list \<Rightarrow> bool + run_row" where
  "handleWorkflowRunGet js uuid actor idStr rows =
     (case uuid (TrimSpace idStr) of
        None \<Rightarrow> Inl True
      | Some i \<Rightarrow>
          (case (if wra_principal actor \<noteq> [] then GetWorkflowRunForMachinePrincipal js i (wra_principal actor) rows
                 else GetWorkflowRun i rows) of
             None \<Rightarrow> Inl False
           | Some r \<Rightarrow> Inr r))"

section \<open>Facts\<close>

lemma keys_differ [simp]:
  "creatorKey \<noteq> bridgeKey" "bridgeKey \<noteq> creatorKey"
  "creatorKey \<noteq> ''idempotency_key''" "''idempotency_key'' \<noteq> creatorKey"
  "bridgeKey \<noteq> ''idempotency_key''" "''idempotency_key'' \<noteq> bridgeKey"
  by (simp_all add: creatorKey_def bridgeKey_def)

lemma bind_reserved:
  assumes "bindWorkflowRunMachineActor sha metadata actor = (m, original)"
  shows "map_of m creatorKey = (if wra_principal actor = [] then None else Some (GStr (wra_principal actor)))"
    and "map_of m bridgeKey = (if wra_legacy actor then Some (GStr ''true'') else None)"
  using assms
  by (auto simp: bindWorkflowRunMachineActor_def Let_def update_conv' delete_conv' split: if_splits option.splits gval.splits)

lemma prepared_request:
  assumes "prepareWorkflowRun E req store = Inr (m, spec, prepared)"
  shows "rq_metadata prepared = rq_metadata req \<and> rq_workflow prepared = rq_workflow req \<and>
    rq_inputs prepared = MergeWorkflowInputs spec (rq_inputs req)"
  using assms
  by (auto simp: prepareWorkflowRun_def normalizeRunWorkflowRequest_def Let_def split: if_splits sum.splits option.splits)

lemma redacted_lookup:
  "map_of (fold (\<lambda>(name, property) redacted.
        if \<not> sensitive_property property then redacted
        else (case map_of redacted name of None \<Rightarrow> redacted | Some v \<Rightarrow> AList.update name (GStr ''[REDACTED]'') redacted)) ps inputs) k =
   (if (\<exists>p. (k, p) \<in> set ps \<and> sensitive_property p) \<and> map_of inputs k \<noteq> None then Some (GStr ''[REDACTED]'') else map_of inputs k)"
proof (induction ps arbitrary: inputs)
  case (Cons np ps)
  obtain n p where np: "np = (n, p)" by (cases np)
  show ?case
  proof (cases "sensitive_property p \<and> map_of inputs n \<noteq> None")
    case True
    then obtain v where v: "map_of inputs n = Some v" by blast
    show ?thesis
    proof (cases "k = n")
      case k: True
      then show ?thesis using np True v Cons.IH [of "AList.update n (GStr ''[REDACTED]'') inputs"] by (auto simp: update_conv')
    next
      case k: False
      then have "map_of (AList.update n (GStr ''[REDACTED]'') inputs) k = map_of inputs k" by (simp add: update_conv')
      then show ?thesis using np True v k Cons.IH [of "AList.update n (GStr ''[REDACTED]'') inputs"] by (auto split: if_splits)
    qed
  next
    case False
    then show ?thesis using np Cons.IH [of inputs] by (auto split: option.splits)
  qed
qed simp

lemma accepted_row:
  assumes "dispatchAsyncWorkflowRun js sha E broker owner_open newID now req actor store rows = (Accepted i, go, rows')"
  obtains m original workflow spec prepared where
    "bindWorkflowRunMachineActor sha (rq_metadata req) actor = (m, original)"
    "prepareWorkflowRun E (req\<lparr>rq_metadata := m\<rparr>) store = Inr (workflow, spec, prepared)"
    "rows' = rows @ [new_run i (rq_workflow req) (redactSensitiveWorkflowInputs spec (rq_inputs req)) m now]"
    "i \<notin> wr_id ` set rows"
proof -
  obtain m original where b: "bindWorkflowRunMachineActor sha (rq_metadata req) actor = (m, original)"
    by (cases "bindWorkflowRunMachineActor sha (rq_metadata req) actor")
  from assms b obtain prepared where
    ins: "PrepareAndInsertWorkflowRunIdempotent js E newID now (req\<lparr>rq_metadata := m\<rparr>) store rows = Inr (prepared, i, False, rows')"
    by (auto simp: dispatchAsyncWorkflowRun_def Let_def split: if_splits sum.splits prod.splits run_error.splits)
  then obtain workflow spec where
    p: "prepareWorkflowRun E (req\<lparr>rq_metadata := m\<rparr>) store = Inr (workflow, spec, prepared)" and
    i: "InsertWorkflowRunIdempotent js newID (rq_workflow prepared) (redactSensitiveWorkflowInputs spec (rq_inputs req)) (rq_metadata prepared) now rows
       = Inr (i, False, rows')"
    by (auto simp: PrepareAndInsertWorkflowRunIdempotent_def prepareWorkflowRunForPersistence_def split: sum.splits)
  from i show thesis
    by (cases rule: Insert_cases) (use prepared_request [OF p] b p that in simp_all)
qed

lemma GetWorkflowRun_last: "i \<notin> wr_id ` set rows \<Longrightarrow> wr_id r = i \<Longrightarrow> GetWorkflowRun i (rows @ [r]) = Some r"
  unfolding GetWorkflowRun_def by (induction rows) auto

lemma find_owned_last:
  "i \<notin> wr_id ` set rows \<Longrightarrow> wr_id r = i \<Longrightarrow>
   GetWorkflowRunForMachinePrincipal js i p (rows @ [r]) = (if owned_by js p r then Some r else None)"
  unfolding GetWorkflowRunForMachinePrincipal_def by (induction rows) auto

lemma prefix_digits: "takeWhile is_digit (Itoa (int n) @ '':'' @ s) = nat_digits n"
proof -
  have "\<forall>c\<in>set (nat_digits n). is_digit c" using nat_digits_val [of n] by (simp add: list_all_iff)
  moreover have "\<not> is_digit CHR '':''" by code_simp
  ultimately show ?thesis by (simp add: Itoa_def takeWhile_append2)
qed

text \<open>A workflow with a secret input, and a machine that dispatches it.\<close>

definition ex_secret_property :: IntegrationSchemaProperty where
  "ex_secret_property = \<lparr>prop_type = ''string'', prop_description = [], prop_secret = True, prop_enum = [], prop_default = GNil,
     prop_min_length = None, prop_sensitive = False, prop_pattern = [], prop_max_length = None\<rparr>"

definition ex_secret_spec :: WorkflowManifestSpec where
  "ex_secret_spec = ex_workflow\<lparr>wf_input_schema := \<lparr>in_required = [], in_properties = [(''token'', ex_secret_property)], in_additional = None\<rparr>\<rparr>"

definition ex_stored :: "WorkflowManifestSpec Manifest" where
  "ex_stored = \<lparr>mf_id = ''w'', mf_api = ''v1'', mf_kind = ''workflow'', mf_ns = ''global'', mf_name = ''deploy'', mf_version = 1, mf_active = True,
     mf_description = [], mf_labels = [], mf_spec = ex_secret_spec, mf_checksum = [], mf_created = 1, mf_updated = 1\<rparr>"

definition ex_prep :: "WorkflowManifestSpec prep_env" where
  "ex_prep = \<lparr>pe_lib = ex_golib, pe_triggers = ex_triggerlib, pe_uuid = (\<lambda>s. Some s), pe_parse = (\<lambda>s. Some s),
     pe_lock_decode = (\<lambda>_. None), pe_lock = None\<rparr>"

definition ex_run_request :: RunWorkflowRequest where
  "ex_run_request = \<lparr>rq_workflow = ex_selector, rq_inputs = [(''token'', GStr ''s3cret''), (''image'', GStr ''app'')], rq_token = [],
     rq_metadata = [(creatorKey, GStr ''other''), (''idempotency_key'', GStr ''k'')]\<rparr>"

definition ex_accepted :: "dispatch_response \<times> (string \<times> RunWorkflowRequest) option \<times> run_row list" where
  "ex_accepted = dispatchAsyncWorkflowRun (\<lambda>_. []) (\<lambda>s. s) ex_prep True True ''r1'' 5 ex_run_request
     (no_actor\<lparr>wra_principal := ''m1''\<rparr>) [ex_stored] []"

lemma ex_accepted: "fst ex_accepted = Accepted ''r1''"
  "map_of (wr_inputs (hd (snd (snd ex_accepted)))) ''image'' = Some (GStr ''app'')"
  by code_simp+

lemma ex_accepted_run: "dispatchAsyncWorkflowRun (\<lambda>_. []) (\<lambda>s. s) ex_prep True True ''r1'' 5 ex_run_request
     (no_actor\<lparr>wra_principal := ''m1''\<rparr>) [ex_stored] [] = (Accepted ''r1'', fst (snd ex_accepted), snd (snd ex_accepted))"
  unfolding ex_accepted_def [symmetric] by (simp add: prod_eq_iff ex_accepted(1))

section \<open>Properties\<close>

text \<open>A run is private to the machine that started it. Whatever the client puts into the metadata, an accepted run
  can be read by a machine principal exactly when that principal is the authenticated one that dispatched it.\<close>
theorem machine_run_private:
  assumes "dispatchAsyncWorkflowRun js sha E broker owner_open newID now req actor store rows = (Accepted i, go, rows')"
    and "uuid (TrimSpace idStr) = Some i" and "wra_principal reader \<noteq> []"
  shows "(\<exists>r. handleWorkflowRunGet js uuid reader idStr rows' = Inr r) \<longleftrightarrow> TrimSpace (wra_principal reader) = wra_principal actor \<and> wra_principal actor \<noteq> []"
  using assms(1)
proof (rule accepted_row)
  fix m original workflow spec prepared
  let ?inputs = "redactSensitiveWorkflowInputs spec (rq_inputs req)"
  assume b: "bindWorkflowRunMachineActor sha (rq_metadata req) actor = (m, original)"
    and rows': "rows' = rows @ [new_run i (rq_workflow req) ?inputs m now]" "i \<notin> wr_id ` set rows"
  have "owned_by js p (new_run i (rq_workflow req) ?inputs m now) \<longleftrightarrow> TrimSpace p = wra_principal actor \<and> wra_principal actor \<noteq> []" for p
    using bind_reserved(1) [OF b] by (auto simp: owned_by_def json_text_def new_run_def)
  then show ?thesis using assms(2,3) rows' by (simp add: handleWorkflowRunGet_def find_owned_last new_run_def)
qed

theorem machine_run_private_witness:
  "(\<exists>r. handleWorkflowRunGet (\<lambda>_. []) (\<lambda>s. Some s) (no_actor\<lparr>wra_principal := ''m1''\<rparr>) ''r1'' (snd (snd ex_accepted)) = Inr r) \<and>
   \<not> (\<exists>r. handleWorkflowRunGet (\<lambda>_. []) (\<lambda>s. Some s) (no_actor\<lparr>wra_principal := ''other''\<rparr>) ''r1'' (snd (snd ex_accepted)) = Inr r)"
proof -
  have t: "TrimSpace ''r1'' = ''r1''" "TrimSpace ''m1'' = ''m1''" "TrimSpace ''other'' = ''other''" by code_simp+
  show ?thesis using machine_run_private [OF ex_accepted_run] t by simp
qed

text \<open>Sensitive inputs never reach the table. The durable row of an accepted run holds \<open>[REDACTED]\<close> for every
  given input whose declaration is secret or sensitive and the given value for every other one.\<close>
theorem stored_inputs_are_redacted:
  assumes "dispatchAsyncWorkflowRun js sha E broker owner_open newID now req actor store rows = (Accepted i, go, rows')"
  shows "\<exists>r m spec. GetWorkflowRun i rows' = Some r \<and> ResolveActiveWorkflowManifestSpec E (rq_workflow req) store = Inr (m, spec) \<and>
    (\<forall>name. map_of (wr_inputs r) name =
       (if (\<exists>p. (name, p) \<in> set (in_properties (wf_input_schema spec)) \<and> sensitive_property p) \<and> map_of (rq_inputs req) name \<noteq> None
        then Some (GStr ''[REDACTED]'') else map_of (rq_inputs req) name))"
  using assms
proof (rule accepted_row)
  fix m original workflow spec prepared
  assume p: "prepareWorkflowRun E (req\<lparr>rq_metadata := m\<rparr>) store = Inr (workflow, spec, prepared)"
    and rows': "rows' = rows @ [new_run i (rq_workflow req) (redactSensitiveWorkflowInputs spec (rq_inputs req)) m now]" "i \<notin> wr_id ` set rows"
  have "GetWorkflowRun i rows' = Some (new_run i (rq_workflow req) (redactSensitiveWorkflowInputs spec (rq_inputs req)) m now)"
    using rows' by (simp add: GetWorkflowRun_last new_run_def)
  moreover have "ResolveActiveWorkflowManifestSpec E (rq_workflow req) store = Inr (workflow, spec)"
    using p by (auto simp: prepareWorkflowRun_def normalizeRunWorkflowRequest_def Let_def split: if_splits sum.splits option.splits)
  ultimately show ?thesis by (simp add: new_run_def redactSensitiveWorkflowInputs_def redacted_lookup)
qed

theorem stored_inputs_are_redacted_witness:
  "\<exists>r. GetWorkflowRun ''r1'' (snd (snd ex_accepted)) = Some r \<and> map_of (wr_inputs r) ''token'' = Some (GStr ''[REDACTED]'') \<and>
     map_of (wr_inputs r) ''image'' = Some (GStr ''app'')"
proof -
  have s: "ResolveActiveWorkflowManifestSpec ex_prep (rq_workflow ex_run_request) [ex_stored] = Inr (ex_stored, ex_secret_spec)" by code_simp
  from stored_inputs_are_redacted [OF ex_accepted_run] obtain r where
    "GetWorkflowRun ''r1'' (snd (snd ex_accepted)) = Some r" and
    r: "map_of (wr_inputs r) name = (if (\<exists>p. (name, p) \<in> set (in_properties (wf_input_schema ex_secret_spec)) \<and> sensitive_property p) \<and>
       map_of (rq_inputs ex_run_request) name \<noteq> None then Some (GStr ''[REDACTED]'') else map_of (rq_inputs ex_run_request) name)" for name
    by (auto simp: s)
  then show ?thesis using r [of "''token''"] r [of "''image''"]
    by (simp add: ex_secret_spec_def ex_run_request_def sensitive_property_def ex_secret_property_def)
qed

text \<open>The keys of two machines never meet: if the scoped keys agree, then principal and key agree up to
  surrounding blanks, or the digest has a collision.\<close>
theorem scoped_keys_separate_machines:
  assumes "scopedMachineWorkflowIdempotencyKey sha p k = scopedMachineWorkflowIdempotencyKey sha p' k'"
  shows "(TrimSpace p = TrimSpace p' \<and> TrimSpace k = TrimSpace k') \<or> (\<exists>x y. x \<noteq> y \<and> sha x = sha y)"
proof (cases "\<exists>x y. x \<noteq> y \<and> sha x = sha y")
  case False
  let ?enc = "\<lambda>p k. Itoa (int (length (TrimSpace p))) @ '':'' @ TrimSpace p @ TrimSpace k"
  from assms False have e: "?enc p k = ?enc p' k'" by (auto simp: scopedMachineWorkflowIdempotencyKey_def Let_def)
  from arg_cong [OF e, of "takeWhile is_digit"] have "length (TrimSpace p) = length (TrimSpace p')"
    by (simp only: prefix_digits) (drule arg_cong [of _ _ "digits_val 0"], simp add: nat_digits_val)
  with e show ?thesis by (simp add: Itoa_def)
qed simp

theorem scoped_keys_separate_machines_witness:
  "scopedMachineWorkflowIdempotencyKey (\<lambda>s. s) ''m1 '' ''k'' = scopedMachineWorkflowIdempotencyKey (\<lambda>s. s) ''m1'' '' k'' \<and>
   TrimSpace ''m1 '' = TrimSpace ''m1'' \<and> TrimSpace ''k'' = TrimSpace '' k''"
proof -
  have e: "scopedMachineWorkflowIdempotencyKey (\<lambda>s. s) ''m1 '' ''k'' = scopedMachineWorkflowIdempotencyKey (\<lambda>s. s) ''m1'' '' k''" by code_simp
  with scoped_keys_separate_machines [OF e] show ?thesis by blast
qed

end
