(* ===== verification/Identity.thy ===== *)
theory Identity
  imports Go_Time Go_Value Rbac
begin

text \<open>
  Teams, memberships and team grants of \<open>repository/identity.go\<close>: creation, update and deletion of a team with the
  protection of root-admin teams, the leadership that an owner assertion materialises, membership upserts, grants
  with the check that keeps the last management grant, and the expansion of a collaborator into authorization
  subjects through the parents of its teams. The tables are lists; foreign keys act as the migrations declare them
  (memberships and grants of a deleted team go with it, a child loses its parent). An id is the canonical text of a
  UUID; \<open>uuid.Parse\<close> (to canonical text), the JSON encoder and the ids that the database draws are arguments.
  Names and slugs are ordered bytewise.
\<close>

section \<open>Tables\<close>

record Collaborator =
  co_id :: string
  co_slug :: string
  co_status :: string
  co_display_name :: string
  co_email :: string
  co_manager :: "string option"
  co_primary_team :: "string option"
  co_personal :: gmap
  co_employment :: gmap
  co_third_party :: gmap
  co_traits :: gmap
  co_metadata :: gmap
  co_version :: int
  co_created :: time
  co_updated :: time

record Team =
  team_id :: string
  team_slug :: string
  team_name :: string
  team_type :: string
  team_status :: string
  team_email :: string
  team_parent :: "string option"
  team_owners :: "string list"
  team_traits :: gmap
  team_metadata :: gmap
  team_created :: time
  team_updated :: time

record TeamMembership =
  mb_id :: string
  mb_team :: string
  mb_collaborator :: string
  mb_role :: string
  mb_active :: bool
  mb_source :: string
  mb_starts :: "time option"
  mb_ends :: "time option"
  mb_metadata :: gmap
  mb_created :: time
  mb_updated :: time
  mb_lead :: bool

record TeamGrant =
  tg_id :: string
  tg_team :: string
  tg_ns :: string
  tg_name :: string
  tg_action :: string
  tg_scope :: gmap
  tg_granted :: time
  tg_by :: "string option"

record identity_db =
  db_people :: "Collaborator list"
  db_teams :: "Team list"
  db_members :: "TeamMembership list"
  db_grants :: "TeamGrant list"

datatype identity_error =
    TeamNotFound
  | CollaboratorNotFound
  | LeadershipAssertionRequired
  | LeadershipVersionConflict
  | RootAdminLeadership
  | TeamSlugRequired
  | TeamNameRequired
  | TeamEmailInvalid
  | TeamSlugTaken
  | TeamProtected string
  | TeamOwnParent
  | GrantTargetRequired
  | GrantsFrozen
  | GrantorInvalid
  | GrantorUnknown
  | GrantIDInvalid
  | GrantNotFound
  | LastManagementGrant
  | LookupFailed

section \<open>Normalisation\<close>

definition normalizeSlug :: "string \<Rightarrow> string" where
  "normalizeSlug v = ToLower (TrimSpace v)"

definition or_default :: "string \<Rightarrow> string \<Rightarrow> string" where
  "or_default d v = (let v' = ToLower (TrimSpace v) in if v' = [] then d else v')"

definition normalizeStatus :: "string \<Rightarrow> string" where
  "normalizeStatus = or_default ''active''"

definition normalizeTeamType :: "string \<Rightarrow> string" where
  "normalizeTeamType = or_default ''team''"

definition normalizeMembershipRole :: "string \<Rightarrow> string" where
  "normalizeMembershipRole = or_default ''member''"

definition normalizeMembershipSource :: "string \<Rightarrow> string" where
  "normalizeMembershipSource = or_default ''manual''"

definition normalizeStringList :: "string list \<Rightarrow> string list" where
  "normalizeStringList vs =
     rev (fold (\<lambda>v acc. let v' = TrimSpace v in if v' = [] \<or> v' \<in> set acc then acc else v' # acc) vs [])"

definition normalizeTeamEmail :: "string \<Rightarrow> identity_error + string" where
  "normalizeTeamEmail raw =
     (let v = ToLower (TrimSpace raw); n = length (takeWhile (\<lambda>c. c \<noteq> CHR ''@'') v) in
      if v = [] then Inr []
      else if n = length v \<or> n = 0 \<or> n = length v - 1 then Inl TeamEmailInvalid
      else let domain = drop (n + 1) v in
        if CHR ''@'' \<in> set domain \<or> CHR ''.'' \<notin> set domain \<or> ContainsAny v [CHR '' '', CHR 0x09, CHR 0x0A, CHR 0x0D]
        then Inl TeamEmailInvalid else Inr v)"

definition sameJSONObject :: "(gval \<Rightarrow> string) \<Rightarrow> gmap \<Rightarrow> gmap \<Rightarrow> bool" where
  "sameJSONObject js a b \<longleftrightarrow> js (GMap a) = js (GMap b)"

section \<open>Look-ups\<close>

definition nil_uuid :: string where
  "nil_uuid = ''00000000-0000-0000-0000-000000000000''"

text \<open>The condition of \<open>collaboratorLookupQuery\<close> and \<open>teamLookupQuery\<close> with its argument.\<close>

definition identity_matches :: "(string \<Rightarrow> string option) \<Rightarrow> string \<Rightarrow> string \<Rightarrow> string \<Rightarrow> bool" where
  "identity_matches uuid identity i slug =
     (case uuid (TrimSpace identity) of
        Some parsed \<Rightarrow> if parsed \<noteq> nil_uuid then i = parsed else slug = normalizeSlug identity
      | None \<Rightarrow> slug = normalizeSlug identity)"

definition getCollaboratorOn :: "(string \<Rightarrow> string option) \<Rightarrow> identity_db \<Rightarrow> string \<Rightarrow> identity_error + Collaborator" where
  "getCollaboratorOn uuid db identity =
     (case find (\<lambda>c. identity_matches uuid identity (co_id c) (co_slug c)) (db_people db) of
        None \<Rightarrow> Inl CollaboratorNotFound | Some c \<Rightarrow> Inr c)"

definition getTeamOn :: "(string \<Rightarrow> string option) \<Rightarrow> identity_db \<Rightarrow> string \<Rightarrow> identity_error + Team" where
  "getTeamOn uuid db identity =
     (case find (\<lambda>t. identity_matches uuid identity (team_id t) (team_slug t)) (db_teams db) of
        None \<Rightarrow> Inl TeamNotFound | Some t \<Rightarrow> Inr t)"

definition resolveOptionalTeamIDOn :: "(string \<Rightarrow> string option) \<Rightarrow> identity_db \<Rightarrow> string \<Rightarrow> identity_error + string option" where
  "resolveOptionalTeamIDOn uuid db identity =
     (if TrimSpace identity = [] then Inr None else map_sum id (\<lambda>t. Some (team_id t)) (getTeamOn uuid db identity))"

section \<open>Leadership\<close>

fun owner_ids :: "(string \<Rightarrow> string option) \<Rightarrow> identity_db \<Rightarrow> string list \<Rightarrow> string list \<Rightarrow> identity_error + string list" where
  "owner_ids uuid db ids [] = Inr (sort ids)"
| "owner_ids uuid db ids (owner # owners) =
     (if TrimSpace owner = [] then owner_ids uuid db ids owners
      else (case getCollaboratorOn uuid db owner of
          Inl e \<Rightarrow> Inl e
        | Inr c \<Rightarrow> owner_ids uuid db (if co_id c \<in> set ids then ids else ids @ [co_id c]) owners))"

definition revoke_leads :: "time \<Rightarrow> string \<Rightarrow> string list \<Rightarrow> TeamMembership list \<Rightarrow> TeamMembership list" where
  "revoke_leads now team ids =
     map (\<lambda>m. if mb_team m = team \<and> mb_collaborator m \<notin> set ids \<and> (mb_lead m \<or> (mb_source m = ''owner-sync'' \<and> mb_active m))
              then m\<lparr>mb_lead := False, mb_active := (if mb_source m = ''owner-sync'' then False else mb_active m), mb_updated := now\<rparr>
              else m)"

definition assert_lead :: "(string \<Rightarrow> string) \<Rightarrow> time \<Rightarrow> string \<Rightarrow> string \<Rightarrow> TeamMembership list \<Rightarrow> TeamMembership list" where
  "assert_lead newID now team c ms =
     (if list_ex (\<lambda>m. mb_team m = team \<and> mb_collaborator m = c) ms
      then map (\<lambda>m. if mb_team m = team \<and> mb_collaborator m = c
                    then m\<lparr>mb_active := (if mb_lead m then mb_active m else True), mb_lead := True, mb_updated := now\<rparr> else m) ms
      else ms @ [\<lparr>mb_id = newID c, mb_team = team, mb_collaborator = c, mb_role = ''lead'', mb_active = True, mb_source = ''owner-sync'',
                  mb_starts = None, mb_ends = None, mb_metadata = [], mb_created = now, mb_updated = now, mb_lead = True\<rparr>])"

definition ensureOwnerMemberships ::
  "(string \<Rightarrow> string option) \<Rightarrow> (string \<Rightarrow> string) \<Rightarrow> time \<Rightarrow> identity_db \<Rightarrow> string \<Rightarrow> string list \<Rightarrow> identity_error + identity_db" where
  "ensureOwnerMemberships uuid newID now db team owners =
     (case owner_ids uuid db [] owners of
        Inl e \<Rightarrow> Inl e
      | Inr ids \<Rightarrow> Inr (db\<lparr>db_members := fold (assert_lead newID now team) ids (revoke_leads now team ids (db_members db))\<rparr>))"

section \<open>Teams\<close>

definition root_trait :: "gmap \<Rightarrow> bool" where
  "root_trait traits \<longleftrightarrow> map_of traits ''is_root_admin'' = Some (GBool True)"

definition isTeamRootAdmin :: "Team \<Rightarrow> bool" where
  "isTeamRootAdmin t \<longleftrightarrow> root_trait (team_traits t)"

record CreateTeamRequest =
  ct_assert :: bool
  ct_slug :: string
  ct_name :: string
  ct_type :: string
  ct_status :: string
  ct_email :: string
  ct_parent :: string
  ct_owners :: "string list"
  ct_traits :: gmap
  ct_metadata :: gmap

definition createTeamOn ::
  "(string \<Rightarrow> string option) \<Rightarrow> (string \<Rightarrow> string) \<Rightarrow> time \<Rightarrow> string \<Rightarrow> identity_db \<Rightarrow> CreateTeamRequest \<Rightarrow> identity_error + Team \<times> identity_db" where
  "createTeamOn uuid newID now teamID db req =
     (let owners = normalizeStringList (ct_owners req); slug = normalizeSlug (ct_slug req); name = TrimSpace (ct_name req) in
      if owners \<noteq> [] \<and> \<not> ct_assert req then Inl LeadershipAssertionRequired
      else if root_trait (ct_traits req) \<and> owners \<noteq> [] then Inl RootAdminLeadership
      else if slug = [] then Inl TeamSlugRequired
      else if name = [] then Inl TeamNameRequired
      else (case normalizeTeamEmail (ct_email req) of
          Inl e \<Rightarrow> Inl e
        | Inr email \<Rightarrow>
            (case resolveOptionalTeamIDOn uuid db (ct_parent req) of
               Inl e \<Rightarrow> Inl e
             | Inr parent \<Rightarrow>
                 if list_ex (\<lambda>t. team_slug t = slug) (db_teams db) then Inl TeamSlugTaken
                 else let team = \<lparr>team_id = teamID, team_slug = slug, team_name = name, team_type = normalizeTeamType (ct_type req),
                                  team_status = normalizeStatus (ct_status req), team_email = email, team_parent = parent,
                                  team_owners = owners, team_traits = ct_traits req, team_metadata = ct_metadata req,
                                  team_created = now, team_updated = now\<rparr>
                   in map_sum id (\<lambda>db'. (team, db'))
                        (ensureOwnerMemberships uuid newID now (db\<lparr>db_teams := db_teams db @ [team]\<rparr>) teamID owners))))"

record UpdateTeamRequest =
  ut_assert :: bool
  ut_expected :: "time option"
  ut_id :: string
  ut_slug :: "string option"
  ut_name :: "string option"
  ut_type :: "string option"
  ut_status :: "string option"
  ut_email :: "string option"
  ut_parent :: "string option"
  ut_owners :: "string list option"
  ut_traits :: "gmap option"
  ut_metadata :: "gmap option"

definition given :: "'a option \<Rightarrow> 'b \<Rightarrow> ('a \<Rightarrow> 'b) \<Rightarrow> 'b" where
  "given v d f = (case v of None \<Rightarrow> d | Some x \<Rightarrow> f x)"

text \<open>The row after the patch; a parent or an address that does not resolve is an error of \<open>update_error\<close> below.\<close>

definition patched_team :: "(string \<Rightarrow> string option) \<Rightarrow> identity_db \<Rightarrow> time \<Rightarrow> Team \<Rightarrow> UpdateTeamRequest \<Rightarrow> Team" where
  "patched_team uuid db now current req =
     current\<lparr>team_slug := given (ut_slug req) (team_slug current) normalizeSlug,
             team_name := given (ut_name req) (team_name current) TrimSpace,
             team_type := given (ut_type req) (team_type current) normalizeTeamType,
             team_status := given (ut_status req) (team_status current) normalizeStatus,
             team_email := given (ut_email req) (team_email current) (\<lambda>e. case normalizeTeamEmail e of Inl _ \<Rightarrow> [] | Inr v \<Rightarrow> v),
             team_parent := given (ut_parent req) (team_parent current)
               (\<lambda>p. case resolveOptionalTeamIDOn uuid db p of Inl _ \<Rightarrow> None | Inr v \<Rightarrow> if v = Some nil_uuid then None else v),
             team_owners := given (ut_owners req) (team_owners current) normalizeStringList,
             team_traits := given (ut_traits req) (team_traits current)
               (\<lambda>m. if isTeamRootAdmin current then AList.update ''is_root_admin'' (GBool True) m else m),
             team_metadata := given (ut_metadata req) (team_metadata current) id,
             team_updated := now\<rparr>"

text \<open>The checks of \<open>updateTeamOn\<close>, in their order.\<close>

definition update_error ::
  "(string \<Rightarrow> string option) \<Rightarrow> (gval \<Rightarrow> string) \<Rightarrow> identity_db \<Rightarrow> Team \<Rightarrow> Team \<Rightarrow> UpdateTeamRequest \<Rightarrow> identity_error option" where
  "update_error uuid js db current t req =
     (let protected = isTeamRootAdmin current in
      first_err id
        [if ut_owners req \<noteq> None
         then (if \<not> ut_assert req \<or> ut_expected req = None then Some LeadershipAssertionRequired
               else guard_err (ut_expected req \<noteq> Some (team_updated current)) LeadershipVersionConflict)
         else guard_err (ut_assert req) LeadershipAssertionRequired,
         guard_err (ut_slug req \<noteq> None \<and> team_slug t = []) TeamSlugRequired,
         guard_err (ut_slug req \<noteq> None \<and> protected \<and> team_slug t \<noteq> team_slug current) (TeamProtected ''slug''),
         guard_err (ut_name req \<noteq> None \<and> team_name t = []) TeamNameRequired,
         guard_err (ut_type req \<noteq> None \<and> protected \<and> team_type t \<noteq> team_type current) (TeamProtected ''type''),
         guard_err (ut_status req \<noteq> None \<and> protected \<and> team_status t \<noteq> ''active'') (TeamProtected ''status''),
         given (ut_parent req) None
           (\<lambda>p. case resolveOptionalTeamIDOn uuid db p of
              Inl e \<Rightarrow> Some e
            | Inr _ \<Rightarrow> e_then (guard_err (team_parent t = Some (team_id current)) TeamOwnParent)
                (guard_err (protected \<and> team_parent t \<noteq> team_parent current) (TeamProtected ''parent_team_id''))),
         guard_err (ut_owners req \<noteq> None \<and> protected \<and> team_owners t \<noteq> []) (TeamProtected ''owners''),
         guard_err (isTeamRootAdmin t \<and> team_owners t \<noteq> []) RootAdminLeadership,
         guard_err (isTeamRootAdmin t \<and> \<not> protected \<and> list_ex (\<lambda>m. mb_team m = team_id current \<and> mb_lead m) (db_members db)) RootAdminLeadership,
         guard_err (ut_metadata req \<noteq> None \<and> protected \<and> \<not> sameJSONObject js (team_metadata current) (team_metadata t)) (TeamProtected ''metadata''),
         given (ut_email req) None (\<lambda>e. case normalizeTeamEmail e of Inl er \<Rightarrow> Some er | Inr _ \<Rightarrow> None)])"

definition put_team :: "Team \<Rightarrow> Team list \<Rightarrow> Team list" where
  "put_team t = map (\<lambda>u. if team_id u = team_id t then t else u)"

definition updateTeamOn ::
  "(string \<Rightarrow> string option) \<Rightarrow> (gval \<Rightarrow> string) \<Rightarrow> (string \<Rightarrow> string) \<Rightarrow> time \<Rightarrow> identity_db \<Rightarrow> UpdateTeamRequest
     \<Rightarrow> identity_error + Team \<times> identity_db" where
  "updateTeamOn uuid js newID now db req =
     (case getTeamOn uuid db (ut_id req) of
        Inl e \<Rightarrow> Inl e
      | Inr current \<Rightarrow>
          let t = patched_team uuid db now current req in
          (case update_error uuid js db current t req of
             Some e \<Rightarrow> Inl e
           | None \<Rightarrow>
               if list_ex (\<lambda>u. team_id u \<noteq> team_id t \<and> team_slug u = team_slug t) (db_teams db) then Inl TeamSlugTaken
               else let db' = db\<lparr>db_teams := put_team t (db_teams db)\<rparr> in
                 if ut_owners req = None then Inr (t, db')
                 else map_sum id (\<lambda>db''. (t, db'')) (ensureOwnerMemberships uuid newID now db' (team_id t) (team_owners t))))"

definition deleteTeamOn :: "(string \<Rightarrow> string option) \<Rightarrow> time \<Rightarrow> identity_db \<Rightarrow> string \<Rightarrow> identity_error + Team \<times> identity_db" where
  "deleteTeamOn uuid now db identity =
     (case getTeamOn uuid db identity of
        Inl e \<Rightarrow> Inl e
      | Inr team \<Rightarrow>
          if isTeamRootAdmin team then Inl (TeamProtected ''delete'')
          else Inr (team,
            db\<lparr>db_teams := map (\<lambda>t. if team_parent t = Some (team_id team) then t\<lparr>team_parent := None, team_updated := now\<rparr> else t)
                             (filter (\<lambda>t. team_id t \<noteq> team_id team) (db_teams db)),
               db_people := map (\<lambda>c. if co_primary_team c = Some (team_id team) then c\<lparr>co_primary_team := None, co_updated := now\<rparr> else c) (db_people db),
               db_members := filter (\<lambda>m. mb_team m \<noteq> team_id team) (db_members db),
               db_grants := filter (\<lambda>g. tg_team g \<noteq> team_id team) (db_grants db)\<rparr>))"

definition DeleteCollaborator :: "(string \<Rightarrow> string option) \<Rightarrow> time \<Rightarrow> identity_db \<Rightarrow> string \<Rightarrow> identity_error + Collaborator \<times> identity_db" where
  "DeleteCollaborator uuid now db identity =
     (case getCollaboratorOn uuid db identity of
        Inl e \<Rightarrow> Inl e
      | Inr c \<Rightarrow> Inr (c,
          db\<lparr>db_people := map (\<lambda>d. if co_manager d = Some (co_id c) then d\<lparr>co_manager := None, co_updated := now\<rparr> else d)
                            (filter (\<lambda>d. co_id d \<noteq> co_id c) (db_people db)),
             db_members := filter (\<lambda>m. mb_collaborator m \<noteq> co_id c) (db_members db),
             db_grants := map (\<lambda>g. if tg_by g = Some (co_id c) then g\<lparr>tg_by := None\<rparr> else g) (db_grants db)\<rparr>))"

section \<open>Memberships\<close>

record UpsertTeamMembershipRequest =
  um_team :: string
  um_collaborator :: string
  um_role :: string
  um_active :: "bool option"
  um_source :: string
  um_starts :: "time option"
  um_ends :: "time option"
  um_metadata :: gmap

definition upsertTeamMembershipOn ::
  "(string \<Rightarrow> string option) \<Rightarrow> time \<Rightarrow> string \<Rightarrow> identity_db \<Rightarrow> UpsertTeamMembershipRequest \<Rightarrow> identity_error + identity_db" where
  "upsertTeamMembershipOn uuid now newID db req =
     (case getTeamOn uuid db (um_team req) of
        Inl e \<Rightarrow> Inl e
      | Inr t \<Rightarrow>
          (case getCollaboratorOn uuid db (um_collaborator req) of
             Inl e \<Rightarrow> Inl e
           | Inr c \<Rightarrow>
               let link = (\<lambda>m. mb_team m = team_id t \<and> mb_collaborator m = co_id c);
                   set_row = (\<lambda>m. m\<lparr>mb_role := normalizeMembershipRole (um_role req), mb_active := given (um_active req) True id,
                     mb_source := normalizeMembershipSource (um_source req), mb_starts := um_starts req, mb_ends := um_ends req,
                     mb_metadata := um_metadata req, mb_updated := now\<rparr>)
               in Inr (db\<lparr>db_members :=
                    (if list_ex link (db_members db) then map (\<lambda>m. if link m then set_row m else m) (db_members db)
                     else db_members db @ [set_row \<lparr>mb_id = newID, mb_team = team_id t, mb_collaborator = co_id c, mb_role = [],
                            mb_active = True, mb_source = [], mb_starts = None, mb_ends = None, mb_metadata = [], mb_created = now,
                            mb_updated = now, mb_lead = False\<rparr>])\<rparr>)))"

section \<open>Grants\<close>

record GrantTeamActionRequest =
  ga_team :: string
  ga_ns :: string
  ga_name :: string
  ga_action :: string
  ga_scope :: gmap
  ga_by :: string

definition parseOptionalUUIDGrants :: "(string \<Rightarrow> string option) \<Rightarrow> string \<Rightarrow> identity_error + string option" where
  "parseOptionalUUIDGrants uuid v =
     (let v' = TrimSpace v in
      if v' = [] then Inr None else (case uuid v' of None \<Rightarrow> Inl GrantorInvalid | Some i \<Rightarrow> Inr (Some i)))"

definition grantTeamActionOn ::
  "(string \<Rightarrow> string option) \<Rightarrow> time \<Rightarrow> string \<Rightarrow> identity_db \<Rightarrow> string \<Rightarrow> GrantTeamActionRequest \<Rightarrow> identity_error + identity_db" where
  "grantTeamActionOn uuid now newID db teamID req =
     (let ns = TrimSpace (ga_ns req); name = TrimSpace (ga_name req);
          action = (if TrimSpace (ga_action req) = [] then ''*'' else TrimSpace (ga_action req)) in
      if ns = [] \<or> name = [] then Inl GrantTargetRequired
      else (case getTeamOn uuid db teamID of
          Inl e \<Rightarrow> Inl e
        | Inr team \<Rightarrow>
            if isTeamRootAdmin team then Inl GrantsFrozen
            else (case parseOptionalUUIDGrants uuid (ga_by req) of
                Inl e \<Rightarrow> Inl e
              | Inr by_id \<Rightarrow>
                  if (case by_id of None \<Rightarrow> False | Some i \<Rightarrow> i \<notin> co_id ` set (db_people db)) then Inl GrantorUnknown
                  else let key = (\<lambda>g. tg_team g = teamID \<and> tg_ns g = ns \<and> tg_name g = name \<and> tg_action g = action) in
                    Inr (db\<lparr>db_grants :=
                      (if list_ex key (db_grants db)
                       then map (\<lambda>g. if key g then g\<lparr>tg_scope := ga_scope req, tg_by := by_id, tg_granted := now\<rparr> else g) (db_grants db)
                       else db_grants db @ [\<lparr>tg_id = newID, tg_team = teamID, tg_ns = ns, tg_name = name, tg_action = action,
                              tg_scope = ga_scope req, tg_granted = now, tg_by = by_id\<rparr>])\<rparr>))))"

definition GrantTeamAction ::
  "(string \<Rightarrow> string option) \<Rightarrow> time \<Rightarrow> string \<Rightarrow> identity_db \<Rightarrow> GrantTeamActionRequest \<Rightarrow> identity_error + identity_db" where
  "GrantTeamAction uuid now newID db req =
     (case getTeamOn uuid db (ga_team req) of Inl e \<Rightarrow> Inl e | Inr t \<Rightarrow> grantTeamActionOn uuid now newID db (team_id t) req)"

definition isYggdrasilSelfManageGrant :: "string \<Rightarrow> string \<Rightarrow> bool" where
  "isYggdrasilSelfManageGrant name action \<longleftrightarrow>
     HasPrefix name ''yggdrasil-self'' \<and> action \<in> {''*'', ''manage_team_sources'', ''manage_team_permissions''}"

text \<open>The count of siblings uses \<open>LIKE 'yggdrasil-self%'\<close>, which is the same prefix.\<close>

definition revokeTeamGrantOn :: "(string \<Rightarrow> string option) \<Rightarrow> identity_db \<Rightarrow> string \<Rightarrow> identity_error + TeamGrant \<times> identity_db" where
  "revokeTeamGrantOn uuid db grantID =
     (case uuid (TrimSpace grantID) of
        None \<Rightarrow> Inl GrantIDInvalid
      | Some i \<Rightarrow>
          (case find (\<lambda>g. tg_id g = i) (db_grants db) of
             None \<Rightarrow> Inl GrantNotFound
           | Some g \<Rightarrow>
               (case getTeamOn uuid db (tg_team g) of
                  Inl e \<Rightarrow> Inl e
                | Inr team \<Rightarrow>
                    if isTeamRootAdmin team then Inl GrantsFrozen
                    else if isYggdrasilSelfManageGrant (tg_name g) (tg_action g) \<and>
                      length (filter (\<lambda>h. tg_id h \<noteq> i \<and> isYggdrasilSelfManageGrant (tg_name h) (tg_action h)) (db_grants db)) = 0
                    then Inl LastManagementGrant
                    else Inr (g, db\<lparr>db_grants := filter (\<lambda>h. tg_id h \<noteq> i) (db_grants db)\<rparr>))))"

section \<open>Authorization subjects\<close>

definition authorizationMembershipPredicate :: "time \<Rightarrow> TeamMembership \<Rightarrow> Team \<Rightarrow> bool" where
  "authorizationMembershipPredicate now m t \<longleftrightarrow>
     mb_active m \<and> team_status t = ''active'' \<and>
     (case mb_starts m of None \<Rightarrow> True | Some s \<Rightarrow> s \<le> now) \<and> (case mb_ends m of None \<Rightarrow> True | Some e \<Rightarrow> now \<le> e)"

definition listDirectAuthorizationTeams :: "time \<Rightarrow> identity_db \<Rightarrow> string \<Rightarrow> Team list" where
  "listDirectAuthorizationTeams now db collaboratorID =
     sort_key team_name (sort_key team_slug
       (concat (map (\<lambda>m. filter (\<lambda>t. team_id t = mb_team m \<and> authorizationMembershipPredicate now m t) (db_teams db))
         (filter (\<lambda>m. mb_collaborator m = collaboratorID) (db_members db)))))"

definition parent_id :: "Team \<Rightarrow> string option" where
  "parent_id t = (case team_parent t of None \<Rightarrow> None | Some p \<Rightarrow> if p = nil_uuid then None else Some p)"

text \<open>The loop of \<open>expandAncestorTeams\<close>; it need not end for every \<open>resolve\<close>.\<close>

partial_function (option) expand_loop ::
  "(string \<Rightarrow> identity_error + Team) \<Rightarrow> string list \<Rightarrow> Team list \<Rightarrow> Team list \<Rightarrow> (identity_error + Team list) option" where
  "expand_loop resolve seen queue expanded =
     (case queue of
        [] \<Rightarrow> Some (Inr expanded)
      | team # queue' \<Rightarrow>
          if team_id team \<in> set seen then expand_loop resolve seen queue' expanded
          else (case parent_id team of
              None \<Rightarrow> expand_loop resolve (team_id team # seen) queue' (expanded @ [team])
            | Some p \<Rightarrow>
                (case resolve p of
                   Inl e \<Rightarrow> if e = TeamNotFound then expand_loop resolve (team_id team # seen) queue' (expanded @ [team]) else Some (Inl e)
                 | Inr parent \<Rightarrow> expand_loop resolve (team_id team # seen) (queue' @ [parent]) (expanded @ [team]))))"

definition expandAncestorTeams :: "Team list \<Rightarrow> (string \<Rightarrow> identity_error + Team) \<Rightarrow> (identity_error + Team list) option" where
  "expandAncestorTeams seed resolve = expand_loop resolve [] seed []"

definition active_team :: "(string \<Rightarrow> string option) \<Rightarrow> identity_db \<Rightarrow> string \<Rightarrow> identity_error + Team" where
  "active_team uuid db i =
     (case getTeamOn uuid db i of Inl e \<Rightarrow> Inl e | Inr t \<Rightarrow> if team_status t \<noteq> ''active'' then Inl TeamNotFound else Inr t)"

definition ResolveAuthorizationSubjects ::
  "(string \<Rightarrow> string option) \<Rightarrow> time \<Rightarrow> identity_db \<Rightarrow> string \<Rightarrow> (identity_error + Collaborator \<times> Team list \<times> RBACSubject list) option" where
  "ResolveAuthorizationSubjects uuid now db identity =
     (case getCollaboratorOn uuid db identity of
        Inl e \<Rightarrow> Some (Inl e)
      | Inr c \<Rightarrow>
          (case expandAncestorTeams (listDirectAuthorizationTeams now db (co_id c)) (active_team uuid db) of
             None \<Rightarrow> None
           | Some (Inl e) \<Rightarrow> Some (Inl e)
           | Some (Inr teams) \<Rightarrow>
               Some (Inr (c, teams, \<lparr>subj_type = ''collaborator'', subj_id = co_slug c\<rparr> #
                 map (\<lambda>t. \<lparr>subj_type = ''team'', subj_id = team_slug t\<rparr>) teams))))"

text \<open>The walk of \<open>ListAvailableSourcesForTeam\<close>, and the distinct pairs in order.\<close>

partial_function (option) source_loop ::
  "(string \<Rightarrow> identity_error + Team) \<Rightarrow> string list \<Rightarrow> string option \<Rightarrow> string list \<Rightarrow> (identity_error + string list) option" where
  "source_loop get seen cursor ids =
     (case cursor of
        None \<Rightarrow> Some (Inr ids)
      | Some p \<Rightarrow>
          if p \<in> set seen then Some (Inr ids)
          else (case get p of
              Inl e \<Rightarrow> if e = TeamNotFound then Some (Inr ids) else Some (Inl e)
            | Inr parent \<Rightarrow>
                if team_status parent \<noteq> ''active'' then Some (Inr ids)
                else source_loop get (team_id parent # seen) (parent_id parent) (ids @ [team_id parent])))"

definition ListAvailableSourcesForTeam ::
  "(string \<Rightarrow> string option) \<Rightarrow> identity_db \<Rightarrow> string \<Rightarrow> (identity_error + (string \<times> string) list) option" where
  "ListAvailableSourcesForTeam uuid db identity =
     (case getTeamOn uuid db identity of
        Inl e \<Rightarrow> Some (Inl e)
      | Inr start \<Rightarrow>
          map_option (map_sum id (\<lambda>ids. sort_key fst (sort_key snd
              (remdups (map (\<lambda>g. (tg_ns g, tg_name g)) (filter (\<lambda>g. tg_team g \<in> set ids) (db_grants db)))))))
            (source_loop (getTeamOn uuid db) [team_id start] (parent_id start) [team_id start]))"

end
