(* ===== verification/Team_Ancestry.thy ===== *)
theory Team_Ancestry
  imports Identity
begin

text \<open>
  The expansion of teams into their active ancestors: it ends for every stored hierarchy, cycles included, and computes
  exactly the closure of the direct teams under active parents. The walk that collects the grant sources of a team
  follows the same chain.
\<close>

section \<open>Facts on the expansion\<close>

lemma getTeamOn_in: "getTeamOn uuid db i = Inr t \<Longrightarrow> t \<in> set (db_teams db)"
  by (auto simp: getTeamOn_def find_Some_iff split: option.splits)

lemma getCollaboratorOn_in: "getCollaboratorOn uuid db i = Inr c \<Longrightarrow> c \<in> set (db_people db)"
  by (auto simp: getCollaboratorOn_def find_Some_iff split: option.splits)

text \<open>The text of a stored id parses to itself, as \<open>uuid.Parse\<close> promises of what \<open>String\<close> prints.\<close>

definition canonical :: "(string \<Rightarrow> string option) \<Rightarrow> string \<Rightarrow> bool" where
  "canonical uuid i \<longleftrightarrow> uuid (TrimSpace i) = Some i \<and> i \<noteq> nil_uuid"

definition teams_ok :: "(string \<Rightarrow> string option) \<Rightarrow> identity_db \<Rightarrow> bool" where
  "teams_ok uuid db \<longleftrightarrow>
     distinct (map team_id (db_teams db)) \<and>
     (\<forall>t\<in>set (db_teams db). canonical uuid (team_id t) \<and> (\<forall>p. team_parent t = Some p \<longrightarrow> p \<in> team_id ` set (db_teams db)))"

definition parent_rel :: "identity_db \<Rightarrow> (Team \<times> Team) set" where
  "parent_rel db = {(t, p). t \<in> set (db_teams db) \<and> p \<in> set (db_teams db) \<and> team_parent t = Some (team_id p) \<and> team_status p = ''active''}"

lemma same_id:
  assumes "teams_ok uuid db" and "t \<in> set (db_teams db)" "u \<in> set (db_teams db)" and "team_id t = team_id u"
  shows "t = u"
  using assms by (auto simp: teams_ok_def distinct_map dest: inj_onD)

lemma getTeamOn_id:
  assumes "teams_ok uuid db" and "t \<in> set (db_teams db)"
  shows "getTeamOn uuid db (team_id t) = Inr t"
proof -
  have c: "uuid (TrimSpace (team_id t)) = Some (team_id t)" "team_id t \<noteq> nil_uuid"
    using assms by (auto simp: teams_ok_def canonical_def)
  obtain u where u: "find (\<lambda>u. team_id u = team_id t) (db_teams db) = Some u"
    using assms(2) by (cases "find (\<lambda>u. team_id u = team_id t) (db_teams db)") (auto simp: find_None_iff)
  then have "u \<in> set (db_teams db)" "team_id u = team_id t" by (auto simp: find_Some_iff)
  with same_id [OF assms(1)] assms(2) u c show ?thesis by (auto simp: getTeamOn_def identity_matches_def)
qed

lemma parent_id_eq:
  assumes "teams_ok uuid db" and "t \<in> set (db_teams db)"
  shows "parent_id t = team_parent t"
proof (cases "team_parent t")
  case (Some i)
  then obtain p where "p \<in> set (db_teams db)" "team_id p = i" using assms by (auto simp: teams_ok_def)
  then have "i \<noteq> nil_uuid" using assms(1) by (auto simp: teams_ok_def canonical_def)
  with Some show ?thesis by (simp add: parent_id_def)
qed (simp add: parent_id_def)

text \<open>What a step of the loop finds as the parent of a stored team.\<close>

lemma active_parent:
  assumes "teams_ok uuid db" and "t \<in> set (db_teams db)"
  obtains "parent_id t = None" "\<And>p. (t, p) \<notin> parent_rel db"
  | i where "parent_id t = Some i" "active_team uuid db i = Inl TeamNotFound" "\<And>p. (t, p) \<notin> parent_rel db"
  | i p where "parent_id t = Some i" "active_team uuid db i = Inr p" "(t, p) \<in> parent_rel db" "\<And>q. (t, q) \<in> parent_rel db \<Longrightarrow> q = p"
proof (cases "team_parent t")
  case None
  then show ?thesis using that(1) assms by (auto simp: parent_id_eq parent_rel_def)
next
  case (Some i)
  then obtain p where p: "p \<in> set (db_teams db)" "team_id p = i" using assms by (auto simp: teams_ok_def)
  have g: "getTeamOn uuid db i = Inr p" using getTeamOn_id [OF assms(1) p(1)] p(2) by simp
  have i: "parent_id t = Some i" using Some assms by (simp add: parent_id_eq)
  show ?thesis
  proof (cases "team_status p = ''active''")
    case True
    show ?thesis
    proof (rule that(3) [OF i])
      show "active_team uuid db i = Inr p" using g True by (simp add: active_team_def)
      show "(t, p) \<in> parent_rel db" using assms(2) p Some True by (simp add: parent_rel_def)
      show "q = p" if "(t, q) \<in> parent_rel db" for q
        using that Some p same_id [OF assms(1)] by (auto simp: parent_rel_def)
    qed
  next
    case False
    show ?thesis
    proof (rule that(2) [OF i])
      show "active_team uuid db i = Inl TeamNotFound" using g False by (simp add: active_team_def)
      show "(t, q) \<notin> parent_rel db" for q
        using False Some p same_id [OF assms(1)] by (auto simp: parent_rel_def)
    qed
  qed
qed

lemma parent_rel_in: "(t, p) \<in> parent_rel db \<Longrightarrow> t \<in> set (db_teams db) \<and> p \<in> set (db_teams db)"
  by (simp add: parent_rel_def)

text \<open>
  The state of the loop: the expanded teams are stored, their ids are exactly those seen, and the parent of an expanded
  team is expanded or queued.
\<close>

definition expanding :: "identity_db \<Rightarrow> string list \<Rightarrow> Team list \<Rightarrow> Team list \<Rightarrow> bool" where
  "expanding db seen queue expanded \<longleftrightarrow>
     set queue \<subseteq> set (db_teams db) \<and> set expanded \<subseteq> set (db_teams db) \<and> set seen = team_id ` set expanded \<and>
     distinct (map team_id expanded) \<and> (\<forall>t\<in>set expanded. \<forall>p. (t, p) \<in> parent_rel db \<longrightarrow> p \<in> set expanded \<union> set queue)"

lemma expanding_skip:
  assumes "teams_ok uuid db" and "expanding db seen (t # queue) expanded" and "team_id t \<in> set seen"
  shows "expanding db seen queue expanded" "t \<in> set expanded"
proof -
  obtain u where u: "u \<in> set expanded" "team_id u = team_id t" using assms(2,3) by (auto simp: expanding_def)
  have "u = t" using u assms(2) same_id [OF assms(1)] by (auto simp: expanding_def)
  with u show "t \<in> set expanded" by simp
  with assms(2) show "expanding db seen queue expanded" by (auto simp: expanding_def)
qed

lemma expanding_take:
  assumes "expanding db seen (t # queue) expanded" and "team_id t \<notin> set seen"
    and "\<And>p. (t, p) \<in> parent_rel db \<Longrightarrow> p \<in> set ps" and "set ps \<subseteq> set (db_teams db)"
  shows "expanding db (team_id t # seen) (queue @ ps) (expanded @ [t])"
  using assms unfolding expanding_def by auto

definition expanded_from :: "identity_db \<Rightarrow> Team set \<Rightarrow> Team list \<Rightarrow> bool" where
  "expanded_from db S teams \<longleftrightarrow> distinct (map team_id teams) \<and> set teams = (parent_rel db)\<^sup>* `` S"

lemma expand_loop_eqs:
  "expand_loop resolve seen [] expanded = Some (Inr expanded)"
  "team_id t \<in> set seen \<Longrightarrow> expand_loop resolve seen (t # queue) expanded = expand_loop resolve seen queue expanded"
  "team_id t \<notin> set seen \<Longrightarrow> parent_id t = None \<Longrightarrow>
     expand_loop resolve seen (t # queue) expanded = expand_loop resolve (team_id t # seen) queue (expanded @ [t])"
  "team_id t \<notin> set seen \<Longrightarrow> parent_id t = Some i \<Longrightarrow> resolve i = Inl TeamNotFound \<Longrightarrow>
     expand_loop resolve seen (t # queue) expanded = expand_loop resolve (team_id t # seen) queue (expanded @ [t])"
  "team_id t \<notin> set seen \<Longrightarrow> parent_id t = Some i \<Longrightarrow> resolve i = Inr p \<Longrightarrow>
     expand_loop resolve seen (t # queue) expanded = expand_loop resolve (team_id t # seen) (queue @ [p]) (expanded @ [t])"
  by (subst expand_loop.simps, simp)+

lemma expanded_from_more:
  assumes "set ps \<subseteq> parent_rel db `` {t}" and "expanded_from db (set (expanded @ [t]) \<union> set (queue @ ps)) teams"
  shows "expanded_from db (set expanded \<union> set (t # queue)) teams"
proof -
  have "(parent_rel db)\<^sup>* `` (set (expanded @ [t]) \<union> set (queue @ ps)) = (parent_rel db)\<^sup>* `` (set expanded \<union> set (t # queue))"
    using assms(1) by (auto intro: converse_rtrancl_into_rtrancl)
  with assms(2) show ?thesis by (simp add: expanded_from_def)
qed

lemma expand_loop_total:
  assumes ok: "teams_ok uuid db" and "expanding db seen queue expanded"
  shows "\<exists>teams. expand_loop (active_team uuid db) seen queue expanded = Some (Inr teams) \<and>
    expanded_from db (set expanded \<union> set queue) teams"
  using assms(2)
proof (induction "(card (set (db_teams db) - set expanded), length queue)" arbitrary: seen queue expanded
    rule: wf_induct_rule [OF wf_lex_prod [OF wf_less wf_less]])
  case 1
  note IH = 1(1) and inv = 1(2)
  let ?loop = "expand_loop (active_team uuid db)"
  show ?case
  proof (cases queue)
    case Nil
    have "parent_rel db `` set expanded \<subseteq> set expanded" using inv Nil by (auto simp: expanding_def)
    then have "(parent_rel db)\<^sup>* `` set expanded = set expanded" by (rule Image_closed_trancl)
    then show ?thesis using inv Nil by (simp add: expand_loop.simps expanded_from_def expanding_def)
  next
    case (Cons t queue')
    note inv' = inv [unfolded Cons]
    have t: "t \<in> set (db_teams db)" using inv' by (simp add: expanding_def)
    show ?thesis
    proof (cases "team_id t \<in> set seen")
      case True
      have "set expanded \<union> set queue = set expanded \<union> set queue'"
        using Cons expanding_skip(2) [OF ok inv' True] by auto
      moreover have "\<exists>teams. ?loop seen queue' expanded = Some (Inr teams) \<and> expanded_from db (set expanded \<union> set queue') teams"
        by (rule IH [OF _ expanding_skip(1) [OF ok inv' True]]) (simp add: Cons)
      ultimately show ?thesis by (simp only: Cons expand_loop_eqs(2) [OF True])
    next
      case False
      have "t \<notin> set expanded" using False inv' by (auto simp: expanding_def)
      then have less: "card (set (db_teams db) - set (expanded @ [t])) < card (set (db_teams db) - set expanded)"
        using t by (intro psubset_card_mono) auto
      have rest: ?thesis
        if "?loop seen (t # queue') expanded = ?loop (team_id t # seen) (queue' @ ps) (expanded @ [t])"
          and ps: "\<And>p. p \<in> set ps \<longleftrightarrow> (t, p) \<in> parent_rel db" for ps
      proof -
        have "expanding db (team_id t # seen) (queue' @ ps) (expanded @ [t])"
          using expanding_take [OF inv' False, of ps] ps parent_rel_in by blast
        from IH [OF _ this] less obtain teams where
          "?loop (team_id t # seen) (queue' @ ps) (expanded @ [t]) = Some (Inr teams)"
          "expanded_from db (set (expanded @ [t]) \<union> set (queue' @ ps)) teams" by auto
        moreover have "set ps \<subseteq> parent_rel db `` {t}" using ps by auto
        ultimately have "expanded_from db (set expanded \<union> set queue) teams" unfolding Cons by (intro expanded_from_more [of ps])
        moreover have "?loop seen queue expanded = Some (Inr teams)" unfolding Cons that(1) by fact
        ultimately show ?thesis by blast
      qed
      show ?thesis using ok t
      proof (cases rule: active_parent)
        case 1
        then show ?thesis using rest [of "[]"] expand_loop_eqs(3) [OF False] by simp
      next
        case (2 i)
        then show ?thesis using rest [of "[]"] expand_loop_eqs(4) [where resolve = "active_team uuid db", OF False] by simp
      next
        case (3 i p)
        show ?thesis
        proof (rule rest [of "[p]"])
          show "?loop seen (t # queue') expanded = ?loop (team_id t # seen) (queue' @ [p]) (expanded @ [t])"
            by (rule expand_loop_eqs(5) [where resolve = "active_team uuid db", OF False 3(1,2)])
          show "q \<in> set [p] \<longleftrightarrow> (t, q) \<in> parent_rel db" for q using 3(3) 3(4) [of q] by auto
        qed
      qed
    qed
  qed
qed

lemma expandAncestorTeams_total:
  assumes "teams_ok uuid db" and "set seed \<subseteq> set (db_teams db)"
  shows "\<exists>teams. expandAncestorTeams seed (active_team uuid db) = Some (Inr teams) \<and> expanded_from db (set seed) teams"
  using expand_loop_total [OF assms(1), of "[]" seed "[]"] assms(2) by (simp add: expandAncestorTeams_def expanding_def)

text \<open>A walk from one team expands the same chain as the loop over the queue.\<close>

lemma source_loop_eqs:
  "source_loop get seen None ids = Some (Inr ids)"
  "i \<in> set seen \<Longrightarrow> source_loop get seen (Some i) ids = Some (Inr ids)"
  "i \<notin> set seen \<Longrightarrow> get i = Inr p \<Longrightarrow> team_status p \<noteq> ''active'' \<Longrightarrow> source_loop get seen (Some i) ids = Some (Inr ids)"
  "i \<notin> set seen \<Longrightarrow> get i = Inr p \<Longrightarrow> team_status p = ''active'' \<Longrightarrow>
     source_loop get seen (Some i) ids = source_loop get (team_id p # seen) (parent_id p) (ids @ [team_id p])"
  by (subst source_loop.simps, simp)+

lemma source_loop_expands:
  assumes ok: "teams_ok uuid db" and "expanding db seen [t] expanded" and "team_id t \<notin> set seen"
    and "expand_loop (active_team uuid db) seen [t] expanded = Some (Inr teams)"
  shows "source_loop (getTeamOn uuid db) (team_id t # seen) (parent_id t) (map team_id (expanded @ [t])) = Some (Inr (map team_id teams))"
  using assms(2-4)
proof (induction "card (set (db_teams db) - set expanded)" arbitrary: seen t expanded rule: less_induct)
  case less
  have t: "t \<in> set (db_teams db)" "t \<notin> set expanded" using less.prems(1,2) by (auto simp: expanding_def)
  show ?case
    using ok t(1)
  proof (cases rule: active_parent)
    case 1
    then show ?thesis using less.prems(2,3) by (simp add: expand_loop_eqs source_loop_eqs)
  next
    case (2 i)
    from 2(1) have "i \<in> team_id ` set (db_teams db)" using ok t(1) by (simp add: parent_id_eq teams_ok_def)
    then obtain p where "p \<in> set (db_teams db)" "team_id p = i" by (elim imageE) simp
    then have p: "getTeamOn uuid db i = Inr p" using getTeamOn_id [OF ok, of p] by simp
    with 2(2) have "team_status p \<noteq> ''active''" by (cases "team_status p = ''active''") (simp_all add: active_team_def)
    note p = p this
    have "teams = expanded @ [t]" using less.prems(2,3) 2 by (simp add: expand_loop_eqs)
    then show ?thesis using 2 p by (cases "i \<in> set (team_id t # seen)") (simp_all add: source_loop_eqs)
  next
    case (3 i p)
    have p: "getTeamOn uuid db i = Inr p" "team_status p = ''active''" "team_id p = i" "p \<in> set (db_teams db)"
      using 3 t(1) ok by (auto simp: active_team_def parent_rel_def parent_id_eq split: sum.splits if_splits)
    have next_state: "expanding db (team_id t # seen) [p] (expanded @ [t])"
      using expanding_take [OF less.prems(1,2), of "[p]"] 3(4) p(4) by simp
    have eq: "expand_loop (active_team uuid db) (team_id t # seen) [p] (expanded @ [t]) = Some (Inr teams)"
      using less.prems(2,3) 3(1,2) by (simp add: expand_loop_eqs)
    show ?thesis
    proof (cases "i \<in> set (team_id t # seen)")
      case True
      then have "teams = expanded @ [t]" using eq p(3) by (simp add: expand_loop_eqs)
      then show ?thesis using True 3(1) by (simp add: source_loop_eqs)
    next
      case False
      have "card (set (db_teams db) - set (expanded @ [t])) < card (set (db_teams db) - set expanded)"
        using t by (intro psubset_card_mono) auto
      from less.hyps [OF this next_state _ eq] False p show ?thesis
        by (simp add: 3(1) source_loop_eqs)
    qed
  qed
qed


section \<open>Properties\<close>

lemma direct_teams:
  "t \<in> set (listDirectAuthorizationTeams now db i) \<longleftrightarrow>
     t \<in> set (db_teams db) \<and> (\<exists>m\<in>set (db_members db). mb_collaborator m = i \<and> mb_team m = team_id t \<and> authorizationMembershipPredicate now m t)"
  by (auto simp: listDirectAuthorizationTeams_def)

text \<open>C6: A collaborator stands for exactly its own subject and the teams it is authorized through: the teams of its
  memberships that are active and inside their window, closed under active parents. The expansion returns for every
  stored hierarchy, also one whose parents form a cycle, and lists no team twice.\<close>
theorem authorization_subjects_exact:
  assumes "teams_ok uuid db" and "getCollaboratorOn uuid db identity = Inr c"
  shows "\<exists>teams. ResolveAuthorizationSubjects uuid now db identity =
      Some (Inr (c, teams, \<lparr>subj_type = ''collaborator'', subj_id = co_slug c\<rparr> # map (\<lambda>t. \<lparr>subj_type = ''team'', subj_id = team_slug t\<rparr>) teams)) \<and>
    distinct (map team_id teams) \<and>
    (\<forall>p. p \<in> set teams \<longleftrightarrow> (\<exists>m\<in>set (db_members db). \<exists>t\<in>set (db_teams db). mb_collaborator m = co_id c \<and> mb_team m = team_id t \<and>
       authorizationMembershipPredicate now m t \<and> (t, p) \<in> (parent_rel db)\<^sup>*))"
proof -
  let ?direct = "listDirectAuthorizationTeams now db (co_id c)"
  have "set ?direct \<subseteq> set (db_teams db)" by (auto simp: direct_teams)
  from expandAncestorTeams_total [OF assms(1) this] obtain teams where
    t: "expandAncestorTeams ?direct (active_team uuid db) = Some (Inr teams)" "expanded_from db (set ?direct) teams" by blast
  have "p \<in> set teams \<longleftrightarrow> (\<exists>t. t \<in> set ?direct \<and> (t, p) \<in> (parent_rel db)\<^sup>*)" for p
    using t(2) by (auto simp: expanded_from_def)
  then have "p \<in> set teams \<longleftrightarrow> (\<exists>m\<in>set (db_members db). \<exists>t\<in>set (db_teams db). mb_collaborator m = co_id c \<and> mb_team m = team_id t \<and>
       authorizationMembershipPredicate now m t \<and> (t, p) \<in> (parent_rel db)\<^sup>*)" for p
    unfolding direct_teams by blast
  then show ?thesis using t by (simp add: ResolveAuthorizationSubjects_def assms(2) expanded_from_def)
qed

text \<open>The pool of grant sources follows the authorization rule. The sources a team may pick from are exactly the
  instances granted to the teams that a membership of this team would expand to; each is listed once.\<close>
theorem sources_follow_authorization:
  assumes "teams_ok uuid db" and "getTeamOn uuid db identity = Inr t"
  shows "\<exists>teams sources. expandAncestorTeams [t] (active_team uuid db) = Some (Inr teams) \<and>
    ListAvailableSourcesForTeam uuid db identity = Some (Inr sources) \<and> distinct sources \<and>
    set sources = (\<lambda>g. (tg_ns g, tg_name g)) ` {g \<in> set (db_grants db). tg_team g \<in> team_id ` set teams} \<and>
    (\<forall>p. p \<in> set teams \<longleftrightarrow> (t, p) \<in> (parent_rel db)\<^sup>*)"
proof -
  have t: "t \<in> set (db_teams db)" using assms(2) by (rule getTeamOn_in)
  from expandAncestorTeams_total [OF assms(1), of "[t]"] t obtain teams where
    e: "expandAncestorTeams [t] (active_team uuid db) = Some (Inr teams)" "expanded_from db (set [t]) teams" by auto
  have "source_loop (getTeamOn uuid db) [team_id t] (parent_id t) [team_id t] = Some (Inr (map team_id teams))"
    using source_loop_expands [OF assms(1), of "[]" t "[]" teams] e(1) t by (simp add: expandAncestorTeams_def expanding_def)
  with e show ?thesis by (auto simp: ListAvailableSourcesForTeam_def assms(2) expanded_from_def)
qed

text \<open>Two teams that are each other's parent, and a member of one of them.\<close>

definition ex_team :: "string \<Rightarrow> string \<Rightarrow> Team" where
  "ex_team i p = \<lparr>team_id = i, team_slug = i, team_name = i, team_type = ''team'', team_status = ''active'', team_email = [],
     team_parent = Some p, team_owners = [], team_traits = [], team_metadata = [], team_created = 0, team_updated = 0\<rparr>"

definition ex_person :: Collaborator where
  "ex_person = \<lparr>co_id = ''c1'', co_slug = ''ana'', co_status = ''active'', co_display_name = ''Ana'', co_email = [], co_manager = None,
     co_primary_team = None, co_personal = [], co_employment = [], co_third_party = [], co_traits = [], co_metadata = [],
     co_version = 1, co_created = 0, co_updated = 0\<rparr>"

definition ex_grant :: TeamGrant where
  "ex_grant = \<lparr>tg_id = ''g1'', tg_team = ''t2'', tg_ns = ''global'', tg_name = ''yggdrasil-self'', tg_action = ''*'', tg_scope = [],
     tg_granted = 0, tg_by = None\<rparr>"

definition ex_identity :: identity_db where
  "ex_identity = \<lparr>db_people = [ex_person], db_teams = [ex_team ''t1'' ''t2'', ex_team ''t2'' ''t1''],
     db_members = [\<lparr>mb_id = ''m1'', mb_team = ''t1'', mb_collaborator = ''c1'', mb_role = ''member'', mb_active = True, mb_source = ''manual'',
       mb_starts = None, mb_ends = Some 9, mb_metadata = [], mb_created = 0, mb_updated = 0, mb_lead = False\<rparr>],
     db_grants = [ex_grant]\<rparr>"

lemma ex_canonical: "canonical Some ''t1''" "canonical Some ''t2''"
  by code_simp+

lemma ex_teams_ok: "teams_ok Some ex_identity"
  using ex_canonical by (simp add: teams_ok_def ex_identity_def ex_team_def)

lemma ex_identity_ok: "getCollaboratorOn Some ex_identity ''c1'' = Inr ex_person"
  "getTeamOn Some ex_identity ''t1'' = Inr (ex_team ''t1'' ''t2'')"
  by code_simp+

theorem authorization_subjects_exact_witness:
  "\<exists>teams. ResolveAuthorizationSubjects Some 5 ex_identity ''c1'' =
     Some (Inr (ex_person, teams, \<lparr>subj_type = ''collaborator'', subj_id = ''ana''\<rparr> # map (\<lambda>t. \<lparr>subj_type = ''team'', subj_id = team_slug t\<rparr>) teams)) \<and>
     distinct (map team_id teams)"
  using authorization_subjects_exact [OF ex_teams_ok ex_identity_ok(1), of 5] by (auto simp: ex_person_def)

theorem sources_follow_authorization_witness:
  "\<exists>sources. ListAvailableSourcesForTeam Some ex_identity ''t1'' = Some (Inr sources) \<and> distinct sources"
  using sources_follow_authorization [OF ex_teams_ok ex_identity_ok(2)] by blast

end
