(* ===== verification/Run_Gate.thy ===== *)
theory Run_Gate
  imports Run_Dispatch Team_Ancestry Authorization
begin

text \<open>
  The route \<open>POST /api/v1/workflow-runs\<close> of \<open>controllers/httpapi/workflow_runs.go\<close> as a whole: authentication, the
  record of a use of the migration bridge, the authorization of the dispatch, the choice between asynchronous and
  synchronous execution, and the hand-over to the dispatcher. The decoders of stored RBAC and policy specifications and
  of the request body are arguments. The evaluation that is published as an event is part of the result.
\<close>

section \<open>Authorization of a dispatch\<close>

record 's gate_env =
  ge_prep :: "'s prep_env"
  ge_rbac :: "'s \<Rightarrow> RBACManifestSpec option"
  ge_policy :: "'s \<Rightarrow> PolicyManifestSpec option"

datatype gate_error =
    GateDenied
  | GateLookup prepare_error
  | GateManifestID
  | GateManifestName
  | GateManifestMissing
  | GateManifestParse
  | GateIdentity identity_error
  | GateEvaluation authorization_error

datatype gate_result = GateAllows | GateRefuses gate_error | GateHangs

definition resolveWorkflowAuthorizationManifest ::
  "'s gate_env \<Rightarrow> string \<Rightarrow> ManifestSelector \<Rightarrow> 's Manifest list \<Rightarrow> gate_error + 's Manifest" where
  "resolveWorkflowAuthorizationManifest E kind selector store =
     (let found = (\<lambda>r. case r of None \<Rightarrow> Inl GateManifestMissing | Some m \<Rightarrow> Inr m);
          i = TrimSpace (sel_manifest_id selector); name = TrimSpace (sel_name selector); ns = TrimSpace (sel_namespace selector)
      in if i \<noteq> [] then
           (case pe_uuid (ge_prep E) i of None \<Rightarrow> Inl GateManifestID | Some parsed \<Rightarrow> found (GetManifestByID parsed store))
         else if name = [] then Inl GateManifestName
         else found (ResolveManifest kind (if ns = [] then ''global'' else ns) name (sel_version selector) True store))"

text \<open>The RBAC specification and the policy that the authorization block of a workflow names.\<close>

definition authorization_specs ::
  "'s gate_env \<Rightarrow> WorkflowAuthorizationSpec \<Rightarrow> 's Manifest list \<Rightarrow> gate_error + RBACManifestSpec \<times> PolicyManifestSpec option" where
  "authorization_specs E authz store =
     (case resolveWorkflowAuthorizationManifest E ''rbac'' (wauth_rbac authz) store of
        Inl e \<Rightarrow> Inl e
      | Inr rbacManifest \<Rightarrow>
          (case ge_rbac E (mf_spec rbacManifest) of
             None \<Rightarrow> Inl GateManifestParse
           | Some rbacSpec \<Rightarrow>
               (case wauth_policy authz of
                  None \<Rightarrow> Inr (rbacSpec, None)
                | Some selector \<Rightarrow>
                    (case resolveWorkflowAuthorizationManifest E ''policy'' selector store of
                       Inl e \<Rightarrow> Inl e
                     | Inr policyManifest \<Rightarrow>
                         (case ge_policy E (mf_spec policyManifest) of
                            None \<Rightarrow> Inl GateManifestParse
                          | Some policySpec \<Rightarrow> Inr (rbacSpec, Some policySpec))))))"

definition collaborator_context :: "Collaborator \<Rightarrow> gval" where
  "collaborator_context c = GMap
     [(''id'', GStr (co_id c)), (''slug'', GStr (co_slug c)), (''status'', GStr (co_status c)), (''display_name'', GStr (co_display_name c)),
      (''primary_email'', GStr (co_email c)), (''personal_data'', GMap (co_personal c)), (''employment_data'', GMap (co_employment c)),
      (''third_party_identities'', GMap (co_third_party c)), (''traits'', GMap (co_traits c)), (''metadata'', GMap (co_metadata c))]"

definition team_context :: "Team \<Rightarrow> gmap" where
  "team_context t =
     [(''id'', GStr (team_id t)), (''slug'', GStr (team_slug t)), (''name'', GStr (team_name t)), (''type'', GStr (team_type t)),
      (''status'', GStr (team_status t)), (''owners'', GStrs (team_owners t)), (''traits'', GMap (team_traits t)), (''metadata'', GMap (team_metadata t))]"

definition workflowAuthorizationContextInput :: "gmap \<Rightarrow> Collaborator \<Rightarrow> Team list \<Rightarrow> gmap" where
  "workflowAuthorizationContextInput input c teams =
     AList.update ''teams'' (GMaps (map team_context teams)) (AList.update ''collaborator'' (collaborator_context c) input)"

definition workflow_resource :: "'s Manifest \<Rightarrow> string" where
  "workflow_resource m = ''workflow:'' @ mf_ns m @ '':'' @ mf_name m"

text \<open>The second component is the evaluation that \<open>EmitAuthorizationEvaluatedEvent\<close> publishes.\<close>

type_synonym gate_answer = "gate_result \<times> EvaluateAuthorizationResponse option"

definition gate_evaluate ::
  "'s gate_env \<Rightarrow> RBACManifestSpec \<Rightarrow> PolicyManifestSpec option \<Rightarrow> string \<Rightarrow> RBACSubject list \<Rightarrow> gmap \<Rightarrow> gate_answer" where
  "gate_evaluate E rbacSpec policySpec resource subjects input =
     (case EvaluateAuthorizationSubjects (pe_lib (ge_prep E)) rbacSpec policySpec subjects resource ''run'' input of
        Inl e \<Rightarrow> (GateRefuses (GateEvaluation e), None)
      | Inr response \<Rightarrow> (if auth_allowed response then GateAllows else GateRefuses GateDenied, Some response))"

definition authorizeWorkflowDispatch ::
  "'s gate_env \<Rightarrow> time \<Rightarrow> identity_db \<Rightarrow> 's Manifest list \<Rightarrow> RunWorkflowRequest \<Rightarrow> workflowRunActor \<Rightarrow> gate_answer" where
  "authorizeWorkflowDispatch E now db store req actor =
     (let selector = rq_workflow req in
      if wra_machine actor \<noteq> None \<and> TrimSpace (sel_manifest_id selector) \<noteq> [] then (GateRefuses GateDenied, None)
      else if wra_machine actor \<noteq> None \<and> sel_version selector \<noteq> None then (GateRefuses GateDenied, None)
      else (case ResolveActiveWorkflowManifestSpec (ge_prep E) selector store of
          Inl e \<Rightarrow> (GateRefuses (GateLookup e), None)
        | Inr (m, spec) \<Rightarrow>
            if (case wra_machine actor of None \<Rightarrow> False | Some p \<Rightarrow> \<not> workflowMachinePrincipalAllows p (mf_ns m) (mf_name m))
            then (GateRefuses GateDenied, None)
            else (case wf_authorization spec of
                None \<Rightarrow> (if wra_machine actor \<noteq> None then GateRefuses GateDenied else GateAllows, None)
              | Some authz \<Rightarrow>
                  (case authorization_specs E authz store of
                     Inl e \<Rightarrow> (GateRefuses e, None)
                   | Inr (rbacSpec, policySpec) \<Rightarrow>
                       let input = MergeWorkflowInputs spec (rq_inputs req); resource = workflow_resource m in
                       if wra_collaborator actor \<noteq> [] then
                         (case ResolveAuthorizationSubjects (pe_uuid (ge_prep E)) now db (wra_collaborator actor) of
                            None \<Rightarrow> (GateHangs, None)
                          | Some (Inl e) \<Rightarrow> (GateRefuses (GateIdentity e), None)
                          | Some (Inr (c, teams, subjects)) \<Rightarrow>
                              gate_evaluate E rbacSpec policySpec resource subjects (workflowAuthorizationContextInput input c teams))
                       else if subj_type (wra_subject actor) \<noteq> [] \<and> subj_id (wra_subject actor) \<noteq> [] then
                         gate_evaluate E rbacSpec policySpec resource [wra_subject actor] input
                       else (GateRefuses GateDenied, None)))))"

section \<open>The mode of execution\<close>

definition explicitWorkflowRunDispatchMode :: "http_request \<Rightarrow> string option" where
  "explicitWorkflowRunDispatchMode r =
     (let v = ToLower (TrimSpace (hr_query r ''async'')); h = ToLower (TrimSpace (hr_header r ''X-Yggdrasil-Workflow-Mode'')) in
      if v \<in> {''1'', ''true'', ''yes''} then Some ''async''
      else if v \<in> {''0'', ''false'', ''no''} then Some ''sync''
      else if h = ''async'' then Some ''async''
      else if h = ''sync'' then Some ''sync''
      else None)"

definition resolveWorkflowRunAsync :: "'s gate_env \<Rightarrow> 's Manifest list \<Rightarrow> http_request \<Rightarrow> RunWorkflowRequest \<Rightarrow> bool" where
  "resolveWorkflowRunAsync E store r req =
     (case explicitWorkflowRunDispatchMode r of
        Some mode \<Rightarrow> mode = ''async''
      | None \<Rightarrow>
          (case ResolveActiveWorkflowManifestSpec (ge_prep E) (rq_workflow req) store of
             Inl e \<Rightarrow> False
           | Inr (m, spec) \<Rightarrow> NormalizeWorkflowDispatchMode spec = ''async''))"

definition resolveWorkflowRunAsyncForActor ::
  "'s gate_env \<Rightarrow> 's Manifest list \<Rightarrow> http_request \<Rightarrow> RunWorkflowRequest \<Rightarrow> workflowRunActor \<Rightarrow> bool" where
  "resolveWorkflowRunAsyncForActor E store r req actor \<longleftrightarrow>
     wra_machine actor \<noteq> None \<or> wra_principal actor \<noteq> [] \<or> resolveWorkflowRunAsync E store r req"

section \<open>The route\<close>

datatype run_reply =
    RunUnauthorized
  | RunUnavailable
  | RunMalformed
  | RunRefused gate_error
  | RunHangs
  | RunDispatched dispatch_response
  | RunSync RunWorkflowRequest

record run_outcome =
  ro_reply :: run_reply
  ro_bridge :: "ManifestSelector option"
  ro_published :: "EvaluateAuthorizationResponse option"
  ro_started :: "(string \<times> RunWorkflowRequest) option"
  ro_rows :: "run_row list"

definition no_selector :: ManifestSelector where
  "no_selector = \<lparr>sel_manifest_id = [], sel_namespace = [], sel_name = [], sel_version = None\<rparr>"

text \<open>\<open>recordLegacyWorkflowBridgeDispatch\<close>: what is logged, counted and audited.\<close>

definition recordLegacyWorkflowBridgeDispatch :: "workflowRunActor \<Rightarrow> ManifestSelector \<Rightarrow> ManifestSelector option" where
  "recordLegacyWorkflowBridgeDispatch actor selector = (if wra_legacy actor then Some selector else None)"

record 's run_env =
  re_gate :: "'s gate_env"
  re_js :: "gval \<Rightarrow> string"
  re_sha :: "string \<Rightarrow> string"
  re_hex :: "string \<Rightarrow> string"
  re_environ :: environ
  re_config :: workflowRunAuthConfig

definition handleWorkflowRun ::
  "'s run_env \<Rightarrow> bool \<Rightarrow> bool \<Rightarrow> string \<Rightarrow> time \<Rightarrow> identity_db \<Rightarrow> 's Manifest list \<Rightarrow> http_request \<Rightarrow> RunWorkflowRequest option
     \<Rightarrow> run_row list \<Rightarrow> run_outcome" where
  "handleWorkflowRun X broker owner_open newID now db store r body rows =
     (let reply = (\<lambda>a bridge published. \<lparr>ro_reply = a, ro_bridge = bridge, ro_published = published, ro_started = None, ro_rows = rows\<rparr>) in
      case authenticateWorkflowRunRequest (re_sha X) (re_environ X) (re_config X) now r of
        None \<Rightarrow> reply RunUnauthorized None None
      | Some actor \<Rightarrow>
          if \<not> broker then reply RunUnavailable (recordLegacyWorkflowBridgeDispatch actor no_selector) None
          else (case body of
              None \<Rightarrow> reply RunMalformed (recordLegacyWorkflowBridgeDispatch actor no_selector) None
            | Some req \<Rightarrow>
                let bridge = recordLegacyWorkflowBridgeDispatch actor (rq_workflow req) in
                (case authorizeWorkflowDispatch (re_gate X) now db store req actor of
                   (GateRefuses e, published) \<Rightarrow> reply (RunRefused e) bridge published
                 | (GateHangs, published) \<Rightarrow> reply RunHangs bridge published
                 | (GateAllows, published) \<Rightarrow>
                     if resolveWorkflowRunAsyncForActor (re_gate X) store r req actor then
                       (case dispatchAsyncWorkflowRun (re_js X) (re_hex X) (ge_prep (re_gate X)) broker owner_open newID now req actor store rows of
                          (response, started, rows') \<Rightarrow>
                            \<lparr>ro_reply = RunDispatched response, ro_bridge = bridge, ro_published = published, ro_started = started, ro_rows = rows'\<rparr>)
                     else reply (RunSync req) bridge published)))"

section \<open>Facts\<close>

text \<open>
  What the authorization block of a workflow asks for: the RBAC specification grants \<open>run\<close> on the workflow to the
  subjects of the caller, and the policy does not deny it. A signed-in collaborator stands for the subjects that the
  directory gives it, and the policy sees the directory's record of it; any other caller stands for its own subject.
\<close>

definition permitted ::
  "'s gate_env \<Rightarrow> time \<Rightarrow> identity_db \<Rightarrow> 's Manifest list \<Rightarrow> workflowRunActor \<Rightarrow> gmap \<Rightarrow> 's Manifest \<Rightarrow> WorkflowAuthorizationSpec \<Rightarrow> bool" where
  "permitted E now db store actor inputs m authz \<longleftrightarrow>
     (\<exists>rbac policy subjects input. authorization_specs E authz store = Inr (rbac, policy) \<and>
        rbac_decide (rbac, subjects, workflow_resource m, ''run'') \<and>
        (\<forall>p. policy = Some p \<longrightarrow> \<not> policy_applies (pe_lib (ge_prep E)) p (workflow_resource m) ''run''
           (fst (authorizationPolicyInput (normalizeSubjects subjects) input)) ''deny'') \<and>
        (if wra_collaborator actor = [] then subjects = [wra_subject actor] \<and> input = inputs
         else \<exists>c teams. ResolveAuthorizationSubjects (pe_uuid (ge_prep E)) now db (wra_collaborator actor) = Some (Inr (c, teams, subjects)) \<and>
           map_of input = (map_of inputs)(''collaborator'' \<mapsto> collaborator_context c, ''teams'' \<mapsto> GMaps (map team_context teams))))"

lemma gate_evaluate_allows:
  assumes "gate_evaluate E rbac policy resource subjects input = (GateAllows, published)"
  shows "rbac_decide (rbac, subjects, resource, ''run'') \<and>
    (\<forall>p. policy = Some p \<longrightarrow> \<not> policy_applies (pe_lib (ge_prep E)) p resource ''run''
       (fst (authorizationPolicyInput (normalizeSubjects subjects) input)) ''deny'')"
proof -
  obtain r where r: "EvaluateAuthorizationSubjects (pe_lib (ge_prep E)) rbac policy subjects resource ''run'' input = Inr r" "auth_allowed r"
    using assms by (auto simp: gate_evaluate_def split: sum.splits if_splits)
  then show ?thesis using EvaluateAuthorizationSubjects_allowed [OF r(1)] by simp
qed

lemma context_lookup:
  "map_of (workflowAuthorizationContextInput inputs c teams) =
     (map_of inputs)(''collaborator'' \<mapsto> collaborator_context c, ''teams'' \<mapsto> GMaps (map team_context teams))"
  by (simp add: workflowAuthorizationContextInput_def update_conv')

lemma gate_allows:
  assumes "authorizeWorkflowDispatch E now db store req actor = (GateAllows, published)"
  shows "\<exists>m spec. ResolveActiveWorkflowManifestSpec (ge_prep E) (rq_workflow req) store = Inr (m, spec) \<and>
    (\<forall>p. wra_machine actor = Some p \<longrightarrow> workflowMachinePrincipalAllows p (mf_ns m) (mf_name m) \<and>
       TrimSpace (sel_manifest_id (rq_workflow req)) = [] \<and> sel_version (rq_workflow req) = None \<and> wf_authorization spec \<noteq> None) \<and>
    (\<forall>authz. wf_authorization spec = Some authz \<longrightarrow>
       permitted E now db store actor (MergeWorkflowInputs spec (rq_inputs req)) m authz)"
proof -
  obtain m spec where res: "ResolveActiveWorkflowManifestSpec (ge_prep E) (rq_workflow req) store = Inr (m, spec)"
    using assms by (auto simp: authorizeWorkflowDispatch_def Let_def split: if_splits sum.splits)
  have machine: "workflowMachinePrincipalAllows p (mf_ns m) (mf_name m) \<and>
       TrimSpace (sel_manifest_id (rq_workflow req)) = [] \<and> sel_version (rq_workflow req) = None \<and> wf_authorization spec \<noteq> None"
    if "wra_machine actor = Some p" for p
    using assms res that by (auto simp: authorizeWorkflowDispatch_def Let_def split: if_splits option.splits)
  have "permitted E now db store actor (MergeWorkflowInputs spec (rq_inputs req)) m authz" if a: "wf_authorization spec = Some authz" for authz
  proof -
    let ?in = "MergeWorkflowInputs spec (rq_inputs req)"
    obtain rbac policy where sp: "authorization_specs E authz store = Inr (rbac, policy)"
      using assms res a by (auto simp: authorizeWorkflowDispatch_def Let_def split: if_splits sum.splits option.splits)
    show ?thesis
    proof (cases "wra_collaborator actor = []")
      case True
      then have "gate_evaluate E rbac policy (workflow_resource m) [wra_subject actor] ?in = (GateAllows, published)"
        using assms res a sp by (auto simp: authorizeWorkflowDispatch_def Let_def split: if_splits option.splits)
      from gate_evaluate_allows [OF this] sp True show ?thesis unfolding permitted_def by auto
    next
      case False
      then obtain c teams subjects where
        rs: "ResolveAuthorizationSubjects (pe_uuid (ge_prep E)) now db (wra_collaborator actor) = Some (Inr (c, teams, subjects))"
        and ev: "gate_evaluate E rbac policy (workflow_resource m) subjects (workflowAuthorizationContextInput ?in c teams) = (GateAllows, published)"
        using assms res a sp by (auto simp: authorizeWorkflowDispatch_def Let_def split: if_splits option.splits sum.splits)
      from gate_evaluate_allows [OF ev] sp False rs context_lookup [of ?in c teams] show ?thesis unfolding permitted_def by auto
    qed
  qed
  with res machine show ?thesis by blast
qed

lemma route_started:
  assumes "ro_started (handleWorkflowRun X broker owner_open newID now db store r body rows) \<noteq> None \<or>
    (\<exists>req. ro_reply (handleWorkflowRun X broker owner_open newID now db store r body rows) = RunSync req)"
  obtains actor req published where "authenticateWorkflowRunRequest (re_sha X) (re_environ X) (re_config X) now r = Some actor"
    "body = Some req" "authorizeWorkflowDispatch (re_gate X) now db store req actor = (GateAllows, published)"
  using assms by (auto simp: handleWorkflowRun_def Let_def split: option.splits if_splits prod.splits gate_result.splits)

section \<open>Properties\<close>

text \<open>C5: Nothing runs unauthorized. When the route starts a run, asynchronously or synchronously, the caller was
  authenticated, the workflow is the one the selector resolves to and active, and its authorization block, when it has
  one, permits the caller; a workflow without one is closed to machine principals.\<close>
theorem started_runs_authorized:
  assumes "out = handleWorkflowRun X broker owner_open newID now db store r body rows"
    and "ro_started out \<noteq> None \<or> (\<exists>req. ro_reply out = RunSync req)"
  shows "\<exists>actor req m spec. authenticateWorkflowRunRequest (re_sha X) (re_environ X) (re_config X) now r = Some actor \<and> body = Some req \<and>
    ResolveActiveWorkflowManifestSpec (ge_prep (re_gate X)) (rq_workflow req) store = Inr (m, spec) \<and> mf_active m \<and>
    (case wf_authorization spec of None \<Rightarrow> wra_machine actor = None
     | Some authz \<Rightarrow> permitted (re_gate X) now db store actor (MergeWorkflowInputs spec (rq_inputs req)) m authz)"
proof -
  from assms(2) obtain actor req published where a: "authenticateWorkflowRunRequest (re_sha X) (re_environ X) (re_config X) now r = Some actor"
    "body = Some req" "authorizeWorkflowDispatch (re_gate X) now db store req actor = (GateAllows, published)"
    unfolding assms(1) by (rule route_started)
  from gate_allows [OF a(3)] obtain m spec where m: "ResolveActiveWorkflowManifestSpec (ge_prep (re_gate X)) (rq_workflow req) store = Inr (m, spec)"
    "\<forall>p. wra_machine actor = Some p \<longrightarrow> wf_authorization spec \<noteq> None"
    "\<forall>authz. wf_authorization spec = Some authz \<longrightarrow> permitted (re_gate X) now db store actor (MergeWorkflowInputs spec (rq_inputs req)) m authz"
    by blast
  have "mf_active m" using m(1) by (auto simp: ResolveActiveWorkflowManifestSpec_def split: sum.splits if_splits option.splits)
  with a(1,2) m show ?thesis by (intro exI [of _ actor] exI [of _ req] exI [of _ m] exI [of _ spec]) (auto split: option.splits)
qed

text \<open>C4: A machine is confined. A machine principal never reaches the synchronous path; a run it starts is of a workflow
  on its allow-list, selected by namespace and name only, whose authorization block permits its own service subject,
  and the stored run is owned by it.\<close>
theorem machine_dispatch_confined:
  assumes "out = handleWorkflowRun X broker owner_open newID now db store r body rows"
    and "authenticateWorkflowRunRequest (re_sha X) (re_environ X) (re_config X) now r = Some actor" and "wra_machine actor = Some p"
    and "ro_started out \<noteq> None \<or> (\<exists>q. ro_reply out = RunSync q)"
  shows "\<exists>req m spec authz row. body = Some req \<and> (\<exists>i. ro_reply out = RunDispatched (Accepted i)) \<and>
    ResolveActiveWorkflowManifestSpec (ge_prep (re_gate X)) (rq_workflow req) store = Inr (m, spec) \<and>
    workflowMachinePrincipalAllows p (mf_ns m) (mf_name m) \<and> TrimSpace (sel_manifest_id (rq_workflow req)) = [] \<and>
    sel_version (rq_workflow req) = None \<and> wf_authorization spec = Some authz \<and>
    permitted (re_gate X) now db store
      (no_actor\<lparr>wra_subject := \<lparr>subj_type = ''service'', subj_id = mp_id (wmp_base p)\<rparr>, wra_principal := mp_id (wmp_base p), wra_machine := Some p\<rparr>)
      (MergeWorkflowInputs spec (rq_inputs req)) m authz \<and>
    ro_rows out = rows @ [row] \<and>
    map_of (wr_metadata row) creatorKey = (if mp_id (wmp_base p) = [] then None else Some (GStr (mp_id (wmp_base p))))"
proof -
  note actor = authenticated_machine(5) [OF assms(2,3)]
  from assms(4) obtain req published where a: "body = Some req" "authorizeWorkflowDispatch (re_gate X) now db store req actor = (GateAllows, published)"
    unfolding assms(1) by (rule route_started) (use assms(2) in simp)
  have async: "resolveWorkflowRunAsyncForActor (re_gate X) store r req actor"
    using assms(3) by (simp add: resolveWorkflowRunAsyncForActor_def)
  have broker: "broker" using assms(1,2,4) by (cases broker) (auto simp: handleWorkflowRun_def Let_def)
  obtain response started rows' where d: "dispatchAsyncWorkflowRun (re_js X) (re_hex X) (ge_prep (re_gate X)) True owner_open newID now req actor store rows =
      (response, started, rows')" by (rule prod_cases3)
  have out: "ro_reply out = RunDispatched response" "ro_started out = started" "ro_rows out = rows'"
    using assms(1,2) a async broker d by (simp_all add: handleWorkflowRun_def Let_def)
  obtain i where i: "response = Accepted i"
    using d assms(4) out by (auto simp: dispatchAsyncWorkflowRun_def Let_def split: prod.splits sum.splits run_error.splits if_splits)
  obtain md row where row: "rows' = rows @ [row]" "wr_metadata row = md" "map_of md creatorKey = (if wra_principal actor = [] then None else Some (GStr (wra_principal actor)))"
    using d [unfolded i] by (rule accepted_row) (use bind_reserved(1) in \<open>auto simp: new_run_def\<close>)
  from gate_allows [OF a(2)] assms(3) obtain m spec authz where m: "ResolveActiveWorkflowManifestSpec (ge_prep (re_gate X)) (rq_workflow req) store = Inr (m, spec)"
    "workflowMachinePrincipalAllows p (mf_ns m) (mf_name m)" "TrimSpace (sel_manifest_id (rq_workflow req)) = []" "sel_version (rq_workflow req) = None"
    "wf_authorization spec = Some authz" "permitted (re_gate X) now db store actor (MergeWorkflowInputs spec (rq_inputs req)) m authz"
    by blast
  have own: "wra_principal actor = mp_id (wmp_base p)" by (simp add: actor)
  show ?thesis
    by (intro exI [of _ req] exI [of _ m] exI [of _ spec] exI [of _ authz] exI [of _ row] conjI exI [of _ i])
      (use a(1) out i row m own in \<open>simp_all add: actor [symmetric]\<close>)
qed

text \<open>A protected workflow, the RBAC specification it names, and the request of a machine principal that may run it.\<close>

definition ex_gate_rbac :: RBACManifestSpec where
  "ex_gate_rbac = \<lparr>spec_roles = [\<lparr>role_name = ''runner'', role_desc = [],
       role_rules = [\<lparr>rule_desc = [], rule_effect = ''allow'', rule_resources = [''*''], rule_actions = [''*'']\<rparr>]\<rparr>],
     spec_bindings = [\<lparr>bind_name = ''b'', bind_subjects = [\<lparr>subj_type = ''service'', subj_id = ''m1''\<rparr>], bind_roles = [''runner'']\<rparr>]\<rparr>"

definition ex_gate_workflow :: WorkflowManifestSpec where
  "ex_gate_workflow = ex_secret_spec\<lparr>wf_authorization := Some \<lparr>wauth_rbac = no_selector\<lparr>sel_name := ''ops-rbac''\<rparr>, wauth_policy = None\<rparr>\<rparr>"

definition ex_gate_manifest :: "string \<Rightarrow> string \<Rightarrow> string \<Rightarrow> (WorkflowManifestSpec + RBACManifestSpec) \<Rightarrow> (WorkflowManifestSpec + RBACManifestSpec) Manifest" where
  "ex_gate_manifest kind ns name spec = \<lparr>mf_id = name, mf_api = ''v1'', mf_kind = kind, mf_ns = ns, mf_name = name, mf_version = 1, mf_active = True,
     mf_description = [], mf_labels = [], mf_spec = spec, mf_checksum = [], mf_created = 1, mf_updated = 1\<rparr>"

definition ex_gate_store :: "(WorkflowManifestSpec + RBACManifestSpec) Manifest list" where
  "ex_gate_store = [ex_gate_manifest ''workflow'' ''ops'' ''sync'' (Inl ex_gate_workflow), ex_gate_manifest ''rbac'' ''global'' ''ops-rbac'' (Inr ex_gate_rbac)]"

definition ex_run_env :: "(WorkflowManifestSpec + RBACManifestSpec) run_env" where
  "ex_run_env = \<lparr>re_gate = \<lparr>ge_prep = \<lparr>pe_lib = ex_golib, pe_triggers = ex_triggerlib, pe_uuid = Some,
        pe_parse = (\<lambda>s. case s of Inl spec \<Rightarrow> Some spec | Inr _ \<Rightarrow> None), pe_lock_decode = (\<lambda>_. None), pe_lock = None\<rparr>,
      ge_rbac = (\<lambda>s. case s of Inl _ \<Rightarrow> None | Inr spec \<Rightarrow> Some spec), ge_policy = (\<lambda>s. None)\<rparr>,
     re_js = (\<lambda>v. []), re_sha = al_sha ex_auth_lib, re_hex = (\<lambda>s. s), re_environ = ex_environ,
     re_config = \<lparr>wac_principals = [ex_principal], wac_err = None, wac_legacy = no_legacy, wac_legacy_err = None\<rparr>\<rparr>"

definition ex_gate_request :: RunWorkflowRequest where
  "ex_gate_request = \<lparr>rq_workflow = no_selector\<lparr>sel_namespace := ''ops'', sel_name := ''sync''\<rparr>, rq_inputs = [(''image'', GStr ''app'')], rq_token = [],
     rq_metadata = []\<rparr>"

definition ex_outcome :: run_outcome where
  "ex_outcome = handleWorkflowRun ex_run_env True True ''r1'' 5 ex_identity ex_gate_store ex_http_request (Some ex_gate_request) []"

definition ex_machine_actor :: workflowRunActor where
  "ex_machine_actor = no_actor\<lparr>wra_subject := \<lparr>subj_type = ''service'', subj_id = ''m1''\<rparr>, wra_principal := ''m1'', wra_machine := Some ex_principal\<rparr>"

lemma ex_gate_step1:
  "authenticateWorkflowRunRequest (re_sha ex_run_env) (re_environ ex_run_env) (re_config ex_run_env) 5 ex_http_request = Some ex_machine_actor"
  by code_simp

lemma ex_gate_step2:
  "ResolveActiveWorkflowManifestSpec (ge_prep (re_gate ex_run_env)) (rq_workflow ex_gate_request) ex_gate_store =
     Inr (ex_gate_manifest ''workflow'' ''ops'' ''sync'' (Inl ex_gate_workflow), ex_gate_workflow)"
  by code_simp

lemma ex_gate_step3:
  "authorization_specs (re_gate ex_run_env) \<lparr>wauth_rbac = no_selector\<lparr>sel_name := ''ops-rbac''\<rparr>, wauth_policy = None\<rparr> ex_gate_store = Inr (ex_gate_rbac, None)"
  by code_simp

lemma ex_gate_step4:
  "fst (gate_evaluate (re_gate ex_run_env) ex_gate_rbac None ''workflow:ops:sync'' [\<lparr>subj_type = ''service'', subj_id = ''m1''\<rparr>]
     (MergeWorkflowInputs ex_gate_workflow (rq_inputs ex_gate_request))) = GateAllows"
  by code_simp

lemma ex_gate_step5:
  "workflowMachinePrincipalAllows ex_principal ''ops'' ''sync''"
  by code_simp

lemma ex_gate_step6:
  "fst (snd (dispatchAsyncWorkflowRun (re_js ex_run_env) (re_hex ex_run_env) (ge_prep (re_gate ex_run_env)) True True ''r1'' 5 ex_gate_request
     ex_machine_actor ex_gate_store [])) \<noteq> None"
  by code_simp

lemmas ex_gate_steps = ex_gate_step1 ex_gate_step2 ex_gate_step3 ex_gate_step4 ex_gate_step5 ex_gate_step6

lemma ex_gate_answer: "fst (authorizeWorkflowDispatch (re_gate ex_run_env) 5 ex_identity ex_gate_store ex_gate_request ex_machine_actor) = GateAllows"
proof -
  have sel: "TrimSpace (sel_manifest_id (rq_workflow ex_gate_request)) = []" "sel_version (rq_workflow ex_gate_request) = None"
    "mf_ns (ex_gate_manifest ''workflow'' ''ops'' ''sync'' (Inl ex_gate_workflow)) = ''ops''"
    "mf_name (ex_gate_manifest ''workflow'' ''ops'' ''sync'' (Inl ex_gate_workflow)) = ''sync''"
    "workflow_resource (ex_gate_manifest ''workflow'' ''ops'' ''sync'' (Inl ex_gate_workflow)) = ''workflow:ops:sync''" by code_simp+
  have "wf_authorization ex_gate_workflow = Some \<lparr>wauth_rbac = no_selector\<lparr>sel_name := ''ops-rbac''\<rparr>, wauth_policy = None\<rparr>"
    by (simp add: ex_gate_workflow_def)
  then show ?thesis unfolding authorizeWorkflowDispatch_def Let_def ex_gate_steps(2)
    by (simp add: sel ex_gate_steps ex_machine_actor_def)
qed

lemma ex_outcome_started: "ro_started ex_outcome \<noteq> None"
proof -
  obtain published where g: "authorizeWorkflowDispatch (re_gate ex_run_env) 5 ex_identity ex_gate_store ex_gate_request ex_machine_actor = (GateAllows, published)"
    using ex_gate_answer by (metis prod.collapse)
  have a: "resolveWorkflowRunAsyncForActor (re_gate ex_run_env) ex_gate_store ex_http_request ex_gate_request ex_machine_actor"
    by (simp add: resolveWorkflowRunAsyncForActor_def ex_machine_actor_def)
  show ?thesis using ex_gate_steps(6) unfolding ex_outcome_def handleWorkflowRun_def Let_def ex_gate_steps(1)
    by (simp add: g a split_beta)
qed

theorem started_runs_authorized_witness:
  "ro_started ex_outcome \<noteq> None \<and>
   (\<exists>actor m spec. authenticateWorkflowRunRequest (re_sha ex_run_env) (re_environ ex_run_env) (re_config ex_run_env) 5 ex_http_request = Some actor \<and>
      ResolveActiveWorkflowManifestSpec (ge_prep (re_gate ex_run_env)) (rq_workflow ex_gate_request) ex_gate_store = Inr (m, spec) \<and> mf_active m)"
proof -
  have "\<exists>actor req m spec. authenticateWorkflowRunRequest (re_sha ex_run_env) (re_environ ex_run_env) (re_config ex_run_env) 5 ex_http_request = Some actor \<and>
      Some ex_gate_request = Some req \<and>
      ResolveActiveWorkflowManifestSpec (ge_prep (re_gate ex_run_env)) (rq_workflow req) ex_gate_store = Inr (m, spec) \<and> mf_active m"
    using started_runs_authorized [OF ex_outcome_def disjI1 [OF ex_outcome_started]] by (elim exE conjE) (intro exI conjI)
  then show ?thesis using ex_outcome_started by auto
qed

theorem machine_dispatch_confined_witness:
  "\<exists>row. ro_rows ex_outcome = [row] \<and> map_of (wr_metadata row) creatorKey = Some (GStr ''m1'')"
proof -
  have m: "wra_machine ex_machine_actor = Some ex_principal" by (simp add: ex_machine_actor_def)
  have i: "mp_id (wmp_base ex_principal) = ''m1''" by (simp add: ex_principal_def)
  from machine_dispatch_confined [OF ex_outcome_def ex_gate_steps(1) m disjI1 [OF ex_outcome_started]] show ?thesis
    unfolding i by (elim exE conjE) auto
qed

end
