(* ===== verification/Team_Protection.thy ===== *)
theory Team_Protection
  imports Team_Ancestry
begin

text \<open>
  The protection of root-admin teams and of the last management grant, over every sequence of the operations of
  \<open>repository/identity.go\<close> on teams, memberships and grants.
\<close>

section \<open>The invariant of the tables\<close>

text \<open>The links of the memberships, and the leads of a team.\<close>

definition links :: "TeamMembership list \<Rightarrow> (string \<times> string \<times> bool) list" where
  "links ms = map (\<lambda>m. (mb_team m, mb_collaborator m, mb_lead m)) ms"

definition leads :: "string \<Rightarrow> TeamMembership list \<Rightarrow> string set" where
  "leads i ms = {c. (i, c, True) \<in> set (links ms)}"

text \<open>
  Keys are unique, a parent is a stored team, and a root-admin team has no owners and no leads. The primary keys of new
  rows are fresh.
\<close>

definition identity_ok :: "(string \<Rightarrow> string option) \<Rightarrow> identity_db \<Rightarrow> bool" where
  "identity_ok uuid db \<longleftrightarrow>
     teams_ok uuid db \<and> distinct (map tg_id (db_grants db)) \<and>
     (\<forall>t\<in>set (db_teams db). isTeamRootAdmin t \<longrightarrow> team_owners t = [] \<and> leads (team_id t) (db_members db) = {}) \<and>
     (\<forall>(i, c, l)\<in>set (links (db_members db)). i \<in> team_id ` set (db_teams db))"

inductive identity_step :: "(string \<Rightarrow> string option) \<Rightarrow> (gval \<Rightarrow> string) \<Rightarrow> identity_db \<Rightarrow> identity_db \<Rightarrow> bool"
  for uuid js where
  create_team: "createTeamOn uuid newID now i db req = Inr (t, db') \<Longrightarrow> i \<notin> team_id ` set (db_teams db) \<Longrightarrow> canonical uuid i \<Longrightarrow>
    identity_step uuid js db db'"
| update_team: "updateTeamOn uuid js newID now db req = Inr (t, db') \<Longrightarrow> identity_step uuid js db db'"
| delete_team: "deleteTeamOn uuid now db identity = Inr (t, db') \<Longrightarrow> identity_step uuid js db db'"
| delete_collaborator: "DeleteCollaborator uuid now db identity = Inr (c, db') \<Longrightarrow> identity_step uuid js db db'"
| upsert_membership: "upsertTeamMembershipOn uuid now i db req = Inr db' \<Longrightarrow> identity_step uuid js db db'"
| grant_action: "GrantTeamAction uuid now i db req = Inr db' \<Longrightarrow> i \<notin> tg_id ` set (db_grants db) \<Longrightarrow> identity_step uuid js db db'"
| revoke_grant: "revokeTeamGrantOn uuid db i = Inr (g, db') \<Longrightarrow> identity_step uuid js db db'"

text \<open>What an operation keeps of a root-admin team.\<close>

definition grant_key :: "TeamGrant \<Rightarrow> string \<times> string \<times> string \<times> string \<times> gmap" where
  "grant_key g = (tg_id g, tg_ns g, tg_name g, tg_action g, tg_scope g)"

definition team_grant_keys :: "string \<Rightarrow> identity_db \<Rightarrow> (string \<times> string \<times> string \<times> string \<times> gmap) set" where
  "team_grant_keys i db = grant_key ` {g \<in> set (db_grants db). tg_team g = i}"

definition root_kept :: "Team \<Rightarrow> identity_db \<Rightarrow> identity_db \<Rightarrow> bool" where
  "root_kept t db db' \<longleftrightarrow>
     (\<exists>t'\<in>set (db_teams db'). team_id t' = team_id t \<and> isTeamRootAdmin t' \<and> team_slug t' = team_slug t \<and> team_type t' = team_type t \<and>
        (team_status t = ''active'' \<longrightarrow> team_status t' = ''active'')) \<and>
     team_grant_keys (team_id t) db' = team_grant_keys (team_id t) db"

lemma teams_ok_put:
  assumes "teams_ok uuid db" and "t \<in> set (db_teams db)" and "team_id t' = team_id t"
    and "\<And>p. team_parent t' = Some p \<Longrightarrow> p \<in> team_id ` set (db_teams db)"
  shows "teams_ok uuid (db\<lparr>db_teams := put_team t' (db_teams db)\<rparr>)"
proof -
  have "map team_id (put_team t' (db_teams db)) = map team_id (db_teams db)" by (simp add: put_team_def)
  moreover from this have "team_id ` set (put_team t' (db_teams db)) = team_id ` set (db_teams db)" by (metis set_map)
  moreover have "set (put_team t' (db_teams db)) \<subseteq> insert t' (set (db_teams db))" by (auto simp: put_team_def)
  moreover have "canonical uuid (team_id u)" "team_parent u = Some p \<Longrightarrow> p \<in> team_id ` set (db_teams db)"
    if "u \<in> insert t' (set (db_teams db))" for u p
    using that assms by (auto simp: teams_ok_def)
  moreover have "distinct (map team_id (db_teams db))" using assms(1) by (simp add: teams_ok_def)
  ultimately show ?thesis unfolding teams_ok_def by (simp del: map_map) blast
qed

lemma resolveOptionalTeamIDOn_in:
  "resolveOptionalTeamIDOn uuid db p = Inr (Some i) \<Longrightarrow> i \<in> team_id ` set (db_teams db)"
  by (cases "getTeamOn uuid db p") (auto simp: resolveOptionalTeamIDOn_def dest: getTeamOn_in split: if_splits)

text \<open>An owner assertion touches the memberships of its team only, and leads are among the owners.\<close>

lemma in_links: "(i, c, l) \<in> set (links ms) \<longleftrightarrow> (\<exists>m\<in>set ms. mb_team m = i \<and> mb_collaborator m = c \<and> mb_lead m = l)"
  by (auto simp: links_def)

lemma links_assert_lead:
  "links (assert_lead newID now team c ms) =
     (if list_ex (\<lambda>(i, d, l). i = team \<and> d = c) (links ms)
      then map (\<lambda>(i, d, l). (i, d, l \<or> (i = team \<and> d = c))) (links ms) else links ms @ [(team, c, True)])"
  by (auto simp: assert_lead_def links_def list_ex_iff)

lemma links_revoke:
  "links (revoke_leads now team ids ms) = map (\<lambda>(i, d, l). (i, d, l \<and> (i = team \<longrightarrow> d \<in> set ids))) (links ms)"
  by (auto simp: revoke_leads_def links_def)

lemma links_fold:
  assumes "(i, c, l) \<in> set (links (fold (assert_lead newID now team) cs ms))"
  shows "i \<in> insert team (fst ` set (links ms))" "l \<Longrightarrow> (i, c, True) \<in> set (links ms) \<or> (i = team \<and> c \<in> set cs)"
proof -
  have "i \<in> insert team (fst ` set (links ms)) \<and> (l \<longrightarrow> (i, c, True) \<in> set (links ms) \<or> (i = team \<and> c \<in> set cs))"
    using assms
  proof (induction cs arbitrary: ms)
    case (Cons d cs)
    from Cons.IH [of "assert_lead newID now team d ms"] Cons.prems show ?case
      by (auto simp: links_assert_lead split: if_splits)
  qed force
  then show "i \<in> insert team (fst ` set (links ms))" "l \<Longrightarrow> (i, c, True) \<in> set (links ms) \<or> (i = team \<and> c \<in> set cs)" by blast+
qed

lemma ensureOwnerMemberships_links:
  assumes "ensureOwnerMemberships uuid newID now db team owners = Inr db'"
  shows "db' = db\<lparr>db_members := db_members db'\<rparr>"
    and "(i, c, l) \<in> set (links (db_members db')) \<Longrightarrow> i \<in> insert team (fst ` set (links (db_members db)))"
    and "(i, c, True) \<in> set (links (db_members db')) \<Longrightarrow> i \<noteq> team \<Longrightarrow> (i, c, True) \<in> set (links (db_members db))"
    and "owners = [] \<Longrightarrow> (team, c, True) \<notin> set (links (db_members db'))"
proof -
  obtain ids where ids: "owner_ids uuid db [] owners = Inr ids"
    and db': "db' = db\<lparr>db_members := fold (assert_lead newID now team) ids (revoke_leads now team ids (db_members db))\<rparr>"
    using assms by (auto simp: ensureOwnerMemberships_def split: sum.splits)
  show "db' = db\<lparr>db_members := db_members db'\<rparr>" by (simp add: db')
  have m: "db_members db' = fold (assert_lead newID now team) ids (revoke_leads now team ids (db_members db))" by (simp add: db')
  show "i \<in> insert team (fst ` set (links (db_members db)))" if "(i, c, l) \<in> set (links (db_members db'))"
    using links_fold(1) [OF that [unfolded m]] by (force simp: links_revoke)
  show "(i, c, True) \<in> set (links (db_members db))" if "(i, c, True) \<in> set (links (db_members db'))" "i \<noteq> team"
    using links_fold(2) [OF that(1) [unfolded m] TrueI] that(2) by (auto simp: links_revoke)
  show "(team, c, True) \<notin> set (links (db_members db'))" if "owners = []"
    using ids that unfolding m by (auto simp: links_revoke)
qed

section \<open>Every operation keeps the invariant and the root-admin teams\<close>

lemma root_kept_same:
  assumes "t \<in> set (db_teams db')" and "isTeamRootAdmin t" and "db_grants db' = db_grants db"
  shows "root_kept t db db'"
  using assms by (auto simp: root_kept_def team_grant_keys_def)

lemma members_step:
  assumes "identity_ok uuid db" and "db' = db\<lparr>db_members := ms\<rparr>"
    and "\<And>i c l. (i, c, l) \<in> set (links ms) \<Longrightarrow> i \<in> team_id ` set (db_teams db)"
    and "\<And>t c. t \<in> set (db_teams db) \<Longrightarrow> isTeamRootAdmin t \<Longrightarrow> (team_id t, c, True) \<notin> set (links ms)"
  shows "identity_ok uuid db'" "t \<in> set (db_teams db) \<Longrightarrow> isTeamRootAdmin t \<Longrightarrow> root_kept t db db'"
proof -
  have "teams_ok uuid db'" using assms(1,2) by (simp add: identity_ok_def teams_ok_def)
  then show "identity_ok uuid db'" using assms by (auto simp: identity_ok_def leads_def)
  show "root_kept t db db'" if "t \<in> set (db_teams db)" "isTeamRootAdmin t"
    using that assms(2) by (intro root_kept_same) simp_all
qed

lemma create_facts:
  assumes "createTeamOn uuid newID now i db req = Inr (t, db')"
  shows "team_id t = i" "\<And>p. team_parent t = Some p \<Longrightarrow> p \<in> team_id ` set (db_teams db)" "isTeamRootAdmin t \<Longrightarrow> team_owners t = []"
    "ensureOwnerMemberships uuid newID now (db\<lparr>db_teams := db_teams db @ [t]\<rparr>) i (team_owners t) = Inr db'"
  using assms
  by (auto simp: createTeamOn_def Let_def isTeamRootAdmin_def map_sum_def dest: resolveOptionalTeamIDOn_in split: if_splits sum.splits)

lemma update_facts:
  fixes uuid db now current req
  defines "t \<equiv> patched_team uuid db now current req"
  assumes "update_error uuid js db current t req = None"
  shows "isTeamRootAdmin current \<Longrightarrow> isTeamRootAdmin t"
    and "isTeamRootAdmin current \<Longrightarrow> team_slug t = team_slug current"
    and "isTeamRootAdmin current \<Longrightarrow> team_type t = team_type current"
    and "isTeamRootAdmin current \<Longrightarrow> team_status current = ''active'' \<Longrightarrow> team_status t = ''active''"
    and "isTeamRootAdmin t \<Longrightarrow> team_owners t = []"
    and "isTeamRootAdmin t \<Longrightarrow> \<not> isTeamRootAdmin current \<Longrightarrow> leads (team_id current) (db_members db) = {}"
    and "team_parent t = Some p \<Longrightarrow> team_parent current = Some p \<or> p \<in> team_id ` set (db_teams db)"
    and "team_id t = team_id current"
proof -
  note e = assms(2) [unfolded update_error_def Let_def first_err_None, simplified, unfolded guard_err_None e_then_None]
  have f: "team_slug t = given (ut_slug req) (team_slug current) normalizeSlug"
    "team_type t = given (ut_type req) (team_type current) normalizeTeamType"
    "team_status t = given (ut_status req) (team_status current) normalizeStatus"
    "team_parent t = given (ut_parent req) (team_parent current)
               (\<lambda>p. case resolveOptionalTeamIDOn uuid db p of Inl _ \<Rightarrow> None | Inr v \<Rightarrow> if v = Some nil_uuid then None else v)"
    "team_traits t = given (ut_traits req) (team_traits current)
               (\<lambda>m. if isTeamRootAdmin current then AList.update ''is_root_admin'' (GBool True) m else m)"
    by (simp_all add: t_def patched_team_def)
  show "team_id t = team_id current" by (simp add: t_def patched_team_def)
  show "isTeamRootAdmin current \<Longrightarrow> isTeamRootAdmin t"
    by (cases "ut_traits req") (simp_all add: isTeamRootAdmin_def f given_def root_trait_def update_conv')
  show "isTeamRootAdmin current \<Longrightarrow> team_slug t = team_slug current"
    using e by (cases "ut_slug req") (simp_all add: f given_def)
  show "isTeamRootAdmin current \<Longrightarrow> team_type t = team_type current"
    using e by (cases "ut_type req") (simp_all add: f given_def)
  show "isTeamRootAdmin current \<Longrightarrow> team_status current = ''active'' \<Longrightarrow> team_status t = ''active''"
    using e by (cases "ut_status req") (simp_all add: f given_def)
  show "isTeamRootAdmin t \<Longrightarrow> team_owners t = []"
    using e by blast
  show "isTeamRootAdmin t \<Longrightarrow> \<not> isTeamRootAdmin current \<Longrightarrow> leads (team_id current) (db_members db) = {}"
    using e by (auto simp: leads_def links_def list_ex_iff)
  show "team_parent t = Some p \<Longrightarrow> team_parent current = Some p \<or> p \<in> team_id ` set (db_teams db)"
    by (auto simp: f given_def dest: resolveOptionalTeamIDOn_in split: option.splits sum.splits if_splits)
qed

lemma create_step:
  assumes ok: "identity_ok uuid db" and c: "createTeamOn uuid newID now i db req = Inr (t, db')"
    and i: "i \<notin> team_id ` set (db_teams db)" "canonical uuid i"
  shows "identity_ok uuid db'" "u \<in> set (db_teams db) \<Longrightarrow> isTeamRootAdmin u \<Longrightarrow> root_kept u db db'"
proof -
  note f = create_facts [OF c]
  let ?mid = "db\<lparr>db_teams := db_teams db @ [t]\<rparr>"
  note m = ensureOwnerMemberships_links [OF f(4)]
  have teams: "teams_ok uuid ?mid"
    using ok i f(1,2) by (auto simp: identity_ok_def teams_ok_def)
  have fresh: "(i, d, l) \<notin> set (links (db_members db))" for d l
    using ok i(1) by (auto simp: identity_ok_def)
  have "leads i (db_members db) = {}" using fresh by (auto simp: leads_def)
  then have mid: "identity_ok uuid ?mid"
    using ok teams f(1,3) by (auto simp: identity_ok_def)
  show "identity_ok uuid db'"
  proof (rule members_step(1) [OF mid m(1)])
    show "j \<in> team_id ` set (db_teams ?mid)" if "(j, d, l) \<in> set (links (db_members db'))" for j d l
      using m(2) [OF that] ok f(1) by (auto simp: identity_ok_def)
    show "(team_id v, d, True) \<notin> set (links (db_members db'))" if "v \<in> set (db_teams ?mid)" "isTeamRootAdmin v" for v d
    proof (cases "team_id v = i")
      case True
      then have "v = t" using that(1) i(1) by auto
      then show ?thesis using m(4) f(1,3) that(2) by simp
    next
      case False
      then show ?thesis using m(3) [of "team_id v" d] that mid by (auto simp: identity_ok_def leads_def)
    qed
  qed
  show "root_kept u db db'" if "u \<in> set (db_teams db)" "isTeamRootAdmin u"
    using that arg_cong [OF m(1), of db_teams] arg_cong [OF m(1), of db_grants] by (intro root_kept_same) simp_all
qed

lemma update_step:
  assumes ok: "identity_ok uuid db" and c: "updateTeamOn uuid js newID now db req = Inr (t, db')"
  shows "identity_ok uuid db'" "u \<in> set (db_teams db) \<Longrightarrow> isTeamRootAdmin u \<Longrightarrow> root_kept u db db'"
proof -
  obtain current where cur: "getTeamOn uuid db (ut_id req) = Inr current" and t: "t = patched_team uuid db now current req"
    and e: "update_error uuid js db current t req = None"
    and db': "db' = db\<lparr>db_teams := put_team t (db_teams db)\<rparr> \<or>
      ensureOwnerMemberships uuid newID now (db\<lparr>db_teams := put_team t (db_teams db)\<rparr>) (team_id t) (team_owners t) = Inr db'"
    using c by (auto simp: updateTeamOn_def Let_def map_sum_Inr split: sum.splits option.splits if_splits)
  let ?mid = "db\<lparr>db_teams := put_team t (db_teams db)\<rparr>"
  have in_db: "current \<in> set (db_teams db)" using cur by (rule getTeamOn_in)
  note f = update_facts [OF e [unfolded t], folded t]
  have ok': "teams_ok uuid db" using ok by (simp add: identity_ok_def)
  have "teams_ok uuid ?mid"
    using f(7,8) in_db ok' by (intro teams_ok_put) (auto simp: teams_ok_def)
  moreover have members: "v = t \<or> (v \<in> set (db_teams db) \<and> team_id v \<noteq> team_id t)" if "v \<in> set (put_team t (db_teams db))" for v
    using that by (auto simp: put_team_def)
  have leads_root: "leads (team_id t) (db_members db) = {}" if "isTeamRootAdmin t"
    using f(6) [OF that] f(8) ok in_db by (cases "isTeamRootAdmin current") (auto simp: identity_ok_def)
  have ids: "team_id ` set (put_team t (db_teams db)) = team_id ` set (db_teams db)"
    unfolding set_map [symmetric] by (rule arg_cong [where f = set]) (simp add: put_team_def)
  ultimately have mid: "identity_ok uuid ?mid"
    using ok f(5) leads_root by (auto simp: identity_ok_def dest!: members)
  show "identity_ok uuid db'"
    using db'
  proof
    assume "ensureOwnerMemberships uuid newID now ?mid (team_id t) (team_owners t) = Inr db'"
    note m = ensureOwnerMemberships_links [OF this]
    show ?thesis
    proof (rule members_step(1) [OF mid m(1)])
      show "j \<in> team_id ` set (db_teams ?mid)" if "(j, d, l) \<in> set (links (db_members db'))" for j d l
        using m(2) [OF that] ok f(8) in_db by (auto simp: identity_ok_def ids)
      show "(team_id v, d, True) \<notin> set (links (db_members db'))" if "v \<in> set (db_teams ?mid)" "isTeamRootAdmin v" for v d
        using m(3) [of "team_id v" d] m(4) [of d] f(5) mid that members [of v]
        by (cases "team_id v = team_id t") (auto simp: identity_ok_def leads_def)
    qed
  qed (simp add: mid)
  have same: "db_teams db' = put_team t (db_teams db)" "db_grants db' = db_grants db"
  proof -
    have "db_teams db' = put_team t (db_teams db) \<and> db_grants db' = db_grants db"
      using db'
    proof
      assume "ensureOwnerMemberships uuid newID now ?mid (team_id t) (team_owners t) = Inr db'"
      note m = ensureOwnerMemberships_links(1) [OF this]
      show ?thesis using arg_cong [OF m, of db_teams] arg_cong [OF m, of db_grants] by simp
    qed simp
    then show "db_teams db' = put_team t (db_teams db)" "db_grants db' = db_grants db" by simp_all
  qed
  show "root_kept u db db'" if u: "u \<in> set (db_teams db)" "isTeamRootAdmin u"
  proof (cases "team_id u = team_id t")
    case True
    then have "u = current" using same_id [OF ok' u(1) in_db] f(8) by simp
    moreover have "t \<in> set (put_team t (db_teams db))" using u(1) True by (auto simp: put_team_def image_iff)
    ultimately show ?thesis using same f(1-4,8) u(2) unfolding root_kept_def team_grant_keys_def by auto
  next
    case False
    then have "u \<in> set (put_team t (db_teams db))" using u(1) by (auto simp: put_team_def image_iff)
    then show ?thesis using same u(2) by (intro root_kept_same) simp_all
  qed
qed

lemma delete_team_step:
  assumes ok: "identity_ok uuid db" and c: "deleteTeamOn uuid now db identity = Inr (t, db')"
  shows "identity_ok uuid db'" "u \<in> set (db_teams db) \<Longrightarrow> isTeamRootAdmin u \<Longrightarrow> root_kept u db db'"
proof -
  let ?orphan = "\<lambda>v. if team_parent v = Some (team_id t) then v\<lparr>team_parent := None, team_updated := now\<rparr> else v"
  let ?left = "filter (\<lambda>v. team_id v \<noteq> team_id t) (db_teams db)"
  have t: "getTeamOn uuid db identity = Inr t" "\<not> isTeamRootAdmin t"
    and teams: "db_teams db' = map ?orphan ?left"
    and members: "db_members db' = filter (\<lambda>m. mb_team m \<noteq> team_id t) (db_members db)"
    and grants: "db_grants db' = filter (\<lambda>g. tg_team g \<noteq> team_id t) (db_grants db)"
    using c by (auto simp: deleteTeamOn_def split: sum.splits if_splits)
  have in_db: "t \<in> set (db_teams db)" using t(1) by (rule getTeamOn_in)
  have fields: "team_id (?orphan v) = team_id v" "isTeamRootAdmin (?orphan v) = isTeamRootAdmin v" "team_owners (?orphan v) = team_owners v"
    "team_slug (?orphan v) = team_slug v" "team_type (?orphan v) = team_type v" "team_status (?orphan v) = team_status v" for v
    by (simp_all add: isTeamRootAdmin_def)
  have ids: "map team_id (db_teams db') = map team_id ?left" by (simp add: teams)
  have id_set: "team_id ` set (db_teams db') = team_id ` set (db_teams db) - {team_id t}"
    unfolding set_map [symmetric] ids by auto
  have links': "set (links (db_members db')) = {(i, c, l) \<in> set (links (db_members db)). i \<noteq> team_id t}"
    by (auto simp: members links_def)
  have "teams_ok uuid db'"
    unfolding teams_ok_def
  proof (intro conjI ballI)
    show "distinct (map team_id (db_teams db'))"
      unfolding ids using ok by (simp add: identity_ok_def teams_ok_def distinct_map_filter)
    fix w assume "w \<in> set (db_teams db')"
    then obtain v where v: "v \<in> set (db_teams db)" "w = ?orphan v" by (auto simp: teams)
    show "canonical uuid (team_id w)" using ok v fields(1) [of v] by (simp add: identity_ok_def teams_ok_def)
    show "\<forall>p. team_parent w = Some p \<longrightarrow> p \<in> team_id ` set (db_teams db')"
      using ok v unfolding id_set by (auto simp: identity_ok_def teams_ok_def split: if_splits)
  qed
  moreover have "team_owners w = [] \<and> leads (team_id w) (db_members db') = {}" if w: "w \<in> set (db_teams db')" "isTeamRootAdmin w" for w
  proof -
    obtain v where v: "v \<in> set (db_teams db)" "w = ?orphan v" using w(1) by (auto simp: teams)
    have "isTeamRootAdmin v" using w(2) v(2) fields(2) [of v] by simp
    then have "team_owners v = [] \<and> leads (team_id v) (db_members db) = {}" using ok v(1) by (simp add: identity_ok_def)
    moreover have "leads (team_id v) (db_members db') \<subseteq> leads (team_id v) (db_members db)" by (auto simp: leads_def links')
    ultimately show ?thesis using v(2) fields(1,3) [of v] by simp
  qed
  moreover have "distinct (map tg_id (db_grants db'))" using ok by (simp add: grants identity_ok_def distinct_map_filter)
  moreover have "\<forall>(i, c, l)\<in>set (links (db_members db')). i \<in> team_id ` set (db_teams db')"
    using ok unfolding links' id_set by (auto simp: identity_ok_def)
  ultimately show "identity_ok uuid db'" by (simp add: identity_ok_def)
  show "root_kept u db db'" if u: "u \<in> set (db_teams db)" "isTeamRootAdmin u"
  proof -
    have ne: "team_id u \<noteq> team_id t"
      using same_id [of uuid db u t] ok u in_db t(2) by (auto simp: identity_ok_def)
    then have "?orphan u \<in> set (db_teams db')" using u(1) by (simp add: teams)
    moreover have "team_grant_keys (team_id u) db' = team_grant_keys (team_id u) db"
      using ne by (auto simp: team_grant_keys_def grants)
    ultimately show ?thesis unfolding root_kept_def using fields [of u] u(2) by (intro conjI bexI [of _ "?orphan u"]) simp_all
  qed
qed

lemma delete_collaborator_step:
  assumes ok: "identity_ok uuid db" and c: "DeleteCollaborator uuid now db identity = Inr (d, db')"
  shows "identity_ok uuid db'" "u \<in> set (db_teams db) \<Longrightarrow> isTeamRootAdmin u \<Longrightarrow> root_kept u db db'"
proof -
  have teams: "db_teams db' = db_teams db"
    and members: "db_members db' = filter (\<lambda>m. mb_collaborator m \<noteq> co_id d) (db_members db)"
    and grants: "db_grants db' = map (\<lambda>g. if tg_by g = Some (co_id d) then g\<lparr>tg_by := None\<rparr> else g) (db_grants db)"
    using c by (auto simp: DeleteCollaborator_def split: sum.splits)
  have links': "set (links (db_members db')) = {(i, c, l) \<in> set (links (db_members db)). c \<noteq> co_id d}"
    by (auto simp: members links_def)
  have ids: "map tg_id (db_grants db') = map tg_id (db_grants db)" by (simp add: grants)
  have "leads i (db_members db') = {}" if "leads i (db_members db) = {}" for i using that by (auto simp: leads_def links')
  then show "identity_ok uuid db'"
    using ok unfolding identity_ok_def teams_ok_def teams ids links' by (auto simp del: map_map)
  have "team_grant_keys i db' = team_grant_keys i db" for i
  proof -
    have "map (\<lambda>g. (tg_team g, grant_key g)) (db_grants db') = map (\<lambda>g. (tg_team g, grant_key g)) (db_grants db)"
      by (simp add: grants grant_key_def)
    from arg_cong [OF this, of set]
    have "(\<lambda>g. (tg_team g, grant_key g)) ` set (db_grants db') = (\<lambda>g. (tg_team g, grant_key g)) ` set (db_grants db)"
      by (simp only: set_map)
    moreover have "team_grant_keys i D = snd ` {x \<in> (\<lambda>g. (tg_team g, grant_key g)) ` set (db_grants D). fst x = i}" for D
    proof -
      have "{x \<in> (\<lambda>g. (tg_team g, grant_key g)) ` set (db_grants D). fst x = i} = (\<lambda>g. (tg_team g, grant_key g)) ` {g \<in> set (db_grants D). tg_team g = i}"
        by auto
      then show ?thesis by (simp add: team_grant_keys_def image_image)
    qed
    ultimately show ?thesis by simp
  qed
  then show "u \<in> set (db_teams db) \<Longrightarrow> isTeamRootAdmin u \<Longrightarrow> root_kept u db db'" by (auto simp: root_kept_def teams)
qed

lemma upsert_step:
  assumes ok: "identity_ok uuid db" and c: "upsertTeamMembershipOn uuid now i db req = Inr db'"
  shows "identity_ok uuid db'" "u \<in> set (db_teams db) \<Longrightarrow> isTeamRootAdmin u \<Longrightarrow> root_kept u db db'"
proof -
  obtain t d where t: "getTeamOn uuid db (um_team req) = Inr t"
    and m: "db' = db\<lparr>db_members := db_members db'\<rparr>"
    and l: "links (db_members db') = links (db_members db) \<or> links (db_members db') = links (db_members db) @ [(team_id t, d, False)]"
    using c by (auto simp: upsertTeamMembershipOn_def Let_def links_def split: sum.splits if_splits)
  have in_db: "t \<in> set (db_teams db)" using t by (rule getTeamOn_in)
  have old: "j \<in> team_id ` set (db_teams db)" if "(j, c, b) \<in> set (links (db_members db'))" for j c b
    using ok l that in_db by (auto simp: identity_ok_def)
  have none: "(team_id v, c, True) \<notin> set (links (db_members db'))" if "v \<in> set (db_teams db)" "isTeamRootAdmin v" for v c
    using ok l that by (auto simp: identity_ok_def leads_def)
  show "identity_ok uuid db'" using ok m old none by (rule members_step(1))
  show "root_kept u db db'" if "u \<in> set (db_teams db)" "isTeamRootAdmin u"
    using ok m old none that by (rule members_step(2))
qed

lemma grants_step:
  assumes "identity_ok uuid db" and "db' = db\<lparr>db_grants := gs\<rparr>" and "distinct (map tg_id gs)"
    and "\<And>t. t \<in> set (db_teams db) \<Longrightarrow> isTeamRootAdmin t \<Longrightarrow> filter (\<lambda>g. tg_team g = team_id t) gs = filter (\<lambda>g. tg_team g = team_id t) (db_grants db)"
  shows "identity_ok uuid db'" "u \<in> set (db_teams db) \<Longrightarrow> isTeamRootAdmin u \<Longrightarrow> root_kept u db db'"
proof -
  show "identity_ok uuid db'" using assms(1-3) by (simp add: identity_ok_def teams_ok_def)
  show "root_kept u db db'" if u: "u \<in> set (db_teams db)" "isTeamRootAdmin u"
  proof -
    have "{g \<in> set gs. tg_team g = team_id u} = {g \<in> set (db_grants db). tg_team g = team_id u}"
      using arg_cong [OF assms(4) [OF u], of set] by simp
    then have "team_grant_keys (team_id u) db' = team_grant_keys (team_id u) db" by (simp add: team_grant_keys_def assms(2))
    then show ?thesis using u by (auto simp: root_kept_def assms(2))
  qed
qed

lemma grant_facts:
  assumes "GrantTeamAction uuid now i db req = Inr db'" and "teams_ok uuid db"
  shows "\<exists>t g f. (t \<in> set (db_teams db) \<and> \<not> isTeamRootAdmin t \<and> tg_id g = i \<and> tg_team g = team_id t) \<and>
    (\<forall>h. tg_id (f h) = tg_id h \<and> tg_team (f h) = tg_team h \<and> tg_name (f h) = tg_name h \<and> tg_action (f h) = tg_action h) \<and>
    (\<forall>h. tg_team h \<noteq> team_id t \<longrightarrow> f h = h) \<and>
    (db' = db\<lparr>db_grants := map f (db_grants db)\<rparr> \<or> db' = db\<lparr>db_grants := db_grants db @ [g]\<rparr>)"
proof -
  obtain t where t: "getTeamOn uuid db (ga_team req) = Inr t" and g: "grantTeamActionOn uuid now i db (team_id t) req = Inr db'"
    using assms(1) by (auto simp: GrantTeamAction_def split: sum.splits)
  have in_db: "t \<in> set (db_teams db)" using t by (rule getTeamOn_in)
  let ?act = "if TrimSpace (ga_action req) = [] then ''*'' else TrimSpace (ga_action req)"
  let ?key = "\<lambda>g. tg_team g = team_id t \<and> tg_ns g = TrimSpace (ga_ns req) \<and> tg_name g = TrimSpace (ga_name req) \<and> tg_action g = ?act"
  from g obtain by_id where root: "\<not> isTeamRootAdmin t"
    and db': "db' = db\<lparr>db_grants := (if list_ex ?key (db_grants db)
        then map (\<lambda>g. if ?key g then g\<lparr>tg_scope := ga_scope req, tg_by := by_id, tg_granted := now\<rparr> else g) (db_grants db)
        else db_grants db @ [\<lparr>tg_id = i, tg_team = team_id t, tg_ns = TrimSpace (ga_ns req), tg_name = TrimSpace (ga_name req), tg_action = ?act,
                              tg_scope = ga_scope req, tg_granted = now, tg_by = by_id\<rparr>])\<rparr>"
    unfolding grantTeamActionOn_def Let_def getTeamOn_id [OF assms(2) in_db] sum.case
    by (simp only: split: sum.splits if_splits option.splits) (blast | simp)+
  let ?g = "\<lparr>tg_id = i, tg_team = team_id t, tg_ns = TrimSpace (ga_ns req), tg_name = TrimSpace (ga_name req), tg_action = ?act,
    tg_scope = ga_scope req, tg_granted = now, tg_by = by_id\<rparr>"
  let ?f = "\<lambda>g. if ?key g then g\<lparr>tg_scope := ga_scope req, tg_by := by_id, tg_granted := now\<rparr> else g"
  have "db' = db\<lparr>db_grants := map ?f (db_grants db)\<rparr> \<or> db' = db\<lparr>db_grants := db_grants db @ [?g]\<rparr>"
    unfolding db' by (cases "list_ex ?key (db_grants db)") (simp_all only: if_True if_False simp_thms)
  then show ?thesis using in_db root by (intro exI [of _ t] exI [of _ ?g] exI [of _ ?f] conjI) simp_all
qed

lemma filter_map_id: "(\<And>x. P x \<Longrightarrow> f x = x) \<Longrightarrow> (\<And>x. P (f x) = P x) \<Longrightarrow> filter P (map f xs) = filter P xs"
  by (induction xs) auto

lemma grant_step:
  assumes ok: "identity_ok uuid db" and c: "GrantTeamAction uuid now i db req = Inr db'" and i: "i \<notin> tg_id ` set (db_grants db)"
  shows "identity_ok uuid db'" "u \<in> set (db_teams db) \<Longrightarrow> isTeamRootAdmin u \<Longrightarrow> root_kept u db db'"
proof -
  have ok': "teams_ok uuid db" using ok by (simp add: identity_ok_def)
  from grant_facts [OF c ok'] obtain t g f where
    t: "t \<in> set (db_teams db) \<and> \<not> isTeamRootAdmin t \<and> tg_id g = i \<and> tg_team g = team_id t"
    and f: "\<forall>h. tg_id (f h) = tg_id h \<and> tg_team (f h) = tg_team h \<and> tg_name (f h) = tg_name h \<and> tg_action (f h) = tg_action h"
      "\<forall>h. tg_team h \<noteq> team_id t \<longrightarrow> f h = h"
    and db': "db' = db\<lparr>db_grants := map f (db_grants db)\<rparr> \<or> db' = db\<lparr>db_grants := db_grants db @ [g]\<rparr>"
    by (elim exE conjE) (rule that; simp)
  obtain gs where gs: "gs = map f (db_grants db) \<or> gs = db_grants db @ [g]" and db'': "db' = db\<lparr>db_grants := gs\<rparr>" using db' by blast
  have "distinct (map tg_id (db_grants db))" using ok by (simp add: identity_ok_def)
  then have d: "distinct (map tg_id gs)" using gs f(1) t i by (auto simp: comp_def)
  have keep: "filter (\<lambda>h. tg_team h = team_id v) gs = filter (\<lambda>h. tg_team h = team_id v) (db_grants db)"
    if "v \<in> set (db_teams db)" "isTeamRootAdmin v" for v
  proof -
    have "team_id v \<noteq> team_id t" using same_id [OF ok' that(1), of t] that(2) t by auto
    then show ?thesis using gs t f by (auto intro!: filter_map_id)
  qed
  show "identity_ok uuid db'" using ok db'' d keep by (rule grants_step(1))
  show "root_kept u db db'" if "u \<in> set (db_teams db)" "isTeamRootAdmin u"
    using ok db'' d keep that by (rule grants_step(2))
qed

lemma revoke_facts:
  assumes "revokeTeamGrantOn uuid db i = Inr (g, db')"
  obtains t where "find (\<lambda>h. tg_id h = tg_id g) (db_grants db) = Some g" "getTeamOn uuid db (tg_team g) = Inr t" "\<not> isTeamRootAdmin t"
    "isYggdrasilSelfManageGrant (tg_name g) (tg_action g) \<longrightarrow>
       (\<exists>h\<in>set (db_grants db). tg_id h \<noteq> tg_id g \<and> isYggdrasilSelfManageGrant (tg_name h) (tg_action h))"
    "db' = db\<lparr>db_grants := filter (\<lambda>h. tg_id h \<noteq> tg_id g) (db_grants db)\<rparr>"
proof -
  obtain j where j: "uuid (TrimSpace i) = Some j" "find (\<lambda>h. tg_id h = j) (db_grants db) = Some g"
    using assms by (auto simp: revokeTeamGrantOn_def split: option.splits sum.splits if_splits)
  have id: "j = tg_id g" using j(2) by (auto simp: find_Some_iff)
  show thesis
    using assms j that unfolding id
    by (auto simp: revokeTeamGrantOn_def filter_empty_conv split: sum.splits if_splits)
qed

lemma revoke_step:
  assumes ok: "identity_ok uuid db" and c: "revokeTeamGrantOn uuid db i = Inr (g, db')"
  shows "identity_ok uuid db'" "u \<in> set (db_teams db) \<Longrightarrow> isTeamRootAdmin u \<Longrightarrow> root_kept u db db'"
proof -
  have ok': "teams_ok uuid db" "distinct (map tg_id (db_grants db))" using ok by (simp_all add: identity_ok_def)
  from c obtain t where g: "find (\<lambda>h. tg_id h = tg_id g) (db_grants db) = Some g" and t: "getTeamOn uuid db (tg_team g) = Inr t" "\<not> isTeamRootAdmin t"
    and db': "db' = db\<lparr>db_grants := filter (\<lambda>h. tg_id h \<noteq> tg_id g) (db_grants db)\<rparr>"
    by (rule revoke_facts)
  have in_db: "g \<in> set (db_grants db)" using g by (auto simp: find_Some_iff)
  have d: "distinct (map tg_id (filter (\<lambda>h. tg_id h \<noteq> tg_id g) (db_grants db)))" using ok'(2) by (rule distinct_map_filter)
  have keep: "filter (\<lambda>h. tg_team h = team_id v) (filter (\<lambda>h. tg_id h \<noteq> tg_id g) (db_grants db)) = filter (\<lambda>h. tg_team h = team_id v) (db_grants db)"
    if v: "v \<in> set (db_teams db)" "isTeamRootAdmin v" for v
  proof -
    have "tg_team g \<noteq> team_id v" using getTeamOn_id [OF ok'(1) v(1)] t v(2) by auto
    then have "tg_id h \<noteq> tg_id g" if "h \<in> set (db_grants db)" "tg_team h = team_id v" for h
      using that in_db ok'(2) by (auto simp: distinct_map dest: inj_onD)
    then show ?thesis by (auto simp: filter_filter intro: filter_cong)
  qed
  show "identity_ok uuid db'" using ok db' d keep by (rule grants_step(1))
  show "root_kept u db db'" if "u \<in> set (db_teams db)" "isTeamRootAdmin u"
    using ok db' d keep that by (rule grants_step(2))
qed

lemma identity_step_keeps:
  assumes "identity_step uuid js db db'" and "identity_ok uuid db"
  shows "identity_ok uuid db' \<and> (\<forall>t\<in>set (db_teams db). isTeamRootAdmin t \<longrightarrow> root_kept t db db')"
  using assms
proof cases
  case create_team
  then show ?thesis using create_step assms(2) by blast
next
  case update_team
  then show ?thesis using update_step assms(2) by blast
next
  case delete_team
  then show ?thesis using delete_team_step assms(2) by blast
next
  case delete_collaborator
  then show ?thesis using delete_collaborator_step assms(2) by blast
next
  case upsert_membership
  then show ?thesis using upsert_step assms(2) by blast
next
  case grant_action
  then show ?thesis using grant_step assms(2) by blast
next
  case revoke_grant
  then show ?thesis using revoke_step assms(2) by blast
qed

lemma root_kept_trans:
  assumes "root_kept t db db'" and "\<And>t'. t' \<in> set (db_teams db') \<Longrightarrow> isTeamRootAdmin t' \<Longrightarrow> root_kept t' db' db''"
  shows "root_kept t db db''"
proof -
  obtain t' where t': "t' \<in> set (db_teams db')" "team_id t' = team_id t" "isTeamRootAdmin t'" "team_slug t' = team_slug t" "team_type t' = team_type t"
    "team_status t = ''active'' \<longrightarrow> team_status t' = ''active''" using assms(1) by (auto simp: root_kept_def)
  from assms(2) [OF t'(1,3)] assms(1) t'(2,4-6) show ?thesis by (auto simp: root_kept_def)
qed

lemma identity_steps_keep:
  assumes "(identity_step uuid js)\<^sup>*\<^sup>* db db'" and "identity_ok uuid db"
  shows "identity_ok uuid db' \<and> (\<forall>t\<in>set (db_teams db). isTeamRootAdmin t \<longrightarrow> root_kept t db db')"
  using assms
proof (induction rule: rtranclp_induct)
  case base
  then show ?case by (simp add: root_kept_same)
next
  case (step y z)
  from identity_step_keeps [OF step(2)] step(3) [OF step.prems] show ?case by (blast intro: root_kept_trans)
qed

section \<open>Properties\<close>

definition manages_grants :: "identity_db \<Rightarrow> bool" where
  "manages_grants db \<longleftrightarrow> list_ex (\<lambda>g. isYggdrasilSelfManageGrant (tg_name g) (tg_action g)) (db_grants db)"

text \<open>C7: A root-admin team defends itself. Whatever sequence of team, membership, grant and deletion requests runs, a
  root-admin team stays stored with its id, slug and type, stays a root-admin team and active, has no owners and no
  leads, and keeps exactly its grants.\<close>
theorem root_admin_protected:
  assumes "identity_ok uuid db" and "(identity_step uuid js)\<^sup>*\<^sup>* db db'"
    and "t \<in> set (db_teams db)" and "isTeamRootAdmin t" and "team_status t = ''active''"
  shows "\<exists>t'\<in>set (db_teams db'). team_id t' = team_id t \<and> team_slug t' = team_slug t \<and> team_type t' = team_type t \<and>
    team_status t' = ''active'' \<and> isTeamRootAdmin t' \<and> team_owners t' = [] \<and> leads (team_id t) (db_members db') = {} \<and>
    team_grant_keys (team_id t) db' = team_grant_keys (team_id t) db"
proof -
  from identity_steps_keep [OF assms(2,1)] assms(3,4) have ok: "identity_ok uuid db'" and kept: "root_kept t db db'" by blast+
  from kept assms(5) obtain t' where "t' \<in> set (db_teams db')" "team_id t' = team_id t" "isTeamRootAdmin t'" "team_slug t' = team_slug t"
    "team_type t' = team_type t" "team_status t' = ''active''" "team_grant_keys (team_id t) db' = team_grant_keys (team_id t) db"
    by (auto simp: root_kept_def)
  with ok show ?thesis by (intro bexI [of _ t']) (auto simp: identity_ok_def)
qed

text \<open>Only the deletion of a team can leave nobody in charge of grants. Every other operation keeps a grant that
  manages team grants when there is one; in particular the last one cannot be revoked.\<close>
theorem last_management_grant_kept:
  assumes "identity_ok uuid db" and "identity_step uuid js db db'" and "manages_grants db" and "\<not> manages_grants db'"
  shows "\<exists>now identity t. deleteTeamOn uuid now db identity = Inr (t, db')"
  using assms(2)
proof cases
  case (create_team newID now i req t)
  have "db_grants db' = db_grants db"
    using arg_cong [OF ensureOwnerMemberships_links(1) [OF create_facts(4) [OF create_team(1)]], of db_grants] by simp
  then show ?thesis using assms(3,4) by (simp add: manages_grants_def)
next
  case (update_team newID now req t)
  have "db_grants db' = db_grants db"
    using update_team by (auto simp: updateTeamOn_def Let_def map_sum_Inr ensureOwnerMemberships_def split: sum.splits option.splits if_splits)
  then show ?thesis using assms(3,4) by (simp add: manages_grants_def)
next
  case (delete_team now identity t)
  then show ?thesis by blast
next
  case (delete_collaborator now identity c)
  then have "db_grants db' = map (\<lambda>g. if tg_by g = Some (co_id c) then g\<lparr>tg_by := None\<rparr> else g) (db_grants db)"
    by (auto simp: DeleteCollaborator_def split: sum.splits)
  moreover have "list_ex (\<lambda>g. isYggdrasilSelfManageGrant (tg_name g) (tg_action g))
      (map (\<lambda>g. if tg_by g = Some (co_id c) then g\<lparr>tg_by := None\<rparr> else g) gs) =
    list_ex (\<lambda>g. isYggdrasilSelfManageGrant (tg_name g) (tg_action g)) gs" for gs
    by (induction gs) simp_all
  ultimately have "manages_grants db' = manages_grants db" by (simp add: manages_grants_def)
  then show ?thesis using assms(3,4) by simp
next
  case (upsert_membership now i req)
  then have "db_grants db' = db_grants db" by (auto simp: upsertTeamMembershipOn_def Let_def split: sum.splits)
  then show ?thesis using assms(3,4) by (simp add: manages_grants_def)
next
  case (grant_action now i req)
  have "teams_ok uuid db" using assms(1) by (simp add: identity_ok_def)
  from grant_facts [OF grant_action(1) this] obtain g :: TeamGrant and f :: "TeamGrant \<Rightarrow> TeamGrant" where
    f: "\<forall>h. tg_name (f h) = tg_name h \<and> tg_action (f h) = tg_action h"
    and db': "db' = db\<lparr>db_grants := map f (db_grants db)\<rparr> \<or> db' = db\<lparr>db_grants := db_grants db @ [g]\<rparr>"
    by (elim exE conjE) (rule that; simp)
  then show ?thesis using assms(3,4) by (auto simp: manages_grants_def list_ex_iff)
next
  case (revoke_grant i g)
  then obtain t where m: "isYggdrasilSelfManageGrant (tg_name g) (tg_action g) \<longrightarrow>
       (\<exists>h\<in>set (db_grants db). tg_id h \<noteq> tg_id g \<and> isYggdrasilSelfManageGrant (tg_name h) (tg_action h))"
    and g: "find (\<lambda>h. tg_id h = tg_id g) (db_grants db) = Some g"
    and db': "db' = db\<lparr>db_grants := filter (\<lambda>h. tg_id h \<noteq> tg_id g) (db_grants db)\<rparr>"
    by (rule revoke_facts)
  have one: "h = g" if "h \<in> set (db_grants db)" "tg_id h = tg_id g" for h
    using that g assms(1) by (auto simp: identity_ok_def distinct_map find_Some_iff dest: inj_onD)
  from assms(3) obtain h where h: "h \<in> set (db_grants db)" "isYggdrasilSelfManageGrant (tg_name h) (tg_action h)"
    by (auto simp: manages_grants_def list_ex_iff)
  have "\<exists>h\<in>set (db_grants db). tg_id h \<noteq> tg_id g \<and> isYggdrasilSelfManageGrant (tg_name h) (tg_action h)"
    using h one m by (cases "tg_id h = tg_id g") auto
  then show ?thesis using assms(4) by (auto simp: db' manages_grants_def list_ex_iff)
qed

text \<open>The example of cyclic parents with a root-admin team of its own.\<close>

definition ex_root :: Team where
  "ex_root = (ex_team ''t3'' ''t1'')\<lparr>team_traits := [(''is_root_admin'', GBool True)]\<rparr>"

definition ex_identity_root :: identity_db where
  "ex_identity_root = ex_identity\<lparr>db_teams := db_teams ex_identity @ [ex_root]\<rparr>"

lemma ex_identity_root_ok: "identity_ok Some ex_identity_root"
proof -
  have "canonical Some ''t3''" by code_simp
  then show ?thesis using ex_canonical
    by (simp add: identity_ok_def teams_ok_def ex_identity_root_def ex_identity_def ex_root_def ex_team_def isTeamRootAdmin_def
        root_trait_def leads_def links_def)
qed

text \<open>Deleting the parent of the root-admin team is accepted: it loses its parent, and the only management grant goes.\<close>

lemma ex_delete:
  "deleteTeamOn Some 7 ex_identity_root ''t2'' = Inr (ex_team ''t2'' ''t1'',
     ex_identity_root\<lparr>db_teams := [(ex_team ''t1'' ''t2'')\<lparr>team_parent := None, team_updated := 7\<rparr>, ex_root], db_grants := []\<rparr>)"
  by code_simp

lemma team_deletion_drops_management_grant:
  "\<exists>db'. identity_step Some js ex_identity_root db' \<and> manages_grants ex_identity_root \<and> \<not> manages_grants db'"
proof -
  have "identity_step Some js ex_identity_root (ex_identity_root\<lparr>db_teams := [(ex_team ''t1'' ''t2'')\<lparr>team_parent := None, team_updated := 7\<rparr>, ex_root], db_grants := []\<rparr>)"
    by (rule delete_team [OF ex_delete])
  moreover have "manages_grants ex_identity_root" by code_simp
  ultimately show ?thesis by (intro exI conjI) (assumption, assumption, simp add: manages_grants_def)
qed

theorem root_admin_protected_witness:
  "\<exists>db'. (identity_step Some (\<lambda>v. []))\<^sup>*\<^sup>* ex_identity_root db' \<and> db_grants db' = [] \<and>
     (\<exists>t'\<in>set (db_teams db'). team_id t' = ''t3'' \<and> isTeamRootAdmin t' \<and> team_status t' = ''active'')"
proof -
  let ?db' = "ex_identity_root\<lparr>db_teams := [(ex_team ''t1'' ''t2'')\<lparr>team_parent := None, team_updated := 7\<rparr>, ex_root], db_grants := []\<rparr>"
  have s: "(identity_step Some (\<lambda>v. []))\<^sup>*\<^sup>* ex_identity_root ?db'" using delete_team [OF ex_delete] by blast
  have t: "ex_root \<in> set (db_teams ex_identity_root)" "isTeamRootAdmin ex_root" "team_status ex_root = ''active''" "team_id ex_root = ''t3''"
    by code_simp+
  from root_admin_protected [OF ex_identity_root_ok s t(1-3)] t(4) s show ?thesis by auto
qed

theorem last_management_grant_kept_witness:
  "\<exists>now identity t db'. deleteTeamOn Some now ex_identity_root identity = Inr (t, db') \<and> \<not> manages_grants db'"
  using team_deletion_drops_management_grant [of "\<lambda>v. []"] last_management_grant_kept [OF ex_identity_root_ok] by meson

end
