(* ===== verification/Event_Publish.thy ===== *)
theory Event_Publish
  imports Machine_Auth Manifest_Store Manifest_Names
begin

text \<open>
  The route \<open>POST /api/v1/events\<close>: \<open>controllers/httpapi/events_publish.go\<close> with the grants of
  \<open>events_publish_auth.go\<close> and the resolution of an instance reference in
  \<open>repository/integration_instance_identity.go\<close>. The JSON decoders of the body, of a stored type reference and of the
  provider of a stored type are arguments, as is \<open>uuid.Parse\<close> (to canonical text).
\<close>

section \<open>Instances\<close>

text \<open>\<open>btrim\<close> of the database strips blanks only.\<close>

definition btrim :: "string \<Rightarrow> string" where
  "btrim s = rev (dropWhile (\<lambda>c. c = CHR '' '') (rev (dropWhile (\<lambda>c. c = CHR '' '') s)))"

record 's instance_env =
  ie_uuid :: "string \<Rightarrow> string option"
  ie_type_ref :: "'s \<Rightarrow> ManifestSelector option"
  ie_provider :: "'s \<Rightarrow> string"

definition integrationTypeCandidates :: "'s instance_env \<Rightarrow> ManifestSelector \<Rightarrow> 's Manifest list \<Rightarrow> 's Manifest list" where
  "integrationTypeCandidates E ref store =
     filter (\<lambda>ty. mf_kind ty = ''integration_type'' \<and> mf_active ty \<and>
       (mf_id ty = ToLower (btrim (sel_manifest_id ref)) \<or> mf_name ty = ToLower (btrim (sel_name ref)))) store"

definition selectIntegrationTypeCandidate :: "'s instance_env \<Rightarrow> ManifestSelector \<Rightarrow> 's Manifest list \<Rightarrow> 's Manifest option" where
  "selectIntegrationTypeCandidate E ref candidates =
     (let i = TrimSpace (sel_manifest_id ref); name = ToLower (TrimSpace (sel_name ref)); ns = ToLower (TrimSpace (sel_namespace ref)) in
      if i \<noteq> [] then
        (case ie_uuid E i of None \<Rightarrow> None | Some parsed \<Rightarrow> find (\<lambda>c. mf_id c = parsed) candidates)
      else if name = [] then None
      else find (\<lambda>c. mf_ns c = (if ns = [] then ''global'' else ns) \<and> mf_name c = name \<and>
                     (case sel_version ref of None \<Rightarrow> True | Some v \<Rightarrow> mf_version c = v)) candidates)"

definition selectIntegrationTypeProvider :: "'s instance_env \<Rightarrow> ManifestSelector \<Rightarrow> 's Manifest list \<Rightarrow> string option" where
  "selectIntegrationTypeProvider E ref candidates =
     (case selectIntegrationTypeCandidate E ref candidates of
        None \<Rightarrow> None
      | Some c \<Rightarrow> (let provider = TrimSpace (ie_provider E (mf_spec c)) in if provider = [] then None else Some provider))"

text \<open>The row of the query, and what is read of it; \<^term>\<open>None\<close> is \<open>ErrIntegrationInstanceNotResolvable\<close>.\<close>

definition resolveIntegrationInstance :: "'s instance_env \<Rightarrow> 's Manifest option \<Rightarrow> 's Manifest list \<Rightarrow> IntegrationInstanceIdentity option" where
  "resolveIntegrationInstance E row store =
     (case row of
        None \<Rightarrow> None
      | Some a \<Rightarrow>
          (case ie_type_ref E (mf_spec a) of
             None \<Rightarrow> None
           | Some ref \<Rightarrow>
               (case selectIntegrationTypeProvider E ref (integrationTypeCandidates E ref store) of
                  None \<Rightarrow> None
                | Some provider \<Rightarrow>
                    Some \<lparr>iid_namespace = mf_ns a, iid_name = mf_name a, iid_manifest = mf_id a, iid_version = mf_version a,
                          iid_provider = provider\<rparr>)))"

definition active_instance :: "string \<Rightarrow> string \<Rightarrow> 's Manifest list \<Rightarrow> 's Manifest option" where
  "active_instance ns name store =
     find (\<lambda>a. mf_kind a = ''integration_instance'' \<and> mf_ns a = ns \<and> mf_name a = name \<and> mf_active a) store"

definition ResolveIntegrationInstanceByName ::
  "'s instance_env \<Rightarrow> string \<Rightarrow> string \<Rightarrow> 's Manifest list \<Rightarrow> IntegrationInstanceIdentity option" where
  "ResolveIntegrationInstanceByName E ns name store = resolveIntegrationInstance E (active_instance ns name store) store"

definition ResolveIntegrationInstanceByManifestID ::
  "'s instance_env \<Rightarrow> string \<Rightarrow> 's Manifest list \<Rightarrow> IntegrationInstanceIdentity option" where
  "ResolveIntegrationInstanceByManifestID E i store =
     resolveIntegrationInstance E
       (case find (\<lambda>v. mf_id v = i \<and> mf_kind v = ''integration_instance'') store of
          None \<Rightarrow> None | Some v \<Rightarrow> active_instance (mf_ns v) (mf_name v) store) store"

datatype eventInstanceRef = RefManifest string | RefName string string

definition parseEventInstanceRef :: "'s instance_env \<Rightarrow> string \<Rightarrow> eventInstanceRef option" where
  "parseEventInstanceRef E wire0 =
     (let wire = TrimSpace wire0 in
      if CHR ''/'' \<in> set wire then
        (case parseLogicalInstanceRef wire of Inl e \<Rightarrow> None | Inr (ns, name) \<Rightarrow> Some (RefName ns name))
      else (case ie_uuid E wire of None \<Rightarrow> None | Some i \<Rightarrow> if i \<noteq> wire then None else Some (RefManifest i)))"

definition resolveEventInstance :: "'s instance_env \<Rightarrow> string \<Rightarrow> 's Manifest list \<Rightarrow> IntegrationInstanceIdentity option" where
  "resolveEventInstance E wire store =
     (case parseEventInstanceRef E wire of
        None \<Rightarrow> None
      | Some (RefName ns name) \<Rightarrow> ResolveIntegrationInstanceByName E ns name store
      | Some (RefManifest i) \<Rightarrow> ResolveIntegrationInstanceByManifestID E i store)"

section \<open>Authorization of a payload\<close>

record eventPublishRequest =
  pr_type :: string
  pr_schema :: string
  pr_agg_type :: string
  pr_agg_id :: string
  pr_payload :: "gval option"
  pr_actor :: "EventActor option"
  pr_metadata :: gmap
  pr_event_type :: string
  pr_provider :: string
  pr_resource :: string
  pr_verb :: string
  pr_resource_id :: string
  pr_instance :: string
  pr_idempotency :: string
  pr_observed :: "gmap option"
  pr_emitted :: string

text \<open>\<open>lookup\<close> is the resolution of an instance, \<^term>\<open>None\<close> when the database does not answer.\<close>

datatype publish_refusal = PublishDenied | PublishUnavailable

definition authorizeEventPublishPayload ::
  "(string \<Rightarrow> IntegrationInstanceIdentity option option) \<Rightarrow> eventPublishRequest \<Rightarrow> eventPublishActor \<Rightarrow> publish_refusal + eventPublishActor" where
  "authorizeEventPublishPayload lookup req actor0 =
     (let actor = actor0\<lparr>epa_form := [], epa_instance := None\<rparr>; generic = (TrimSpace (pr_event_type req) = []) in
      if epa_legacy actor \<and> generic then Inl PublishDenied
      else (case epa_machine actor of
          None \<Rightarrow> Inr actor
        | Some p \<Rightarrow>
            if generic then Inl PublishDenied
            else if eventPublisherPrincipalAllows p (pr_provider req) (pr_instance req) (pr_event_type req)
            then Inr (actor\<lparr>epa_form := ''exact''\<rparr>)
            else if \<not> eventPublisherPrincipalHasLogicalGrant p (pr_provider req) (pr_event_type req) then Inl PublishDenied
            else (case lookup (pr_instance req) of
                None \<Rightarrow> Inl PublishUnavailable
              | Some None \<Rightarrow> Inl PublishDenied
              | Some (Some ident) \<Rightarrow>
                  if iid_provider ident \<noteq> TrimSpace (pr_provider req) \<or>
                    \<not> eventPublisherPrincipalAllowsLogical p (TrimSpace (pr_provider req)) (iid_namespace ident) (iid_name ident) (pr_event_type req)
                  then Inl PublishDenied
                  else Inr (actor\<lparr>epa_form := ''logical'', epa_instance := Some ident\<rparr>))))"

section \<open>The identity of the publisher\<close>

definition reservedPrefix :: string where
  "reservedPrefix = ''yggdrasil.io/publisher_''"

definition publisherKey :: string where
  "publisherKey = reservedPrefix @ ''machine_principal_id''"

definition isReservedPublisherMetadataKey :: "string \<Rightarrow> bool" where
  "isReservedPublisherMetadataKey key \<longleftrightarrow> HasPrefix (ToLower (TrimSpace key)) reservedPrefix"

definition legacyPublisherID :: string where
  "legacyPublisherID = ''legacy-event-publish-bridge''"

definition service_actor :: "string \<Rightarrow> EventActor" where
  "service_actor i = \<lparr>actor_type = ''service'', actor_id = i, actor_context = None\<rparr>"

definition bindEventPublishActor :: "eventPublishRequest \<Rightarrow> eventPublishActor \<Rightarrow> eventPublishRequest" where
  "bindEventPublishActor req actor =
     (let m0 = filter (\<lambda>(k, v). \<not> isReservedPublisherMetadataKey k) (pr_metadata req) in
      case epa_machine actor of
        Some p \<Rightarrow>
          let i = mp_id (epp_base p);
              m1 = AList.update publisherKey (GStr i) m0;
              m2 = (if epa_form actor \<noteq> [] then AList.update (reservedPrefix @ ''grant_form'') (GStr (epa_form actor)) m1 else m1);
              m3 = (case epa_instance actor of
                      None \<Rightarrow> m2
                    | Some ident \<Rightarrow>
                        AList.update (reservedPrefix @ ''instance_version'') (GInt (iid_version ident))
                         (AList.update (reservedPrefix @ ''instance_manifest_id'') (GStr (iid_manifest ident))
                           (AList.update (reservedPrefix @ ''instance_name'') (GStr (iid_name ident))
                             (AList.update (reservedPrefix @ ''instance_namespace'') (GStr (iid_namespace ident)) m2))))
          in req\<lparr>pr_actor := Some (service_actor i), pr_metadata := m3\<rparr>
      | None \<Rightarrow>
          if epa_legacy actor
          then req\<lparr>pr_actor := Some (service_actor legacyPublisherID), pr_metadata := AList.update publisherKey (GStr legacyPublisherID) m0\<rparr>
          else req\<lparr>pr_metadata := m0\<rparr>)"

section \<open>From the wire to the log\<close>

datatype publish_error =
    TypeMissing | AggregateMissing | AggregateIDMissing | PayloadMissing | PayloadNotObject
  | MutationTypeInvalid | MutationFieldMissing string | MutationFieldMismatch string

text \<open>A nil map of metadata is the empty one.\<close>

definition optional_map :: "gmap \<Rightarrow> gmap option" where
  "optional_map m = (if m = [] then None else Some m)"

definition buildEmitEventRequestFromGeneric :: "eventPublishRequest \<Rightarrow> publish_error + EmitEventRequest" where
  "buildEmitEventRequestFromGeneric req =
     (if TrimSpace (pr_type req) = [] then Inl TypeMissing
      else if TrimSpace (pr_agg_type req) = [] then Inl AggregateMissing
      else if TrimSpace (pr_agg_id req) = [] then Inl AggregateIDMissing
      else (case pr_payload req of
          None \<Rightarrow> Inl PayloadMissing
        | Some (GMap payload) \<Rightarrow>
            Inr \<lparr>em_type = TrimSpace (pr_type req), em_schema = (if TrimSpace (pr_schema req) = [] then ''v1'' else TrimSpace (pr_schema req)),
                 em_agg_type = TrimSpace (pr_agg_type req), em_agg_id = TrimSpace (pr_agg_id req), em_actor = pr_actor req,
                 em_payload = Some payload, em_metadata = optional_map (pr_metadata req), em_key = []\<rparr>
        | Some _ \<Rightarrow> Inl PayloadNotObject))"

definition buildEmitEventRequestFromMutation :: "eventPublishRequest \<Rightarrow> publish_error + EmitEventRequest" where
  "buildEmitEventRequestFromMutation req =
     (let t = TrimSpace (pr_event_type req); provider = TrimSpace (pr_provider req); resource = TrimSpace (pr_resource req);
          verb = TrimSpace (pr_verb req); resourceID = TrimSpace (pr_resource_id req); instance = TrimSpace (pr_instance req);
          key = TrimSpace (pr_idempotency req)
      in if \<not> IsIntegrationMutationEvent t then Inl MutationTypeInvalid
         else if provider = [] then Inl (MutationFieldMissing ''provider'')
         else if resource = [] then Inl (MutationFieldMissing ''resource'')
         else if verb = [] then Inl (MutationFieldMissing ''verb'')
         else if resourceID = [] then Inl (MutationFieldMissing ''resource_id'')
         else if instance = [] then Inl (MutationFieldMissing ''instance_id'')
         else if key = [] then Inl (MutationFieldMissing ''idempotency'')
         else (case ParseIntegrationMutationEventType t of
             None \<Rightarrow> Inl MutationTypeInvalid
           | Some (p, r, v) \<Rightarrow>
               if p \<noteq> provider then Inl (MutationFieldMismatch ''provider'')
               else if r \<noteq> resource then Inl (MutationFieldMismatch ''resource'')
               else if v \<noteq> verb then Inl (MutationFieldMismatch ''verb'')
               else let payload = [(''provider'', GStr provider), (''resource'', GStr resource), (''verb'', GStr verb),
                                   (''resource_id'', GStr resourceID), (''instance_id'', GStr instance)] @
                          (case pr_observed req of None \<Rightarrow> [] | Some m \<Rightarrow> [(''observed'', GMap m)]) @
                          (if TrimSpace (pr_emitted req) = [] then [] else [(''emitted_at'', GStr (TrimSpace (pr_emitted req)))]);
                        own = [(''idempotency'', GStr key), (''instance_id'', GStr instance), (''source'', GStr ''integration_mutation'')]
                    in Inr \<lparr>em_type = t, em_schema = ''v1'', em_agg_type = provider @ ''_'' @ resource, em_agg_id = resourceID, em_actor = pr_actor req,
                            em_payload = Some payload,
                            em_metadata = Some (own @ filter (\<lambda>(k, v). map_of own k = None) (pr_metadata req)), em_key = key\<rparr>))"

definition buildEmitEventRequestFromPublish :: "eventPublishRequest \<Rightarrow> publish_error + EmitEventRequest" where
  "buildEmitEventRequestFromPublish req =
     (if TrimSpace (pr_event_type req) \<noteq> [] then buildEmitEventRequestFromMutation req else buildEmitEventRequestFromGeneric req)"

datatype publish_reply =
    PubUnauthorized | PubMalformed | PubForbidden | PubUnavailable | PubInvalid publish_error | PubEmitError emit_error
  | PubStored EmitEventOutcome

definition handleEventPublish ::
  "(string \<Rightarrow> string) \<Rightarrow> environ \<Rightarrow> eventPublishAuthConfig option \<Rightarrow> time \<Rightarrow> (string \<Rightarrow> IntegrationInstanceIdentity option option)
     \<Rightarrow> emit_env \<Rightarrow> reactor_view \<Rightarrow> http_request \<Rightarrow> eventPublishRequest option \<Rightarrow> event_db \<Rightarrow> publish_reply \<times> event_db" where
  "handleEventPublish sha env config now lookup X V r body db =
     (case authenticateEventPublishRequest sha env config now r of
        None \<Rightarrow> (PubUnauthorized, db)
      | Some actor0 \<Rightarrow>
          (case body of
             None \<Rightarrow> (PubMalformed, db)
           | Some req \<Rightarrow>
               (case authorizeEventPublishPayload lookup req actor0 of
                  Inl PublishUnavailable \<Rightarrow> (PubUnavailable, db)
                | Inl PublishDenied \<Rightarrow> (PubForbidden, db)
                | Inr actor \<Rightarrow>
                    (case buildEmitEventRequestFromPublish (bindEventPublishActor req actor) of
                       Inl e \<Rightarrow> (PubInvalid e, db)
                     | Inr emit \<Rightarrow>
                         (case EmitEventWithOutcome X V emit db of
                            Inl e \<Rightarrow> (PubEmitError e, db)
                          | Inr (outcome, db') \<Rightarrow> (PubStored outcome, db'))))))"

section \<open>Facts\<close>

text \<open>The row of a type that a type reference names: by its id, or by name, namespace and perhaps version.\<close>

definition type_named :: "'s instance_env \<Rightarrow> ManifestSelector \<Rightarrow> 's Manifest \<Rightarrow> bool" where
  "type_named E ref ty \<longleftrightarrow>
     (if TrimSpace (sel_manifest_id ref) \<noteq> [] then ie_uuid E (TrimSpace (sel_manifest_id ref)) = Some (mf_id ty)
      else mf_name ty = ToLower (TrimSpace (sel_name ref)) \<and>
        mf_ns ty = (let ns = ToLower (TrimSpace (sel_namespace ref)) in if ns = [] then ''global'' else ns) \<and>
        (case sel_version ref of None \<Rightarrow> True | Some v \<Rightarrow> mf_version ty = v))"

text \<open>The logical instance that a reference names: by its name, or by the id of one of its versions.\<close>

definition refers_to :: "'s Manifest list \<Rightarrow> string \<Rightarrow> string \<Rightarrow> string \<Rightarrow> bool" where
  "refers_to store wire ns name \<longleftrightarrow>
     wire = ns @ ''/'' @ name \<and> CHR ''/'' \<notin> set ns \<and> CHR ''/'' \<notin> set name \<or>
     (\<exists>v\<in>set store. mf_id v = wire \<and> mf_kind v = ''integration_instance'' \<and> mf_ns v = ns \<and> mf_name v = name)"

definition active_row_of :: "'s instance_env \<Rightarrow> 's Manifest list \<Rightarrow> string \<Rightarrow> string \<Rightarrow> 's Manifest \<Rightarrow> bool" where
  "active_row_of E store wire provider a \<longleftrightarrow>
     a \<in> set store \<and> mf_kind a = ''integration_instance'' \<and> mf_active a \<and> refers_to store wire (mf_ns a) (mf_name a) \<and>
     (\<exists>ref ty. ie_type_ref E (mf_spec a) = Some ref \<and> ty \<in> set store \<and> mf_kind ty = ''integration_type'' \<and> mf_active ty \<and>
        type_named E ref ty \<and> TrimSpace (ie_provider E (mf_spec ty)) = provider)"

lemma selected_in: "selectIntegrationTypeProvider E ref cs = Some provider \<Longrightarrow>
    \<exists>c\<in>set cs. TrimSpace (ie_provider E (mf_spec c)) = provider \<and> type_named E ref c"
  by (auto simp: selectIntegrationTypeProvider_def selectIntegrationTypeCandidate_def type_named_def Let_def find_Some_iff
      split: option.splits if_splits)

lemma active_instance_in: "active_instance ns name store = Some a \<Longrightarrow>
    a \<in> set store \<and> mf_kind a = ''integration_instance'' \<and> mf_active a \<and> mf_ns a = ns \<and> mf_name a = name"
  by (auto simp: active_instance_def find_Some_iff)

lemma parseLogicalInstanceRef_Inr:
  assumes "parseLogicalInstanceRef v = Inr (ns, name)"
  shows "v = ns @ ''/'' @ name \<and> CHR ''/'' \<notin> set ns \<and> CHR ''/'' \<notin> set name"
proof -
  let ?sl = "\<lambda>c. c = CHR ''/''"
  have one: "length (filter ?sl v) = 1" and ns: "ns = takeWhile (\<lambda>c. c \<noteq> CHR ''/'') v" and name: "name = drop (length ns + 1) v"
    using assms by (auto simp: parseLogicalInstanceRef_def Let_def split: if_splits)
  then have "filter ?sl v \<noteq> []" by (intro notI) simp
  then have "CHR ''/'' \<in> set v" by (simp add: filter_empty_conv)
  then obtain ys zs where v: "v = ys @ CHR ''/'' # zs" "CHR ''/'' \<notin> set ys" by (meson split_list_first)
  then have "filter ?sl zs = []" using one by simp
  then have "CHR ''/'' \<notin> set zs" by (auto simp: filter_empty_conv)
  moreover have "ns = ys" unfolding ns v(1) using v(2) by (subst takeWhile_append2) auto
  ultimately show ?thesis using v name by simp
qed

lemma resolveIntegrationInstance_row:
  assumes "resolveIntegrationInstance E row store = Some i" and "\<And>a. row = Some a \<Longrightarrow> \<exists>ns name. active_instance ns name store = Some a \<and> refers_to store wire ns name"
  shows "\<exists>a. active_row_of E store wire (iid_provider i) a \<and> iid_namespace i = mf_ns a \<and> iid_name i = mf_name a \<and>
    iid_manifest i = mf_id a \<and> iid_version i = mf_version a"
proof -
  from assms(1) obtain a ref provider where a: "row = Some a" "ie_type_ref E (mf_spec a) = Some ref"
    and s: "selectIntegrationTypeProvider E ref (integrationTypeCandidates E ref store) = Some provider"
    and i: "i = \<lparr>iid_namespace = mf_ns a, iid_name = mf_name a, iid_manifest = mf_id a, iid_version = mf_version a, iid_provider = provider\<rparr>"
    by (auto simp: resolveIntegrationInstance_def split: option.splits)
  from assms(2) [OF a(1)] obtain ns name where n: "active_instance ns name store = Some a" "refers_to store wire ns name" by blast
  from selected_in [OF s] obtain c where c: "c \<in> set (integrationTypeCandidates E ref store)" "TrimSpace (ie_provider E (mf_spec c)) = provider" "type_named E ref c"
    by blast
  then have "active_row_of E store wire provider a"
    using active_instance_in [OF n(1)] n(2) a(2) unfolding active_row_of_def
    by (intro conjI exI [of _ ref] exI [of _ c]) (auto simp: integrationTypeCandidates_def)
  then show ?thesis by (intro exI [of _ a]) (simp add: i)
qed

lemma resolveEventInstance_row:
  assumes "resolveEventInstance E wire store = Some i"
  shows "\<exists>a. active_row_of E store (TrimSpace wire) (iid_provider i) a \<and> iid_namespace i = mf_ns a \<and> iid_name i = mf_name a \<and>
    iid_manifest i = mf_id a \<and> iid_version i = mf_version a"
proof -
  from assms obtain ref where ref: "parseEventInstanceRef E wire = Some ref" by (auto simp: resolveEventInstance_def split: option.splits)
  show ?thesis
  proof (cases ref)
    case (RefName ns name)
    then have "parseLogicalInstanceRef (TrimSpace wire) = Inr (ns, name)"
      using ref by (auto simp: parseEventInstanceRef_def Let_def split: if_splits sum.splits option.splits)
    then have "refers_to store (TrimSpace wire) ns name" using parseLogicalInstanceRef_Inr unfolding refers_to_def by blast
    then show ?thesis using assms ref RefName
      by (intro resolveIntegrationInstance_row [where row = "active_instance ns name store"])
        (auto simp: resolveEventInstance_def ResolveIntegrationInstanceByName_def)
  next
    case (RefManifest j)
    then have j: "j = TrimSpace wire"
      using ref by (auto simp: parseEventInstanceRef_def Let_def split: if_splits sum.splits option.splits)
    let ?row = "case find (\<lambda>v. mf_id v = j \<and> mf_kind v = ''integration_instance'') store of None \<Rightarrow> None | Some v \<Rightarrow> active_instance (mf_ns v) (mf_name v) store"
    show ?thesis
    proof (rule resolveIntegrationInstance_row [where row = ?row])
      show "resolveIntegrationInstance E ?row store = Some i"
        using assms ref RefManifest by (simp add: resolveEventInstance_def ResolveIntegrationInstanceByManifestID_def)
      show "\<exists>ns name. active_instance ns name store = Some a \<and> refers_to store (TrimSpace wire) ns name" if row: "?row = Some a" for a
      proof (cases "find (\<lambda>v. mf_id v = j \<and> mf_kind v = ''integration_instance'') store")
        case (Some v)
        then have "v \<in> set store" "mf_id v = j" "mf_kind v = ''integration_instance''" by (auto simp: find_Some_iff)
        then have "refers_to store (TrimSpace wire) (mf_ns v) (mf_name v)" using j by (auto simp: refers_to_def)
        then show ?thesis using row Some by auto
      qed (use row in simp)
    qed
  qed
qed

text \<open>The grants that let a principal publish: the exact triple, or the logical one of the instance that the reference names.\<close>

definition exact_grant :: "eventPublisherPrincipal \<Rightarrow> string \<Rightarrow> string \<Rightarrow> string \<Rightarrow> bool" where
  "exact_grant p provider instance t \<longleftrightarrow> \<lparr>epr_provider = provider, epr_instance = instance, epr_type = t\<rparr> \<in> set (epp_exact p)"

definition logical_grant :: "eventPublisherPrincipal \<Rightarrow> string \<Rightarrow> 's Manifest \<Rightarrow> string \<Rightarrow> bool" where
  "logical_grant p provider a t \<longleftrightarrow>
     \<lparr>elr_provider = provider, elr_namespace = mf_ns a, elr_name = mf_name a, elr_type = t\<rparr> \<in> set (epp_logical p)"

text \<open>The actor that the authorization of a payload lets through, with the row of the instance when the grant is logical.\<close>

definition actor_covered :: "'s instance_env \<Rightarrow> 's Manifest list \<Rightarrow> eventPublisherPrincipal \<Rightarrow> eventPublishRequest \<Rightarrow> eventPublishActor \<Rightarrow> bool" where
  "actor_covered E store p req actor \<longleftrightarrow>
     epa_form actor = ''exact'' \<and> exact_grant p (TrimSpace (pr_provider req)) (TrimSpace (pr_instance req)) (TrimSpace (pr_event_type req)) \<or>
     (\<exists>a ident. active_row_of E store (TrimSpace (pr_instance req)) (TrimSpace (pr_provider req)) a \<and>
        logical_grant p (TrimSpace (pr_provider req)) a (TrimSpace (pr_event_type req)) \<and> epa_form actor = ''logical'' \<and>
        epa_instance actor = Some ident \<and> iid_namespace ident = mf_ns a \<and> iid_name ident = mf_name a \<and>
        iid_manifest ident = mf_id a \<and> iid_version ident = mf_version a)"

lemma authorized_covered:
  assumes "authorizeEventPublishPayload (\<lambda>w. if up then Some (resolveEventInstance E w store) else None) req actor0 = Inr actor"
    and "epa_machine actor0 = Some p"
  shows "TrimSpace (pr_event_type req) \<noteq> []" "epa_machine actor = Some p" "actor_covered E store p req actor"
proof -
  show "TrimSpace (pr_event_type req) \<noteq> []" "epa_machine actor = Some p"
    using assms by (auto simp: authorizeEventPublishPayload_def Let_def split: if_splits option.splits)
  show "actor_covered E store p req actor"
  proof (cases "eventPublisherPrincipalAllows p (pr_provider req) (pr_instance req) (pr_event_type req)")
    case True
    then have "epa_form actor = ''exact''"
      using assms by (auto simp: authorizeEventPublishPayload_def Let_def split: if_splits option.splits)
    then show ?thesis using True by (simp add: actor_covered_def exact_grant_def eventPublisherPrincipalAllows_def)
  next
    case False
    then obtain i where i: "resolveEventInstance E (pr_instance req) store = Some i" "iid_provider i = TrimSpace (pr_provider req)"
      "eventPublisherPrincipalAllowsLogical p (TrimSpace (pr_provider req)) (iid_namespace i) (iid_name i) (pr_event_type req)"
      "epa_form actor = ''logical''" "epa_instance actor = Some i"
      using assms by (auto simp: authorizeEventPublishPayload_def Let_def split: if_splits option.splits)
    from resolveEventInstance_row [OF i(1)] i(2-) show ?thesis
      by (auto simp: actor_covered_def logical_grant_def eventPublisherPrincipalAllowsLogical_def)
  qed
qed

definition stampedKeys :: "string set" where
  "stampedKeys = (\<lambda>k. reservedPrefix @ k) ` {''machine_principal_id'', ''grant_form'', ''instance_namespace'', ''instance_name'', ''instance_manifest_id'', ''instance_version''}"

definition stampedInstance :: "string list" where
  "stampedInstance = map (\<lambda>k. reservedPrefix @ k) [''instance_namespace'', ''instance_name'', ''instance_manifest_id'', ''instance_version'']"

lemma bound_metadata:
  assumes "epa_machine actor = Some p"
  shows "map_of (pr_metadata (bindEventPublishActor req actor)) publisherKey = Some (GStr (mp_id (epp_base p)))"
    and "isReservedPublisherMetadataKey k \<Longrightarrow> k \<notin> stampedKeys \<Longrightarrow> map_of (pr_metadata (bindEventPublishActor req actor)) k = None"
    and "pr_actor (bindEventPublishActor req actor) = Some (service_actor (mp_id (epp_base p)))"
    and "pr_event_type (bindEventPublishActor req actor) = pr_event_type req"
    and "epa_form actor \<noteq> [] \<Longrightarrow> map_of (pr_metadata (bindEventPublishActor req actor)) (reservedPrefix @ ''grant_form'') = Some (GStr (epa_form actor))"
    and "epa_instance actor = Some ident \<Longrightarrow> map (map_of (pr_metadata (bindEventPublishActor req actor))) stampedInstance =
      map Some [GStr (iid_namespace ident), GStr (iid_name ident), GStr (iid_manifest ident), GInt (iid_version ident)]"
proof -
  have none: "map_of (filter (\<lambda>(k, v). \<not> isReservedPublisherMetadataKey k) m) k = None" if "isReservedPublisherMetadataKey k" for m k
    using that by (induction m) auto
  show "map_of (pr_metadata (bindEventPublishActor req actor)) publisherKey = Some (GStr (mp_id (epp_base p)))"
    using assms by (auto simp: bindEventPublishActor_def Let_def update_conv' publisherKey_def split: option.splits)
  show "map_of (pr_metadata (bindEventPublishActor req actor)) k = None" if "isReservedPublisherMetadataKey k" "k \<notin> stampedKeys"
    using assms that none by (auto simp: bindEventPublishActor_def Let_def update_conv' publisherKey_def stampedKeys_def split: option.splits)
  show "pr_actor (bindEventPublishActor req actor) = Some (service_actor (mp_id (epp_base p)))"
    "pr_event_type (bindEventPublishActor req actor) = pr_event_type req"
    using assms by (simp_all add: bindEventPublishActor_def Let_def)
  show "map_of (pr_metadata (bindEventPublishActor req actor)) (reservedPrefix @ ''grant_form'') = Some (GStr (epa_form actor))" if "epa_form actor \<noteq> []"
    using assms that by (auto simp: bindEventPublishActor_def Let_def update_conv' split: option.splits)
  show "map (map_of (pr_metadata (bindEventPublishActor req actor))) stampedInstance =
      map Some [GStr (iid_namespace ident), GStr (iid_name ident), GStr (iid_manifest ident), GInt (iid_version ident)]" if "epa_instance actor = Some ident"
    using assms that by (simp add: bindEventPublishActor_def Let_def update_conv' stampedInstance_def)
qed

lemma mutation_request:
  assumes "buildEmitEventRequestFromMutation req = Inr emit"
  shows "em_type emit = TrimSpace (pr_event_type req)" "IsIntegrationMutationEvent (em_type emit)" "em_actor emit = pr_actor req"
    "em_key emit = TrimSpace (pr_idempotency req)"
    "\<exists>m. em_metadata emit = Some m \<and> (\<forall>k. k \<notin> {''idempotency'', ''instance_id'', ''source''} \<longrightarrow> map_of m k = map_of (pr_metadata req) k)"
proof -
  have keep: "map_of (filter (\<lambda>(k, v). P k) m) k = (if P k then map_of m k else None)" for P :: "string \<Rightarrow> bool" and m :: gmap and k
    by (induction m) auto
  show "em_type emit = TrimSpace (pr_event_type req)" "IsIntegrationMutationEvent (em_type emit)" "em_actor emit = pr_actor req"
    "em_key emit = TrimSpace (pr_idempotency req)"
    using assms by (auto simp: buildEmitEventRequestFromMutation_def Let_def split: if_splits option.splits)
  show "\<exists>m. em_metadata emit = Some m \<and> (\<forall>k. k \<notin> {''idempotency'', ''instance_id'', ''source''} \<longrightarrow> map_of m k = map_of (pr_metadata req) k)"
    using assms by (auto simp: buildEmitEventRequestFromMutation_def Let_def keep map_add_def split: if_splits option.splits)
qed

lemma emitted_row:
  assumes "EmitEventWithOutcome X V req db = Inr (outcome, db')" and "\<not> eo_deduped outcome"
  shows "edb_log db' = edb_log db @ [event_of_request X (NormalizeEmit req)]"
  using assms by (auto simp: EmitEventWithOutcome_def Let_def split: option.splits sum.splits)

lemma loaded_publisher:
  assumes "authenticateEventPublishRequest (al_sha A) env (Some (loadEventPublishAuthConfig A env loaded)) now r = Some actor"
    and "epa_machine actor = Some p"
  shows "base_ok (epp_base p)"
proof -
  let ?c = "loadEventPublishAuthConfig A env loaded"
  have err: "eac_err ?c = None" and f: "first_some (\<lambda>t. activeEventPublisherPrincipal (al_sha A) t (eac_principals ?c) now) (event_candidates r) = Some p"
    using assms by (auto simp: authenticateEventPublishRequest_def no_publisher_def split: if_splits option.splits)
  from first_some_Some [OF f] have "p \<in> set (eac_principals ?c)"
    by (auto simp: activeEventPublisherPrincipal_def dest: last_match_iff(1))
  moreover have "eac_principals ?c = [] \<or> (\<exists>cs. load_event_entries cs = Inr (eac_principals ?c))"
    using err by (auto simp: loadEventPublishAuthConfig_def eventPublisherPrincipalsFromEnv_def load_inventory_def Let_def
        split: sum.splits option.splits if_splits)
  ultimately show ?thesis using event_inventory.load_ok by auto
qed

lemma stored_event:
  assumes "handleEventPublish sha env config now lookup X V r body db = (PubStored outcome, db')"
    and "authenticateEventPublishRequest sha env config now r = Some actor0"
  obtains req actor emit where "body = Some req" "authorizeEventPublishPayload lookup req actor0 = Inr actor"
    "buildEmitEventRequestFromPublish (bindEventPublishActor req actor) = Inr emit" "EmitEventWithOutcome X V emit db = Inr (outcome, db')"
  using assms by (auto simp: handleEventPublish_def split: option.splits sum.splits publish_refusal.splits prod.splits)

lemma own_keys_unreserved: "\<not> isReservedPublisherMetadataKey ''idempotency''" "\<not> isReservedPublisherMetadataKey ''instance_id''" "\<not> isReservedPublisherMetadataKey ''source''"
  "publisherKey \<notin> {''idempotency'', ''instance_id'', ''source''}" "reservedPrefix @ ''grant_form'' \<notin> {''idempotency'', ''instance_id'', ''source''}"
  "list_all (\<lambda>k. k \<notin> {''idempotency'', ''instance_id'', ''source''}) stampedInstance"
  by code_simp+

text \<open>What the metadata of a stored event say of the grant it was published under.\<close>

definition stamped_grant :: "'s instance_env \<Rightarrow> 's Manifest list \<Rightarrow> eventPublisherPrincipal \<Rightarrow> string \<Rightarrow> string \<Rightarrow> string \<Rightarrow> gmap \<Rightarrow> bool" where
  "stamped_grant E store p provider instance t m \<longleftrightarrow>
     exact_grant p provider instance t \<and> map_of m (reservedPrefix @ ''grant_form'') = Some (GStr ''exact'') \<or>
     (\<exists>a. active_row_of E store instance provider a \<and> logical_grant p provider a t \<and>
        map_of m (reservedPrefix @ ''grant_form'') = Some (GStr ''logical'') \<and>
        map (map_of m) stampedInstance = map Some [GStr (mf_ns a), GStr (mf_name a), GStr (mf_id a), GInt (mf_version a)])"

lemma covered_is_stamped:
  assumes "epa_machine actor = Some p" and "actor_covered E store p req actor"
    and "\<forall>k. k \<notin> {''idempotency'', ''instance_id'', ''source''} \<longrightarrow> map_of m k = map_of (pr_metadata (bindEventPublishActor req actor)) k"
  shows "stamped_grant E store p (TrimSpace (pr_provider req)) (TrimSpace (pr_instance req)) (TrimSpace (pr_event_type req)) m"
proof -
  note b = bound_metadata [OF assms(1), where req = req]
  have form: "map_of m (reservedPrefix @ ''grant_form'') = Some (GStr (epa_form actor))" if "epa_form actor \<noteq> []"
    using assms(3) own_keys_unreserved(5) b(5) [OF that] by metis
  have inst: "map (map_of m) stampedInstance = map (map_of (pr_metadata (bindEventPublishActor req actor))) stampedInstance"
    using assms(3) own_keys_unreserved(6) by (intro map_cong refl) (simp add: list_all_iff)
  from assms(2) show ?thesis unfolding actor_covered_def
  proof (elim disjE exE conjE)
    assume "epa_form actor = ''exact''" "exact_grant p (TrimSpace (pr_provider req)) (TrimSpace (pr_instance req)) (TrimSpace (pr_event_type req))"
    then show ?thesis using form by (simp add: stamped_grant_def)
  next
    fix a ident assume "active_row_of E store (TrimSpace (pr_instance req)) (TrimSpace (pr_provider req)) a"
      "logical_grant p (TrimSpace (pr_provider req)) a (TrimSpace (pr_event_type req))" "epa_form actor = ''logical''"
      "epa_instance actor = Some ident" "iid_namespace ident = mf_ns a" "iid_name ident = mf_name a" "iid_manifest ident = mf_id a" "iid_version ident = mf_version a"
    then show ?thesis using form inst b(6) [of ident] unfolding stamped_grant_def by (intro disjI2 exI [of _ a]) simp
  qed
qed

section \<open>Properties\<close>

text \<open>C19: An adapter publishes only what it was granted, under its own name. A new event that a machine principal stores is
  a mutation event that one of its grants covers: either the exact provider, instance reference and type of the request, or the logical
  instance that the reference of the request names, by name or by the id of one of its versions; in that case the instance has an active row whose
  type reference names an active type of the provider, and the event is stamped with the namespace, name, id and version of that row. Its actor is
  the principal, the stamp of the publisher is the principal's id, the stamp of the grant says which form it has, and no other reserved key
  of the client survives.\<close>
theorem event_publishing_confined:
  assumes "handleEventPublish (al_sha A) env (Some (loadEventPublishAuthConfig A env loaded)) now
      (\<lambda>w. if up then Some (resolveEventInstance E w store) else None) X V r body db = (PubStored outcome, db')"
    and "\<not> eo_deduped outcome"
    and "authenticateEventPublishRequest (al_sha A) env (Some (loadEventPublishAuthConfig A env loaded)) now r = Some actor"
    and "epa_machine actor = Some p"
  shows "\<exists>req row m. body = Some req \<and> edb_log db' = edb_log db @ [row] \<and> IsIntegrationMutationEvent (er_type row) \<and>
    stamped_grant E store p (TrimSpace (pr_provider req)) (TrimSpace (pr_instance req)) (er_type row) m \<and>
    er_actor_type row = Some ''service'' \<and> er_actor_id row = Some (mp_id (epp_base p)) \<and> er_metadata row = Some m \<and>
    map_of m publisherKey = Some (GStr (mp_id (epp_base p))) \<and>
    (\<forall>k. isReservedPublisherMetadataKey k \<and> k \<notin> stampedKeys \<longrightarrow> map_of m k = None)"
proof -
  from assms(1,3) obtain req actor' emit where req: "body = Some req"
    and auth: "authorizeEventPublishPayload (\<lambda>w. if up then Some (resolveEventInstance E w store) else None) req actor = Inr actor'"
    and build: "buildEmitEventRequestFromPublish (bindEventPublishActor req actor') = Inr emit"
    and emit: "EmitEventWithOutcome X V emit db = Inr (outcome, db')" by (rule stored_event)
  note c = authorized_covered [OF auth assms(4)]
  note b = bound_metadata [OF c(2)]
  have mut: "buildEmitEventRequestFromMutation (bindEventPublishActor req actor') = Inr emit"
    using build c(1) b(4) [of req] by (simp add: buildEmitEventRequestFromPublish_def)
  note mr = mutation_request [OF mut]
  obtain m where m: "em_metadata emit = Some m"
    "\<forall>k. k \<notin> {''idempotency'', ''instance_id'', ''source''} \<longrightarrow> map_of m k = map_of (pr_metadata (bindEventPublishActor req actor')) k"
    using mr(5) by blast
  let ?row = "event_of_request X (NormalizeEmit emit)"
  have id: "mp_id (epp_base p) \<noteq> []" using loaded_publisher [OF assms(3,4)] by (simp add: base_ok_def)
  have type: "er_type ?row = TrimSpace (pr_event_type req)"
    using mr(1) b(4) [of req] by (simp add: event_of_request_def NormalizeEmit_def TrimSpace_id)
  have stamp: "map_of m publisherKey = Some (GStr (mp_id (epp_base p)))" using m(2) b(1) [of req] own_keys_unreserved(4) by simp
  have gone: "map_of m k = None" if "isReservedPublisherMetadataKey k" "k \<notin> stampedKeys" for k
  proof -
    have "k \<notin> {''idempotency'', ''instance_id'', ''source''}" using that(1) own_keys_unreserved(1-3) by auto
    then show ?thesis using m(2) b(2) [OF that] by simp
  qed
  show ?thesis
  proof (intro exI conjI)
    show "body = Some req" by (rule req)
    show "edb_log db' = edb_log db @ [?row]" by (rule emitted_row [OF emit assms(2)])
    show "IsIntegrationMutationEvent (er_type ?row)" using mr(1,2) b(4) [of req] by (simp add: type)
    show "stamped_grant E store p (TrimSpace (pr_provider req)) (TrimSpace (pr_instance req)) (er_type ?row) m"
      using covered_is_stamped [OF c(2,3) m(2)] by (simp add: type)
    show "er_actor_type ?row = Some ''service''" "er_actor_id ?row = Some (mp_id (epp_base p))"
      using mr(3) b(3) [of req] id by (simp_all add: event_of_request_def NormalizeEmit_def service_actor_def non_empty_def)
    show "er_metadata ?row = Some m" using m(1) by (simp add: event_of_request_def NormalizeEmit_def)
    show "map_of m publisherKey = Some (GStr (mp_id (epp_base p)))" by (rule stamp)
    show "\<forall>k. isReservedPublisherMetadataKey k \<and> k \<notin> stampedKeys \<longrightarrow> map_of m k = None" using gone by blast
  qed
qed

text \<open>A publisher with one logical grant, and a request that names the instance by the id of an old version and tries to name another publisher.\<close>

definition ex_event_lib :: auth_lib where
  "ex_event_lib = ex_auth_lib\<lparr>al_event := (\<lambda>s. Some (Some [\<lparr>epc_base = ex_machine,
     epc_events = [\<lparr>epr_provider = ''aws'', epr_instance = ''core/main'', epr_type = ''aws.bucket.ensured''\<rparr>]\<rparr>], True))\<rparr>"

definition ex_event_environ :: environ where
  "ex_event_environ = (\<lambda>name. if name = eventPublisherPrincipalsEnv then Some ''[]'' else None)"

definition ex_event_request :: http_request where
  "ex_event_request = ex_http_request\<lparr>hr_path := ''/api/v1/events''\<rparr>"

definition ex_publish :: eventPublishRequest where
  "ex_publish = \<lparr>pr_type = [], pr_schema = [], pr_agg_type = [], pr_agg_id = [], pr_payload = None, pr_actor = Some (service_actor ''root''),
     pr_metadata = [(publisherKey, GStr ''root'')], pr_event_type = ''aws.bucket.ensured'', pr_provider = ''aws'', pr_resource = ''bucket'',
     pr_verb = ''ensured'', pr_resource_id = ''b1'', pr_instance = ''i1'', pr_idempotency = ''k'', pr_observed = None, pr_emitted = []\<rparr>"

text \<open>The specification of a row is its provider or the name of its type.\<close>

definition ex_instance_env :: "string instance_env" where
  "ex_instance_env = \<lparr>ie_uuid = Some, ie_type_ref = (\<lambda>s. Some \<lparr>sel_manifest_id = [], sel_namespace = [], sel_name = s, sel_version = None\<rparr>), ie_provider = id\<rparr>"

definition ex_instance_row :: "string \<Rightarrow> string \<Rightarrow> string \<Rightarrow> string \<Rightarrow> int \<Rightarrow> bool \<Rightarrow> string \<Rightarrow> string Manifest" where
  "ex_instance_row i kind ns name v act spec = \<lparr>mf_id = i, mf_api = [], mf_kind = kind, mf_ns = ns, mf_name = name, mf_version = v, mf_active = act,
     mf_description = [], mf_labels = [], mf_spec = spec, mf_checksum = [], mf_created = 0, mf_updated = 0\<rparr>"

definition ex_instances :: "string Manifest list" where
  "ex_instances = [ex_instance_row ''i1'' ''integration_instance'' ''core'' ''main'' 1 False ''aws_type'',
     ex_instance_row ''i2'' ''integration_instance'' ''core'' ''main'' 2 True ''aws_type'',
     ex_instance_row ''t1'' ''integration_type'' ''global'' ''aws_type'' 1 True ''aws'']"

definition ex_published :: "publish_reply \<times> event_db" where
  "ex_published = handleEventPublish (al_sha ex_event_lib) ex_event_environ (Some (loadEventPublishAuthConfig ex_event_lib ex_event_environ 0)) 5
     (\<lambda>w. if True then Some (resolveEventInstance ex_instance_env w ex_instances) else None) (ex_emit_env ''e1'') \<lparr>rv_instances = [], rv_types = []\<rparr>
     ex_event_request (Some ex_publish) \<lparr>edb_log = [], edb_reactions = []\<rparr>"

lemma ex_published_stored: "fst ex_published = PubStored \<lparr>eo_event = ''e1'', eo_reactions = 0, eo_deduped = False\<rparr>"
  by code_simp

definition ex_publisher :: eventPublisherPrincipal where
  "ex_publisher = \<lparr>epp_base = wmp_base ex_principal, epp_exact = [],
     epp_logical = [\<lparr>elr_provider = ''aws'', elr_namespace = ''core'', elr_name = ''main'', elr_type = ''aws.bucket.ensured''\<rparr>],
     epp_provider_events = [(''aws'', ''aws.bucket.ensured'')]\<rparr>"

lemma ex_publisher_authenticated:
  "authenticateEventPublishRequest (al_sha ex_event_lib) ex_event_environ (Some (loadEventPublishAuthConfig ex_event_lib ex_event_environ 0)) 5 ex_event_request =
     Some (no_publisher\<lparr>epa_machine := Some ex_publisher\<rparr>)"
  by code_simp

theorem event_publishing_confined_witness:
  "\<exists>row m a. edb_log (snd ex_published) = [row] \<and> er_actor_id row = Some ''m1'' \<and> er_metadata row = Some m \<and>
     map_of m publisherKey = Some (GStr ''m1'') \<and> active_row_of ex_instance_env ex_instances ''i1'' ''aws'' a \<and>
     logical_grant ex_publisher ''aws'' a (er_type row) \<and>
     map (map_of m) stampedInstance = map Some [GStr (mf_ns a), GStr (mf_name a), GStr (mf_id a), GInt (mf_version a)]"
proof -
  have s: "handleEventPublish (al_sha ex_event_lib) ex_event_environ (Some (loadEventPublishAuthConfig ex_event_lib ex_event_environ 0)) 5
     (\<lambda>w. if True then Some (resolveEventInstance ex_instance_env w ex_instances) else None) (ex_emit_env ''e1'') \<lparr>rv_instances = [], rv_types = []\<rparr>
       ex_event_request (Some ex_publish) \<lparr>edb_log = [], edb_reactions = []\<rparr> =
     (PubStored \<lparr>eo_event = ''e1'', eo_reactions = 0, eo_deduped = False\<rparr>, snd ex_published)"
    using ex_published_stored unfolding ex_published_def by (simp only: prod_eq_iff fst_conv snd_conv)
  have i: "mp_id (epp_base ex_publisher) = ''m1''" "TrimSpace (pr_provider ex_publish) = ''aws''" "TrimSpace (pr_instance ex_publish) = ''i1''"
    by code_simp+
  from event_publishing_confined [OF s _ ex_publisher_authenticated, where p = ex_publisher]
  obtain req row m where r: "Some ex_publish = Some req" "edb_log (snd ex_published) = [] @ [row]"
    "stamped_grant ex_instance_env ex_instances ex_publisher (TrimSpace (pr_provider req)) (TrimSpace (pr_instance req)) (er_type row) m"
    "er_actor_id row = Some (mp_id (epp_base ex_publisher))" "er_metadata row = Some m"
    "map_of m publisherKey = Some (GStr (mp_id (epp_base ex_publisher)))" by auto
  have "req = ex_publish" using r(1) by simp
  moreover have "\<not> exact_grant ex_publisher x y t" for x y t by (simp add: exact_grant_def ex_publisher_def)
  ultimately obtain a where "active_row_of ex_instance_env ex_instances ''i1'' ''aws'' a" "logical_grant ex_publisher ''aws'' a (er_type row)"
    "map (map_of m) stampedInstance = map Some [GStr (mf_ns a), GStr (mf_name a), GStr (mf_id a), GInt (mf_version a)]"
    using r(3) i unfolding stamped_grant_def by metis
  then show ?thesis using r i(1) by (intro exI [of _ row] exI [of _ m] exI [of _ a]) simp
qed

text \<open>
  The key of an event is its type and the idempotency key alone, whatever the instance and the resource are: a publisher
  that was granted the same type for another instance has its event taken for a repetition.
\<close>

lemma dedup_ignores_instance:
  assumes "buildEmitEventRequestFromMutation first = Inr e1" and "buildEmitEventRequestFromMutation second = Inr e2"
    and "TrimSpace (pr_event_type first) = TrimSpace (pr_event_type second)" and "TrimSpace (pr_idempotency first) = TrimSpace (pr_idempotency second)"
    and "EmitEventWithOutcome X V e1 db = Inr (outcome, db1)" and "check_emit X' (NormalizeEmit e2) = None"
  shows "\<exists>outcome'. EmitEventWithOutcome X' V' e2 db1 = Inr (outcome', db1) \<and> eo_deduped outcome'"
proof -
  let ?r1 = "event_of_request X (NormalizeEmit e1)" and ?r2 = "event_of_request X' (NormalizeEmit e2)"
  have "TrimSpace (pr_idempotency second) \<noteq> []"
    using assms(2) by (auto simp: buildEmitEventRequestFromMutation_def Let_def split: if_splits)
  then have key: "er_key ?r1 = er_key ?r2" "er_key ?r2 \<noteq> None" "er_type ?r1 = er_type ?r2"
    using mutation_request(1,4) [OF assms(1)] mutation_request(1,4) [OF assms(2)] assms(3,4)
    by (simp_all add: event_of_request_def NormalizeEmit_def non_empty_def TrimSpace_id)
  have "\<exists>e\<in>set (edb_log db1). same_key (er_type ?r1) (er_key ?r1) e"
    using assms(5) key by (auto simp: EmitEventWithOutcome_def Let_def same_key_def find_Some_iff split: option.splits sum.splits)
  then obtain e where "find (same_key (er_type ?r2) (er_key ?r2)) (edb_log db1) = Some e"
    using key by (cases "find (same_key (er_type ?r2) (er_key ?r2)) (edb_log db1)") (auto simp: find_None_iff)
  then show ?thesis using assms(6) by (auto simp: EmitEventWithOutcome_def Let_def)
qed

end
