(* ===== verification/Collaborator_State.thy ===== *)
theory Collaborator_State
  imports Identity
begin

text \<open>
  The state machine of \<open>collaborators.status\<close> (\<open>internal/collaboratorstate/machine.go\<close>) and the write path that
  obeys it, \<open>updateCollaboratorOn\<close> of \<open>repository/identity.go\<close>: patch semantics, the transition check, the
  optimistic version check and the unique indexes on the slug and on the lower-cased primary email. A JSON object
  of a request was decoded from JSON, so that encoding it again succeeds.
\<close>

section \<open>The machine\<close>

datatype transition_error = UnknownStatus string | InvalidTransition string string

definition allowedTransitions :: "(string \<times> string list) list" where
  "allowedTransitions =
     [(''pending_start'', [''active'', ''offboarded'']),
      (''active'', [''on_leave'', ''suspended'', ''offboarded'']),
      (''on_leave'', [''active'', ''suspended'', ''offboarded'']),
      (''suspended'', [''active'', ''on_leave'', ''offboarded'']),
      (''offboarded'', [''pending_start''])]"

definition CanSignIn :: "string \<Rightarrow> bool" where
  "CanSignIn status \<longleftrightarrow> ToLower (TrimSpace status) = ''active''"

definition IsKnown :: "string \<Rightarrow> bool" where
  "IsKnown s \<longleftrightarrow> map_of allowedTransitions s \<noteq> None"

definition ValidateTransition :: "string \<Rightarrow> string \<Rightarrow> transition_error option" where
  "ValidateTransition src to =
     (if src = to then (if \<not> IsKnown src then Some (UnknownStatus src) else None)
      else (case map_of allowedTransitions src of
              None \<Rightarrow> Some (UnknownStatus src)
            | Some dests \<Rightarrow>
                if \<not> IsKnown to then Some (UnknownStatus to)
                else if to \<notin> set dests then Some (InvalidTransition src to) else None))"

definition AllStatuses :: "string list" where
  "AllStatuses = [''pending_start'', ''active'', ''on_leave'', ''suspended'', ''offboarded'']"

section \<open>Writing a collaborator\<close>

datatype collaborator_error =
    IdentityErr identity_error
  | CollaboratorSlugRequired
  | DisplayNameRequired
  | TransitionRefused transition_error
  | ManagerIsSelf
  | ConcurrentUpdate
  | CollaboratorTaken

record UpdateCollaboratorRequest =
  uc_id :: string
  uc_slug :: "string option"
  uc_status :: "string option"
  uc_display_name :: "string option"
  uc_email :: "string option"
  uc_manager :: "string option"
  uc_team :: "string option"
  uc_personal :: "gmap option"
  uc_employment :: "gmap option"
  uc_third_party :: "gmap option"
  uc_traits :: "gmap option"
  uc_metadata :: "gmap option"
  uc_version :: "int option"

definition resolveOptionalCollaboratorIDOn :: "(string \<Rightarrow> string option) \<Rightarrow> identity_db \<Rightarrow> string \<Rightarrow> identity_error + string option" where
  "resolveOptionalCollaboratorIDOn uuid db i =
     (if TrimSpace i = [] then Inr None else map_sum id (\<lambda>c. Some (co_id c)) (getCollaboratorOn uuid db i))"

definition resolvedUUIDPointer :: "string option \<Rightarrow> string option" where
  "resolvedUUIDPointer v = (if v = Some nil_uuid then None else v)"

definition resolved_pointer :: "identity_error + string option \<Rightarrow> string option" where
  "resolved_pointer r = (case r of Inl _ \<Rightarrow> None | Inr v \<Rightarrow> resolvedUUIDPointer v)"

text \<open>The row that the \<open>UPDATE\<close> writes; a reference that does not resolve is an error of \<open>patch_error\<close>.\<close>

definition patched_collaborator :: "(string \<Rightarrow> string option) \<Rightarrow> identity_db \<Rightarrow> time \<Rightarrow> Collaborator \<Rightarrow> UpdateCollaboratorRequest \<Rightarrow> Collaborator" where
  "patched_collaborator uuid db now current req =
     current\<lparr>co_slug := given (uc_slug req) (co_slug current) normalizeSlug,
             co_status := given (uc_status req) (co_status current) normalizeStatus,
             co_display_name := given (uc_display_name req) (co_display_name current) TrimSpace,
             co_email := given (uc_email req) (co_email current) TrimSpace,
             co_manager := given (uc_manager req) (co_manager current) (\<lambda>m. resolved_pointer (resolveOptionalCollaboratorIDOn uuid db m)),
             co_primary_team := given (uc_team req) (co_primary_team current) (\<lambda>t. resolved_pointer (resolveOptionalTeamIDOn uuid db t)),
             co_personal := given (uc_personal req) (co_personal current) id,
             co_employment := given (uc_employment req) (co_employment current) id,
             co_third_party := given (uc_third_party req) (co_third_party current) id,
             co_traits := given (uc_traits req) (co_traits current) id,
             co_metadata := given (uc_metadata req) (co_metadata current) id,
             co_version := co_version current + 1,
             co_updated := now\<rparr>"

definition identity_err :: "identity_error + 'a \<Rightarrow> collaborator_error option" where
  "identity_err r = (case r of Inl e \<Rightarrow> Some (IdentityErr e) | Inr _ \<Rightarrow> None)"

definition status_error :: "Collaborator \<Rightarrow> UpdateCollaboratorRequest \<Rightarrow> collaborator_error option" where
  "status_error current req =
     given (uc_status req) None (\<lambda>s.
       let status = normalizeStatus s in
       if status \<noteq> co_status current
       then map_option TransitionRefused (ValidateTransition (TrimSpace (co_status current)) (TrimSpace status))
       else None)"

definition patch_error :: "(string \<Rightarrow> string option) \<Rightarrow> identity_db \<Rightarrow> Collaborator \<Rightarrow> UpdateCollaboratorRequest \<Rightarrow> collaborator_error option" where
  "patch_error uuid db current req =
     e_then (guard_err (given (uc_slug req) False (\<lambda>s. normalizeSlug s = [])) CollaboratorSlugRequired)
    (e_then (status_error current req)
    (e_then (guard_err (given (uc_display_name req) False (\<lambda>d. TrimSpace d = [])) DisplayNameRequired)
    (e_then (given (uc_manager req) None (\<lambda>m.
              let r = resolveOptionalCollaboratorIDOn uuid db m in
              e_then (identity_err r) (guard_err (resolved_pointer r = Some (co_id current)) ManagerIsSelf)))
    (given (uc_team req) None (\<lambda>t. identity_err (resolveOptionalTeamIDOn uuid db t))))))"

definition put_collaborator :: "Collaborator \<Rightarrow> Collaborator list \<Rightarrow> Collaborator list" where
  "put_collaborator c cs = map (\<lambda>d. if co_id d = co_id c then c else d) cs"

text \<open>A unique index refuses a row whose slug or lower-cased address another row has; an empty address is not indexed.\<close>

definition collaborator_taken :: "Collaborator \<Rightarrow> Collaborator list \<Rightarrow> bool" where
  "collaborator_taken c cs \<longleftrightarrow>
     list_ex (\<lambda>d. co_id d \<noteq> co_id c \<and>
       (co_slug d = co_slug c \<or> co_email c \<noteq> [] \<and> co_email d \<noteq> [] \<and> ToLower (co_email d) = ToLower (co_email c))) cs"

definition updateCollaboratorOn ::
  "(string \<Rightarrow> string option) \<Rightarrow> time \<Rightarrow> identity_db \<Rightarrow> UpdateCollaboratorRequest \<Rightarrow> collaborator_error + Collaborator \<times> string \<times> identity_db" where
  "updateCollaboratorOn uuid now db req =
     (case getCollaboratorOn uuid db (uc_id req) of
        Inl e \<Rightarrow> Inl (IdentityErr e)
      | Inr current \<Rightarrow>
          (case patch_error uuid db current req of
             Some e \<Rightarrow> Inl e
           | None \<Rightarrow>
               let updated = patched_collaborator uuid db now current req in
               if given (uc_version req) (co_version current) id \<noteq> co_version current then Inl ConcurrentUpdate
               else if collaborator_taken updated (db_people db) then Inl CollaboratorTaken
               else Inr (updated, co_status current, db\<lparr>db_people := put_collaborator updated (db_people db)\<rparr>)))"

section \<open>Facts\<close>

text \<open>What the tables guarantee: one row for an id, ids in canonical form, and the statuses of the check constraint.\<close>

definition canonical_id :: "(string \<Rightarrow> string option) \<Rightarrow> string \<Rightarrow> bool" where
  "canonical_id uuid i \<longleftrightarrow> uuid (TrimSpace i) = Some i \<and> i \<noteq> nil_uuid"

definition people_ok :: "(string \<Rightarrow> string option) \<Rightarrow> identity_db \<Rightarrow> bool" where
  "people_ok uuid db \<longleftrightarrow>
     distinct (map co_id (db_people db)) \<and>
     list_all (\<lambda>c. canonical_id uuid (co_id c) \<and> IsKnown (co_status c)) (db_people db)"

definition status_of :: "identity_db \<Rightarrow> string \<Rightarrow> string option" where
  "status_of db i = map_option co_status (find (\<lambda>c. co_id c = i) (db_people db))"

lemma allowedTransitions_known:
  "map_of allowedTransitions f = Some ds \<Longrightarrow> t \<in> set ds \<Longrightarrow> IsKnown t"
  by (auto simp: allowedTransitions_def IsKnown_def split: if_splits)

lemma IsKnown_iff: "IsKnown s \<longleftrightarrow> s \<in> set AllStatuses"
  by (auto simp: IsKnown_def allowedTransitions_def AllStatuses_def)

lemma ValidateTransition_None:
  "ValidateTransition f t = None \<longleftrightarrow>
     IsKnown f \<and> (t = f \<or> (\<exists>ds. map_of allowedTransitions f = Some ds \<and> t \<in> set ds))"
  by (auto simp: ValidateTransition_def split: option.splits dest: allowedTransitions_known) (simp_all add: IsKnown_def)

lemma known_trimmed: "IsKnown s \<Longrightarrow> TrimSpace s = s"
  by (rule TrimSpace_id) (auto simp: IsKnown_iff AllStatuses_def trimmed_def is_space_def)

lemma CanSignIn_known: "IsKnown s \<Longrightarrow> CanSignIn s \<longleftrightarrow> s = ''active''"
  by (auto simp: CanSignIn_def known_trimmed) (auto simp: IsKnown_iff AllStatuses_def ToLower_def lower_char_def less_eq_char_def)

lemma patched_fields [simp]:
  "co_id (patched_collaborator uuid db now c req) = co_id c"
  "co_status (patched_collaborator uuid db now c req) = given (uc_status req) (co_status c) normalizeStatus"
  "co_version (patched_collaborator uuid db now c req) = co_version c + 1"
  by (simp_all add: patched_collaborator_def)

lemma getCollaboratorOn_Inr:
  "getCollaboratorOn uuid db i = Inr c \<Longrightarrow> c \<in> set (db_people db) \<and> identity_matches uuid i (co_id c) (co_slug c)"
  by (auto simp: getCollaboratorOn_def find_Some_iff split: option.splits)

lemma normalizeStatus_trimmed: "TrimSpace (normalizeStatus s) = normalizeStatus s"
  by (auto simp: normalizeStatus_def or_default_def Let_def TrimSpace_ToLower) (simp add: TrimSpace_id trimmed_def is_space_def)

text \<open>A successful write changes one row and keeps its id; a changed status is a transition of the machine.\<close>

lemma updateCollaboratorOn_Inr:
  assumes "updateCollaboratorOn uuid now db req = Inr (updated, prev, db')"
  obtains current where "getCollaboratorOn uuid db (uc_id req) = Inr current" "patch_error uuid db current req = None"
    "updated = patched_collaborator uuid db now current req" "prev = co_status current"
    "db' = db\<lparr>db_people := put_collaborator updated (db_people db)\<rparr>"
    "given (uc_version req) (co_version current) id = co_version current" "\<not> collaborator_taken updated (db_people db)"
  using assms by (auto simp: updateCollaboratorOn_def Let_def split: sum.splits option.splits if_splits)

lemma map_co_id_put [simp]: "map co_id (put_collaborator c cs) = map co_id cs"
  by (simp add: put_collaborator_def)

lemma find_map_id: "(\<And>d. co_id (f d) = co_id d) \<Longrightarrow> find (\<lambda>c. co_id c = i) (map f cs) = map_option f (find (\<lambda>c. co_id c = i) cs)"
  by (induction cs) auto

lemma find_distinct:
  "distinct (map co_id cs) \<Longrightarrow> c \<in> set cs \<Longrightarrow> find (\<lambda>d. co_id d = co_id c) cs = Some c"
  by (induction cs) (auto simp: image_iff)

lemma find_id: "find (\<lambda>c. co_id c = i) cs = Some d \<Longrightarrow> co_id d = i"
  by (auto simp: find_Some_iff)

lemma status_of_put:
  assumes "find (\<lambda>d. co_id d = co_id c) (db_people db) \<noteq> None"
  shows "status_of (db\<lparr>db_people := put_collaborator c (db_people db)\<rparr>) i = (if i = co_id c then Some (co_status c) else status_of db i)"
proof -
  have "find (\<lambda>d. co_id d = i) (put_collaborator c (db_people db)) =
      map_option (\<lambda>d. if co_id d = co_id c then c else d) (find (\<lambda>d. co_id d = i) (db_people db))"
    unfolding put_collaborator_def by (rule find_map_id) simp
  note m = this
  show ?thesis
  proof (cases "find (\<lambda>d. co_id d = i) (db_people db)")
    case None
    with assms have "i \<noteq> co_id c" by auto
    then show ?thesis using m None by (simp add: status_of_def)
  next
    case (Some d)
    from find_id [OF this] have "co_id d = i" .
    then show ?thesis using m Some by (simp add: status_of_def)
  qed
qed

lemma changed_status_allowed:
  assumes "patch_error uuid db current req = None" "IsKnown (co_status current)"
    "status = given (uc_status req) (co_status current) normalizeStatus"
  shows "ValidateTransition (co_status current) status = None"
proof (cases "status = co_status current")
  case True then show ?thesis using assms(2) by (simp add: ValidateTransition_None)
next
  case False
  then obtain s where s: "uc_status req = Some s" "status = normalizeStatus s"
    using assms(3) by (cases "uc_status req") (auto simp: given_def)
  from assms(1) have "status_error current req = None" by (simp add: patch_error_def e_then_None)
  then have "ValidateTransition (TrimSpace (co_status current)) (TrimSpace status) = None"
    using s False by (simp add: status_error_def given_def Let_def)
  then show ?thesis using known_trimmed [OF assms(2)] s(2) by (simp add: normalizeStatus_trimmed)
qed

lemma ValidateTransition_known: "ValidateTransition f t = None \<Longrightarrow> IsKnown f \<Longrightarrow> IsKnown t"
  using allowedTransitions_known by (auto simp: ValidateTransition_None)

lemma updateCollaboratorOn_statuses:
  assumes u: "updateCollaboratorOn uuid now db req = Inr (updated, prev, db')" and ok: "people_ok uuid db"
  shows "people_ok uuid db'" "status_of db (co_id updated) = Some prev" "status_of db' (co_id updated) = Some (co_status updated)"
    "i \<noteq> co_id updated \<Longrightarrow> status_of db' i = status_of db i" "ValidateTransition prev (co_status updated) = None"
proof -
  from u obtain current where c: "getCollaboratorOn uuid db (uc_id req) = Inr current" "patch_error uuid db current req = None"
    "updated = patched_collaborator uuid db now current req" "prev = co_status current"
    "db' = db\<lparr>db_people := put_collaborator updated (db_people db)\<rparr>" by (rule updateCollaboratorOn_Inr)
  have mem: "current \<in> set (db_people db)" using getCollaboratorOn_Inr [OF c(1)] by simp
  have known: "IsKnown (co_status current)" and canon: "canonical_id uuid (co_id current)"
    using ok mem by (auto simp: people_ok_def list_all_iff)
  have f: "find (\<lambda>d. co_id d = co_id updated) (db_people db) = Some current"
    using ok mem c(3) find_distinct [of "db_people db" current] by (simp add: people_ok_def)
  show v: "ValidateTransition prev (co_status updated) = None"
    unfolding c(4) by (rule changed_status_allowed [OF c(2) known]) (simp add: c(3))
  have known': "IsKnown (co_status updated)" using ValidateTransition_known [OF v] known c(4) by simp
  have "distinct (map co_id (db_people db'))" using ok c(5) by (simp add: people_ok_def)
  moreover have "list_all (\<lambda>c. canonical_id uuid (co_id c) \<and> IsKnown (co_status c)) (db_people db')"
    using ok known' canon c(3,5) by (auto simp: people_ok_def list_all_iff put_collaborator_def)
  ultimately show "people_ok uuid db'" by (simp add: people_ok_def)
  show "status_of db (co_id updated) = Some prev" using f c(4) by (simp add: status_of_def)
  have n: "find (\<lambda>d. co_id d = co_id updated) (db_people db) \<noteq> None" using f by simp
  show "status_of db' (co_id updated) = Some (co_status updated)" unfolding c(5) status_of_put [OF n] by simp
  show "i \<noteq> co_id updated \<Longrightarrow> status_of db' i = status_of db i" unfolding c(5) status_of_put [OF n] by simp
qed

end
