(* ===== verification/Sessions.thy ===== *)
theory Sessions
  imports Collaborator_State Event_Log
begin

text \<open>
  Console sessions: the rows of \<open>auth_sessions\<close> and the operations of \<open>repository/auth.go\<close>,
  \<open>repository/auth_recovery.go\<close>, \<open>repository/session_revocation.go\<close>, \<open>repository/credentials.go\<close>,
  \<open>internal/auth/stepup\<close> and \<open>addons/expired_sessions_cleaner.go\<close> that create, read, revoke and expire them. One
  call is one step at one reading of the clock. The hash of a token, the parser of UUIDs and what the database and
  the random source draw are arguments. Sessions with equal sort keys keep their table order.
\<close>

section \<open>Tables\<close>

record AuthSession =
  se_id :: string
  se_collaborator :: string
  se_status :: string
  se_token :: string
  se_metadata :: gmap
  se_last_seen :: "time option"
  se_expires :: time
  se_revoked :: "time option"
  se_created :: time
  se_updated :: time
  se_device :: string
  se_agent :: string
  se_ip :: "string option"
  se_step_up :: "time option"

record AuthIdentity =
  ai_collaborator :: string
  ai_scheme :: string
  ai_hash :: "string option"
  ai_mfa_version :: string
  ai_mfa_enrolled :: "time option"
  ai_failed :: int
  ai_locked :: "time option"
  ai_last_login :: "time option"

record SessionRevocation =
  sr_id :: string
  sr_collaborator :: string
  sr_jti :: "string option"
  sr_revoked :: time
  sr_reason :: string
  sr_metadata :: gmap

text \<open>The tables of the OpenID provider; a refresh token and its parent are stored as hashes.\<close>

record OIDCRefreshToken =
  rt_token :: string
  rt_collaborator :: string
  rt_client :: string
  rt_scopes :: "string list"
  rt_expires :: time
  rt_from :: "string option"
  rt_revoked :: "time option"
  rt_created :: time

record OIDCAuthRequest =
  oar_id :: string
  oar_client :: string
  oar_collaborator :: "string option"
  oar_redirect :: string
  oar_scopes :: "string list"
  oar_challenge :: string
  oar_method :: string
  oar_state :: string
  oar_nonce :: string
  oar_expires :: time
  oar_consumed :: "time option"
  oar_created :: time

record OIDCAuthCode =
  oac_code :: string
  oac_request :: string
  oac_expires :: time
  oac_consumed :: "time option"
  oac_created :: time

record OIDCSessionLink =
  ol_id :: string
  ol_collaborator :: string
  ol_client :: string
  ol_session :: "string option"
  ol_sid :: string
  ol_created :: time
  ol_seen :: time
  ol_terminated :: "time option"

record LifecycleEvent =
  le_collaborator :: string
  le_type :: string
  le_payload :: gmap
  le_actor_type :: string
  le_actor_id :: string
  le_effective :: time

record auth_state =
  as_db :: identity_db
  as_phone_required :: "string list"
  as_idents :: "AuthIdentity list"
  as_sessions :: "AuthSession list"
  as_revocations :: "SessionRevocation list"
  as_refresh :: "OIDCRefreshToken list"
  as_requests :: "OIDCAuthRequest list"
  as_codes :: "OIDCAuthCode list"
  as_links :: "OIDCSessionLink list"
  as_events :: event_db
  as_lifecycle :: "LifecycleEvent list"

datatype auth_error =
    SessionNotFound
  | SessionExpired
  | TokenFailed
  | SessionRefused
  | SessionIdentityErr identity_error
  | CollaboratorErr collaborator_error
  | InvalidReason string
  | RevocationHolderRequired
  | EmitErr emit_error
  | PhoneUnavailable
  | CannotSignIn
  | PhoneProfileRequired
  | LifecycleErr
  | IdentifierRequired
  | PasswordRequired
  | InvalidCredentials
  | AccountLocked
  | MFANotEnrolled

section \<open>Revocation\<close>

definition revoke_where :: "time \<Rightarrow> (AuthSession \<Rightarrow> bool) \<Rightarrow> AuthSession list \<Rightarrow> AuthSession list" where
  "revoke_where now P ss =
     map (\<lambda>s. if P s then s\<lparr>se_status := ''revoked'', se_revoked := Some now, se_updated := now\<rparr> else s) ss"

definition RevokeAllAuthSessions :: "time \<Rightarrow> string \<Rightarrow> auth_state \<Rightarrow> auth_state" where
  "RevokeAllAuthSessions now cid st =
     st\<lparr>as_sessions := revoke_where now (\<lambda>s. se_collaborator s = cid \<and> se_revoked s = None) (as_sessions st),
        as_refresh := map (\<lambda>t. if rt_collaborator t = cid \<and> rt_revoked t = None then t\<lparr>rt_revoked := Some now\<rparr> else t) (as_refresh st),
        as_codes := map (\<lambda>c. if list_ex (\<lambda>r. oar_id r = oac_request c \<and> oar_collaborator r = Some cid) (as_requests st) \<and>
                              oac_consumed c = None \<and> now < oac_expires c
                           then c\<lparr>oac_consumed := Some now\<rparr> else c) (as_codes st),
        as_requests := map (\<lambda>r. if oar_collaborator r = Some cid \<and> oar_consumed r = None \<and> now < oar_expires r
                                then r\<lparr>oar_consumed := Some now\<rparr> else r) (as_requests st)\<rparr>"

definition RevokeAllOtherSessions :: "time \<Rightarrow> string \<Rightarrow> string \<Rightarrow> auth_state \<Rightarrow> auth_state" where
  "RevokeAllOtherSessions now cid keep st =
     st\<lparr>as_sessions := revoke_where now (\<lambda>s. se_collaborator s = cid \<and> se_id s \<noteq> keep \<and> se_revoked s = None) (as_sessions st)\<rparr>"

definition RevokeSessionByIDForCollaborator :: "time \<Rightarrow> string \<Rightarrow> string \<Rightarrow> auth_state \<Rightarrow> AuthSession option \<times> auth_state" where
  "RevokeSessionByIDForCollaborator now sid cid st =
     (let P = (\<lambda>s. se_id s = sid \<and> se_collaborator s = cid \<and> se_status s = ''active'') in
      (case find P (as_sessions st) of
         None \<Rightarrow> (None, st)
       | Some s \<Rightarrow> (Some (hd (revoke_where now P [s])), st\<lparr>as_sessions := revoke_where now P (as_sessions st)\<rparr>)))"

text \<open>\<open>token_hash\<close> is unique, so that the newest row of a hash is its only row.\<close>

definition getAuthSessionByTokenHash :: "auth_state \<Rightarrow> string \<Rightarrow> auth_error + AuthSession" where
  "getAuthSessionByTokenHash st h =
     (case find (\<lambda>s. se_token s = h) (as_sessions st) of None \<Rightarrow> Inl SessionNotFound | Some s \<Rightarrow> Inr s)"

definition RevokeAuthSession :: "(string \<Rightarrow> string) \<Rightarrow> time \<Rightarrow> string \<Rightarrow> auth_state \<Rightarrow> (auth_error + AuthSession) \<times> auth_state" where
  "RevokeAuthSession hash now token st =
     (case getAuthSessionByTokenHash st (hash (TrimSpace token)) of
        Inl e \<Rightarrow> (Inl e, st)
      | Inr s \<Rightarrow> (Inr (hd (revoke_where now (\<lambda>_. True) [s])),
                  st\<lparr>as_sessions := revoke_where now (\<lambda>x. se_id x = se_id s) (as_sessions st)\<rparr>))"

definition validSessionRevocationReasons :: "string list" where
  "validSessionRevocationReasons =
     [''logout'', ''admin_revoked'', ''password_rotated'', ''offboarded'', ''session_expired'', ''mfa_reset'']"

definition InsertSessionRevocation ::
  "time \<Rightarrow> string \<Rightarrow> string \<Rightarrow> string option \<Rightarrow> string \<Rightarrow> gmap \<Rightarrow> auth_state \<Rightarrow> auth_error + SessionRevocation \<times> auth_state" where
  "InsertSessionRevocation now rid cid jti raw metadata st =
     (let reason = TrimSpace raw in
      if reason \<notin> set validSessionRevocationReasons then Inl (InvalidReason reason)
      else if cid = nil_uuid then Inl RevocationHolderRequired
      else let row = \<lparr>sr_id = rid, sr_collaborator = cid, sr_jti = jti, sr_revoked = now, sr_reason = reason, sr_metadata = metadata\<rparr>
           in Inr (row, st\<lparr>as_revocations := as_revocations st @ [row]\<rparr>))"

definition IsSessionRevoked :: "auth_state \<Rightarrow> string \<Rightarrow> string option \<Rightarrow> time \<Rightarrow> auth_error + bool" where
  "IsSessionRevoked st cid jti issuedAt =
     (if cid = nil_uuid then Inl RevocationHolderRequired
      else Inr (list_ex (\<lambda>r. sr_collaborator r = cid \<and>
             (sr_jti r \<noteq> None \<and> jti \<noteq> None \<and> sr_jti r = jti \<or> sr_jti r = None \<and> issuedAt \<le> sr_revoked r)) (as_revocations st)))"

section \<open>Creation\<close>

definition maxActiveSessionsPerCollaborator :: int where
  "maxActiveSessionsPerCollaborator = 20"

definition sessionCapForCollaborator :: "string \<Rightarrow> int" where
  "sessionCapForCollaborator v =
     (if v = [] then maxActiveSessionsPerCollaborator
      else case Atoi v of None \<Rightarrow> maxActiveSessionsPerCollaborator
           | Some n \<Rightarrow> if 0 < n then n else maxActiveSessionsPerCollaborator)"

definition metadataString :: "gmap \<Rightarrow> string \<Rightarrow> string" where
  "metadataString m k = (case map_of m k of Some (GStr s) \<Rightarrow> s | _ \<Rightarrow> [])"

definition active_session :: "time \<Rightarrow> string \<Rightarrow> AuthSession \<Rightarrow> bool" where
  "active_session now cid s \<longleftrightarrow> se_collaborator s = cid \<and> se_status s = ''active'' \<and> now < se_expires s"

definition last_use :: "AuthSession \<Rightarrow> time" where
  "last_use s = (case se_last_seen s of None \<Rightarrow> se_created s | Some t \<Rightarrow> t)"

text \<open>The ids that the eviction revokes: ordered by last use and by creation, what follows the offset.\<close>

definition excess_sessions :: "time \<Rightarrow> int \<Rightarrow> string \<Rightarrow> AuthSession list \<Rightarrow> string list" where
  "excess_sessions now cap cid ss =
     map se_id (drop (nat (cap - 1)) (sort_key last_use (sort_key se_created (filter (active_session now cid) ss))))"

definition evict_sessions :: "time \<Rightarrow> int \<Rightarrow> string \<Rightarrow> AuthSession list \<Rightarrow> AuthSession list" where
  "evict_sessions now cap cid ss = (let excess = excess_sessions now cap cid ss in revoke_where now (\<lambda>s. se_id s \<in> set excess) ss)"

definition thirty_days :: int where
  "thirty_days = 30 * 24 * 60 * 60 * Second"

definition new_session :: "time \<Rightarrow> string \<Rightarrow> string \<Rightarrow> string \<Rightarrow> gmap \<Rightarrow> int \<Rightarrow> AuthSession" where
  "new_session now sid token_hash cid metadata ttl =
     \<lparr>se_id = sid, se_collaborator = cid, se_status = ''active'', se_token = token_hash, se_metadata = metadata,
      se_last_seen = None, se_expires = now + (if ttl \<le> 0 then thirty_days else ttl), se_revoked = None,
      se_created = now, se_updated = now,
      se_device = metadataString metadata ''device_fingerprint'', se_agent = metadataString metadata ''user_agent'',
      se_ip = (let v = metadataString metadata ''ip_address'' in if v \<noteq> [] then Some v else None), se_step_up = None\<rparr>"

text \<open>
  The insertion is refused when the holder does not exist or when the id or the token hash is taken; the eviction
  before it is a statement of its own and stays.
\<close>

definition createAuthSession ::
  "(string \<Rightarrow> string) \<Rightarrow> int \<Rightarrow> time \<Rightarrow> string \<Rightarrow> string option \<Rightarrow> string \<Rightarrow> gmap \<Rightarrow> int \<Rightarrow> auth_state \<Rightarrow>
   (auth_error + AuthSession \<times> string) \<times> auth_state" where
  "createAuthSession hash cap now sid token cid metadata ttl st =
     (let st1 = st\<lparr>as_sessions := evict_sessions now cap cid (as_sessions st)\<rparr> in
      case token of
        None \<Rightarrow> (Inl TokenFailed, st1)
      | Some tok \<Rightarrow>
          let s = new_session now sid (hash tok) cid metadata ttl in
          if \<not> list_ex (\<lambda>c. co_id c = cid) (db_people (as_db st1)) \<or>
             list_ex (\<lambda>x. se_id x = sid \<or> se_token x = hash tok) (as_sessions st1)
          then (Inl SessionRefused, st1)
          else (Inr (s, tok), st1\<lparr>as_sessions := as_sessions st1 @ [s]\<rparr>))"

section \<open>Use\<close>

definition update_session :: "string \<Rightarrow> (AuthSession \<Rightarrow> AuthSession) \<Rightarrow> auth_state \<Rightarrow> auth_state" where
  "update_session sid f st = st\<lparr>as_sessions := map (\<lambda>s. if se_id s = sid then f s else s) (as_sessions st)\<rparr>"

definition ResolveAuthSession ::
  "(string \<Rightarrow> string option) \<Rightarrow> (string \<Rightarrow> string) \<Rightarrow> time \<Rightarrow> string \<Rightarrow> auth_state \<Rightarrow> (auth_error + AuthSession \<times> Collaborator) \<times> auth_state" where
  "ResolveAuthSession uuid hash now raw st =
     (let token = TrimSpace raw in
      if token = [] then (Inl SessionNotFound, st)
      else (case getAuthSessionByTokenHash st (hash token) of
        Inl e \<Rightarrow> (Inl e, st)
      | Inr s \<Rightarrow>
          if ToLower (TrimSpace (se_status s)) \<noteq> ''active'' then (Inl SessionNotFound, st)
          else if se_expires s < now
          then (Inl SessionExpired, update_session (se_id s) (\<lambda>x. x\<lparr>se_status := ''expired'', se_updated := now\<rparr>) st)
          else let seen = (\<lambda>x. x\<lparr>se_last_seen := Some now, se_updated := now\<rparr>);
                   st1 = update_session (se_id s) seen st in
            (case getCollaboratorOn uuid (as_db st1) (se_collaborator s) of
               Inl e \<Rightarrow> (Inl (SessionIdentityErr e), st1)
             | Inr c \<Rightarrow> if \<not> CanSignIn (co_status c) then (Inl SessionNotFound, st1) else (Inr (seen s, c), st1))))"

definition RequireIssuableSubject :: "auth_state \<Rightarrow> string \<Rightarrow> auth_error option" where
  "RequireIssuableSubject st cid =
     (if cid = nil_uuid then Some PhoneUnavailable
      else case find (\<lambda>c. co_id c = cid) (db_people (as_db st)) of
        None \<Rightarrow> Some PhoneUnavailable
      | Some c \<Rightarrow> if \<not> CanSignIn (co_status c) then Some CannotSignIn
                  else if cid \<in> set (as_phone_required st) then Some PhoneProfileRequired else None)"

definition ListActiveSessionsForCollaborator :: "time \<Rightarrow> string \<Rightarrow> auth_state \<Rightarrow> AuthSession list" where
  "ListActiveSessionsForCollaborator now cid st =
     sort_key (\<lambda>s. - last_use s) (sort_key (\<lambda>s. - se_created s) (filter (active_session now cid) (as_sessions st)))"

definition cleanupExpiredSessions :: "time \<Rightarrow> auth_state \<Rightarrow> nat \<times> auth_state" where
  "cleanupExpiredSessions now st =
     (let P = (\<lambda>s. se_status s = ''active'' \<and> se_expires s < now) in
      (length (filter P (as_sessions st)),
       st\<lparr>as_sessions := map (\<lambda>s. if P s then s\<lparr>se_status := ''expired'', se_updated := now\<rparr> else s) (as_sessions st)\<rparr>))"

definition Mark :: "time \<Rightarrow> string \<Rightarrow> auth_state \<Rightarrow> auth_state" where
  "Mark now sid = update_session sid (\<lambda>s. s\<lparr>se_step_up := Some now, se_updated := now\<rparr>)"

definition IsFresh :: "time \<Rightarrow> int \<Rightarrow> AuthSession \<Rightarrow> bool" where
  "IsFresh now window s = (case se_step_up s of None \<Rightarrow> False | Some t \<Rightarrow> now - t \<le> window)"

section \<open>The table of sessions\<close>

text \<open>The statuses that the code writes, the agreement of the two columns of a revocation, and the keys of the table.\<close>

definition session_row_ok :: "AuthSession \<Rightarrow> bool" where
  "session_row_ok s \<longleftrightarrow>
     se_status s \<in> {''active'', ''revoked'', ''expired''} \<and> (se_revoked s \<noteq> None \<longrightarrow> se_status s = ''revoked'')"

definition sessions_ok :: "auth_state \<Rightarrow> bool" where
  "sessions_ok st \<longleftrightarrow>
     distinct (map se_id (as_sessions st)) \<and> distinct (map se_token (as_sessions st)) \<and>
     list_all session_row_ok (as_sessions st)"

text \<open>How a row may change: its keys and its holder stay, and a row that is not active never becomes active.\<close>

definition session_kept :: "AuthSession \<Rightarrow> AuthSession \<Rightarrow> bool" where
  "session_kept s s' \<longleftrightarrow>
     se_id s' = se_id s \<and> se_token s' = se_token s \<and> se_collaborator s' = se_collaborator s \<and>
     se_expires s' = se_expires s \<and> session_row_ok s' \<and>
     (se_status s \<noteq> ''active'' \<longrightarrow> se_status s' \<noteq> ''active'')"

lemma map_evolves:
  assumes "\<And>s. s \<in> set ss \<Longrightarrow> session_kept s (f s)"
  shows "list_all2 session_kept ss (map f ss)"
  using assms by (induction ss) auto

lemma kept_keys:
  "list_all2 session_kept ss ss' \<Longrightarrow> map se_id ss' = map se_id ss \<and> map se_token ss' = map se_token ss"
  by (induction rule: list_all2_induct) (auto simp: session_kept_def)

lemma kept_revoked:
  "list_all2 session_kept ss ss' \<Longrightarrow> list_all session_row_ok ss'"
  by (induction rule: list_all2_induct) (auto simp: session_kept_def)

lemma kept_member:
  "list_all2 session_kept ss ss' \<Longrightarrow> s \<in> set ss \<Longrightarrow> \<exists>s'\<in>set ss'. session_kept s s'"
  by (induction rule: list_all2_induct) auto

lemma kept_sessions_ok:
  "sessions_ok st \<Longrightarrow> list_all2 session_kept (as_sessions st) (as_sessions st') \<Longrightarrow> sessions_ok st'"
  using kept_keys kept_revoked by (simp add: sessions_ok_def)

lemma sessions_ok_row: "sessions_ok st \<Longrightarrow> s \<in> set (as_sessions st) \<Longrightarrow> session_row_ok s"
  by (auto simp: sessions_ok_def list_all_iff)

lemma kept_refl: "sessions_ok st \<Longrightarrow> s \<in> set (as_sessions st) \<Longrightarrow> session_kept s s"
  using sessions_ok_row by (auto simp: session_kept_def)

lemma revoke_where_kept: "sessions_ok st \<Longrightarrow> list_all2 session_kept (as_sessions st) (revoke_where now P (as_sessions st))"
  unfolding revoke_where_def by (rule map_evolves) (auto simp: session_kept_def session_row_ok_def dest: sessions_ok_row)

lemma update_session_kept:
  assumes "sessions_ok st" "\<And>s. s \<in> set (as_sessions st) \<Longrightarrow> se_id s = sid \<Longrightarrow> session_kept s (f s)"
  shows "list_all2 session_kept (as_sessions st) (as_sessions (update_session sid f st))"
  unfolding update_session_def using assms by (auto intro!: map_evolves kept_refl [OF assms(1)])

lemma find_token: "find (\<lambda>s. se_token s = h) ss = Some s \<Longrightarrow> s \<in> set ss \<and> se_token s = h"
  by (auto simp: find_Some_iff)

lemma unique_id: "sessions_ok st \<Longrightarrow> s \<in> set (as_sessions st) \<Longrightarrow> x \<in> set (as_sessions st) \<Longrightarrow> se_id x = se_id s \<Longrightarrow> x = s"
  by (auto simp: sessions_ok_def distinct_map dest: inj_onD)

lemma Resolve_kept:
  assumes ok: "sessions_ok st"
  shows "list_all2 session_kept (as_sessions st) (as_sessions (snd (ResolveAuthSession uuid hash now raw st)))"
proof -
  have refl: "list_all2 session_kept (as_sessions st) (as_sessions st)"
    using map_evolves [of "as_sessions st" id] kept_refl [OF ok] by simp
  have expire: "list_all2 session_kept (as_sessions st)
      (as_sessions (update_session (se_id s) (\<lambda>x. x\<lparr>se_status := ''expired'', se_updated := now\<rparr>) st))"
    if "s \<in> set (as_sessions st)" "ToLower (TrimSpace (se_status s)) = ''active''" for s
  proof (rule update_session_kept [OF ok])
    fix x assume "x \<in> set (as_sessions st)" "se_id x = se_id s"
    then have "x = s" using unique_id [OF ok that(1)] by blast
    moreover have "se_status s \<noteq> ''revoked''" using that(2) by (auto simp: TrimSpace_def TrimLeft_def is_space_def ToLower_def lower_char_def)
    ultimately show "session_kept x (x\<lparr>se_status := ''expired'', se_updated := now\<rparr>)"
      using sessions_ok_row [OF ok that(1)] by (cases "se_revoked s") (simp_all add: session_kept_def session_row_ok_def)
  qed
  have seen: "list_all2 session_kept (as_sessions st)
      (as_sessions (update_session i (\<lambda>x. x\<lparr>se_last_seen := Some now, se_updated := now\<rparr>) st))" for i
    by (rule update_session_kept [OF ok]) (auto simp: session_kept_def session_row_ok_def dest: sessions_ok_row [OF ok])
  show ?thesis
  proof (cases "find (\<lambda>s. se_token s = hash (TrimSpace raw)) (as_sessions st)")
    case None then show ?thesis using refl by (simp add: ResolveAuthSession_def getAuthSessionByTokenHash_def Let_def)
  next
    case (Some s)
    from find_token [OF this] have "s \<in> set (as_sessions st)" by simp
    then show ?thesis using Some refl expire [of s] seen [of "se_id s"]
      by (auto simp: ResolveAuthSession_def getAuthSessionByTokenHash_def Let_def split: sum.splits)
  qed
qed


section \<open>The cap\<close>

lemma revoke_where_keys:
  "list_ex (\<lambda>x. se_id x = i \<or> se_token x = h) (revoke_where now P ss) \<longleftrightarrow> list_ex (\<lambda>x. se_id x = i \<or> se_token x = h) ss"
  by (induction ss) (auto simp: revoke_where_def)

lemma revoke_where_active:
  "filter (active_session now cid) (revoke_where now P ss) = filter (active_session now cid) (filter (\<lambda>s. \<not> P s) ss)"
  by (induction ss) (auto simp: revoke_where_def active_session_def)

lemma excess_ids:
  assumes "distinct (map se_id ss)"
  shows "length (filter (active_session now cid) (filter (\<lambda>s. se_id s \<notin> set (excess_sessions now cap cid ss)) ss)) \<le> nat (cap - 1)"
proof -
  let ?a = "filter (active_session now cid) ss"
  let ?o = "sort_key last_use (sort_key se_created ?a)"
  let ?k = "filter (active_session now cid) (filter (\<lambda>s. se_id s \<notin> set (excess_sessions now cap cid ss)) ss)"
  have "set ?k \<subseteq> set (take (nat (cap - 1)) ?o)"
  proof
    fix s assume s: "s \<in> set ?k"
    then have "s \<in> set ?o" by simp
    moreover have "s \<notin> set (drop (nat (cap - 1)) ?o)" using s by (auto simp: excess_sessions_def)
    ultimately show "s \<in> set (take (nat (cap - 1)) ?o)" by (metis append_take_drop_id in_set_conv_decomp set_append Un_iff)
  qed
  moreover have "distinct ?k" using assms by (simp add: distinct_map)
  then have "length ?k = card (set ?k)" by (rule distinct_card [symmetric])
  ultimately have "length ?k \<le> card (set (take (nat (cap - 1)) ?o))" by (metis List.finite_set card_mono)
  also have "\<dots> \<le> nat (cap - 1)" by (metis card_length length_take min.cobounded2 order.trans)
  finally show ?thesis .
qed

lemma evict_leaves:
  assumes "distinct (map se_id ss)"
  shows "length (filter (active_session now cid) (evict_sessions now cap cid ss)) \<le> nat (cap - 1)"
  unfolding evict_sessions_def Let_def revoke_where_active by (rule excess_ids [OF assms])

lemma createAuthSession_Inr:
  assumes "createAuthSession hash cap now sid token cid metadata ttl st = (Inr (s, tok), st')"
  shows "token = Some tok \<and> s = new_session now sid (hash tok) cid metadata ttl \<and>
    as_sessions st' = evict_sessions now cap cid (as_sessions st) @ [s] \<and> as_db st' = as_db st \<and>
    list_ex (\<lambda>c. co_id c = cid) (db_people (as_db st)) \<and> \<not> list_ex (\<lambda>x. se_id x = sid \<or> se_token x = hash tok) (as_sessions st)"
proof -
  have keys: "list_ex (\<lambda>x. se_id x = sid \<or> se_token x = h) (evict_sessions now cap cid ss) \<longleftrightarrow>
      list_ex (\<lambda>x. se_id x = sid \<or> se_token x = h) ss" for ss h
    unfolding evict_sessions_def Let_def by (rule revoke_where_keys)
  from assms show ?thesis
    unfolding createAuthSession_def Let_def
    by (cases token) (auto simp: keys split: if_splits)
qed

lemma createAuthSession_sessions:
  assumes "createAuthSession hash cap now sid token cid metadata ttl st = (r, st')" "sessions_ok st"
  shows "\<exists>new. as_sessions st' = evict_sessions now cap cid (as_sessions st) @ new \<and> as_db st' = as_db st \<and> sessions_ok st'"
proof -
  have e: "list_all2 session_kept (as_sessions st) (evict_sessions now cap cid (as_sessions st))"
    unfolding evict_sessions_def Let_def by (rule revoke_where_kept [OF assms(2)])
  have ok1: "sessions_ok (st\<lparr>as_sessions := evict_sessions now cap cid (as_sessions st)\<rparr>)"
    using kept_sessions_ok [OF assms(2)] e by simp
  show ?thesis
  proof (cases r)
    case (Inl x)
    with assms(1) have "st' = st\<lparr>as_sessions := evict_sessions now cap cid (as_sessions st)\<rparr>"
      by (cases token) (auto simp: createAuthSession_def Let_def split: if_splits)
    then show ?thesis using ok1 by auto
  next
    case (Inr p)
    obtain s tok where p: "p = (s, tok)" by (cases p)
    have c: "token = Some tok" "s = new_session now sid (hash tok) cid metadata ttl"
      "as_sessions st' = evict_sessions now cap cid (as_sessions st) @ [s]" "as_db st' = as_db st"
      "\<not> list_ex (\<lambda>x. se_id x = sid \<or> se_token x = hash tok) (as_sessions st)"
      using createAuthSession_Inr [OF assms(1) [unfolded Inr p]] by auto
    have "sid \<notin> set (map se_id (as_sessions st))" "hash tok \<notin> set (map se_token (as_sessions st))"
      using c(5) by (auto simp: list_ex_iff)
    then have "sessions_ok st'"
      using ok1 c(2,3) kept_keys [OF e] by (auto simp: sessions_ok_def new_session_def session_row_ok_def)
    then show ?thesis using c by auto
  qed
qed

section \<open>Properties\<close>

text \<open>However many sessions a collaborator held, after \<open>createAuthSession\<close> opened one more at most the configured number of them are active and unexpired; the new one is among them.\<close>
theorem session_cap_holds:
  assumes "createAuthSession hash cap now sid token cid metadata ttl st = (Inr (s, tok), st')" "sessions_ok st" "0 < cap"
  shows "length (ListActiveSessionsForCollaborator now cid st') \<le> nat cap \<and> s \<in> set (ListActiveSessionsForCollaborator now cid st')"
proof -
  have c: "s = new_session now sid (hash tok) cid metadata ttl" "as_sessions st' = evict_sessions now cap cid (as_sessions st) @ [s]"
    using createAuthSession_Inr [OF assms(1)] by auto
  have "active_session now cid s" unfolding c(1) active_session_def new_session_def by (simp add: thirty_days_def)
  moreover have "length (filter (active_session now cid) (evict_sessions now cap cid (as_sessions st))) \<le> nat (cap - 1)"
    using assms(2) by (intro evict_leaves) (simp add: sessions_ok_def)
  ultimately show ?thesis using assms(3) by (simp add: ListActiveSessionsForCollaborator_def c(2))
qed

text \<open>The eviction before a new session keeps the least recently used sessions and revokes the most recently used ones: every session that stays active was last used no later than every session that is revoked.\<close>
theorem eviction_revokes_most_recent:
  assumes "sessions_ok st" "kept \<in> set (as_sessions st)" "gone \<in> set (as_sessions st)" "active_session now cid kept"
    "active_session now cid gone" "se_id kept \<notin> set (excess_sessions now cap cid (as_sessions st))"
    "se_id gone \<in> set (excess_sessions now cap cid (as_sessions st))"
  shows "last_use kept \<le> last_use gone"
proof -
  let ?n = "nat (cap - 1)"
  let ?o = "sort_key last_use (sort_key se_created (filter (active_session now cid) (as_sessions st)))"
  have "kept \<in> set ?o" using assms(2,4) by simp
  moreover have "kept \<notin> set (drop ?n ?o)" using assms(6) by (auto simp: excess_sessions_def)
  ultimately have k: "kept \<in> set (take ?n ?o)" by (metis append_take_drop_id set_append Un_iff)
  obtain g where g: "g \<in> set (drop ?n ?o)" "se_id g = se_id gone" using assms(7) by (auto simp: excess_sessions_def)
  have "g \<in> set ?o" using g(1) in_set_dropD by fast
  then have "g = gone" using unique_id [OF assms(1,3), of g] g(2) by simp
  moreover have "sorted (map last_use (take ?n ?o @ drop ?n ?o))" by simp
  ultimately show ?thesis using k g(1) by (auto simp: sorted_append simp del: append_take_drop_id)
qed


section \<open>Examples\<close>

definition ex_holder :: "string \<Rightarrow> string \<Rightarrow> gmap \<Rightarrow> Collaborator" where
  "ex_holder i status employment =
     \<lparr>co_id = i, co_slug = i, co_status = status, co_display_name = i, co_email = [], co_manager = None, co_primary_team = None,
      co_personal = [], co_employment = employment, co_third_party = [], co_traits = [], co_metadata = [], co_version = 1,
      co_created = 0, co_updated = 0\<rparr>"

definition ex_open :: "string \<Rightarrow> string \<Rightarrow> time \<Rightarrow> AuthSession" where
  "ex_open i cid created = (new_session created i i cid [] 100)"

definition ex_auth :: "Collaborator list \<Rightarrow> AuthSession list \<Rightarrow> auth_state" where
  "ex_auth people sessions =
     \<lparr>as_db = \<lparr>db_people = people, db_teams = [], db_members = [], db_grants = []\<rparr>, as_phone_required = [], as_idents = [],
      as_sessions = sessions, as_revocations = [], as_refresh = [], as_requests = [], as_codes = [], as_links = [],
      as_events = \<lparr>edb_log = [], edb_reactions = []\<rparr>, as_lifecycle = []\<rparr>"

definition ex_two :: auth_state where
  "ex_two = ex_auth [ex_holder ''c'' ''active'' []] [ex_open ''a'' ''c'' 1, ex_open ''b'' ''c'' 2]"

definition ex_three :: auth_state where
  "ex_three = snd (createAuthSession id 2 10 ''n'' (Some ''n'') ''c'' [] 50 ex_two)"

lemma ex_created: "createAuthSession id 2 10 ''n'' (Some ''n'') ''c'' [] 50 ex_two = (Inr (new_session 10 ''n'' ''n'' ''c'' [] 50, ''n''), ex_three)"
  by code_simp

lemma ex_two_ok: "sessions_ok ex_two"
  by code_simp

theorem session_cap_holds_witness:
  "length (ListActiveSessionsForCollaborator 10 ''c'' ex_three) \<le> 2 \<and>
   new_session 10 ''n'' ''n'' ''c'' [] 50 \<in> set (ListActiveSessionsForCollaborator 10 ''c'' ex_three)"
  using session_cap_holds [OF ex_created ex_two_ok] by simp

text \<open>Of the two sessions before, the older one survives and the newer one is revoked.\<close>

lemma ex_evicted: "map (\<lambda>s. (se_id s, se_status s)) (as_sessions ex_three) = [(''a'', ''active''), (''b'', ''revoked''), (''n'', ''active'')]"
  by code_simp

end
