(* ===== verification/Session_Policy.thy ===== *)
theory Session_Policy
  imports Sessions
begin

text \<open>
  What a change of a collaborator's status does to its sessions: \<open>repository/collaborator_session_termination.go\<close>
  and the transactions around \<open>updateCollaboratorOn\<close>. A call that fails rolls its transaction back. The locale \<open>session_gate\<close> states what keeps a session of a collaborator
  who could not sign in from ever being used again; it is interpreted on the steps of the operations.
\<close>

section \<open>Termination\<close>

text \<open>What one termination draws: the id of its revocation row, the environment of the event and the rendering of a time.\<close>

record term_env =
  te_revocation :: string
  te_emit :: emit_env
  te_view :: reactor_view
  te_rfc3339 :: "time \<Rightarrow> string"

definition terminated_payload :: "(time \<Rightarrow> string) \<Rightarrow> time \<Rightarrow> Collaborator \<Rightarrow> string \<Rightarrow> string \<Rightarrow> gmap" where
  "terminated_payload rfc now collab reason rid =
     [(''collaborator_id'', GStr (co_id collab)), (''reason'', GStr reason), (''revocation_id'', GStr rid),
      (''emitted_at'', GStr (rfc now))] @
     (if co_email collab \<noteq> [] then [(''primary_email'', GStr (co_email collab))] else [])"

definition terminated_event :: "term_env \<Rightarrow> time \<Rightarrow> Collaborator \<Rightarrow> string \<Rightarrow> EmitEventRequest" where
  "terminated_event D now collab reason =
     \<lparr>em_type = ''collaborator.session.terminated'', em_schema = ''v1'', em_agg_type = ''collaborator'', em_agg_id = co_id collab,
      em_actor = None, em_payload = Some (terminated_payload (te_rfc3339 D) now collab reason (te_revocation D)),
      em_metadata = None, em_key = ''session.terminated.'' @ te_revocation D\<rparr>"

definition TerminateCollaboratorSessionsTx ::
  "term_env \<Rightarrow> time \<Rightarrow> Collaborator \<Rightarrow> string \<Rightarrow> gmap \<Rightarrow> auth_state \<Rightarrow> auth_error + SessionRevocation \<times> auth_state" where
  "TerminateCollaboratorSessionsTx D now collab reason metadata st =
     (case InsertSessionRevocation now (te_revocation D) (co_id collab) None reason metadata (RevokeAllAuthSessions now (co_id collab) st) of
        Inl e \<Rightarrow> Inl e
      | Inr (row, st1) \<Rightarrow>
          (case EmitEvent (te_emit D) (te_view D) (terminated_event D now collab reason) (as_events st1) of
             Inl e \<Rightarrow> Inl (EmitErr e)
           | Inr (_, events) \<Rightarrow> Inr (row, st1\<lparr>as_events := events\<rparr>)))"

definition status_metadata :: "string \<Rightarrow> string \<Rightarrow> string \<Rightarrow> gmap" where
  "status_metadata source prev now_status =
     [(''source'', GStr source), (''from_status'', GStr prev), (''to_status'', GStr now_status)]"

definition applyCollaboratorStatusSessionPolicyTx ::
  "term_env \<Rightarrow> time \<Rightarrow> string \<Rightarrow> Collaborator \<Rightarrow> auth_state \<Rightarrow> auth_error + auth_state" where
  "applyCollaboratorStatusSessionPolicyTx D now previousStatus updated st =
     (if previousStatus = co_status updated then Inr st
      else if CanSignIn (co_status updated) then Inr (RevokeAllAuthSessions now (co_id updated) st)
      else let reason = (if ToLower (TrimSpace (co_status updated)) = ''offboarded'' then ''offboarded'' else ''admin_revoked'')
           in map_sum id snd (TerminateCollaboratorSessionsTx D now updated reason
                (status_metadata ''collaborator_status_change'' previousStatus (co_status updated)) st))"

definition UpdateCollaboratorTx ::
  "(string \<Rightarrow> string option) \<Rightarrow> term_env \<Rightarrow> time \<Rightarrow> UpdateCollaboratorRequest \<Rightarrow> auth_state \<Rightarrow> auth_error + Collaborator \<times> auth_state" where
  "UpdateCollaboratorTx uuid D now req st =
     (case updateCollaboratorOn uuid now (as_db st) req of
        Inl e \<Rightarrow> Inl (CollaboratorErr e)
      | Inr (updated, previousStatus, db') \<Rightarrow>
          map_sum id (Pair updated) (applyCollaboratorStatusSessionPolicyTx D now previousStatus updated (st\<lparr>as_db := db'\<rparr>)))"

definition UpdateCollaborator ::
  "(string \<Rightarrow> string option) \<Rightarrow> term_env \<Rightarrow> time \<Rightarrow> UpdateCollaboratorRequest \<Rightarrow> auth_state \<Rightarrow> (auth_error + Collaborator) \<times> auth_state" where
  "UpdateCollaborator uuid D now req st =
     (case UpdateCollaboratorTx uuid D now req st of Inl e \<Rightarrow> (Inl e, st) | Inr (c, st') \<Rightarrow> (Inr c, st'))"

definition status_request :: "string \<Rightarrow> string \<Rightarrow> UpdateCollaboratorRequest" where
  "status_request i status =
     \<lparr>uc_id = i, uc_slug = None, uc_status = Some status, uc_display_name = None, uc_email = None, uc_manager = None,
      uc_team = None, uc_personal = None, uc_employment = None, uc_third_party = None, uc_traits = None,
      uc_metadata = None, uc_version = None\<rparr>"

definition OffboardCollaboratorTx ::
  "(string \<Rightarrow> string option) \<Rightarrow> term_env \<Rightarrow> time \<Rightarrow> string \<Rightarrow> auth_state \<Rightarrow> auth_error + Collaborator \<times> auth_state" where
  "OffboardCollaboratorTx uuid D now i st =
     (case updateCollaboratorOn uuid now (as_db st) (status_request i ''offboarded'') of
        Inl e \<Rightarrow> Inl (CollaboratorErr e)
      | Inr (updated, previousStatus, db') \<Rightarrow>
          (case applyCollaboratorStatusSessionPolicyTx D now previousStatus updated (st\<lparr>as_db := db'\<rparr>) of
             Inl e \<Rightarrow> Inl e
           | Inr st1 \<Rightarrow>
               if previousStatus = co_status updated
               then map_sum id (\<lambda>(_, st2). (updated, st2)) (TerminateCollaboratorSessionsTx D now updated ''offboarded''
                      (status_metadata ''offboard_repeat'' previousStatus (co_status updated)) st1)
               else Inr (updated, st1)))"

section \<open>What the operations do to the sessions\<close>

definition holder_may :: "auth_state \<Rightarrow> string \<Rightarrow> bool" where
  "holder_may st cid \<longleftrightarrow> (case status_of (as_db st) cid of None \<Rightarrow> False | Some s \<Rightarrow> CanSignIn s)"

lemma RevokeAll_fields [simp]:
  "as_db (RevokeAllAuthSessions now cid st) = as_db st"
  "as_events (RevokeAllAuthSessions now cid st) = as_events st"
  "as_revocations (RevokeAllAuthSessions now cid st) = as_revocations st"
  "as_sessions (RevokeAllAuthSessions now cid st) =
     revoke_where now (\<lambda>s. se_collaborator s = cid \<and> se_revoked s = None) (as_sessions st)"
  by (simp_all add: RevokeAllAuthSessions_def)

lemma RevokeAll_tables:
  "as_refresh (RevokeAllAuthSessions now cid st) =
     map (\<lambda>t. if rt_collaborator t = cid \<and> rt_revoked t = None then t\<lparr>rt_revoked := Some now\<rparr> else t) (as_refresh st)"
  "as_requests (RevokeAllAuthSessions now cid st) =
     map (\<lambda>r. if oar_collaborator r = Some cid \<and> oar_consumed r = None \<and> now < oar_expires r
                then r\<lparr>oar_consumed := Some now\<rparr> else r) (as_requests st)"
  "as_codes (RevokeAllAuthSessions now cid st) =
     map (\<lambda>c. if list_ex (\<lambda>r. oar_id r = oac_request c \<and> oar_collaborator r = Some cid) (as_requests st) \<and>
                oac_consumed c = None \<and> now < oac_expires c then c\<lparr>oac_consumed := Some now\<rparr> else c) (as_codes st)"
  by (simp_all add: RevokeAllAuthSessions_def)

lemma Terminate_Inr:
  assumes "TerminateCollaboratorSessionsTx D now collab reason metadata st = Inr (row, st')"
  shows "as_db st' = as_db st \<and> as_sessions st' = as_sessions (RevokeAllAuthSessions now (co_id collab) st) \<and>
    as_refresh st' = as_refresh (RevokeAllAuthSessions now (co_id collab) st) \<and>
    as_requests st' = as_requests (RevokeAllAuthSessions now (co_id collab) st) \<and>
    as_codes st' = as_codes (RevokeAllAuthSessions now (co_id collab) st) \<and>
    as_revocations st' = as_revocations st @ [row] \<and> sr_collaborator row = co_id collab \<and> sr_jti row = None \<and>
    sr_revoked row = now \<and> sr_reason row = TrimSpace reason \<and> sr_id row = te_revocation D \<and>
    (\<exists>i. EmitEvent (te_emit D) (te_view D) (terminated_event D now collab reason) (as_events st) = Inr (i, as_events st'))"
  using assms unfolding TerminateCollaboratorSessionsTx_def InsertSessionRevocation_def Let_def
  by (simp split: if_splits sum.splits prod.splits) (elim exE conjE, auto)

text \<open>
  The policy by the change: nothing for the same status, a silent sweep for a status that signs in, a termination
  otherwise. In each case the sessions either stay or are those of the sweep.
\<close>

lemma policy_cases:
  assumes "applyCollaboratorStatusSessionPolicyTx D now prev updated st = Inr st'"
  obtains (same) "prev = co_status updated" "st' = st"
  | (reactivated) "prev \<noteq> co_status updated" "CanSignIn (co_status updated)" "st' = RevokeAllAuthSessions now (co_id updated) st"
  | (terminated) row reason where "prev \<noteq> co_status updated" "\<not> CanSignIn (co_status updated)"
      "reason = (if ToLower (TrimSpace (co_status updated)) = ''offboarded'' then ''offboarded'' else ''admin_revoked'')"
      "TerminateCollaboratorSessionsTx D now updated reason
         (status_metadata ''collaborator_status_change'' prev (co_status updated)) st = Inr (row, st')"
proof (cases "prev = co_status updated")
  case True
  then have "st' = st" using assms by (simp add: applyCollaboratorStatusSessionPolicyTx_def)
  with True same show ?thesis by blast
next
  case ch: False
  show ?thesis
  proof (cases "CanSignIn (co_status updated)")
    case True
    then have "st' = RevokeAllAuthSessions now (co_id updated) st" using assms ch by (simp add: applyCollaboratorStatusSessionPolicyTx_def)
    with ch True reactivated show ?thesis by blast
  next
    case False
    define reason where "reason = (if ToLower (TrimSpace (co_status updated)) = ''offboarded'' then ''offboarded'' else ''admin_revoked'')"
    have "map_sum id snd (TerminateCollaboratorSessionsTx D now updated reason
        (status_metadata ''collaborator_status_change'' prev (co_status updated)) st) = Inr st'"
      using assms ch False unfolding reason_def applyCollaboratorStatusSessionPolicyTx_def Let_def by (simp only: if_False)
    then obtain row where "TerminateCollaboratorSessionsTx D now updated reason
        (status_metadata ''collaborator_status_change'' prev (co_status updated)) st = Inr (row, st')"
      unfolding map_sum_Inr by fastforce
    with ch False reason_def terminated show ?thesis by blast
  qed
qed

text \<open>The tables of sessions and grants that a sweep of one collaborator writes.\<close>

definition swept_tables :: "auth_state \<Rightarrow> AuthSession list \<times> OIDCRefreshToken list \<times> OIDCAuthRequest list \<times> OIDCAuthCode list" where
  "swept_tables st = (as_sessions st, as_refresh st, as_requests st, as_codes st)"

lemma policy_sessions:
  assumes "applyCollaboratorStatusSessionPolicyTx D now prev updated st = Inr st'"
  shows "as_db st' = as_db st \<and> swept_tables st' =
    (if prev = co_status updated then swept_tables st else swept_tables (RevokeAllAuthSessions now (co_id updated) st))"
  using assms
proof (cases rule: policy_cases)
  case same then show ?thesis by simp
next
  case reactivated then show ?thesis by simp
next
  case (terminated row reason)
  then show ?thesis using Terminate_Inr [OF terminated(4)] by (simp add: swept_tables_def)
qed

lemma swept_sessions: "swept_tables st' = swept_tables st \<Longrightarrow> as_sessions st' = as_sessions st"
  by (simp add: swept_tables_def)

lemma RevokeAll_frame: "swept_tables (RevokeAllAuthSessions now cid (st\<lparr>as_db := db\<rparr>)) = swept_tables (RevokeAllAuthSessions now cid st)"
  by (simp add: swept_tables_def RevokeAllAuthSessions_def)

lemma revoke_where_member:
  "s \<in> set (revoke_where now P ss) \<Longrightarrow> (\<not> P s \<and> s \<in> set ss) \<or> se_status s = ''revoked''"
  by (induction ss) (auto simp: revoke_where_def split: if_splits)

lemma sweep_dead:
  assumes "sessions_ok st" "s \<in> set (as_sessions (RevokeAllAuthSessions now cid st))" "se_collaborator s = cid"
  shows "se_status s \<noteq> ''active''"
  using revoke_where_member [OF assms(2) [unfolded RevokeAll_fields]]
proof
  assume "\<not> (se_collaborator s = cid \<and> se_revoked s = None) \<and> s \<in> set (as_sessions st)"
  then have "s \<in> set (as_sessions st)" "se_revoked s \<noteq> None" using assms(3) by auto
  then show ?thesis using sessions_ok_row [OF assms(1), of s] by (simp add: session_row_ok_def)
qed simp

section \<open>Steps\<close>

text \<open>
  One step is one operation at some time. \<open>Elsewhere\<close> stands for what the other operations write: anything but the
  sessions and the statuses of the collaborators. The deletion of a collaborator, which removes its sessions, is left out.
\<close>

inductive auth_step :: "(string \<Rightarrow> string option) \<Rightarrow> (string \<Rightarrow> string) \<Rightarrow> int \<Rightarrow> auth_state \<Rightarrow> auth_state \<Rightarrow> bool"
  for uuid hash cap where
  Create: "createAuthSession hash cap now sid token cid metadata ttl st = (r, st') \<Longrightarrow> auth_step uuid hash cap st st'"
| Resolve: "ResolveAuthSession uuid hash now token st = (r, st') \<Longrightarrow> auth_step uuid hash cap st st'"
| Logout: "RevokeAuthSession hash now token st = (r, st') \<Longrightarrow> auth_step uuid hash cap st st'"
| RevokeOne: "RevokeSessionByIDForCollaborator now sid cid st = (r, st') \<Longrightarrow> auth_step uuid hash cap st st'"
| RevokeOthers: "auth_step uuid hash cap st (RevokeAllOtherSessions now cid keep st)"
| Terminate: "TerminateCollaboratorSessionsTx D now collab reason metadata st = Inr (row, st') \<Longrightarrow> auth_step uuid hash cap st st'"
| Update: "UpdateCollaboratorTx uuid D now req st = Inr (c, st') \<Longrightarrow> auth_step uuid hash cap st st'"
| Offboard: "OffboardCollaboratorTx uuid D now i st = Inr (c, st') \<Longrightarrow> auth_step uuid hash cap st st'"
| Cleanup: "cleanupExpiredSessions now st = (n, st') \<Longrightarrow> auth_step uuid hash cap st st'"
| StepUp: "auth_step uuid hash cap st (Mark now sid st)"
| Elsewhere: "as_sessions st' = as_sessions st \<Longrightarrow> people_ok uuid (as_db st') \<Longrightarrow>
    (\<And>i. status_of (as_db st') i = status_of (as_db st) i) \<Longrightarrow> auth_step uuid hash cap st st'"

inductive auth_run :: "(string \<Rightarrow> string option) \<Rightarrow> (string \<Rightarrow> string) \<Rightarrow> int \<Rightarrow> auth_state list \<Rightarrow> bool"
  for uuid hash cap where
  Start: "auth_run uuid hash cap [st]"
| Step: "auth_run uuid hash cap (st # hist) \<Longrightarrow> auth_step uuid hash cap st st' \<Longrightarrow> auth_run uuid hash cap (st' # st # hist)"

inductive_cases auth_run_Cons: "auth_run uuid hash cap (st # hist)"

section \<open>The gate\<close>

text \<open>
  \<open>live st s\<close>: the store would still accept session \<open>s\<close>; \<open>may st u\<close>: the user may sign in. A store that never
  revives a session, and that leaves no session of a user alive when the user becomes able to sign in again, never
  accepts a session that existed while its holder could not.
\<close>

locale session_gate =
  fixes step :: "'st \<Rightarrow> 'st \<Rightarrow> bool" and inv :: "'st \<Rightarrow> bool" and has :: "'st \<Rightarrow> 'k \<Rightarrow> 'u \<Rightarrow> bool"
    and live :: "'st \<Rightarrow> 'k \<Rightarrow> bool" and may :: "'st \<Rightarrow> 'u \<Rightarrow> bool"
  assumes inv_step: "inv st \<Longrightarrow> step st st' \<Longrightarrow> inv st'"
    and has_step: "inv st \<Longrightarrow> step st st' \<Longrightarrow> has st k u \<Longrightarrow> has st' k u"
    and dead_step: "inv st \<Longrightarrow> step st st' \<Longrightarrow> has st k u \<Longrightarrow> \<not> live st k \<Longrightarrow> \<not> live st' k"
    and sweep: "inv st \<Longrightarrow> step st st' \<Longrightarrow> has st k u \<Longrightarrow> \<not> may st u \<Longrightarrow> may st' u \<Longrightarrow> \<not> live st' k"
begin

lemma barred_step:
  assumes "inv st" "step st st'" "has st k u" "\<not> (live st k \<and> may st u)"
  shows "\<not> (live st' k \<and> may st' u)"
  using dead_step [OF assms(1-3)] sweep [OF assms(1-3)] assms(4) by blast

lemma barred_run:
  assumes "step\<^sup>*\<^sup>* st st'" "inv st" "has st k u" "\<not> may st u"
  shows "inv st' \<and> has st' k u \<and> \<not> (live st' k \<and> may st' u)"
  using assms
proof (induction rule: rtranclp_induct)
  case base then show ?case by simp
next
  case (step y z)
  then have y: "inv y" "has y k u" "\<not> (live y k \<and> may y u)" by auto
  show ?case
    using inv_step [OF y(1) step.hyps(2)] has_step [OF y(1) step.hyps(2) y(2)] barred_step [OF y(1) step.hyps(2) y(2,3)] y(3) by blast
qed

end


section \<open>The operations respect the gate\<close>

definition holders_ok :: "(string \<Rightarrow> string option) \<Rightarrow> auth_state \<Rightarrow> bool" where
  "holders_ok uuid st \<longleftrightarrow> list_all (canonical_id uuid) (map se_collaborator (as_sessions st))"

definition auth_ok :: "(string \<Rightarrow> string option) \<Rightarrow> auth_state \<Rightarrow> bool" where
  "auth_ok uuid st \<longleftrightarrow> people_ok uuid (as_db st) \<and> sessions_ok st \<and> holders_ok uuid st"

lemma kept_holders:
  "list_all2 session_kept ss ss' \<Longrightarrow> map se_collaborator ss' = map se_collaborator ss"
  by (induction rule: list_all2_induct) (auto simp: session_kept_def)

text \<open>Key: the hash of a token. A key has a holder when a row has it, and is live when that row is active.\<close>

definition has_key :: "auth_state \<Rightarrow> string \<Rightarrow> string \<Rightarrow> bool" where
  "has_key st h cid \<longleftrightarrow> list_ex (\<lambda>s. se_token s = h \<and> se_collaborator s = cid) (as_sessions st)"

definition live_key :: "auth_state \<Rightarrow> string \<Rightarrow> bool" where
  "live_key st h \<longleftrightarrow> list_ex (\<lambda>s. se_token s = h \<and> se_status s = ''active'') (as_sessions st)"


text \<open>
  What every step does: the old rows stay in the sense of \<open>session_kept\<close>, the invariant is kept, and a holder who
  becomes able to sign in has no active row.
\<close>

definition step_effect :: "(string \<Rightarrow> string option) \<Rightarrow> auth_state \<Rightarrow> auth_state \<Rightarrow> bool" where
  "step_effect uuid st st' \<longleftrightarrow>
     (\<exists>old new. as_sessions st' = old @ new \<and> list_all2 session_kept (as_sessions st) old) \<and> auth_ok uuid st' \<and>
     (\<forall>i x. \<not> holder_may st i \<longrightarrow> holder_may st' i \<longrightarrow> x \<in> set (as_sessions st') \<longrightarrow> se_collaborator x = i \<longrightarrow> se_status x \<noteq> ''active'')"

lemma kept_self: "sessions_ok st \<Longrightarrow> list_all2 session_kept (as_sessions st) (as_sessions st)"
  using map_evolves [of "as_sessions st" id] kept_refl by simp

lemma updateOn_step:
  assumes u: "updateCollaboratorOn uuid now (as_db st) req = Inr (updated, prev, db')" and ok: "auth_ok uuid st"
    and s: "prev = co_status updated \<and> as_sessions st' = as_sessions st \<or> as_sessions st' = as_sessions (RevokeAllAuthSessions now (co_id updated) st)"
    and d: "as_db st' = db'"
  shows "step_effect uuid st st'"
proof -
  have oks: "sessions_ok st" "people_ok uuid (as_db st)" using ok by (simp_all add: auth_ok_def)
  have k: "list_all2 session_kept (as_sessions st) (as_sessions st')"
    using s kept_self [OF oks(1)] revoke_where_kept [OF oks(1)] by auto
  note st = updateCollaboratorOn_statuses [OF u oks(2)]
  have "auth_ok uuid st'" using st(1) kept_sessions_ok [OF oks(1) k] kept_holders [OF k] d ok by (simp add: auth_ok_def holders_ok_def)
  moreover have "se_status x \<noteq> ''active''"
    if m: "\<not> holder_may st i" "holder_may st' i" "x \<in> set (as_sessions st')" "se_collaborator x = i" for i x
  proof -
    have i: "i = co_id updated" using m(1,2) st(4) [of i] d by (cases "i = co_id updated") (auto simp: holder_may_def)
    then have "prev \<noteq> co_status updated" using m(1,2) st(2,3) d by (auto simp: holder_may_def)
    then have "as_sessions st' = as_sessions (RevokeAllAuthSessions now (co_id updated) st)" using s by blast
    then show ?thesis using sweep_dead [OF oks(1), of x now "co_id updated"] m(3,4) i by simp
  qed
  ultimately show ?thesis using k unfolding step_effect_def by (metis append_Nil2)
qed


lemma same_statuses_effect:
  assumes "auth_ok uuid st" "people_ok uuid (as_db st')" "\<And>i. status_of (as_db st') i = status_of (as_db st) i"
    "as_sessions st' = old @ new" "list_all2 session_kept (as_sessions st) old" "sessions_ok st'" "holders_ok uuid st'"
  shows "step_effect uuid st st'"
proof -
  have "holder_may st' i = holder_may st i" for i using assms(3) by (simp add: holder_may_def)
  then show ?thesis using assms unfolding step_effect_def auth_ok_def by blast
qed

lemma same_db_effect:
  assumes "auth_ok uuid st" "as_db st' = as_db st" "list_all2 session_kept (as_sessions st) (as_sessions st')"
  shows "step_effect uuid st st'"
  using assms kept_sessions_ok [of st st'] kept_holders [OF assms(3)]
  by (intro same_statuses_effect [where old = "as_sessions st'" and new = "[]"]) (auto simp: auth_ok_def holders_ok_def)

lemma Offboard_Inr:
  assumes "OffboardCollaboratorTx uuid D now i st = Inr (c, st')"
  obtains prev db' where "updateCollaboratorOn uuid now (as_db st) (status_request i ''offboarded'') = Inr (c, prev, db')"
    "as_db st' = db'" "swept_tables st' = swept_tables (RevokeAllAuthSessions now (co_id c) st)"
proof -
  let ?w = "updateCollaboratorOn uuid now (as_db st) (status_request i ''offboarded'')"
  have "?w \<noteq> Inl e" for e using assms by (simp add: OffboardCollaboratorTx_def split: sum.splits)
  then obtain p where "?w = Inr p" using sum.exhaust by metis
  then obtain updated prev db' where u1: "?w = Inr (updated, prev, db')" by (cases p) simp
  note r = assms [unfolded OffboardCollaboratorTx_def u1 sum.case prod.case]
  let ?q = "applyCollaboratorStatusSessionPolicyTx D now prev updated (st\<lparr>as_db := db'\<rparr>)"
  have "?q \<noteq> Inl e" for e using r by (simp split: sum.splits)
  then obtain st1 where u2: "?q = Inr st1" using sum.exhaust by metis
  note u = u1 u2 r [unfolded u2 sum.case]
  note p = policy_sessions [OF u(2)]
  show thesis
  proof (cases "prev = co_status updated")
    case True
    note t0 = u(3) [unfolded if_P [OF True] map_sum_Inr]
    then obtain x where x: "TerminateCollaboratorSessionsTx D now updated ''offboarded''
        (status_metadata ''offboard_repeat'' prev (co_status updated)) st1 = Inr x" "(c, st') = (case x of (_, st2) \<Rightarrow> (updated, st2))"
      by (elim exE conjE) (rule that)
    obtain row st2 where x': "x = (row, st2)" by (cases x)
    have e: "c = updated" "st' = st2" using x(2) unfolding x' by simp_all
    note T = Terminate_Inr [OF x(1) [unfolded x']]
    have "st1 = st\<lparr>as_db := db'\<rparr>" using u2 True by (simp add: applyCollaboratorStatusSessionPolicyTx_def)
    then have "as_db st' = db'" "swept_tables st' = swept_tables (RevokeAllAuthSessions now (co_id c) st)"
      using T RevokeAll_frame [of now "co_id updated" db' st] unfolding e by (simp_all add: swept_tables_def)
    then show thesis by (rule that [OF u(1) [folded e(1)]])
  next
    case False
    then have "updated = c" "st1 = st'" using u(3) by simp_all
    then show thesis using that [of prev db'] u(1) p False RevokeAll_frame by simp
  qed
qed

lemma Update_Inr:
  assumes "UpdateCollaboratorTx uuid D now req st = Inr (c, st')"
  obtains prev db' where "updateCollaboratorOn uuid now (as_db st) req = Inr (c, prev, db')"
    "applyCollaboratorStatusSessionPolicyTx D now prev c (st\<lparr>as_db := db'\<rparr>) = Inr st'"
  using assms unfolding UpdateCollaboratorTx_def by (auto simp: map_sum_Inr split: sum.splits prod.splits)


lemma createAuthSession_holders:
  assumes "createAuthSession hash cap now sid token cid metadata ttl st = (r, st')" "people_ok uuid (as_db st)" "holders_ok uuid st"
  shows "holders_ok uuid st'"
proof -
  have e: "map se_collaborator (evict_sessions now cap cid (as_sessions st)) = map se_collaborator (as_sessions st)"
    by (simp add: evict_sessions_def revoke_where_def Let_def)
  have cid: "canonical_id uuid cid" if "list_ex (\<lambda>c. co_id c = cid) (db_people (as_db st))"
    using that assms(2) by (auto simp: people_ok_def list_ex_iff list_all_iff)
  show ?thesis using assms(1,3) cid e
    by (cases token) (auto simp: createAuthSession_def Let_def holders_ok_def new_session_def split: if_splits)
qed

lemma auth_step_effect:
  assumes "auth_step uuid hash cap st st'" "auth_ok uuid st"
  shows "step_effect uuid st st'"
proof -
  note oks = assms(2) [unfolded auth_ok_def, THEN conjunct1] assms(2) [unfolded auth_ok_def, THEN conjunct2, THEN conjunct1]
    assms(2) [unfolded auth_ok_def, THEN conjunct2, THEN conjunct2]
  note same = same_db_effect [OF assms(2)] and kept = revoke_where_kept [OF oks(2)]
  show ?thesis using assms(1)
  proof (cases rule: auth_step.cases)
    case (Create now sid token cid metadata ttl r)
    obtain new where c: "as_sessions st' = evict_sessions now cap cid (as_sessions st) @ new" "as_db st' = as_db st" "sessions_ok st'"
      using createAuthSession_sessions [OF Create oks(2)] by (elim exE conjE) (rule that)
    have "list_all2 session_kept (as_sessions st) (evict_sessions now cap cid (as_sessions st))"
      unfolding evict_sessions_def Let_def by (rule kept)
    then show ?thesis using c oks(1) createAuthSession_holders [OF Create oks(1,3)] by (intro same_statuses_effect [OF assms(2) _ _ c(1)]) simp_all
  next
    case (Resolve now token r)
    have "as_db st' = as_db st" using arg_cong [OF Resolve, of "\<lambda>x. as_db (snd x)"]
      by (auto simp: ResolveAuthSession_def Let_def update_session_def split: if_splits sum.splits)
    then show ?thesis using Resolve_kept [OF oks(2), of uuid hash now token] by (intro same) (simp_all add: Resolve)
  next
    case (Logout now token r)
    have "as_db st' = as_db st \<and> (st' = st \<or> (\<exists>P. as_sessions st' = revoke_where now P (as_sessions st)))"
      using Logout by (auto simp: RevokeAuthSession_def split: sum.splits)
    then show ?thesis using kept kept_self [OF oks(2)] by (intro same) auto
  next
    case (RevokeOne now sid cid r)
    have "as_db st' = as_db st \<and> (st' = st \<or> (\<exists>P. as_sessions st' = revoke_where now P (as_sessions st)))"
      using RevokeOne by (auto simp: RevokeSessionByIDForCollaborator_def Let_def split: option.splits)
    then show ?thesis using kept kept_self [OF oks(2)] by (intro same) auto
  next
    case (RevokeOthers now cid keep)
    then show ?thesis using kept by (intro same) (simp_all add: RevokeAllOtherSessions_def)
  next
    case (Terminate D now collab reason metadata row)
    then show ?thesis using kept Terminate_Inr [OF Terminate] by (intro same) simp_all
  next
    case (Update D now req c)
    then obtain prev db' where u: "updateCollaboratorOn uuid now (as_db st) req = Inr (c, prev, db')"
      "applyCollaboratorStatusSessionPolicyTx D now prev c (st\<lparr>as_db := db'\<rparr>) = Inr st'" by (rule Update_Inr)
    note p = policy_sessions [OF u(2)]
    show ?thesis by (rule updateOn_step [OF u(1) assms(2)]) (use p in \<open>simp_all add: swept_tables_def split: if_splits\<close>)
  next
    case (Offboard D now i c)
    then obtain prev db' where o: "updateCollaboratorOn uuid now (as_db st) (status_request i ''offboarded'') = Inr (c, prev, db')"
      "as_db st' = db'" "swept_tables st' = swept_tables (RevokeAllAuthSessions now (co_id c) st)" by (rule Offboard_Inr)
    show ?thesis using swept_sessions [OF o(3)] by (intro updateOn_step [OF o(1) assms(2) _ o(2)]) simp
  next
    case (Cleanup now n)
    have "list_all2 session_kept (as_sessions st)
        (map (\<lambda>s. if se_status s = ''active'' \<and> se_expires s < now then s\<lparr>se_status := ''expired'', se_updated := now\<rparr> else s) (as_sessions st))"
      by (rule map_evolves) (auto simp: session_kept_def session_row_ok_def dest: sessions_ok_row [OF oks(2)])
    then show ?thesis using Cleanup by (intro same) (auto simp: cleanupExpiredSessions_def Let_def)
  next
    case (StepUp now sid)
    have "list_all2 session_kept (as_sessions st) (as_sessions (Mark now sid st))"
      unfolding Mark_def by (rule update_session_kept [OF oks(2)]) (auto simp: session_kept_def session_row_ok_def dest: sessions_ok_row [OF oks(2)])
    then show ?thesis using StepUp by (intro same) (simp_all add: Mark_def update_session_def)
  next
    case Elsewhere
    have "sessions_ok st'" using oks(2) Elsewhere(1) by (simp add: sessions_ok_def)
    moreover have "holders_ok uuid st'" using oks(3) Elsewhere(1) by (simp add: holders_ok_def)
    ultimately show ?thesis using kept_self [OF oks(2)] Elsewhere
      by (intro same_statuses_effect [OF assms(2), where old = "as_sessions st" and new = "[]"]) simp_all
  qed
qed


lemma unique_token:
  "sessions_ok st \<Longrightarrow> x \<in> set (as_sessions st) \<Longrightarrow> y \<in> set (as_sessions st) \<Longrightarrow> se_token x = se_token y \<Longrightarrow> x = y"
  by (auto simp: sessions_ok_def distinct_map dest: inj_onD)

lemma effect_row:
  assumes "step_effect uuid st st'" "s \<in> set (as_sessions st)"
  shows "\<exists>s'\<in>set (as_sessions st'). session_kept s s'"
proof -
  obtain old new where "as_sessions st' = old @ new" "list_all2 session_kept (as_sessions st) old"
    using assms(1) unfolding step_effect_def by blast
  then show ?thesis using kept_member [OF _ assms(2)] by fastforce
qed

lemma key_row:
  assumes "has_key st h cid"
  obtains s where "s \<in> set (as_sessions st)" "se_token s = h" "se_collaborator s = cid"
  using assms by (auto simp: has_key_def list_ex_iff)

lemma live_row:
  assumes "sessions_ok st" "s \<in> set (as_sessions st)"
  shows "live_key st (se_token s) \<longleftrightarrow> se_status s = ''active''"
  using unique_token [OF assms(1) _ assms(2)] assms(2) by (auto simp: live_key_def list_ex_iff)

interpretation console: session_gate "auth_step uuid hash cap" "auth_ok uuid" has_key live_key holder_may
proof unfold_locales
  fix st st' k u
  assume ok: "auth_ok uuid st" and "auth_step uuid hash cap st st'"
  then have e: "step_effect uuid st st'" by (rule auth_step_effect [rotated])
  show ok': "auth_ok uuid st'" using e by (simp add: step_effect_def)
  note oks = ok [unfolded auth_ok_def, THEN conjunct2, THEN conjunct1] ok' [unfolded auth_ok_def, THEN conjunct2, THEN conjunct1]
  assume "has_key st k u"
  then obtain s where s: "s \<in> set (as_sessions st)" "se_token s = k" "se_collaborator s = u" by (rule key_row)
  obtain s' where s': "s' \<in> set (as_sessions st')" "session_kept s s'" using effect_row [OF e s(1)] by blast
  have k: "se_token s' = k" "se_collaborator s' = u" using s' s by (simp_all add: session_kept_def)
  note live = live_row [OF oks(1) s(1), unfolded s(2)] live_row [OF oks(2) s'(1), unfolded k(1)]
  show "has_key st' k u" using s'(1) k by (auto simp: has_key_def list_ex_iff)
  show "\<not> live_key st k \<Longrightarrow> \<not> live_key st' k" using live s'(2) by (simp add: session_kept_def)
  assume "\<not> holder_may st u" "holder_may st' u"
  then have "se_status s' \<noteq> ''active''" using e s'(1) k(2) unfolding step_effect_def by blast
  then show "\<not> live_key st' k" using live by simp
qed

section \<open>Properties\<close>

lemma normal_statuses: "ToLower (TrimSpace ''revoked'') = ''revoked''" "ToLower (TrimSpace ''expired'') = ''expired''"
  by code_simp+

lemma Resolve_Inr:
  assumes "ResolveAuthSession uuid hash now raw st = (Inr (s, c), st')" "auth_ok uuid st"
  shows "live_key st (hash (TrimSpace raw)) \<and> has_key st (hash (TrimSpace raw)) (co_id c) \<and> holder_may st (co_id c) \<and> now \<le> se_expires s"
proof -
  obtain x where x: "find (\<lambda>s. se_token s = hash (TrimSpace raw)) (as_sessions st) = Some x"
    "ToLower (TrimSpace (se_status x)) = ''active''" "\<not> se_expires x < now" "se_expires s = se_expires x"
    "getCollaboratorOn uuid (as_db st) (se_collaborator x) = Inr c" "CanSignIn (co_status c)"
    using assms(1) unfolding ResolveAuthSession_def getAuthSessionByTokenHash_def Let_def update_session_def
    by (auto split: if_splits option.splits sum.splits)
  note t = find_token [OF x(1)]
  have oks: "sessions_ok st" "people_ok uuid (as_db st)" using assms(2) by (simp_all add: auth_ok_def)
  have "session_row_ok x" using sessions_ok_row [OF oks(1)] t by blast
  then have act: "se_status x = ''active''" using x(2) by (auto simp: session_row_ok_def normal_statuses)
  note g = getCollaboratorOn_Inr [OF x(5)]
  have "canonical_id uuid (se_collaborator x)" using t assms(2) by (auto simp: auth_ok_def holders_ok_def list_all_iff)
  then have h: "co_id c = se_collaborator x" using g by (simp add: identity_matches_def canonical_id_def)
  have "find (\<lambda>d. co_id d = co_id c) (db_people (as_db st)) = Some c"
    using find_distinct [of "db_people (as_db st)" c] g oks(2) by (simp add: people_ok_def)
  then have "holder_may st (co_id c)" using x(6) by (simp add: holder_may_def status_of_def)
  moreover have "live_key st (hash (TrimSpace raw))" using live_row [OF oks(1), of x] t act by simp
  moreover have "has_key st (hash (TrimSpace raw)) (co_id c)" using t h by (auto simp: has_key_def list_ex_iff)
  ultimately show ?thesis using x(3,4) by simp
qed


text \<open>C8: A session that existed while its holder could not sign in is never accepted again: whatever sequence of logins, look-ups, revocations, status changes, offboardings and clean-ups follows, and whether or not the holder is active again, resolving its token fails.\<close>
theorem stale_session_never_resolves:
  assumes "auth_ok uuid st" "has_key st (hash (TrimSpace token)) cid" "\<not> holder_may st cid" "(auth_step uuid hash cap)\<^sup>*\<^sup>* st st'"
  shows "\<exists>e. fst (ResolveAuthSession uuid hash now token st') = Inl e"
proof (rule ccontr)
  assume "\<not> ?thesis"
  then obtain s c st2 where r: "ResolveAuthSession uuid hash now token st' = (Inr (s, c), st2)"
    by (metis prod.collapse sum.exhaust surj_pair)
  have b: "auth_ok uuid st'" "has_key st' (hash (TrimSpace token)) cid" "\<not> (live_key st' (hash (TrimSpace token)) \<and> holder_may st' cid)"
    using console.barred_run [OF assms(4,1,2,3)] by auto
  note R = Resolve_Inr [OF r b(1)]
  have ok: "sessions_ok st'" using b(1) by (simp add: auth_ok_def)
  have "co_id c = cid"
    using key_row [OF b(2)] key_row [OF R [THEN conjunct2, THEN conjunct1]] unique_token [OF ok] by metis
  then show False using R b(3) by blast
qed

text \<open>Nothing of a collaborator is left to use: no active session, no unrevoked refresh token, no request or code that is both unconsumed and unexpired.\<close>

definition swept :: "time \<Rightarrow> string \<Rightarrow> auth_state \<Rightarrow> bool" where
  "swept now cid st \<longleftrightarrow>
     list_all (\<lambda>s. se_collaborator s = cid \<longrightarrow> se_status s \<noteq> ''active'') (as_sessions st) \<and>
     list_all (\<lambda>t. rt_collaborator t = cid \<longrightarrow> rt_revoked t \<noteq> None) (as_refresh st) \<and>
     list_all (\<lambda>r. oar_collaborator r = Some cid \<longrightarrow> oar_consumed r \<noteq> None \<or> oar_expires r \<le> now) (as_requests st) \<and>
     list_all (\<lambda>c. list_ex (\<lambda>r. oar_id r = oac_request c \<and> oar_collaborator r = Some cid) (as_requests st) \<longrightarrow>
                 oac_consumed c \<noteq> None \<or> oac_expires c \<le> now) (as_codes st)"

lemma list_ex_map_same: "(\<And>x. P (f x) = P x) \<Longrightarrow> list_ex P (map f xs) = list_ex P xs"
  by (induction xs) simp_all

lemma list_all_map_all: "(\<And>x. P (f x)) \<Longrightarrow> list_all P (map f xs)"
  by (induction xs) simp_all

lemma RevokeAll_swept:
  assumes "sessions_ok st"
  shows "swept now cid (RevokeAllAuthSessions now cid st)"
proof -
  let ?st = "RevokeAllAuthSessions now cid st"
  have "list_all (\<lambda>s. se_collaborator s = cid \<longrightarrow> se_status s \<noteq> ''active'') (as_sessions ?st)"
    using sweep_dead [OF assms] by (auto simp: list_all_iff)
  moreover have "list_ex (\<lambda>r. oar_id r = i \<and> oar_collaborator r = Some cid) (as_requests ?st) =
      list_ex (\<lambda>r. oar_id r = i \<and> oar_collaborator r = Some cid) (as_requests st)" for i
    unfolding RevokeAllAuthSessions_def by (simp add: list_ex_map_same)
  moreover have "list_all (\<lambda>t. rt_collaborator t = cid \<longrightarrow> rt_revoked t \<noteq> None) (as_refresh ?st)"
    unfolding RevokeAll_tables by (rule list_all_map_all) simp
  moreover have "list_all (\<lambda>r. oar_collaborator r = Some cid \<longrightarrow> oar_consumed r \<noteq> None \<or> oar_expires r \<le> now) (as_requests ?st)"
    unfolding RevokeAll_tables by (rule list_all_map_all) auto
  moreover have "list_all (\<lambda>c. list_ex (\<lambda>r. oar_id r = oac_request c \<and> oar_collaborator r = Some cid) (as_requests st) \<longrightarrow>
      oac_consumed c \<noteq> None \<or> oac_expires c \<le> now) (as_codes ?st)"
    unfolding RevokeAll_tables by (rule list_all_map_all) auto
  ultimately show ?thesis unfolding swept_def by simp
qed

text \<open>C20: A change of status that commits follows the state machine and applies the session policy of its target. The same status changes no session. Any other status leaves the collaborator without an active session, an unrevoked refresh token or a live authorization request or code; unless the new status is \<open>active\<close>, one revocation of all the collaborator's sessions is recorded and the event of the termination emitted.\<close>
theorem status_change_policy:
  assumes "UpdateCollaboratorTx uuid D now req st = Inr (c, st')" "auth_ok uuid st"
  shows "\<exists>prev. status_of (as_db st) (co_id c) = Some prev \<and> status_of (as_db st') (co_id c) = Some (co_status c) \<and>
    ValidateTransition prev (co_status c) = None \<and>
    (if prev = co_status c then as_sessions st' = as_sessions st \<and> as_revocations st' = as_revocations st \<and> as_events st' = as_events st
     else swept now (co_id c) st' \<and>
       (if co_status c = ''active'' then as_revocations st' = as_revocations st \<and> as_events st' = as_events st
        else \<exists>row i. as_revocations st' = as_revocations st @ [row] \<and> sr_collaborator row = co_id c \<and> sr_jti row = None \<and> sr_revoked row = now \<and>
          sr_reason row = (if co_status c = ''offboarded'' then ''offboarded'' else ''admin_revoked'') \<and>
          EmitEvent (te_emit D) (te_view D) (terminated_event D now c (sr_reason row)) (as_events st) = Inr (i, as_events st')))"
proof -
  obtain prev db' where u: "updateCollaboratorOn uuid now (as_db st) req = Inr (c, prev, db')"
    "applyCollaboratorStatusSessionPolicyTx D now prev c (st\<lparr>as_db := db'\<rparr>) = Inr st'" using assms(1) by (rule Update_Inr)
  have oks: "people_ok uuid (as_db st)" "sessions_ok st" using assms(2) by (simp_all add: auth_ok_def)
  note S = updateCollaboratorOn_statuses [OF u(1) oks(1)]
  have db: "as_db st' = db'" using policy_sessions [OF u(2)] by simp
  have known: "IsKnown (co_status c)" using ValidateTransition_known [OF S(5)] S(5) by (simp add: ValidateTransition_None)
  have ok1: "sessions_ok (st\<lparr>as_db := db'\<rparr>)" using oks(2) by (simp add: sessions_ok_def)
  note sw = RevokeAll_swept [OF ok1, of now "co_id c"]
  show ?thesis using u(2)
  proof (cases rule: policy_cases)
    case same
    then show ?thesis using S(2,3,5) db by (intro exI [of _ prev]) simp
  next
    case reactivated
    then have "co_status c = ''active''" using CanSignIn_known [OF known] by simp
    then show ?thesis using reactivated S(2,3,5) db sw by (intro exI [of _ prev]) simp
  next
    case (terminated row reason)
    have a: "co_status c \<noteq> ''active''" using terminated(2) CanSignIn_known [OF known] by auto
    have low: "ToLower (TrimSpace (co_status c)) = ''offboarded'' \<longleftrightarrow> co_status c = ''offboarded''"
      using known unfolding known_trimmed [OF known] by (auto simp: IsKnown_iff AllStatuses_def ToLower_def lower_char_def)
    have r: "reason = (if co_status c = ''offboarded'' then ''offboarded'' else ''admin_revoked'')" "TrimSpace reason = reason"
      unfolding terminated(3) low by (simp_all add: TrimSpace_def TrimLeft_def is_space_def)
    note T = Terminate_Inr [OF terminated(4)]
    have "swept now (co_id c) st'" using sw T unfolding swept_def by simp
    moreover obtain i where "EmitEvent (te_emit D) (te_view D) (terminated_event D now c reason) (as_events st) = Inr (i, as_events st')"
      using T by auto
    moreover have "as_revocations st' = as_revocations st @ [row]" "sr_collaborator row = co_id c" "sr_jti row = None" "sr_revoked row = now"
      "sr_reason row = reason" using T r(2) by simp_all
    ultimately show ?thesis using S(2,3,5) db terminated(1) a r(1) by (intro exI [of _ prev]) simp
  qed
qed


lemma auth_step_status:
  assumes "auth_step uuid hash cap st st'" "auth_ok uuid st"
  shows "status_of (as_db st') i = status_of (as_db st) i \<or>
    (\<exists>prev new. status_of (as_db st) i = Some prev \<and> status_of (as_db st') i = Some new \<and> ValidateTransition prev new = None)"
proof -
  have people: "people_ok uuid (as_db st)" using assms(2) by (simp add: auth_ok_def)
  have upd: ?thesis if "updateCollaboratorOn uuid now (as_db st) req = Inr (c, prev, as_db st')" for now req c prev
    using updateCollaboratorOn_statuses [OF that people] by (cases "i = co_id c") auto
  have same: ?thesis if "as_db st' = as_db st" using that by simp
  show ?thesis using assms(1)
  proof (cases rule: auth_step.cases)
    case (Create now sid token cid metadata ttl r)
    then show ?thesis using createAuthSession_sessions [OF Create] assms(2) same by (auto simp: auth_ok_def)
  next
    case (Resolve now token r)
    have "as_db st' = as_db st" using arg_cong [OF Resolve, of "\<lambda>x. as_db (snd x)"]
      by (auto simp: ResolveAuthSession_def Let_def update_session_def split: if_splits sum.splits)
    then show ?thesis by (rule same)
  next
    case (Logout now token r)
    then show ?thesis using same by (auto simp: RevokeAuthSession_def split: sum.splits)
  next
    case (RevokeOne now sid cid r)
    then show ?thesis using same by (auto simp: RevokeSessionByIDForCollaborator_def Let_def split: option.splits)
  next
    case (RevokeOthers now cid keep)
    then show ?thesis by (simp add: RevokeAllOtherSessions_def)
  next
    case (Terminate D now collab reason metadata row)
    then show ?thesis using Terminate_Inr [OF Terminate] same by blast
  next
    case (Update D now req c)
    then obtain prev db' where u: "updateCollaboratorOn uuid now (as_db st) req = Inr (c, prev, db')"
      "applyCollaboratorStatusSessionPolicyTx D now prev c (st\<lparr>as_db := db'\<rparr>) = Inr st'" by (rule Update_Inr)
    then show ?thesis using upd policy_sessions [OF u(2)] by simp
  next
    case (Offboard D now i c)
    then show ?thesis using upd by (metis Offboard_Inr)
  next
    case (Cleanup now n)
    then show ?thesis by (auto simp: cleanupExpiredSessions_def Let_def)
  next
    case (StepUp now sid)
    then show ?thesis by (simp add: Mark_def update_session_def)
  next
    case Elsewhere
    then show ?thesis by simp
  qed
qed

lemma auth_run_ok: "auth_run uuid hash cap (st # hist) \<Longrightarrow> auth_ok uuid (last (st # hist)) \<Longrightarrow> auth_ok uuid st"
proof (induction hist arbitrary: st)
  case Nil then show ?case by simp
next
  case (Cons x hist)
  from Cons.prems(1) have "auth_run uuid hash cap (x # hist)" "auth_step uuid hash cap x st" by (auto elim: auth_run_Cons)
  then show ?case using Cons auth_step_effect by (auto simp: step_effect_def)
qed

lemma offboarded_next: "ValidateTransition ''offboarded'' t = None \<Longrightarrow> t = ''offboarded'' \<or> t = ''pending_start''"
  by (auto simp: ValidateTransition_None allowedTransitions_def)

lemma offboarded_run:
  assumes "auth_run uuid hash cap (st # hist)" "auth_ok uuid (last (st # hist))" "status_of (as_db (last (st # hist))) cid = Some ''offboarded''"
  shows "status_of (as_db st) cid = Some ''offboarded'' \<or> (\<exists>mid\<in>set (st # hist). status_of (as_db mid) cid = Some ''pending_start'')"
  using assms
proof (induction hist arbitrary: st)
  case Nil then show ?case by simp
next
  case (Cons x hist)
  from Cons.prems(1) have r: "auth_run uuid hash cap (x # hist)" "auth_step uuid hash cap x st" by (auto elim: auth_run_Cons)
  have ok: "auth_ok uuid x" using auth_run_ok [OF r(1)] Cons.prems(2) by simp
  show ?case using Cons.IH [OF r(1)] Cons.prems(2,3) auth_step_status [OF r(2) ok, of cid] by (auto dest: offboarded_next)
qed

text \<open>A collaborator who was offboarded is active again only after re-onboarding: in any history that starts offboarded and ends in another status than \<open>offboarded\<close> or \<open>pending_start\<close>, the collaborator was in \<open>pending_start\<close> in between.\<close>
theorem offboarded_returns_through_onboarding:
  assumes "auth_run uuid hash cap (st # hist)" "auth_ok uuid (last (st # hist))"
    "status_of (as_db (last (st # hist))) cid = Some ''offboarded''" "status_of (as_db st) cid = Some status"
    "status \<noteq> ''offboarded''" "status \<noteq> ''pending_start''"
  shows "\<exists>mid\<in>set hist. status_of (as_db mid) cid = Some ''pending_start''"
  using offboarded_run [OF assms(1-3)] assms(4-6) by auto


section \<open>Examples\<close>

definition ex_term :: term_env where
  "ex_term = \<lparr>te_revocation = ''r'', te_emit = ex_emit_env ''e'', te_view = \<lparr>rv_instances = [], rv_types = []\<rparr>, te_rfc3339 = (\<lambda>_. ''t'')\<rparr>"

definition ex_on :: auth_state where
  "ex_on = ex_auth [ex_holder ''c'' ''active'' []] [ex_open ''a'' ''c'' 1]"

definition ex_write :: "string \<Rightarrow> auth_state \<Rightarrow> auth_state" where
  "ex_write status st =
     (case UpdateCollaboratorTx Some ex_term 20 (status_request ''c'' status) st of Inl _ \<Rightarrow> st | Inr (_, st') \<Rightarrow> st')"

definition ex_suspended :: auth_state where
  "ex_suspended = ex_write ''suspended'' ex_on"

text \<open>A login that was already past its checks opens a session for a collaborator who has just been suspended.\<close>

definition ex_raced :: auth_state where
  "ex_raced = snd (createAuthSession id 5 21 ''z'' (Some ''z'') ''c'' [] 50 ex_suspended)"

definition ex_returned :: auth_state where
  "ex_returned = ex_write ''active'' ex_raced"

lemma ex_on_ok: "auth_ok Some ex_on"
  by code_simp

lemma ex_raced_ok: "auth_ok Some ex_raced"
  by code_simp

lemma ex_writes:
  "UpdateCollaboratorTx Some ex_term 20 (status_request ''c'' ''suspended'') ex_on =
     Inr ((ex_holder ''c'' ''suspended'' [])\<lparr>co_version := 2, co_updated := 20\<rparr>, ex_suspended)"
  "UpdateCollaboratorTx Some ex_term 20 (status_request ''c'' ''active'') ex_raced =
     Inr ((ex_holder ''c'' ''active'' [])\<lparr>co_version := 3, co_updated := 20\<rparr>, ex_returned)"
  by code_simp+

theorem stale_session_never_resolves_witness:
  "holder_may ex_returned ''c'' \<and> (\<exists>e. fst (ResolveAuthSession Some id 30 ''z'' ex_returned) = Inl e)"
proof -
  have "auth_step Some id 5 ex_raced ex_returned" using ex_writes(2) by (rule auth_step.Update)
  then have run: "(auth_step Some id 5)\<^sup>*\<^sup>* ex_raced ex_returned" by (rule r_into_rtranclp)
  moreover  have "has_key ex_raced (id (TrimSpace ''z'')) ''c''" "\<not> holder_may ex_raced ''c''" "holder_may ex_returned ''c''" by code_simp+
  ultimately show ?thesis using stale_session_never_resolves [OF ex_raced_ok _ _ run, of "''z''" "''c''" 30] by blast
qed

theorem status_change_policy_witness:
  "swept 20 ''c'' ex_suspended \<and> map sr_reason (as_revocations ex_suspended) = [''admin_revoked'']"
proof -
  have "status_of (as_db ex_on) ''c'' = Some ''active''" by code_simp
  then show ?thesis using status_change_policy [OF ex_writes(1) ex_on_ok] by (auto simp: ex_holder_def ex_on_def ex_auth_def)
qed


definition ex_left :: auth_state where
  "ex_left = ex_auth [ex_holder ''c'' ''offboarded'' []] []"

definition ex_rehired :: auth_state where
  "ex_rehired = ex_write ''pending_start'' ex_left"

definition ex_back :: auth_state where
  "ex_back = ex_write ''active'' ex_rehired"

lemma ex_rehire_writes:
  "UpdateCollaboratorTx Some ex_term 20 (status_request ''c'' ''pending_start'') ex_left =
     Inr ((ex_holder ''c'' ''pending_start'' [])\<lparr>co_version := 2, co_updated := 20\<rparr>, ex_rehired)"
  "UpdateCollaboratorTx Some ex_term 20 (status_request ''c'' ''active'') ex_rehired =
     Inr ((ex_holder ''c'' ''active'' [])\<lparr>co_version := 3, co_updated := 20\<rparr>, ex_back)"
  by code_simp+

lemma ex_rehire_run: "auth_run Some id 5 [ex_back, ex_rehired, ex_left]"
  using ex_rehire_writes by (auto intro!: auth_run.intros auth_step.Update)

lemma ex_rehire_facts:
  "auth_ok Some ex_left" "status_of (as_db ex_left) ''c'' = Some ''offboarded''" "status_of (as_db ex_back) ''c'' = Some ''active''"
  by code_simp+

theorem offboarded_returns_through_onboarding_witness:
  "status_of (as_db ex_rehired) ''c'' = Some ''pending_start'' \<or> status_of (as_db ex_left) ''c'' = Some ''pending_start''"
  using offboarded_returns_through_onboarding [OF ex_rehire_run, of "''c''" "''active''"] ex_rehire_facts by simp

end
