(* ===== verification/Status_Clock.thy ===== *)
theory Status_Clock
  imports Session_Policy
begin

text \<open>
  The daily clock of \<open>addons/collaborator_status_clock.go\<close>: one tick promotes the collaborators whose start date has
  come and offboards those whose end date has passed, each in a transaction of its own with the session policy of the
  status change, and appends a lifecycle row. The date of the day, the rendering of JSON and what each offboarding
  draws are arguments; dates compare as text. The back-channel logout that an offboarding fires is a message and is left out.
\<close>

section \<open>The daily clock\<close>















section \<open>One flip\<close>

















section \<open>The tick\<close>














section \<open>Properties\<close>



section \<open>Example\<close>







end
