(* ===== verification/Login_Lockout.thy ===== *)
theory Login_Lockout
  imports Sessions
begin

text \<open>
  Login with a password (\<open>repository/auth.go\<close>): the status and lockout checks before the hash is compared, the
  failure counter, the second-factor requirement of \<open>internal/auth/mfa/enforcer.go\<close> and the session it opens. The
  comparison of a password with a stored hash, the parser of UUIDs and the hash of a token are arguments. Queries
  do not fail, so that the best-effort writes of the counter are made.
\<close>

section \<open>Settings\<close>

definition lock_minute :: int where
  "lock_minute = 60 * Second"

definition positive_setting :: "int \<Rightarrow> string \<Rightarrow> int" where
  "positive_setting d raw =
     (let v = TrimSpace raw in
      if v = [] then d else case Atoi v of None \<Rightarrow> d | Some n \<Rightarrow> if 0 < n then n else d)"

definition loginFailureThresholdFromEnv :: "string \<Rightarrow> int" where
  "loginFailureThresholdFromEnv = positive_setting 10"

text \<open>The product is a \<open>time.Duration\<close> and wraps at 64 bits.\<close>

definition loginLockDurationFromEnv :: "string \<Rightarrow> int" where
  "loginLockDurationFromEnv raw = sint (word_of_int (positive_setting 5 raw * lock_minute) :: 64 word)"

record login_env =
  lv_uuid :: "string \<Rightarrow> string option"
  lv_hash :: "string \<Rightarrow> string"
  lv_verify :: "string \<Rightarrow> string \<Rightarrow> string \<Rightarrow> bool"
  lv_threshold :: int
  lv_lock :: int
  lv_cap :: int


section \<open>Look-up\<close>




definition update_ident :: "string \<Rightarrow> (AuthIdentity \<Rightarrow> AuthIdentity) \<Rightarrow> auth_state \<Rightarrow> auth_state" where
  "update_ident cid f st = st\<lparr>as_idents := map (\<lambda>a. if ai_collaborator a = cid then f a else a) (as_idents st)\<rparr>"

section \<open>Lockout\<close>



definition failed_ident :: "login_env \<Rightarrow> time \<Rightarrow> AuthIdentity \<Rightarrow> AuthIdentity" where
  "failed_ident L now a =
     a\<lparr>ai_failed := ai_failed a + 1,
       ai_locked := (if lv_threshold L \<le> ai_failed a + 1 then Some (now + lv_lock L) else ai_locked a)\<rparr>"



section \<open>Login\<close>





definition MarkMFAEnrolled :: "time \<Rightarrow> string \<Rightarrow> auth_state \<Rightarrow> auth_state" where
  "MarkMFAEnrolled now cid = update_ident cid (\<lambda>a. if ai_mfa_enrolled a = None then a\<lparr>ai_mfa_enrolled := Some now\<rparr> else a)"


section \<open>Guessing\<close>











section \<open>What an attempt does\<close>




lemma update_ident_db [simp]: "as_db (update_ident cid f st) = as_db st" "as_sessions (update_ident cid f st) = as_sessions st"
  by (simp_all add: update_ident_def)

lemma failed_ident_fields [simp]:
  "ai_collaborator (failed_ident L now a) = ai_collaborator a" "ai_hash (failed_ident L now a) = ai_hash a"
  "ai_scheme (failed_ident L now a) = ai_scheme a" "ai_failed (failed_ident L now a) = ai_failed a + 1"
  "ai_locked (failed_ident L now a) = (if lv_threshold L \<le> ai_failed a + 1 then Some (now + lv_lock L) else ai_locked a)"
  by (simp_all add: failed_ident_def)










section \<open>Properties\<close>




section \<open>Examples\<close>










end
