(* ===== verification/Oidc_Grants.thy ===== *)
theory Oidc_Grants
  imports Session_Policy
begin

text \<open>
  The grants of the OpenID provider: authorization requests, single-use codes and rotating refresh tokens
  (\<open>repository/oidc_auth.go\<close>, \<open>repository/oidc_session_links.go\<close>) and the storage operations that the provider
  library calls (\<open>controllers/oidc/storage.go\<close>). The parser of UUIDs, the hash of a token, the base64 decoder and
  what is drawn at random are arguments; the registered clients are a table that these operations only read. The
  audit row of a detected replay is left out.
\<close>

section \<open>Types\<close>

record OIDCClient =
  oc_id :: string
  oc_secret_hash :: string
  oc_redirects :: "string list"
  oc_scopes :: "string list"
  oc_pkce :: bool

record oidc_env =
  ov_uuid :: "string \<Rightarrow> string option"
  ov_hash :: "string \<Rightarrow> string"
  ov_clients :: "OIDCClient list"
  ov_b64_length :: "string \<Rightarrow> nat option" \<comment> \<open>the number of bytes that raw URL base64 decodes to\<close>

datatype oidc_error =
    InvalidRequestID
  | AuthRequestNotFound
  | AuthCodeNotFound
  | AuthCodeAlreadyUsed
  | ProfileRequired
  | SubjectRefused auth_error
  | OIDCClientNotFound
  | RedirectURINotRegistered
  | ChallengeRequired
  | ChallengeMethodRefused
  | ChallengeInvalid
  | RowRefused
  | BindRefused
  | EntropyFailed
  | SubjectNotUUID
  | AlreadyRevokedOrMissing
  | ReplayDetected
  | InvalidRefreshToken
  | NotIssuedForClient

definition AccessTokenLifetime :: int where
  "AccessTokenLifetime = 15 * 60 * Second"

definition AuthorizationCodeLifetime :: int where
  "AuthorizationCodeLifetime = 10 * 60 * Second"

definition RefreshTokenLifetime :: int where
  "RefreshTokenLifetime = 30 * 24 * 60 * 60 * Second"

definition subject_exists :: "string \<Rightarrow> auth_state \<Rightarrow> bool" where
  "subject_exists cid st \<longleftrightarrow> list_ex (\<lambda>c. co_id c = cid) (db_people (as_db st))"

definition GetOIDCClientByID :: "oidc_env \<Rightarrow> string \<Rightarrow> oidc_error + OIDCClient" where
  "GetOIDCClientByID V cid =
     (case find (\<lambda>c. oc_id c = cid) (ov_clients V) of None \<Rightarrow> Inl OIDCClientNotFound | Some c \<Rightarrow> Inr c)"

section \<open>Authorization requests\<close>

definition CreateOIDCAuthRequest :: "oidc_env \<Rightarrow> time \<Rightarrow> string \<Rightarrow> OIDCAuthRequest \<Rightarrow> auth_state \<Rightarrow> oidc_error + auth_state" where
  "CreateOIDCAuthRequest V now rid ar st =
     (if \<not> list_ex (\<lambda>c. oc_id c = oar_client ar) (ov_clients V) \<or>
         (case oar_collaborator ar of None \<Rightarrow> False | Some cid \<Rightarrow> \<not> subject_exists cid st) \<or>
         list_ex (\<lambda>r. oar_id r = rid) (as_requests st) then Inl RowRefused
      else Inr (st\<lparr>as_requests := as_requests st @ [ar\<lparr>oar_id := rid, oar_consumed := None, oar_created := now\<rparr>]\<rparr>))"

definition GetOIDCAuthRequestByID :: "auth_state \<Rightarrow> string \<Rightarrow> oidc_error + OIDCAuthRequest" where
  "GetOIDCAuthRequestByID st rid =
     (case find (\<lambda>r. oar_id r = rid) (as_requests st) of None \<Rightarrow> Inl AuthRequestNotFound | Some r \<Rightarrow> Inr r)"

text \<open>The join of a code with its request, where both are unconsumed and the code is unexpired.\<close>

definition GetOIDCAuthRequestByCode :: "time \<Rightarrow> auth_state \<Rightarrow> string \<Rightarrow> oidc_error + OIDCAuthRequest" where
  "GetOIDCAuthRequestByCode now st code =
     (case find (\<lambda>c. oac_code c = code \<and> oac_consumed c = None \<and> now < oac_expires c) (as_codes st) of
        None \<Rightarrow> Inl AuthCodeNotFound
      | Some c \<Rightarrow> (case find (\<lambda>r. oar_id r = oac_request c \<and> oar_consumed r = None) (as_requests st) of
                     None \<Rightarrow> Inl AuthCodeNotFound | Some r \<Rightarrow> Inr r))"

definition BindOIDCAuthRequestCollaborator :: "string \<Rightarrow> string \<Rightarrow> auth_state \<Rightarrow> oidc_error + auth_state" where
  "BindOIDCAuthRequestCollaborator rid cid st =
     (if \<not> subject_exists cid st \<or> \<not> list_ex (\<lambda>r. oar_id r = rid \<and> oar_consumed r = None) (as_requests st) then Inl BindRefused
      else Inr (st\<lparr>as_requests := map (\<lambda>r. if oar_id r = rid \<and> oar_consumed r = None then r\<lparr>oar_collaborator := Some cid\<rparr> else r) (as_requests st)\<rparr>))"

definition MarkOIDCAuthRequestConsumed :: "time \<Rightarrow> string \<Rightarrow> auth_state \<Rightarrow> auth_state" where
  "MarkOIDCAuthRequestConsumed now rid st =
     st\<lparr>as_requests := map (\<lambda>r. if oar_id r = rid \<and> oar_consumed r = None then r\<lparr>oar_consumed := Some now\<rparr> else r) (as_requests st)\<rparr>"

definition SaveOIDCAuthCode :: "time \<Rightarrow> string \<Rightarrow> string \<Rightarrow> time \<Rightarrow> auth_state \<Rightarrow> oidc_error + auth_state" where
  "SaveOIDCAuthCode now code rid expires st =
     (if list_ex (\<lambda>c. oac_code c = code) (as_codes st) \<or> \<not> list_ex (\<lambda>r. oar_id r = rid) (as_requests st) then Inl RowRefused
      else Inr (st\<lparr>as_codes := as_codes st @
        [\<lparr>oac_code = code, oac_request = rid, oac_expires = expires, oac_consumed = None, oac_created = now\<rparr>]\<rparr>))"

definition ConsumeOIDCAuthCode :: "time \<Rightarrow> string \<Rightarrow> auth_state \<Rightarrow> oidc_error + OIDCAuthCode \<times> auth_state" where
  "ConsumeOIDCAuthCode now code st =
     (case find (\<lambda>c. oac_code c = code) (as_codes st) of
        None \<Rightarrow> Inl AuthCodeNotFound
      | Some c \<Rightarrow> if oac_consumed c \<noteq> None then Inl AuthCodeAlreadyUsed
                  else Inr (c, st\<lparr>as_codes := map (\<lambda>x. if oac_code x = code then x\<lparr>oac_consumed := Some now\<rparr> else x) (as_codes st)\<rparr>))"

section \<open>Refresh tokens\<close>

definition refresh_row :: "oidc_env \<Rightarrow> time \<Rightarrow> string \<Rightarrow> string \<Rightarrow> string \<Rightarrow> string list \<Rightarrow> time \<Rightarrow> string option \<Rightarrow> OIDCRefreshToken" where
  "refresh_row V now token cid client scopes expires parent =
     \<lparr>rt_token = ov_hash V token, rt_collaborator = cid, rt_client = client, rt_scopes = scopes, rt_expires = expires,
      rt_from = parent, rt_revoked = None, rt_created = now\<rparr>"

text \<open>The keys of the table: the hash is new, the holder and the client exist, and a parent is a row.\<close>

definition refresh_insert :: "oidc_env \<Rightarrow> OIDCRefreshToken \<Rightarrow> auth_state \<Rightarrow> oidc_error + auth_state" where
  "refresh_insert V r st =
     (if list_ex (\<lambda>x. rt_token x = rt_token r) (as_refresh st) \<or> \<not> subject_exists (rt_collaborator r) st \<or>
         \<not> list_ex (\<lambda>c. oc_id c = rt_client r) (ov_clients V) \<or>
         (case rt_from r of None \<Rightarrow> False | Some p \<Rightarrow> \<not> list_ex (\<lambda>x. rt_token x = p) (as_refresh st)) then Inl RowRefused
      else Inr (st\<lparr>as_refresh := as_refresh st @ [r]\<rparr>))"

definition CreateOIDCRefreshToken ::
  "oidc_env \<Rightarrow> time \<Rightarrow> string \<Rightarrow> string \<Rightarrow> string \<Rightarrow> string list \<Rightarrow> time \<Rightarrow> string option \<Rightarrow> auth_state \<Rightarrow> oidc_error + auth_state" where
  "CreateOIDCRefreshToken V now token cid client scopes expires rotated_from st =
     refresh_insert V (refresh_row V now token cid client scopes expires (map_option (ov_hash V) rotated_from)) st"

definition GetOIDCRefreshToken :: "oidc_env \<Rightarrow> auth_state \<Rightarrow> string \<Rightarrow> OIDCRefreshToken option" where
  "GetOIDCRefreshToken V st token = find (\<lambda>r. rt_token r = ov_hash V token) (as_refresh st)"

definition revoke_refresh :: "time \<Rightarrow> (OIDCRefreshToken \<Rightarrow> bool) \<Rightarrow> OIDCRefreshToken list \<Rightarrow> OIDCRefreshToken list" where
  "revoke_refresh now P rs = map (\<lambda>r. if P r \<and> rt_revoked r = None then r\<lparr>rt_revoked := Some now\<rparr> else r) rs"

definition RotateOIDCRefreshToken ::
  "oidc_env \<Rightarrow> time \<Rightarrow> string \<Rightarrow> string \<Rightarrow> string \<Rightarrow> string \<Rightarrow> string list \<Rightarrow> time \<Rightarrow> auth_state \<Rightarrow> oidc_error + auth_state" where
  "RotateOIDCRefreshToken V now oldToken token cid client scopes expires st =
     (let oldHash = ov_hash V oldToken in
      if \<not> list_ex (\<lambda>r. rt_token r = oldHash \<and> rt_revoked r = None) (as_refresh st) then Inl AlreadyRevokedOrMissing
      else refresh_insert V (refresh_row V now token cid client scopes expires (Some oldHash))
             (st\<lparr>as_refresh := revoke_refresh now (\<lambda>r. rt_token r = oldHash) (as_refresh st)\<rparr>))"

text \<open>
  The recursive query: generation after generation, the rows whose parent is in the last one. On a table whose
  parents form a cycle it would not end, which is the value None.
\<close>

partial_function (option) chain_rows :: "OIDCRefreshToken list \<Rightarrow> string list \<Rightarrow> string list \<Rightarrow> string list option" where
  "chain_rows rs generation found =
     (if generation = [] then Some found
      else chain_rows rs (map rt_token (filter (\<lambda>r. case rt_from r of None \<Rightarrow> False | Some p \<Rightarrow> p \<in> set generation) rs)) (found @ generation))"

definition RevokeOIDCRefreshChainByRoot :: "oidc_env \<Rightarrow> time \<Rightarrow> string \<Rightarrow> auth_state \<Rightarrow> auth_state option" where
  "RevokeOIDCRefreshChainByRoot V now token st =
     map_option (\<lambda>chain. st\<lparr>as_refresh := revoke_refresh now (\<lambda>r. rt_token r \<in> set chain) (as_refresh st)\<rparr>)
       (chain_rows (as_refresh st) (map rt_token (filter (\<lambda>r. rt_token r = ov_hash V token) (as_refresh st))) [])"

section \<open>Session links\<close>

definition UpsertOIDCSessionLink :: "time \<Rightarrow> string \<Rightarrow> string \<Rightarrow> string \<Rightarrow> string \<Rightarrow> string option \<Rightarrow> auth_state \<Rightarrow> auth_state" where
  "UpsertOIDCSessionLink now lid sid cid client session st =
     (if cid = nil_uuid \<or> client = [] then st
      else case sort_key (\<lambda>l. - ol_created l)
                  (filter (\<lambda>l. ol_collaborator l = cid \<and> ol_client l = client \<and> ol_terminated l = None \<and> ol_session l = session) (as_links st)) of
        l # _ \<Rightarrow> st\<lparr>as_links := map (\<lambda>x. if ol_id x = ol_id l then x\<lparr>ol_seen := now\<rparr> else x) (as_links st)\<rparr>
      | [] \<Rightarrow> st\<lparr>as_links := as_links st @
          [\<lparr>ol_id = lid, ol_collaborator = cid, ol_client = client, ol_session = session, ol_sid = sid,
            ol_created = now, ol_seen = now, ol_terminated = None\<rparr>]\<rparr>)"

definition ListActiveOIDCSessionLinksForCollaborator :: "string \<Rightarrow> auth_state \<Rightarrow> OIDCSessionLink list" where
  "ListActiveOIDCSessionLinksForCollaborator cid st =
     (if cid = nil_uuid then [] else filter (\<lambda>l. ol_collaborator l = cid \<and> ol_terminated l = None) (as_links st))"

definition MarkOIDCSessionLinkTerminated :: "time \<Rightarrow> string \<Rightarrow> auth_state \<Rightarrow> auth_state" where
  "MarkOIDCSessionLinkTerminated now lid st =
     (if lid = nil_uuid then st
      else st\<lparr>as_links := map (\<lambda>l. if ol_id l = lid \<and> ol_terminated l = None then l\<lparr>ol_terminated := Some now\<rparr> else l) (as_links st)\<rparr>)"

section \<open>The storage of the provider\<close>

record authorize_request =
  az_client :: string
  az_redirect :: string
  az_scopes :: "string list"
  az_challenge :: string
  az_method :: string
  az_state :: string
  az_nonce :: string

definition validateRequiredPKCE :: "oidc_env \<Rightarrow> OIDCClient \<Rightarrow> authorize_request \<Rightarrow> oidc_error option" where
  "validateRequiredPKCE V client req =
     (if \<not> oc_pkce client then None
      else e_then (guard_err (TrimSpace (az_challenge req) = []) ChallengeRequired)
          (e_then (guard_err (az_method req \<noteq> ''S256'') ChallengeMethodRefused)
                  (guard_err (ov_b64_length V (az_challenge req) \<noteq> Some 32) ChallengeInvalid)))"

definition CreateAuthRequest :: "oidc_env \<Rightarrow> time \<Rightarrow> string \<Rightarrow> authorize_request \<Rightarrow> string \<Rightarrow> auth_state \<Rightarrow> oidc_error + string \<times> auth_state" where
  "CreateAuthRequest V now rid req userID st =
     (case GetOIDCClientByID V (az_client req) of
        Inl e \<Rightarrow> Inl e
      | Inr client \<Rightarrow>
          if az_redirect req \<notin> set (oc_redirects client) then Inl RedirectURINotRegistered
          else (case validateRequiredPKCE V client req of
            Some e \<Rightarrow> Inl e
          | None \<Rightarrow>
              map_sum id (Pair rid) (CreateOIDCAuthRequest V now rid
                \<lparr>oar_id = [], oar_client = az_client req, oar_collaborator = (if userID \<noteq> [] then ov_uuid V userID else None),
                 oar_redirect = az_redirect req, oar_scopes = az_scopes req, oar_challenge = az_challenge req, oar_method = az_method req,
                 oar_state = az_state req, oar_nonce = az_nonce req, oar_expires = now + AuthorizationCodeLifetime,
                 oar_consumed = None, oar_created = 0\<rparr> st)))"

definition requireOpenAuthRequest :: "OIDCAuthRequest \<Rightarrow> time \<Rightarrow> oidc_error option" where
  "requireOpenAuthRequest ar now = (if oar_consumed ar \<noteq> None \<or> \<not> now < oar_expires ar then Some AuthRequestNotFound else None)"

definition subject_refused :: "auth_state \<Rightarrow> string \<Rightarrow> oidc_error option" where
  "subject_refused st cid = map_option SubjectRefused (RequireIssuableSubject st cid)"

definition bound_subject_refused :: "auth_state \<Rightarrow> OIDCAuthRequest \<Rightarrow> oidc_error option" where
  "bound_subject_refused st ar = (case oar_collaborator ar of None \<Rightarrow> None | Some cid \<Rightarrow> subject_refused st cid)"

definition AuthRequestByID :: "oidc_env \<Rightarrow> time \<Rightarrow> string \<Rightarrow> auth_state \<Rightarrow> oidc_error + OIDCAuthRequest" where
  "AuthRequestByID V now i st =
     (case ov_uuid V i of
        None \<Rightarrow> Inl InvalidRequestID
      | Some parsed \<Rightarrow>
          (case GetOIDCAuthRequestByID st parsed of
             Inl e \<Rightarrow> Inl e
           | Inr ar \<Rightarrow> (case e_then (requireOpenAuthRequest ar now) (bound_subject_refused st ar) of Some e \<Rightarrow> Inl e | None \<Rightarrow> Inr ar)))"

definition AuthRequestByCode :: "time \<Rightarrow> string \<Rightarrow> auth_state \<Rightarrow> (oidc_error + OIDCAuthRequest) \<times> auth_state" where
  "AuthRequestByCode now code st =
     (case GetOIDCAuthRequestByCode now st code of
        Inl e \<Rightarrow> (Inl e, st)
      | Inr ar \<Rightarrow>
          (case bound_subject_refused st ar of
             Some e \<Rightarrow> (Inl e, st)
           | None \<Rightarrow> (case ConsumeOIDCAuthCode now code st of Inl e \<Rightarrow> (Inl e, st) | Inr (_, st1) \<Rightarrow> (Inr ar, st1))))"

definition SaveAuthCode :: "oidc_env \<Rightarrow> time \<Rightarrow> string \<Rightarrow> string \<Rightarrow> auth_state \<Rightarrow> oidc_error + auth_state" where
  "SaveAuthCode V now i code st =
     (case ov_uuid V i of
        None \<Rightarrow> Inl InvalidRequestID
      | Some parsed \<Rightarrow>
          (case GetOIDCAuthRequestByID st parsed of
             Inl e \<Rightarrow> Inl e
           | Inr ar \<Rightarrow>
               (case requireOpenAuthRequest ar now of
                  Some e \<Rightarrow> Inl e
                | None \<Rightarrow>
                    (case oar_collaborator ar of
                       None \<Rightarrow> Inl ProfileRequired
                     | Some cid \<Rightarrow>
                         (case subject_refused st cid of
                            Some e \<Rightarrow> Inl e
                          | None \<Rightarrow> SaveOIDCAuthCode now code parsed (now + AuthorizationCodeLifetime) st)))))"

definition DeleteAuthRequest :: "oidc_env \<Rightarrow> time \<Rightarrow> string \<Rightarrow> auth_state \<Rightarrow> oidc_error + auth_state" where
  "DeleteAuthRequest V now i st =
     (case ov_uuid V i of None \<Rightarrow> Inl InvalidRequestID | Some parsed \<Rightarrow> Inr (MarkOIDCAuthRequestConsumed now parsed st))"

text \<open>What the provider passes of a token request: its subject, its client and its scopes.\<close>

record token_request =
  tq_subject :: string
  tq_client :: string
  tq_scopes :: "string list"

text \<open>What a token request draws: the two opaque tokens, and the id and the SID of a new session link.\<close>

record token_draw =
  td_access :: "string option"
  td_refresh :: "string option"
  td_link :: string
  td_sid :: string

text \<open>The result is None when the revocation of a chain does not end.\<close>

definition CreateAccessAndRefreshTokens ::
  "oidc_env \<Rightarrow> time \<Rightarrow> token_draw \<Rightarrow> token_request \<Rightarrow> string \<Rightarrow> auth_state \<Rightarrow> ((oidc_error + string \<times> string \<times> time) \<times> auth_state) option" where
  "CreateAccessAndRefreshTokens V now draw req current st =
     (case (td_access draw, td_refresh draw) of
        (Some access, Some rt) \<Rightarrow>
          (case ov_uuid V (tq_subject req) of
             None \<Rightarrow> Some (Inl SubjectNotUUID, st)
           | Some cid \<Rightarrow>
               (case subject_refused st cid of
                  Some e \<Rightarrow> Some (Inl e, st)
                | None \<Rightarrow>
                    let expires = now + RefreshTokenLifetime; ok = (Inr (access, rt, now + AccessTokenLifetime)) in
                    if current = []
                    then (case CreateOIDCRefreshToken V now rt cid (tq_client req) (tq_scopes req) expires None st of
                            Inl e \<Rightarrow> Some (Inl e, st)
                          | Inr st1 \<Rightarrow> Some (ok, UpsertOIDCSessionLink now (td_link draw) (td_sid draw) cid (tq_client req) None st1))
                    else (case RotateOIDCRefreshToken V now current rt cid (tq_client req) (tq_scopes req) expires st of
                            Inl e \<Rightarrow> if e = AlreadyRevokedOrMissing
                                     then map_option (Pair (Inl ReplayDetected)) (RevokeOIDCRefreshChainByRoot V now current st)
                                     else Some (Inl e, st)
                          | Inr st1 \<Rightarrow> Some (ok, st1))))
      | _ \<Rightarrow> Some (Inl EntropyFailed, st))"

definition TokenRequestByRefreshToken ::
  "oidc_env \<Rightarrow> time \<Rightarrow> string \<Rightarrow> auth_state \<Rightarrow> ((oidc_error + OIDCRefreshToken) \<times> auth_state) option" where
  "TokenRequestByRefreshToken V now token st =
     (case GetOIDCRefreshToken V st token of
        None \<Rightarrow> Some (Inl InvalidRefreshToken, st)
      | Some r \<Rightarrow>
          if rt_revoked r \<noteq> None then map_option (Pair (Inl InvalidRefreshToken)) (RevokeOIDCRefreshChainByRoot V now token st)
          else if rt_expires r < now then Some (Inl InvalidRefreshToken, st)
          else if RequireIssuableSubject st (rt_collaborator r) = Some CannotSignIn then Some (Inl InvalidRefreshToken, st)
          else Some (Inr r, st))"

definition TerminateSession :: "oidc_env \<Rightarrow> time \<Rightarrow> string \<Rightarrow> string \<Rightarrow> string \<Rightarrow> auth_state \<Rightarrow> oidc_error + auth_state" where
  "TerminateSession V now rid userID client st =
     (case ov_uuid V userID of
        None \<Rightarrow> Inl SubjectNotUUID
      | Some cid \<Rightarrow>
          let st1 = st\<lparr>as_refresh := revoke_refresh now (\<lambda>r. rt_collaborator r = cid \<and> rt_client r = client) (as_refresh st)\<rparr>;
              st2 = (case InsertSessionRevocation now rid cid None ''logout''
                            [(''source'', GStr ''oidc.terminate_session''), (''client_id'', GStr client)] st1 of
                       Inl _ \<Rightarrow> st1 | Inr (_, st') \<Rightarrow> if subject_exists cid st1 then st' else st1)
          in Inr (fold (\<lambda>l s. if ol_client l = client then MarkOIDCSessionLinkTerminated now (ol_id l) s else s)
                    (ListActiveOIDCSessionLinksForCollaborator cid st2) st2))"

definition RevokeToken :: "oidc_env \<Rightarrow> time \<Rightarrow> string \<Rightarrow> string \<Rightarrow> auth_state \<Rightarrow> (oidc_error option \<times> auth_state) option" where
  "RevokeToken V now token client st =
     (case GetOIDCRefreshToken V st token of
        None \<Rightarrow> Some (None, st)
      | Some r \<Rightarrow> if rt_client r \<noteq> client then Some (Some NotIssuedForClient, st)
                  else map_option (Pair None) (RevokeOIDCRefreshChainByRoot V now token st))"

definition GetRefreshTokenInfo :: "oidc_env \<Rightarrow> string \<Rightarrow> string \<Rightarrow> auth_state \<Rightarrow> oidc_error + string \<times> string" where
  "GetRefreshTokenInfo V client token st =
     (case GetOIDCRefreshToken V st token of
        None \<Rightarrow> Inl InvalidRefreshToken
      | Some r \<Rightarrow> if rt_client r \<noteq> client then Inl InvalidRefreshToken else Inr (rt_collaborator r, token))"

definition CreateAccessToken :: "oidc_env \<Rightarrow> time \<Rightarrow> string option \<Rightarrow> token_request \<Rightarrow> auth_state \<Rightarrow> oidc_error + string \<times> time" where
  "CreateAccessToken V now drawn req st =
     (case ov_uuid V (tq_subject req) of
        None \<Rightarrow> Inl (SubjectRefused PhoneUnavailable)
      | Some cid \<Rightarrow> (case subject_refused st cid of
                       Some e \<Rightarrow> Inl e
                     | None \<Rightarrow> (case drawn of None \<Rightarrow> Inl EntropyFailed | Some i \<Rightarrow> Inr (i, now + AccessTokenLifetime))))"

end
