(* ===== verification/Oidc_Chains.thy ===== *)
theory Oidc_Chains
  imports Oidc_Grants
begin

text \<open>
  What the grants guarantee over any history of the provider's operations and of the status changes of
  \<open>Session_Policy\<close>: refresh tokens form linear chains with at most one live token, presenting a spent token ends its
  whole chain, a code is exchanged at most once, and the grants of a collaborator who could not sign in stay dead.
\<close>

section \<open>Chains\<close>

definition parents :: "OIDCRefreshToken list \<Rightarrow> (string \<times> string) set" where
  "parents rs = {(p, t). \<exists>r\<in>set rs. rt_token r = t \<and> rt_from r = Some p}"

text \<open>Tokens of one chain, in either direction.\<close>

definition family :: "OIDCRefreshToken list \<Rightarrow> (string \<times> string) set" where
  "family rs = (parents rs \<union> (parents rs)\<inverse>)\<^sup>*"

text \<open>A parent is an earlier row, has one child at most, and is revoked.\<close>

definition refresh_ok :: "OIDCRefreshToken list \<Rightarrow> bool" where
  "refresh_ok rs \<longleftrightarrow> distinct (map rt_token rs) \<and>
     (\<forall>i<length rs. \<forall>p. rt_from (rs ! i) = Some p \<longrightarrow> (\<exists>j<i. rt_token (rs ! j) = p \<and> rt_revoked (rs ! j) \<noteq> None)) \<and>
     (\<forall>i<length rs. \<forall>j<length rs. rt_from (rs ! i) \<noteq> None \<longrightarrow> rt_from (rs ! i) = rt_from (rs ! j) \<longrightarrow> i = j)"

lemma refresh_ok_Nil: "refresh_ok []"
  by (simp add: refresh_ok_def)

lemma refresh_okI:
  assumes "distinct (map rt_token rs)"
    "\<And>i p. i < length rs \<Longrightarrow> rt_from (rs ! i) = Some p \<Longrightarrow> \<exists>j<i. rt_token (rs ! j) = p \<and> rt_revoked (rs ! j) \<noteq> None"
    "\<And>i j. i < length rs \<Longrightarrow> j < length rs \<Longrightarrow> rt_from (rs ! i) \<noteq> None \<Longrightarrow> rt_from (rs ! i) = rt_from (rs ! j) \<Longrightarrow> i = j"
  shows "refresh_ok rs"
  using assms unfolding refresh_ok_def by blast

lemma refresh_parent:
  "refresh_ok rs \<Longrightarrow> i < length rs \<Longrightarrow> rt_from (rs ! i) = Some p \<Longrightarrow> \<exists>j<i. rt_token (rs ! j) = p \<and> rt_revoked (rs ! j) \<noteq> None"
  unfolding refresh_ok_def by blast

lemma refresh_one:
  "refresh_ok rs \<Longrightarrow> i < length rs \<Longrightarrow> j < length rs \<Longrightarrow> rt_from (rs ! i) \<noteq> None \<Longrightarrow> rt_from (rs ! i) = rt_from (rs ! j) \<Longrightarrow> i = j"
  unfolding refresh_ok_def by blast

lemma token_index: "refresh_ok rs \<Longrightarrow> i < length rs \<Longrightarrow> j < length rs \<Longrightarrow> rt_token (rs ! i) = rt_token (rs ! j) \<Longrightarrow> i = j"
  unfolding refresh_ok_def by (metis length_map nth_eq_iff_index_eq nth_map)

definition next_generation :: "OIDCRefreshToken list \<Rightarrow> string list \<Rightarrow> string list" where
  "next_generation rs g = map rt_token (filter (\<lambda>r. case rt_from r of None \<Rightarrow> False | Some p \<Rightarrow> p \<in> set g) rs)"

lemma set_next_generation: "set (next_generation rs g) = parents rs `` set g"
  by (auto simp: next_generation_def parents_def split: option.splits)

lemma next_generation_later:
  assumes ok: "refresh_ok rs" and g: "\<forall>t\<in>set g. \<exists>i\<ge>n. i < length rs \<and> rt_token (rs ! i) = t"
  shows "\<forall>t\<in>set (next_generation rs g). \<exists>i\<ge>Suc n. i < length rs \<and> rt_token (rs ! i) = t"
proof
  fix t assume "t \<in> set (next_generation rs g)"
  then obtain p r where r: "p \<in> set g" "r \<in> set rs" "rt_token r = t" "rt_from r = Some p"
    by (auto simp: set_next_generation parents_def)
  from r(2) obtain k where k: "k < length rs" "rs ! k = r" by (auto simp: in_set_conv_nth)
  obtain j where j: "j < k" "rt_token (rs ! j) = p" using ok k r(4) unfolding refresh_ok_def by blast
  obtain i where i: "n \<le> i" "i < length rs" "rt_token (rs ! i) = p" using g r(1) by blast
  have "i = j" using token_index [OF ok i(2)] i(3) j k(1) by (metis order.strict_trans)
  then show "\<exists>i\<ge>Suc n. i < length rs \<and> rt_token (rs ! i) = t" using i(1) j(1) k r(3) by (intro exI [of _ k]) auto
qed

lemma chain_rows_step: "chain_rows rs g found = (if g = [] then Some found else chain_rows rs (next_generation rs g) (found @ g))"
  unfolding next_generation_def by (rule chain_rows.simps)

lemma reach_step: "R\<^sup>* `` A = A \<union> R\<^sup>* `` (R `` A)"
  by (auto elim: converse_rtranclE intro: converse_rtrancl_into_rtrancl)

lemma chain_rows_reach:
  assumes "refresh_ok rs" "\<forall>t\<in>set g. \<exists>i\<ge>n. i < length rs \<and> rt_token (rs ! i) = t"
  shows "\<exists>out. chain_rows rs g found = Some out \<and> set out = set found \<union> (parents rs)\<^sup>* `` set g"
  using assms(2)
proof (induction "length rs - n" arbitrary: n g found rule: less_induct)
  case less
  show ?case
  proof (cases "g = []")
    case True then show ?thesis by (subst chain_rows_step) simp
  next
    case False
    then obtain i where "n \<le> i" "i < length rs" using less.prems by (meson list.set_sel(1))
    then have "length rs - Suc n < length rs - n" by simp
    from less.hyps [OF this next_generation_later [OF assms(1) less.prems], of "found @ g"]
    obtain out where o: "chain_rows rs (next_generation rs g) (found @ g) = Some out"
      "set out = set (found @ g) \<union> (parents rs)\<^sup>* `` set (next_generation rs g)" by blast
    have "set out = set found \<union> (parents rs)\<^sup>* `` set g"
      unfolding o(2) set_next_generation using reach_step [of "parents rs" "set g"] by auto
    then show ?thesis using o(1) False by (subst chain_rows_step) simp
  qed
qed

lemma chain_of_token:
  assumes "refresh_ok rs"
  shows "\<exists>out. chain_rows rs (map rt_token (filter (\<lambda>r. rt_token r = h) rs)) [] = Some out \<and>
    set out = (if \<exists>r\<in>set rs. rt_token r = h then (parents rs)\<^sup>* `` {h} else {})"
proof -
  let ?g = "map rt_token (filter (\<lambda>r. rt_token r = h) rs)"
  have "\<forall>t\<in>set ?g. \<exists>i\<ge>0. i < length rs \<and> rt_token (rs ! i) = t" by (auto simp: in_set_conv_nth)
  then obtain out where o: "chain_rows rs ?g [] = Some out" "set out = (parents rs)\<^sup>* `` set ?g"
    using chain_rows_reach [OF assms, of ?g 0 "[]"] by auto
  have "set ?g = (if \<exists>r\<in>set rs. rt_token r = h then {h} else {})" by (auto simp: image_iff)
  then show ?thesis using o by simp
qed

section \<open>Families are lines\<close>

lemma one_parent: "refresh_ok rs \<Longrightarrow> (p, t) \<in> parents rs \<Longrightarrow> (q, t) \<in> parents rs \<Longrightarrow> p = q"
  unfolding parents_def by (auto simp: in_set_conv_nth) (metis option.inject token_index)

lemma one_child: "refresh_ok rs \<Longrightarrow> (p, t) \<in> parents rs \<Longrightarrow> (p, u) \<in> parents rs \<Longrightarrow> t = u"
  unfolding parents_def refresh_ok_def by (auto simp: in_set_conv_nth) (metis option.distinct(1))

lemma parent_revoked:
  assumes "refresh_ok rs" "(p, t) \<in> parents rs" "r \<in> set rs" "rt_token r = p"
  shows "rt_revoked r \<noteq> None"
proof -
  obtain c i where c: "i < length rs" "c = rs ! i" "rt_from c = Some p" using assms(2) by (auto simp: parents_def in_set_conv_nth)
  obtain j where j: "j < i" "rt_token (rs ! j) = p" "rt_revoked (rs ! j) \<noteq> None" using assms(1) c unfolding refresh_ok_def by blast
  obtain k where k: "k < length rs" "rs ! k = r" using assms(3) by (auto simp: in_set_conv_nth)
  have "j = k" using token_index [OF assms(1), of j k] j c(1) k assms(4) by simp
  then show ?thesis using j k by simp
qed

lemma family_line:
  assumes "refresh_ok rs" "(s, t) \<in> family rs"
  shows "(s, t) \<in> (parents rs)\<^sup>* \<or> (t, s) \<in> (parents rs)\<^sup>*"
  using assms(2) unfolding family_def
proof (induction rule: rtrancl_induct)
  case base then show ?case by simp
next
  case (step t u)
  then show ?case
  proof (elim disjE UnE)
    assume "(t, u) \<in> parents rs" "(s, t) \<in> (parents rs)\<^sup>*" then show ?thesis by (auto intro: rtrancl_into_rtrancl)
  next
    assume tu: "(t, u) \<in> parents rs" and ts: "(t, s) \<in> (parents rs)\<^sup>*"
    show ?thesis using ts
    proof (cases rule: converse_rtranclE)
      case base then show ?thesis using tu by auto
    next
      case (step y) then show ?thesis using one_child [OF assms(1) tu] by auto
    qed
  next
    assume "(t, u) \<in> (parents rs)\<inverse>" and ts: "(s, t) \<in> (parents rs)\<^sup>*"
    then have ut: "(u, t) \<in> parents rs" by simp
    show ?thesis using ts
    proof (cases rule: rtranclE)
      case base then show ?thesis using ut by auto
    next
      case (step y) then show ?thesis using one_parent [OF assms(1) ut] by auto
    qed
  next
    assume "(t, u) \<in> (parents rs)\<inverse>" "(t, s) \<in> (parents rs)\<^sup>*" then show ?thesis by (auto intro: converse_rtrancl_into_rtrancl)
  qed
qed

lemma ancestor_revoked:
  assumes "refresh_ok rs" "(t, s) \<in> (parents rs)\<^sup>*" "t \<noteq> s" "r \<in> set rs" "rt_token r = t"
  shows "rt_revoked r \<noteq> None"
  using assms(2,3) parent_revoked [OF assms(1) _ assms(4,5)] by (cases rule: converse_rtranclE) auto


section \<open>How the tables change\<close>

definition evolves :: "('a \<Rightarrow> 'a \<Rightarrow> bool) \<Rightarrow> 'a list \<Rightarrow> 'a list \<Rightarrow> bool" where
  "evolves K xs ys \<longleftrightarrow> (\<exists>old new. ys = old @ new \<and> list_all2 K xs old)"

lemma evolves_map: "(\<And>x. K x (f x)) \<Longrightarrow> evolves K xs (map f xs)"
  unfolding evolves_def by (intro exI [of _ "map f xs"] exI [of _ "[]"]) (simp add: list_all2_map2 list.rel_refl)

lemma evolves_append: "evolves K xs ys \<Longrightarrow> evolves K xs (ys @ zs)"
  unfolding evolves_def by (metis append.assoc)

lemma evolves_refl: "(\<And>x. K x x) \<Longrightarrow> evolves K xs xs"
  using evolves_map [of K id xs] by simp

lemma list_all2_member: "list_all2 K xs ys \<Longrightarrow> x \<in> set xs \<Longrightarrow> \<exists>y\<in>set ys. K x y"
  by (induction rule: list_all2_induct) auto

lemma evolves_member: "evolves K xs ys \<Longrightarrow> x \<in> set xs \<Longrightarrow> \<exists>y\<in>set ys. K x y"
  unfolding evolves_def using list_all2_member by fastforce

definition refresh_kept :: "OIDCRefreshToken \<Rightarrow> OIDCRefreshToken \<Rightarrow> bool" where
  "refresh_kept r r' \<longleftrightarrow> rt_token r' = rt_token r \<and> rt_from r' = rt_from r \<and> rt_collaborator r' = rt_collaborator r \<and>
     (rt_revoked r \<noteq> None \<longrightarrow> rt_revoked r' \<noteq> None)"

definition code_kept :: "OIDCAuthCode \<Rightarrow> OIDCAuthCode \<Rightarrow> bool" where
  "code_kept c c' \<longleftrightarrow> oac_code c' = oac_code c \<and> (oac_consumed c \<noteq> None \<longrightarrow> oac_consumed c' \<noteq> None)"

definition request_kept :: "OIDCAuthRequest \<Rightarrow> OIDCAuthRequest \<Rightarrow> bool" where
  "request_kept r r' \<longleftrightarrow> oar_id r' = oar_id r \<and> oar_client r' = oar_client r \<and> oar_redirect r' = oar_redirect r \<and>
     oar_challenge r' = oar_challenge r \<and> oar_method r' = oar_method r"

lemma kept_refls [simp]: "refresh_kept r r" "code_kept c c" "request_kept q q"
  by (simp_all add: refresh_kept_def code_kept_def request_kept_def)

lemma kept_refresh_ok:
  assumes "refresh_ok rs" "list_all2 refresh_kept rs rs'"
  shows "refresh_ok rs'"
proof -
  have len: "length rs' = length rs" using assms(2) by (simp add: list_all2_lengthD)
  have k: "rt_token (rs' ! i) = rt_token (rs ! i)" "rt_from (rs' ! i) = rt_from (rs ! i)"
    "rt_revoked (rs ! i) \<noteq> None \<Longrightarrow> rt_revoked (rs' ! i) \<noteq> None" if "i < length rs" for i
    using list_all2_nthD [OF assms(2) that] by (simp_all add: refresh_kept_def)
  have m: "map rt_token rs' = map rt_token rs" by (rule nth_equalityI) (simp_all add: len k)
  show ?thesis
  proof (rule refresh_okI)
    show "distinct (map rt_token rs')" unfolding m using assms(1) by (simp add: refresh_ok_def)
  next
    fix i p assume i: "i < length rs'" "rt_from (rs' ! i) = Some p"
    then have "rt_from (rs ! i) = Some p" using k(2) [of i] len by simp
    then obtain j where "j < i" "rt_token (rs ! j) = p" "rt_revoked (rs ! j) \<noteq> None"
      using refresh_parent [OF assms(1), of i p] i(1) len by auto
    then show "\<exists>j<i. rt_token (rs' ! j) = p \<and> rt_revoked (rs' ! j) \<noteq> None"
      using k(1,3) [of j] i(1) len by (intro exI [of _ j]) auto
  next
    fix i j assume "i < length rs'" "j < length rs'" "rt_from (rs' ! i) \<noteq> None" "rt_from (rs' ! i) = rt_from (rs' ! j)"
    then show "i = j" using refresh_one [OF assms(1), of i j] k(2) [of i] k(2) [of j] len by simp
  qed
qed

lemma refresh_ok_append:
  assumes ok: "refresh_ok rs" and new: "\<not> list_ex (\<lambda>x. rt_token x = rt_token r) rs"
    and parent: "\<And>p. rt_from r = Some p \<Longrightarrow> (\<exists>q\<in>set rs. rt_token q = p \<and> rt_revoked q \<noteq> None) \<and> (\<forall>q\<in>set rs. rt_from q \<noteq> Some p)"
  shows "refresh_ok (rs @ [r])"
proof -
  have tok: "rt_token r \<notin> set (map rt_token rs)" using new by (auto simp: list_ex_iff)
  have nth: "(rs @ [r]) ! i = (if i < length rs then rs ! i else r)" if "i < length (rs @ [r])" for i
    using that by (auto simp: nth_append less_Suc_eq)
  show ?thesis
  proof (rule refresh_okI)
    show "distinct (map rt_token (rs @ [r]))" using ok tok by (simp add: refresh_ok_def)
  next
    fix i p assume i: "i < length (rs @ [r])" "rt_from ((rs @ [r]) ! i) = Some p"
    have "\<exists>j<i. j < length rs \<and> rt_token (rs ! j) = p \<and> rt_revoked (rs ! j) \<noteq> None"
    proof (cases "i < length rs")
      case True
      then show ?thesis using refresh_parent [OF ok, of i p] i nth [OF i(1)] by auto
    next
      case False
      then have r: "i = length rs" "rt_from r = Some p" using i nth [OF i(1)] by auto
      obtain q where "q \<in> set rs" "rt_token q = p" "rt_revoked q \<noteq> None" using parent [OF r(2)] by blast
      then show ?thesis unfolding r(1) by (metis in_set_conv_nth)
    qed
    then show "\<exists>j<i. rt_token ((rs @ [r]) ! j) = p \<and> rt_revoked ((rs @ [r]) ! j) \<noteq> None" by (auto simp: nth_append)
  next
    fix i j assume ij: "i < length (rs @ [r])" "j < length (rs @ [r])" "rt_from ((rs @ [r]) ! i) \<noteq> None"
      "rt_from ((rs @ [r]) ! i) = rt_from ((rs @ [r]) ! j)"
    have new_child: "rt_from (rs ! k) \<noteq> rt_from r" if "k < length rs" "rt_from r \<noteq> None" for k
      using parent that nth_mem by fastforce
    show "i = j"
    proof (cases "i < length rs"; cases "j < length rs")
      assume "i < length rs" "j < length rs"
      then show ?thesis using refresh_one [OF ok, of i j] ij(3,4) by (simp add: nth_append)
    next
      assume "i < length rs" "\<not> j < length rs"
      then show ?thesis using ij nth [OF ij(1)] nth [OF ij(2)] new_child [of i] by auto
    next
      assume "\<not> i < length rs" "j < length rs"
      then show ?thesis using ij nth [OF ij(1)] nth [OF ij(2)] new_child [of j] by auto
    next
      assume "\<not> i < length rs" "\<not> j < length rs"
      then show ?thesis using ij(1,2) by simp
    qed
  qed
qed


section \<open>Steps\<close>

text \<open>
  One step is one operation at some time. \<open>Elsewhere\<close> stands for the operations that write neither the grants nor a status.
\<close>

inductive oidc_step :: "oidc_env \<Rightarrow> auth_state \<Rightarrow> auth_state \<Rightarrow> bool" for V where
  Request: "CreateAuthRequest V now rid req user st = Inr (i, st') \<Longrightarrow> oidc_step V st st'"
| Bind: "BindOIDCAuthRequestCollaborator rid cid st = Inr st' \<Longrightarrow> oidc_step V st st'"
| Save: "SaveAuthCode V now i code st = Inr st' \<Longrightarrow> oidc_step V st st'"
| Exchange: "AuthRequestByCode now code st = (r, st') \<Longrightarrow> oidc_step V st st'"
| Close: "DeleteAuthRequest V now i st = Inr st' \<Longrightarrow> oidc_step V st st'"
| Mint: "CreateAccessAndRefreshTokens V now draw req current st = Some (r, st') \<Longrightarrow> oidc_step V st st'"
| Present: "TokenRequestByRefreshToken V now token st = Some (r, st') \<Longrightarrow> oidc_step V st st'"
| Revoke: "RevokeToken V now token client st = Some (e, st') \<Longrightarrow> oidc_step V st st'"
| EndSession: "TerminateSession V now rid user client st = Inr st' \<Longrightarrow> oidc_step V st st'"
| Terminate: "TerminateCollaboratorSessionsTx D now collab reason metadata st = Inr (row, st') \<Longrightarrow> oidc_step V st st'"
| Update: "UpdateCollaboratorTx (ov_uuid V) D now req st = Inr (c, st') \<Longrightarrow> oidc_step V st st'"
| Offboard: "OffboardCollaboratorTx (ov_uuid V) D now i st = Inr (c, st') \<Longrightarrow> oidc_step V st st'"
| Elsewhere: "as_refresh st' = as_refresh st \<Longrightarrow> as_codes st' = as_codes st \<Longrightarrow> as_requests st' = as_requests st \<Longrightarrow>
    people_ok (ov_uuid V) (as_db st') \<Longrightarrow> (\<And>i. status_of (as_db st') i = status_of (as_db st) i) \<Longrightarrow> oidc_step V st st'"

definition grants_ok :: "oidc_env \<Rightarrow> auth_state \<Rightarrow> bool" where
  "grants_ok V st \<longleftrightarrow> people_ok (ov_uuid V) (as_db st) \<and> refresh_ok (as_refresh st) \<and> distinct (map oac_code (as_codes st))"

text \<open>A request that its client may make: the redirect is registered, and where the client requires it the challenge is an S256 digest.\<close>

definition registered :: "oidc_env \<Rightarrow> OIDCAuthRequest \<Rightarrow> bool" where
  "registered V r \<longleftrightarrow> list_ex (\<lambda>c. oc_id c = oar_client r \<and> oar_redirect r \<in> set (oc_redirects c) \<and>
     (oc_pkce c \<longrightarrow> oar_method r = ''S256'' \<and> ov_b64_length V (oar_challenge r) = Some 32)) (ov_clients V)"

definition grant_effect :: "oidc_env \<Rightarrow> auth_state \<Rightarrow> auth_state \<Rightarrow> bool" where
  "grant_effect V st st' \<longleftrightarrow> grants_ok V st' \<and> evolves refresh_kept (as_refresh st) (as_refresh st') \<and>
     evolves code_kept (as_codes st) (as_codes st') \<and>
     (list_all (registered V) (as_requests st) \<longrightarrow> list_all (registered V) (as_requests st')) \<and>
     (\<forall>i. status_of (as_db st) i \<noteq> None \<longrightarrow> status_of (as_db st') i \<noteq> None) \<and>
     (\<forall>i x. \<not> holder_may st i \<longrightarrow> holder_may st' i \<longrightarrow> x \<in> set (as_refresh st') \<longrightarrow> rt_collaborator x = i \<longrightarrow> rt_revoked x \<noteq> None)"

lemma same_statuses_grants:
  assumes "people_ok (ov_uuid V) (as_db st')" "\<And>i. status_of (as_db st') i = status_of (as_db st) i"
    "refresh_ok (as_refresh st')" "evolves refresh_kept (as_refresh st) (as_refresh st')"
    "distinct (map oac_code (as_codes st'))" "evolves code_kept (as_codes st) (as_codes st')"
    "list_all (registered V) (as_requests st) \<Longrightarrow> list_all (registered V) (as_requests st')"
  shows "grant_effect V st st'"
proof -
  have "holder_may st' i = holder_may st i" for i using assms(2) by (simp add: holder_may_def)
  then show ?thesis using assms unfolding grant_effect_def grants_ok_def by auto
qed

text \<open>The three tables, one at a time.\<close>

lemma refresh_effect:
  assumes "grants_ok V st" "as_db st' = as_db st" "as_codes st' = as_codes st" "as_requests st' = as_requests st"
    "refresh_ok (as_refresh st')" "evolves refresh_kept (as_refresh st) (as_refresh st')"
  shows "grant_effect V st st'"
  using assms by (intro same_statuses_grants) (simp_all add: grants_ok_def evolves_refl)

lemma codes_effect:
  assumes "grants_ok V st" "as_db st' = as_db st" "as_refresh st' = as_refresh st" "as_requests st' = as_requests st"
    "distinct (map oac_code (as_codes st'))" "evolves code_kept (as_codes st) (as_codes st')"
  shows "grant_effect V st st'"
  using assms by (intro same_statuses_grants) (simp_all add: grants_ok_def evolves_refl)

lemma requests_effect:
  assumes "grants_ok V st" "as_db st' = as_db st" "as_refresh st' = as_refresh st" "as_codes st' = as_codes st"
    "list_all (registered V) (as_requests st) \<Longrightarrow> list_all (registered V) (as_requests st')"
  shows "grant_effect V st st'"
  using assms by (intro same_statuses_grants) (simp_all add: grants_ok_def evolves_refl)

lemma no_effect: "grants_ok V st \<Longrightarrow> grant_effect V st st"
  by (rule requests_effect) simp_all

lemma registered_map:
  "(\<And>r. request_kept r (f r)) \<Longrightarrow> list_all (registered V) rs \<Longrightarrow> list_all (registered V) (map f rs)"
  by (auto simp: list_all_iff registered_def request_kept_def)

lemma revoke_refresh_kept: "list_all2 refresh_kept rs (revoke_refresh now P rs)"
  unfolding revoke_refresh_def by (simp add: list_all2_map2 list.rel_refl refresh_kept_def)

lemma revoke_refresh_effect:
  assumes "grants_ok V st" "as_db st' = as_db st" "as_codes st' = as_codes st" "as_requests st' = as_requests st"
    "as_refresh st' = revoke_refresh now P (as_refresh st)"
  shows "grant_effect V st st'"
proof (rule refresh_effect [OF assms(1-4)])
  show "refresh_ok (as_refresh st')" using assms(1,5) kept_refresh_ok [OF _ revoke_refresh_kept] by (simp add: grants_ok_def)
  show "evolves refresh_kept (as_refresh st) (as_refresh st')"
    unfolding assms(5) evolves_def using revoke_refresh_kept by (metis append_Nil2)
qed

lemma RevokeChain_Some:
  "RevokeOIDCRefreshChainByRoot V now token st = Some st' \<Longrightarrow> \<exists>P. st' = st\<lparr>as_refresh := revoke_refresh now P (as_refresh st)\<rparr>"
  by (auto simp: RevokeOIDCRefreshChainByRoot_def)

lemma RevokeChain_effect: "grants_ok V st \<Longrightarrow> RevokeOIDCRefreshChainByRoot V now token st = Some st' \<Longrightarrow> grant_effect V st st'"
  using RevokeChain_Some [of V now token st st'] revoke_refresh_effect [of V st st' now] by auto


lemma refresh_insert_Inr:
  assumes "refresh_insert V r st = Inr st'"
  shows "st' = st\<lparr>as_refresh := as_refresh st @ [r]\<rparr> \<and> \<not> list_ex (\<lambda>x. rt_token x = rt_token r) (as_refresh st)"
  using assms by (auto simp: refresh_insert_def split: if_splits)

lemma Create_effect:
  assumes "CreateOIDCRefreshToken V now token cid client scopes expires None st = Inr st1" "grants_ok V st"
  shows "grant_effect V st st1"
proof -
  let ?r = "refresh_row V now token cid client scopes expires None"
  have i: "st1 = st\<lparr>as_refresh := as_refresh st @ [?r]\<rparr>" "\<not> list_ex (\<lambda>x. rt_token x = rt_token ?r) (as_refresh st)"
    using assms(1) refresh_insert_Inr [of V ?r st st1] by (simp_all add: CreateOIDCRefreshToken_def)
  have "refresh_ok (as_refresh st @ [?r])"
    using assms(2) i(2) by (intro refresh_ok_append) (simp_all add: grants_ok_def refresh_row_def)
  then show ?thesis using i(1) assms(2) by (intro refresh_effect) (simp_all add: evolves_append evolves_refl)
qed

lemma Rotate_effect:
  assumes "RotateOIDCRefreshToken V now old token cid client scopes expires st = Inr st1" "grants_ok V st"
  shows "grant_effect V st st1"
proof -
  let ?h = "ov_hash V old"
  let ?rs = "revoke_refresh now (\<lambda>r. rt_token r = ?h) (as_refresh st)"
  let ?r = "refresh_row V now token cid client scopes expires (Some ?h)"
  have live: "list_ex (\<lambda>r. rt_token r = ?h \<and> rt_revoked r = None) (as_refresh st)"
    and ins: "refresh_insert V ?r (st\<lparr>as_refresh := ?rs\<rparr>) = Inr st1"
    using assms(1) by (simp_all add: RotateOIDCRefreshToken_def Let_def split: if_splits)
  have i: "as_refresh st1 = ?rs @ [?r]" "as_db st1 = as_db st" "as_codes st1 = as_codes st" "as_requests st1 = as_requests st"
    "\<not> list_ex (\<lambda>x. rt_token x = rt_token ?r) ?rs"
    using refresh_insert_Inr [OF ins] by simp_all
  have ok: "refresh_ok (as_refresh st)" using assms(2) by (simp add: grants_ok_def)
  have ok': "refresh_ok ?rs" by (rule kept_refresh_ok [OF ok revoke_refresh_kept])
  obtain q where q: "q \<in> set (as_refresh st)" "rt_token q = ?h" "rt_revoked q = None" using live by (auto simp: list_ex_iff)
  have "q\<lparr>rt_revoked := Some now\<rparr> \<in> set ?rs"
    unfolding revoke_refresh_def set_map by (rule image_eqI [OF _ q(1)]) (simp add: q)
  then obtain q' where q': "q' \<in> set ?rs" "rt_token q' = ?h" "rt_revoked q' \<noteq> None"
    using q(2) by (intro that [of "q\<lparr>rt_revoked := Some now\<rparr>"]) simp_all
  have nochild: "x \<in> set (as_refresh st) \<Longrightarrow> rt_from x \<noteq> Some ?h" for x
    using parent_revoked [OF ok _ q(1,2)] q(3) by (auto simp: parents_def)
  have child: "rt_from x \<noteq> Some ?h" if xm: "x \<in> set ?rs" for x
  proof -
    obtain y where "y \<in> set (as_refresh st)" "rt_from x = rt_from y" using xm by (auto simp: revoke_refresh_def)
    then show ?thesis using nochild by simp
  qed
  have "refresh_ok (?rs @ [?r])"
    using q' child by (intro refresh_ok_append [OF ok' i(5)]) (auto simp: refresh_row_def)
  moreover have "evolves refresh_kept (as_refresh st) (?rs @ [?r])"
    using revoke_refresh_kept by (auto simp: evolves_def)
  ultimately show ?thesis using i(1-4) assms(2) by (intro refresh_effect) simp_all
qed

lemma Upsert_fields:
  "as_db (UpsertOIDCSessionLink now lid sid cid client session st) = as_db st"
  "as_refresh (UpsertOIDCSessionLink now lid sid cid client session st) = as_refresh st"
  "as_codes (UpsertOIDCSessionLink now lid sid cid client session st) = as_codes st"
  "as_requests (UpsertOIDCSessionLink now lid sid cid client session st) = as_requests st"
  by (simp_all add: UpsertOIDCSessionLink_def split: list.split)

lemma links_effect:
  assumes "grant_effect V st st1" "as_db st' = as_db st1" "as_refresh st' = as_refresh st1" "as_codes st' = as_codes st1" "as_requests st' = as_requests st1"
  shows "grant_effect V st st'"
  using assms by (simp add: grant_effect_def grants_ok_def holder_may_def)

lemma Mint_effect:
  assumes "CreateAccessAndRefreshTokens V now draw req current st = Some (r, st')" "grants_ok V st"
  shows "grant_effect V st st'"
proof (cases "st' = st")
  case True then show ?thesis using no_effect [OF assms(2)] by simp
next
  case ne: False
  obtain access rt where d: "td_access draw = Some access" "td_refresh draw = Some rt"
    using assms(1) ne by (cases "td_access draw"; cases "td_refresh draw") (auto simp: CreateAccessAndRefreshTokens_def)
  obtain cid where c: "ov_uuid V (tq_subject req) = Some cid" "subject_refused st cid = None"
    using assms(1) ne d by (cases "ov_uuid V (tq_subject req)"; cases "subject_refused st (the (ov_uuid V (tq_subject req)))")
      (auto simp: CreateAccessAndRefreshTokens_def)
  note m = assms(1) [unfolded CreateAccessAndRefreshTokens_def d prod.case option.case c Let_def]
  show ?thesis
  proof (cases "current = []")
    case True
    note m1 = m [unfolded if_P [OF True]]
    obtain st1 where s1: "CreateOIDCRefreshToken V now rt cid (tq_client req) (tq_scopes req) (now + RefreshTokenLifetime) None st = Inr st1"
      using m1 ne by (cases "CreateOIDCRefreshToken V now rt cid (tq_client req) (tq_scopes req) (now + RefreshTokenLifetime) None st") auto
    have "st' = UpsertOIDCSessionLink now (td_link draw) (td_sid draw) cid (tq_client req) None st1" using m1 unfolding s1 by simp
    then show ?thesis using links_effect [OF Create_effect [OF s1 assms(2)]] by (simp add: Upsert_fields)
  next
    case False
    note m1 = m [unfolded if_not_P [OF False]]
    show ?thesis
    proof (cases "RotateOIDCRefreshToken V now current rt cid (tq_client req) (tq_scopes req) (now + RefreshTokenLifetime) st")
      case (Inl e)
      have "RevokeOIDCRefreshChainByRoot V now current st = Some st'" using m1 ne unfolding Inl by (auto split: if_splits)
      then show ?thesis by (rule RevokeChain_effect [OF assms(2)])
    next
      case (Inr st1)
      have "st' = st1" using m1 unfolding Inr by simp
      then show ?thesis using Rotate_effect [OF Inr assms(2)] by simp
    qed
  qed
qed


lemma Present_effect:
  assumes "TokenRequestByRefreshToken V now token st = Some (r, st')" "grants_ok V st"
  shows "grant_effect V st st'"
proof (cases "st' = st")
  case True then show ?thesis using no_effect [OF assms(2)] by simp
next
  case False
  then have "RevokeOIDCRefreshChainByRoot V now token st = Some st'"
    using assms(1) by (auto simp: TokenRequestByRefreshToken_def split: option.splits if_splits)
  then show ?thesis by (rule RevokeChain_effect [OF assms(2)])
qed

lemma Revoke_effect:
  assumes "RevokeToken V now token client st = Some (e, st')" "grants_ok V st"
  shows "grant_effect V st st'"
proof (cases "st' = st")
  case True then show ?thesis using no_effect [OF assms(2)] by simp
next
  case False
  then have "RevokeOIDCRefreshChainByRoot V now token st = Some st'"
    using assms(1) by (auto simp: RevokeToken_def split: option.splits if_splits)
  then show ?thesis by (rule RevokeChain_effect [OF assms(2)])
qed

lemma fold_links:
  "as_db (fold (\<lambda>l s. if P l then MarkOIDCSessionLinkTerminated now (ol_id l) s else s) ls st) = as_db st \<and>
   as_refresh (fold (\<lambda>l s. if P l then MarkOIDCSessionLinkTerminated now (ol_id l) s else s) ls st) = as_refresh st \<and>
   as_codes (fold (\<lambda>l s. if P l then MarkOIDCSessionLinkTerminated now (ol_id l) s else s) ls st) = as_codes st \<and>
   as_requests (fold (\<lambda>l s. if P l then MarkOIDCSessionLinkTerminated now (ol_id l) s else s) ls st) = as_requests st"
  by (induction ls arbitrary: st) (simp_all add: MarkOIDCSessionLinkTerminated_def)

lemma EndSession_effect:
  assumes "TerminateSession V now rid user client st = Inr st'" "grants_ok V st"
  shows "grant_effect V st st'"
proof -
  obtain cid where c: "ov_uuid V user = Some cid" using assms(1) by (cases "ov_uuid V user") (simp_all add: TerminateSession_def)
  define st1 where "st1 = st\<lparr>as_refresh := revoke_refresh now (\<lambda>r. rt_collaborator r = cid \<and> rt_client r = client) (as_refresh st)\<rparr>"
  define st2 where "st2 = (case InsertSessionRevocation now rid cid None ''logout''
      [(''source'', GStr ''oidc.terminate_session''), (''client_id'', GStr client)] st1 of
        Inl _ \<Rightarrow> st1 | Inr (_, st') \<Rightarrow> if subject_exists cid st1 then st' else st1)"
  have s2: "as_db st2 = as_db st1" "as_refresh st2 = as_refresh st1" "as_codes st2 = as_codes st1" "as_requests st2 = as_requests st1"
    unfolding st2_def InsertSessionRevocation_def Let_def by (auto split: sum.splits if_splits)
  have "st' = fold (\<lambda>l s. if ol_client l = client then MarkOIDCSessionLinkTerminated now (ol_id l) s else s)
      (ListActiveOIDCSessionLinksForCollaborator cid st2) st2"
    using assms(1) c unfolding st2_def st1_def by (simp add: TerminateSession_def Let_def)
  then have "as_db st' = as_db st" "as_codes st' = as_codes st" "as_requests st' = as_requests st"
    "as_refresh st' = revoke_refresh now (\<lambda>r. rt_collaborator r = cid \<and> rt_client r = client) (as_refresh st)"
    using fold_links [of "\<lambda>l. ol_client l = client" now "ListActiveOIDCSessionLinksForCollaborator cid st2" st2] s2 by (simp_all add: st1_def)
  then show ?thesis by (rule revoke_refresh_effect [OF assms(2)])
qed

lemma Exchange_effect:
  assumes "AuthRequestByCode now code st = (r, st')" "grants_ok V st"
  shows "grant_effect V st st'"
proof (cases "st' = st")
  case True then show ?thesis using no_effect [OF assms(2)] by simp
next
  case False
  then have s: "st' = st\<lparr>as_codes := map (\<lambda>x. if oac_code x = code then x\<lparr>oac_consumed := Some now\<rparr> else x) (as_codes st)\<rparr>"
    using assms(1) by (auto simp: AuthRequestByCode_def ConsumeOIDCAuthCode_def split: sum.splits option.splits if_splits)
  have "evolves code_kept (as_codes st) (map (\<lambda>x. if oac_code x = code then x\<lparr>oac_consumed := Some now\<rparr> else x) (as_codes st))"
    by (rule evolves_map) (simp add: code_kept_def)
  moreover have "map oac_code (map (\<lambda>x. if oac_code x = code then x\<lparr>oac_consumed := Some now\<rparr> else x) (as_codes st)) = map oac_code (as_codes st)"
    by simp
  ultimately show ?thesis using s assms(2) by (intro codes_effect) (simp_all add: grants_ok_def del: map_map)
qed

lemma Save_effect:
  assumes "SaveAuthCode V now i code st = Inr st'" "grants_ok V st"
  shows "grant_effect V st st'"
proof -
  obtain rid where "SaveOIDCAuthCode now code rid (now + AuthorizationCodeLifetime) st = Inr st'"
    using assms(1) by (auto simp: SaveAuthCode_def split: option.splits sum.splits)
  then obtain c where "st' = st\<lparr>as_codes := as_codes st @ [c]\<rparr>" "oac_code c = code" "\<not> list_ex (\<lambda>c. oac_code c = code) (as_codes st)"
    by (auto simp: SaveOIDCAuthCode_def split: if_splits)
  then show ?thesis using assms(2) by (intro codes_effect) (auto simp: grants_ok_def evolves_append evolves_refl list_ex_iff)
qed


lemma Request_effect:
  assumes "CreateAuthRequest V now rid req user st = Inr (i, st')" "grants_ok V st"
  shows "grant_effect V st st'"
proof -
  obtain client where c: "GetOIDCClientByID V (az_client req) = Inr client" "az_redirect req \<in> set (oc_redirects client)"
    "validateRequiredPKCE V client req = None"
    using assms(1) by (cases "GetOIDCClientByID V (az_client req)")
      (auto simp: CreateAuthRequest_def split: if_splits option.splits)
  obtain r where r: "st' = st\<lparr>as_requests := as_requests st @ [r]\<rparr>" "oar_client r = az_client req" "oar_redirect r = az_redirect req"
    "oar_challenge r = az_challenge req" "oar_method r = az_method req"
    using assms(1) c by (auto simp: CreateAuthRequest_def CreateOIDCAuthRequest_def map_sum_Inr split: if_splits)
  have "client \<in> set (ov_clients V)" "oc_id client = az_client req"
    using c(1) by (auto simp: GetOIDCClientByID_def find_Some_iff split: option.splits)
  moreover have "oc_pkce client \<Longrightarrow> az_method req = ''S256'' \<and> ov_b64_length V (az_challenge req) = Some 32"
    using c(3) by (simp add: validateRequiredPKCE_def e_then_None guard_err_None)
  ultimately have "registered V r" using c(2) r(2-5) unfolding registered_def list_ex_iff by (intro bexI [of _ client]) simp_all
  then show ?thesis using r(1) assms(2) by (intro requests_effect) simp_all
qed

lemma request_map_effect:
  assumes "grants_ok V st" "st' = st\<lparr>as_requests := map f (as_requests st)\<rparr>" "\<And>r. request_kept r (f r)"
  shows "grant_effect V st st'"
  using assms(1,2) registered_map [OF assms(3)] by (intro requests_effect) simp_all

text \<open>The tables that a sweep leaves, and what the change of a status does to them.\<close>

lemma revoke_refresh_dead:
  assumes "x \<in> set (revoke_refresh now P rs)" "\<And>y. P (y\<lparr>rt_revoked := Some now\<rparr>) = P y" "P x"
  shows "rt_revoked x \<noteq> None"
proof -
  obtain y where y: "x = (if P y \<and> rt_revoked y = None then y\<lparr>rt_revoked := Some now\<rparr> else y)"
    using assms(1) unfolding revoke_refresh_def set_map by (rule imageE)
  show ?thesis using assms(3) unfolding y by (cases "P y \<and> rt_revoked y = None") auto
qed

lemma sweep_tables_effect:
  assumes ok: "grants_ok V st" and t: "swept_tables st' = swept_tables (RevokeAllAuthSessions now cid st)"
    and db: "people_ok (ov_uuid V) (as_db st')" and other: "\<And>i. i \<noteq> cid \<Longrightarrow> status_of (as_db st') i = status_of (as_db st) i"
    and stays: "status_of (as_db st) cid \<noteq> None \<Longrightarrow> status_of (as_db st') cid \<noteq> None"
  shows "grant_effect V st st'"
proof -
  have tabs: "as_refresh st' = as_refresh (RevokeAllAuthSessions now cid st)" "as_requests st' = as_requests (RevokeAllAuthSessions now cid st)"
    "as_codes st' = as_codes (RevokeAllAuthSessions now cid st)" using t by (simp_all add: swept_tables_def)
  have r: "as_refresh st' = revoke_refresh now (\<lambda>r. rt_collaborator r = cid) (as_refresh st)"
    unfolding tabs(1) RevokeAll_tables(1) revoke_refresh_def ..
  have ok': "refresh_ok (as_refresh st')" unfolding r using ok kept_refresh_ok [OF _ revoke_refresh_kept] by (simp add: grants_ok_def)
  have ev: "evolves refresh_kept (as_refresh st) (as_refresh st')" unfolding r evolves_def using revoke_refresh_kept by (metis append_Nil2)
  have codes: "evolves code_kept (as_codes st) (as_codes st')" unfolding tabs(3) RevokeAll_tables(3) by (rule evolves_map) (simp add: code_kept_def)
  have "map oac_code (as_codes st') = map oac_code (as_codes st)" unfolding tabs(3) RevokeAll_tables(3) by simp
  then have dist: "distinct (map oac_code (as_codes st'))" using ok by (simp add: grants_ok_def)
  have reqs: "list_all (registered V) (as_requests st')" if "list_all (registered V) (as_requests st)"
    unfolding tabs(2) RevokeAll_tables(2) by (rule registered_map [OF _ that]) (simp add: request_kept_def)
  have dead: "rt_revoked x \<noteq> None" if x: "x \<in> set (as_refresh st')" "rt_collaborator x = cid" for x
    by (rule revoke_refresh_dead [OF x(1) [unfolded r]]) (simp_all add: x(2))
  have "rt_revoked x \<noteq> None" if x: "\<not> holder_may st i" "holder_may st' i" "x \<in> set (as_refresh st')" "rt_collaborator x = i" for i x
    using x other [of i] dead by (cases "i = cid") (auto simp: holder_may_def)
  moreover have "status_of (as_db st') i \<noteq> None" if "status_of (as_db st) i \<noteq> None" for i
    using that other [of i] stays by (cases "i = cid") simp_all
  ultimately show ?thesis using db ok' ev codes dist reqs unfolding grant_effect_def grants_ok_def by blast
qed

lemma same_tables_effect:
  assumes "grants_ok V st" "swept_tables st' = swept_tables st" "people_ok (ov_uuid V) (as_db st')" "\<And>i. status_of (as_db st') i = status_of (as_db st) i"
  shows "grant_effect V st st'"
  using assms by (intro same_statuses_grants) (simp_all add: grants_ok_def swept_tables_def evolves_refl)

lemma Update_effect:
  assumes u: "updateCollaboratorOn (ov_uuid V) now (as_db st) req = Inr (c, prev, db')" and ok: "grants_ok V st" and db: "as_db st' = db'"
    and t: "swept_tables st' = swept_tables (RevokeAllAuthSessions now (co_id c) st) \<or> prev = co_status c \<and> swept_tables st' = swept_tables st"
  shows "grant_effect V st st'"
proof -
  have people: "people_ok (ov_uuid V) (as_db st)" using ok by (simp add: grants_ok_def)
  note S = updateCollaboratorOn_statuses [OF u people]
  from t show ?thesis
  proof
    assume "swept_tables st' = swept_tables (RevokeAllAuthSessions now (co_id c) st)"
    then show ?thesis using S(1,3,4) db by (intro sweep_tables_effect [OF ok]) auto
  next
    assume p: "prev = co_status c \<and> swept_tables st' = swept_tables st"
    have "status_of (as_db st') i = status_of (as_db st) i" for i using S(2-4) p db by (cases "i = co_id c") simp_all
    then show ?thesis using S(1) db p by (intro same_tables_effect [OF ok]) simp_all
  qed
qed

lemma oidc_step_effect:
  assumes "oidc_step V st st'" "grants_ok V st"
  shows "grant_effect V st st'"
  using assms(1)
proof (cases rule: oidc_step.cases)
  case Request then show ?thesis using Request_effect assms(2) by blast
next
  case (Bind rid cid)
  then have "st' = st\<lparr>as_requests := map (\<lambda>r. if oar_id r = rid \<and> oar_consumed r = None then r\<lparr>oar_collaborator := Some cid\<rparr> else r) (as_requests st)\<rparr>"
    by (auto simp: BindOIDCAuthRequestCollaborator_def split: if_splits)
  then show ?thesis by (rule request_map_effect [OF assms(2)]) (simp add: request_kept_def)
next
  case Save then show ?thesis using Save_effect assms(2) by blast
next
  case Exchange then show ?thesis using Exchange_effect assms(2) by blast
next
  case (Close now i)
  then obtain rid where "st' = MarkOIDCAuthRequestConsumed now rid st" by (auto simp: DeleteAuthRequest_def split: option.splits)
  then show ?thesis unfolding MarkOIDCAuthRequestConsumed_def by (rule request_map_effect [OF assms(2)]) (simp add: request_kept_def)
next
  case Mint then show ?thesis using Mint_effect assms(2) by blast
next
  case Present then show ?thesis using Present_effect assms(2) by blast
next
  case Revoke then show ?thesis using Revoke_effect assms(2) by blast
next
  case EndSession then show ?thesis using EndSession_effect assms(2) by blast
next
  case (Terminate D now collab reason metadata row)
  then show ?thesis using Terminate_Inr [OF Terminate] assms(2) by (intro sweep_tables_effect [of V st st' now "co_id collab"]) (simp_all add: swept_tables_def grants_ok_def)
next
  case (Update D now req c)
  then obtain prev db' where u: "updateCollaboratorOn (ov_uuid V) now (as_db st) req = Inr (c, prev, db')"
    "applyCollaboratorStatusSessionPolicyTx D now prev c (st\<lparr>as_db := db'\<rparr>) = Inr st'" by (rule Update_Inr)
  have "swept_tables (st\<lparr>as_db := db'\<rparr>) = swept_tables st" by (simp add: swept_tables_def)
  then show ?thesis using policy_sessions [OF u(2)] RevokeAll_frame by (intro Update_effect [OF u(1) assms(2)]) (auto split: if_splits)
next
  case (Offboard D now i c)
  then obtain prev db' where o: "updateCollaboratorOn (ov_uuid V) now (as_db st) (status_request i ''offboarded'') = Inr (c, prev, db')"
    "as_db st' = db'" "swept_tables st' = swept_tables (RevokeAllAuthSessions now (co_id c) st)" by (rule Offboard_Inr)
  show ?thesis by (rule Update_effect [OF o(1) assms(2) o(2)]) (simp add: o(3))
next
  case Elsewhere
  then show ?thesis using assms(2) by (intro same_statuses_grants) (simp_all add: grants_ok_def evolves_refl)
qed


section \<open>The gate for grants\<close>

definition has_refresh :: "auth_state \<Rightarrow> string \<Rightarrow> string \<Rightarrow> bool" where
  "has_refresh st h cid \<longleftrightarrow> list_ex (\<lambda>r. rt_token r = h \<and> rt_collaborator r = cid) (as_refresh st)"

definition live_refresh :: "auth_state \<Rightarrow> string \<Rightarrow> bool" where
  "live_refresh st h \<longleftrightarrow> list_ex (\<lambda>r. rt_token r = h \<and> rt_revoked r = None) (as_refresh st)"

lemma refresh_unique:
  "refresh_ok rs \<Longrightarrow> x \<in> set rs \<Longrightarrow> y \<in> set rs \<Longrightarrow> rt_token x = rt_token y \<Longrightarrow> x = y"
  by (auto simp: refresh_ok_def distinct_map dest: inj_onD)

lemma live_refresh_row:
  assumes "refresh_ok (as_refresh st)" "r \<in> set (as_refresh st)"
  shows "live_refresh st (rt_token r) \<longleftrightarrow> rt_revoked r = None"
  using refresh_unique [OF assms(1) _ assms(2)] assms(2) by (auto simp: live_refresh_def list_ex_iff)

interpretation grants: session_gate "oidc_step V" "grants_ok V" has_refresh live_refresh holder_may
proof unfold_locales
  fix st st' k u
  assume ok: "grants_ok V st" and "oidc_step V st st'"
  then have e: "grant_effect V st st'" by (rule oidc_step_effect [rotated])
  show ok': "grants_ok V st'" using e by (simp add: grant_effect_def)
  have oks: "refresh_ok (as_refresh st)" "refresh_ok (as_refresh st')" using ok ok' by (simp_all add: grants_ok_def)
  have ev: "evolves refresh_kept (as_refresh st) (as_refresh st')" using e by (simp add: grant_effect_def)
  assume "has_refresh st k u"
  then obtain r where r: "r \<in> set (as_refresh st)" "rt_token r = k" "rt_collaborator r = u" by (auto simp: has_refresh_def list_ex_iff)
  obtain r' where r': "r' \<in> set (as_refresh st')" "refresh_kept r r'" using evolves_member [OF ev r(1)] by blast
  have k: "rt_token r' = k" "rt_collaborator r' = u" using r' r by (simp_all add: refresh_kept_def)
  note live = live_refresh_row [OF oks(1) r(1), unfolded r(2)] live_refresh_row [OF oks(2) r'(1), unfolded k(1)]
  show "has_refresh st' k u" using r'(1) k by (auto simp: has_refresh_def list_ex_iff)
  show "\<not> live_refresh st k \<Longrightarrow> \<not> live_refresh st' k" using live r'(2) by (simp add: refresh_kept_def)
  assume "\<not> holder_may st u" "holder_may st' u"
  then have "rt_revoked r' \<noteq> None" using e r'(1) k(2) unfolding grant_effect_def by blast
  then show "\<not> live_refresh st' k" using live by simp
qed

section \<open>Properties\<close>

lemma run_grants_ok: "(oidc_step V)\<^sup>*\<^sup>* st st' \<Longrightarrow> grants_ok V st \<Longrightarrow> grants_ok V st'"
  by (induction rule: rtranclp_induct) (auto dest: grants.inv_step)

lemma run_status: "(oidc_step V)\<^sup>*\<^sup>* st st' \<Longrightarrow> grants_ok V st \<Longrightarrow> status_of (as_db st) i \<noteq> None \<Longrightarrow> status_of (as_db st') i \<noteq> None"
proof (induction rule: rtranclp_induct)
  case base then show ?case by simp
next
  case (step y z)
  then have "grant_effect V y z" using oidc_step_effect run_grants_ok by blast
  then show ?case using step by (simp add: grant_effect_def)
qed

lemma chain_revoked:
  assumes "refresh_ok (as_refresh st)"
  shows "\<exists>st'. RevokeOIDCRefreshChainByRoot V now token st = Some st' \<and>
    as_refresh st' = revoke_refresh now (\<lambda>r. (\<exists>q\<in>set (as_refresh st). rt_token q = ov_hash V token) \<and>
      (ov_hash V token, rt_token r) \<in> (parents (as_refresh st))\<^sup>*) (as_refresh st)"
proof -
  obtain out where o: "chain_rows (as_refresh st) (map rt_token (filter (\<lambda>r. rt_token r = ov_hash V token) (as_refresh st))) [] = Some out"
    "set out = (if \<exists>r\<in>set (as_refresh st). rt_token r = ov_hash V token then (parents (as_refresh st))\<^sup>* `` {ov_hash V token} else {})"
    using chain_of_token [OF assms] by blast
  show ?thesis unfolding RevokeOIDCRefreshChainByRoot_def o(1) by (simp add: o(2))
qed

text \<open>A refresh token that existed while its holder could not sign in is never honoured again: whatever operations of the provider and status changes follow, and whether or not the holder is active again, presenting it is refused and the call ends.\<close>
theorem stale_refresh_token_refused:
  assumes "grants_ok V st" "has_refresh st (ov_hash V token) cid" "status_of (as_db st) cid = Some status" "\<not> CanSignIn status"
    "(oidc_step V)\<^sup>*\<^sup>* st st'"
  shows "\<exists>st2. TokenRequestByRefreshToken V now token st' = Some (Inl InvalidRefreshToken, st2)"
proof -
  have b: "grants_ok V st'" "has_refresh st' (ov_hash V token) cid" "\<not> (live_refresh st' (ov_hash V token) \<and> holder_may st' cid)"
    using grants.barred_run [OF assms(5,1,2)] assms(3,4) by (simp_all add: holder_may_def)
  have ok: "refresh_ok (as_refresh st')" "people_ok (ov_uuid V) (as_db st')" using b(1) by (simp_all add: grants_ok_def)
  obtain r where r: "r \<in> set (as_refresh st')" "rt_token r = ov_hash V token" "rt_collaborator r = cid"
    using b(2) by (auto simp: has_refresh_def list_ex_iff)
  have get: "GetOIDCRefreshToken V st' token = Some r"
  proof (cases "GetOIDCRefreshToken V st' token")
    case None then show ?thesis using r by (auto simp: GetOIDCRefreshToken_def find_None_iff)
  next
    case (Some x)
    then have "x \<in> set (as_refresh st')" "rt_token x = ov_hash V token" by (auto simp: GetOIDCRefreshToken_def find_Some_iff)
    then show ?thesis using Some refresh_unique [OF ok(1) _ r(1), of x] r(2) by simp
  qed
  show ?thesis
  proof (cases "rt_revoked r")
    case (Some t)
    obtain st2 where "RevokeOIDCRefreshChainByRoot V now token st' = Some st2" using chain_revoked [OF ok(1)] by blast
    then show ?thesis using get Some by (simp add: TokenRequestByRefreshToken_def)
  next
    case None
    then have "live_refresh st' (ov_hash V token)" using live_refresh_row [OF ok(1) r(1)] r(2) by simp
    then have no: "\<not> holder_may st' cid" using b(3) by simp
    obtain c where c: "find (\<lambda>c. co_id c = cid) (db_people (as_db st')) = Some c"
      using run_status [OF assms(5,1), of cid] assms(3) by (auto simp: status_of_def)
    then have mem: "c \<in> set (db_people (as_db st'))" "co_id c = cid" by (auto simp: find_Some_iff)
    have "cid \<noteq> nil_uuid" using mem ok(2) by (auto simp: people_ok_def list_all_iff canonical_id_def)
    moreover have "\<not> CanSignIn (co_status c)" using no c by (simp add: holder_may_def status_of_def)
    ultimately have "RequireIssuableSubject st' (rt_collaborator r) = Some CannotSignIn"
      using c r(3) by (simp add: RequireIssuableSubject_def)
    then show ?thesis using get None by (simp add: TokenRequestByRefreshToken_def)
  qed
qed

text \<open>C9: Whatever the provider did since its tables were empty, presenting a refresh token that was already spent or revoked is refused, ends, and leaves no live token in the chain it belongs to, neither among the tokens it was rotated into nor among those it came from.\<close>
theorem replayed_token_ends_its_chain:
  assumes "(oidc_step V)\<^sup>*\<^sup>* st0 st" "as_refresh st0 = []" "as_codes st0 = []" "people_ok (ov_uuid V) (as_db st0)"
    "GetOIDCRefreshToken V st token = Some r" "rt_revoked r \<noteq> None"
  shows "\<exists>st'. TokenRequestByRefreshToken V now token st = Some (Inl InvalidRefreshToken, st') \<and>
    list_all (\<lambda>x. (rt_token r, rt_token x) \<in> family (as_refresh st) \<longrightarrow> rt_revoked x \<noteq> None) (as_refresh st')"
proof -
  have "grants_ok V st0" using assms(2-4) by (simp add: grants_ok_def refresh_ok_Nil)
  then have ok: "refresh_ok (as_refresh st)" using run_grants_ok [OF assms(1)] by (simp add: grants_ok_def)
  have r: "r \<in> set (as_refresh st)" "rt_token r = ov_hash V token" using assms(5) by (auto simp: GetOIDCRefreshToken_def find_Some_iff)
  define P :: "OIDCRefreshToken \<Rightarrow> bool" where "P = (\<lambda>x. (ov_hash V token, rt_token x) \<in> (parents (as_refresh st))\<^sup>*)"
  obtain st' where c: "RevokeOIDCRefreshChainByRoot V now token st = Some st'" "as_refresh st' = revoke_refresh now P (as_refresh st)"
  proof -
    have ex: "(\<exists>q\<in>set (as_refresh st). rt_token q = ov_hash V token) = True" using r by blast
    show thesis using chain_revoked [OF ok, of V now token] unfolding ex simp_thms P_def [symmetric] by (elim exE conjE) (rule that)
  qed
  have "rt_revoked x \<noteq> None" if x: "x \<in> set (as_refresh st')" "(rt_token r, rt_token x) \<in> family (as_refresh st)" for x
  proof (cases "P x")
    case True
    then show ?thesis using x(1) unfolding c(2) by (intro revoke_refresh_dead [of x now P "as_refresh st"]) (simp_all add: P_def)
  next
    case False
    obtain y where y: "y \<in> set (as_refresh st)" "x = (if P y \<and> rt_revoked y = None then y\<lparr>rt_revoked := Some now\<rparr> else y)"
      using x(1) unfolding c(2) revoke_refresh_def set_map by (rule imageE)
    then have xy: "x = y" using False by (auto simp: P_def split: if_splits)
    have "(rt_token x, rt_token r) \<in> (parents (as_refresh st))\<^sup>*" "rt_token x \<noteq> rt_token r"
      using family_line [OF ok x(2)] False r(2) by (auto simp: P_def)
    then show ?thesis using ancestor_revoked [OF ok _ _ y(1)] xy by simp
  qed
  moreover have "TokenRequestByRefreshToken V now token st = Some (Inl InvalidRefreshToken, st')"
    using assms(5,6) c(1) by (simp add: TokenRequestByRefreshToken_def)
  ultimately show ?thesis by (auto simp: list_all_iff)
qed

definition spent :: "auth_state \<Rightarrow> string \<Rightarrow> bool" where
  "spent st code \<longleftrightarrow> list_ex (\<lambda>c. oac_code c = code \<and> oac_consumed c \<noteq> None) (as_codes st)"

lemma run_spent:
  "(oidc_step V)\<^sup>*\<^sup>* st st' \<Longrightarrow> grants_ok V st \<Longrightarrow> spent st code \<Longrightarrow> spent st' code"
proof (induction rule: rtranclp_induct)
  case base then show ?case by simp
next
  case (step y z)
  have "grant_effect V y z" using step oidc_step_effect run_grants_ok by blast
  then have ev: "evolves code_kept (as_codes y) (as_codes z)" by (simp add: grant_effect_def)
  have "spent y code" using step.IH step.prems by blast
  then obtain c where c: "c \<in> set (as_codes y)" "oac_code c = code" "oac_consumed c \<noteq> None" unfolding spent_def list_ex_iff by blast
  obtain c' where c': "c' \<in> set (as_codes z)" "code_kept c c'" using evolves_member [OF ev c(1)] by blast
  then show ?case using c(2,3) unfolding spent_def list_ex_iff by (intro bexI [OF _ c'(1)]) (simp add: code_kept_def)
qed

lemma spent_refused:
  assumes "distinct (map oac_code (as_codes st))" "spent st code"
  shows "AuthRequestByCode now code st = (Inl AuthCodeNotFound, st)"
proof -
  obtain c where c: "c \<in> set (as_codes st)" "oac_code c = code" "oac_consumed c \<noteq> None" using assms(2) by (auto simp: spent_def list_ex_iff)
  have "x = c" if "x \<in> set (as_codes st)" "oac_code x = code" for x
    using that c assms(1) by (auto simp: distinct_map dest: inj_onD)
  then have "find (\<lambda>c. oac_code c = code \<and> oac_consumed c = None \<and> now < oac_expires c) (as_codes st) = None"
    using c(3) by (auto simp: find_None_iff)
  then show ?thesis by (simp add: AuthRequestByCode_def GetOIDCAuthRequestByCode_def)
qed

text \<open>C23: An authorization code is exchanged at most once: after an exchange that succeeded, every later exchange of the same code fails, whatever operations come in between.\<close>
theorem code_exchanged_once:
  assumes "grants_ok V st" "AuthRequestByCode now code st = (Inr ar, st1)" "(oidc_step V)\<^sup>*\<^sup>* st1 st2"
  shows "AuthRequestByCode now' code st2 = (Inl AuthCodeNotFound, st2)"
proof -
  have ok1: "grants_ok V st1" using Exchange_effect [OF assms(2,1)] by (simp add: grant_effect_def)
  obtain c where c: "ConsumeOIDCAuthCode now code st = Inr (c, st1)"
    using assms(2) by (auto simp: AuthRequestByCode_def split: sum.splits option.splits)
  then have f: "find (\<lambda>c. oac_code c = code) (as_codes st) = Some c"
    and s: "as_codes st1 = map (\<lambda>x. if oac_code x = code then x\<lparr>oac_consumed := Some now\<rparr> else x) (as_codes st)"
    by (auto simp: ConsumeOIDCAuthCode_def split: option.splits if_splits)
  have m: "c \<in> set (as_codes st)" "oac_code c = code" using f by (auto simp: find_Some_iff)
  have "c\<lparr>oac_consumed := Some now\<rparr> \<in> set (as_codes st1)" unfolding s set_map by (rule image_eqI [OF _ m(1)]) (simp add: m(2))
  then have "spent st1 code" unfolding spent_def list_ex_iff using m(2) by (intro bexI [of _ "c\<lparr>oac_consumed := Some now\<rparr>"]) simp_all
  then have "spent st2 code" by (rule run_spent [OF assms(3) ok1])
  then show ?thesis using run_grants_ok [OF assms(3) ok1] by (intro spent_refused) (simp_all add: grants_ok_def)
qed

text \<open>Every authorization request that the provider stored names a redirect address registered for its client and, where the client requires a proof key, carries an S256 challenge of 32 bytes.\<close>
theorem stored_requests_registered:
  assumes "(oidc_step V)\<^sup>*\<^sup>* st0 st" "grants_ok V st0" "as_requests st0 = []"
  shows "list_all (registered V) (as_requests st)"
  using assms
proof (induction rule: rtranclp_induct)
  case base then show ?case by simp
next
  case (step y z)
  have "grant_effect V y z" using step oidc_step_effect run_grants_ok by blast
  then show ?case using step by (simp add: grant_effect_def)
qed


section \<open>Examples\<close>

definition ex_oidc :: oidc_env where
  "ex_oidc = \<lparr>ov_uuid = Some, ov_hash = id, ov_clients = [\<lparr>oc_id = ''app'', oc_secret_hash = [], oc_redirects = [''https://app''],
     oc_scopes = [''openid''], oc_pkce = True\<rparr>], ov_b64_length = (\<lambda>_. Some 32)\<rparr>"

definition ex_token_request :: token_request where
  "ex_token_request = \<lparr>tq_subject = ''c'', tq_client = ''app'', tq_scopes = [''openid'']\<rparr>"

definition ex_token_draw :: "string \<Rightarrow> token_draw" where
  "ex_token_draw t = \<lparr>td_access = Some ''x'', td_refresh = Some t, td_link = ''l'', td_sid = ''s''\<rparr>"

definition ex_refresh :: "string \<Rightarrow> string option \<Rightarrow> time \<Rightarrow> OIDCRefreshToken" where
  "ex_refresh t parent now = refresh_row ex_oidc now t ''c'' ''app'' [''openid''] (now + RefreshTokenLifetime) parent"

definition ex_empty :: auth_state where
  "ex_empty = ex_auth [ex_holder ''c'' ''active'' []] []"

definition ex_issued :: auth_state where
  "ex_issued = UpsertOIDCSessionLink 1 ''l'' ''s'' ''c'' ''app'' None (ex_empty\<lparr>as_refresh := [ex_refresh ''r1'' None 1]\<rparr>)"

definition ex_rotated :: auth_state where
  "ex_rotated = ex_issued\<lparr>as_refresh := [(ex_refresh ''r1'' None 1)\<lparr>rt_revoked := Some 2\<rparr>, ex_refresh ''r2'' (Some ''r1'') 2]\<rparr>"

lemma ex_subject_issuable: "subject_refused ex_empty ''c'' = None" "subject_refused ex_issued ''c'' = None"
  by code_simp+

lemma ex_token_fields:
  "td_access (ex_token_draw t) = Some ''x''" "td_refresh (ex_token_draw t) = Some t" "ov_uuid ex_oidc (tq_subject ex_token_request) = Some ''c''"
  "tq_client ex_token_request = ''app''" "tq_scopes ex_token_request = [''openid'']" "td_link (ex_token_draw t) = ''l''" "td_sid (ex_token_draw t) = ''s''"
  by (simp_all add: ex_token_draw_def ex_token_request_def ex_oidc_def)

lemma ex_create: "CreateOIDCRefreshToken ex_oidc 1 ''r1'' ''c'' ''app'' [''openid''] (1 + RefreshTokenLifetime) None ex_empty =
    Inr (ex_empty\<lparr>as_refresh := [ex_refresh ''r1'' None 1]\<rparr>)"
  by code_simp

lemma ex_rotate: "RotateOIDCRefreshToken ex_oidc 2 ''r1'' ''r2'' ''c'' ''app'' [''openid''] (2 + RefreshTokenLifetime) ex_issued = Inr ex_rotated"
  by code_simp

lemma ex_mint_first:
  "CreateAccessAndRefreshTokens ex_oidc 1 (ex_token_draw ''r1'') ex_token_request [] ex_empty = Some (Inr (''x'', ''r1'', 1 + AccessTokenLifetime), ex_issued)"
  unfolding CreateAccessAndRefreshTokens_def ex_token_fields prod.case option.case ex_subject_issuable Let_def ex_create sum.case ex_issued_def by simp

lemma ex_mint_next:
  "CreateAccessAndRefreshTokens ex_oidc 2 (ex_token_draw ''r2'') ex_token_request ''r1'' ex_issued = Some (Inr (''x'', ''r2'', 2 + AccessTokenLifetime), ex_rotated)"
  unfolding CreateAccessAndRefreshTokens_def ex_token_fields prod.case option.case ex_subject_issuable Let_def ex_rotate sum.case by simp

lemma ex_oidc_run: "(oidc_step ex_oidc)\<^sup>*\<^sup>* ex_empty ex_rotated"
proof -
  have "oidc_step ex_oidc ex_empty ex_issued" "oidc_step ex_oidc ex_issued ex_rotated"
    by (rule oidc_step.Mint [OF ex_mint_first], rule oidc_step.Mint [OF ex_mint_next])
  then show ?thesis by (meson rtranclp.simps)
qed

lemma ex_oidc_start: "as_refresh ex_empty = []" "as_codes ex_empty = []" "as_requests ex_empty = []" "people_ok (ov_uuid ex_oidc) (as_db ex_empty)"
    "grants_ok ex_oidc ex_empty"
  by (simp_all add: ex_empty_def ex_auth_def grants_ok_def refresh_ok_Nil) (code_simp+)

lemma ex_spent_token: "GetOIDCRefreshToken ex_oidc ex_rotated ''r1'' = Some ((ex_refresh ''r1'' None 1)\<lparr>rt_revoked := Some 2\<rparr>)"
  by code_simp

theorem replayed_token_ends_its_chain_witness:
  "\<exists>st'. TokenRequestByRefreshToken ex_oidc 5 ''r1'' ex_rotated = Some (Inl InvalidRefreshToken, st')"
  using replayed_token_ends_its_chain [OF ex_oidc_run ex_oidc_start(1,2,4) ex_spent_token, of 5] by (auto simp: ex_refresh_def)

definition ex_barred :: auth_state where
  "ex_barred = ex_rotated\<lparr>as_db := \<lparr>db_people = [ex_holder ''c'' ''suspended'' []], db_teams = [], db_members = [], db_grants = []\<rparr>\<rparr>"

lemma ex_barred_facts:
  "has_refresh ex_barred (ov_hash ex_oidc ''r2'') ''c''" "status_of (as_db ex_barred) ''c'' = Some ''suspended''" "\<not> CanSignIn ''suspended''"
  "people_ok (ov_uuid ex_oidc) (as_db ex_barred)" "as_codes ex_barred = []" "as_refresh ex_barred = as_refresh ex_rotated"
  by code_simp+

lemma ex_barred_ok: "grants_ok ex_oidc ex_barred"
  using run_grants_ok [OF ex_oidc_run ex_oidc_start(5)] ex_barred_facts by (simp add: grants_ok_def)

theorem stale_refresh_token_refused_witness:
  "\<exists>st2. TokenRequestByRefreshToken ex_oidc 5 ''r2'' ex_barred = Some (Inl InvalidRefreshToken, st2)"
  using stale_refresh_token_refused [OF ex_barred_ok ex_barred_facts(1-3) rtranclp.rtrancl_refl] .

definition ex_coded :: auth_state where
  "ex_coded = ex_empty\<lparr>
     as_requests := [\<lparr>oar_id = ''q'', oar_client = ''app'', oar_collaborator = Some ''c'', oar_redirect = ''https://app'', oar_scopes = [],
       oar_challenge = ''h'', oar_method = ''S256'', oar_state = [], oar_nonce = [], oar_expires = 50, oar_consumed = None, oar_created = 0\<rparr>],
     as_codes := [\<lparr>oac_code = ''k'', oac_request = ''q'', oac_expires = 50, oac_consumed = None, oac_created = 0\<rparr>]\<rparr>"

lemma ex_coded_ok: "grants_ok ex_oidc ex_coded"
  using ex_oidc_start by (simp add: grants_ok_def ex_coded_def)

lemma ex_exchange: "AuthRequestByCode 9 ''k'' ex_coded = (Inr (hd (as_requests ex_coded)), snd (AuthRequestByCode 9 ''k'' ex_coded))"
  by code_simp

theorem code_exchanged_once_witness:
  "AuthRequestByCode 10 ''k'' (snd (AuthRequestByCode 9 ''k'' ex_coded)) = (Inl AuthCodeNotFound, snd (AuthRequestByCode 9 ''k'' ex_coded))"
  using code_exchanged_once [OF ex_coded_ok ex_exchange rtranclp.rtrancl_refl] .

theorem stored_requests_registered_witness: "list_all (registered ex_oidc) (as_requests ex_rotated)"
  using stored_requests_registered [OF ex_oidc_run ex_oidc_start(5,3)] .

end
