(* ===== verification/Scim_Filter.thy ===== *)
theory Scim_Filter
  imports Identity Sensitive_Output
begin

text \<open>
  The filter language of the SCIM endpoints: \<open>internal/auth/scim/filter_parser.go\<close> and the matching functions of
  \<open>internal/auth/scim/server.go\<close>. Printed filters parse back to themselves, and the search of a list is the conjunction
  of its comparisons for users; for groups the second comparison is dropped.
\<close>

section \<open>Parsing\<close>

datatype Filter = Filter (fl_attribute: string) (fl_operator: string) (fl_value: string) (fl_and: "Filter option")

datatype filter_error = ErrUnsupportedFilter

text \<open>\<open>strings.SplitN\<close> for a separator of one character, and \<open>strings.TrimSuffix\<close>.\<close>

fun SplitN :: "char \<Rightarrow> nat \<Rightarrow> string \<Rightarrow> string list" where
  "SplitN c 0 s = []"
| "SplitN c (Suc 0) s = [s]"
| "SplitN c (Suc (Suc n)) s =
     (if c \<in> set s then takeWhile (\<lambda>x. x \<noteq> c) s # SplitN c (Suc n) (tl (dropWhile (\<lambda>x. x \<noteq> c) s)) else [s])"

definition TrimSuffix :: "string \<Rightarrow> string \<Rightarrow> string" where
  "TrimSuffix s p = (if HasSuffix s p then take (length s - length p) s else s)"

definition normalizeAttr :: "string \<Rightarrow> string" where
  "normalizeAttr raw = ToLower (TrimSpace raw)"

definition containsLowercaseToken :: "string \<Rightarrow> string \<Rightarrow> bool" where
  "containsLowercaseToken s token \<longleftrightarrow> Contains ('' '' @ ToLower s @ '' '') ('' '' @ token @ '' '')"

definition splitOnceCaseInsensitive :: "string \<Rightarrow> string \<Rightarrow> string \<times> string option" where
  "splitOnceCaseInsensitive s sep =
     (case Index (ToLower s) (ToLower sep) of None \<Rightarrow> (s, None) | Some idx \<Rightarrow> (take idx s, Some (drop (idx + length sep) s)))"

definition filter_operators :: "string list" where
  "filter_operators = [''eq'', ''ne'', ''co'', ''sw'', ''ew'']"

definition unquoted :: "string \<Rightarrow> string" where
  "unquoted tok = TrimSuffix (TrimPrefix (TrimSpace tok) ''\"'') ''\"''"

definition parseSimple :: "string \<Rightarrow> filter_error + Filter" where
  "parseSimple s =
     (let raw = TrimSpace s in
      if raw = [] then Inl ErrUnsupportedFilter
      else if HasSuffix (ToLower raw) '' pr'' then
        let attr = TrimSpace (take (length raw - 3) raw) in
        if attr = [] then Inl ErrUnsupportedFilter else Inr (Filter (normalizeAttr attr) ''pr'' [] None)
      else case SplitN CHR '' '' 3 raw of
          [attr, op, v] \<Rightarrow>
            if ToLower op \<notin> set filter_operators then Inl ErrUnsupportedFilter
            else Inr (Filter (normalizeAttr attr) (ToLower op) (unquoted v) None)
        | _ \<Rightarrow> Inl ErrUnsupportedFilter)"

definition ParseFilter :: "string \<Rightarrow> filter_error + Filter option" where
  "ParseFilter s =
     (let raw = TrimSpace s in
      if raw = [] then Inr None
      else if ContainsAny raw ''()[]'' then Inl ErrUnsupportedFilter
      else if containsLowercaseToken raw ''or'' then Inl ErrUnsupportedFilter
      else case splitOnceCaseInsensitive raw '' and '' of
          (l, None) \<Rightarrow> map_sum id Some (parseSimple l)
        | (l, Some r) \<Rightarrow>
            (case parseSimple l of Inl e \<Rightarrow> Inl e
             | Inr left \<Rightarrow> (case parseSimple r of Inl e \<Rightarrow> Inl e
                 | Inr right \<Rightarrow> Inr (Some (Filter (fl_attribute left) (fl_operator left) (fl_value left) (Some right))))))"

section \<open>Matching\<close>

definition matchOne :: "string \<Rightarrow> Filter \<Rightarrow> bool" where
  "matchOne haystack f =
     (let op = fl_operator f; v = fl_value f in
      if op = ''eq'' then EqualFold haystack v
      else if op = ''ne'' then \<not> EqualFold haystack v
      else if op = ''co'' then Contains (ToLower haystack) (ToLower v)
      else if op = ''sw'' then HasPrefix (ToLower haystack) (ToLower v)
      else if op = ''ew'' then HasSuffix (ToLower haystack) (ToLower v)
      else if op = ''pr'' then TrimSpace haystack \<noteq> []
      else False)"

definition status_signs_in :: "Collaborator \<Rightarrow> bool" where
  "status_signs_in c \<longleftrightarrow> EqualFold (co_status c) ''active'' \<or> EqualFold (co_status c) ''on_leave''"

definition getCollaboratorAttr :: "Collaborator \<Rightarrow> string \<Rightarrow> string" where
  "getCollaboratorAttr c name =
     (if name = ''username'' then if co_email c \<noteq> [] then ToLower (co_email c) else co_slug c
      else if name = ''externalid'' then co_slug c
      else if name = ''emails'' then co_email c
      else if name = ''displayname'' then co_display_name c
      else if name = ''active'' then if status_signs_in c then ''true'' else ''false''
      else [])"

definition matchUser :: "Collaborator \<Rightarrow> Filter option \<Rightarrow> bool" where
  "matchUser c fo =
     (case fo of None \<Rightarrow> True
      | Some f \<Rightarrow>
          if \<not> matchOne (getCollaboratorAttr c (fl_attribute f)) f then False
          else case fl_and f of None \<Rightarrow> True | Some g \<Rightarrow> matchOne (getCollaboratorAttr c (fl_attribute g)) g)"

definition filterCollaborators :: "Collaborator list \<Rightarrow> Filter option \<Rightarrow> Collaborator list" where
  "filterCollaborators cs fo = (case fo of None \<Rightarrow> cs | Some f \<Rightarrow> filter (\<lambda>c. matchUser c (Some f)) cs)"

definition matchGroup :: "Team \<Rightarrow> Filter option \<Rightarrow> bool" where
  "matchGroup t fo =
     (case fo of None \<Rightarrow> True
      | Some f \<Rightarrow>
          if fl_attribute f = ''displayname'' then matchOne (team_name t) f
          else if fl_attribute f = ''externalid'' then matchOne (''team:'' @ team_slug t) f
          else False)"

section \<open>Printing\<close>

text \<open>A comparison as a client writes it, with the value in quotes, and the conditions under which the parser reads it: the
  attribute is a lower-case word, and the text has no bracket and no word \<open>or\<close>; the first of two comparisons has no word
  \<open>and\<close>, also not in its value.\<close>

definition print_cond :: "Filter \<Rightarrow> string" where
  "print_cond f =
     (if fl_operator f = ''pr'' then fl_attribute f @ '' pr''
      else fl_attribute f @ '' '' @ fl_operator f @ '' \"'' @ fl_value f @ ''\"'')"

definition print_filter :: "Filter \<Rightarrow> string" where
  "print_filter f = print_cond f @ (case fl_and f of None \<Rightarrow> [] | Some g \<Rightarrow> '' and '' @ print_cond g)"

definition attr_word :: "string \<Rightarrow> bool" where
  "attr_word a \<longleftrightarrow> a \<noteq> [] \<and> list_all (\<lambda>c. \<not> is_space c \<and> lower_char c = c) a"

definition cond_ok :: "Filter \<Rightarrow> bool" where
  "cond_ok f \<longleftrightarrow> attr_word (fl_attribute f) \<and>
     (fl_operator f \<in> set filter_operators \<or> fl_operator f = ''pr'' \<and> fl_value f = [])"

definition filter_ok :: "Filter \<Rightarrow> bool" where
  "filter_ok f \<longleftrightarrow> cond_ok f \<and> (case fl_and f of None \<Rightarrow> True | Some g \<Rightarrow> cond_ok g \<and> fl_and g = None) \<and>
     \<not> ContainsAny (print_filter f) ''()[]'' \<and> \<not> containsLowercaseToken (print_filter f) ''or'' \<and>
     \<not> Contains (ToLower (print_cond f)) '' and ''"

section \<open>Printed filters parse back\<close>

lemma SplitN_first: "c \<notin> set a \<Longrightarrow> SplitN c (Suc (Suc n)) (a @ c # s) = a # SplitN c (Suc n) s"
proof -
  assume "c \<notin> set a"
  then have "takeWhile (\<lambda>x. x \<noteq> c) (a @ c # s) = a" "dropWhile (\<lambda>x. x \<noteq> c) (a @ c # s) = c # s"
    by (subst takeWhile_append2 dropWhile_append2; auto)+
  then show ?thesis by simp
qed

lemma Index_first:
  assumes "Index l p = None" and "p \<noteq> []" and "l \<noteq> [] \<Longrightarrow> last l \<notin> set (butlast p)"
  shows "Index (l @ p @ r) p = Some (length l)"
  using assms
proof (induction l)
  case Nil
  have "HasPrefix (p @ r) p" by simp
  then show ?case using Nil by (cases "p @ r") auto
next
  case (Cons c l)
  have none: "\<not> HasPrefix (c # l) p" "Index l p = None" using Cons.prems(1) by (auto split: if_splits)
  have "\<not> HasPrefix (c # l @ p @ r) p"
  proof
    assume h: "HasPrefix (c # l @ p @ r) p"
    show False
    proof (cases "length p \<le> length (c # l)")
      case True
      then have "take (length p) (c # l @ p @ r) = take (length p) (c # l)" by (cases "length p") auto
      then show False using h none(1) by (simp add: HasPrefix_def)
    next
      case False
      have p: "take (length p) (c # l @ p @ r) = p" using h by (simp add: HasPrefix_def)
      have "take (length (c # l)) (take (length p) (c # l @ p @ r)) = c # l" using False by (simp add: min_def)
      then have t: "take (length (c # l)) p = c # l" by (simp only: p)
      have "last (c # l) \<in> set (take (length (c # l)) p)" by (subst t) (rule last_in_set, simp)
      moreover have "set (take (length (c # l)) p) \<subseteq> set (butlast p)"
        using False by (simp add: butlast_conv_take set_take_subset_set_take)
      ultimately show False using Cons.prems(3) by auto
    qed
  qed
  moreover have "Index (l @ p @ r) p = Some (length l)"
    using Cons.IH none(2) Cons.prems(2,3) by (cases "l = []") auto
  ultimately show ?case by simp
qed

lemma attr_word_facts:
  assumes "attr_word a"
  shows "a \<noteq> []" "CHR '' '' \<notin> set a" "\<not> is_space (hd a)" "\<not> is_space (last a)" "normalizeAttr a = a" "TrimSpace a = a"
proof -
  have ok: "\<forall>c\<in>set a. \<not> is_space c \<and> lower_char c = c" and ne: "a \<noteq> []"
    using assms by (auto simp: attr_word_def list_all_iff)
  show "a \<noteq> []" by (rule ne)
  show "CHR '' '' \<notin> set a" using ok by (auto simp: is_space_def)
  show h: "\<not> is_space (hd a)" "\<not> is_space (last a)" using ok ne by auto
  then show t: "TrimSpace a = a" by (intro TrimSpace_id) (simp add: trimmed_def)
  show "normalizeAttr a = a" using ok by (simp add: normalizeAttr_def t ToLower_def map_idI)
qed

lemma filter_operator_word: "op \<in> set filter_operators \<Longrightarrow> ToLower op = op \<and> CHR '' '' \<notin> set op \<and> op \<noteq> ''pr''"
proof -
  have "list_all (\<lambda>op. ToLower op = op \<and> CHR '' '' \<notin> set op \<and> op \<noteq> ''pr'') filter_operators" by code_simp
  then show "op \<in> set filter_operators \<Longrightarrow> ToLower op = op \<and> CHR '' '' \<notin> set op \<and> op \<noteq> ''pr''" by (auto simp: list_all_iff)
qed

lemma HasPrefix_Cons1 [simp]: "HasPrefix (c # s) [d] \<longleftrightarrow> c = d"
  by (simp add: HasPrefix_def)

lemma HasSuffix_append [simp]: "HasSuffix (s @ p) p"
  by (simp add: HasSuffix_def)

lemma unquoted_quoted: "unquoted (CHR 0x22 # v @ [CHR 0x22]) = v"
proof -
  have "trimmed (CHR 0x22 # v @ [CHR 0x22])" by (simp add: trimmed_def is_space_def)
  then show ?thesis by (simp add: unquoted_def TrimSpace_id TrimPrefix_def TrimSuffix_def)
qed

lemma quote_facts: "\<not> is_space CHR 0x22" "lower_char CHR 0x22 = CHR 0x22" "lower_char CHR ''r'' = CHR ''r''" "\<not> is_space CHR ''r''"
  by code_simp+

lemma print_cond_ends:
  assumes "cond_ok f"
  shows "print_cond f \<noteq> []" "trimmed (print_cond f)" "last (print_cond f) \<in> {CHR 0x22, CHR ''r''}"
  using attr_word_facts [of "fl_attribute f"] assms by (auto simp: cond_ok_def print_cond_def trimmed_def quote_facts)

lemma parse_print_cond:
  assumes "cond_ok f" and "fl_and f = None"
  shows "parseSimple (print_cond f) = Inr f"
proof -
  note a = attr_word_facts [of "fl_attribute f"] and e = print_cond_ends [OF assms(1)]
  have aw: "attr_word (fl_attribute f)" using assms(1) by (simp add: cond_ok_def)
  have t: "TrimSpace (print_cond f) = print_cond f" using e(2) by (rule TrimSpace_id)
  have f: "f = Filter (fl_attribute f) (fl_operator f) (fl_value f) None" using assms(2) by (cases f) simp
  show ?thesis
  proof (cases "fl_operator f = ''pr''")
    case True
    then have v: "fl_value f = []" using assms(1) filter_operator_word by (auto simp: cond_ok_def)
    have p: "print_cond f = fl_attribute f @ '' pr''" by (simp add: print_cond_def True)
    have "ToLower (print_cond f) = ToLower (fl_attribute f) @ '' pr''" unfolding p by (simp add: ToLower_def) code_simp
    then have "HasSuffix (ToLower (print_cond f)) '' pr''" by (metis HasSuffix_append)
    then show ?thesis using a aw e(1) f True v by (simp add: parseSimple_def t) (simp add: p)
  next
    case False
    then have op: "fl_operator f \<in> set filter_operators" using assms(1) by (auto simp: cond_ok_def)
    have p: "print_cond f = fl_attribute f @ CHR '' '' # fl_operator f @ CHR '' '' # CHR 0x22 # fl_value f @ [CHR 0x22]"
      using False by (simp add: print_cond_def)
    have "last (ToLower (print_cond f)) = CHR 0x22" unfolding p by (simp add: ToLower_def quote_facts)
    then have "\<not> HasSuffix (ToLower (print_cond f)) '' pr''"
      by (auto simp: HasSuffix_def dest: arg_cong [of _ _ last] simp: last_drop)
    moreover have "SplitN CHR '' '' 3 (print_cond f) = [fl_attribute f, fl_operator f, CHR 0x22 # fl_value f @ [CHR 0x22]]"
      unfolding p numeral_3_eq_3 using a(2) [OF aw] filter_operator_word [OF op] by (simp add: SplitN_first del: SplitN.simps(3))
    ultimately show ?thesis
      using a(5) aw e(1) f op filter_operator_word [OF op] by (simp add: parseSimple_def t unquoted_quoted)
  qed
qed

text \<open>What a client writes is what the server searches for. A filter of one comparison, or of two joined by \<open>and\<close>, printed
  with its value in quotes is parsed to itself, provided that the attributes are lower-case words, the operators are those of the
  language, no bracket and no word \<open>or\<close> occurs in the text, and no word \<open>and\<close> in the first comparison. The values may
  contain blanks and, in the second comparison, also the word \<open>and\<close>.\<close>
theorem printed_filter_parses:
  assumes "filter_ok f"
  shows "ParseFilter (print_filter f) = Inr (Some f)"
proof -
  let ?l = "print_cond f"
  have c: "cond_ok f" and no: "Index (ToLower ?l) '' and '' = None" using assms by (auto simp: filter_ok_def Contains_def)
  note e = print_cond_ends [OF c]
  have plain: "\<not> ContainsAny (print_filter f) ''()[]''" "\<not> containsLowercaseToken (print_filter f) ''or''"
    using assms by (auto simp: filter_ok_def)
  have low: "ToLower '' and '' = '' and ''" by code_simp
  show ?thesis
  proof (cases "fl_and f")
    case None
    then have p: "print_filter f = ?l" by (simp add: print_filter_def)
    then show ?thesis
      using e plain no low parse_print_cond [OF c None]
      by (simp add: ParseFilter_def TrimSpace_id splitOnceCaseInsensitive_def)
  next
    case (Some g)
    then have g: "cond_ok g" "fl_and g = None" using assms by (auto simp: filter_ok_def)
    note eg = print_cond_ends [OF g(1)]
    let ?r = "print_cond g"
    have p: "print_filter f = ?l @ '' and '' @ ?r" by (simp add: print_filter_def Some)
    have tr: "TrimSpace (print_filter f) = print_filter f"
      using e eg by (intro TrimSpace_id) (auto simp: p trimmed_def)
    have "last (ToLower ?l) = lower_char (last ?l)" using e(1) by (simp add: ToLower_def last_map)
    then have "last (ToLower ?l) \<in> {CHR 0x22, CHR ''r''}" using e(3) quote_facts by auto
    then have "last (ToLower ?l) \<notin> set (butlast '' and '')" by auto
    then have "Index (ToLower ?l @ '' and '' @ ToLower ?r) '' and '' = Some (length (ToLower ?l))"
      by (intro Index_first no) simp_all
    then have i: "Index (ToLower (print_filter f)) (ToLower '' and '') = Some (length ?l)"
      using low by (simp add: p ToLower_def)
    have "splitOnceCaseInsensitive (print_filter f) '' and '' = (?l, Some ?r)"
      by (simp only: splitOnceCaseInsensitive_def i option.case) (simp add: p)
    moreover have "parseSimple ?l = Inr (Filter (fl_attribute f) (fl_operator f) (fl_value f) None)"
      using parse_print_cond [of "Filter (fl_attribute f) (fl_operator f) (fl_value f) None"] c
      unfolding cond_ok_def print_cond_def Filter.sel by blast
    moreover have "print_filter f \<noteq> []" by (simp add: p)
    moreover have "Filter (fl_attribute f) (fl_operator f) (fl_value f) (Some g) = f" using Some by (cases f) simp
    ultimately show ?thesis
      using plain tr parse_print_cond [OF g] by (simp add: ParseFilter_def)
  qed
qed

definition ex_filter :: Filter where
  "ex_filter = Filter ''emails'' ''ew'' ''@example.org'' (Some (Filter ''displayname'' ''eq'' ''Research and Development'' None))"

theorem printed_filter_parses_witness: "ParseFilter (print_filter ex_filter) = Inr (Some ex_filter)"
  by (rule printed_filter_parses) code_simp

section \<open>Where the language falls short\<close>

text \<open>A word \<open>and\<close> or \<open>or\<close> or a bracket inside the quotes of a value makes the parser refuse the filter.\<close>

lemma quoted_words_refused:
  "ParseFilter ''displayName eq \"Research and Development\"'' = Inl ErrUnsupportedFilter"
  "ParseFilter ''displayName eq \"Now or Never\"'' = Inl ErrUnsupportedFilter"
  "ParseFilter ''displayName eq \"Platform (core)\"'' = Inl ErrUnsupportedFilter"
  by code_simp+

text \<open>The search of groups looks only at the first comparison.\<close>

lemma group_conjunct_ignored: "matchGroup t (Some (Filter a op v (Some g))) = matchGroup t (Some (Filter a op v None))"
  by (simp add: matchGroup_def matchOne_def)

text \<open>The search of users is the conjunction of the comparisons.\<close>

lemma matchUser_conj:
  "matchUser c (Some (Filter a op v (Some g))) \<longleftrightarrow> matchUser c (Some (Filter a op v None)) \<and> matchOne (getCollaboratorAttr c (fl_attribute g)) g"
  by (simp add: matchUser_def matchOne_def)

lemma filterCollaborators_filter: "filterCollaborators cs f = filter (\<lambda>c. matchUser c f) cs"
  by (cases f) (simp_all add: filterCollaborators_def matchUser_def)

end
