(* ===== verification/Scim_Directory.thy ===== *)
theory Scim_Directory
  imports Scim_Filter "HOL-Library.Word"
begin

text \<open>
  The SCIM endpoints: the projection of collaborators and teams (\<open>internal/auth/scim/user_mapper.go\<close>,
  \<open>group_mapper.go\<close>), the bearer credentials (\<open>repository/scim_client.go\<close>, \<open>bearer_auth.go\<close>,
  \<open>controllers/httpapi/scim_admin.go\<close>), the guard against writes (\<open>readonly_guard.go\<close>) and the handlers with their routes
  (\<open>server.go\<close>). The parser of UUIDs, the format of an instant, the hash and the random token are arguments; a database
  statement does not fail. A request path is already cleaned and decoded.
\<close>

section \<open>Resources\<close>

record SCIMClient =
  scl_id :: string
  scl_slug :: string
  scl_hash :: string
  scl_permissions :: "(string \<times> string) list"
  scl_last_used :: "time option"
  scl_expires :: "time option"
  scl_revoked :: "time option"
  scl_metadata :: gmap
  scl_created :: time
  scl_updated :: time

record SCIMName =
  snm_formatted :: string
  snm_given :: string
  snm_family :: string

record SCIMEmail =
  eml_value :: string
  eml_type :: string
  eml_primary :: bool

record SCIMPhoto =
  pho_value :: string
  pho_type :: string
  pho_primary :: bool

record SCIMRef =
  ref_value :: string
  ref_display :: string
  ref_ref :: string

record SCIMEnterprise =
  ent_number :: string
  ent_department :: string
  ent_cost_center :: string
  ent_organization :: string
  ent_division :: string
  ent_manager :: "SCIMRef option"

record SCIMResourceMeta =
  rm_type :: string
  rm_created :: time
  rm_modified :: time
  rm_location :: string
  rm_version :: string

record SCIMUser =
  usr_schemas :: "string list"
  usr_id :: string
  usr_external :: string
  usr_name :: string
  usr_names :: SCIMName
  usr_display :: string
  usr_title :: string
  usr_type :: string
  usr_active :: bool
  usr_emails :: "SCIMEmail list"
  usr_photos :: "SCIMPhoto list"
  usr_enterprise :: SCIMEnterprise
  usr_meta :: SCIMResourceMeta

record SCIMGroupMember =
  gm_value :: string
  gm_display :: string
  gm_type :: string
  gm_ref :: string

record SCIMGroup =
  grp_schemas :: "string list"
  grp_id :: string
  grp_external :: string
  grp_display :: string
  grp_members :: "SCIMGroupMember list"
  grp_meta :: SCIMResourceMeta

record 'r SCIMListResponse =
  lr_schemas :: "string list"
  lr_total :: int
  lr_start :: int
  lr_per_page :: int
  lr_resources :: "'r list"

text \<open>Of a login identity the projection reads the name and the last change.\<close>

record login_identity =
  li_username :: string
  li_updated :: time

section \<open>The projection\<close>

definition stringFromMap :: "gmap \<Rightarrow> string \<Rightarrow> string" where
  "stringFromMap m key = (case map_of m key of Some (GStr v) \<Rightarrow> TrimSpace v | _ \<Rightarrow> [])"

definition nestedMap :: "gmap \<Rightarrow> string \<Rightarrow> gmap" where
  "nestedMap m key = (case map_of m key of Some (GMap v) \<Rightarrow> v | _ \<Rightarrow> [])"

fun firstMapString :: "gmap \<Rightarrow> string list \<Rightarrow> string" where
  "firstMapString m [] = []"
| "firstMapString m (key # keys) = (let value = stringFromMap m key in if value \<noteq> [] then value else firstMapString m keys)"

fun firstNonEmpty :: "string list \<Rightarrow> string" where
  "firstNonEmpty [] = []"
| "firstNonEmpty (value # vs) = (if TrimSpace value \<noteq> [] then TrimSpace value else firstNonEmpty vs)"

definition firstNonEmptyMapString :: "gmap \<Rightarrow> string \<Rightarrow> string list \<Rightarrow> string" where
  "firstNonEmptyMapString m fallback keys = (let value = firstMapString m keys in if value \<noteq> [] then value else TrimSpace fallback)"

text \<open>\<open>strings.Fields\<close>: the maximal runs without white space.\<close>

definition Fields :: "string \<Rightarrow> string list" where
  "Fields s = filter (\<lambda>w. w \<noteq> []) (Split CHR '' '' (map (\<lambda>c. if is_space c then CHR '' '' else c) s))"

definition splitDisplayName :: "string \<Rightarrow> SCIMName" where
  "splitDisplayName displayName =
     (let formatted = TrimSpace displayName in
      case Fields formatted of
        [] \<Rightarrow> \<lparr>snm_formatted = formatted, snm_given = [], snm_family = []\<rparr>
      | p # ps \<Rightarrow> \<lparr>snm_formatted = formatted, snm_given = p, snm_family = Join ps '' ''\<rparr>)"

definition collaboratorDisplayName :: "Collaborator \<Rightarrow> string" where
  "collaboratorDisplayName c =
     (let personal = co_personal c; profile = nestedMap personal ''profile'' in
      if TrimSpace (stringFromMap personal ''preferred_name'') \<noteq> [] then TrimSpace (stringFromMap personal ''preferred_name'')
      else if TrimSpace (stringFromMap profile ''preferred_name'') \<noteq> [] then TrimSpace (stringFromMap profile ''preferred_name'')
      else if TrimSpace (stringFromMap profile ''full_name'') \<noteq> [] then TrimSpace (stringFromMap profile ''full_name'')
      else if TrimSpace (co_display_name c) \<noteq> [] then TrimSpace (co_display_name c)
      else TrimSpace (Join [firstMapString personal [''given_name'', ''first_name''], firstMapString personal [''family_name'', ''last_name'']] '' ''))"

definition collaboratorSCIMName :: "Collaborator \<Rightarrow> string \<Rightarrow> SCIMName" where
  "collaboratorSCIMName c displayName =
     (let personal = co_personal c; profile = nestedMap personal ''profile'';
          givenName = firstNonEmpty [firstMapString profile [''given_name'', ''first_name''], firstMapString personal [''given_name'', ''first_name'']];
          familyName = firstNonEmpty [firstMapString profile [''family_name'', ''last_name''], firstMapString personal [''family_name'', ''last_name'']];
          n0 = splitDisplayName displayName;
          n1 = if snm_given n0 = [] then n0\<lparr>snm_given := givenName\<rparr> else n0;
          n2 = if snm_family n1 = [] then n1\<lparr>snm_family := familyName\<rparr> else n1 in
      if snm_formatted n2 = [] then n2\<lparr>snm_formatted := TrimSpace (Join [snm_given n2, snm_family n2] '' '')\<rparr> else n2)"

definition primaryUserName :: "Collaborator \<Rightarrow> login_identity option \<Rightarrow> string" where
  "primaryUserName c ai =
     (case ai of
        Some a \<Rightarrow> if li_username a \<noteq> [] then li_username a else if co_email c \<noteq> [] then ToLower (co_email c) else co_slug c
      | None \<Rightarrow> if co_email c \<noteq> [] then ToLower (co_email c) else co_slug c)"

definition managerRef :: "Collaborator option \<Rightarrow> SCIMRef option" where
  "managerRef = map_option (\<lambda>m. \<lparr>ref_value = co_id m, ref_display = co_display_name m, ref_ref = ''/scim/v2/Users/'' @ co_id m\<rparr>)"

definition teamSlug :: "Team option \<Rightarrow> string" where
  "teamSlug t = (case t of None \<Rightarrow> [] | Some t \<Rightarrow> team_slug t)"

definition scimPhotos :: "Collaborator \<Rightarrow> SCIMPhoto list" where
  "scimPhotos c =
     (let profile = nestedMap (co_personal c) ''profile'';
          value = firstNonEmpty [stringFromMap profile ''avatar_url'', stringFromMap (co_personal c) ''avatar_url'',
            stringFromMap profile ''avatar_data_url'', stringFromMap (co_personal c) ''avatar_data_url''] in
      if value = [] then [] else [\<lparr>pho_value = value, pho_type = ''photo'', pho_primary = True\<rparr>])"

definition identityUpdatedAt :: "login_identity option \<Rightarrow> time" where
  "identityUpdatedAt ai = (case ai of None \<Rightarrow> zeroTime | Some a \<Rightarrow> li_updated a)"

definition maxTime :: "time \<Rightarrow> time \<Rightarrow> time" where
  "maxTime a b = (if a < b then b else a)"

definition weak_version :: "(time \<Rightarrow> string) \<Rightarrow> time \<Rightarrow> string" where
  "weak_version fmt t = ''W/\"'' @ fmt t @ ''\"''"

definition enterprise :: "Collaborator \<Rightarrow> Team option \<Rightarrow> Collaborator option \<Rightarrow> SCIMEnterprise" where
  "enterprise c primaryTeam manager =
     (let e = co_employment c; number = firstMapString e [''employee_number'', ''employee_id'', ''directory_id'', ''id''] in
      \<lparr>ent_number = (if number = [] then co_slug c else number),
       ent_department = firstNonEmptyMapString e (teamSlug primaryTeam) [''department''],
       ent_cost_center = stringFromMap e ''cost_center'', ent_organization = stringFromMap e ''organization'',
       ent_division = stringFromMap e ''division'', ent_manager = managerRef manager\<rparr>)"

definition MapCollaboratorToSCIMUser ::
  "(time \<Rightarrow> string) \<Rightarrow> Collaborator \<Rightarrow> login_identity option \<Rightarrow> Team option \<Rightarrow> Collaborator option \<Rightarrow> SCIMUser" where
  "MapCollaboratorToSCIMUser fmt c ai primaryTeam manager =
     (let displayName = collaboratorDisplayName c in
      \<lparr>usr_schemas = [''urn:ietf:params:scim:schemas:core:2.0:User'', ''urn:ietf:params:scim:schemas:extension:enterprise:2.0:User''],
       usr_id = co_id c, usr_external = co_slug c, usr_name = primaryUserName c ai, usr_names = collaboratorSCIMName c displayName,
       usr_display = displayName, usr_title = firstMapString (co_employment c) [''title'', ''role''],
       usr_type = stringFromMap (co_employment c) ''role'', usr_active = status_signs_in c,
       usr_emails = [\<lparr>eml_value = co_email c, eml_type = ''work'', eml_primary = True\<rparr>], usr_photos = scimPhotos c,
       usr_enterprise = enterprise c primaryTeam manager,
       usr_meta = \<lparr>rm_type = ''User'', rm_created = co_created c, rm_modified = maxTime (co_updated c) (identityUpdatedAt ai),
         rm_location = ''/scim/v2/Users/'' @ co_id c, rm_version = weak_version fmt (co_updated c)\<rparr>\<rparr>)"

definition group_member :: "Collaborator \<Rightarrow> SCIMGroupMember" where
  "group_member m = \<lparr>gm_value = co_id m, gm_display = co_display_name m, gm_type = ''User'', gm_ref = ''/scim/v2/Users/'' @ co_id m\<rparr>"

definition MapTeamToSCIMGroup :: "(time \<Rightarrow> string) \<Rightarrow> Team \<Rightarrow> Collaborator list \<Rightarrow> SCIMGroup" where
  "MapTeamToSCIMGroup fmt t members =
     \<lparr>grp_schemas = [''urn:ietf:params:scim:schemas:core:2.0:Group''], grp_id = team_id t, grp_external = ''team:'' @ team_slug t,
      grp_display = team_name t, grp_members = map group_member members,
      grp_meta = \<lparr>rm_type = ''Group'', rm_created = team_created t, rm_modified = team_updated t,
        rm_location = ''/scim/v2/Groups/'' @ team_id t, rm_version = weak_version fmt (team_updated t)\<rparr>\<rparr>"

definition SyntheticRoleGroup :: "(time \<Rightarrow> string) \<Rightarrow> string \<Rightarrow> Collaborator list \<Rightarrow> time \<Rightarrow> SCIMGroup" where
  "SyntheticRoleGroup fmt roleName members modified =
     \<lparr>grp_schemas = [''urn:ietf:params:scim:schemas:core:2.0:Group''], grp_id = ''role-'' @ roleName, grp_external = ''role:'' @ roleName,
      grp_display = ''Role: '' @ roleName, grp_members = map group_member members,
      grp_meta = \<lparr>rm_type = ''Group'', rm_created = zeroTime, rm_modified = modified,
        rm_location = ''/scim/v2/Groups/role-'' @ roleName, rm_version = weak_version fmt modified\<rparr>\<rparr>"

section \<open>Bearer credentials\<close>

datatype client_error = ClientSlugRequired | ClientHashRequired | ClientConflict | ErrSCIMClientNotFound

definition default_permissions :: "(string \<times> string) list" where
  "default_permissions = [(''users'', ''read''), (''groups'', ''read'')]"

text \<open>A row is inserted at the end; the slug and the hash are unique columns of the table.\<close>

definition CreateSCIMClient ::
  "string \<Rightarrow> time \<Rightarrow> SCIMClient list \<Rightarrow> string \<Rightarrow> string \<Rightarrow> (string \<times> string) list option \<Rightarrow> time option \<Rightarrow> client_error + SCIMClient \<times> SCIMClient list" where
  "CreateSCIMClient new_id now cs slug bearerHash permissions expiresAt =
     (if slug = [] then Inl ClientSlugRequired
      else if bearerHash = [] then Inl ClientHashRequired
      else if slug \<in> scl_slug ` set cs \<or> bearerHash \<in> scl_hash ` set cs then Inl ClientConflict
      else let c = \<lparr>scl_id = new_id, scl_slug = slug, scl_hash = bearerHash,
              scl_permissions = (case permissions of None \<Rightarrow> default_permissions | Some p \<Rightarrow> p), scl_last_used = None, scl_expires = expiresAt,
              scl_revoked = None, scl_metadata = [], scl_created = now, scl_updated = now\<rparr>
           in Inr (c, cs @ [c]))"

definition usable_client :: "time \<Rightarrow> string \<Rightarrow> SCIMClient \<Rightarrow> bool" where
  "usable_client now h c \<longleftrightarrow> scl_hash c = h \<and> scl_revoked c = None \<and> (case scl_expires c of None \<Rightarrow> True | Some t \<Rightarrow> now < t)"

definition used :: "time \<Rightarrow> SCIMClient \<Rightarrow> SCIMClient" where
  "used now c = c\<lparr>scl_last_used := Some now, scl_updated := now\<rparr>"

definition GetSCIMClientByBearerHash :: "time \<Rightarrow> SCIMClient list \<Rightarrow> string \<Rightarrow> client_error + SCIMClient \<times> SCIMClient list" where
  "GetSCIMClientByBearerHash now cs h =
     (case find (usable_client now h) cs of
        None \<Rightarrow> Inl ErrSCIMClientNotFound
      | Some c \<Rightarrow> Inr (used now c, map (\<lambda>d. if usable_client now h d then used now d else d) cs))"

definition GetSCIMClientBySlug :: "SCIMClient list \<Rightarrow> string \<Rightarrow> client_error + SCIMClient" where
  "GetSCIMClientBySlug cs slug = (case find (\<lambda>c. scl_slug c = slug) cs of None \<Rightarrow> Inl ErrSCIMClientNotFound | Some c \<Rightarrow> Inr c)"

definition ListSCIMClients :: "SCIMClient list \<Rightarrow> bool \<Rightarrow> SCIMClient list" where
  "ListSCIMClients cs includeRevoked = sort_key scl_slug (filter (\<lambda>c. includeRevoked \<or> scl_revoked c = None) cs)"

definition RevokeSCIMClient :: "time \<Rightarrow> SCIMClient list \<Rightarrow> string \<Rightarrow> client_error + SCIMClient list" where
  "RevokeSCIMClient now cs slug =
     (if list_ex (\<lambda>c. scl_slug c = slug \<and> scl_revoked c = None) cs
      then Inr (map (\<lambda>c. if scl_slug c = slug \<and> scl_revoked c = None then c\<lparr>scl_revoked := Some now, scl_updated := now\<rparr> else c) cs)
      else Inl ErrSCIMClientNotFound)"

definition HashBearer :: "(string \<Rightarrow> string) \<Rightarrow> string \<Rightarrow> string" where
  "HashBearer sha raw = sha (TrimSpace raw)"

definition extractBearer :: "string \<Rightarrow> string option" where
  "extractBearer header =
     (case SplitN CHR '' '' 2 header of
        [scheme, rest] \<Rightarrow> if EqualFold scheme ''Bearer'' \<and> TrimSpace rest \<noteq> [] then Some (TrimSpace rest) else None
      | _ \<Rightarrow> None)"

text \<open>The lifetime of a credential: a number of hours as a \<open>time.Duration\<close>, a 64-bit count of nanoseconds.\<close>

definition ttl_duration :: "int \<Rightarrow> int" where
  "ttl_duration hours = sint (word_of_int hours * word_of_int 3600000000000 :: 64 word)"

record scimClientCreateRequest =
  sreq_slug :: string
  sreq_permissions :: "(string \<times> string) list option"
  sreq_ttl :: int

datatype admin_response = AdminRefused | SlugRequired | AdminError client_error | ClientCreated string string "time option"

definition handleSCIMClientCreate ::
  "(string \<Rightarrow> string) \<Rightarrow> bool \<Rightarrow> string \<Rightarrow> string \<Rightarrow> time \<Rightarrow> scimClientCreateRequest \<Rightarrow> SCIMClient list \<Rightarrow> admin_response \<times> SCIMClient list" where
  "handleSCIMClientCreate sha authorized new_id token now req cs =
     (if \<not> authorized then (AdminRefused, cs)
      else if sreq_slug req = [] then (SlugRequired, cs)
      else let permissions = (case sreq_permissions req of None \<Rightarrow> default_permissions | Some p \<Rightarrow> p);
               expiresAt = (if 0 < sreq_ttl req then Some (now + ttl_duration (sreq_ttl req)) else None) in
        case CreateSCIMClient new_id now cs (sreq_slug req) (sha token) (Some permissions) expiresAt of
          Inl e \<Rightarrow> (AdminError e, cs)
        | Inr (c, cs') \<Rightarrow> (ClientCreated (scl_slug c) token (scl_expires c), cs'))"

text \<open>The listing of credentials: slug, permissions, creation, last use, expiry and revocation, never a hash.\<close>

type_synonym client_summary = "string \<times> (string \<times> string) list \<times> time \<times> time option \<times> time option \<times> time option"

definition handleSCIMClientList :: "bool \<Rightarrow> string \<Rightarrow> SCIMClient list \<Rightarrow> client_summary list option" where
  "handleSCIMClientList authorized include_revoked cs =
     (if \<not> authorized then None
      else Some (map (\<lambda>c. (scl_slug c, scl_permissions c, scl_created c, scl_last_used c, scl_expires c, scl_revoked c))
        (ListSCIMClients cs (include_revoked = ''true''))))"

section \<open>Handlers\<close>

record scim_state =
  sd_db :: identity_db
  sd_logins :: "(string \<times> login_identity) list"
  sd_clients :: "SCIMClient list"

record scim_query =
  q_filter :: string
  q_start :: string
  q_count :: string

datatype scim_response =
    Unauthorized
  | ReadOnlyError
  | SCIMError int string string
  | UserList "SCIMUser SCIMListResponse"
  | UserDoc SCIMUser
  | GroupList "SCIMGroup SCIMListResponse"
  | GroupDoc SCIMGroup
  | StaticDoc gval
  | RouteNotFound
  | MethodNotAllowed

text \<open>The listings with an empty request.\<close>

definition ListCollaborators :: "identity_db \<Rightarrow> Collaborator list" where
  "ListCollaborators db = sort_key co_display_name (sort_key co_slug (db_people db))"

definition ListTeams :: "identity_db \<Rightarrow> Team list" where
  "ListTeams db = sort_key team_name (sort_key team_slug (db_teams db))"

text \<open>The listing with a team and \<open>ActiveOnly\<close>: the memberships of the team that are marked active, in the order of the slugs of
  their collaborators.\<close>

definition ListTeamMemberships :: "(string \<Rightarrow> string option) \<Rightarrow> identity_db \<Rightarrow> string \<Rightarrow> identity_error + TeamMembership list" where
  "ListTeamMemberships uuid db teamID =
     (case getTeamOn uuid db teamID of Inl e \<Rightarrow> Inl e
      | Inr t \<Rightarrow> Inr (map fst (sort_key snd
          (concat (map (\<lambda>m. map (\<lambda>c. (m, co_slug c)) (filter (\<lambda>c. co_id c = mb_collaborator m) (db_people db)))
            (filter (\<lambda>m. mb_team m = team_id t \<and> mb_active m) (db_members db)))))))"

fun found_collaborators :: "(string \<Rightarrow> string option) \<Rightarrow> identity_db \<Rightarrow> string list \<Rightarrow> Collaborator list" where
  "found_collaborators uuid db [] = []"
| "found_collaborators uuid db (i # is) =
     (case getCollaboratorOn uuid db i of Inl _ \<Rightarrow> found_collaborators uuid db is
      | Inr c \<Rightarrow> c # found_collaborators uuid db is)"

definition teamMembers :: "(string \<Rightarrow> string option) \<Rightarrow> identity_db \<Rightarrow> string \<Rightarrow> Collaborator list" where
  "teamMembers uuid db teamID =
     (case ListTeamMemberships uuid db teamID of Inl _ \<Rightarrow> [] | Inr ms \<Rightarrow> found_collaborators uuid db (map mb_collaborator ms))"

definition userRelations :: "(string \<Rightarrow> string option) \<Rightarrow> identity_db \<Rightarrow> Collaborator \<Rightarrow> Team option \<times> Collaborator option" where
  "userRelations uuid db c =
     ((case co_primary_team c of None \<Rightarrow> None | Some i \<Rightarrow> (case getTeamOn uuid db i of Inl _ \<Rightarrow> None | Inr t \<Rightarrow> Some t)),
      (case co_manager c of None \<Rightarrow> None | Some i \<Rightarrow> (case getCollaboratorOn uuid db i of Inl _ \<Rightarrow> None | Inr m \<Rightarrow> Some m)))"

text \<open>The handlers drop the error of this lookup and pass on a pointer to its result, which is then the zero value.\<close>

definition login_of :: "scim_state \<Rightarrow> string \<Rightarrow> login_identity" where
  "login_of st cid = (case map_of (sd_logins st) cid of None \<Rightarrow> \<lparr>li_username = [], li_updated = zeroTime\<rparr> | Some a \<Rightarrow> a)"

definition scim_user :: "(string \<Rightarrow> string option) \<Rightarrow> (time \<Rightarrow> string) \<Rightarrow> scim_state \<Rightarrow> Collaborator \<Rightarrow> SCIMUser" where
  "scim_user uuid fmt st c =
     (case userRelations uuid (sd_db st) c of
        (primaryTeam, manager) \<Rightarrow> MapCollaboratorToSCIMUser fmt c (Some (login_of st (co_id c))) primaryTeam manager)"

definition parsePagination :: "string \<Rightarrow> int \<Rightarrow> int" where
  "parsePagination raw d = (if raw = [] then d else case Atoi raw of None \<Rightarrow> d | Some n \<Rightarrow> if n \<le> 0 then d else n)"

definition page_from :: "int \<Rightarrow> int \<Rightarrow> int" where
  "page_from startIndex totalN = (let from = (if startIndex - 1 < 0 then 0 else startIndex - 1) in if from > totalN then totalN else from)"

definition page_to :: "int \<Rightarrow> int \<Rightarrow> int \<Rightarrow> int" where
  "page_to from count totalN = (if from + count > totalN then totalN else from + count)"

definition list_schemas :: "string list" where
  "list_schemas = [''urn:ietf:params:scim:api:messages:2.0:ListResponse'']"

definition handleListUsers :: "(string \<Rightarrow> string option) \<Rightarrow> (time \<Rightarrow> string) \<Rightarrow> scim_state \<Rightarrow> scim_query \<Rightarrow> scim_response" where
  "handleListUsers uuid fmt st q =
     (case ParseFilter (q_filter q) of
        Inl _ \<Rightarrow> SCIMError 400 ''invalidFilter'' ''unsupported scim filter''
      | Inr f \<Rightarrow>
          let startIndex = parsePagination (q_start q) 1;
              count = (let n = parsePagination (q_count q) 100 in if n > 200 then 200 else n);
              matched = filterCollaborators (ListCollaborators (sd_db st)) f;
              totalN = int (length matched);
              from = page_from startIndex totalN;
              to = page_to from count totalN;
              resources = map (scim_user uuid fmt st) (take (nat (to - from)) (drop (nat from) matched))
          in UserList \<lparr>lr_schemas = list_schemas, lr_total = totalN, lr_start = startIndex,
               lr_per_page = int (length resources), lr_resources = resources\<rparr>)"

definition handleGetUser :: "(string \<Rightarrow> string option) \<Rightarrow> (time \<Rightarrow> string) \<Rightarrow> scim_state \<Rightarrow> string \<Rightarrow> scim_response" where
  "handleGetUser uuid fmt st i =
     (case getCollaboratorOn uuid (sd_db st) i of
        Inl _ \<Rightarrow> SCIMError 404 ''notFound'' (''user '' @ i @ '' not found'')
      | Inr c \<Rightarrow> UserDoc (scim_user uuid fmt st c))"

definition scim_group :: "(string \<Rightarrow> string option) \<Rightarrow> (time \<Rightarrow> string) \<Rightarrow> scim_state \<Rightarrow> Team \<Rightarrow> SCIMGroup" where
  "scim_group uuid fmt st t = MapTeamToSCIMGroup fmt t (teamMembers uuid (sd_db st) (team_id t))"

definition handleListGroups :: "(string \<Rightarrow> string option) \<Rightarrow> (time \<Rightarrow> string) \<Rightarrow> scim_state \<Rightarrow> scim_query \<Rightarrow> scim_response" where
  "handleListGroups uuid fmt st q =
     (case ParseFilter (q_filter q) of
        Inl _ \<Rightarrow> SCIMError 400 ''invalidFilter'' ''unsupported scim filter''
      | Inr f \<Rightarrow>
          let resources = map (scim_group uuid fmt st) (filter (\<lambda>t. matchGroup t f) (ListTeams (sd_db st)))
          in GroupList \<lparr>lr_schemas = list_schemas, lr_total = int (length resources), lr_start = 1,
               lr_per_page = int (length resources), lr_resources = resources\<rparr>)"

definition handleGetGroup :: "(string \<Rightarrow> string option) \<Rightarrow> (time \<Rightarrow> string) \<Rightarrow> scim_state \<Rightarrow> string \<Rightarrow> scim_response" where
  "handleGetGroup uuid fmt st i =
     (case getTeamOn uuid (sd_db st) i of
        Inl _ \<Rightarrow> SCIMError 404 ''notFound'' (''group '' @ i @ '' not found'')
      | Inr t \<Rightarrow> GroupDoc (scim_group uuid fmt st t))"

definition handleSchemas :: gval where
  "handleSchemas = GMap [(''schemas'', GStrs list_schemas), (''totalResults'', GInt 3), (''Resources'', GMaps
     [[(''id'', GStr ''urn:ietf:params:scim:schemas:core:2.0:User''), (''name'', GStr ''User'')],
      [(''id'', GStr ''urn:ietf:params:scim:schemas:core:2.0:Group''), (''name'', GStr ''Group'')],
      [(''id'', GStr ''urn:ietf:params:scim:schemas:extension:enterprise:2.0:User''), (''name'', GStr ''EnterpriseUser'')]])]"

definition handleServiceProviderConfig :: gval where
  "handleServiceProviderConfig =
     (let unsupported = GMap [(''supported'', GBool False)] in
      GMap [(''schemas'', GStrs [''urn:ietf:params:scim:schemas:core:2.0:ServiceProviderConfig'']),
        (''documentationUri'', GStr ''https://docs.dakasa.me/yggdrasil/auth/scim''), (''patch'', unsupported),
        (''bulk'', GMap [(''supported'', GBool False), (''maxOperations'', GInt 0), (''maxPayloadSize'', GInt 0)]),
        (''filter'', GMap [(''supported'', GBool True), (''maxResults'', GInt 200)]), (''changePassword'', unsupported),
        (''sort'', unsupported), (''etag'', GMap [(''supported'', GBool True)]),
        (''authenticationSchemes'', GMaps
          [[(''type'', GStr ''oauthbearertoken''), (''name'', GStr ''OAuth Bearer Token''), (''primary'', GBool True)]])])"

definition handleResourceTypes :: gval where
  "handleResourceTypes = GMap [(''schemas'', GStrs list_schemas), (''totalResults'', GInt 2), (''Resources'', GMaps
     [[(''id'', GStr ''User''), (''name'', GStr ''User''), (''endpoint'', GStr ''/Users''),
       (''schema'', GStr ''urn:ietf:params:scim:schemas:core:2.0:User'')],
      [(''id'', GStr ''Group''), (''name'', GStr ''Group''), (''endpoint'', GStr ''/Groups''),
       (''schema'', GStr ''urn:ietf:params:scim:schemas:core:2.0:Group'')]])]"

section \<open>Routes and middleware\<close>

definition upper_char :: "char \<Rightarrow> char" where
  "upper_char c = (if CHR ''a'' \<le> c \<and> c \<le> CHR ''z'' then char_of ((of_char c :: nat) - 32) else c)"

definition isSCIMSearch :: "string \<Rightarrow> bool" where
  "isSCIMSearch path \<longleftrightarrow>
     (let trimmed = rev (dropWhile (\<lambda>c. c = CHR ''/'') (rev path)) in trimmed = ''/scim/v2/.search'' \<or> HasSuffix trimmed ''/.search'')"

definition isMutating :: "string \<Rightarrow> string \<Rightarrow> bool" where
  "isMutating httpMethod path \<longleftrightarrow>
     (let m = map upper_char httpMethod in
      if m = ''PUT'' \<or> m = ''PATCH'' \<or> m = ''DELETE'' then True
      else if m = ''POST'' then \<not> isSCIMSearch path else False)"

datatype scim_route = RUsers | RUser string | RGroups | RGroup string | RSchemas | RConfig | RTypes

definition scim_route_of :: "string \<Rightarrow> scim_route option" where
  "scim_route_of path =
     (case Split CHR ''/'' path of
        [rt, a, b, r] \<Rightarrow>
          if rt = [] \<and> a = ''scim'' \<and> b = ''v2'' then
            map_of [(''Users'', RUsers), (''Groups'', RGroups), (''Schemas'', RSchemas), (''ServiceProviderConfig'', RConfig),
              (''ResourceTypes'', RTypes)] r
          else None
      | [rt, a, b, r, i] \<Rightarrow>
          if rt = [] \<and> a = ''scim'' \<and> b = ''v2'' \<and> i \<noteq> [] then
            if r = ''Users'' then Some (RUser i) else if r = ''Groups'' then Some (RGroup i) else None
          else None
      | _ \<Rightarrow> None)"

text \<open>A pattern of the method GET also serves HEAD; another method on a known path is refused.\<close>

definition RegisterRoutes ::
  "(string \<Rightarrow> string option) \<Rightarrow> (time \<Rightarrow> string) \<Rightarrow> scim_state \<Rightarrow> string \<Rightarrow> string \<Rightarrow> scim_query \<Rightarrow> scim_response" where
  "RegisterRoutes uuid fmt st httpMethod path q =
     (case scim_route_of path of
        None \<Rightarrow> RouteNotFound
      | Some r \<Rightarrow>
          if httpMethod \<noteq> ''GET'' \<and> httpMethod \<noteq> ''HEAD'' then MethodNotAllowed
          else case r of
              RUsers \<Rightarrow> handleListUsers uuid fmt st q
            | RUser i \<Rightarrow> handleGetUser uuid fmt st i
            | RGroups \<Rightarrow> handleListGroups uuid fmt st q
            | RGroup i \<Rightarrow> handleGetGroup uuid fmt st i
            | RSchemas \<Rightarrow> StaticDoc handleSchemas
            | RConfig \<Rightarrow> StaticDoc handleServiceProviderConfig
            | RTypes \<Rightarrow> StaticDoc handleResourceTypes)"

record scim_request =
  rq_method :: string
  rq_path :: string
  rq_auth :: string
  rq_query :: scim_query

text \<open>The chain of the middleware and the routes.\<close>

definition ReadOnlyGuard :: "(string \<Rightarrow> string option) \<Rightarrow> (time \<Rightarrow> string) \<Rightarrow> scim_state \<Rightarrow> scim_request \<Rightarrow> scim_response" where
  "ReadOnlyGuard uuid fmt st r =
     (if isMutating (rq_method r) (rq_path r) then ReadOnlyError else RegisterRoutes uuid fmt st (rq_method r) (rq_path r) (rq_query r))"

definition BearerAuth ::
  "(string \<Rightarrow> string) \<Rightarrow> (string \<Rightarrow> string option) \<Rightarrow> (time \<Rightarrow> string) \<Rightarrow> time \<Rightarrow> scim_request \<Rightarrow> scim_state \<Rightarrow> scim_response \<times> scim_state" where
  "BearerAuth sha uuid fmt now r st =
     (case extractBearer (rq_auth r) of
        None \<Rightarrow> (Unauthorized, st)
      | Some raw \<Rightarrow>
          (case GetSCIMClientByBearerHash now (sd_clients st) (HashBearer sha raw) of
             Inl _ \<Rightarrow> (Unauthorized, st)
           | Inr (_, cs) \<Rightarrow> (ReadOnlyGuard uuid fmt (st\<lparr>sd_clients := cs\<rparr>) r, st\<lparr>sd_clients := cs\<rparr>)))"

end
