(* ===== verification/Scim_Access.thy ===== *)
theory Scim_Access
  imports Scim_Directory
begin

text \<open>
  What the SCIM endpoints promise: the pages of a listing are the matching users, each once; a revoked credential is never
  served again; nothing is written but the time of use; the lifetime of a credential; and where the projection, the filters and the
  permissions disagree.
\<close>

section \<open>Pages\<close>

definition page_query :: "string \<Rightarrow> nat \<Rightarrow> nat \<Rightarrow> scim_query" where
  "page_query flt n k = \<lparr>q_filter = flt, q_start = Itoa (1 + int (k * n)), q_count = Itoa (int n)\<rparr>"

text \<open>A client that reads page after page until the pages it has asked for cover the total that the last answer reported;
  \<^term>\<open>None\<close> when an answer is not a list of users or the fuel is used up.\<close>

fun client_users :: "nat \<Rightarrow> (string \<Rightarrow> string option) \<Rightarrow> (time \<Rightarrow> string) \<Rightarrow> scim_state \<Rightarrow> string \<Rightarrow> nat \<Rightarrow> nat \<Rightarrow> SCIMUser list option" where
  "client_users 0 uuid fmt st flt n k = None"
| "client_users (Suc fuel) uuid fmt st flt n k =
     (case handleListUsers uuid fmt st (page_query flt n k) of
        UserList l \<Rightarrow>
          if lr_total l \<le> int (Suc k * n) then Some (lr_resources l)
          else map_option (\<lambda>us. lr_resources l @ us) (client_users fuel uuid fmt st flt n (Suc k))
      | _ \<Rightarrow> None)"

lemma Itoa_nonempty: "Itoa i \<noteq> []"
  using nat_digits_val [of "nat i"] by (simp add: Itoa_def)

lemma parsePagination_Itoa: "0 < i \<Longrightarrow> i < 2 ^ 63 \<Longrightarrow> parsePagination (Itoa i) d = i"
  by (simp add: parsePagination_def Itoa_nonempty Atoi_Itoa)

text \<open>The slice bounds of a page are in range, whatever the query asks for.\<close>

lemma page_bounds:
  assumes "0 \<le> t" and "0 < c"
  shows "0 \<le> page_from s t" "page_from s t \<le> page_to (page_from s t) c t" "page_to (page_from s t) c t \<le> t"
    "page_to (page_from s t) c t - page_from s t \<le> c"
  using assms by (auto simp: page_from_def page_to_def Let_def)

lemma page_slice:
  "take (nat (page_to (page_from (1 + int j) (int (length xs))) (int n) (int (length xs)) - page_from (1 + int j) (int (length xs))))
     (drop (nat (page_from (1 + int j) (int (length xs)))) xs) = take n (drop j xs)"
proof (cases "j \<le> length xs")
  case True
  then have f: "page_from (1 + int j) (int (length xs)) = int j" by (simp add: page_from_def)
  show ?thesis
  proof (cases "j + n \<le> length xs")
    case True
    then have "page_to (int j) (int n) (int (length xs)) = int j + int n" by (simp add: page_to_def)
    then show ?thesis unfolding f by simp
  next
    case False
    then have "page_to (int j) (int n) (int (length xs)) = int (length xs)" by (simp add: page_to_def)
    then show ?thesis unfolding f using False True by (simp flip: of_nat_diff)
  qed
next
  case False
  then have "page_from (1 + int j) (int (length xs)) = int (length xs)" by (simp add: page_from_def)
  then show ?thesis using False by simp
qed

lemma page_resources:
  assumes "ParseFilter flt = Inr f" and "0 < n" "n \<le> 200" and "1 + int (k * n) < 2 ^ 63"
  shows "\<exists>l. handleListUsers uuid fmt st (page_query flt n k) = UserList l \<and>
    lr_total l = int (length (filter (\<lambda>c. matchUser c f) (ListCollaborators (sd_db st)))) \<and>
    lr_resources l = map (scim_user uuid fmt st) (take n (drop (k * n) (filter (\<lambda>c. matchUser c f) (ListCollaborators (sd_db st)))))"
proof -
  have s: "parsePagination (Itoa (1 + int (k * n))) 1 = 1 + int (k * n)" using assms(4) by (intro parsePagination_Itoa) linarith+
  have c: "parsePagination (Itoa (int n)) 100 = int n" using assms(2,3) by (intro parsePagination_Itoa) simp_all
  have "\<not> 200 < int n" using assms(3) by simp
  then show ?thesis
    by (simp only: handleListUsers_def page_query_def scim_query.simps s c assms(1) sum.case Let_def if_False
        filterCollaborators_filter page_slice scim_response.inject SCIMListResponse.simps) auto
qed

lemma client_users_from:
  assumes "ParseFilter flt = Inr f" and "0 < n" "n \<le> 200"
    and xs: "xs = filter (\<lambda>c. matchUser c f) (ListCollaborators (sd_db st))" and "1 + int (length xs + n) < 2 ^ 63"
  shows "k * n \<le> length xs \<Longrightarrow> length xs - k * n < fuel \<Longrightarrow>
    client_users fuel uuid fmt st flt n k = Some (map (scim_user uuid fmt st) (drop (k * n) xs))"
proof (induction fuel arbitrary: k)
  case (Suc fuel)
  have "1 + int (k * n) < 2 ^ 63" using assms(5) Suc.prems(1) by linarith
  from page_resources [OF assms(1-3) this, of uuid fmt st, folded xs] obtain l where
    l: "handleListUsers uuid fmt st (page_query flt n k) = UserList l" "lr_total l = int (length xs)"
      "lr_resources l = map (scim_user uuid fmt st) (take n (drop (k * n) xs))" by blast
  show ?case
  proof (cases "length xs \<le> Suc k * n")
    case True
    then have "lr_total l \<le> int (Suc k * n)" unfolding l(2) by (simp only: of_nat_le_iff)
    moreover have "take n (drop (k * n) xs) = drop (k * n) xs" using True by (intro take_all) simp
    ultimately show ?thesis using l(1,3) by (simp del: mult_Suc of_nat_mult)
  next
    case False
    then have "client_users fuel uuid fmt st flt n (Suc k) = Some (map (scim_user uuid fmt st) (drop (Suc k * n) xs))"
      using Suc.prems(2) assms(2) by (intro Suc.IH) auto
    moreover have "drop (Suc k * n) xs = drop n (drop (k * n) xs)" by (simp add: add.commute)
    moreover have "\<not> lr_total l \<le> int (Suc k * n)" unfolding l(2) using False by (simp only: of_nat_le_iff) simp
    ultimately show ?thesis using l(1,3) by (simp del: drop_drop mult_Suc flip: map_append)
  qed
qed simp

text \<open>C25: The pages of a user listing are complete and disjoint, and the reported total leads a client to their end. For every filter that is
  accepted, every page size up to the maximum of 200 and positions within the range of \<open>int64\<close>, every page reports as its total the number of users that match the filter, and a client that
  counts up by the page size and stops as soon as its pages cover the total of the last answer gets together the users that match the filter, in the
  order of the directory, each exactly once; as many pages as there are matching users, and one, are enough for it.\<close>
theorem user_pages_complete:
  assumes "ParseFilter flt = Inr f" and "0 < n" and "n \<le> 200" and "xs = filter (\<lambda>c. matchUser c f) (ListCollaborators (sd_db st))"
    and "1 + int (length xs + n) < 2 ^ 63"
  shows "client_users (Suc (length xs)) uuid fmt st flt n 0 = Some (map (scim_user uuid fmt st) xs) \<and>
    (\<forall>k. 1 + int (k * n) < 2 ^ 63 \<longrightarrow> (\<exists>l. handleListUsers uuid fmt st (page_query flt n k) = UserList l \<and> lr_total l = int (length xs)))"
  using client_users_from [OF assms, of 0 "Suc (length xs)" uuid fmt] page_resources [OF assms(1-3), of _ uuid fmt st, folded assms(4)] by auto

section \<open>Credentials\<close>

datatype scim_op =
    OpCreate bool string string time scimClientCreateRequest
  | OpRevoke time string
  | OpRequest time scim_request
  | OpDirectory identity_db "(string \<times> login_identity) list"

text \<open>A step of the service: the registration of a client with a drawn identifier and token, a revocation, a request, or any change
  of the directory by the other components.\<close>

fun scim_step :: "(string \<Rightarrow> string) \<Rightarrow> (string \<Rightarrow> string option) \<Rightarrow> (time \<Rightarrow> string) \<Rightarrow> scim_state \<Rightarrow> scim_op \<Rightarrow> scim_state" where
  "scim_step sha uuid fmt st (OpCreate authorized i token now req) =
     st\<lparr>sd_clients := snd (handleSCIMClientCreate sha authorized i token now req (sd_clients st))\<rparr>"
| "scim_step sha uuid fmt st (OpRevoke now slug) =
     (case RevokeSCIMClient now (sd_clients st) slug of Inl _ \<Rightarrow> st | Inr cs \<Rightarrow> st\<lparr>sd_clients := cs\<rparr>)"
| "scim_step sha uuid fmt st (OpRequest now r) = snd (BearerAuth sha uuid fmt now r st)"
| "scim_step sha uuid fmt st (OpDirectory db logins) = st\<lparr>sd_db := db, sd_logins := logins\<rparr>"

definition scim_run :: "(string \<Rightarrow> string) \<Rightarrow> (string \<Rightarrow> string option) \<Rightarrow> (time \<Rightarrow> string) \<Rightarrow> scim_op list \<Rightarrow> scim_state \<Rightarrow> scim_state" where
  "scim_run sha uuid fmt ops st = foldl (scim_step sha uuid fmt) st ops"

lemma scim_run_simps [simp]:
  "scim_run sha uuid fmt [] st = st"
  "scim_run sha uuid fmt (op # ops) st = scim_run sha uuid fmt ops (scim_step sha uuid fmt st op)"
  by (simp_all add: scim_run_def)

text \<open>How a step changes the table of clients: it appends a client with a new hash, or rewrites rows in place and keeps their hashes
  and whatever was revoked.\<close>

definition client_kept :: "SCIMClient \<Rightarrow> SCIMClient \<Rightarrow> bool" where
  "client_kept c d \<longleftrightarrow> scl_hash d = scl_hash c \<and> scl_slug d = scl_slug c \<and> (scl_revoked c \<noteq> None \<longrightarrow> scl_revoked d \<noteq> None)"

lemma clients_after_step:
  "(\<exists>d. sd_clients (scim_step sha uuid fmt st op) = sd_clients st @ [d] \<and> scl_hash d \<notin> scl_hash ` set (sd_clients st)) \<or>
   list_all2 client_kept (sd_clients st) (sd_clients (scim_step sha uuid fmt st op))"
proof (cases op)
  case (OpCreate a i token now req)
  show ?thesis
  proof (cases "snd (handleSCIMClientCreate sha a i token now req (sd_clients st)) = sd_clients st")
    case True
    then show ?thesis by (simp add: OpCreate list_all2_refl client_kept_def)
  next
    case False
    then show ?thesis
      by (auto simp: OpCreate handleSCIMClientCreate_def CreateSCIMClient_def Let_def split: if_splits sum.splits)
  qed
next
  case (OpRevoke now slug)
  then show ?thesis by (auto simp: RevokeSCIMClient_def client_kept_def list_all2_conv_all_nth split: sum.splits)
next
  case (OpRequest now r)
  then show ?thesis
    by (auto simp: BearerAuth_def GetSCIMClientByBearerHash_def client_kept_def used_def list_all2_conv_all_nth split: option.splits)
qed (simp add: list_all2_refl client_kept_def)

lemma list_all2_map_eq: "list_all2 R xs ys \<Longrightarrow> (\<And>x y. R x y \<Longrightarrow> f y = f x) \<Longrightarrow> map f ys = map f xs"
  by (induction rule: list_all2_induct) auto

lemma hashes_distinct: "distinct (map scl_hash (sd_clients st)) \<Longrightarrow> distinct (map scl_hash (sd_clients (scim_run sha uuid fmt ops st)))"
proof (induction ops arbitrary: st)
  case (Cons op ops)
  have "distinct (map scl_hash (sd_clients (scim_step sha uuid fmt st op)))"
    using clients_after_step [of sha uuid fmt st op] Cons.prems list_all2_map_eq [of client_kept _ _ scl_hash]
    by (auto simp: client_kept_def)
  then show ?case by (simp add: Cons.IH)
qed simp

text \<open>A dead hash: a row has it, and every row that has it is revoked.\<close>

definition dead_hash :: "string \<Rightarrow> SCIMClient list \<Rightarrow> bool" where
  "dead_hash h cs \<longleftrightarrow> h \<in> scl_hash ` set cs \<and> (\<forall>c\<in>set cs. scl_hash c = h \<longrightarrow> scl_revoked c \<noteq> None)"

lemma dead_hash_step: "dead_hash h (sd_clients st) \<Longrightarrow> dead_hash h (sd_clients (scim_step sha uuid fmt st op))"
proof -
  assume d: "dead_hash h (sd_clients st)"
  from clients_after_step [of sha uuid fmt st op] show ?thesis
  proof
    assume k: "list_all2 client_kept (sd_clients st) (sd_clients (scim_step sha uuid fmt st op))"
    have "map scl_hash (sd_clients (scim_step sha uuid fmt st op)) = map scl_hash (sd_clients st)"
      using k by (rule list_all2_map_eq) (simp add: client_kept_def)
    then have "scl_hash ` set (sd_clients (scim_step sha uuid fmt st op)) = scl_hash ` set (sd_clients st)" by (metis list.set_map)
    moreover have "\<forall>c\<in>set (sd_clients (scim_step sha uuid fmt st op)). \<exists>b\<in>set (sd_clients st). client_kept b c"
      using k by (metis list_all2_conv_all_nth in_set_conv_nth)
    ultimately show ?thesis using d unfolding dead_hash_def client_kept_def by metis
  qed (use d in \<open>auto simp: dead_hash_def\<close>)
qed

lemma dead_hash_run: "dead_hash h (sd_clients st) \<Longrightarrow> dead_hash h (sd_clients (scim_run sha uuid fmt ops st))"
  by (induction ops arbitrary: st) (simp_all add: dead_hash_step)

lemma revoked_dead:
  assumes "distinct (map scl_hash cs)" and "c \<in> set cs" and "RevokeSCIMClient now cs (scl_slug c) = Inr cs'"
  shows "dead_hash (scl_hash c) cs'"
proof -
  let ?f = "\<lambda>d. if scl_slug d = scl_slug c \<and> scl_revoked d = None then d\<lparr>scl_revoked := Some now, scl_updated := now\<rparr> else d"
  have cs': "cs' = map ?f cs" using assms(3) by (auto simp: RevokeSCIMClient_def split: if_splits)
  have "scl_revoked d \<noteq> None" if "d \<in> set cs'" "scl_hash d = scl_hash c" for d
  proof -
    note d = that
    obtain b where b: "b \<in> set cs" "d = ?f b" using d(1) unfolding cs' set_map by blast
    then have "scl_hash b = scl_hash c" using d(2) by (simp split: if_splits)
    moreover have "inj_on scl_hash (set cs)" using assms(1) by (simp add: distinct_map)
    ultimately have "b = c" using b(1) assms(2) by (auto dest: inj_onD)
    then show ?thesis using b by auto
  qed
  moreover have "scl_hash ` set cs' = scl_hash ` set cs" unfolding cs' set_map image_image by (rule image_cong) auto
  then have "scl_hash c \<in> scl_hash ` set cs'" using assms(2) by simp
  ultimately show ?thesis by (simp add: dead_hash_def)
qed

lemma routes_authorized: "ReadOnlyGuard uuid fmt st r \<noteq> Unauthorized"
  by (auto simp: ReadOnlyGuard_def RegisterRoutes_def handleListUsers_def handleGetUser_def handleListGroups_def handleGetGroup_def Let_def
      split: option.splits sum.splits scim_route.splits)

lemma served_iff_usable:
  "fst (BearerAuth sha uuid fmt now r st) \<noteq> Unauthorized \<longleftrightarrow>
     (\<exists>raw. extractBearer (rq_auth r) = Some raw \<and> (\<exists>c\<in>set (sd_clients st). usable_client now (HashBearer sha raw) c))"
  by (auto simp: BearerAuth_def GetSCIMClientByBearerHash_def routes_authorized find_None_iff find_Some_iff split: option.splits)

lemma dead_hash_refused:
  "dead_hash (HashBearer sha raw) (sd_clients st) \<Longrightarrow> extractBearer (rq_auth r) = Some raw \<Longrightarrow> fst (BearerAuth sha uuid fmt now r st) = Unauthorized"
  using served_iff_usable [of sha uuid fmt now r st] by (auto simp: dead_hash_def usable_client_def)

text \<open>C24: A revoked SCIM credential is dead for good. Once a client of a service that started without clients has been revoked, a
  request that presents its token is refused after any sequence of further registrations, revocations, requests and changes of
  the directory, at any time.\<close>
theorem revoked_bearer_refused:
  assumes "st = scim_run sha uuid fmt ops (start\<lparr>sd_clients := []\<rparr>)" and "c \<in> set (sd_clients st)"
    and "RevokeSCIMClient t (sd_clients st) (scl_slug c) = Inr cs"
    and "extractBearer (rq_auth r) = Some raw" and "HashBearer sha raw = scl_hash c"
  shows "fst (BearerAuth sha uuid fmt now r (scim_run sha uuid fmt ops' (st\<lparr>sd_clients := cs\<rparr>))) = Unauthorized"
proof -
  have "distinct (map scl_hash (sd_clients st))" unfolding assms(1) by (rule hashes_distinct) simp
  then have "dead_hash (scl_hash c) cs" using assms(2,3) by (rule revoked_dead)
  then have "dead_hash (HashBearer sha raw) (sd_clients (scim_run sha uuid fmt ops' (st\<lparr>sd_clients := cs\<rparr>)))"
    by (intro dead_hash_run) (simp add: assms(5))
  then show ?thesis using assms(4) by (rule dead_hash_refused)
qed

definition ex_directory :: scim_state where
  "ex_directory = \<lparr>sd_db = \<lparr>db_people = [], db_teams = [], db_members = [], db_grants = []\<rparr>, sd_logins = [], sd_clients = []\<rparr>"

definition ex_client_op :: scim_op where
  "ex_client_op = OpCreate True ''i'' ''tok'' 0 \<lparr>sreq_slug = ''idp'', sreq_permissions = None, sreq_ttl = 0\<rparr>"

definition ex_client :: SCIMClient where
  "ex_client = \<lparr>scl_id = ''i'', scl_slug = ''idp'', scl_hash = ''tok'', scl_permissions = default_permissions, scl_last_used = None,
     scl_expires = None, scl_revoked = None, scl_metadata = [], scl_created = 0, scl_updated = 0\<rparr>"

definition ex_scim_request :: scim_request where
  "ex_scim_request = \<lparr>rq_method = ''GET'', rq_path = ''/scim/v2/Users'', rq_auth = ''Bearer tok'',
     rq_query = \<lparr>q_filter = [], q_start = [], q_count = []\<rparr>\<rparr>"

lemma ex_client_registered: "scim_run id Some (\<lambda>_. []) [ex_client_op] ex_directory = ex_directory\<lparr>sd_clients := [ex_client]\<rparr>"
  by (simp add: ex_client_op_def ex_directory_def ex_client_def handleSCIMClientCreate_def CreateSCIMClient_def default_permissions_def Let_def)

theorem revoked_bearer_refused_witness:
  "fst (BearerAuth id Some (\<lambda>_. []) 2 ex_scim_request
     (scim_run id Some (\<lambda>_. []) [OpRequest 1 ex_scim_request, ex_client_op]
       (scim_run id Some (\<lambda>_. []) [ex_client_op] ex_directory\<lparr>sd_clients := [ex_client\<lparr>scl_revoked := Some 1, scl_updated := 1\<rparr>]\<rparr>))) = Unauthorized"
proof (rule revoked_bearer_refused [where ops = "[ex_client_op]" and start = ex_directory and c = ex_client and t = 1 and raw = "''tok''"])
  show "scim_run id Some (\<lambda>_. []) [ex_client_op] ex_directory =
      scim_run id Some (\<lambda>_. []) [ex_client_op] (ex_directory\<lparr>sd_clients := []\<rparr>)" by (simp add: ex_directory_def)
  show "ex_client \<in> set (sd_clients (scim_run id Some (\<lambda>_. []) [ex_client_op] ex_directory))" by (simp only: ex_client_registered) simp
  show "RevokeSCIMClient 1 (sd_clients (scim_run id Some (\<lambda>_. []) [ex_client_op] ex_directory)) (scl_slug ex_client) =
      Inr [ex_client\<lparr>scl_revoked := Some 1, scl_updated := 1\<rparr>]"
    by (simp only: ex_client_registered) (simp add: RevokeSCIMClient_def ex_client_def)
  show "extractBearer (rq_auth ex_scim_request) = Some ''tok''" by code_simp
  have "TrimSpace ''tok'' = ''tok''" by code_simp
  then show "HashBearer id ''tok'' = scl_hash ex_client" by (simp add: HashBearer_def ex_client_def)
qed

definition ex_scim_person :: "string \<Rightarrow> Collaborator" where
  "ex_scim_person slug = \<lparr>co_id = slug, co_slug = slug, co_status = ''active'', co_display_name = slug, co_email = slug @ ''@example.org'',
     co_manager = None, co_primary_team = None, co_personal = [], co_employment = [], co_third_party = [], co_traits = [],
     co_metadata = [], co_version = 1, co_created = 0, co_updated = 0\<rparr>"

definition ex_people :: scim_state where
  "ex_people = ex_directory\<lparr>sd_db := \<lparr>db_people = [ex_scim_person ''ada'', ex_scim_person ''bob'', ex_scim_person ''eve''], db_teams = [], db_members = [], db_grants = []\<rparr>\<rparr>"

theorem user_pages_complete_witness:
  "client_users 4 Some (\<lambda>_. []) ex_people [] 2 0 = Some (map (scim_user Some (\<lambda>_. []) ex_people) [ex_scim_person ''ada'', ex_scim_person ''bob'', ex_scim_person ''eve''])"
proof -
  have xs: "filter (\<lambda>c. matchUser c None) (ListCollaborators (sd_db ex_people)) = [ex_scim_person ''ada'', ex_scim_person ''bob'', ex_scim_person ''eve'']"
    by code_simp
  have "ParseFilter [] = Inr None" by code_simp
  from conjunct1 [OF user_pages_complete [OF this _ _ xs [symmetric], of 2 Some "\<lambda>_. []"]]
  have "client_users (Suc (length [ex_scim_person ''ada'', ex_scim_person ''bob'', ex_scim_person ''eve''])) Some (\<lambda>_. []) ex_people [] 2 0 =
      Some (map (scim_user Some (\<lambda>_. []) ex_people) [ex_scim_person ''ada'', ex_scim_person ''bob'', ex_scim_person ''eve''])" by simp
  moreover have "Suc (length [ex_scim_person ''ada'', ex_scim_person ''bob'', ex_scim_person ''eve'']) = 4" by simp
  ultimately show ?thesis by argo
qed

text \<open>A request changes nothing but the time of use of the client that made it.\<close>

lemma request_writes_only_use:
  "snd (BearerAuth sha uuid fmt now r st) = st \<or>
   (\<exists>h. snd (BearerAuth sha uuid fmt now r st) =
      st\<lparr>sd_clients := map (\<lambda>d. if usable_client now h d then used now d else d) (sd_clients st)\<rparr>)"
  by (auto simp: BearerAuth_def GetSCIMClientByBearerHash_def split: option.splits)

text \<open>No request with another method than GET or HEAD reaches a resource: also a search by POST, which the guard lets through, finds
  no route of its method.\<close>

lemma only_reads_served:
  "rq_method r \<noteq> ''GET'' \<Longrightarrow> rq_method r \<noteq> ''HEAD'' \<Longrightarrow>
     fst (BearerAuth sha uuid fmt now r st) \<in> {Unauthorized, ReadOnlyError, RouteNotFound, MethodNotAllowed}"
  by (auto simp: BearerAuth_def ReadOnlyGuard_def RegisterRoutes_def split: option.splits sum.splits)

lemma search_by_post_refused:
  "isMutating ''POST'' ''/scim/v2/Users/.search'' = False"
  "RegisterRoutes uuid fmt st ''POST'' ''/scim/v2/Users/.search'' q = MethodNotAllowed"
proof -
  show "isMutating ''POST'' ''/scim/v2/Users/.search'' = False" by code_simp
  have "scim_route_of ''/scim/v2/Users/.search'' = Some (RUser ''.search'')" by code_simp
  then show "RegisterRoutes uuid fmt st ''POST'' ''/scim/v2/Users/.search'' q = MethodNotAllowed" by (simp add: RegisterRoutes_def)
qed

section \<open>Lifetimes\<close>

text \<open>Up to 2562047 hours the lifetime is exact; from there the product wraps, and one hour more is an expiry in the past.\<close>

lemma ttl_duration_exact:
  assumes "0 < h" and "h \<le> 2562047"
  shows "ttl_duration h = h * 3600000000000"
proof -
  have "(word_of_int h * word_of_int 3600000000000 :: 64 word) = word_of_int (h * 3600000000000)" by simp
  moreover have "- (2 ^ 63) \<le> h * 3600000000000" "h * 3600000000000 < 2 ^ 63" using assms by simp_all
  then have "sint (word_of_int (h * 3600000000000) :: 64 word) = h * 3600000000000"
    unfolding sint_sbintrunc' by (intro signed_take_bit_int_eq_self) simp_all
  ultimately show ?thesis by (simp only: ttl_duration_def)
qed

lemma long_ttl_wraps: "ttl_duration 2562048 < 0"
  by (simp add: ttl_duration_def)

lemma ttl_client_usable:
  assumes "CreateSCIMClient i now cs slug h p (Some (now + ttl_duration hours)) = Inr (c, cs')" and "0 < hours" "hours \<le> 2562047"
    and "now \<le> t" "t < now + hours * 3600000000000"
  shows "usable_client t h c"
  using assms ttl_duration_exact [of hours]
  by (auto simp: CreateSCIMClient_def usable_client_def Let_def split: if_splits)

section \<open>Where projection, filters and permissions disagree\<close>

text \<open>The permissions of a client are stored and listed, but no request depends on them.\<close>

lemma usable_client_permissions [simp]: "usable_client now h (c\<lparr>scl_permissions := p\<rparr>) = usable_client now h c"
  by (simp add: usable_client_def)

lemma clients_unused [simp]:
  "login_of (st\<lparr>sd_clients := a\<rparr>) = login_of st" "scim_user uuid fmt (st\<lparr>sd_clients := a\<rparr>) = scim_user uuid fmt st"
  "scim_group uuid fmt (st\<lparr>sd_clients := a\<rparr>) = scim_group uuid fmt st"
  "handleListUsers uuid fmt (st\<lparr>sd_clients := a\<rparr>) q = handleListUsers uuid fmt st q" "handleGetUser uuid fmt (st\<lparr>sd_clients := a\<rparr>) i = handleGetUser uuid fmt st i"
  "handleListGroups uuid fmt (st\<lparr>sd_clients := a\<rparr>) q = handleListGroups uuid fmt st q" "handleGetGroup uuid fmt (st\<lparr>sd_clients := a\<rparr>) i = handleGetGroup uuid fmt st i"
  "ReadOnlyGuard uuid fmt (st\<lparr>sd_clients := a\<rparr>) r = ReadOnlyGuard uuid fmt st r"
proof -
  show l: "login_of (st\<lparr>sd_clients := a\<rparr>) = login_of st" by (simp add: login_of_def fun_eq_iff)
  show u: "scim_user uuid fmt (st\<lparr>sd_clients := a\<rparr>) = scim_user uuid fmt st" by (simp add: scim_user_def l fun_eq_iff)
  show g: "scim_group uuid fmt (st\<lparr>sd_clients := a\<rparr>) = scim_group uuid fmt st" by (simp add: scim_group_def fun_eq_iff)
  show h: "handleListUsers uuid fmt (st\<lparr>sd_clients := a\<rparr>) q = handleListUsers uuid fmt st q"
    "handleGetUser uuid fmt (st\<lparr>sd_clients := a\<rparr>) i = handleGetUser uuid fmt st i"
    "handleListGroups uuid fmt (st\<lparr>sd_clients := a\<rparr>) q = handleListGroups uuid fmt st q"
    "handleGetGroup uuid fmt (st\<lparr>sd_clients := a\<rparr>) i = handleGetGroup uuid fmt st i" for q i
    by (simp_all add: handleListUsers_def handleGetUser_def handleListGroups_def handleGetGroup_def Let_def u g split: sum.splits)
  show "ReadOnlyGuard uuid fmt (st\<lparr>sd_clients := a\<rparr>) r = ReadOnlyGuard uuid fmt st r"
    by (simp add: ReadOnlyGuard_def RegisterRoutes_def h split: option.splits scim_route.splits)
qed

lemma response_of_usable:
  "fst (BearerAuth sha uuid fmt now r st) =
     (case extractBearer (rq_auth r) of None \<Rightarrow> Unauthorized
      | Some raw \<Rightarrow> if list_ex (usable_client now (HashBearer sha raw)) (sd_clients st) then ReadOnlyGuard uuid fmt st r else Unauthorized)"
  by (auto simp: BearerAuth_def GetSCIMClientByBearerHash_def find_None_iff find_Some_iff list_ex_iff split: option.splits)

lemma permissions_unused:
  "fst (BearerAuth sha uuid fmt now r (st\<lparr>sd_clients := map (\<lambda>c. c\<lparr>scl_permissions := p c\<rparr>) (sd_clients st)\<rparr>)) = fst (BearerAuth sha uuid fmt now r st)"
  by (simp add: response_of_usable list_ex_iff split: option.splits)

text \<open>The name by which a user is listed finds the user only when no other login name is stored.\<close>

lemma listed_name_found_iff:
  "matchUser c (Some (Filter ''username'' ''eq'' (usr_name (MapCollaboratorToSCIMUser fmt c (Some a) team manager)) None)) \<longleftrightarrow>
     li_username a = [] \<or> EqualFold (getCollaboratorAttr c ''username'') (li_username a)"
  by (auto simp: matchUser_def matchOne_def MapCollaboratorToSCIMUser_def primaryUserName_def getCollaboratorAttr_def EqualFold_def Let_def)

lemma listed_fields_found:
  assumes "u = MapCollaboratorToSCIMUser fmt c ai team manager"
  shows "matchUser c (Some (Filter ''externalid'' ''eq'' (usr_external u) None))"
    and "matchUser c (Some (Filter ''active'' ''eq'' ''true'' None)) \<longleftrightarrow> usr_active u"
proof -
  show "matchUser c (Some (Filter ''externalid'' ''eq'' (usr_external u) None))"
    by (simp add: assms matchUser_def matchOne_def MapCollaboratorToSCIMUser_def getCollaboratorAttr_def EqualFold_def Let_def)
  have "\<not> EqualFold ''false'' ''true''" by code_simp
  then show "matchUser c (Some (Filter ''active'' ''eq'' ''true'' None)) \<longleftrightarrow> usr_active u"
    by (simp add: assms matchUser_def matchOne_def MapCollaboratorToSCIMUser_def getCollaboratorAttr_def Let_def)
qed

text \<open>The version of a user does not change when the login name does.\<close>

lemma version_misses_login:
  "rm_version (usr_meta (MapCollaboratorToSCIMUser fmt c ai t m)) = rm_version (usr_meta (MapCollaboratorToSCIMUser fmt c ai' t' m'))"
  by (simp add: MapCollaboratorToSCIMUser_def Let_def)

text \<open>The members of a group do not depend on the time windows of the memberships, which authorization respects.\<close>

definition rewindowed :: "(TeamMembership \<Rightarrow> time option) \<Rightarrow> (TeamMembership \<Rightarrow> time option) \<Rightarrow> identity_db \<Rightarrow> identity_db" where
  "rewindowed s e db = db\<lparr>db_members := map (\<lambda>m. m\<lparr>mb_starts := s m, mb_ends := e m\<rparr>) (db_members db)\<rparr>"

lemma insort_key_map: "insort_key f (g x) (map g xs) = map g (insort_key (\<lambda>y. f (g y)) x xs)"
  by (induction xs) auto

lemma sort_key_map: "sort_key f (map g xs) = map g (sort_key (\<lambda>y. f (g y)) xs)"
  by (induction xs) (simp_all add: insort_key_map)

lemma rewindowed_lookup [simp]:
  "getTeamOn uuid (rewindowed s e db) = getTeamOn uuid db" "getCollaboratorOn uuid (rewindowed s e db) = getCollaboratorOn uuid db"
  "found_collaborators uuid (rewindowed s e db) is = found_collaborators uuid db is"
proof -
  show c: "getCollaboratorOn uuid (rewindowed s e db) = getCollaboratorOn uuid db"
    by (simp add: getCollaboratorOn_def rewindowed_def fun_eq_iff)
  show "getTeamOn uuid (rewindowed s e db) = getTeamOn uuid db" by (simp add: getTeamOn_def rewindowed_def fun_eq_iff)
  show "found_collaborators uuid (rewindowed s e db) is = found_collaborators uuid db is"
    by (induction "is") (simp_all add: c split: sum.splits)
qed

lemma rewindowed_members:
  "concat (map (\<lambda>m. map (\<lambda>c. (m, co_slug c)) (filter (\<lambda>c. co_id c = mb_collaborator m) ps))
     (filter (\<lambda>m. mb_team m = i \<and> mb_active m) (map (\<lambda>m. m\<lparr>mb_starts := s m, mb_ends := e m\<rparr>) ms))) =
   map (\<lambda>(m, k). (m\<lparr>mb_starts := s m, mb_ends := e m\<rparr>, k))
     (concat (map (\<lambda>m. map (\<lambda>c. (m, co_slug c)) (filter (\<lambda>c. co_id c = mb_collaborator m) ps))
       (filter (\<lambda>m. mb_team m = i \<and> mb_active m) ms)))"
  by (induction ms) simp_all

lemma group_ignores_windows: "teamMembers uuid (rewindowed s e db) t = teamMembers uuid db t"
proof -
  have p: "db_people (rewindowed s e db) = db_people db" by (simp add: rewindowed_def)
  have m: "db_members (rewindowed s e db) = map (\<lambda>m. m\<lparr>mb_starts := s m, mb_ends := e m\<rparr>) (db_members db)" by (simp add: rewindowed_def)
  show ?thesis
    by (simp add: teamMembers_def ListTeamMemberships_def p m rewindowed_members sort_key_map split_def split: sum.splits)
      (simp add: o_def)
qed

end
