(* ===== verification/Capacity_Planner.thy ===== *)
theory Capacity_Planner
  imports Go_Time Manifest_Names
begin

text \<open>
  The capacity planner, \<open>internal/capacity/planner.go\<close> with \<open>internal/capacity/guest_reconcile_cost.go\<close>: validation of a
  policy and the assessment of one observation, which holds, expands, drains or prepares a change of profile. The
  digest of the policy's JSON and the validators of the optional provider bindings are arguments. A \<open>float64\<close> is a
  rational, an infinity or not a number; the code only compares it.
\<close>

section \<open>Types\<close>

datatype float64 = FFin rat | FInf bool | FNaN

fun fl_less :: "float64 \<Rightarrow> float64 \<Rightarrow> bool" where
  "fl_less (FFin a) (FFin b) \<longleftrightarrow> a < b"
| "fl_less (FFin a) (FInf neg) \<longleftrightarrow> \<not> neg"
| "fl_less (FInf neg) (FFin b) \<longleftrightarrow> neg"
| "fl_less (FInf neg) (FInf neg') \<longleftrightarrow> neg \<and> \<not> neg'"
| "fl_less FNaN y \<longleftrightarrow> False"
| "fl_less x FNaN \<longleftrightarrow> False"

definition fl_le :: "float64 \<Rightarrow> float64 \<Rightarrow> bool" where
  "fl_le a b \<longleftrightarrow> fl_less a b \<or> a = b \<and> a \<noteq> FNaN"

definition finite_float :: "float64 \<Rightarrow> bool" where
  "finite_float v \<longleftrightarrow> (case v of FFin _ \<Rightarrow> True | _ \<Rightarrow> False)"

record CapacitySignalRule =
  sg_name :: string
  sg_source :: string
  sg_unit :: string
  sg_up_above :: float64
  sg_down_below :: float64

record CapacityProfile =
  pf_name :: string
  pf_provider :: string
  pf_region :: string
  pf_min :: int
  pf_max :: int
  pf_cost :: int
  pf_quote_until :: time
  pf_validation_until :: time
  pf_validation_ref :: string
  pf_readiness :: int

record CapacityEvidence =
  ev_name :: string
  ev_source :: string
  ev_unit :: string
  ev_require :: bool
  ev_matched :: bool
  ev_state :: string
  ev_value :: "float64 option"
  ev_min :: "float64 option"
  ev_max :: "float64 option"
  ev_sampled :: time
  ev_start :: time
  ev_end :: time
  ev_samples :: int
  ev_complete :: bool
  ev_gap :: int

record CapacitySnapshot =
  sn_target :: string
  sn_resource :: string
  sn_workload :: string
  sn_workload_version :: string
  sn_version :: string
  sn_owner :: string
  sn_profile :: string
  sn_units :: int
  sn_observed :: time

record CapacityAssessment =
  asm_snapshot :: CapacitySnapshot
  asm_evidence :: "CapacityEvidence list"

record CapacityClockState =
  ck_fingerprint :: string
  ck_resource :: string
  ck_workload :: string
  ck_workload_version :: string
  ck_profile :: string
  ck_observed :: time
  ck_action :: time
  ck_up :: time
  ck_down :: time

record CapacityDecision =
  cd_action :: string
  cd_reason :: string
  cd_profile :: string
  cd_units :: int
  cd_floor :: int
  cd_permitted :: bool
  cd_clock :: CapacityClockState

record CapacityExecutorActivityBinding =
  ab_mode :: string
  ab_ttl :: int
  ab_idle :: int
  ab_age :: int
  ab_tasks :: int

record CapacityAdministrativeCostAssumption =
  ac_mode :: string
  ac_reference :: string
  ac_sha :: string
  ac_expires :: time
  ac_currency :: string

record CapacityGuestNotifyReconcileBinding =
  gr_mode :: string
  gr_assumption :: "CapacityAdministrativeCostAssumption option"

text \<open>Of the power binding, its adoption workflow; of the mutation bindings, their profile names.\<close>

record CapacityPolicySpec =
  cp_power :: "(string \<times> string) option"
  cp_environment :: string
  cp_domain :: string
  cp_dimension :: string
  cp_target :: string
  cp_owner :: string
  cp_workflow :: ManifestSelector
  cp_currency :: string
  cp_floor :: int
  cp_ceiling :: int
  cp_step :: int
  cp_max_age :: int
  cp_min_samples :: int
  cp_max_gap :: int
  cp_up_hold :: int
  cp_down_hold :: int
  cp_cooldown :: int
  cp_lease :: int
  cp_enabled :: bool
  cp_signals :: "CapacitySignalRule list"
  cp_profiles :: "CapacityProfile list"
  cp_mutation_profiles :: "string list"
  cp_activity :: "CapacityExecutorActivityBinding option"
  cp_reconcile :: "CapacityGuestNotifyReconcileBinding option"
  cp_assessment_bound :: bool           \<comment> \<open>\<open>AssessmentBinding\<close> is set\<close>
  cp_hpa_mode :: "string option"        \<comment> \<open>the mode of \<open>HPAExecutionBinding\<close>, when it is set\<close>

record capacity_env =
  ce_power_ok :: "CapacityPolicySpec \<Rightarrow> bool"     \<comment> \<open>\<open>executorpower.ValidateBinding\<close>\<close>
  ce_bindings_ok :: "CapacityPolicySpec \<Rightarrow> bool"  \<comment> \<open>the validators of mutation, retirement, canary, reconcile and assessment bindings\<close>
  ce_fingerprint :: "CapacityPolicySpec \<Rightarrow> string" \<comment> \<open>the digest of the policy's JSON\<close>

datatype capacity_error =
    PowerBindingInvalid
  | ActivityBindingInvalid
  | ScopeRequired
  | WorkflowNotLogical
  | CurrencyInvalid
  | EnvelopeInvalid
  | EvidenceAgeInvalid
  | HysteresisInvalid
  | LeaseInvalid
  | CountsInvalid
  | SignalInvalid
  | ProfileInvalid
  | ProfileBudgetInvalid
  | BindingsInvalid
  | SnapshotRejected
  | EvidenceRejected string

section \<open>Planning declarations\<close>

definition AdministrativeCostAssumptionMode :: string where
  "AdministrativeCostAssumptionMode = ''reviewed_administrative_cost_assumption''"

definition GuestNotifyReconcileMode :: string where
  "GuestNotifyReconcileMode = ''original_guest_notify_reconcile_v1''"

definition ValidDigest :: "string \<Rightarrow> bool" where
  "ValidDigest v \<longleftrightarrow> length v = 64 \<and> ToLower v = v \<and> list_all (\<lambda>c. c \<in> set ''0123456789abcdef'') v"

definition administrativeCostAssumption :: "CapacityPolicySpec \<Rightarrow> CapacityAdministrativeCostAssumption option" where
  "administrativeCostAssumption p = Option.bind (cp_reconcile p) gr_assumption"

definition native_currency :: "string \<Rightarrow> string" where
  "native_currency provider = (if provider = ''aws'' \<or> provider = ''hetzner'' then ''USD'' else [])"

text \<open>True when the assumption is absent or accepted.\<close>

definition ValidateAdministrativeCostAssumption :: "CapacityPolicySpec \<Rightarrow> bool" where
  "ValidateAdministrativeCostAssumption p =
     (case administrativeCostAssumption p of
        None \<Rightarrow> True
      | Some c \<Rightarrow>
          map_option gr_mode (cp_reconcile p) = Some GuestNotifyReconcileMode \<and> length (cp_mutation_profiles p) = 1 \<and>
          cp_currency p = ''USD'' \<and> ac_mode c = AdministrativeCostAssumptionMode \<and> \<not> IsZero (ac_expires c) \<and> ValidDigest (ac_sha c) \<and>
          ac_reference c \<noteq> [] \<and> length (ac_reference c) \<le> 1024 \<and> TrimSpace (ac_reference c) = ac_reference c \<and>
          \<not> ContainsAny (ac_reference c) [CHR 0x00, CHR 0x0D, CHR 0x0A, CHR 0x09] \<and>
          (case cp_profiles p of
             [profile] \<Rightarrow>
               native_currency (pf_provider profile) \<noteq> [] \<and> ac_currency c = native_currency (pf_provider profile) \<and>
               pf_name profile = ''notify-'' @ pf_provider profile @ ''-elastic'' \<and> pf_name profile = hd (cp_mutation_profiles p) \<and>
               0 < pf_cost profile \<and> pf_cost profile \<le> 1000000000000 \<and>
               IsZero (pf_quote_until profile) \<and> IsZero (pf_validation_until profile)
           | _ \<Rightarrow> False))"

definition profilePlanningDeclarations :: "CapacityPolicySpec \<Rightarrow> CapacityProfile \<Rightarrow> bool" where
  "profilePlanningDeclarations p profile =
     (if administrativeCostAssumption p = None then \<not> IsZero (pf_quote_until profile) \<and> \<not> IsZero (pf_validation_until profile)
      else ValidateAdministrativeCostAssumption p \<and> pf_name profile = pf_name (hd (cp_profiles p)))"

definition ProfilePlanningCurrent :: "CapacityPolicySpec \<Rightarrow> CapacityProfile \<Rightarrow> time \<Rightarrow> bool" where
  "ProfilePlanningCurrent p profile t =
     (case administrativeCostAssumption p of
        Some c \<Rightarrow> profilePlanningDeclarations p profile \<and> t < ac_expires c
      | None \<Rightarrow> t < pf_quote_until profile \<and> t < pf_validation_until profile)"

definition NativeBillingCurrency :: "CapacityPolicySpec \<Rightarrow> string" where
  "NativeBillingCurrency p =
     (case administrativeCostAssumption p of
        Some c \<Rightarrow> if \<not> ValidateAdministrativeCostAssumption p then [] else ac_currency c
      | None \<Rightarrow> cp_currency p)"

section \<open>Policies\<close>

definition power_error :: "capacity_env \<Rightarrow> CapacityPolicySpec \<Rightarrow> capacity_error option" where
  "power_error E p =
     (case cp_power p of
        None \<Rightarrow> None
      | Some (ns, name) \<Rightarrow>
          guard_err (\<not> ce_power_ok E p \<or> cp_mutation_profiles p \<noteq> [] \<or> cp_activity p = None \<or>
                     ns = sel_namespace (cp_workflow p) \<and> name = sel_name (cp_workflow p)) PowerBindingInvalid)"

definition activity_error :: "CapacityPolicySpec \<Rightarrow> capacity_error option" where
  "activity_error p =
     (case cp_activity p of
        None \<Rightarrow> None
      | Some b \<Rightarrow>
          guard_err (ab_mode b \<noteq> ''executor_activity_v1'' \<or> ab_ttl b < 5 \<or> 300 < ab_ttl b \<or> ab_idle b < 1 \<or> 86400 < ab_idle b \<or>
                     ab_age b < 1 \<or> ab_ttl b < ab_age b \<or> ab_tasks b < 1 \<or> 100000 < ab_tasks b) ActivityBindingInvalid)"

definition signal_invalid :: "CapacitySignalRule \<Rightarrow> bool" where
  "signal_invalid s \<longleftrightarrow> sg_name s = [] \<or> sg_source s = [] \<or> sg_unit s = [] \<or> \<not> finite_float (sg_up_above s) \<or>
     \<not> finite_float (sg_down_below s) \<or> fl_le (sg_up_above s) (sg_down_below s)"

definition profile_invalid :: "CapacityPolicySpec \<Rightarrow> CapacityProfile \<Rightarrow> bool" where
  "profile_invalid p q \<longleftrightarrow> pf_name q = [] \<or> pf_provider q = [] \<or> pf_region q = [] \<or> pf_validation_ref q = [] \<or> \<not> profilePlanningDeclarations p q"

definition profile_budget_invalid :: "CapacityPolicySpec \<Rightarrow> CapacityProfile \<Rightarrow> bool" where
  "profile_budget_invalid p q \<longleftrightarrow> pf_min q < cp_floor p \<or> pf_max q < pf_min q \<or> cp_ceiling p < pf_max q \<or>
     pf_cost q < 0 \<or> 1000000000000 < pf_cost q \<or> pf_readiness q < 0 \<or> 86400 < pf_readiness q"

definition ValidatePolicy :: "capacity_env \<Rightarrow> CapacityPolicySpec \<Rightarrow> capacity_error option" where
  "ValidatePolicy E p =
     e_then (power_error E p)
    (e_then (activity_error p)
    (e_then (first_err (\<lambda>v. guard_err (TrimSpace v = [] \<or> 256 < length v) ScopeRequired)
               [cp_environment p, cp_domain p, cp_dimension p, cp_target p, cp_owner p])
    (e_then (guard_err (sel_manifest_id (cp_workflow p) \<noteq> [] \<or> sel_version (cp_workflow p) \<noteq> None \<or>
                        TrimSpace (sel_namespace (cp_workflow p)) = [] \<or> TrimSpace (sel_name (cp_workflow p)) = []) WorkflowNotLogical)
    (e_then (guard_err (length (cp_currency p) \<noteq> 3 \<or> \<not> list_all (\<lambda>c. CHR ''A'' \<le> c \<and> c \<le> CHR ''Z'') (cp_currency p)) CurrencyInvalid)
    (e_then (guard_err (cp_floor p < 1 \<or> cp_ceiling p < cp_floor p \<or> 100000 < cp_ceiling p \<or> cp_step p < 1 \<or> cp_ceiling p < cp_step p) EnvelopeInvalid)
    (e_then (guard_err (cp_max_age p < 1 \<or> 3600 < cp_max_age p \<or> cp_min_samples p < 1 \<or> 100000 < cp_min_samples p \<or>
                        cp_max_gap p < 1 \<or> cp_max_age p < cp_max_gap p) EvidenceAgeInvalid)
    (e_then (guard_err (cp_up_hold p < 0 \<or> cp_down_hold p < 1 \<or> cp_down_hold p < cp_up_hold p \<or> 86400 < cp_down_hold p \<or>
                        cp_cooldown p < 0 \<or> 86400 < cp_cooldown p) HysteresisInvalid)
    (e_then (guard_err (cp_lease p < 5 \<or> 300 < cp_lease p) LeaseInvalid)
    (e_then (guard_err (cp_signals p = [] \<or> 64 < length (cp_signals p) \<or> cp_profiles p = [] \<or> 64 < length (cp_profiles p)) CountsInvalid)
    (e_then (check_distinct sg_name (\<lambda>s. guard_err (signal_invalid s) SignalInvalid) (\<lambda>_. SignalInvalid) (\<lambda>_. None) [] (cp_signals p))
    (e_then (check_distinct pf_name (\<lambda>q. guard_err (profile_invalid p q) ProfileInvalid) (\<lambda>_. ProfileInvalid)
               (\<lambda>q. guard_err (profile_budget_invalid p q) ProfileBudgetInvalid) [] (cp_profiles p))
            (guard_err (\<not> ce_bindings_ok E p) BindingsInvalid))))))))))))"

section \<open>Choice of a profile\<close>

text \<open>The product is an \<open>int64\<close>.\<close>

definition profile_cost :: "int \<Rightarrow> CapacityProfile \<Rightarrow> int" where
  "profile_cost units q = sint (word_of_int (pf_cost q * max units (pf_min q)) :: 64 word)"

definition profile_eligible :: "CapacityPolicySpec \<Rightarrow> int \<Rightarrow> time \<Rightarrow> bool \<Rightarrow> CapacityProfile \<Rightarrow> bool" where
  "profile_eligible p units now floorRepair q \<longleftrightarrow>
     \<not> (\<not> floorRepair \<and> units < pf_min q) \<and> \<not> pf_max q < units \<and> ProfilePlanningCurrent p q (now + pf_readiness q * Second)"

definition select_step :: "CapacityPolicySpec \<Rightarrow> int \<Rightarrow> time \<Rightarrow> bool \<Rightarrow> CapacityProfile \<Rightarrow> CapacityProfile option \<Rightarrow> CapacityProfile option" where
  "select_step p units now floorRepair candidate selected =
     (if \<not> profile_eligible p units now floorRepair candidate then selected
      else case selected of
        None \<Rightarrow> Some candidate
      | Some s \<Rightarrow> if profile_cost units candidate < profile_cost units s \<or>
                      profile_cost units candidate = profile_cost units s \<and> pf_name candidate < pf_name s
                   then Some candidate else selected)"

definition selectEligibleProfile :: "CapacityPolicySpec \<Rightarrow> int \<Rightarrow> time \<Rightarrow> bool \<Rightarrow> CapacityProfile option" where
  "selectEligibleProfile p units now floorRepair = fold (select_step p units now floorRepair) (cp_profiles p) None"

definition cheapestEligible :: "CapacityPolicySpec \<Rightarrow> int \<Rightarrow> time \<Rightarrow> CapacityProfile option" where
  "cheapestEligible p units now = selectEligibleProfile p units now False"

definition knownProfile :: "CapacityPolicySpec \<Rightarrow> string \<Rightarrow> bool" where
  "knownProfile p name \<longleftrightarrow> list_ex (\<lambda>q. pf_name q = name) (cp_profiles p)"

section \<open>Assessment\<close>

definition fresh :: "time \<Rightarrow> time \<Rightarrow> int \<Rightarrow> bool" where
  "fresh t now maxAge \<longleftrightarrow> \<not> IsZero t \<and> \<not> now + 5 * Second < t \<and> \<not> t < now - maxAge * Second"

definition holdUnknown :: "CapacityDecision \<Rightarrow> string \<Rightarrow> CapacityDecision" where
  "holdUnknown d reason =
     d\<lparr>cd_reason := reason, cd_permitted := False, cd_clock := (cd_clock d)\<lparr>ck_up := zeroTime, ck_down := zeroTime\<rparr>\<rparr>"

definition snapshot_current :: "CapacityPolicySpec \<Rightarrow> CapacitySnapshot \<Rightarrow> time \<Rightarrow> bool" where
  "snapshot_current p s now \<longleftrightarrow>
     \<not> (sn_target s \<noteq> cp_target p \<or> sn_owner s \<noteq> cp_owner p \<or> sn_resource s = [] \<or> sn_workload s = [] \<or> sn_workload_version s = [] \<or>
        sn_version s = [] \<or> sn_units s < 0 \<or> cp_ceiling p < sn_units s \<or> \<not> fresh (sn_observed s) now (cp_max_age p))"

definition floor_recovery :: "CapacityPolicySpec \<Rightarrow> CapacitySnapshot \<Rightarrow> CapacityDecision \<Rightarrow> time \<Rightarrow> CapacityDecision" where
  "floor_recovery p s d now =
     (case selectEligibleProfile p (cp_floor p) now True of
        None \<Rightarrow> d\<lparr>cd_reason := ''validated_profile_unavailable''\<rparr>
      | Some q \<Rightarrow>
          d\<lparr>cd_units := max (cp_floor p) (pf_min q), cd_profile := pf_name q, cd_reason := ''protected_floor_recovery'',
            cd_action := (if pf_name q \<noteq> sn_profile s then ''prepare'' else ''expand''), cd_permitted := cp_enabled p,
            cd_clock := (cd_clock d)\<lparr>ck_up := zeroTime, ck_down := zeroTime\<rparr>\<rparr>)"

definition evidence_usable :: "CapacityPolicySpec \<Rightarrow> time \<Rightarrow> CapacitySignalRule \<Rightarrow> CapacityEvidence \<Rightarrow> bool" where
  "evidence_usable p now rule e \<longleftrightarrow>
     \<not> (\<not> ev_require e \<or> \<not> ev_matched e \<or> ev_state e \<noteq> ''present'' \<or>
        (case ev_value e of None \<Rightarrow> True | Some v \<Rightarrow> \<not> finite_float v) \<or> ev_source e \<noteq> sg_source rule \<or> ev_unit e \<noteq> sg_unit rule \<or>
        ev_samples e < cp_min_samples p \<or> \<not> ev_complete e \<or> ev_gap e < 0 \<or> cp_max_gap p < ev_gap e \<or>
        \<not> fresh (ev_sampled e) now (cp_max_age p) \<or> \<not> fresh (ev_end e) now (cp_max_age p) \<or> IsZero (ev_start e) \<or>
        ev_end e < ev_start e \<or> ev_sampled e < ev_start e \<or> ev_end e + 5 * Second < ev_sampled e)"

definition range_usable :: "float64 \<Rightarrow> float64 \<Rightarrow> float64 \<Rightarrow> bool" where
  "range_usable v lo hi \<longleftrightarrow> \<not> (\<not> finite_float lo \<or> \<not> finite_float hi \<or> fl_less v lo \<or> fl_less hi v \<or> fl_less hi lo)"

definition signal_above :: "CapacityPolicySpec \<Rightarrow> CapacitySignalRule \<Rightarrow> float64 \<Rightarrow> float64 \<Rightarrow> bool" where
  "signal_above p rule v lo =
     (if cp_reconcile p \<noteq> None then fl_less (sg_up_above rule) v \<and> (cp_up_hold p = 0 \<or> fl_less (sg_up_above rule) lo)
      else fl_le (sg_up_above rule) v \<and> (cp_up_hold p = 0 \<or> fl_le (sg_up_above rule) lo))"

definition signal_below :: "CapacityPolicySpec \<Rightarrow> CapacitySignalRule \<Rightarrow> float64 \<Rightarrow> bool" where
  "signal_below p rule hi = (if cp_reconcile p \<noteq> None then fl_less hi (sg_down_below rule) else fl_le hi (sg_down_below rule))"

text \<open>The loop over the rules: whether one signal is high, whether all are low, and the latest start of a window.\<close>

fun signal_loop :: "CapacityPolicySpec \<Rightarrow> time \<Rightarrow> CapacityEvidence list \<Rightarrow> CapacitySignalRule list \<Rightarrow> bool \<times> bool \<times> time \<Rightarrow> (bool \<times> bool \<times> time) option" where
  "signal_loop p now obs [] acc = Some acc"
| "signal_loop p now obs (rule # rules) (up, down, windowStart) =
     (case find (\<lambda>e. ev_name e = sg_name rule) obs of
        None \<Rightarrow> None
      | Some e \<Rightarrow>
          if \<not> evidence_usable p now rule e then None
          else (case (ev_value e, ev_min e, ev_max e) of
            (Some v, Some lo, Some hi) \<Rightarrow>
              if \<not> range_usable v lo hi then None
              else signal_loop p now obs rules
                     (up \<or> signal_above p rule v lo, down \<and> signal_below p rule hi,
                      if IsZero windowStart \<or> windowStart < ev_start e then ev_start e else windowStart)
          | _ \<Rightarrow> None))"

definition observation_gap :: "CapacityPolicySpec \<Rightarrow> int" where
  "observation_gap p = (if cp_reconcile p \<noteq> None then cp_max_age p else cp_max_gap p)"

definition same_observed :: "capacity_env \<Rightarrow> CapacityPolicySpec \<Rightarrow> CapacitySnapshot \<Rightarrow> CapacityClockState \<Rightarrow> time \<Rightarrow> bool" where
  "same_observed E p s previous now \<longleftrightarrow>
     \<not> (ck_fingerprint previous \<noteq> ce_fingerprint E p \<or> ck_resource previous \<noteq> sn_resource s \<or> ck_workload previous \<noteq> sn_workload s \<or>
        ck_workload_version previous \<noteq> sn_workload_version s \<or> ck_profile previous \<noteq> sn_profile s \<or> IsZero (ck_observed previous) \<or>
        \<not> fresh (ck_observed previous) now (observation_gap p))"

definition stamped_clock :: "capacity_env \<Rightarrow> CapacityPolicySpec \<Rightarrow> CapacitySnapshot \<Rightarrow> CapacityClockState \<Rightarrow> time \<Rightarrow> CapacityClockState" where
  "stamped_clock E p s previous now =
     (if same_observed E p s previous now then previous else previous\<lparr>ck_up := zeroTime, ck_down := zeroTime\<rparr>)
       \<lparr>ck_fingerprint := ce_fingerprint E p, ck_resource := sn_resource s, ck_workload := sn_workload s, ck_profile := sn_profile s,
        ck_workload_version := sn_workload_version s, ck_observed := now\<rparr>"

definition since :: "time \<Rightarrow> time \<Rightarrow> time" where
  "since t now = (if IsZero t then now else t)"

definition window_pending :: "time \<Rightarrow> time \<Rightarrow> time \<Rightarrow> int \<Rightarrow> bool" where
  "window_pending now start windowStart hold \<longleftrightarrow> now - start < hold * Second \<or> now - hold * Second < windowStart"

definition scale_decision :: "CapacityPolicySpec \<Rightarrow> CapacitySnapshot \<Rightarrow> CapacityDecision \<Rightarrow> bool \<Rightarrow> CapacityClockState \<Rightarrow> time \<Rightarrow> CapacityDecision" where
  "scale_decision p s d up previous now =
     (if \<not> IsZero (ck_action previous) \<and> now - ck_action previous < cp_cooldown p * Second then d\<lparr>cd_reason := ''cooldown''\<rparr>
      else let wanted = (if up then min (cp_ceiling p) (sn_units s + cp_step p) else max (cp_floor p) (sn_units s - cp_step p)) in
      case cheapestEligible p wanted now of
        None \<Rightarrow> d\<lparr>cd_reason := ''validated_profile_unavailable''\<rparr>
      | Some q \<Rightarrow>
          let wanted' = max wanted (pf_min q) in
          if wanted' = sn_units s \<and> pf_name q = sn_profile s then d\<lparr>cd_reason := ''capacity_boundary''\<rparr>
          else d\<lparr>cd_profile := pf_name q, cd_units := wanted',
                 cd_action := (if pf_name q \<noteq> sn_profile s then ''prepare'' else if sn_units s < wanted' then ''expand'' else ''drain''),
                 cd_reason := (if pf_name q \<noteq> sn_profile s then ''profile_transition_required''
                               else if sn_units s < wanted' then ''sustained_pressure'' else ''sustained_surplus''),
                 cd_permitted := cp_enabled p\<rparr>)"

definition pressure_decision :: "capacity_env \<Rightarrow> CapacityPolicySpec \<Rightarrow> CapacitySnapshot \<Rightarrow> CapacityDecision \<Rightarrow> bool \<times> bool \<times> time \<Rightarrow> CapacityClockState \<Rightarrow> time \<Rightarrow> CapacityDecision" where
  "pressure_decision E p s d pressure previous now =
     (case pressure of (up, down, windowStart) \<Rightarrow>
        let c = stamped_clock E p s previous now in
        if up then
          (let u = since (ck_up c) now; d' = d\<lparr>cd_clock := c\<lparr>ck_down := zeroTime, ck_up := u\<rparr>\<rparr> in
           if window_pending now u windowStart (cp_up_hold p) then d'\<lparr>cd_reason := ''up_window_pending''\<rparr>
           else scale_decision p s d' True previous now)
        else if down then
          (let u = since (ck_down c) now; d' = d\<lparr>cd_clock := c\<lparr>ck_up := zeroTime, ck_down := u\<rparr>\<rparr> in
           if window_pending now u windowStart (cp_down_hold p) then d'\<lparr>cd_reason := ''down_window_pending''\<rparr>
           else scale_decision p s d' False previous now)
        else d\<lparr>cd_clock := c\<lparr>ck_up := zeroTime, ck_down := zeroTime\<rparr>\<rparr>)"

definition holding :: "CapacityPolicySpec \<Rightarrow> CapacitySnapshot \<Rightarrow> CapacityClockState \<Rightarrow> CapacityDecision" where
  "holding p s previous =
     \<lparr>cd_action = ''hold'', cd_reason = ''within_envelope'', cd_profile = sn_profile s, cd_units = sn_units s,
      cd_floor = cp_floor p, cd_permitted = False, cd_clock = previous\<rparr>"

definition Assess :: "capacity_env \<Rightarrow> CapacityPolicySpec \<Rightarrow> CapacityAssessment \<Rightarrow> CapacityClockState \<Rightarrow> time \<Rightarrow> capacity_error + CapacityDecision" where
  "Assess E p a previous now =
     (case ValidatePolicy E p of
        Some e \<Rightarrow> Inl e
      | None \<Rightarrow>
          let s = asm_snapshot a; d = holding p s previous in
          Inr (if \<not> snapshot_current p s now then holdUnknown d ''snapshot_unavailable''
               else if \<not> knownProfile p (sn_profile s) then holdUnknown d ''current_profile_unknown''
               else if sn_units s < cp_floor p then floor_recovery p s d now
               else if \<not> distinct (map ev_name (asm_evidence a)) then holdUnknown d ''duplicate_signal''
               else if length (asm_evidence a) \<noteq> length (cp_signals p) then holdUnknown d ''signal_coverage_missing''
               else case signal_loop p now (asm_evidence a) (cp_signals p) (False, True, zeroTime) of
                      None \<Rightarrow> holdUnknown d ''signal_evidence_unavailable''
                    | Some pressure \<Rightarrow> pressure_decision E p s d pressure previous now))"

definition ValidateSnapshot :: "CapacityPolicySpec \<Rightarrow> CapacityAssessment \<Rightarrow> time \<Rightarrow> capacity_error option" where
  "ValidateSnapshot p a now =
     guard_err (\<not> snapshot_current p (asm_snapshot a) now \<or> \<not> knownProfile p (sn_profile (asm_snapshot a))) SnapshotRejected"

definition zero_clock :: CapacityClockState where
  "zero_clock = \<lparr>ck_fingerprint = [], ck_resource = [], ck_workload = [], ck_workload_version = [], ck_profile = [],
     ck_observed = zeroTime, ck_action = zeroTime, ck_up = zeroTime, ck_down = zeroTime\<rparr>"

definition evidence_reasons :: "string list" where
  "evidence_reasons = [''snapshot_unavailable'', ''current_profile_unknown'', ''duplicate_signal'', ''signal_coverage_missing'', ''signal_evidence_unavailable'']"

definition ValidateAssessment :: "capacity_env \<Rightarrow> CapacityPolicySpec \<Rightarrow> CapacityAssessment \<Rightarrow> time \<Rightarrow> capacity_error option" where
  "ValidateAssessment E p a now =
     e_then (ValidateSnapshot p a now)
       (let s = asm_snapshot a; checked = a\<lparr>asm_snapshot := s\<lparr>sn_units := max (cp_floor p) (sn_units s)\<rparr>\<rparr> in
        case Assess E p checked zero_clock now of
          Inl e \<Rightarrow> Some e
        | Inr d \<Rightarrow> guard_err (cd_reason d \<in> set evidence_reasons) (EvidenceRejected (cd_reason d)))"

section \<open>What validation establishes\<close>

lemma ValidatePolicy_envelope:
  assumes "ValidatePolicy E p = None"
  shows "1 \<le> cp_floor p" "cp_floor p \<le> cp_ceiling p" "cp_ceiling p \<le> 100000" "1 \<le> cp_step p" "1 \<le> cp_down_hold p" "0 \<le> cp_up_hold p"
  using assms by (simp_all add: ValidatePolicy_def validate_simps)

lemma ValidatePolicy_profile:
  assumes "ValidatePolicy E p = None" "q \<in> set (cp_profiles p)"
  shows "cp_floor p \<le> pf_min q" "pf_min q \<le> pf_max q" "pf_max q \<le> cp_ceiling p" "0 \<le> pf_cost q" "pf_cost q \<le> 1000000000000"
proof -
  have "\<not> profile_budget_invalid p q" using assms by (simp add: ValidatePolicy_def validate_simps)
  then show "cp_floor p \<le> pf_min q" "pf_min q \<le> pf_max q" "pf_max q \<le> cp_ceiling p" "0 \<le> pf_cost q" "pf_cost q \<le> 1000000000000"
    by (simp_all add: profile_budget_invalid_def)
qed

lemma ValidatePolicy_distinct:
  assumes "ValidatePolicy E p = None"
  shows "distinct (map pf_name (cp_profiles p))" "distinct (map sg_name (cp_signals p))" "cp_signals p \<noteq> []"
  using assms by (simp_all add: ValidatePolicy_def validate_simps)

text \<open>A cost within the budget of a validated policy fits its 64 bits.\<close>

lemma profile_cost_exact:
  assumes "ValidatePolicy E p = None" "q \<in> set (cp_profiles p)" "0 \<le> units" "units \<le> cp_ceiling p"
  shows "profile_cost units q = pf_cost q * max units (pf_min q)"
proof -
  note q = ValidatePolicy_profile [OF assms(1,2)] and e = ValidatePolicy_envelope [OF assms(1)]
  have m: "0 \<le> max units (pf_min q)" "max units (pf_min q) \<le> 100000" using q e assms(3,4) by auto
  have "pf_cost q * max units (pf_min q) \<le> 1000000000000 * 100000" using q(4,5) m by (intro mult_mono) auto
  moreover have "0 \<le> pf_cost q * max units (pf_min q)" using q(4) m by (intro mult_nonneg_nonneg)
  ultimately show ?thesis unfolding profile_cost_def by (intro sint_word_of_int_64) auto
qed

section \<open>The cheapest profile\<close>

text \<open>The order of the choice: by cost, then by name.\<close>

definition preferred :: "int \<Rightarrow> CapacityProfile \<Rightarrow> CapacityProfile \<Rightarrow> bool" where
  "preferred units q r \<longleftrightarrow> profile_cost units q < profile_cost units r \<or> profile_cost units q = profile_cost units r \<and> pf_name q \<le> pf_name r"

lemma select_fold:
  "case fold (select_step p units now fr) qs acc of
     None \<Rightarrow> acc = None \<and> filter (profile_eligible p units now fr) qs = []
   | Some q \<Rightarrow> (q \<in> set qs \<and> profile_eligible p units now fr q \<or> acc = Some q) \<and>
       (\<forall>r\<in>set qs. profile_eligible p units now fr r \<longrightarrow> preferred units q r) \<and> (\<forall>r. acc = Some r \<longrightarrow> preferred units q r)"
proof (induction qs arbitrary: acc)
  case Nil
  show ?case by (cases acc) (auto simp: preferred_def)
next
  case (Cons c qs)
  show ?case
  proof (cases "profile_eligible p units now fr c")
    case False
    then show ?thesis using Cons.IH [of acc] by (auto simp: select_step_def split: option.splits)
  next
    case True
    define acc' where "acc' = select_step p units now fr c acc"
    have a: "acc' \<noteq> None" "\<And>q. acc' = Some q \<Longrightarrow> q = c \<or> acc = Some q" "\<And>q. acc' = Some q \<Longrightarrow> preferred units q c"
      "\<And>q r. acc' = Some q \<Longrightarrow> acc = Some r \<Longrightarrow> preferred units q r"
      using True by (auto simp: acc'_def select_step_def preferred_def split: option.splits if_splits)
    obtain b where b: "acc' = Some b" using a(1) by blast
    have trans: "preferred units q r" if "preferred units q b" "preferred units b r" for q r
      using that by (auto simp: preferred_def)
    show ?thesis
    proof (cases "fold (select_step p units now fr) qs acc'")
      case None
      then show ?thesis using Cons.IH [of acc'] b by simp
    next
      case (Some q)
      then have h: "q \<in> set qs \<and> profile_eligible p units now fr q \<or> acc' = Some q"
        "\<And>r. r \<in> set qs \<Longrightarrow> profile_eligible p units now fr r \<Longrightarrow> preferred units q r" "preferred units q b"
        using Cons.IH [of acc'] b by auto
      have "preferred units q c" using trans [OF h(3)] a(3) [OF b] by blast
      moreover have "preferred units q r" if "acc = Some r" for r using trans [OF h(3)] a(4) [OF b that] by blast
      moreover have "q \<in> set (c # qs) \<and> profile_eligible p units now fr q \<or> acc = Some q" using h(1) a(2) True by auto
      ultimately show ?thesis using Some h(2) by (simp add: acc'_def)
    qed
  qed
qed

lemma selectEligible_None: "selectEligibleProfile p units now fr = None \<longleftrightarrow> filter (profile_eligible p units now fr) (cp_profiles p) = []"
proof -
  note f = select_fold [where p = p and units = units and now = now and fr = fr and qs = "cp_profiles p" and acc = None]
  show ?thesis
  proof (cases "selectEligibleProfile p units now fr")
    case None
    then show ?thesis using f by (simp add: selectEligibleProfile_def)
  next
    case (Some q)
    then show ?thesis using f by (auto simp: selectEligibleProfile_def filter_empty_conv)
  qed
qed

lemma selectEligible_Some:
  assumes "selectEligibleProfile p units now fr = Some q"
  shows "q \<in> set (cp_profiles p)" "profile_eligible p units now fr q"
    "\<And>r. r \<in> set (cp_profiles p) \<Longrightarrow> profile_eligible p units now fr r \<Longrightarrow> preferred units q r"
  using select_fold [where p = p and units = units and now = now and fr = fr and qs = "cp_profiles p" and acc = None] assms by (simp_all add: selectEligibleProfile_def)

text \<open>Under a validated policy the choice of a profile is exact: it fails only when no profile covers the wanted units with quotes and validations that last until it is ready, and otherwise returns such a profile with the least monthly cost, the first by name among equals; the 64-bit cost never overflows.\<close>
theorem cheapest_profile_chosen:
  assumes "ValidatePolicy E p = None" "0 \<le> units" "units \<le> cp_ceiling p"
  shows "case selectEligibleProfile p units now fr of
      None \<Rightarrow> \<forall>r\<in>set (cp_profiles p). \<not> profile_eligible p units now fr r
    | Some q \<Rightarrow> q \<in> set (cp_profiles p) \<and> profile_eligible p units now fr q \<and>
        (\<forall>r\<in>set (cp_profiles p). profile_eligible p units now fr r \<longrightarrow>
           pf_cost q * max units (pf_min q) < pf_cost r * max units (pf_min r) \<or>
           pf_cost q * max units (pf_min q) = pf_cost r * max units (pf_min r) \<and> pf_name q \<le> pf_name r)"
proof (cases "selectEligibleProfile p units now fr")
  case None
  then show ?thesis using selectEligible_None [of p units now fr] by (simp add: filter_empty_conv)
next
  case (Some q)
  note S = selectEligible_Some [OF Some]
  have "pf_cost q * max units (pf_min q) < pf_cost r * max units (pf_min r) \<or>
      pf_cost q * max units (pf_min q) = pf_cost r * max units (pf_min r) \<and> pf_name q \<le> pf_name r"
    if "r \<in> set (cp_profiles p)" "profile_eligible p units now fr r" for r
    using S(3) [OF that] unfolding preferred_def profile_cost_exact [OF assms(1) that(1) assms(2,3)] profile_cost_exact [OF assms(1) S(1) assms(2,3)] .
  then show ?thesis using Some S(1,2) by simp
qed

section \<open>The envelope\<close>

lemma holdUnknown_simps [simp]:
  "cd_action (holdUnknown d r) = cd_action d" "cd_units (holdUnknown d r) = cd_units d" "cd_profile (holdUnknown d r) = cd_profile d"
  "cd_permitted (holdUnknown d r) = False" "cd_reason (holdUnknown d r) = r" "ck_down (cd_clock (holdUnknown d r)) = zeroTime"
  "ck_up (cd_clock (holdUnknown d r)) = zeroTime"
  by (simp_all add: holdUnknown_def)

lemma holding_simps [simp]:
  "cd_action (holding p s c) = ''hold''" "cd_units (holding p s c) = sn_units s" "cd_profile (holding p s c) = sn_profile s"
  "cd_permitted (holding p s c) = False" "cd_clock (holding p s c) = c"
  by (simp_all add: holding_def)

text \<open>What every decision satisfies: it keeps what runs, or it moves to a profile that covers the new size.\<close>

definition decision_ok :: "CapacityPolicySpec \<Rightarrow> CapacitySnapshot \<Rightarrow> time \<Rightarrow> CapacityDecision \<Rightarrow> bool" where
  "decision_ok p s now d \<longleftrightarrow>
     (if cd_action d = ''hold'' then cd_units d = sn_units s \<and> cd_profile d = sn_profile s \<and> \<not> cd_permitted d
      else cp_floor p \<le> cd_units d \<and> cd_units d \<le> cp_ceiling p \<and> cd_permitted d = cp_enabled p \<and>
        (\<exists>q\<in>set (cp_profiles p). pf_name q = cd_profile d \<and> pf_min q \<le> cd_units d \<and> cd_units d \<le> pf_max q \<and>
           ProfilePlanningCurrent p q (now + pf_readiness q * Second)) \<and>
        (if sn_units s < cp_floor p then sn_units s < cd_units d else \<bar>cd_units d - sn_units s\<bar> \<le> cp_step p))"

lemma floor_recovery_ok:
  assumes "ValidatePolicy E p = None" "sn_units s < cp_floor p"
  shows "decision_ok p s now (floor_recovery p s (holding p s c) now)"
proof (cases "selectEligibleProfile p (cp_floor p) now True")
  case None
  then show ?thesis by (simp add: floor_recovery_def decision_ok_def)
next
  case (Some q)
  note S = selectEligible_Some [OF Some]
  note q = ValidatePolicy_profile [OF assms(1) S(1)]
  have "ProfilePlanningCurrent p q (now + pf_readiness q * Second)" using S(2) by (simp add: profile_eligible_def)
  then show ?thesis using Some q assms(2) S(1) by (auto simp: floor_recovery_def decision_ok_def)
qed

lemma scale_decision_ok:
  assumes "ValidatePolicy E p = None" "cp_floor p \<le> sn_units s" "sn_units s \<le> cp_ceiling p"
    "cd_action d = ''hold''" "cd_units d = sn_units s" "cd_profile d = sn_profile s" "\<not> cd_permitted d"
  shows "decision_ok p s now (scale_decision p s d up previous now)"
proof -
  define wanted where "wanted = (if up then min (cp_ceiling p) (sn_units s + cp_step p) else max (cp_floor p) (sn_units s - cp_step p))"
  have w: "cp_floor p \<le> wanted" "wanted \<le> cp_ceiling p" "\<bar>wanted - sn_units s\<bar> \<le> cp_step p"
    using ValidatePolicy_envelope [OF assms(1)] assms(2,3) by (auto simp: wanted_def)
  show ?thesis
  proof (cases "cheapestEligible p wanted now")
    case None
    then show ?thesis using assms(4-7) by (simp add: scale_decision_def wanted_def [symmetric] decision_ok_def)
  next
    case (Some q)
    note S = selectEligible_Some [OF Some [unfolded cheapestEligible_def]]
    have q: "pf_min q \<le> wanted" "wanted \<le> pf_max q" "ProfilePlanningCurrent p q (now + pf_readiness q * Second)"
      using S(2) by (auto simp: profile_eligible_def)
    have m: "max wanted (pf_min q) = wanted" using q(1) by simp
    show ?thesis using Some S(1) q w assms(2,4-7)
      by (auto simp: scale_decision_def wanted_def [symmetric] m decision_ok_def Let_def)
  qed
qed

lemma pressure_decision_ok:
  assumes "ValidatePolicy E p = None" "cp_floor p \<le> sn_units s" "sn_units s \<le> cp_ceiling p"
  shows "decision_ok p s now (pressure_decision E p s (holding p s c) pressure c now)"
proof -
  have sc: "decision_ok p s now (scale_decision p s (holding p s c\<lparr>cd_clock := x\<rparr>) up c now)" for x up
    by (rule scale_decision_ok [OF assms]) simp_all
  obtain up down ws where "pressure = (up, down, ws)" by (cases pressure) auto
  then show ?thesis using sc by (auto simp: pressure_decision_def Let_def decision_ok_def [of p s now "_\<lparr>cd_clock := _\<rparr>"] decision_ok_def [of p s now "_\<lparr>cd_reason := _\<rparr>"])
qed

lemma Assess_Inr:
  assumes "Assess E p a c now = Inr d"
  obtains r where "ValidatePolicy E p = None" "d = holdUnknown (holding p (asm_snapshot a) c) r" "r \<in> set evidence_reasons"
  | "ValidatePolicy E p = None" "snapshot_current p (asm_snapshot a) now" "sn_units (asm_snapshot a) < cp_floor p"
    "d = floor_recovery p (asm_snapshot a) (holding p (asm_snapshot a) c) now"
  | pressure where "ValidatePolicy E p = None" "snapshot_current p (asm_snapshot a) now" "cp_floor p \<le> sn_units (asm_snapshot a)"
    "distinct (map ev_name (asm_evidence a))"
    "signal_loop p now (asm_evidence a) (cp_signals p) (False, True, zeroTime) = Some pressure"
    "d = pressure_decision E p (asm_snapshot a) (holding p (asm_snapshot a) c) pressure c now"
proof -
  let ?s = "asm_snapshot a" and ?h = "holding p (asm_snapshot a) c"
  have v: "ValidatePolicy E p = None" using assms by (cases "ValidatePolicy E p") (simp_all add: Assess_def)
  note d = assms [unfolded Assess_def v option.case Let_def sum.inject]
  note hold = that(1)
  have unknown: thesis if "d = holdUnknown ?h r" "r \<in> set evidence_reasons" for r by (rule hold [OF v that])
  show thesis
  proof (cases "snapshot_current p ?s now \<and> knownProfile p (sn_profile ?s)")
    case False
    then show thesis using d by (intro unknown [of "if snapshot_current p ?s now then ''current_profile_unknown'' else ''snapshot_unavailable''"])
      (auto simp: evidence_reasons_def)
  next
    case snap: True
    show thesis
    proof (cases "sn_units ?s < cp_floor p")
      case True
      then show thesis using d snap by (intro that(2) [OF v]) auto
    next
      case size: False
      show thesis
      proof (cases "distinct (map ev_name (asm_evidence a)) \<and> length (asm_evidence a) = length (cp_signals p)")
        case False
        then show thesis using d snap size by (intro unknown [of "if distinct (map ev_name (asm_evidence a)) then ''signal_coverage_missing'' else ''duplicate_signal''"])
          (auto simp: evidence_reasons_def)
      next
        case cover: True
        show thesis
        proof (cases "signal_loop p now (asm_evidence a) (cp_signals p) (False, True, zeroTime)")
          case None
          then show thesis using d snap size cover by (intro unknown [of "''signal_evidence_unavailable''"]) (auto simp: evidence_reasons_def)
        next
          case (Some pressure)
          then show thesis using d snap size cover by (intro that(3) [OF v _ _ _ Some]) auto
        qed
      qed
    qed
  qed
qed

text \<open>C16: A decision never leaves the envelope of its policy. A hold changes nothing and permits nothing. Any other decision targets a size between the floor and the ceiling and a profile of the policy that covers this size and whose quote and validation last until it is ready; below the floor it raises the size, otherwise it changes it by at most one step; and it permits execution only if the policy does.\<close>
theorem assessment_within_envelope:
  assumes "Assess E p a previous now = Inr d"
  shows "if cd_action d = ''hold'' then cd_units d = sn_units (asm_snapshot a) \<and> cd_profile d = sn_profile (asm_snapshot a) \<and> \<not> cd_permitted d
      else cp_floor p \<le> cd_units d \<and> cd_units d \<le> cp_ceiling p \<and> cd_permitted d = cp_enabled p \<and>
        (\<exists>q\<in>set (cp_profiles p). pf_name q = cd_profile d \<and> pf_min q \<le> cd_units d \<and> cd_units d \<le> pf_max q \<and>
           ProfilePlanningCurrent p q (now + pf_readiness q * Second)) \<and>
        (if sn_units (asm_snapshot a) < cp_floor p then sn_units (asm_snapshot a) < cd_units d
         else \<bar>cd_units d - sn_units (asm_snapshot a)\<bar> \<le> cp_step p)"
proof -
  have "decision_ok p (asm_snapshot a) now d"
  proof (rule Assess_Inr [OF assms], goal_cases)
    case (1 r)
    then show ?case by (simp add: decision_ok_def)
  next
    case 2
    then show ?case using floor_recovery_ok by blast
  next
    case (3 pressure)
    then show ?case using pressure_decision_ok [OF 3(1,3)] by (simp add: snapshot_current_def)
  qed
  then show ?thesis unfolding decision_ok_def .
qed

section \<open>Hysteresis\<close>

text \<open>All signals of an observation are present, fresh and low.\<close>

definition signal_surplus :: "CapacityPolicySpec \<Rightarrow> time \<Rightarrow> CapacityEvidence list \<Rightarrow> CapacitySignalRule \<Rightarrow> bool" where
  "signal_surplus p now obs rule =
     (case find (\<lambda>e. ev_name e = sg_name rule) obs of
        None \<Rightarrow> False
      | Some e \<Rightarrow> evidence_usable p now rule e \<and> (case ev_max e of None \<Rightarrow> False | Some hi \<Rightarrow> signal_below p rule hi))"

definition surplus :: "CapacityPolicySpec \<Rightarrow> time \<Rightarrow> CapacityAssessment \<Rightarrow> bool" where
  "surplus p now a \<longleftrightarrow> list_all (signal_surplus p now (asm_evidence a)) (cp_signals p)"

lemma signal_loop_down:
  assumes "signal_loop p now obs rules (up, down, ws) = Some (up', True, ws')"
  shows "down \<and> list_all (signal_surplus p now obs) rules"
  using assms
proof (induction rules arbitrary: up down ws)
  case Nil
  then show ?case by simp
next
  case (Cons rule rules)
  obtain e where e: "find (\<lambda>e. ev_name e = sg_name rule) obs = Some e" using Cons.prems by (auto split: option.splits)
  have u: "evidence_usable p now rule e" using Cons.prems e by (auto split: if_splits)
  obtain v lo hi where v: "ev_value e = Some v" "ev_min e = Some lo" "ev_max e = Some hi"
    using Cons.prems e u by (auto split: option.splits)
  have r: "range_usable v lo hi" using Cons.prems e u v by (auto split: if_splits)
  have "(down \<and> signal_below p rule hi) \<and> list_all (signal_surplus p now obs) rules"
    using Cons.prems e u v r by (intro Cons.IH) simp
  moreover from this have "signal_surplus p now obs rule" using e u v by (simp add: signal_surplus_def)
  ultimately show ?case by simp
qed

text \<open>
  A history of assessments, the newest first, with the clock after it. Between two assessments the store may record an
  action, which clears the two marks or leaves them.
\<close>

type_synonym capacity_call = "time \<times> CapacityAssessment \<times> CapacityDecision"

inductive capacity_run :: "capacity_env \<Rightarrow> CapacityPolicySpec \<Rightarrow> capacity_call list \<Rightarrow> CapacityClockState \<Rightarrow> bool" for E p where
  Start: "ck_down c = zeroTime \<Longrightarrow> capacity_run E p [] c"
| Observe: "capacity_run E p h c \<Longrightarrow> Assess E p a c now = Inr d \<Longrightarrow> capacity_run E p ((now, a, d) # h) (cd_clock d)"
| Acted: "capacity_run E p h c \<Longrightarrow> capacity_run E p h (c\<lparr>ck_action := t, ck_up := zeroTime, ck_down := zeroTime\<rparr>)"
| Noted: "capacity_run E p h c \<Longrightarrow> capacity_run E p h (c\<lparr>ck_action := t\<rparr>)"

text \<open>
  A call of a streak on one workload: a surplus of the same resource, workload and profile. A call that finds the size
  under the floor reads no signal; without an eligible profile it leaves the clock as it was.
\<close>

definition streak_call :: "CapacityPolicySpec \<Rightarrow> string \<Rightarrow> string \<Rightarrow> string \<Rightarrow> capacity_call \<Rightarrow> bool" where
  "streak_call p resource workload profile call =
     (case call of (now, a, d) \<Rightarrow> sn_units (asm_snapshot a) < cp_floor p \<or> surplus p now a \<and> sn_resource (asm_snapshot a) = resource \<and>
        sn_workload (asm_snapshot a) = workload \<and> sn_profile (asm_snapshot a) = profile)"

definition streak :: "CapacityPolicySpec \<Rightarrow> capacity_call list \<Rightarrow> CapacityClockState \<Rightarrow> nat \<Rightarrow> bool" where
  "streak p h c k \<longleftrightarrow> 0 < k \<and> k \<le> length h \<and> fst (h ! (k - 1)) = ck_down c \<and>
     list_all (streak_call p (ck_resource c) (ck_workload c) (ck_profile c)) (take k h)"

lemma scale_decision_clock [simp]: "cd_clock (scale_decision p s d up c now) = cd_clock d"
  by (simp add: scale_decision_def Let_def split: option.splits)

lemma stamped_clock_simps [simp]:
  "ck_resource (stamped_clock E p s c now) = sn_resource s" "ck_workload (stamped_clock E p s c now) = sn_workload s"
  "ck_profile (stamped_clock E p s c now) = sn_profile s"
  "ck_down (stamped_clock E p s c now) = (if same_observed E p s c now then ck_down c else zeroTime)"
  by (simp_all add: stamped_clock_def)

text \<open>
  An assessment that leaves a mark saw a surplus, and the mark is the old one of the same workload or the present; or it
  found the size under the floor and left the clock.
\<close>

lemma Assess_down:
  assumes "Assess E p a c now = Inr d" "ck_down (cd_clock d) \<noteq> zeroTime"
  shows "sn_units (asm_snapshot a) < cp_floor p \<and> cd_clock d = c \<or>
    streak_call p (ck_resource (cd_clock d)) (ck_workload (cd_clock d)) (ck_profile (cd_clock d)) (now, a, d) \<and>
    (ck_down (cd_clock d) = now \<or> ck_down (cd_clock d) = ck_down c \<and> ck_resource c = ck_resource (cd_clock d) \<and>
       ck_workload c = ck_workload (cd_clock d) \<and> ck_profile c = ck_profile (cd_clock d))"
proof (rule Assess_Inr [OF assms(1)], goal_cases)
  case (1 r)
  then show ?case using assms(2) by simp
next
  case 2
  then have "ck_down (cd_clock d) = zeroTime \<or> cd_clock d = c" by (auto simp: floor_recovery_def split: option.splits)
  then show ?case using 2(3) assms(2) by blast
next
  case (3 pressure)
  let ?s = "asm_snapshot a"
  obtain up down ws where pr: "pressure = (up, down, ws)" by (cases pressure) auto
  have ud: "\<not> up" "down" using 3(6) assms(2) pr by (auto simp: pressure_decision_def Let_def split: if_splits)
  have clock: "cd_clock d = (stamped_clock E p ?s c now)\<lparr>ck_up := zeroTime, ck_down := since (ck_down (stamped_clock E p ?s c now)) now\<rparr>"
    using 3(6) ud pr by (simp add: pressure_decision_def Let_def split: if_splits)
  have "surplus p now a" using signal_loop_down [of p now "asm_evidence a" "cp_signals p" False True zeroTime up ws] 3(5) pr ud
    by (simp add: surplus_def)
  then show ?case using clock assms(2) by (auto simp: since_def IsZero_def same_observed_def streak_call_def)
qed

lemma streak_start:
  assumes "streak_call p (ck_resource c) (ck_workload c) (ck_profile c) (now, a, d)" "ck_down c = now"
  shows "streak p ((now, a, d) # h) c 1"
  using assms by (simp add: streak_def)

lemma streak_Cons:
  assumes "streak p h c k" "streak_call p (ck_resource c') (ck_workload c') (ck_profile c') call"
    "ck_down c' = ck_down c" "ck_resource c = ck_resource c'" "ck_workload c = ck_workload c'" "ck_profile c = ck_profile c'"
  shows "streak p (call # h) c' (Suc k)"
proof -
  have "(call # h) ! k = h ! (k - 1)" using assms(1) by (cases k) (simp_all add: streak_def)
  then show ?thesis using assms by (simp add: streak_def)
qed

lemma capacity_run_streak:
  assumes "capacity_run E p h c" "ck_down c \<noteq> zeroTime"
  shows "\<exists>k. streak p h c k"
  using assms
proof (induction rule: capacity_run.induct)
  case (Start c)
  then show ?case by simp
next
  case (Observe h c a now d)
  note D = Assess_down [OF Observe.hyps(2) Observe.prems]
  show ?case
  proof (cases "ck_down (cd_clock d) = now \<and> streak_call p (ck_resource (cd_clock d)) (ck_workload (cd_clock d)) (ck_profile (cd_clock d)) (now, a, d)")
    case True
    then show ?thesis using streak_start by blast
  next
    case False
    then have c: "ck_down (cd_clock d) = ck_down c" "ck_resource c = ck_resource (cd_clock d)" "ck_workload c = ck_workload (cd_clock d)"
      "ck_profile c = ck_profile (cd_clock d)" "streak_call p (ck_resource (cd_clock d)) (ck_workload (cd_clock d)) (ck_profile (cd_clock d)) (now, a, d)"
      using D by (auto simp: streak_call_def)
    then obtain k where "streak p h c k" using Observe.IH Observe.prems by auto
    from streak_Cons [OF this c(5,1-4)] show ?thesis by blast
  qed
next
  case (Acted h c t)
  then show ?case by simp
next
  case (Noted h c t)
  then show ?case by (simp add: streak_def)
qed

lemma scale_decision_reduces:
  assumes "cd_units (scale_decision p s d up c now) < sn_units s" "ValidatePolicy E p = None" "cd_units d = sn_units s" "sn_units s \<le> cp_ceiling p"
  shows "\<not> up \<and> (IsZero (ck_action c) \<or> cp_cooldown p * Second \<le> now - ck_action c)"
  using assms ValidatePolicy_envelope [OF assms(2)] by (auto simp: scale_decision_def Let_def split: option.splits if_splits)

lemma reduction_waits:
  assumes "Assess E p a c now = Inr d" "cd_units d < sn_units (asm_snapshot a)"
  shows "surplus p now a" "ck_down (cd_clock d) = zeroTime \<longrightarrow> now = zeroTime" "cp_down_hold p * Second \<le> now - ck_down (cd_clock d)"
    "IsZero (ck_action c) \<or> cp_cooldown p * Second \<le> now - ck_action c"
    "0 < cp_down_hold p" "cp_floor p \<le> sn_units (asm_snapshot a)"
proof -
  let ?s = "asm_snapshot a"
  have "surplus p now a \<and> (ck_down (cd_clock d) = zeroTime \<longrightarrow> now = zeroTime) \<and> cp_down_hold p * Second \<le> now - ck_down (cd_clock d) \<and>
      (IsZero (ck_action c) \<or> cp_cooldown p * Second \<le> now - ck_action c) \<and> 0 < cp_down_hold p \<and> cp_floor p \<le> sn_units ?s"
  proof (rule Assess_Inr [OF assms(1)], goal_cases)
    case (1 r)
    then show ?case using assms(2) by simp
  next
    case 2
    then have "sn_units ?s \<le> cd_units d" by (auto simp: floor_recovery_def split: option.splits)
    then show ?case using assms(2) by simp
  next
    case (3 pressure)
    obtain up down ws where pr: "pressure = (up, down, ws)" by (cases pressure) auto
    have ceil: "sn_units ?s \<le> cp_ceiling p" using 3(2) by (simp add: snapshot_current_def)
    have R: "\<not> u \<and> (IsZero (ck_action c) \<or> cp_cooldown p * Second \<le> now - ck_action c)"
      if "cd_units (scale_decision p ?s (holding p ?s c\<lparr>cd_clock := x\<rparr>) u c now) < sn_units ?s" for x u
      by (rule scale_decision_reduces [OF that 3(1) _ ceil]) simp
    have "up \<Longrightarrow> cd_units d = sn_units ?s \<or> (\<exists>x. d = scale_decision p ?s (holding p ?s c\<lparr>cd_clock := x\<rparr>) True c now)"
      using 3(6) pr by (auto simp: pressure_decision_def Let_def)
    then have nu: "\<not> up" using R [of _ True] assms(2) by auto
    moreover have "down" using 3(6) assms(2) pr nu by (auto simp: pressure_decision_def Let_def split: if_splits)
    ultimately have ud: "\<not> up" "down" by blast+
    let ?u = "since (ck_down (stamped_clock E p ?s c now)) now"
    have w: "\<not> window_pending now ?u ws (cp_down_hold p)" "cd_clock d = (stamped_clock E p ?s c now)\<lparr>ck_up := zeroTime, ck_down := ?u\<rparr>"
      using 3(6) ud pr assms(2) by (auto simp: pressure_decision_def Let_def split: if_splits)
    have "\<exists>x. d = scale_decision p ?s (holding p ?s c\<lparr>cd_clock := x\<rparr>) False c now"
      using 3(6) ud pr assms(2) by (auto simp: pressure_decision_def Let_def split: if_splits)
    then have "IsZero (ck_action c) \<or> cp_cooldown p * Second \<le> now - ck_action c" using R [of _ False] assms(2) by auto
    moreover have "surplus p now a" using signal_loop_down [of p now "asm_evidence a" "cp_signals p" False True zeroTime up ws] 3(5) pr ud
      by (simp add: surplus_def)
    ultimately show ?case using w 3(3) ValidatePolicy_envelope(5) [OF 3(1)] by (auto simp: window_pending_def since_def IsZero_def)
  qed
  then show "surplus p now a" "ck_down (cd_clock d) = zeroTime \<longrightarrow> now = zeroTime" "cp_down_hold p * Second \<le> now - ck_down (cd_clock d)"
    "IsZero (ck_action c) \<or> cp_cooldown p * Second \<le> now - ck_action c"
    "0 < cp_down_hold p" "cp_floor p \<le> sn_units ?s" by blast+
qed

text \<open>C10: Capacity is only ever reduced after a sustained surplus. When an assessment of any history proposes fewer units than run, then its signals are all present, fresh and low, the last action is at least the cool-down ago, and there is an unbroken row of assessments, from this one back to one at least the hold time earlier, each of which saw a surplus of the same resource, workload and profile; only calls that found the size under the floor, and so read no signal, are passed over.\<close>
theorem reduction_needs_sustained_surplus:
  assumes "capacity_run E p h c" "Assess E p a c now = Inr d" "cd_units d < sn_units (asm_snapshot a)"
  shows "surplus p now a \<and> (IsZero (ck_action c) \<or> cp_cooldown p * Second \<le> now - ck_action c) \<and>
    (\<exists>k. 0 < k \<and> k \<le> length ((now, a, d) # h) \<and> fst (((now, a, d) # h) ! (k - 1)) \<le> now - cp_down_hold p * Second \<and>
      list_all (streak_call p (sn_resource (asm_snapshot a)) (sn_workload (asm_snapshot a)) (sn_profile (asm_snapshot a))) (take k ((now, a, d) # h)))"
proof -
  note R = reduction_waits [OF assms(2,3)]
  have "0 < cp_down_hold p * Second" using R(5) by simp
  then have nz: "ck_down (cd_clock d) \<noteq> zeroTime" using R(2,3) by auto
  have run: "capacity_run E p ((now, a, d) # h) (cd_clock d)" by (rule capacity_run.Observe [OF assms(1,2)])
  obtain k where k: "streak p ((now, a, d) # h) (cd_clock d) k" using capacity_run_streak [OF run nz] by blast
  have "streak_call p (ck_resource (cd_clock d)) (ck_workload (cd_clock d)) (ck_profile (cd_clock d)) (now, a, d)"
    using k by (cases k) (simp_all add: streak_def)
  then have same: "ck_resource (cd_clock d) = sn_resource (asm_snapshot a)" "ck_workload (cd_clock d) = sn_workload (asm_snapshot a)"
    "ck_profile (cd_clock d) = sn_profile (asm_snapshot a)" using R(6) by (simp_all add: streak_call_def)
  show ?thesis using k R(1,3,4) unfolding streak_def same by (intro conjI exI [of _ k]) auto
qed

section \<open>Missing evidence\<close>

lemma signal_loop_usable:
  assumes "signal_loop p now obs rules acc = Some pressure" "rule \<in> set rules"
  shows "list_ex (\<lambda>e. ev_name e = sg_name rule \<and> evidence_usable p now rule e) obs"
  using assms
proof (induction rules arbitrary: acc)
  case Nil
  then show ?case by simp
next
  case (Cons r rules)
  obtain up down ws where acc: "acc = (up, down, ws)" by (cases acc) auto
  obtain e where e: "find (\<lambda>e. ev_name e = sg_name r) obs = Some e" using Cons.prems acc by (auto split: option.splits)
  have u: "evidence_usable p now r e" using Cons.prems e acc by (auto split: if_splits)
  obtain acc' where rest: "signal_loop p now obs rules acc' = Some pressure"
    using Cons.prems e u acc by (auto split: option.splits if_splits)
  show ?case
  proof (cases "rule = r")
    case True
    then show ?thesis using e u by (auto simp: list_ex_iff find_Some_iff)
  next
    case False
    then show ?thesis using Cons.IH [OF rest] Cons.prems(2) by simp
  qed
qed

text \<open>C33: Absent evidence never moves capacity. At or above the floor, when a signal of the policy has no usable observation, the assessment holds, permits nothing, says that evidence is missing and clears both marks of the hysteresis, so that a later change starts its waiting time anew.\<close>
theorem missing_evidence_holds:
  assumes "Assess E p a c now = Inr d" "cp_floor p \<le> sn_units (asm_snapshot a)" "rule \<in> set (cp_signals p)"
    "\<not> list_ex (\<lambda>e. ev_name e = sg_name rule \<and> evidence_usable p now rule e) (asm_evidence a)"
  shows "cd_action d = ''hold'' \<and> \<not> cd_permitted d \<and> cd_units d = sn_units (asm_snapshot a) \<and> cd_reason d \<in> set evidence_reasons \<and>
    ck_up (cd_clock d) = zeroTime \<and> ck_down (cd_clock d) = zeroTime"
proof (rule Assess_Inr [OF assms(1)], goal_cases)
  case (1 r)
  then show ?case by simp
next
  case 2
  then show ?case using assms(2) by simp
next
  case (3 pressure)
  then show ?case using signal_loop_usable [OF 3(5) assms(3)] assms(4) by blast
qed

section \<open>Examples\<close>

definition ex_capacity_env :: capacity_env where
  "ex_capacity_env = \<lparr>ce_power_ok = (\<lambda>_. True), ce_bindings_ok = (\<lambda>_. True), ce_fingerprint = (\<lambda>_. ''f'')\<rparr>"

definition ex_capacity_policy :: CapacityPolicySpec where
  "ex_capacity_policy = \<lparr>cp_power = None, cp_environment = ''prod'', cp_domain = ''web'', cp_dimension = ''replicas'', cp_target = ''t'', cp_owner = ''o'',
     cp_workflow = \<lparr>sel_manifest_id = [], sel_namespace = ''global'', sel_name = ''scale'', sel_version = None\<rparr>, cp_currency = ''USD'',
     cp_floor = 1, cp_ceiling = 4, cp_step = 1, cp_max_age = 60, cp_min_samples = 1, cp_max_gap = 30, cp_up_hold = 0, cp_down_hold = 10,
     cp_cooldown = 0, cp_lease = 30, cp_enabled = True,
     cp_signals = [\<lparr>sg_name = ''cpu'', sg_source = ''s'', sg_unit = ''pct'', sg_up_above = FFin 80, sg_down_below = FFin 20\<rparr>],
     cp_profiles = [\<lparr>pf_name = ''small'', pf_provider = ''aws'', pf_region = ''r'', pf_min = 1, pf_max = 4, pf_cost = 100,
       pf_quote_until = 10000 * Second, pf_validation_until = 10000 * Second, pf_validation_ref = ''v'', pf_readiness = 5\<rparr>],
     cp_mutation_profiles = [], cp_activity = None, cp_reconcile = None,
     cp_assessment_bound = False, cp_hpa_mode = None\<rparr>"

definition ex_observation :: "int \<Rightarrow> rat \<Rightarrow> CapacityAssessment" where
  "ex_observation seconds v = \<lparr>
     asm_snapshot = \<lparr>sn_target = ''t'', sn_resource = ''u'', sn_workload = ''w'', sn_workload_version = ''1'', sn_version = ''1'', sn_owner = ''o'',
       sn_profile = ''small'', sn_units = 3, sn_observed = seconds * Second\<rparr>,
     asm_evidence = [\<lparr>ev_name = ''cpu'', ev_source = ''s'', ev_unit = ''pct'', ev_require = True, ev_matched = True, ev_state = ''present'',
       ev_value = Some (FFin v), ev_min = Some (FFin v), ev_max = Some (FFin v), ev_sampled = seconds * Second, ev_start = (seconds - 20) * Second,
       ev_end = seconds * Second, ev_samples = 5, ev_complete = True, ev_gap = 5\<rparr>]\<rparr>"

definition ex_pending :: CapacityDecision where
  "ex_pending = (case Assess ex_capacity_env ex_capacity_policy (ex_observation 100 10) zero_clock (100 * Second) of Inr d \<Rightarrow> d | Inl _ \<Rightarrow> holding ex_capacity_policy (asm_snapshot (ex_observation 100 10)) zero_clock)"

definition ex_drain :: CapacityDecision where
  "ex_drain = (case Assess ex_capacity_env ex_capacity_policy (ex_observation 115 10) (cd_clock ex_pending) (115 * Second) of Inr d \<Rightarrow> d | Inl _ \<Rightarrow> ex_pending)"

lemma ex_capacity_valid: "ValidatePolicy ex_capacity_env ex_capacity_policy = None"
  by code_simp

lemma ex_pending: "Assess ex_capacity_env ex_capacity_policy (ex_observation 100 10) zero_clock (100 * Second) = Inr ex_pending"
  by code_simp

lemma ex_drain: "Assess ex_capacity_env ex_capacity_policy (ex_observation 115 10) (cd_clock ex_pending) (115 * Second) = Inr ex_drain"
  by code_simp

lemma ex_drain_facts: "cd_action ex_drain = ''drain''" "cd_units ex_drain = 2" "cd_units ex_drain < sn_units (asm_snapshot (ex_observation 115 10))"
  by code_simp+

lemma ex_capacity_run: "capacity_run ex_capacity_env ex_capacity_policy [(100 * Second, ex_observation 100 10, ex_pending)] (cd_clock ex_pending)"
  by (rule capacity_run.Observe [OF capacity_run.Start ex_pending]) (simp add: zero_clock_def)

theorem reduction_needs_sustained_surplus_witness: "surplus ex_capacity_policy (115 * Second) (ex_observation 115 10)"
  using reduction_needs_sustained_surplus [OF ex_capacity_run ex_drain ex_drain_facts(3)] by (rule conjunct1)

theorem assessment_within_envelope_witness: "cp_floor ex_capacity_policy \<le> cd_units ex_drain \<and> cd_units ex_drain \<le> cp_ceiling ex_capacity_policy"
  using assessment_within_envelope [OF ex_drain] by (simp add: ex_drain_facts(1))

theorem cheapest_profile_chosen_witness:
  "\<exists>q. selectEligibleProfile ex_capacity_policy 2 0 False = Some q \<and> profile_eligible ex_capacity_policy 2 0 False q"
proof -
  have "selectEligibleProfile ex_capacity_policy 2 0 False = Some (hd (cp_profiles ex_capacity_policy))" by code_simp
  then show ?thesis using cheapest_profile_chosen [OF ex_capacity_valid, of 2 0 False] by (simp add: ex_capacity_policy_def)
qed

definition ex_blind :: CapacityAssessment where
  "ex_blind = (ex_observation 100 10)\<lparr>asm_evidence := []\<rparr>"

lemma ex_blind: "Assess ex_capacity_env ex_capacity_policy ex_blind zero_clock (100 * Second) =
    Inr (holdUnknown (holding ex_capacity_policy (asm_snapshot ex_blind) zero_clock) ''signal_coverage_missing'')"
  "cp_floor ex_capacity_policy \<le> sn_units (asm_snapshot ex_blind)" "hd (cp_signals ex_capacity_policy) \<in> set (cp_signals ex_capacity_policy)"
  "asm_evidence ex_blind = []"
  by code_simp+

theorem missing_evidence_holds_witness:
  "cd_action (holdUnknown (holding ex_capacity_policy (asm_snapshot ex_blind) zero_clock) ''signal_coverage_missing'') = ''hold''"
  using missing_evidence_holds [OF ex_blind(1-3)] by (simp add: ex_blind(4))

end
