(* ===== verification/Capacity_Ledger.thy ===== *)
theory Capacity_Ledger
  imports Capacity_Planner Identity
begin

text \<open>
  The ledger of capacity intents, \<open>repository/capacity.go\<close>: one durable intent per dimension, with a generation, a
  fencing token and a lease. A call is one serialized transaction at one reading of the database clock. The store is
  the ordinary one, without the private contexts of the guest and host extensions; their guards, which only refuse,
  and the counts over the tables of grants and slots are read from the record \<open>capacity_tx\<close>. The fields that only
  those extensions read are left out.

  The two native executions that take an expired lease over (\<open>AcquireNativeLifetimeExecution\<close> and
  \<open>ResumeNativeExecution\<close>, of \<open>repository/capacity_native_lifetimes.go\<close> and \<open>repository/capacity_native_execution.go\<close>)
  are modelled too. \<open>capacity_step\<close> is the history of these nine operations and of no others. The intent row has further
  writers that are not modelled: \<open>AcquireNativeAdmissionExecution\<close>, which raises the token as well, the native plans, canary
  and completions of \<open>capacity_native_execution.go\<close>, \<open>capacity_native_lifetimes.go\<close> and \<open>capacity_native_canary.go\<close>, which
  run under the current lease and keep its token, the failed-floor source, and the
  reconciliation, retirement, disposal and disposition of guests. A completion closes an outstanding generation without a recovery
  and a native execution clears the recovery mark, so nothing is claimed here about how a generation ends.
\<close>

section \<open>Types\<close>

record CapacityIntent =
  ci_cleanup :: string
  ci_terminal :: bool                  \<comment> \<open>\<open>FailedExpansionTerminalReconcile\<close> is set\<close>
  ci_serving_stage :: "string option"
  ci_installed_stage :: "string option"
  ci_namespace :: string
  ci_policy_name :: string
  ci_policy_id :: string
  ci_checksum :: string
  ci_environment :: string
  ci_domain :: string
  ci_dimension :: string
  ci_generation :: int
  ci_fence :: int
  ci_phase :: string
  ci_lease_owner :: string
  ci_lease_executor :: string
  ci_lease_expires :: "time option"
  ci_recovery :: bool
  ci_degraded :: bool
  ci_baseline :: CapacitySnapshot
  ci_decision :: CapacityDecision
  ci_assessment :: CapacityAssessment
  ci_updated :: time

record CapacityTransitionProof =
  tp_assessment :: CapacityAssessment
  tp_observed :: time
  tp_receipt :: string
  tp_healthy :: bool
  tp_inflight :: "int option"
  tp_mutation_inflight :: "int option"
  tp_provider_fence :: int
  tp_no_mutation :: bool
  tp_authority :: string
  tp_membership :: bool

record capacity_event =
  ie_key :: "string \<times> string \<times> string \<times> string"
  ie_generation :: int
  ie_fence :: int
  ie_phase :: string
  ie_receipt :: string

record capacity_db =
  cdb_intents :: "CapacityIntent list"
  cdb_events :: "capacity_event list"

record stored_policy =
  sp_kind :: string
  sp_id :: string
  sp_checksum :: string
  sp_namespace :: string
  sp_name :: string
  sp_spec :: "CapacityPolicySpec option" \<comment> \<open>None when the document does not decode\<close>

record CapacityStore =
  cs_enabled :: bool
  cs_executor :: string

text \<open>What one transaction reads: the clock, the policy's row, the pinned workflow, the guards, the counts and a drawn UUID.\<close>

record capacity_tx =
  tx_now :: time
  tx_row :: "(string \<times> bool) option"
  tx_workflow_ok :: bool
  tx_admits :: bool
  tx_guards :: "CapacityIntent option \<Rightarrow> CapacityIntent \<Rightarrow> bool"
  tx_unresolved :: nat
  tx_slots :: "nat \<times> nat \<times> nat"
  tx_ensured :: nat
  tx_mutations :: nat
  tx_owner :: string

datatype intent_error =
    IntentConflict
  | IntentLease
  | IntentDisabled
  | IntentPolicy capacity_error
  | PolicyIdentityRequired
  | PolicyUndecodable
  | PolicyRowMissing
  | QuoteExpired
  | ReceiptRequired
  | InflightWork
  | TargetMismatch
  | OutcomeInvalid
  | AuthorityInvalid
  | PartialInvalid
  | FailedFloorInvalid
  | AbortUnproved

section \<open>Predicates\<close>

definition maxCapacityGeneration :: int where
  "maxCapacityGeneration = 9007199254740991"

definition pendingCapacityPhase :: "string \<Rightarrow> bool" where
  "pendingCapacityPhase phase \<longleftrightarrow>
     phase \<notin> {''disposed_failed_serving'', ''disposed_failed_installed'', ''envelope_applied'', ''native_completed'', ''hold'', ''promoted'',
       ''reconciled'', ''reconciled_partial'', ''reconciled_failed_floor'', ''aborted''}"

definition sameCapacityResourceIdentity :: "CapacitySnapshot \<Rightarrow> CapacitySnapshot \<Rightarrow> bool" where
  "sameCapacityResourceIdentity a b \<longleftrightarrow> sn_target a = sn_target b \<and> sn_resource a = sn_resource b \<and> sn_workload a = sn_workload b \<and> sn_owner a = sn_owner b"

definition sameCapacityResources :: "CapacitySnapshot \<Rightarrow> CapacitySnapshot \<Rightarrow> bool" where
  "sameCapacityResources a b \<longleftrightarrow> sameCapacityResourceIdentity a b \<and> sn_workload_version a = sn_workload_version b"

definition capacityTransitionAllowed :: "string \<Rightarrow> string \<Rightarrow> bool" where
  "capacityTransitionAllowed src to \<longleftrightarrow>
     src = ''preparing'' \<and> to = ''prepared'' \<or> src = ''prepared'' \<and> to = ''canary'' \<or> src = ''canary'' \<and> to = ''promoted'' \<or>
     src = ''draining'' \<and> to = ''drained'' \<or> src = ''drained'' \<and> to = ''promoted''"

definition validCapacityExecutor :: "(string \<Rightarrow> string option) \<Rightarrow> string \<Rightarrow> bool" where
  "validCapacityExecutor uuid i = (case uuid i of None \<Rightarrow> False | Some parsed \<Rightarrow> parsed \<noteq> nil_uuid)"

definition capacityProfileCurrent :: "CapacityPolicySpec \<Rightarrow> CapacityDecision \<Rightarrow> time \<Rightarrow> bool" where
  "capacityProfileCurrent p d now \<longleftrightarrow>
     list_ex (\<lambda>q. pf_name q = cd_profile d \<and> pf_min q \<le> cd_units d \<and> cd_units d \<le> pf_max q \<and> ProfilePlanningCurrent p q now) (cp_profiles p)"

definition validCapacityBaseline :: "CapacityPolicySpec \<Rightarrow> CapacityIntent \<Rightarrow> bool" where
  "validCapacityBaseline p i =
     (let b = ci_baseline i in
      \<not> (IsZero (sn_observed b) \<or> sn_workload_version b = [] \<or> sn_version b = [] \<or> sn_resource b = [] \<or> sn_workload b = [] \<or>
         sn_target b \<noteq> cp_target p \<or> sn_owner b \<noteq> cp_owner p \<or> sn_units b < 0 \<or> cp_ceiling p < sn_units b \<or>
         \<not> sameCapacityResourceIdentity b (asm_snapshot (ci_assessment i))) \<and>
      knownProfile p (sn_profile b))"

definition capacityIntentReduction :: "CapacityIntent \<Rightarrow> bool" where
  "capacityIntentReduction i \<longleftrightarrow> cd_action (ci_decision i) = ''drain'' \<or> cd_units (ci_decision i) < sn_units (ci_baseline i)"

definition redactCapacityLease :: "CapacityIntent \<Rightarrow> CapacityIntent" where
  "redactCapacityLease i = i\<lparr>ci_lease_owner := [], ci_lease_executor := []\<rparr>"

definition failedServingQuarantineBlocks :: "CapacityIntent option \<Rightarrow> bool" where
  "failedServingQuarantineBlocks i =
     (case i of None \<Rightarrow> False
      | Some x \<Rightarrow> ci_phase x = ''serving_guest_quarantined'' \<or> (case ci_serving_stage x of None \<Rightarrow> False | Some stage \<Rightarrow> stage \<noteq> ''terminal''))"

definition lease_live :: "CapacityIntent \<Rightarrow> time \<Rightarrow> bool" where
  "lease_live i now = (case ci_lease_expires i of None \<Rightarrow> False | Some t \<Rightarrow> now < t)"

section \<open>Transactions\<close>

definition intent_key :: "CapacityIntent \<Rightarrow> string \<times> string \<times> string \<times> string" where
  "intent_key i = (ci_namespace i, ci_environment i, ci_domain i, ci_dimension i)"

definition policy_key :: "stored_policy \<Rightarrow> CapacityPolicySpec \<Rightarrow> string \<times> string \<times> string \<times> string" where
  "policy_key policy p = (sp_namespace policy, cp_environment p, cp_domain p, cp_dimension p)"

definition loadCapacityIntent :: "capacity_db \<Rightarrow> string \<times> string \<times> string \<times> string \<Rightarrow> CapacityIntent option" where
  "loadCapacityIntent db k = find (\<lambda>i. intent_key i = k) (cdb_intents db)"

definition parseCapacityPolicy :: "capacity_env \<Rightarrow> stored_policy \<Rightarrow> intent_error + CapacityPolicySpec" where
  "parseCapacityPolicy E policy =
     (if sp_kind policy \<noteq> ''capacity_policy'' \<or> sp_id policy = nil_uuid \<or> sp_checksum policy = [] \<or> sp_namespace policy = [] \<or> sp_name policy = []
      then Inl PolicyIdentityRequired
      else case sp_spec policy of
        None \<Rightarrow> Inl PolicyUndecodable
      | Some p \<Rightarrow> (case ValidatePolicy E p of Some e \<Rightarrow> Inl (IntentPolicy e) | None \<Rightarrow> Inr p))"

definition terminal_phases :: "string list" where
  "terminal_phases = [''promoted'', ''reconciled'', ''reconciled_partial'', ''reconciled_failed_floor'', ''aborted'']"

definition terminal_refused :: "capacity_tx \<Rightarrow> CapacityIntent \<Rightarrow> bool" where
  "terminal_refused T j \<longleftrightarrow>
     ci_phase j \<in> set terminal_phases \<and>
     (tx_unresolved T \<noteq> 0 \<or>
      (ci_phase j = ''reconciled_partial'' \<or> ci_phase j = ''reconciled_failed_floor'') \<and>
        (case tx_slots T of (live, recent, matching) \<Rightarrow> int live \<noteq> sn_units (asm_snapshot (ci_assessment j)) \<or> recent \<noteq> live \<or> matching \<noteq> live) \<or>
      ci_phase j = ''reconciled_failed_floor'' \<and> tx_ensured T \<noteq> 0 \<or>
      ci_phase j = ''aborted'' \<and> tx_mutations T \<noteq> 0)"

definition put_intent :: "CapacityIntent \<Rightarrow> CapacityIntent list \<Rightarrow> CapacityIntent list" where
  "put_intent j rows =
     (if list_ex (\<lambda>i. intent_key i = intent_key j) rows then map (\<lambda>i. if intent_key i = intent_key j then j else i) rows else rows @ [j])"

definition store_intent :: "CapacityIntent option \<Rightarrow> CapacityIntent \<Rightarrow> string \<Rightarrow> capacity_db \<Rightarrow> capacity_db" where
  "store_intent previous j receipt db =
     \<lparr>cdb_intents = put_intent j (cdb_intents db),
      cdb_events = (if (case previous of None \<Rightarrow> True | Some i \<Rightarrow> ci_generation j \<noteq> ci_generation i \<or> ci_fence j \<noteq> ci_fence i \<or> ci_phase j \<noteq> ci_phase i)
        then cdb_events db @ [\<lparr>ie_key = intent_key j, ie_generation = ci_generation j, ie_fence = ci_fence j, ie_phase = ci_phase j, ie_receipt = receipt\<rparr>]
        else cdb_events db)\<rparr>"

type_synonym capacity_mutation = "CapacityPolicySpec \<Rightarrow> CapacityIntent option \<Rightarrow> time \<Rightarrow> intent_error + CapacityIntent \<times> string"

definition capacityTransaction ::
  "capacity_env \<Rightarrow> capacity_tx \<Rightarrow> stored_policy \<Rightarrow> bool \<Rightarrow> capacity_mutation \<Rightarrow> capacity_db \<Rightarrow> intent_error + CapacityIntent \<times> capacity_db" where
  "capacityTransaction E T policy historical mutate db =
     (case parseCapacityPolicy E policy of
        Inl e \<Rightarrow> Inl e
      | Inr p \<Rightarrow>
          (case tx_row T of
             None \<Rightarrow> Inl PolicyRowMissing
           | Some (checksum, active) \<Rightarrow>
               if \<not> active \<and> \<not> historical \<or> checksum \<noteq> sp_checksum policy then Inl IntentConflict
               else if \<not> tx_workflow_ok T then Inl IntentConflict
               else let previous = loadCapacityIntent db (policy_key policy p) in
                 if (case previous of None \<Rightarrow> False | Some old \<Rightarrow> ci_policy_name old \<noteq> sp_name policy) then Inl IntentConflict
                 else if failedServingQuarantineBlocks previous then Inl IntentConflict
                 else if \<not> tx_admits T then Inl IntentConflict
                 else if (case previous of None \<Rightarrow> False
                          | Some old \<Rightarrow> (case ci_installed_stage old of None \<Rightarrow> False | Some stage \<Rightarrow> stage \<noteq> ''terminal'')) then Inl IntentConflict
                 else (case mutate p previous (tx_now T) of
                         Inl e \<Rightarrow> Inl e
                       | Inr (j, receipt) \<Rightarrow>
                           if \<not> tx_guards T previous j then Inl IntentConflict
                           else if terminal_refused T j then Inl IntentConflict
                           else Inr (j, store_intent previous j receipt db))))"

section \<open>Operations\<close>

definition same_policy :: "stored_policy \<Rightarrow> CapacityIntent \<Rightarrow> bool" where
  "same_policy policy i \<longleftrightarrow> ci_policy_id i = sp_id policy \<and> ci_checksum i = sp_checksum policy"

definition lease_until :: "CapacityPolicySpec \<Rightarrow> time \<Rightarrow> time option" where
  "lease_until p now = Some (now + cp_lease p * Second)"

text \<open>The value that an assessment stores; the fields it does not set are zero.\<close>

definition zero_snapshot :: CapacitySnapshot where
  "zero_snapshot = \<lparr>sn_target = [], sn_resource = [], sn_workload = [], sn_workload_version = [], sn_version = [], sn_owner = [],
     sn_profile = [], sn_units = 0, sn_observed = zeroTime\<rparr>"

definition assessed_intent ::
  "stored_policy \<Rightarrow> CapacityPolicySpec \<Rightarrow> int \<Rightarrow> int \<Rightarrow> string \<Rightarrow> CapacityDecision \<Rightarrow> CapacityAssessment \<Rightarrow> time \<Rightarrow> CapacityIntent" where
  "assessed_intent policy p generation fence phase d a now =
     \<lparr>ci_cleanup = [], ci_terminal = False, ci_serving_stage = None, ci_installed_stage = None,
      ci_namespace = sp_namespace policy, ci_policy_name = sp_name policy, ci_policy_id = sp_id policy, ci_checksum = sp_checksum policy,
      ci_environment = cp_environment p, ci_domain = cp_domain p, ci_dimension = cp_dimension p,
      ci_generation = generation, ci_fence = fence, ci_phase = phase, ci_lease_owner = [], ci_lease_executor = [], ci_lease_expires = None,
      ci_recovery = False, ci_degraded = False, ci_baseline = zero_snapshot, ci_decision = d, ci_assessment = a, ci_updated = now\<rparr>"

definition assess_fresh ::
  "capacity_env \<Rightarrow> CapacityStore \<Rightarrow> stored_policy \<Rightarrow> CapacityAssessment \<Rightarrow> CapacityPolicySpec \<Rightarrow> CapacityIntent option \<Rightarrow> time \<Rightarrow> int \<Rightarrow> int \<Rightarrow>
   CapacityClockState \<Rightarrow> intent_error + CapacityIntent \<times> string" where
  "assess_fresh E S policy a p old now generation fence clock =
     (case Assess E p a clock now of
        Inl e \<Rightarrow> Inl (IntentPolicy e)
      | Inr d0 \<Rightarrow>
          let d = d0\<lparr>cd_permitted := cd_permitted d0 \<and> cs_enabled S\<rparr>;
              repeated = (case old of None \<Rightarrow> False
                | Some i \<Rightarrow> ci_phase i = ''proposed'' \<and> same_policy policy i \<and> cd_action (ci_decision i) = cd_action d \<and>
                    cd_profile (ci_decision i) = cd_profile d \<and> cd_units (ci_decision i) = cd_units d) in
          if cd_action d = ''hold'' then Inr (assessed_intent policy p generation fence ''hold'' d a now, [])
          else if repeated then Inr (assessed_intent policy p generation fence ''proposed'' d a now, [])
          else if maxCapacityGeneration \<le> generation then Inl IntentConflict
          else Inr (assessed_intent policy p (generation + 1) fence ''proposed'' d a now, []))"

definition assess_mutation :: "capacity_env \<Rightarrow> CapacityStore \<Rightarrow> stored_policy \<Rightarrow> CapacityAssessment \<Rightarrow> capacity_mutation" where
  "assess_mutation E S policy a p old now =
     (case old of
        Some i \<Rightarrow>
          if ci_cleanup i \<noteq> [] then Inr (i, [])
          else if pendingCapacityPhase (ci_phase i) \<and> ci_phase i \<noteq> ''proposed''
          then (if \<not> same_policy policy i then Inl IntentConflict else Inr (i, []))
          else assess_fresh E S policy a p old now (ci_generation i) (ci_fence i)
                 (if ci_checksum i = sp_checksum policy \<and> sameCapacityResourceIdentity (asm_snapshot (ci_assessment i)) (asm_snapshot a)
                  then cd_clock (ci_decision i) else zero_clock\<lparr>ck_action := ck_action (cd_clock (ci_decision i))\<rparr>)
      | None \<Rightarrow> assess_fresh E S policy a p old now 0 0 zero_clock)"

definition AssessIntent ::
  "capacity_env \<Rightarrow> CapacityStore \<Rightarrow> capacity_tx \<Rightarrow> stored_policy \<Rightarrow> CapacityAssessment \<Rightarrow> capacity_db \<Rightarrow> intent_error + CapacityIntent \<times> capacity_db" where
  "AssessIntent E S T policy a db = map_sum id (map_prod redactCapacityLease id) (capacityTransaction E T policy False (assess_mutation E S policy a) db)"

definition claim_mutation :: "capacity_env \<Rightarrow> (string \<Rightarrow> string option) \<Rightarrow> CapacityStore \<Rightarrow> string \<Rightarrow> stored_policy \<Rightarrow> int \<Rightarrow> CapacityAssessment \<Rightarrow> capacity_mutation" where
  "claim_mutation E uuid S owner policy generation a p old now =
     (if \<not> cs_enabled S \<or> \<not> cp_enabled p then Inl IntentDisabled
      else if \<not> validCapacityExecutor uuid (cs_executor S) then Inl IntentLease
      else case old of
        None \<Rightarrow> Inl IntentConflict
      | Some i \<Rightarrow>
          if ci_generation i \<noteq> generation \<or> \<not> same_policy policy i \<or> ci_recovery i \<or> \<not> pendingCapacityPhase (ci_phase i) then Inl IntentConflict
          else if lease_live i now then Inl IntentLease
          else if ci_phase i \<noteq> ''proposed'' then Inl IntentConflict
          else (case ValidateSnapshot p a now of
            Some e \<Rightarrow> Inl (IntentPolicy e)
          | None \<Rightarrow>
              if \<not> sameCapacityResourceIdentity (asm_snapshot (ci_assessment i)) (asm_snapshot a) then Inl IntentConflict
              else if \<not> sameCapacityResources (asm_snapshot (ci_assessment i)) (asm_snapshot a) then Inl IntentConflict
              else (case (if cd_reason (ci_decision i) \<noteq> ''protected_floor_recovery'' then ValidateAssessment E p a now else None) of
                Some e \<Rightarrow> Inl (IntentPolicy e)
              | None \<Rightarrow>
                  (case Assess E p a (cd_clock (ci_decision i)) now of
                     Inl e \<Rightarrow> Inl (IntentPolicy e)
                   | Inr d \<Rightarrow>
                       if cd_action d \<noteq> cd_action (ci_decision i) \<or> cd_units d \<noteq> cd_units (ci_decision i) \<or> cd_profile d \<noteq> cd_profile (ci_decision i)
                       then Inl IntentConflict
                       else if maxCapacityGeneration \<le> ci_fence i then Inl IntentConflict
                       else Inr (i\<lparr>ci_assessment := a,
                              ci_decision := (ci_decision i)\<lparr>cd_permitted := capacityProfileCurrent p (ci_decision i) now\<rparr>,
                              ci_fence := ci_fence i + 1, ci_lease_owner := owner, ci_lease_executor := cs_executor S,
                              ci_lease_expires := lease_until p now, ci_updated := now, ci_baseline := asm_snapshot a,
                              ci_phase := (if cd_action (ci_decision i) = ''drain'' then ''draining'' else ''preparing'')\<rparr>, [])))))"

definition Claim ::
  "capacity_env \<Rightarrow> (string \<Rightarrow> string option) \<Rightarrow> CapacityStore \<Rightarrow> capacity_tx \<Rightarrow> stored_policy \<Rightarrow> int \<Rightarrow> CapacityAssessment \<Rightarrow> capacity_db \<Rightarrow> intent_error + CapacityIntent \<times> capacity_db" where
  "Claim E uuid S T policy generation a db = capacityTransaction E T policy False (claim_mutation E uuid S (tx_owner T) policy generation a) db"

definition checkLease :: "(string \<Rightarrow> string option) \<Rightarrow> CapacityStore \<Rightarrow> CapacityPolicySpec \<Rightarrow> stored_policy \<Rightarrow> CapacityIntent option \<Rightarrow> int \<Rightarrow> int \<Rightarrow> string \<Rightarrow> time \<Rightarrow> intent_error + CapacityIntent" where
  "checkLease uuid S p policy old generation fence owner now =
     (case old of
        None \<Rightarrow> Inl (if \<not> cs_enabled S \<or> \<not> cp_enabled p then IntentDisabled else IntentConflict)
      | Some i \<Rightarrow>
          if ci_terminal i then Inl IntentConflict
          else if \<not> cs_enabled S \<or> \<not> cp_enabled p then Inl IntentDisabled
          else if ci_cleanup i \<noteq> [] then Inl IntentConflict
          else if ci_generation i \<noteq> generation \<or> ci_fence i \<noteq> fence \<or> \<not> same_policy policy i \<or> ci_recovery i \<or> \<not> pendingCapacityPhase (ci_phase i)
          then Inl IntentConflict
          else if \<not> validCapacityExecutor uuid (cs_executor S) \<or> ci_lease_executor i \<noteq> cs_executor S \<or> owner = [] \<or> ci_lease_owner i \<noteq> owner \<or> \<not> lease_live i now
          then Inl IntentLease
          else Inr i)"

definition renew_mutation :: "(string \<Rightarrow> string option) \<Rightarrow> CapacityStore \<Rightarrow> stored_policy \<Rightarrow> int \<Rightarrow> int \<Rightarrow> string \<Rightarrow> capacity_mutation" where
  "renew_mutation uuid S policy generation fence owner p old now =
     (case checkLease uuid S p policy old generation fence owner now of
        Inl e \<Rightarrow> Inl e
      | Inr i \<Rightarrow>
          if ci_cleanup i \<noteq> [] \<or> ci_terminal i then Inl IntentConflict
          else Inr (i\<lparr>ci_decision := (ci_decision i)\<lparr>cd_permitted := capacityProfileCurrent p (ci_decision i) now\<rparr>,
                      ci_lease_expires := lease_until p now, ci_updated := now\<rparr>, []))"

definition Renew ::
  "capacity_env \<Rightarrow> (string \<Rightarrow> string option) \<Rightarrow> CapacityStore \<Rightarrow> capacity_tx \<Rightarrow> stored_policy \<Rightarrow> int \<Rightarrow> int \<Rightarrow> string \<Rightarrow> capacity_db \<Rightarrow> intent_error + CapacityIntent \<times> capacity_db" where
  "Renew E uuid S T policy generation fence owner db = capacityTransaction E T policy False (renew_mutation uuid S policy generation fence owner) db"

definition receipt_usable :: "CapacityPolicySpec \<Rightarrow> CapacityTransitionProof \<Rightarrow> time \<Rightarrow> bool" where
  "receipt_usable p pf now \<longleftrightarrow>
     \<not> (tp_receipt pf = [] \<or> 512 < length (tp_receipt pf) \<or> \<not> fresh (tp_observed pf) now (cp_max_age p) \<or> \<not> tp_healthy pf \<or>
        (case tp_inflight pf of None \<Rightarrow> True | Some n \<Rightarrow> n < 0))"

definition closed_clock :: "CapacityDecision \<Rightarrow> time \<Rightarrow> CapacityDecision" where
  "closed_clock d now = d\<lparr>cd_clock := (cd_clock d)\<lparr>ck_action := now, ck_up := zeroTime, ck_down := zeroTime\<rparr>\<rparr>"

definition advanced_intent :: "CapacityPolicySpec \<Rightarrow> CapacityIntent \<Rightarrow> string \<Rightarrow> CapacityTransitionProof \<Rightarrow> time \<Rightarrow> CapacityIntent" where
  "advanced_intent p i phase pf now =
     (let j = i\<lparr>ci_decision := (ci_decision i)\<lparr>cd_permitted := capacityProfileCurrent p (ci_decision i) now\<rparr>,
                ci_phase := phase, ci_assessment := tp_assessment pf, ci_updated := now\<rparr> in
      if phase = ''promoted''
      then j\<lparr>ci_lease_owner := [], ci_lease_executor := [], ci_lease_expires := None, ci_decision := closed_clock (ci_decision j) now\<rparr>
      else j)"

definition advance_mutation ::
  "capacity_env \<Rightarrow> (string \<Rightarrow> string option) \<Rightarrow> CapacityStore \<Rightarrow> stored_policy \<Rightarrow> int \<Rightarrow> int \<Rightarrow> string \<Rightarrow> string \<Rightarrow> CapacityTransitionProof \<Rightarrow> capacity_mutation" where
  "advance_mutation E uuid S policy generation fence owner phase pf p old now =
     (case checkLease uuid S p policy old generation fence owner now of
        Inl e \<Rightarrow> Inl e
      | Inr i \<Rightarrow>
          if \<not> capacityTransitionAllowed (ci_phase i) phase then Inl IntentConflict
          else if (phase = ''prepared'' \<or> phase = ''canary'') \<and> \<not> capacityProfileCurrent p (ci_decision i) now then Inl QuoteExpired
          else if \<not> receipt_usable p pf now then Inl ReceiptRequired
          else (case ValidateAssessment E p (tp_assessment pf) now of
            Some e \<Rightarrow> Inl (IntentPolicy e)
          | None \<Rightarrow>
              if \<not> sameCapacityResourceIdentity (asm_snapshot (ci_assessment i)) (asm_snapshot (tp_assessment pf)) then Inl IntentConflict
              else if (phase = ''drained'' \<or> phase = ''promoted'' \<and> capacityIntentReduction i) \<and> tp_inflight pf \<noteq> Some 0 then Inl InflightWork
              else if phase = ''promoted'' \<and> (sn_units (asm_snapshot (tp_assessment pf)) \<noteq> cd_units (ci_decision i) \<or>
                        sn_profile (asm_snapshot (tp_assessment pf)) \<noteq> cd_profile (ci_decision i)) then Inl TargetMismatch
              else Inr (advanced_intent p i phase pf now, tp_receipt pf)))"

definition Advance ::
  "capacity_env \<Rightarrow> (string \<Rightarrow> string option) \<Rightarrow> CapacityStore \<Rightarrow> capacity_tx \<Rightarrow> stored_policy \<Rightarrow> int \<Rightarrow> int \<Rightarrow> string \<Rightarrow> string \<Rightarrow> CapacityTransitionProof \<Rightarrow> capacity_db \<Rightarrow> intent_error + CapacityIntent \<times> capacity_db" where
  "Advance E uuid S T policy generation fence owner phase pf db =
     capacityTransaction E T policy False (advance_mutation E uuid S policy generation fence owner phase pf) db"

definition Observe :: "capacity_env \<Rightarrow> stored_policy \<Rightarrow> capacity_db \<Rightarrow> intent_error + CapacityIntent" where
  "Observe E policy db =
     (case parseCapacityPolicy E policy of
        Inl e \<Rightarrow> Inl e
      | Inr p \<Rightarrow>
          (case loadCapacityIntent db (policy_key policy p) of
             None \<Rightarrow> Inl PolicyRowMissing
           | Some i \<Rightarrow> if ci_policy_name i \<noteq> sp_name policy then Inl IntentConflict else Inr (redactCapacityLease i)))"

section \<open>Recovery\<close>

definition recover_mutation :: "(string \<Rightarrow> string option) \<Rightarrow> CapacityStore \<Rightarrow> string \<Rightarrow> stored_policy \<Rightarrow> int \<Rightarrow> CapacityAssessment \<Rightarrow> capacity_mutation" where
  "recover_mutation uuid S owner policy generation a p old now =
     (case old of
        None \<Rightarrow> Inl IntentConflict
      | Some i \<Rightarrow>
          if ci_cleanup i \<noteq> [] \<or> ci_terminal i then Inl IntentConflict
          else if \<not> validCapacityExecutor uuid (cs_executor S) \<or> \<not> same_policy policy i \<or> ci_generation i \<noteq> generation \<or> ci_phase i = ''proposed'' \<or>
                  \<not> pendingCapacityPhase (ci_phase i) then Inl IntentConflict
          else if lease_live i now then Inl IntentLease
          else (case ValidateSnapshot p a now of
            Some e \<Rightarrow> Inl (IntentPolicy e)
          | None \<Rightarrow>
              if \<not> validCapacityBaseline p i \<or> \<not> sameCapacityResourceIdentity (ci_baseline i) (asm_snapshot a) then Inl IntentConflict
              else if maxCapacityGeneration \<le> ci_fence i then Inl IntentConflict
              else Inr (i\<lparr>ci_recovery := True, ci_decision := (ci_decision i)\<lparr>cd_permitted := False\<rparr>, ci_assessment := a, ci_updated := now,
                          ci_fence := ci_fence i + 1, ci_lease_owner := owner, ci_lease_executor := cs_executor S,
                          ci_lease_expires := lease_until p now\<rparr>, [])))"

definition Recover ::
  "capacity_env \<Rightarrow> (string \<Rightarrow> string option) \<Rightarrow> CapacityStore \<Rightarrow> capacity_tx \<Rightarrow> stored_policy \<Rightarrow> int \<Rightarrow> CapacityAssessment \<Rightarrow> capacity_db \<Rightarrow> intent_error + CapacityIntent \<times> capacity_db" where
  "Recover E uuid S T policy generation a db = capacityTransaction E T policy True (recover_mutation uuid S (tx_owner T) policy generation a) db"

definition checkRecoveryLease :: "(string \<Rightarrow> string option) \<Rightarrow> CapacityStore \<Rightarrow> stored_policy \<Rightarrow> CapacityIntent option \<Rightarrow> int \<Rightarrow> int \<Rightarrow> string \<Rightarrow> time \<Rightarrow> intent_error + CapacityIntent" where
  "checkRecoveryLease uuid S policy old generation fence owner now =
     (case old of
        None \<Rightarrow> Inl IntentConflict
      | Some i \<Rightarrow>
          if \<not> same_policy policy i \<or> ci_generation i \<noteq> generation \<or> ci_fence i \<noteq> fence \<or> \<not> ci_recovery i \<or> ci_phase i = ''proposed'' \<or>
             \<not> pendingCapacityPhase (ci_phase i) then Inl IntentConflict
          else if \<not> validCapacityExecutor uuid (cs_executor S) \<or> ci_lease_executor i \<noteq> cs_executor S \<or> owner = [] \<or> ci_lease_owner i \<noteq> owner \<or> \<not> lease_live i now
          then Inl IntentLease
          else Inr i)"

definition renew_recovery_mutation :: "(string \<Rightarrow> string option) \<Rightarrow> CapacityStore \<Rightarrow> stored_policy \<Rightarrow> int \<Rightarrow> int \<Rightarrow> string \<Rightarrow> capacity_mutation" where
  "renew_recovery_mutation uuid S policy generation fence owner p old now =
     (case checkRecoveryLease uuid S policy old generation fence owner now of
        Inl e \<Rightarrow> Inl e
      | Inr i \<Rightarrow> Inr (i\<lparr>ci_decision := (ci_decision i)\<lparr>cd_permitted := False\<rparr>, ci_lease_expires := lease_until p now, ci_updated := now\<rparr>, []))"

definition RenewRecovery ::
  "capacity_env \<Rightarrow> (string \<Rightarrow> string option) \<Rightarrow> CapacityStore \<Rightarrow> capacity_tx \<Rightarrow> stored_policy \<Rightarrow> int \<Rightarrow> int \<Rightarrow> string \<Rightarrow> capacity_db \<Rightarrow> intent_error + CapacityIntent \<times> capacity_db" where
  "RenewRecovery E uuid S T policy generation fence owner db =
     capacityTransaction E T policy True (renew_recovery_mutation uuid S policy generation fence owner) db"

definition recovery_outcomes :: "string list" where
  "recovery_outcomes = [''reconciled'', ''reconciled_partial'', ''reconciled_failed_floor'', ''aborted'']"

definition partial_invalid :: "CapacityPolicySpec \<Rightarrow> CapacityIntent \<Rightarrow> CapacityTransitionProof \<Rightarrow> bool" where
  "partial_invalid p i pf =
     (let b = ci_baseline i; s = asm_snapshot (tp_assessment pf); wanted = cd_units (ci_decision i) in
      tp_authority pf \<noteq> ''core_mutation_grants'' \<or> \<not> tp_membership pf \<or> tp_no_mutation pf \<or> sn_profile b \<noteq> cd_profile (ci_decision i) \<or>
      sn_profile s \<noteq> cd_profile (ci_decision i) \<or> sn_units s < cp_floor p \<or> cp_ceiling p < sn_units s \<or>
      sn_units s < min (sn_units b) wanted \<or> max (sn_units b) wanted < sn_units s \<or> sn_units s = wanted)"

definition failed_floor_invalid :: "CapacityPolicySpec \<Rightarrow> CapacityIntent \<Rightarrow> CapacityTransitionProof \<Rightarrow> bool" where
  "failed_floor_invalid p i pf =
     (let b = ci_baseline i; s = asm_snapshot (tp_assessment pf) in
      tp_authority pf \<noteq> ''core_mutation_grants'' \<or> \<not> tp_membership pf \<or> tp_no_mutation pf \<or> cd_reason (ci_decision i) \<noteq> ''protected_floor_recovery'' \<or>
      capacityIntentReduction i \<or> cp_floor p \<le> sn_units b \<or> sn_profile b \<noteq> cd_profile (ci_decision i) \<or>
      sn_profile s \<noteq> sn_profile b \<or> sn_units s \<noteq> sn_units b)"

text \<open>The profile and the size that an outcome must have been observed with.\<close>

definition wanted_state :: "CapacityIntent \<Rightarrow> string \<Rightarrow> CapacityTransitionProof \<Rightarrow> string \<times> int" where
  "wanted_state i outcome pf =
     (if outcome = ''reconciled_failed_floor'' \<or> outcome = ''aborted'' then (sn_profile (ci_baseline i), sn_units (ci_baseline i))
      else if outcome = ''reconciled_partial'' then (cd_profile (ci_decision i), sn_units (asm_snapshot (tp_assessment pf)))
      else (cd_profile (ci_decision i), cd_units (ci_decision i)))"

definition reconcile_mutation ::
  "capacity_env \<Rightarrow> (string \<Rightarrow> string option) \<Rightarrow> CapacityStore \<Rightarrow> stored_policy \<Rightarrow> int \<Rightarrow> int \<Rightarrow> string \<Rightarrow> string \<Rightarrow> CapacityTransitionProof \<Rightarrow> capacity_mutation" where
  "reconcile_mutation E uuid S policy generation fence owner outcome pf p old now =
     (case checkRecoveryLease uuid S policy old generation fence owner now of
        Inl e \<Rightarrow> Inl e
      | Inr i \<Rightarrow>
          if outcome \<notin> set recovery_outcomes then Inl OutcomeInvalid
          else if \<not> receipt_usable p pf now \<or> tp_mutation_inflight pf \<noteq> Some 0 then Inl ReceiptRequired
          else if (if tp_authority pf = ''core_mutation_grants'' then cp_mutation_profiles p = [] \<or> tp_provider_fence pf \<noteq> 0
                   else tp_authority pf \<noteq> [] \<or> tp_provider_fence pf \<noteq> fence) then Inl AuthorityInvalid
          else (case (if cd_reason (ci_decision i) = ''protected_floor_recovery'' \<and> \<not> capacityIntentReduction i
                      then ValidateSnapshot p (tp_assessment pf) now else ValidateAssessment E p (tp_assessment pf) now) of
            Some e \<Rightarrow> Inl (IntentPolicy e)
          | None \<Rightarrow>
              if \<not> validCapacityBaseline p i \<or> \<not> sameCapacityResourceIdentity (ci_baseline i) (asm_snapshot (tp_assessment pf)) then Inl IntentConflict
              else if capacityIntentReduction i \<and> tp_inflight pf \<noteq> Some 0 then Inl InflightWork
              else if outcome = ''reconciled_partial'' \<and> partial_invalid p i pf then Inl PartialInvalid
              else if outcome = ''reconciled_failed_floor'' \<and> failed_floor_invalid p i pf then Inl FailedFloorInvalid
              else if outcome = ''aborted'' \<and> \<not> tp_no_mutation pf then Inl AbortUnproved
              else if (sn_profile (asm_snapshot (tp_assessment pf)), sn_units (asm_snapshot (tp_assessment pf))) \<noteq> wanted_state i outcome pf then Inl TargetMismatch
              else Inr (i\<lparr>ci_phase := outcome, ci_assessment := tp_assessment pf, ci_updated := now, ci_degraded := (outcome = ''reconciled_failed_floor''),
                          ci_lease_owner := [], ci_lease_executor := [], ci_lease_expires := None,
                          ci_decision := closed_clock ((ci_decision i)\<lparr>cd_permitted := False\<rparr>) now\<rparr>, tp_receipt pf)))"

definition Reconcile ::
  "capacity_env \<Rightarrow> (string \<Rightarrow> string option) \<Rightarrow> CapacityStore \<Rightarrow> capacity_tx \<Rightarrow> stored_policy \<Rightarrow> int \<Rightarrow> int \<Rightarrow> string \<Rightarrow> string \<Rightarrow> CapacityTransitionProof \<Rightarrow> capacity_db \<Rightarrow> intent_error + CapacityIntent \<times> capacity_db" where
  "Reconcile E uuid S T policy generation fence owner outcome pf db =
     capacityTransaction E T policy True (reconcile_mutation E uuid S policy generation fence owner outcome pf) db"

section \<open>Native execution\<close>

definition HPALifetimeExecutionMode :: string where
  "HPALifetimeExecutionMode = ''native_hpa_lifetime_v2''"

definition native_lifetime_mutation :: "(string \<Rightarrow> string option) \<Rightarrow> CapacityStore \<Rightarrow> string \<Rightarrow> stored_policy \<Rightarrow> int \<Rightarrow> CapacityAssessment \<Rightarrow> capacity_mutation" where
  "native_lifetime_mutation uuid S owner policy generation a p old now =
     (case old of
        None \<Rightarrow> Inl IntentConflict
      | Some i \<Rightarrow>
          if \<not> cs_enabled S \<or> \<not> cp_enabled p \<or> cp_hpa_mode p \<noteq> Some HPALifetimeExecutionMode \<or> \<not> validCapacityExecutor uuid (cs_executor S) \<or>
             ci_generation i \<noteq> generation \<or> \<not> same_policy policy i \<or> maxCapacityGeneration \<le> ci_fence i \<or> ValidateSnapshot p a now \<noteq> None \<or>
             \<not> sameCapacityResourceIdentity (asm_snapshot (ci_assessment i)) (asm_snapshot a)
          then Inl IntentConflict
          else if lease_live i now then Inl IntentLease
          else Inr (i\<lparr>ci_generation := (if ci_generation i = 0 then 1 else ci_generation i), ci_fence := ci_fence i + 1, ci_recovery := False,
                 ci_lease_owner := owner, ci_lease_executor := cs_executor S, ci_lease_expires := lease_until p now, ci_updated := now,
                 ci_baseline := (if sn_resource (ci_baseline i) = [] then asm_snapshot a else ci_baseline i), ci_phase := ''native_pending''\<rparr>, []))"

definition AcquireNativeLifetimeExecution ::
  "capacity_env \<Rightarrow> (string \<Rightarrow> string option) \<Rightarrow> CapacityStore \<Rightarrow> capacity_tx \<Rightarrow> stored_policy \<Rightarrow> CapacityIntent \<Rightarrow> CapacityAssessment \<Rightarrow> capacity_db \<Rightarrow> intent_error + CapacityIntent \<times> capacity_db" where
  "AcquireNativeLifetimeExecution E uuid S T policy intent a db =
     (if ci_phase intent = ''proposed'' then Claim E uuid S T policy (ci_generation intent) a db
      else capacityTransaction E T policy False (native_lifetime_mutation uuid S (tx_owner T) policy (ci_generation intent) a) db)"

definition resume_native_mutation :: "(string \<Rightarrow> string option) \<Rightarrow> CapacityStore \<Rightarrow> string \<Rightarrow> stored_policy \<Rightarrow> int \<Rightarrow> capacity_mutation" where
  "resume_native_mutation uuid S owner policy generation p old now =
     (case old of
        None \<Rightarrow> Inl IntentConflict
      | Some i \<Rightarrow>
          if \<not> cs_enabled S \<or> \<not> cp_enabled p \<or> cp_hpa_mode p = None \<or> \<not> cp_assessment_bound p \<or> \<not> validCapacityExecutor uuid (cs_executor S) \<or>
             ci_generation i \<noteq> generation \<or> \<not> same_policy policy i \<or> ci_phase i = ''proposed'' \<or> \<not> pendingCapacityPhase (ci_phase i) \<or>
             maxCapacityGeneration \<le> ci_fence i
          then Inl IntentConflict
          else if lease_live i now then Inl IntentLease
          else Inr (i\<lparr>ci_fence := ci_fence i + 1, ci_recovery := False, ci_lease_owner := owner, ci_lease_executor := cs_executor S,
                 ci_lease_expires := lease_until p now, ci_phase := ''native_pending'', ci_updated := now\<rparr>, []))"

definition ResumeNativeExecution ::
  "capacity_env \<Rightarrow> (string \<Rightarrow> string option) \<Rightarrow> CapacityStore \<Rightarrow> capacity_tx \<Rightarrow> stored_policy \<Rightarrow> int \<Rightarrow> capacity_db \<Rightarrow> intent_error + CapacityIntent \<times> capacity_db" where
  "ResumeNativeExecution E uuid S T policy generation db =
     capacityTransaction E T policy False (resume_native_mutation uuid S (tx_owner T) policy generation) db"

section \<open>One transaction\<close>

lemma tx_Inr:
  assumes "capacityTransaction E T policy h m db = Inr (j, db')"
  obtains p receipt where "parseCapacityPolicy E policy = Inr p"
    "m p (loadCapacityIntent db (policy_key policy p)) (tx_now T) = Inr (j, receipt)"
    "db' = store_intent (loadCapacityIntent db (policy_key policy p)) j receipt db"
proof -
  obtain p where p: "parseCapacityPolicy E policy = Inr p" using assms by (auto simp: capacityTransaction_def split: sum.splits)
  let ?prev = "loadCapacityIntent db (policy_key policy p)"
  obtain jr where m: "m p ?prev (tx_now T) = Inr jr"
    using assms p by (cases "m p ?prev (tx_now T)") (simp_all add: capacityTransaction_def Let_def split: option.splits prod.splits if_splits)
  obtain j' receipt where jr: "jr = (j', receipt)" by (cases jr) auto
  have "j' = j" "db' = store_intent ?prev j' receipt db"
    using assms p m jr by (auto simp: capacityTransaction_def Let_def split: option.splits prod.splits if_splits)
  then show thesis using that p m jr by simp
qed

lemma load_key: "loadCapacityIntent db k = Some i \<Longrightarrow> intent_key i = k"
  by (auto simp: loadCapacityIntent_def find_Some_iff)

lemma find_put:
  "find (\<lambda>i. intent_key i = k) (put_intent j rows) = (if intent_key j = k then Some j else find (\<lambda>i. intent_key i = k) rows)"
proof -
  have m: "find (\<lambda>i. intent_key i = k) (map (\<lambda>i. if intent_key i = intent_key j then j else i) rows) =
      (if intent_key j = k \<and> list_ex (\<lambda>i. intent_key i = intent_key j) rows then Some j else find (\<lambda>i. intent_key i = k) rows)"
    by (induction rows) auto
  have a: "find (\<lambda>i. intent_key i = k) (rows @ [j]) =
      (case find (\<lambda>i. intent_key i = k) rows of None \<Rightarrow> (if intent_key j = k then Some j else None) | Some i \<Rightarrow> Some i)" by (induction rows) auto
  show ?thesis
  proof (cases "list_ex (\<lambda>i. intent_key i = intent_key j) rows")
    case True
    then show ?thesis using m by (simp add: put_intent_def)
  next
    case False
    then have "intent_key j = k \<Longrightarrow> find (\<lambda>i. intent_key i = k) rows = None" by (auto simp: find_None_iff list_ex_iff)
    then show ?thesis using False a by (auto simp: put_intent_def split: option.splits)
  qed
qed

lemma load_store: "loadCapacityIntent (store_intent prev j receipt db) k = (if intent_key j = k then Some j else loadCapacityIntent db k)"
  by (simp add: loadCapacityIntent_def store_intent_def find_put)

section \<open>What a mutation does to an intent\<close>

definition outstanding :: "CapacityIntent \<Rightarrow> bool" where
  "outstanding i \<longleftrightarrow> pendingCapacityPhase (ci_phase i) \<and> ci_phase i \<noteq> ''proposed''"

text \<open>Neither the fence nor the generation of a dimension goes back.\<close>

definition follows :: "CapacityIntent option \<Rightarrow> CapacityIntent \<Rightarrow> bool" where
  "follows old j =
     (case old of
        None \<Rightarrow> 0 \<le> ci_fence j
      | Some i \<Rightarrow> ci_fence i \<le> ci_fence j \<and> ci_generation i \<le> ci_generation j)"

lemma follows_same: "follows (Some i) i"
  by (simp add: follows_def)

lemma assessed_intent_simps [simp]:
  "intent_key (assessed_intent policy p g f ph d a now) = policy_key policy p" "ci_generation (assessed_intent policy p g f ph d a now) = g"
  "ci_fence (assessed_intent policy p g f ph d a now) = f" "ci_phase (assessed_intent policy p g f ph d a now) = ph"
  by (simp_all add: assessed_intent_def intent_key_def policy_key_def)

lemma assess_fresh_Inr:
  assumes "assess_fresh E S policy a p old now g f c = Inr (j, r)"
  shows "intent_key j = policy_key policy p" "ci_fence j = f" "g \<le> ci_generation j" "ci_phase j = ''hold'' \<and> ci_generation j = g \<or> ci_phase j = ''proposed''"
    "(\<And>i. old = Some i \<Longrightarrow> ci_phase i \<noteq> ''proposed'') \<Longrightarrow> ci_phase j = ''proposed'' \<Longrightarrow> g < ci_generation j"
    "g \<le> maxCapacityGeneration \<Longrightarrow> ci_generation j \<le> maxCapacityGeneration"
proof -
  obtain d where d: "Assess E p a c now = Inr d" using assms by (cases "Assess E p a c now") (simp_all add: assess_fresh_def)
  note A = assms [unfolded assess_fresh_def d sum.case Let_def]
  show "intent_key j = policy_key policy p" "ci_fence j = f" "g \<le> ci_generation j" "ci_phase j = ''hold'' \<and> ci_generation j = g \<or> ci_phase j = ''proposed''"
    "g \<le> maxCapacityGeneration \<Longrightarrow> ci_generation j \<le> maxCapacityGeneration"
    using A by (simp_all split: if_splits) auto
  show "g < ci_generation j" if old: "\<And>i. old = Some i \<Longrightarrow> ci_phase i \<noteq> ''proposed''" and j: "ci_phase j = ''proposed''"
    using A old j by (auto split: if_splits option.splits)
qed

lemma assess_follows:
  assumes "assess_mutation E S policy a p old now = Inr (j, r)" "\<And>i. old = Some i \<Longrightarrow> intent_key i = policy_key policy p"
  shows "follows old j" "intent_key j = policy_key policy p" "\<And>i. old = Some i \<Longrightarrow> ci_fence j = ci_fence i"
proof -
  have "follows old j \<and> intent_key j = policy_key policy p \<and> (\<forall>i. old = Some i \<longrightarrow> ci_fence j = ci_fence i)"
  proof (cases old)
    case None
    then show ?thesis using assms(1) assess_fresh_Inr by (auto simp: assess_mutation_def follows_def)
  next
    case (Some i)
    show ?thesis
    proof (cases "ci_cleanup i \<noteq> [] \<or> outstanding i")
      case True
      then have "j = i" using assms(1) Some by (auto simp: assess_mutation_def outstanding_def split: if_splits)
      then show ?thesis using Some assms(2) follows_same by simp
    next
      case False
      then obtain c where f: "assess_fresh E S policy a p old now (ci_generation i) (ci_fence i) c = Inr (j, r)"
        using assms(1) Some by (auto simp: assess_mutation_def outstanding_def split: if_splits)
      note F = assess_fresh_Inr [OF f]
      show ?thesis using F(1-3) Some by (simp add: follows_def)
    qed
  qed
  then show "follows old j" "intent_key j = policy_key policy p" "\<And>i. old = Some i \<Longrightarrow> ci_fence j = ci_fence i" by auto
qed

lemma closed_clock_simps [simp]:
  "cd_action (closed_clock d now) = cd_action d" "cd_units (closed_clock d now) = cd_units d" "cd_profile (closed_clock d now) = cd_profile d"
  by (simp_all add: closed_clock_def)

lemma checkLease_Inr:
  assumes "checkLease uuid S p policy old g f owner now = Inr i"
  shows "old = Some i" "ci_generation i = g" "ci_fence i = f" "\<not> ci_recovery i" "pendingCapacityPhase (ci_phase i)" "lease_live i now"
    "ci_lease_owner i = owner" "ci_lease_executor i = cs_executor S"
  using assms by (auto simp: checkLease_def split: option.splits if_splits)

lemma checkRecoveryLease_Inr:
  assumes "checkRecoveryLease uuid S policy old g f owner now = Inr i"
  shows "old = Some i" "ci_generation i = g" "ci_fence i = f" "ci_recovery i" "outstanding i" "lease_live i now"
    "ci_lease_owner i = owner" "ci_lease_executor i = cs_executor S"
  using assms by (auto simp: checkRecoveryLease_def outstanding_def split: option.splits if_splits)

lemma claim_Inr:
  assumes "claim_mutation E uuid S owner policy g a p old now = Inr (j, r)"
  obtains i where "old = Some i" "ci_phase i = ''proposed''" "\<not> ci_recovery i" "\<not> lease_live i now" "ci_generation i = g"
    "j = i\<lparr>ci_assessment := a, ci_decision := (ci_decision i)\<lparr>cd_permitted := capacityProfileCurrent p (ci_decision i) now\<rparr>,
       ci_fence := ci_fence i + 1, ci_lease_owner := owner, ci_lease_executor := cs_executor S, ci_lease_expires := lease_until p now,
       ci_updated := now, ci_baseline := asm_snapshot a, ci_phase := (if cd_action (ci_decision i) = ''drain'' then ''draining'' else ''preparing'')\<rparr>"
  using assms by (auto simp: claim_mutation_def split: option.splits if_splits sum.splits)

lemma recover_Inr:
  assumes "recover_mutation uuid S owner policy g a p old now = Inr (j, r)"
  obtains i where "old = Some i" "outstanding i" "\<not> lease_live i now" "ci_generation i = g"
    "j = i\<lparr>ci_recovery := True, ci_decision := (ci_decision i)\<lparr>cd_permitted := False\<rparr>, ci_assessment := a, ci_updated := now,
       ci_fence := ci_fence i + 1, ci_lease_owner := owner, ci_lease_executor := cs_executor S, ci_lease_expires := lease_until p now\<rparr>"
  using assms by (auto simp: recover_mutation_def outstanding_def split: option.splits if_splits)

lemma advance_Inr:
  assumes "advance_mutation E uuid S policy g f owner phase pf p old now = Inr (j, r)"
  obtains i where "checkLease uuid S p policy old g f owner now = Inr i" "capacityTransitionAllowed (ci_phase i) phase" "j = advanced_intent p i phase pf now"
  using assms by (auto simp: advance_mutation_def split: option.splits if_splits sum.splits)

lemma reconcile_Inr:
  assumes "reconcile_mutation E uuid S policy g f owner outcome pf p old now = Inr (j, r)"
  obtains i where "checkRecoveryLease uuid S policy old g f owner now = Inr i" "outcome \<in> set recovery_outcomes"
    "j = i\<lparr>ci_phase := outcome, ci_assessment := tp_assessment pf, ci_updated := now, ci_degraded := (outcome = ''reconciled_failed_floor''),
       ci_lease_owner := [], ci_lease_executor := [], ci_lease_expires := None,
       ci_decision := closed_clock ((ci_decision i)\<lparr>cd_permitted := False\<rparr>) now\<rparr>"
  using assms by (auto simp: reconcile_mutation_def split: option.splits if_splits sum.splits)

lemma advanced_intent_simps [simp]:
  "intent_key (advanced_intent p i phase pf now) = intent_key i" "ci_fence (advanced_intent p i phase pf now) = ci_fence i"
  "ci_generation (advanced_intent p i phase pf now) = ci_generation i" "ci_phase (advanced_intent p i phase pf now) = phase"
  "ci_recovery (advanced_intent p i phase pf now) = ci_recovery i"
  by (simp_all add: advanced_intent_def Let_def intent_key_def)

text \<open>Claiming and recovering raise the token; the other mutations keep it.\<close>

lemma claim_follows:
  assumes "claim_mutation E uuid S owner policy g a p old now = Inr (j, r)"
  shows "follows old j" "\<exists>i. old = Some i \<and> intent_key j = intent_key i \<and> ci_fence j = ci_fence i + 1"
  by (rule claim_Inr [OF assms]; auto simp: follows_def outstanding_def intent_key_def pendingCapacityPhase_def)+

lemma recover_follows:
  assumes "recover_mutation uuid S owner policy g a p old now = Inr (j, r)"
  shows "follows old j" "\<exists>i. old = Some i \<and> intent_key j = intent_key i \<and> ci_fence j = ci_fence i + 1"
  by (rule recover_Inr [OF assms]; auto simp: follows_def outstanding_def intent_key_def)+

lemma renew_follows:
  assumes "renew_mutation uuid S policy g f owner p old now = Inr (j, r)"
  shows "follows old j" "\<exists>i. old = Some i \<and> intent_key j = intent_key i \<and> ci_fence j = ci_fence i \<and> ci_fence i = f"
proof -
  obtain i where i: "checkLease uuid S p policy old g f owner now = Inr i"
    "j = i\<lparr>ci_decision := (ci_decision i)\<lparr>cd_permitted := capacityProfileCurrent p (ci_decision i) now\<rparr>, ci_lease_expires := lease_until p now, ci_updated := now\<rparr>"
    using assms by (auto simp: renew_mutation_def split: sum.splits if_splits)
  note L = checkLease_Inr [OF i(1)]
  show "follows old j" "\<exists>i. old = Some i \<and> intent_key j = intent_key i \<and> ci_fence j = ci_fence i \<and> ci_fence i = f"
    using i(2) L by (simp_all add: follows_def intent_key_def)
qed

lemma advance_follows:
  assumes "advance_mutation E uuid S policy g f owner phase pf p old now = Inr (j, r)"
  shows "follows old j" "\<exists>i. old = Some i \<and> intent_key j = intent_key i \<and> ci_fence j = ci_fence i \<and> ci_fence i = f"
proof -
  obtain i where i: "checkLease uuid S p policy old g f owner now = Inr i" "capacityTransitionAllowed (ci_phase i) phase" "j = advanced_intent p i phase pf now"
    by (rule advance_Inr [OF assms])
  note L = checkLease_Inr [OF i(1)]
  show "follows old j" "\<exists>i. old = Some i \<and> intent_key j = intent_key i \<and> ci_fence j = ci_fence i \<and> ci_fence i = f"
    using i(2,3) L by (simp_all add: follows_def)
qed

lemma renew_recovery_follows:
  assumes "renew_recovery_mutation uuid S policy g f owner p old now = Inr (j, r)"
  shows "follows old j" "\<exists>i. old = Some i \<and> intent_key j = intent_key i \<and> ci_fence j = ci_fence i \<and> ci_fence i = f"
proof -
  obtain i where i: "checkRecoveryLease uuid S policy old g f owner now = Inr i"
    "j = i\<lparr>ci_decision := (ci_decision i)\<lparr>cd_permitted := False\<rparr>, ci_lease_expires := lease_until p now, ci_updated := now\<rparr>"
    using assms by (auto simp: renew_recovery_mutation_def split: sum.splits)
  note L = checkRecoveryLease_Inr [OF i(1)]
  show "follows old j" "\<exists>i. old = Some i \<and> intent_key j = intent_key i \<and> ci_fence j = ci_fence i \<and> ci_fence i = f"
    using i(2) L by (simp_all add: follows_def intent_key_def outstanding_def)
qed

lemma reconcile_follows:
  assumes "reconcile_mutation E uuid S policy g f owner outcome pf p old now = Inr (j, r)"
  shows "follows old j" "\<exists>i. old = Some i \<and> intent_key j = intent_key i \<and> ci_fence j = ci_fence i \<and> ci_fence i = f"
proof -
  obtain i where i: "checkRecoveryLease uuid S policy old g f owner now = Inr i" "outcome \<in> set recovery_outcomes"
    "j = i\<lparr>ci_phase := outcome, ci_assessment := tp_assessment pf, ci_updated := now, ci_degraded := (outcome = ''reconciled_failed_floor''),
       ci_lease_owner := [], ci_lease_executor := [], ci_lease_expires := None,
       ci_decision := closed_clock ((ci_decision i)\<lparr>cd_permitted := False\<rparr>) now\<rparr>"
    by (rule reconcile_Inr [OF assms])
  note L = checkRecoveryLease_Inr [OF i(1)]
  show "follows old j" "\<exists>i. old = Some i \<and> intent_key j = intent_key i \<and> ci_fence j = ci_fence i \<and> ci_fence i = f"
    using i(2,3) L by (simp_all add: follows_def intent_key_def outstanding_def)
qed

lemma native_follows:
  assumes "native_lifetime_mutation uuid S owner policy g a p old now = Inr (j, r)"
  shows "follows old j" "\<exists>i. old = Some i \<and> intent_key j = intent_key i \<and> ci_fence j = ci_fence i + 1"
  using assms by (auto simp: native_lifetime_mutation_def follows_def intent_key_def split: option.splits if_splits)

lemma resume_follows:
  assumes "resume_native_mutation uuid S owner policy g p old now = Inr (j, r)"
  shows "follows old j" "\<exists>i. old = Some i \<and> intent_key j = intent_key i \<and> ci_fence j = ci_fence i + 1"
  using assms by (auto simp: resume_native_mutation_def follows_def intent_key_def split: option.splits if_splits)

section \<open>Histories\<close>

inductive capacity_step :: "capacity_env \<Rightarrow> (string \<Rightarrow> string option) \<Rightarrow> capacity_db \<Rightarrow> capacity_db \<Rightarrow> bool" for E uuid where
  Assessed: "AssessIntent E S T policy a db = Inr (j, db') \<Longrightarrow> capacity_step E uuid db db'"
| Claimed: "Claim E uuid S T policy g a db = Inr (j, db') \<Longrightarrow> capacity_step E uuid db db'"
| Renewed: "Renew E uuid S T policy g f owner db = Inr (j, db') \<Longrightarrow> capacity_step E uuid db db'"
| Advanced: "Advance E uuid S T policy g f owner phase pf db = Inr (j, db') \<Longrightarrow> capacity_step E uuid db db'"
| Recovered: "Recover E uuid S T policy g a db = Inr (j, db') \<Longrightarrow> capacity_step E uuid db db'"
| RecoveryRenewed: "RenewRecovery E uuid S T policy g f owner db = Inr (j, db') \<Longrightarrow> capacity_step E uuid db db'"
| Reconciled: "Reconcile E uuid S T policy g f owner outcome pf db = Inr (j, db') \<Longrightarrow> capacity_step E uuid db db'"
| NativeAcquired: "AcquireNativeLifetimeExecution E uuid S T policy intent a db = Inr (j, db') \<Longrightarrow> capacity_step E uuid db db'"
| NativeResumed: "ResumeNativeExecution E uuid S T policy g db = Inr (j, db') \<Longrightarrow> capacity_step E uuid db db'"

definition row_moves :: "capacity_db \<Rightarrow> capacity_db \<Rightarrow> string \<times> string \<times> string \<times> string \<Rightarrow> bool" where
  "row_moves db db' k \<longleftrightarrow> loadCapacityIntent db' k = loadCapacityIntent db k \<or>
     (\<exists>j. loadCapacityIntent db' k = Some j \<and> follows (loadCapacityIntent db k) j)"

lemma tx_moves:
  assumes "capacityTransaction E T policy h m db = Inr (j, db')"
    "\<And>p old r. m p old (tx_now T) = Inr (j, r) \<Longrightarrow> (\<And>i. old = Some i \<Longrightarrow> intent_key i = policy_key policy p) \<Longrightarrow>
       follows old j \<and> intent_key j = policy_key policy p"
  shows "row_moves db db' k"
proof -
  obtain p receipt where p: "m p (loadCapacityIntent db (policy_key policy p)) (tx_now T) = Inr (j, receipt)"
    "db' = store_intent (loadCapacityIntent db (policy_key policy p)) j receipt db" by (rule tx_Inr [OF assms(1)])
  have "follows (loadCapacityIntent db (policy_key policy p)) j \<and> intent_key j = policy_key policy p"
    by (rule assms(2) [OF p(1)]) (rule load_key)
  then show ?thesis using p(2) by (auto simp: row_moves_def load_store)
qed

lemma held_moves:
  assumes "follows old j" "\<exists>i. old = Some i \<and> intent_key j = intent_key i \<and> P i" "\<And>i. old = Some i \<Longrightarrow> intent_key i = k"
  shows "follows old j \<and> intent_key j = k"
  using assms by auto

lemma step_moves:
  assumes "capacity_step E uuid db db'"
  shows "row_moves db db' k"
  using assms
proof cases
  case (Assessed S T policy a j)
  then obtain j' where t: "capacityTransaction E T policy False (assess_mutation E S policy a) db = Inr (j', db')"
    by (auto simp: AssessIntent_def map_sum_Inr)
  show ?thesis by (rule tx_moves [OF t]) (use assess_follows in blast)
next
  case (Claimed S T policy g a j)
  show ?thesis by (rule tx_moves [OF Claimed [unfolded Claim_def]], rule held_moves [OF claim_follows])
next
  case (Renewed S T policy g f owner j)
  show ?thesis by (rule tx_moves [OF Renewed [unfolded Renew_def]], rule held_moves [OF renew_follows])
next
  case (Advanced S T policy g f owner phase pf j)
  show ?thesis by (rule tx_moves [OF Advanced [unfolded Advance_def]], rule held_moves [OF advance_follows])
next
  case (Recovered S T policy g a j)
  show ?thesis by (rule tx_moves [OF Recovered [unfolded Recover_def]], rule held_moves [OF recover_follows])
next
  case (RecoveryRenewed S T policy g f owner j)
  show ?thesis by (rule tx_moves [OF RecoveryRenewed [unfolded RenewRecovery_def]], rule held_moves [OF renew_recovery_follows])
next
  case (Reconciled S T policy g f owner outcome pf j)
  show ?thesis by (rule tx_moves [OF Reconciled [unfolded Reconcile_def]], rule held_moves [OF reconcile_follows])
next
  case (NativeAcquired S T policy intent a j)
  show ?thesis
  proof (cases "ci_phase intent = ''proposed''")
    case True
    then have c: "Claim E uuid S T policy (ci_generation intent) a db = Inr (j, db')"
      using NativeAcquired by (simp add: AcquireNativeLifetimeExecution_def)
    show ?thesis by (rule tx_moves [OF c [unfolded Claim_def]], rule held_moves [OF claim_follows])
  next
    case False
    then have n: "capacityTransaction E T policy False (native_lifetime_mutation uuid S (tx_owner T) policy (ci_generation intent) a) db = Inr (j, db')"
      using NativeAcquired by (simp add: AcquireNativeLifetimeExecution_def)
    show ?thesis by (rule tx_moves [OF n], rule held_moves [OF native_follows])
  qed
next
  case (NativeResumed S T policy g j)
  show ?thesis by (rule tx_moves [OF NativeResumed [unfolded ResumeNativeExecution_def]], rule held_moves [OF resume_follows])
qed

section \<open>Fencing\<close>

text \<open>
  The contract of a fencing token: it never decreases, a grant of the lease raises it, and an operation under a lease
  succeeds only with the current token. A lease that another one followed is then dead.
\<close>

locale fencing =
  fixes step :: "'s \<Rightarrow> 's \<Rightarrow> bool" and token :: "'s \<Rightarrow> int" and grant :: "'s \<Rightarrow> int \<Rightarrow> 's \<Rightarrow> bool" and uses :: "'s \<Rightarrow> int \<Rightarrow> bool"
  assumes token_mono: "step s s' \<Longrightarrow> token s \<le> token s'"
    and grant_raises: "grant s f s' \<Longrightarrow> token s < f \<and> token s' = f"
    and uses_current: "uses s f \<Longrightarrow> f = token s"
begin

lemma token_run: "step\<^sup>*\<^sup>* s s' \<Longrightarrow> token s \<le> token s'"
  by (induction rule: rtranclp_induct) (auto dest: token_mono)

lemma fenced_out:
  assumes "grant s0 f s1" "step\<^sup>*\<^sup>* s1 s2" "grant s2 g s3" "step\<^sup>*\<^sup>* s3 s4"
  shows "\<not> uses s4 f"
proof -
  have "f \<le> token s2" using grant_raises [OF assms(1)] token_run [OF assms(2)] by simp
  also have "token s2 < g" using grant_raises [OF assms(3)] by simp
  also have "g \<le> token s4" using grant_raises [OF assms(3)] token_run [OF assms(4)] by simp
  finally show ?thesis using uses_current by fastforce
qed

end

type_synonym dimension_key = "string \<times> string \<times> string \<times> string"

definition fence_of :: "dimension_key \<Rightarrow> capacity_db \<Rightarrow> int" where
  "fence_of k db = (case loadCapacityIntent db k of None \<Rightarrow> 0 | Some i \<Rightarrow> ci_fence i)"

text \<open>
  A lease is granted by \<open>Claim\<close> and \<open>Recover\<close>, and by the native executions that take a lease over once it has expired;
  it is used by the four operations that present its token.
\<close>

definition lease_granted :: "capacity_env \<Rightarrow> (string \<Rightarrow> string option) \<Rightarrow> dimension_key \<Rightarrow> capacity_db \<Rightarrow> int \<Rightarrow> capacity_db \<Rightarrow> bool" where
  "lease_granted E uuid k db f db' \<longleftrightarrow>
     (\<exists>S T policy g a intent j.
        (Claim E uuid S T policy g a db = Inr (j, db') \<or> Recover E uuid S T policy g a db = Inr (j, db') \<or>
         AcquireNativeLifetimeExecution E uuid S T policy intent a db = Inr (j, db') \<or> ResumeNativeExecution E uuid S T policy g db = Inr (j, db')) \<and>
        intent_key j = k \<and> ci_fence j = f)"

definition lease_used :: "capacity_env \<Rightarrow> (string \<Rightarrow> string option) \<Rightarrow> dimension_key \<Rightarrow> capacity_db \<Rightarrow> int \<Rightarrow> bool" where
  "lease_used E uuid k db f \<longleftrightarrow>
     (\<exists>S T policy g owner phase pf j db'. intent_key j = k \<and>
        (Renew E uuid S T policy g f owner db = Inr (j, db') \<or> Advance E uuid S T policy g f owner phase pf db = Inr (j, db') \<or>
         RenewRecovery E uuid S T policy g f owner db = Inr (j, db') \<or> Reconcile E uuid S T policy g f owner phase pf db = Inr (j, db')))"

lemma grant_effect_fence:
  assumes "capacityTransaction E T policy h m db = Inr (j, db')"
    "\<And>p old r. m p old (tx_now T) = Inr (j, r) \<Longrightarrow> \<exists>i. old = Some i \<and> intent_key j = intent_key i \<and> ci_fence j = ci_fence i + 1"
  shows "fence_of (intent_key j) db < ci_fence j \<and> fence_of (intent_key j) db' = ci_fence j"
proof -
  obtain p receipt where p: "m p (loadCapacityIntent db (policy_key policy p)) (tx_now T) = Inr (j, receipt)"
    "db' = store_intent (loadCapacityIntent db (policy_key policy p)) j receipt db" by (rule tx_Inr [OF assms(1)])
  obtain i where i: "loadCapacityIntent db (policy_key policy p) = Some i" "intent_key j = intent_key i" "ci_fence j = ci_fence i + 1"
    using assms(2) [OF p(1)] by blast
  have "intent_key i = policy_key policy p" by (rule load_key [OF i(1)])
  then show ?thesis using i p(2) by (simp add: fence_of_def load_store)
qed

lemma use_effect_fence:
  assumes "capacityTransaction E T policy h m db = Inr (j, db')"
    "\<And>p old r. m p old (tx_now T) = Inr (j, r) \<Longrightarrow> \<exists>i. old = Some i \<and> intent_key j = intent_key i \<and> ci_fence j = ci_fence i \<and> ci_fence i = f"
  shows "f = fence_of (intent_key j) db"
proof -
  obtain p receipt where p: "m p (loadCapacityIntent db (policy_key policy p)) (tx_now T) = Inr (j, receipt)" by (rule tx_Inr [OF assms(1)])
  obtain i where i: "loadCapacityIntent db (policy_key policy p) = Some i" "intent_key j = intent_key i" "ci_fence i = f"
    using assms(2) [OF p(1)] by blast
  have "intent_key i = policy_key policy p" by (rule load_key [OF i(1)])
  then show ?thesis using i by (simp add: fence_of_def)
qed

lemma grant_fences:
  "Claim E uuid S T policy g a db = Inr (j, db') \<Longrightarrow> fence_of (intent_key j) db < ci_fence j \<and> fence_of (intent_key j) db' = ci_fence j"
  "Recover E uuid S T policy g a db = Inr (j, db') \<Longrightarrow> fence_of (intent_key j) db < ci_fence j \<and> fence_of (intent_key j) db' = ci_fence j"
  "ResumeNativeExecution E uuid S T policy g db = Inr (j, db') \<Longrightarrow> fence_of (intent_key j) db < ci_fence j \<and> fence_of (intent_key j) db' = ci_fence j"
  unfolding Claim_def Recover_def ResumeNativeExecution_def
  by (erule grant_effect_fence, erule claim_follows(2) recover_follows(2) resume_follows(2))+

lemma native_fences:
  assumes "AcquireNativeLifetimeExecution E uuid S T policy intent a db = Inr (j, db')"
  shows "fence_of (intent_key j) db < ci_fence j \<and> fence_of (intent_key j) db' = ci_fence j"
proof (cases "ci_phase intent = ''proposed''")
  case True
  then show ?thesis using assms grant_fences(1) by (simp add: AcquireNativeLifetimeExecution_def)
next
  case False
  then have "capacityTransaction E T policy False (native_lifetime_mutation uuid S (tx_owner T) policy (ci_generation intent) a) db = Inr (j, db')"
    using assms by (simp add: AcquireNativeLifetimeExecution_def)
  then show ?thesis by (rule grant_effect_fence) (erule native_follows(2))
qed

lemma use_fences:
  "Renew E uuid S T policy g f owner db = Inr (j, db') \<Longrightarrow> f = fence_of (intent_key j) db"
  "Advance E uuid S T policy g f owner phase pf db = Inr (j, db') \<Longrightarrow> f = fence_of (intent_key j) db"
  "RenewRecovery E uuid S T policy g f owner db = Inr (j, db') \<Longrightarrow> f = fence_of (intent_key j) db"
  "Reconcile E uuid S T policy g f owner outcome pf db = Inr (j, db') \<Longrightarrow> f = fence_of (intent_key j) db"
  unfolding Renew_def Advance_def RenewRecovery_def Reconcile_def
  by (erule use_effect_fence, erule renew_follows(2)) (erule use_effect_fence, erule advance_follows(2) renew_recovery_follows(2) reconcile_follows(2))+

interpretation ledger: fencing "capacity_step E uuid" "fence_of k" "lease_granted E uuid k" "lease_used E uuid k" for E uuid k
proof unfold_locales
  fix db db' assume "capacity_step E uuid db db'"
  from step_moves [OF this, of k] show "fence_of k db \<le> fence_of k db'"
    by (auto simp: row_moves_def fence_of_def follows_def split: option.splits)
next
  fix db f db' assume "lease_granted E uuid k db f db'"
  then show "fence_of k db < f \<and> fence_of k db' = f" unfolding lease_granted_def by (elim exE conjE disjE) (auto dest: grant_fences native_fences)
next
  fix db f assume "lease_used E uuid k db f"
  then show "f = fence_of k db" unfolding lease_used_def by (elim exE conjE disjE) (auto dest: use_fences)
qed

section \<open>Properties\<close>

text \<open>C11: A capacity lease that was superseded is dead. Once another lease of the same dimension has been granted, by a claim, by a recovery or by a native execution that takes an expired lease over, nothing can be renewed, advanced or reconciled with the token of the earlier one, whatever operations come in between and after and whatever the clocks of the executors say.\<close>
theorem superseded_lease_refused:
  assumes "lease_granted E uuid k db0 f db1" "(capacity_step E uuid)\<^sup>*\<^sup>* db1 db2"
    "lease_granted E uuid k db2 g db3" "(capacity_step E uuid)\<^sup>*\<^sup>* db3 db4"
  shows "\<not> lease_used E uuid k db4 f"
  by (rule ledger.fenced_out [OF assms])

section \<open>Examples\<close>

definition ex_stored_policy :: stored_policy where
  "ex_stored_policy = \<lparr>sp_kind = ''capacity_policy'', sp_id = ''p'', sp_checksum = ''c'', sp_namespace = ''global'', sp_name = ''web'',
     sp_spec = Some (ex_capacity_policy\<lparr>cp_assessment_bound := True, cp_hpa_mode := Some HPALifetimeExecutionMode\<rparr>)\<rparr>"

definition ex_capacity_store :: CapacityStore where
  "ex_capacity_store = \<lparr>cs_enabled = True, cs_executor = ''x''\<rparr>"

definition ex_tx :: "int \<Rightarrow> string \<Rightarrow> capacity_tx" where
  "ex_tx seconds owner = \<lparr>tx_now = seconds * Second, tx_row = Some (''c'', True), tx_workflow_ok = True, tx_admits = True, tx_guards = (\<lambda>_ _. True),
     tx_unresolved = 0, tx_slots = (0, 0, 0), tx_ensured = 0, tx_mutations = 0, tx_owner = owner\<rparr>"

definition ex_next :: "intent_error + CapacityIntent \<times> capacity_db \<Rightarrow> capacity_db" where
  "ex_next r = (case r of Inl _ \<Rightarrow> \<lparr>cdb_intents = [], cdb_events = []\<rparr> | Inr (_, db) \<Rightarrow> db)"

definition ex_proposed :: capacity_db where
  "ex_proposed = ex_next (AssessIntent ex_capacity_env ex_capacity_store (ex_tx 115 []) ex_stored_policy (ex_observation 115 10)
     (ex_next (AssessIntent ex_capacity_env ex_capacity_store (ex_tx 100 []) ex_stored_policy (ex_observation 100 10) \<lparr>cdb_intents = [], cdb_events = []\<rparr>)))"

definition ex_claim :: "intent_error + CapacityIntent \<times> capacity_db" where
  "ex_claim = Claim ex_capacity_env Some ex_capacity_store (ex_tx 116 ''o1'') ex_stored_policy 1 (ex_observation 116 10) ex_proposed"

definition ex_recover :: "intent_error + CapacityIntent \<times> capacity_db" where
  "ex_recover = Recover ex_capacity_env Some ex_capacity_store (ex_tx 150 ''o2'') ex_stored_policy 1 (ex_observation 150 10) (ex_next ex_claim)"

definition ex_key :: dimension_key where
  "ex_key = (''global'', ''prod'', ''web'', ''replicas'')"

lemma ex_claim_ok: "(case ex_claim of Inl _ \<Rightarrow> False | Inr (j, db) \<Rightarrow> intent_key j = ex_key \<and> ci_fence j = 1 \<and> ci_phase j = ''draining'')"
  by code_simp

lemma ex_recover_ok: "(case ex_recover of Inl _ \<Rightarrow> False | Inr (j, db) \<Rightarrow> intent_key j = ex_key \<and> ci_fence j = 2 \<and> ci_phase j = ''draining'')"
  by code_simp

lemma ex_claimed: "\<exists>j. Claim ex_capacity_env Some ex_capacity_store (ex_tx 116 ''o1'') ex_stored_policy 1 (ex_observation 116 10) ex_proposed = Inr (j, ex_next ex_claim) \<and>
    intent_key j = ex_key \<and> ci_fence j = 1 \<and> ci_phase j = ''draining''"
proof (cases ex_claim)
  case (Inl e)
  show ?thesis using ex_claim_ok [unfolded Inl] by simp
next
  case (Inr r)
  show ?thesis using ex_claim_ok [unfolded Inr] unfolding ex_claim_def [symmetric] Inr by (cases r) (simp add: ex_next_def)
qed

lemma ex_recovered: "\<exists>j. Recover ex_capacity_env Some ex_capacity_store (ex_tx 150 ''o2'') ex_stored_policy 1 (ex_observation 150 10) (ex_next ex_claim) = Inr (j, ex_next ex_recover) \<and>
    intent_key j = ex_key \<and> ci_fence j = 2"
proof (cases ex_recover)
  case (Inl e)
  show ?thesis using ex_recover_ok [unfolded Inl] by simp
next
  case (Inr r)
  show ?thesis using ex_recover_ok [unfolded Inr] unfolding ex_recover_def [symmetric] Inr by (cases r) (simp add: ex_next_def)
qed

lemma ex_grants: "lease_granted ex_capacity_env Some ex_key ex_proposed 1 (ex_next ex_claim)"
  "lease_granted ex_capacity_env Some ex_key (ex_next ex_claim) 2 (ex_next ex_recover)"
  unfolding lease_granted_def using ex_claimed ex_recovered by blast+

theorem superseded_lease_refused_witness: "\<not> lease_used ex_capacity_env Some ex_key (ex_next ex_recover) 1"
  by (rule superseded_lease_refused [OF ex_grants(1) rtranclp.rtrancl_refl ex_grants(2) rtranclp.rtrancl_refl])

text \<open>
  A recovered generation can execute again. With a policy bound to native lifetimes, a native execution that takes an
  expired recovery lease over keeps the generation, clears the recovery mark and may be renewed like a claim.
\<close>

definition ex_reopened :: "intent_error + CapacityIntent \<times> capacity_db" where
  "ex_reopened = AcquireNativeLifetimeExecution ex_capacity_env Some ex_capacity_store (ex_tx 200 ''o3'') ex_stored_policy
     (hd (cdb_intents (ex_next ex_recover))) (ex_observation 200 10) (ex_next ex_recover)"

lemma recovered_generation_reopens:
  "(case ex_recover of Inl _ \<Rightarrow> False | Inr (j, db) \<Rightarrow> ci_recovery j \<and> ci_generation j = 1)"
  "(case ex_reopened of Inl _ \<Rightarrow> False | Inr (j, db) \<Rightarrow> \<not> ci_recovery j \<and> ci_generation j = 1 \<and> ci_phase j = ''native_pending'' \<and>
     (case Renew ex_capacity_env Some ex_capacity_store (ex_tx 201 []) ex_stored_policy 1 (ci_fence j) ''o3'' db of Inl _ \<Rightarrow> False | Inr _ \<Rightarrow> True))"
  by code_simp+

end
