(* ===== verification/Spec2Isabelle.thy ===== *)
theory Spec2Isabelle
  imports Authorization Workflow_Run Workflow_Inputs Integration_Instance Workflow_Scheduler Manifest_Sync Workflow_Triggers Run_Gate Team_Protection Event_Publish Status_Clock Login_Lockout Oidc_Chains Scim_Access Capacity_Ledger
begin

text \<open>
  A verification of the core of \<open>yggdrasil-core\<close>, the control plane of a platform: a Go service over PostgreSQL that
  stores typed manifests, runs workflows against integrations, records and distributes events, and decides who may do
  what. Paths below are under \<open>src\<close>.

  \<^bold>\<open>The program and its parts.\<close> Manifests (integration types and instances, workflows, RBAC and policy documents) are
  versioned rows. A workflow is a graph of steps; a run orders the steps, renders their inputs from templates,
  evaluates conditions, calls adapters and records redacted results. Runs start from an HTTP request of a collaborator
  or of a machine credential, from a cron tick or from an event. Events are appended to a log with an idempotency key;
  in the same transaction a row is written for every reactor that is due, and workers deliver these rows with retries.
  Authorization combines RBAC rules and policies over the subjects of a caller: the collaborator, its teams and their
  ancestors. Collaborators have a life cycle; their status governs login, console sessions and the grants of the
  OpenID provider.

  \<^bold>\<open>How the code is modelled.\<close> A struct is a record, a closed set of errors a datatype, a fallible function returns a
  sum with the error on the left, a validator an optional error. A table is a list of rows in insertion order; a
  transaction is a function on the tables that returns either an error, in which case the caller keeps the old
  tables, or the new ones. A Go map is an association list whose order stands for one iteration order. Strings are
  byte strings, instants are nanoseconds, and machine words appear where the code relies on their width. What the
  sources do not define (hashes, UUID and JSON parsers, the clock, random draws, the cron library, adapters, the
  environment) is an argument; what a theorem needs of such an argument is a hypothesis or a named predicate. Loops
  are structural or have a termination proof; three walks over stored links that need not end are partial functions
  whose value None means that they do not end, and each is proved to return on the tables it is used on. No fuel
  is used.

  \<^bold>\<open>Language and library.\<close>
  \<^item> \<open>Go_Prelude\<close>, \<open>Go_Value\<close>, \<open>Go_Time\<close>, \<open>Go_Path\<close>: strings, dynamic values, instants and \<open>path.Match\<close>, with the
    collections of rewrite rules that the components share.
  \<^item> \<open>Decision\<close>, \<open>Once_Ledger\<close>, \<open>Cursor_Scan\<close>: the interfaces that several components implement, as locales.

  \<^bold>\<open>Authorization.\<close>
  \<^item> \<open>Rbac\<close> (\<open>manifest/rbac.go\<close>), \<open>Policy\<close> (\<open>manifest/policy.go\<close>), \<open>Authorization\<close> (\<open>manifest/authorization.go\<close>): the
    evaluators. Both decide by the contract \<open>deny_overrides\<close>, which is interpreted on each, and the combined decision
    refines the two.
  \<^item> \<open>Identity\<close>, \<open>Team_Ancestry\<close>, \<open>Team_Protection\<close> (\<open>repository/identity.go\<close>): teams, memberships and grants; the
    subjects of a caller are exactly the closure under active parents, and no sequence of operations demotes a
    root-admin team or revokes the last management grant.

  \<^bold>\<open>Workflows.\<close>
  \<^item> \<open>Manifest_Names\<close>, \<open>Integration_Type\<close>, \<open>Workflow_Model\<close>, \<open>Workflow_Spec\<close>, \<open>Workflow_Inputs\<close>, \<open>Workflow_Assert\<close>
    (\<open>manifest/integration_type.go\<close>, \<open>manifest/workflow.go\<close>, \<open>manifest/workflow_assert.go\<close>, \<open>model\<close>): the documents
    and their validators.
  \<^item> \<open>Integration_Instance\<close> (\<open>manifest/integration_instance.go\<close>, \<open>manifest/integration_inputs.go\<close>,
    \<open>manifest/capability_naming.go\<close>): instances, the check of their inputs against the schemas of their type, which accepts
    exactly the conforming ones, and the naming convention of capabilities.
  \<^item> \<open>Workflow_Order\<close>, \<open>Workflow_Template\<close>, \<open>Workflow_Condition\<close> (\<open>manifest/workflow.go\<close>): the topological order,
    which exists exactly for acyclic graphs, the template renderer, and the conditions with their grammar.
  \<^item> \<open>Sensitive_Output\<close>, \<open>Sensitive_Lease\<close>, \<open>Workflow_Engine\<close>, \<open>Workflow_Run\<close> (\<open>controllers/message/workflows*.go\<close>):
    redaction, the lease that carries a generated secret to one later step, the engine and what a run guarantees.
  \<^item> \<open>Workflow_Schedule\<close>, \<open>Workflow_Scheduler\<close>, \<open>Dispatch_Lock\<close>, \<open>Workflow_Triggers\<close> (\<open>addons/workflow_scheduler.go\<close>,
    \<open>internal/workflowdispatchlock\<close>, \<open>addons/workflow_event_triggers.go\<close>): cron ticks and event triggers, each of
    which starts a workflow at most once, whatever workers race.
  \<^item> \<open>Run_Rows\<close>, \<open>Run_Dispatch\<close>, \<open>Run_Gate\<close> (\<open>repository/workflow_run.go\<close>, \<open>controllers/httpapi/workflow_runs.go\<close>,
    \<open>controllers/message\<close>): durable runs with idempotency keys and the route that starts them.

  \<^bold>\<open>Manifests and events.\<close>
  \<^item> \<open>Manifest_Store\<close>, \<open>Manifest_Sync\<close> (\<open>repository/manifest.go\<close>, \<open>internal/manifestsync\<close>): versions, listing, deletion
    and the synchronisation of integration types with their adapters.
  \<^item> \<open>Event_Log\<close>, \<open>Reactors\<close>, \<open>Event_Publish\<close> (\<open>repository/event.go\<close>, \<open>internal/reactors\<close>,
    \<open>controllers/httpapi/events_publish*.go\<close>): emission, fan-out, the stream, delivery and the publishing route.
    Emission, run keys, cron ticks and trigger matches are interpretations of \<open>once_ledger\<close>; the stream and the
    manifest listing are interpretations of \<open>cursor_scan\<close>.
  \<^item> \<open>Machine_Principals\<close>, \<open>Machine_Auth\<close> (\<open>controllers/httpapi/machine_principals.go\<close>, \<open>workflow_run_auth.go\<close> and
    others): inventories of hashed credentials and the authentication of machine requests; the three inventories
    interpret \<open>principal_inventory\<close>.

  \<^bold>\<open>People and sessions.\<close>
  \<^item> \<open>Collaborator_State\<close> (\<open>internal/collaboratorstate\<close>, \<open>repository/identity.go\<close>): the life cycle and its write path.
  \<^item> \<open>Sessions\<close>, \<open>Session_Policy\<close>, \<open>Status_Clock\<close>, \<open>Login_Lockout\<close> (\<open>repository/auth.go\<close>,
    \<open>repository/collaborator_session_termination.go\<close>, \<open>addons/collaborator_status_clock.go\<close>): console sessions, what a
    status change does to them, the daily clock, and password login with its lockout.
  \<^item> \<open>Oidc_Grants\<close>, \<open>Oidc_Chains\<close> (\<open>repository/oidc_auth.go\<close>, \<open>controllers/oidc/storage.go\<close>): codes and rotating refresh
    tokens. Console sessions and refresh tokens both interpret \<open>session_gate\<close>: what existed while its holder could
    not sign in is never usable again.
  \<^item> \<open>Scim_Filter\<close>, \<open>Scim_Directory\<close>, \<open>Scim_Access\<close> (\<open>internal/auth/scim\<close>, \<open>repository/scim_client.go\<close>,
    \<open>controllers/httpapi/scim_admin.go\<close>): the filter language, the projection of the directory for identity consumers, its
    credentials and routes. Printed filters parse back, pages are complete, a revoked credential stays dead.

  \<^bold>\<open>Capacity.\<close>
  \<^item> \<open>Capacity_Planner\<close> (\<open>internal/capacity/planner.go\<close>): policies and the assessment of an observation. Decisions stay in
    the envelope of the policy, missing evidence holds, and a reduction needs an unbroken row of surplus observations.
  \<^item> \<open>Capacity_Ledger\<close> (\<open>repository/capacity.go\<close>, and the two native executions that take a lease over, of
    \<open>repository/capacity_native_lifetimes.go\<close> and \<open>repository/capacity_native_execution.go\<close>): the durable intents with
    generations, leases and fencing tokens, an interpretation of \<open>fencing\<close>: a superseded lease is dead. The histories are those of
    the nine modelled operations; the other writers of the intent row are listed in the theory.

  \<^bold>\<open>Concurrency.\<close> A database statement or transaction is one step. Races between workers are sequences of such steps
  in any order: the ledgers, the sessions, the grants and the teams have step relations, and their properties hold for
  every reachable state. Isolation anomalies of PostgreSQL below that level are not modelled; where the code tolerates
  a failed statement, the success of the statement is an argument or the text of the theory says that it is assumed.

  \<^bold>\<open>Not modelled.\<close> The validators of products, control planes and guardian policies; the
  reconciler and the provisioner, which are loops over Kubernetes and secret stores; mutation grants,
  guests and hosts of the capacity domain, most of whose lines drive hypervisors, provider APIs and kernel interfaces, and
  with them the plans, completions, dispositions and disposals that write the row of a capacity intent from there;
  the transport of adapter calls over AMQP and HTTP; request decoding, pages and assets of the HTTP API; signing keys and
  claims of the OpenID provider; second factors, recovery links and password hashing; the fixed vocabulary of native
  qualification events in \<open>repository/event.go\<close>. Where a modelled operation calls one of these, the call is an argument.
\<close>

end
